(* ===== verification/Prelude.thy ===== *)
theory Prelude
  imports Complex_Main "HOL-Library.Char_ord" "HOL-Library.List_Lexorder"
    "HOL-Library.Product_Lexorder" "HOL-Library.AList"
begin

text \<open>
  The shared prelude: the Python string operations the sources use, JSON values, the
  row-table operations behind every SQLAlchemy statement of the code (lookup by primary
  key, \<open>UPDATE ... WHERE\<close>, \<open>SELECT count\<close>), and the interface of the
  compare-and-swap claim that runs, replies and approvals share.  Strings are lists of
  one-byte characters, so the model covers texts of code points below 256.
\<close>

named_theorems table_simps \<open>facts about row tables\<close>
named_theorems guard_simps \<open>unfoldings of the handlers' guards\<close>

type_synonym ident = string        \<comment> \<open>32-digit hexadecimal primary keys\<close>
type_synonym instant = int         \<comment> \<open>UTC timestamps, in microseconds\<close>

section \<open>Strings, as Python's str operations\<close>

definition starts_with :: "string \<Rightarrow> string \<Rightarrow> bool" where
  "starts_with p s = (take (length p) s = p)"

definition ends_with :: "string \<Rightarrow> string \<Rightarrow> bool" where
  "ends_with p s = starts_with (rev p) (rev s)"

definition remove_suffix :: "string \<Rightarrow> string \<Rightarrow> string" where
  "remove_suffix p s = (if p \<noteq> [] \<and> ends_with p s then take (length s - length p) s else s)"

definition is_space :: "char \<Rightarrow> bool" where
  "is_space c = (let n = (of_char c :: nat) in
     (9 \<le> n \<and> n \<le> 13) \<or> (28 \<le> n \<and> n \<le> 32) \<or> n = 133 \<or> n = 160)"

definition is_digit :: "char \<Rightarrow> bool" where
  "is_digit c = (CHR ''0'' \<le> c \<and> c \<le> CHR ''9'')"

definition lstrip :: "string \<Rightarrow> string" where
  "lstrip = dropWhile is_space"

definition strip :: "string \<Rightarrow> string" where
  "strip s = rev (lstrip (rev (lstrip s)))"

definition lower_char :: "char \<Rightarrow> char" where
  "lower_char c = (if CHR ''A'' \<le> c \<and> c \<le> CHR ''Z'' then char_of (of_char c + (32 :: nat)) else c)"

definition lower :: "string \<Rightarrow> string" where
  "lower = map lower_char"

text \<open>\<open>s.partition(c)\<close>: the text before the first \<open>c\<close> and the text after it.\<close>

definition part_before :: "char \<Rightarrow> string \<Rightarrow> string" where
  "part_before c s = takeWhile (\<lambda>x. x \<noteq> c) s"

definition part_after :: "char \<Rightarrow> string \<Rightarrow> string" where
  "part_after c s = drop 1 (dropWhile (\<lambda>x. x \<noteq> c) s)"

text \<open>\<open>s.split(c)\<close> on a separator and \<open>s.split()\<close> on runs of white space.\<close>

fun split_on :: "char \<Rightarrow> string \<Rightarrow> string list" where
  "split_on c [] = [[]]"
| "split_on c (x # xs) =
     (if x = c then [] # split_on c xs
      else case split_on c xs of [] \<Rightarrow> [[x]] | w # ws \<Rightarrow> (x # w) # ws)"

lemma split_on_plain: "c \<notin> set w \<Longrightarrow> split_on c w = [w]"
  by (induction w) auto

lemma split_on_append: "c \<notin> set w \<Longrightarrow> split_on c (w @ c # r) = w # split_on c r"
  by (induction w) auto

fun split_ws_acc :: "string \<Rightarrow> string \<Rightarrow> string list" where
  "split_ws_acc w [] = (if w = [] then [] else [rev w])"
| "split_ws_acc w (x # xs) =
     (if is_space x then (if w = [] then split_ws_acc [] xs else rev w # split_ws_acc [] xs)
      else split_ws_acc (x # w) xs)"

definition split_ws :: "string \<Rightarrow> string list" where
  "split_ws = split_ws_acc []"

fun contains :: "string \<Rightarrow> string \<Rightarrow> bool" where
  "contains p [] = (p = [])"
| "contains p (x # xs) = (starts_with p (x # xs) \<or> contains p xs)"

fun join :: "string \<Rightarrow> string list \<Rightarrow> string" where
  "join sep [] = []"
| "join sep [x] = x"
| "join sep (x # y # ys) = x @ sep @ join sep (y # ys)"

text \<open>
  \<open>s.splitlines()\<close>: the line boundaries of \<open>str\<close>, a carriage return and a newline counting
  once, and no empty last line.
\<close>

definition is_line_end :: "char \<Rightarrow> bool" where
  "is_line_end c = (let n = (of_char c :: nat) in (10 \<le> n \<and> n \<le> 13) \<or> (28 \<le> n \<and> n \<le> 30) \<or> n = 133)"

fun splitlines_acc :: "string \<Rightarrow> string \<Rightarrow> string list" where
  "splitlines_acc w [] = (if w = [] then [] else [rev w])"
| "splitlines_acc w (c # cs) =
     (if c = CHR 0x0D \<and> cs \<noteq> [] \<and> hd cs = CHR 0x0A then rev w # splitlines_acc [] (tl cs)
      else if is_line_end c then rev w # splitlines_acc [] cs
      else splitlines_acc (c # w) cs)"

definition splitlines :: "string \<Rightarrow> string list" where
  "splitlines = splitlines_acc []"

text \<open>\<open>repr(s)\<close>: double quotes when the text has a single quote and no double one.\<close>

definition repr_char :: "char \<Rightarrow> char \<Rightarrow> string" where
  "repr_char q c =
     (let n = (of_char c :: nat); slash = CHR 0x5C;
          hex = (\<lambda>d. if d < 10 then char_of (48 + d) else char_of (87 + d))
      in if c = q \<or> c = slash then [slash, c]
         else if n = 10 then [slash, CHR ''n''] else if n = 13 then [slash, CHR ''r'']
         else if n = 9 then [slash, CHR ''t'']
         else if n < 32 \<or> (127 \<le> n \<and> n \<le> 160) \<or> n = 173 then [slash, CHR ''x'', hex (n div 16), hex (n mod 16)]
         else [c])"

definition py_repr :: "string \<Rightarrow> string" where
  "py_repr s =
     (let q = (if CHR 0x27 \<in> set s \<and> CHR 0x22 \<notin> set s then CHR 0x22 else CHR 0x27)
      in q # concat (map (repr_char q) s) @ [q])"

text \<open>\<open>re.match(r"^[class]+$", s)\<close>: the end anchor also matches before a final newline.\<close>

definition before_newline :: "string \<Rightarrow> string" where
  "before_newline s = (if s \<noteq> [] \<and> List.last s = CHR 0x0A then butlast s else s)"

definition full_match :: "(char \<Rightarrow> bool) \<Rightarrow> string \<Rightarrow> bool" where
  "full_match cls s = (before_newline s \<noteq> [] \<and> list_all cls (before_newline s))"

text \<open>Decimal numerals, as \<open>str(n)\<close> and \<open>int(s)\<close> on plain digits.\<close>

definition digit_char :: "nat \<Rightarrow> char" where
  "digit_char d = char_of (48 + d)"

fun show_nat :: "nat \<Rightarrow> string" where
  "show_nat n = (if n < 10 then [digit_char n] else show_nat (n div 10) @ [digit_char (n mod 10)])"

declare show_nat.simps [simp del]

definition show_int :: "int \<Rightarrow> string" where
  "show_int i = (if i < 0 then CHR ''-'' # show_nat (nat (- i)) else show_nat (nat i))"

definition digit_val :: "char \<Rightarrow> nat" where
  "digit_val c = of_char c - 48"

definition digits_val :: "string \<Rightarrow> nat" where
  "digits_val = foldl (\<lambda>n c. 10 * n + digit_val c) 0"

text \<open>
  \<open>int(s)\<close>: white space around, an optional sign, then at least one digit;
  \<open>None\<close> is the \<open>ValueError\<close>.  (Digit-group underscores are not modelled.)
\<close>

definition parse_nat :: "string \<Rightarrow> nat option" where
  "parse_nat s = (if s \<noteq> [] \<and> list_all is_digit s then Some (digits_val s) else None)"

definition parse_int :: "string \<Rightarrow> int option" where
  "parse_int s = (case strip s of
       [] \<Rightarrow> None
     | c # cs \<Rightarrow>
         if c = CHR ''-'' then map_option (\<lambda>n. - int n) (parse_nat cs)
         else if c = CHR ''+'' then map_option int (parse_nat cs)
         else map_option int (parse_nat (c # cs)))"

text \<open>\<open>f"{x:.0f}"\<close> rounds half to even.\<close>

definition round_half_even :: "real \<Rightarrow> int" where
  "round_half_even x =
     (let f = floor x; d = x - of_int f
      in if d < 1/2 then f else if d > 1/2 then f + 1 else if even f then f else f + 1)"

definition show_fixed0 :: "real \<Rightarrow> string" where
  "show_fixed0 x = show_int (round_half_even x)"

text \<open>\<open>round(x, 1)\<close>.\<close>

definition round1 :: "real \<Rightarrow> real" where
  "round1 x = of_int (round_half_even (10 * x)) / 10"

text \<open>The em dash of the messages, as its UTF-8 bytes.\<close>

definition em_dash :: string where
  "em_dash = map char_of [226 :: nat, 128, 148]"

lemma strip_Nil [simp]: "strip [] = []"
  by (simp add: strip_def lstrip_def)

text \<open>Stripping leaves no white space at the ends, and does nothing to a text that has none there.\<close>

lemma lstrip_head: "lstrip s \<noteq> [] \<Longrightarrow> \<not> is_space (hd (lstrip s))"
  by (simp add: lstrip_def hd_dropWhile)

lemma lstrip_fix: "s = [] \<or> \<not> is_space (hd s) \<Longrightarrow> lstrip s = s"
  by (cases s) (simp_all add: lstrip_def)

lemma lstrip_suffix: "\<exists>u. s = u @ lstrip s"
  unfolding lstrip_def by (metis takeWhile_dropWhile_id)

lemma strip_idem [simp]: "strip (strip s) = strip s"
proof -
  let ?t = "lstrip s"
  let ?u = "lstrip (rev ?t)"
  obtain w where w: "rev ?t = w @ ?u" using lstrip_suffix by blast
  then have t: "?t = rev ?u @ rev w" by (metis rev_append rev_rev_ident)
  have s: "strip s = rev ?u" by (simp add: strip_def)
  have "rev ?u = [] \<or> \<not> is_space (hd (rev ?u))" using lstrip_head [of s] t by (cases "rev ?u") auto
  moreover have "?u = [] \<or> \<not> is_space (hd ?u)" using lstrip_head by blast
  ultimately show ?thesis unfolding s by (simp add: strip_def lstrip_fix)
qed

lemma length_strip: "length (strip s) \<le> length s"
  by (simp add: strip_def lstrip_def le_trans [OF length_dropWhile_le] length_dropWhile_le)

section \<open>Decimal numerals: the round trip\<close>

lemma show_nat_nonempty [simp]: "show_nat n \<noteq> []"
  by (subst show_nat.simps) simp

lemma of_char_digit_char: "d < 10 \<Longrightarrow> (of_char (digit_char d) :: nat) = 48 + d"
  by (simp add: digit_char_def)

lemma is_digit_code: "is_digit c \<longleftrightarrow> 48 \<le> (of_char c :: nat) \<and> (of_char c :: nat) \<le> 57"
  by (simp add: is_digit_def less_eq_char_def)

lemma show_nat_digits: "list_all is_digit (show_nat n)"
proof (induction n rule: show_nat.induct)
  case (1 n)
  show ?case
  proof (cases "n < 10")
    case True
    then show ?thesis by (simp add: show_nat.simps [of n] is_digit_code of_char_digit_char)
  next
    case False
    with 1 show ?thesis by (simp add: show_nat.simps [of n] is_digit_code of_char_digit_char)
  qed
qed

lemma digits_val_snoc: "digits_val (s @ [c]) = 10 * digits_val s + digit_val c"
  by (simp add: digits_val_def)

lemma digits_val_show_nat [simp]: "digits_val (show_nat n) = n"
proof (induction n rule: show_nat.induct)
  case (1 n)
  show ?case
  proof (cases "n < 10")
    case True
    then show ?thesis
      by (simp add: show_nat.simps [of n] digits_val_def digit_val_def of_char_digit_char)
  next
    case False
    with 1 have "digits_val (show_nat (n div 10)) = n div 10" by simp
    with False show ?thesis
      by (simp add: show_nat.simps [of n] digits_val_snoc digit_val_def of_char_digit_char)
  qed
qed

lemma show_nat_length: "n < 10 ^ w \<Longrightarrow> 0 < w \<Longrightarrow> length (show_nat n) \<le> w"
proof (induction w arbitrary: n)
  case (Suc w)
  show ?case
  proof (cases "n < 10")
    case True
    then show ?thesis by (simp add: show_nat.simps [of n])
  next
    case False
    then have "0 < w" "n div 10 < 10 ^ w" using Suc.prems(1) by (cases w; auto)+
    then show ?thesis using Suc.IH [of "n div 10"] False by (simp add: show_nat.simps [of n])
  qed
qed simp

lemma parse_nat_show_nat [simp]: "parse_nat (show_nat n) = Some n"
  by (simp add: parse_nat_def show_nat_digits)

lemma digit_not_space: "is_digit c \<Longrightarrow> \<not> is_space c"
  by (auto simp: is_digit_code is_space_def Let_def)

lemma strip_digits:
  assumes "list_all is_digit s"
  shows "strip s = s"
proof -
  have fix_digits: "lstrip t = t" if "list_all is_digit t" for t
    using that by (intro lstrip_fix) (cases t, simp_all add: digit_not_space)
  have "list_all is_digit (rev s)" using assms by (simp add: list_all_iff)
  then show ?thesis by (simp add: strip_def fix_digits assms)
qed

lemma parse_int_show_int: "0 \<le> i \<Longrightarrow> parse_int (show_int i) = Some i"
proof -
  assume i: "0 \<le> i"
  obtain c cs where s: "show_nat (nat i) = c # cs" by (cases "show_nat (nat i)") auto
  then have "is_digit c" using show_nat_digits [of "nat i"] by simp
  then have "c \<noteq> CHR ''-''" "c \<noteq> CHR ''+''" by (auto simp: is_digit_def)
  moreover have "parse_nat (c # cs) = Some (nat i)" by (metis s parse_nat_show_nat)
  moreover have "strip (show_int i) = c # cs" using i s strip_digits [OF show_nat_digits, of "nat i"] by (simp add: show_int_def)
  ultimately show ?thesis using i by (simp add: parse_int_def)
qed

lemma show_nat_inject [simp]: "show_nat m = show_nat n \<longleftrightarrow> m = n"
  by (metis digits_val_show_nat)

section \<open>JSON values\<close>

text \<open>A Python \<open>dict\<close> with string keys is an association list in insertion order.\<close>

datatype json =
    JNull
  | JBool bool
  | JInt int
  | JReal real
  | JStr string
  | JList "json list"
  | JObj "(string \<times> json) list"

type_synonym json_dict = "(string \<times> json) list"

text \<open>
  \<open>json.dumps(v, ensure_ascii=False)\<close>, with the separators \<open>", "\<close> and \<open>": "\<close>.
  \<open>rep\<close> is the shortest representation of a float.
\<close>

definition hex_char :: "nat \<Rightarrow> char" where
  "hex_char d = (if d < 10 then char_of (48 + d) else char_of (87 + d))"

definition escape_char :: "char \<Rightarrow> string" where
  "escape_char c =
     (let n = (of_char c :: nat); slash = CHR 0x5C in
      if n = 34 \<or> n = 92 then [slash, c]
      else if n = 10 then [slash, CHR ''n'']
      else if n = 13 then [slash, CHR ''r'']
      else if n = 9 then [slash, CHR ''t'']
      else if n = 8 then [slash, CHR ''b'']
      else if n = 12 then [slash, CHR ''f'']
      else if n < 32 then slash # ''u00'' @ [hex_char (n div 16), hex_char (n mod 16)]
      else [c])"

definition dump_str :: "string \<Rightarrow> string" where
  "dump_str t = CHR 0x22 # concat (map escape_char t) @ [CHR 0x22]"

fun dumps :: "(real \<Rightarrow> string) \<Rightarrow> json \<Rightarrow> string"
  and dump_items :: "(real \<Rightarrow> string) \<Rightarrow> json list \<Rightarrow> string list"
  and dump_fields :: "(real \<Rightarrow> string) \<Rightarrow> (string \<times> json) list \<Rightarrow> string list"
  where
  "dumps rep JNull = ''null''"
| "dumps rep (JBool b) = (if b then ''true'' else ''false'')"
| "dumps rep (JInt i) = show_int i"
| "dumps rep (JReal x) = rep x"
| "dumps rep (JStr t) = dump_str t"
| "dumps rep (JList vs) = ''['' @ join '', '' (dump_items rep vs) @ '']''"
| "dumps rep (JObj kvs) = ''{'' @ join '', '' (dump_fields rep kvs) @ ''}''"
| "dump_items rep [] = []"
| "dump_items rep (v # vs) = dumps rep v # dump_items rep vs"
| "dump_fields rep [] = []"
| "dump_fields rep ((k, v) # kvs) = (dump_str k @ '': '' @ dumps rep v) # dump_fields rep kvs"

definition opt_str :: "string option \<Rightarrow> json" where
  "opt_str x = (case x of None \<Rightarrow> JNull | Some s \<Rightarrow> JStr s)"

section \<open>Row tables\<close>

text \<open>
  A database table is the list of its rows.  \<open>db.get(Row, k)\<close> is \<open>find_row\<close>,
  \<open>UPDATE ... WHERE p\<close> is \<open>update_where\<close>, its \<open>rowcount\<close> and every
  \<open>SELECT count(...)\<close> is \<open>count_where\<close>; an attribute assignment to a loaded row is
  an \<open>update_where\<close> on its primary key.
\<close>

definition find_row :: "('r \<Rightarrow> 'k) \<Rightarrow> 'k \<Rightarrow> 'r list \<Rightarrow> 'r option" where
  "find_row key k rows = find (\<lambda>r. key r = k) rows"

definition update_where :: "('r \<Rightarrow> bool) \<Rightarrow> ('r \<Rightarrow> 'r) \<Rightarrow> 'r list \<Rightarrow> 'r list" where
  "update_where p f rows = map (\<lambda>r. if p r then f r else r) rows"

definition count_where :: "('r \<Rightarrow> bool) \<Rightarrow> 'r list \<Rightarrow> nat" where
  "count_where p rows = length (filter p rows)"

text \<open>The primary-key constraint of a table.\<close>

definition keyed :: "('r \<Rightarrow> 'k) \<Rightarrow> 'r list \<Rightarrow> bool" where
  "keyed key rows = distinct (map key rows)"

lemma find_row_Nil [simp]: "find_row key k [] = None"
  by (simp add: find_row_def)

lemma find_row_Cons [simp]:
  "find_row key k (r # rs) = (if key r = k then Some r else find_row key k rs)"
  by (simp add: find_row_def)

lemma update_where_Nil [simp]: "update_where p f [] = []"
  by (simp add: update_where_def)

lemma update_where_Cons [simp]:
  "update_where p f (r # rs) = (if p r then f r else r) # update_where p f rs"
  by (simp add: update_where_def)

lemma count_where_Nil [simp]: "count_where p [] = 0"
  by (simp add: count_where_def)

lemma count_where_Cons [simp]:
  "count_where p (r # rs) = (if p r then Suc (count_where p rs) else count_where p rs)"
  by (simp add: count_where_def)

lemma count_where_append [simp]: "count_where p (xs @ ys) = count_where p xs + count_where p ys"
  by (induction xs) auto

lemma find_row_append:
  "find_row key k (xs @ ys) = (case find_row key k xs of None \<Rightarrow> find_row key k ys | Some r \<Rightarrow> Some r)"
  by (induction xs) auto

lemma find_row_Some: "find_row key k rows = Some r \<Longrightarrow> r \<in> set rows \<and> key r = k"
  by (induction rows) (auto split: if_splits)

lemma find_row_None: "find_row key k rows = None \<longleftrightarrow> k \<notin> key ` set rows"
  by (induction rows) auto

lemma set_update_where [table_simps]:
  "set (update_where p f rows) = (\<lambda>r. if p r then f r else r) ` set rows"
  by (simp add: update_where_def)

lemma update_where_key [table_simps]:
  assumes "\<And>r. p r \<Longrightarrow> key (f r) = key r"
  shows "map key (update_where p f rows) = map key rows"
  using assms by (simp add: update_where_def)

lemma keyed_update_where:
  assumes "\<And>r. p r \<Longrightarrow> key (f r) = key r"
  shows "keyed key (update_where p f rows) = keyed key rows"
  using update_where_key [of p key f rows, OF assms] by (simp add: keyed_def)

lemma find_row_update_where:
  assumes "\<And>r. p r \<Longrightarrow> key (f r) = key r"
  shows "find_row key k (update_where p f rows) =
         map_option (\<lambda>r. if p r then f r else r) (find_row key k rows)"
  using assms by (induction rows) auto

lemma find_row_update_self [simp]:
  assumes "\<And>r. key (f r) = key r"
  shows "find_row key k (update_where (\<lambda>r. key r = k) f rows) = map_option f (find_row key k rows)"
proof -
  have "map_option (\<lambda>r. if key r = k then f r else r) (find_row key k rows)
      = map_option f (find_row key k rows)"
    by (cases "find_row key k rows") (auto dest: find_row_Some)
  then show ?thesis using find_row_update_where [of "\<lambda>r. key r = k" key f k rows] assms by simp
qed

lemma find_row_update_other:
  assumes "\<And>r. key (f r) = key r" and "k' \<noteq> k"
  shows "find_row key k' (update_where (\<lambda>r. key r = k) f rows) = find_row key k' rows"
  using assms by (induction rows) auto

lemma find_row_unique: "keyed key rows \<Longrightarrow> r \<in> set rows \<Longrightarrow> find_row key (key r) rows = Some r"
  by (induction rows) (auto simp: keyed_def image_iff)

lemma update_where_none: "(\<And>r. r \<in> set rows \<Longrightarrow> \<not> p r) \<Longrightarrow> update_where p f rows = rows"
  by (induction rows) auto

lemma count_where_0: "count_where p rows = 0 \<longleftrightarrow> (\<forall>r\<in>set rows. \<not> p r)"
  by (induction rows) auto

lemma keyed_Cons [simp]: "keyed key (r # rs) \<longleftrightarrow> key r \<notin> key ` set rs \<and> keyed key rs"
  by (simp add: keyed_def)

lemma keyed_Nil [simp]: "keyed key []"
  by (simp add: keyed_def)

lemma count_key_absent:
  assumes "k \<notin> key ` set rows"
  shows "count_where (\<lambda>r. key r = k \<and> q r) rows = 0"
proof -
  have "key r \<noteq> k" if "r \<in> set rows" for r
    using assms that by blast
  then show ?thesis by (simp add: count_where_0)
qed

lemma count_key_le_1: "keyed key rows \<Longrightarrow> count_where (\<lambda>r. key r = k \<and> q r) rows \<le> 1"
proof (induction rows)
  case (Cons r rs)
  show ?case
  proof (cases "key r = k")
    case True
    with Cons.prems have "count_where (\<lambda>r. key r = k \<and> q r) rs = 0"
      by (simp add: count_key_absent)
    then show ?thesis by simp
  next
    case False
    with Cons show ?thesis by simp
  qed
qed simp

lemma count_key_1_iff:
  assumes "keyed key rows"
  shows "count_where (\<lambda>r. key r = k \<and> q r) rows = 1 \<longleftrightarrow>
         (\<exists>r. find_row key k rows = Some r \<and> q r)"
  using assms
proof (induction rows)
  case (Cons r rs)
  show ?case
  proof (cases "key r = k")
    case True
    with Cons.prems have "count_where (\<lambda>r. key r = k \<and> q r) rs = 0"
      by (simp add: count_key_absent)
    with True show ?thesis by simp
  next
    case False
    with Cons show ?thesis by simp
  qed
qed simp

section \<open>The compare-and-swap claim\<close>

text \<open>
  \<open>UPDATE table SET ... WHERE id = k AND guard\<close>, won when exactly one row changed.
  Runs, replies and approvals are all claimed this way.  The token \<open>t\<close> is what the caller
  believes about the row (the statuses it claims from, the attempt count it read), \<open>i\<close>
  is what the winner writes (a heartbeat time).
\<close>

definition cas_claim ::
  "('r \<Rightarrow> 'k) \<Rightarrow> ('t \<Rightarrow> 'r \<Rightarrow> bool) \<Rightarrow> ('t \<Rightarrow> 'i \<Rightarrow> 'r \<Rightarrow> 'r) \<Rightarrow> 'k \<Rightarrow> 't \<Rightarrow> 'i \<Rightarrow> 'r list \<Rightarrow> bool \<times> 'r list"
  where
  "cas_claim key elig grab k t i rows =
     (count_where (\<lambda>r. key r = k \<and> elig t r) rows = 1,
      update_where (\<lambda>r. key r = k \<and> elig t r) (grab t i) rows)"

text \<open>Claims made one after the other, in the order the database serialises them.\<close>

fun cas_race ::
  "('r \<Rightarrow> 'k) \<Rightarrow> ('t \<Rightarrow> 'r \<Rightarrow> bool) \<Rightarrow> ('t \<Rightarrow> 'i \<Rightarrow> 'r \<Rightarrow> 'r) \<Rightarrow> 'k \<Rightarrow> 't \<Rightarrow> 'i list \<Rightarrow> 'r list \<Rightarrow> bool list \<times> 'r list"
  where
  "cas_race key elig grab k t [] rows = ([], rows)"
| "cas_race key elig grab k t (i # is) rows =
     (let (won, rows1) = cas_claim key elig grab k t i rows;
          (rest, rows2) = cas_race key elig grab k t is rows1
      in (won # rest, rows2))"

locale single_winner =
  fixes key :: "'r \<Rightarrow> 'k"
    and elig :: "'t \<Rightarrow> 'r \<Rightarrow> bool"
    and grab :: "'t \<Rightarrow> 'i \<Rightarrow> 'r \<Rightarrow> 'r"
  assumes grab_key: "key (grab t i r) = key r"
    and grab_blocks: "elig t r \<Longrightarrow> \<not> elig t (grab t i r)"
begin

lemma claim_won_iff:
  "keyed key rows \<Longrightarrow> fst (cas_claim key elig grab k t i rows) \<longleftrightarrow>
   (\<exists>r. find_row key k rows = Some r \<and> elig t r)"
  by (simp add: cas_claim_def count_key_1_iff [unfolded One_nat_def])

lemma claim_keyed: "keyed key (snd (cas_claim key elig grab k t i rows)) = keyed key rows"
  by (simp add: cas_claim_def keyed_update_where grab_key)

lemma claim_row:
  "find_row key k (snd (cas_claim key elig grab k t i rows)) =
   map_option (\<lambda>r. if elig t r then grab t i r else r) (find_row key k rows)"
  by (cases "find_row key k rows")
     (auto simp: cas_claim_def find_row_update_where grab_key dest: find_row_Some)

lemma claim_other_rows:
  "k' \<noteq> k \<Longrightarrow> find_row key k' (snd (cas_claim key elig grab k t i rows)) = find_row key k' rows"
  by (cases "find_row key k' rows")
     (auto simp: cas_claim_def find_row_update_where grab_key dest: find_row_Some)

lemma claimed_not_eligible:
  assumes "find_row key k rows = Some r"
    and "find_row key k (snd (cas_claim key elig grab k t i rows)) = Some r'"
  shows "\<not> elig t r'"
  using assms by (auto simp: claim_row grab_blocks split: if_splits)

lemma lost_race:
  assumes "keyed key rows" and "\<And>r. find_row key k rows = Some r \<Longrightarrow> \<not> elig t r"
  shows "\<not> (True \<in> set (fst (cas_race key elig grab k t is rows)))"
  using assms
proof (induction "is" arbitrary: rows)
  case (Cons i "is")
  let ?rows = "snd (cas_claim key elig grab k t i rows)"
  have "\<not> fst (cas_claim key elig grab k t i rows)"
    using Cons.prems by (auto simp: claim_won_iff)
  moreover have "keyed key ?rows" using Cons.prems by (simp add: claim_keyed)
  moreover have "\<not> elig t r" if "find_row key k ?rows = Some r" for r
    using that Cons.prems(2) by (auto simp: claim_row split: if_splits)
  ultimately show ?case using Cons.IH [of ?rows] by (auto simp: split_beta)
qed simp

lemma race_winners:
  assumes "keyed key rows" and "is \<noteq> []"
  shows "length (filter id (fst (cas_race key elig grab k t is rows))) =
         (if \<exists>r. find_row key k rows = Some r \<and> elig t r then 1 else 0)"
proof (cases "is")
  case (Cons i rest)
  let ?rows = "snd (cas_claim key elig grab k t i rows)"
  have blocked: "\<not> elig t r" if "find_row key k ?rows = Some r" for r
  proof -
    from that obtain r0 where "find_row key k rows = Some r0"
      by (auto simp: claim_row)
    with that show ?thesis by (rule claimed_not_eligible [rotated])
  qed
  have "\<not> (True \<in> set (fst (cas_race key elig grab k t rest ?rows)))"
    using assms(1) blocked by (intro lost_race) (simp_all add: claim_keyed)
  then have "filter id (fst (cas_race key elig grab k t rest ?rows)) = []"
    by (auto simp: filter_empty_conv)
  then show ?thesis using Cons assms(1)
    by (auto simp: split_beta claim_won_iff)
qed (use assms in simp)

end

section \<open>Invariants of state machines\<close>

text \<open>A step relation with an invariant of its own: whatever is reached keeps it.\<close>

locale state_machine =
  fixes step :: "'c \<Rightarrow> 'c \<Rightarrow> bool"
    and good :: "'c \<Rightarrow> bool"
  assumes step_good: "good c \<Longrightarrow> step c c' \<Longrightarrow> good c'"
begin

lemma reached_good: "step\<^sup>*\<^sup>* c c' \<Longrightarrow> good c \<Longrightarrow> good c'"
  by (induction rule: rtranclp_induct) (auto intro: step_good)

end

end
