(* ===== verification/Store.thy ===== *)
theory Store
  imports Prelude
begin

text \<open>
  The data model: the chat types of \<open>providers/types.py\<close>, the tables of
  \<open>db/models.py\<close> with the status columns as enumerations, the event envelope of
  \<open>events.py\<close> and the database as the record of its tables.  \<open>new_id\<close> and
  \<open>utcnow\<close> read the supply and the clock of the service state.
\<close>

section \<open>Chat types\<close>

datatype chat_role = SYSTEM | USER | ASSISTANT | TOOL

record tool_call =
  tc_id :: string
  tc_name :: string
  tc_arguments :: json_dict

record chat_message =
  cm_role :: chat_role
  cm_content :: string
  cm_tool_calls :: "tool_call list"
  cm_tool_call_id :: "string option"

record tool_descriptor =
  td_name :: string
  td_description :: string
  td_parameters :: json

record chat_request =
  cq_model :: string
  cq_messages :: "chat_message list"
  cq_tools :: "tool_descriptor list"
  cq_temperature :: real
  cq_max_tokens :: int

record chat_usage =
  input_tokens :: int
  output_tokens :: int

definition no_usage :: chat_usage where
  "no_usage = \<lparr>input_tokens = 0, output_tokens = 0\<rparr>"

datatype finish_reason = Stop | Tool_calls | Length | Error_finish

record chat_result =
  cs_message :: chat_message
  cs_usage :: chat_usage
  cs_finish :: finish_reason

text \<open>\<open>StreamDelta\<close>: its \<open>kind\<close> is the constructor.\<close>

datatype stream_delta = Text_delta string | Tool_call_delta "tool_call option" | Done_delta "chat_result option"

section \<open>Tables\<close>

record user =
  us_id :: ident
  us_created :: instant
  us_email :: string
  us_display_name :: string
  us_password_hash :: string
  us_active :: bool

record api_key =
  ak_id :: ident
  ak_created :: instant
  ak_user :: ident
  ak_name :: string
  ak_key_hash :: string
  ak_revoked :: bool

record workspace =
  wk_id :: ident
  wk_created :: instant
  wk_name :: string
  wk_slug :: string

record workspace_member =
  wm_id :: ident
  wm_created :: instant
  wm_workspace :: ident
  wm_user :: ident
  wm_role :: string

record agent_profile =
  ap_id :: ident
  ap_created :: instant
  ap_workspace :: ident
  ap_handle :: string
  ap_title :: string
  ap_instructions :: string
  ap_model_alias :: string
  ap_tool_grants :: "string list"
  ap_can_delegate :: bool
  ap_max_steps :: "int option"

record session =
  ss_id :: ident
  ss_created :: instant
  ss_workspace :: ident
  ss_user :: ident
  ss_profile :: ident
  ss_title :: string
  ss_sandbox_dir :: string
  ss_archived :: bool

record message =
  mg_id :: ident
  mg_created :: instant
  mg_session :: ident
  mg_role :: string
  mg_content :: string
  mg_run :: "ident option"

datatype run_status = Queued | Running | Awaiting_approval | Succeeded | Failed | Cancelled

text \<open>The checkpoint column: \<open>messages\<close> and \<open>pending_calls\<close>.\<close>

record checkpoint =
  ck_messages :: "chat_message list"
  ck_pending :: "tool_call list"

record run =
  rn_id :: ident
  rn_created :: instant
  rn_workspace :: ident
  rn_session :: ident
  rn_profile :: ident
  rn_parent :: "ident option"
  rn_goal :: string
  rn_status :: run_status
  rn_answer :: "string option"
  rn_error :: "string option"
  rn_checkpoint :: "checkpoint option"
  rn_step_count :: int
  rn_finished_at :: "instant option"
  rn_cancel_requested :: bool
  rn_idempotency_key :: "string option"
  rn_input_tokens :: int
  rn_output_tokens :: int
  rn_heartbeat_at :: "instant option"

datatype step_kind = Model_step | Tool_step

record run_step =
  rs_id :: ident
  rs_run :: ident
  rs_index :: int
  rs_kind :: step_kind
  rs_detail :: json_dict
  rs_input_tokens :: int
  rs_output_tokens :: int

datatype approval_status = Pending_decision | Approved | Denied

record approval_request =
  ar_id :: ident
  ar_created :: instant
  ar_workspace :: ident
  ar_run :: ident
  ar_tool_name :: string
  ar_arguments :: json_dict
  ar_reason :: string
  ar_status :: approval_status
  ar_decided_by :: "ident option"
  ar_decided_at :: "instant option"

record schedule =
  sd_id :: ident
  sd_created :: instant
  sd_workspace :: ident
  sd_profile :: ident
  sd_user :: ident
  sd_cron :: string
  sd_goal :: string
  sd_enabled :: bool
  sd_last_fired_at :: "instant option"

record channel_binding =
  cb_id :: ident
  cb_created :: instant
  cb_workspace :: ident
  cb_channel :: string
  cb_routing_key :: string
  cb_session :: ident
  cb_sender_id :: string
  cb_sender_display :: string

record channel_cursor =
  cu_id :: ident
  cu_workspace :: ident
  cu_channel :: string
  cu_position :: string
  cu_updated :: instant

datatype reply_status = Pending_reply | Sent | Abandoned

record channel_reply =
  cr_id :: ident
  cr_created :: instant
  cr_workspace :: ident
  cr_run :: ident
  cr_channel :: string
  cr_conversation :: string
  cr_subject :: string
  cr_reply_to :: string
  cr_status :: reply_status
  cr_attempts :: int
  cr_interim_sent :: bool
  cr_detail :: string
  cr_sent_at :: "instant option"

record memory_item =
  mi_id :: ident
  mi_created :: instant
  mi_workspace :: ident
  mi_profile :: "ident option"
  mi_text :: string
  mi_embedding :: "real list"
  mi_importance :: real

datatype document_status = Pending_ingest | Ready | Failed_ingest

record document =
  dc_id :: ident
  dc_created :: instant
  dc_workspace :: ident
  dc_title :: string
  dc_source :: string
  dc_status :: document_status
  dc_chunk_count :: int

record document_chunk =
  dk_id :: ident
  dk_document :: ident
  dk_workspace :: ident
  dk_index :: int
  dk_text :: string
  dk_embedding :: "real list"

datatype change_kind = Sysctl | Service

datatype change_status = Applied | Verified | Confirmed | Reverted | Revert_failed | Unrevertible

record change_record =
  ch_id :: ident
  ch_created :: instant
  ch_workspace :: ident
  ch_run :: "ident option"
  ch_kind :: change_kind
  ch_target :: string
  ch_previous :: "string option"
  ch_new :: string
  ch_revertible :: bool
  ch_status :: change_status
  ch_conditions :: "json list"
  ch_detail :: string
  ch_expires_at :: "instant option"
  ch_settled_at :: "instant option"

record audit_event =
  ae_id :: ident
  ae_created :: instant
  ae_workspace :: ident
  ae_actor :: "ident option"
  ae_action :: string
  ae_target_type :: string
  ae_target_id :: string
  ae_detail :: json_dict

record database =
  users :: "user list"
  api_keys :: "api_key list"
  workspaces :: "workspace list"
  members :: "workspace_member list"
  profiles :: "agent_profile list"
  sessions :: "session list"
  messages :: "message list"
  runs :: "run list"
  run_steps :: "run_step list"
  approvals :: "approval_request list"
  schedules :: "schedule list"
  bindings :: "channel_binding list"
  replies :: "channel_reply list"
  audit_events :: "audit_event list"
  memories :: "memory_item list"
  documents :: "document list"
  chunks :: "document_chunk list"
  changes :: "change_record list"
  cursors :: "channel_cursor list"

section \<open>Events\<close>

datatype event_type =
    RUN_STARTED | RUN_DELTA | RUN_STEP | RUN_AWAITING_APPROVAL | RUN_FINISHED
  | APPROVAL_DECIDED | CHANGE_APPLIED | CHANGE_VERIFIED | CHANGE_REVERTED
  | DOCUMENT_INGESTED | SCHEDULE_FIRED

record event =
  ev_type :: event_type
  ev_workspace :: ident
  ev_session :: "ident option"
  ev_run :: "ident option"
  ev_payload :: json_dict

section \<open>The service state\<close>

text \<open>
  What the operations of one deployment act on: the database, the events published on the
  bus, the UTC clock, the supply of fresh primary keys, and everything outside the
  process (model vendors, tools' effects, the job queue), of type \<open>'w\<close>.
\<close>

record 'w sys =
  db :: database
  published :: "event list"
  clock :: instant
  id_supply :: nat
  outside :: 'w

text \<open>\<open>uuid4().hex\<close>: only freshness is used, so the supply counts.\<close>

definition new_id :: "nat \<Rightarrow> ident" where
  "new_id n = CHR ''i'' # show_nat n"

lemma new_id_inject [simp]: "new_id m = new_id n \<longleftrightarrow> m = n"
  by (simp add: new_id_def)

definition publish :: "event \<Rightarrow> 'w sys \<Rightarrow> 'w sys" where
  "publish e s = s\<lparr>published := published s @ [e]\<rparr>"

lemma publish_sel [simp]:
  "db (publish e s) = db s" "clock (publish e s) = clock s"
  "id_supply (publish e s) = id_supply s" "outside (publish e s) = outside s"
  "published (publish e s) = published s @ [e]"
  by (simp_all add: publish_def)

text \<open>One unit of work on the database: the body of an \<open>async with db.session()\<close> block.\<close>

definition on_db :: "(database \<Rightarrow> database) \<Rightarrow> 'w sys \<Rightarrow> 'w sys" where
  "on_db f s = s\<lparr>db := f (db s)\<rparr>"

lemma on_db_sel [simp]:
  "db (on_db f s) = f (db s)" "clock (on_db f s) = clock s"
  "id_supply (on_db f s) = id_supply s" "outside (on_db f s) = outside s"
  "published (on_db f s) = published s"
  by (simp_all add: on_db_def)

definition on_runs :: "(run list \<Rightarrow> run list) \<Rightarrow> database \<Rightarrow> database" where
  "on_runs f d = d\<lparr>runs := f (runs d)\<rparr>"

lemma on_runs_sel [simp]:
  "runs (on_runs f d) = f (runs d)" "sessions (on_runs f d) = sessions d"
  "profiles (on_runs f d) = profiles d" "approvals (on_runs f d) = approvals d"
  "messages (on_runs f d) = messages d" "run_steps (on_runs f d) = run_steps d"
  "replies (on_runs f d) = replies d" "bindings (on_runs f d) = bindings d"
  "members (on_runs f d) = members d" "workspaces (on_runs f d) = workspaces d"
  by (simp_all add: on_runs_def)

definition get_run :: "ident \<Rightarrow> database \<Rightarrow> run option" where
  "get_run k d = find_row rn_id k (runs d)"

definition get_session :: "ident \<Rightarrow> database \<Rightarrow> session option" where
  "get_session k d = find_row ss_id k (sessions d)"

definition get_profile :: "ident \<Rightarrow> database \<Rightarrow> agent_profile option" where
  "get_profile k d = find_row ap_id k (profiles d)"

definition get_approval :: "ident \<Rightarrow> database \<Rightarrow> approval_request option" where
  "get_approval k d = find_row ar_id k (approvals d)"

lemmas get_defs = get_run_def get_session_def get_profile_def get_approval_def

text \<open>The statuses no operation moves a run out of.\<close>

definition terminal_status :: "run_status \<Rightarrow> bool" where
  "terminal_status st = (st \<in> {Succeeded, Failed, Cancelled})"

definition status_text :: "run_status \<Rightarrow> string" where
  "status_text st = (case st of
       Queued \<Rightarrow> ''queued'' | Running \<Rightarrow> ''running'' | Awaiting_approval \<Rightarrow> ''awaiting_approval''
     | Succeeded \<Rightarrow> ''succeeded'' | Failed \<Rightarrow> ''failed'' | Cancelled \<Rightarrow> ''cancelled'')"

end
