(* ===== verification/Resilience.thy ===== *)
theory Resilience
  imports Store
begin

text \<open>
  \<open>resilience.py\<close>: classification of provider failures, the retry policy, the
  per-provider circuit breaker and \<open>call_with_resilience\<close>.  Delays and monotonic times
  are reals.  The random factor of the jitter and the clock are parameters; log lines and
  metrics counters are left out.
\<close>

section \<open>Failures\<close>

datatype py_exc =
    Http_status int            \<comment> \<open>httpx.HTTPStatusError with its response status\<close>
  | Httpx_timeout | Network_error | Remote_protocol_error
  | Asyncio_timeout | Connection_error
  | Other_exc string

definition retryable_status :: "int list" where
  "retryable_status = [408, 409, 425, 429, 500, 502, 503, 504]"

fun is_transient :: "py_exc \<Rightarrow> bool" where
  "is_transient (Http_status c) = (c \<in> set retryable_status)"
| "is_transient Httpx_timeout = True"
| "is_transient Network_error = True"
| "is_transient Remote_protocol_error = True"
| "is_transient Asyncio_timeout = True"
| "is_transient Connection_error = True"
| "is_transient (Other_exc _) = False"

section \<open>Retry policy\<close>

record retry_policy =
  rp_attempts :: int
  rp_base_delay :: real
  rp_max_delay :: real
  rp_jitter :: bool

definition default_retry_policy :: retry_policy where
  "default_retry_policy = \<lparr>rp_attempts = 3, rp_base_delay = 1/2, rp_max_delay = 8, rp_jitter = True\<rparr>"

text \<open>\<open>u\<close> is the draw of \<open>random.uniform(0, raw)\<close>, as a fraction of its range.\<close>

definition delay_for :: "retry_policy \<Rightarrow> real \<Rightarrow> int \<Rightarrow> real" where
  "delay_for p u n =
     (let raw = min (rp_base_delay p * 2 powr real_of_int (n - 1)) (rp_max_delay p)
      in if rp_jitter p then u * raw else raw)"

section \<open>Circuit breaker\<close>

datatype breaker_state = CLOSED | OPEN | HALF_OPEN

record breaker =
  br_threshold :: int
  br_recovery :: real
  br_name :: string
  br_failures :: int
  br_opened_at :: "real option"
  br_half_open :: bool

definition new_breaker :: "int \<Rightarrow> real \<Rightarrow> string \<Rightarrow> breaker" where
  "new_breaker threshold recovery name =
     \<lparr>br_threshold = threshold, br_recovery = recovery, br_name = name,
      br_failures = 0, br_opened_at = None, br_half_open = False\<rparr>"

definition state_at :: "real \<Rightarrow> breaker \<Rightarrow> breaker_state" where
  "state_at now b = (case br_opened_at b of
       None \<Rightarrow> CLOSED
     | Some t \<Rightarrow> if now - t \<ge> br_recovery b then HALF_OPEN else OPEN)"

definition allows_call :: "real \<Rightarrow> breaker \<Rightarrow> bool \<times> breaker" where
  "allows_call now b =
     (if state_at now b = OPEN then (False, b)
      else if state_at now b = HALF_OPEN then (True, b\<lparr>br_half_open := True\<rparr>)
      else (True, b))"

definition record_success :: "breaker \<Rightarrow> breaker" where
  "record_success b = b\<lparr>br_failures := 0, br_opened_at := None, br_half_open := False\<rparr>"

definition record_failure :: "real \<Rightarrow> breaker \<Rightarrow> breaker" where
  "record_failure now b =
     (if br_half_open b
      then b\<lparr>br_failures := br_threshold b, br_opened_at := Some now, br_half_open := False\<rparr>
      else let n = br_failures b + 1 in
           if n \<ge> br_threshold b \<and> br_opened_at b = None
           then b\<lparr>br_failures := n, br_opened_at := Some now\<rparr>
           else b\<lparr>br_failures := n\<rparr>)"

definition reset :: "breaker \<Rightarrow> breaker" where
  "reset b = record_success b"

section \<open>Resilient calls\<close>

text \<open>
  An operation runs in the state of its caller and returns or raises.  The loop over
  \<open>range(1, attempts + 1)\<close> keeps the number of attempts left; it ends by returning, by
  raising an error that is not worth a retry, or with the last error when it is exhausted.
\<close>

type_synonym ('s, 'a) operation = "'s \<Rightarrow> (py_exc + 'a) \<times> 's"

datatype 'a loop_exit = Returned 'a | Raised py_exc | Exhausted "py_exc option"

fun retry_loop ::
  "retry_policy \<Rightarrow> (int \<Rightarrow> real) \<Rightarrow> (real \<Rightarrow> 's \<Rightarrow> 's) \<Rightarrow> ('s, 'a) operation \<Rightarrow> nat \<Rightarrow> int
     \<Rightarrow> py_exc option \<Rightarrow> 's \<Rightarrow> 'a loop_exit \<times> 's" where
  "retry_loop p u sleep op 0 attempt err s = (Exhausted err, s)"
| "retry_loop p u sleep op (Suc n) attempt err s =
     (case op s of
        (Inr a, s1) \<Rightarrow> (Returned a, s1)
      | (Inl e, s1) \<Rightarrow>
          if \<not> is_transient e then (Raised e, s1)
          else if attempt = rp_attempts p then (Exhausted (Some e), s1)
          else retry_loop p u sleep op n (attempt + 1) (Some e)
                 (sleep (delay_for p (u attempt) attempt) s1))"

datatype 'a call_result =
    Ok 'a
  | Exc py_exc
  | Circuit_open string
  | Assertion_failed       \<comment> \<open>\<open>assert last is not None\<close>, with no attempt allowed\<close>

definition update_breaker :: "(breaker \<Rightarrow> breaker) \<Rightarrow> breaker option \<Rightarrow> breaker option" where
  "update_breaker f ob = map_option f ob"

definition call_with_resilience ::
  "retry_policy \<Rightarrow> (int \<Rightarrow> real) \<Rightarrow> (real \<Rightarrow> 's \<Rightarrow> 's) \<Rightarrow> ('s \<Rightarrow> real) \<Rightarrow> ('s, 'a) operation
     \<Rightarrow> breaker option \<Rightarrow> 's \<Rightarrow> 'a call_result \<times> breaker option \<times> 's" where
  "call_with_resilience p u sleep mtime op ob s =
     (let allowed = (case ob of None \<Rightarrow> True | Some b \<Rightarrow> fst (allows_call (mtime s) b));
          ob1 = map_option (\<lambda>b. snd (allows_call (mtime s) b)) ob
      in if \<not> allowed then (Circuit_open (br_name (the ob)), ob1, s)
         else case retry_loop p u sleep op (nat (rp_attempts p)) 1 None s of
             (Returned a, s1) \<Rightarrow> (Ok a, update_breaker record_success ob1, s1)
           | (Raised e, s1) \<Rightarrow> (Exc e, update_breaker (record_failure (mtime s1)) ob1, s1)
           | (Exhausted err, s1) \<Rightarrow>
               (case err of None \<Rightarrow> Assertion_failed | Some e \<Rightarrow> Exc e,
                update_breaker (record_failure (mtime s1)) ob1, s1))"

section \<open>The breaker\<close>

lemma breaker_frame [simp]:
  "br_threshold (record_success b) = br_threshold b"
  "br_recovery (record_success b) = br_recovery b"
  "br_name (record_success b) = br_name b"
  "br_threshold (record_failure now b) = br_threshold b"
  "br_recovery (record_failure now b) = br_recovery b"
  "br_name (record_failure now b) = br_name b"
  "br_threshold (snd (allows_call now b)) = br_threshold b"
  "br_recovery (snd (allows_call now b)) = br_recovery b"
  "br_name (snd (allows_call now b)) = br_name b"
  "br_opened_at (snd (allows_call now b)) = br_opened_at b"
  by (simp_all add: record_success_def record_failure_def allows_call_def Let_def)

lemma record_success_closed [simp]: "state_at now (record_success b) = CLOSED"
  by (simp add: record_success_def state_at_def)

lemma state_at_closed_iff: "state_at now b = CLOSED \<longleftrightarrow> br_opened_at b = None"
  by (simp add: state_at_def split: option.splits)

lemma allows_call_open [simp]: "state_at now b = OPEN \<Longrightarrow> allows_call now b = (False, b)"
  by (simp add: allows_call_def)

lemma allows_call_closed [simp]: "state_at now b = CLOSED \<Longrightarrow> allows_call now b = (True, b)"
  by (simp add: allows_call_def)

lemma allows_call_iff: "fst (allows_call now b) \<longleftrightarrow> state_at now b \<noteq> OPEN"
  by (simp add: allows_call_def)

text \<open>
  The abstract breaker of the normal operation: the length of the run of failures at the
  end of the outcome history, newest last.
\<close>

fun trailing_failures :: "bool list \<Rightarrow> nat" where
  "trailing_failures [] = 0"
| "trailing_failures (ok # oks) = (if ok then 0 else Suc (trailing_failures oks))"

definition note_outcome :: "breaker \<Rightarrow> bool \<times> real \<Rightarrow> breaker" where
  "note_outcome b o1 = (if fst o1 then record_success b else record_failure (snd o1) b)"

lemma note_outcome_failures:
  assumes "\<not> br_half_open b" and "br_failures b = int k"
    and "br_opened_at b \<noteq> None \<longleftrightarrow> k \<ge> 1 \<and> br_threshold b \<le> int k"
    and "br_threshold b \<ge> 1"
  shows "\<not> br_half_open (note_outcome b o1)"
    and "br_failures (note_outcome b o1) = int (if fst o1 then 0 else Suc k)"
    and "br_opened_at (note_outcome b o1) \<noteq> None \<longleftrightarrow>
         \<not> fst o1 \<and> br_threshold b \<le> int (Suc k)"
    and "br_threshold (note_outcome b o1) = br_threshold b"
  using assms
  by (auto simp: note_outcome_def record_success_def record_failure_def Let_def)

lemma fold_outcomes:
  assumes "threshold \<ge> 1"
  shows "let b = foldr (\<lambda>o1 b. note_outcome b o1) os (new_breaker threshold recovery name);
             k = trailing_failures (map fst os)
         in \<not> br_half_open b \<and> br_failures b = int k \<and> br_threshold b = threshold \<and>
            (br_opened_at b \<noteq> None \<longleftrightarrow> threshold \<le> int k)"
proof (induction os)
  case Nil
  with assms show ?case by (simp add: new_breaker_def)
next
  case (Cons o1 os)
  let ?b = "foldr (\<lambda>o1 b. note_outcome b o1) os (new_breaker threshold recovery name)"
  let ?k = "trailing_failures (map fst os)"
  have IH: "\<not> br_half_open ?b" "br_failures ?b = int ?k" "br_threshold ?b = threshold"
    "br_opened_at ?b \<noteq> None \<longleftrightarrow> threshold \<le> int ?k"
    using Cons by (simp_all add: Let_def)
  have op: "br_opened_at ?b \<noteq> None \<longleftrightarrow> ?k \<ge> 1 \<and> br_threshold ?b \<le> int ?k"
    using IH assms by linarith
  have thr: "br_threshold ?b \<ge> 1" using IH assms by simp
  note step = note_outcome_failures [OF IH(1,2) op thr, of o1]
  show ?case using step IH(3) assms by (simp add: Let_def)
qed

section \<open>Counting the calls an operation receives\<close>

text \<open>The operation with a call counter beside its state.\<close>

definition counted :: "('s, 'a) operation \<Rightarrow> (nat \<times> 's, 'a) operation" where
  "counted op ks = (let (r, s1) = op (snd ks) in (r, (Suc (fst ks), s1)))"

definition counted_sleep :: "(real \<Rightarrow> 's \<Rightarrow> 's) \<Rightarrow> real \<Rightarrow> nat \<times> 's \<Rightarrow> nat \<times> 's" where
  "counted_sleep sleep d ks = (fst ks, sleep d (snd ks))"

lemma counted_pair [simp]:
  "counted op (k, s) = (fst (op s), (Suc k, snd (op s)))"
  "counted_sleep sleep d (k, s) = (k, sleep d s)"
  by (simp_all add: counted_def counted_sleep_def split_beta)

lemma retry_loop_count:
  assumes "retry_loop p u (counted_sleep sleep) (counted op) n attempt err (k, s) = (x, (k', s'))"
  shows "k \<le> k' \<and> k' \<le> k + n \<and> (n > 0 \<longrightarrow> k < k')"
  using assms
proof (induction n arbitrary: attempt err k s)
  case (Suc n)
  obtain r s1 where op: "op s = (r, s1)" by (cases "op s")
  show ?case
  proof (cases r)
    case (Inr a)
    with Suc.prems op show ?thesis by simp
  next
    case (Inl e)
    show ?thesis
    proof (cases "\<not> is_transient e \<or> attempt = rp_attempts p")
      case True
      with Suc.prems op Inl show ?thesis by (auto split: if_splits)
    next
      case False
      with Suc.prems op Inl
      have "retry_loop p u (counted_sleep sleep) (counted op) n (attempt + 1) (Some e)
              (Suc k, sleep (delay_for p (u attempt) attempt) s1) = (x, (k', s'))"
        by simp
      from Suc.IH [OF this] show ?thesis by auto
    qed
  qed
qed simp

lemma retry_loop_not_none:
  "retry_loop p u sleep op n attempt err s = (Exhausted None, s') \<Longrightarrow> n = 0 \<and> err = None"
proof (induction n arbitrary: attempt err s)
  case (Suc n)
  show ?case using Suc.prems Suc.IH
    by (auto split: prod.splits sum.splits if_splits)
qed simp

text \<open>A circuit that is open fails fast: the call is refused with the breaker's name, the
  operation is not invoked (the caller's state is returned as it was, the counter stays) and
  the breaker does not change.\<close>

theorem open_circuit_fails_fast:
  assumes "state_at (mtime s) b = OPEN"
  shows "call_with_resilience p u (counted_sleep sleep) (\<lambda>ks. mtime (snd ks)) (counted op) (Some b) (k, s)
         = (Circuit_open (br_name b), Some b, (k, s))"
  using assms by (simp add: call_with_resilience_def)

theorem open_circuit_fails_fast_witness:
  "call_with_resilience default_retry_policy (\<lambda>_. 0) (counted_sleep (\<lambda>_ s. s)) (\<lambda>ks. (\<lambda>_. 10) (snd ks))
     (counted (\<lambda>s. (Inr True, s))) (Some ((new_breaker 5 30 ''echo'')\<lparr>br_opened_at := Some 0\<rparr>)) (0, ())
   = (Circuit_open ''echo'', Some ((new_breaker 5 30 ''echo'')\<lparr>br_opened_at := Some 0\<rparr>), (0, ()))"
  using open_circuit_fails_fast [where mtime = "\<lambda>_. 10" and s = "()" and k = 0
      and b = "(new_breaker 5 30 ''echo'')\<lparr>br_opened_at := Some 0\<rparr>"
      and p = default_retry_policy and u = "\<lambda>_. 0" and sleep = "\<lambda>_ s. s" and op = "\<lambda>s. (Inr True, s)"]
  by (simp add: state_at_def new_breaker_def)

text \<open>A call that the breaker lets through invokes the operation at least once and at most
  \<open>attempts\<close> times, and feeds the breaker exactly once: a success is recorded when the call
  returns, one failure (at the time the last attempt ended) when it raises.\<close>

theorem resilient_call_accounting:
  assumes "state_at (mtime s) b \<noteq> OPEN" and "rp_attempts p \<ge> 1"
    and "call_with_resilience p u (counted_sleep sleep) (\<lambda>ks. mtime (snd ks)) (counted op) (Some b) (0, s)
         = (r, ob, (k, s'))"
  shows "1 \<le> k \<and> int k \<le> rp_attempts p \<and>
         (case r of
            Ok a \<Rightarrow> ob = Some (record_success (snd (allows_call (mtime s) b)))
          | Exc e \<Rightarrow> ob = Some (record_failure (mtime s') (snd (allows_call (mtime s) b)))
          | _ \<Rightarrow> False)"
proof -
  obtain x ks where loop: "retry_loop p u (counted_sleep sleep) (counted op) (nat (rp_attempts p)) 1 None (0, s)
      = (x, ks)" by (metis prod.exhaust)
  obtain k1 s1 where ks: "ks = (k1, s1)" by (cases ks)
  from retry_loop_count [OF loop [unfolded ks]] assms(2)
  have count: "1 \<le> k1 \<and> int k1 \<le> rp_attempts p" by auto
  have "x \<noteq> Exhausted None"
    using retry_loop_not_none loop assms(2) by (fastforce)
  then show ?thesis
    using assms(1,3) loop ks count
    by (auto simp: call_with_resilience_def allows_call_iff update_breaker_def Let_def
        split: loop_exit.splits option.splits)
qed

theorem resilient_call_accounting_witness:
  "\<exists>k s'. call_with_resilience default_retry_policy (\<lambda>_. 0) (counted_sleep (\<lambda>_ s. s)) (\<lambda>ks. 0)
      (counted (\<lambda>s. (if s = (0::nat) then Inl (Http_status 503) else Inr True, Suc s)))
      (Some (new_breaker 5 30 ''echo'')) (0, 0)
     = (Ok True, Some (record_success (new_breaker 5 30 ''echo'')), (k, s')) \<and> 1 \<le> k \<and> int k \<le> 3"
proof -
  let ?op = "\<lambda>s. (if s = (0::nat) then Inl (Http_status 503) else Inr True, Suc s)"
  let ?b = "new_breaker 5 30 ''echo''"
  have run: "call_with_resilience default_retry_policy (\<lambda>_. 0) (counted_sleep (\<lambda>_ s. s))
      (\<lambda>ks. (\<lambda>_. 0) (snd ks)) (counted ?op) (Some ?b) (0, 0) = (Ok True, Some (record_success ?b), (2, 2))"
    by (simp add: call_with_resilience_def default_retry_policy_def new_breaker_def state_at_def
        allows_call_def update_breaker_def retryable_status_def
        numeral_eq_Suc)
  have closed: "state_at ((\<lambda>_. 0) (0::nat)) ?b \<noteq> OPEN" by (simp add: state_at_def new_breaker_def)
  have att: "rp_attempts default_retry_policy \<ge> 1" by (simp add: default_retry_policy_def)
  from resilient_call_accounting [OF closed att run] run show ?thesis
    by (auto simp: default_retry_policy_def)
qed

text \<open>Under normal operation the breaker implements its abstract contract: after any
  history of outcomes (newest first) of a fresh breaker, it counts the failures at the end
  of the history and is open exactly when they have reached the threshold, so one success
  in between keeps it closed.\<close>

theorem breaker_counts_consecutive_failures:
  assumes "threshold \<ge> 1"
    and "b = foldr (\<lambda>o1 b. note_outcome b o1) os (new_breaker threshold recovery name)"
  shows "br_failures b = int (trailing_failures (map fst os)) \<and>
         (\<forall>now. state_at now b = CLOSED \<longleftrightarrow> int (trailing_failures (map fst os)) < threshold)"
  using fold_outcomes [OF assms(1), where os = os and recovery = recovery and name = name] assms(2)
  by (auto simp: Let_def state_at_closed_iff not_le)

theorem breaker_counts_consecutive_failures_witness:
  "br_failures (foldr (\<lambda>o1 b. note_outcome b o1) [(False, 3), (True, 2), (False, 1)] (new_breaker 2 30 ''x'')) = 1"
  using breaker_counts_consecutive_failures [OF _ refl, of 2 "[(False, 3), (True, 2), (False, 1)]" 30 "''x''"]
  by simp

text \<open>Once the recovery time has passed, one trial decides: the breaker lets it through,
  its failure opens the circuit for another whole recovery period (whatever the threshold),
  its success closes the circuit.\<close>

theorem half_open_trial_decides:
  assumes "state_at now b = HALF_OPEN"
  shows "fst (allows_call now b) \<and>
         (\<forall>later. later - fin < br_recovery b \<longrightarrow>
            state_at later (record_failure fin (snd (allows_call now b))) = OPEN) \<and>
         (\<forall>later. state_at later (record_success (snd (allows_call now b))) = CLOSED)"
proof -
  have trial: "allows_call now b = (True, b\<lparr>br_half_open := True\<rparr>)"
    using assms by (simp add: allows_call_def)
  show ?thesis unfolding trial by (simp add: record_failure_def state_at_def)
      (simp add: record_success_def)
qed

theorem half_open_trial_decides_witness:
  "state_at 50 (record_failure 40 (snd (allows_call 31 ((new_breaker 5 30 ''x'')\<lparr>br_opened_at := Some 1\<rparr>)))) = OPEN"
  using half_open_trial_decides [of 31 "(new_breaker 5 30 ''x'')\<lparr>br_opened_at := Some 1\<rparr>" 40]
  by (simp add: state_at_def new_breaker_def)

end
