(* ===== verification/Routing.thy ===== *)
theory Routing
  imports Resilience
begin

text \<open>
  \<open>providers/router.py\<close>: alias resolution, fallback chains and the circuit breaker each
  provider gets.  Vendor adapters are values of \<open>provider\<close>: what a call to them does to
  the state \<open>'s\<close> around it is a parameter.  A stream is the deltas it yields and the
  exception that ends it, if one does.
\<close>

section \<open>Providers and the router\<close>

record 's provider =
  pv_name :: string
  pv_complete :: "chat_request \<Rightarrow> ('s, chat_result) operation"
  pv_stream :: "chat_request \<Rightarrow> 's \<Rightarrow> (stream_delta list \<times> py_exc option) \<times> 's"
  pv_embed :: "string \<Rightarrow> string list \<Rightarrow> ('s, real list list) operation"

record 's model_router =
  ro_providers :: "(string \<times> 's provider) list"
  ro_aliases :: "(string \<times> string) list"
  ro_fallbacks :: "(string \<times> string list) list"
  ro_retry :: retry_policy
  ro_breakers :: "(string \<times> breaker) list"

text \<open>What surrounds the router: the jitter draws, \<open>asyncio.sleep\<close> and the monotonic clock.\<close>

record 's timing =
  tm_jitter :: "int \<Rightarrow> real"
  tm_sleep :: "real \<Rightarrow> 's \<Rightarrow> 's"
  tm_now :: "'s \<Rightarrow> real"

definition make_router ::
  "(string \<times> 's provider) list \<Rightarrow> (string \<times> string) list \<Rightarrow> (string \<times> string list) list
     \<Rightarrow> retry_policy \<Rightarrow> int \<Rightarrow> real \<Rightarrow> 's model_router" where
  "make_router pvs aliases fallbacks retry threshold recovery =
     \<lparr>ro_providers = pvs, ro_aliases = aliases, ro_fallbacks = fallbacks, ro_retry = retry,
      ro_breakers = map (\<lambda>(name, _). (name, new_breaker threshold recovery name)) pvs\<rparr>"

datatype resolve_error = Bad_ref string | No_provider string

text \<open>\<open>last_error\<close> of the chain walks, \<open>None\<close> before the first failure.\<close>

datatype link_error = Unresolved resolve_error | Circuit string | Vendor py_exc | Assertion

datatype router_error = All_failed string "link_error option" | None_available string "link_error option"

definition alias_of :: "'s model_router \<Rightarrow> string \<Rightarrow> string" where
  "alias_of rt ref = (case map_of (ro_aliases rt) ref of None \<Rightarrow> ref | Some r \<Rightarrow> r)"

definition resolve :: "'s model_router \<Rightarrow> string \<Rightarrow> resolve_error + 's provider \<times> string" where
  "resolve rt ref_or_alias =
     (let ref = alias_of rt ref_or_alias;
          provider_name = part_before (CHR ''/'') ref;
          model = part_after (CHR ''/'') ref
      in if model = [] then Inl (Bad_ref ref)
         else case map_of (ro_providers rt) provider_name of
             None \<Rightarrow> Inl (No_provider provider_name)
           | Some pv \<Rightarrow> Inr (pv, model))"

definition breaker_for :: "'s model_router \<Rightarrow> string \<Rightarrow> breaker option" where
  "breaker_for rt name = map_of (ro_breakers rt) name"

definition chain :: "'s model_router \<Rightarrow> string \<Rightarrow> string list" where
  "chain rt ref_or_alias =
     alias_of rt ref_or_alias
     # (case map_of (ro_fallbacks rt) ref_or_alias of None \<Rightarrow> [] | Some refs \<Rightarrow> refs)"

text \<open>The breaker objects are shared and mutable: writing one back is an update of the dictionary.\<close>

definition put_breaker :: "string \<Rightarrow> breaker option \<Rightarrow> 's model_router \<Rightarrow> 's model_router" where
  "put_breaker name ob rt =
     (case ob of None \<Rightarrow> rt | Some b \<Rightarrow> rt\<lparr>ro_breakers := AList.update name b (ro_breakers rt)\<rparr>)"

definition link_call ::
  "'s timing \<Rightarrow> 's model_router \<Rightarrow> 's provider \<Rightarrow> ('s, 'a) operation \<Rightarrow> 's
     \<Rightarrow> 'a call_result \<times> 's model_router \<times> 's" where
  "link_call tm rt pv op s =
     (let (r, ob, s1) = call_with_resilience (ro_retry rt) (tm_jitter tm) (tm_sleep tm) (tm_now tm)
                          op (breaker_for rt (pv_name pv)) s
      in (r, put_breaker (pv_name pv) ob rt, s1))"

fun complete_links ::
  "'s timing \<Rightarrow> string \<Rightarrow> chat_request \<Rightarrow> string list \<Rightarrow> link_error option \<Rightarrow> 's model_router \<Rightarrow> 's
     \<Rightarrow> (router_error + chat_result) \<times> 's model_router \<times> 's" where
  "complete_links tm al req [] err rt s = (Inl (All_failed al err), rt, s)"
| "complete_links tm al req (ref # refs) err rt s =
     (case resolve rt ref of
        Inl e \<Rightarrow> complete_links tm al req refs (Some (Unresolved e)) rt s
      | Inr (pv, model) \<Rightarrow>
          (case link_call tm rt pv (pv_complete pv (req\<lparr>cq_model := model\<rparr>)) s of
             (Ok res, rt1, s1) \<Rightarrow> (Inr res, rt1, s1)
           | (Circuit_open n, rt1, s1) \<Rightarrow> complete_links tm al req refs (Some (Circuit n)) rt1 s1
           | (Exc e, rt1, s1) \<Rightarrow> complete_links tm al req refs (Some (Vendor e)) rt1 s1
           | (Assertion_failed, rt1, s1) \<Rightarrow> complete_links tm al req refs (Some Assertion) rt1 s1))"

definition complete ::
  "'s timing \<Rightarrow> string \<Rightarrow> chat_request \<Rightarrow> 's model_router \<Rightarrow> 's
     \<Rightarrow> (router_error + chat_result) \<times> 's model_router \<times> 's" where
  "complete tm al req rt s = complete_links tm al req (chain rt al) None rt s"

text \<open>
  \<open>stream\<close> only selects: the provider and the request whose stream it returns.  Asking a
  half-open breaker marks the trial.
\<close>

fun select_links ::
  "real \<Rightarrow> string \<Rightarrow> chat_request \<Rightarrow> string list \<Rightarrow> link_error option \<Rightarrow> 's model_router
     \<Rightarrow> (router_error + 's provider \<times> chat_request) \<times> 's model_router" where
  "select_links now al req [] err rt = (Inl (None_available al err), rt)"
| "select_links now al req (ref # refs) err rt =
     (case resolve rt ref of
        Inl e \<Rightarrow> select_links now al req refs (Some (Unresolved e)) rt
      | Inr (pv, model) \<Rightarrow>
          (case breaker_for rt (pv_name pv) of
             None \<Rightarrow> (Inr (pv, req\<lparr>cq_model := model\<rparr>), rt)
           | Some b \<Rightarrow>
               (let rt1 = put_breaker (pv_name pv) (Some (snd (allows_call now b))) rt in
                if fst (allows_call now b) then (Inr (pv, req\<lparr>cq_model := model\<rparr>), rt1)
                else select_links now al req refs (Some (Circuit (pv_name pv))) rt1)))"

definition select_stream ::
  "real \<Rightarrow> string \<Rightarrow> chat_request \<Rightarrow> 's model_router
     \<Rightarrow> (router_error + 's provider \<times> chat_request) \<times> 's model_router" where
  "select_stream now al req rt = select_links now al req (chain rt al) None rt"

definition note_stream_outcome :: "real \<Rightarrow> string \<Rightarrow> bool \<Rightarrow> 's model_router \<Rightarrow> 's model_router" where
  "note_stream_outcome now al ok rt =
     (case resolve rt (hd (chain rt al)) of
        Inl _ \<Rightarrow> rt
      | Inr (pv, _) \<Rightarrow>
          (case breaker_for rt (pv_name pv) of
             None \<Rightarrow> rt
           | Some b \<Rightarrow> put_breaker (pv_name pv)
               (Some (if ok then record_success b else record_failure now b)) rt))"

definition embed ::
  "'s timing \<Rightarrow> string list \<Rightarrow> string \<Rightarrow> 's model_router \<Rightarrow> 's
     \<Rightarrow> (resolve_error + real list list call_result) \<times> 's model_router \<times> 's" where
  "embed tm texts ref_or_alias rt s =
     (case resolve rt ref_or_alias of
        Inl e \<Rightarrow> (Inl e, rt, s)
      | Inr (pv, model) \<Rightarrow>
          (let (r, rt1, s1) = link_call tm rt pv (pv_embed pv model texts) s in (Inr r, rt1, s1)))"

section \<open>The default router\<close>

record router_settings =
  rx_anthropic_key :: "string option"
  rx_openai_key :: "string option"
  rx_gemini_key :: "string option"
  rx_local_base_url :: "string option"
  rx_aliases :: "(string \<times> string) list"
  rx_fallbacks :: "(string \<times> string list) list"
  rx_retry_attempts :: int
  rx_breaker_threshold :: int
  rx_breaker_recovery :: real

definition truthy :: "string option \<Rightarrow> bool" where
  "truthy x = (case x of None \<Rightarrow> False | Some t \<Rightarrow> t \<noteq> [])"

text \<open>\<open>mk name\<close> is the adapter object constructed for that name.\<close>

definition build_default_router :: "(string \<Rightarrow> 's provider) \<Rightarrow> router_settings \<Rightarrow> 's model_router" where
  "build_default_router mk st =
     make_router
       ([(''echo'', mk ''echo''), (''hash'', mk ''hash'')]
        @ (if truthy (rx_anthropic_key st) then [(''anthropic'', mk ''anthropic'')] else [])
        @ (if truthy (rx_openai_key st) then [(''openai'', mk ''openai'')] else [])
        @ (if truthy (rx_gemini_key st) then [(''gemini'', mk ''gemini'')] else [])
        @ (if truthy (rx_local_base_url st) then [(''local'', mk ''local'')] else []))
       (rx_aliases st) (rx_fallbacks st)
       (default_retry_policy\<lparr>rp_attempts := rx_retry_attempts st\<rparr>)
       (rx_breaker_threshold st) (rx_breaker_recovery st)"

section \<open>Breakers of the router\<close>

lemma put_breaker_sel [simp]:
  "ro_providers (put_breaker n ob rt) = ro_providers rt"
  "ro_aliases (put_breaker n ob rt) = ro_aliases rt"
  "ro_fallbacks (put_breaker n ob rt) = ro_fallbacks rt"
  "ro_retry (put_breaker n ob rt) = ro_retry rt"
  by (simp_all add: put_breaker_def split: option.splits)

lemma resolve_put_breaker [simp]: "resolve (put_breaker n ob rt) = resolve rt"
  by (simp add: resolve_def alias_of_def fun_eq_iff Let_def)

lemma chain_put_breaker [simp]: "chain (put_breaker n ob rt) = chain rt"
  by (simp add: chain_def alias_of_def fun_eq_iff)

lemma breaker_for_put_breaker [simp]:
  "breaker_for (put_breaker n (Some b) rt) m = (if m = n then Some b else breaker_for rt m)"
  "breaker_for (put_breaker n None rt) m = breaker_for rt m"
  by (simp_all add: breaker_for_def put_breaker_def update_conv')

lemma retry_loop_success:
  assumes "\<forall>s. \<exists>a s1. op s = (Inr a, s1)" and "n > 0"
  shows "\<exists>a s1. retry_loop p u sleep op n k err s = (Returned a, s1)"
proof -
  obtain m where "n = Suc m" using assms(2) gr0_implies_Suc by blast
  moreover obtain a s1 where "op s = (Inr a, s1)" using assms(1) by blast
  ultimately show ?thesis by simp
qed

text \<open>A link whose provider answers and whose breaker is not open gives the answer.\<close>

lemma link_call_success:
  assumes "\<forall>s. \<exists>a s1. op s = (Inr a, s1)" and "rp_attempts (ro_retry rt) \<ge> 1"
    and "\<And>b. breaker_for rt (pv_name pv) = Some b \<Longrightarrow> state_at (tm_now tm s) b \<noteq> OPEN"
  shows "\<exists>a rt1 s1. link_call tm rt pv op s = (Ok a, rt1, s1)"
proof -
  obtain a s1 where "retry_loop (ro_retry rt) (tm_jitter tm) (tm_sleep tm) op
      (nat (rp_attempts (ro_retry rt))) 1 None s = (Returned a, s1)"
    using retry_loop_success [OF assms(1)] assms(2) by force
  then show ?thesis
    using assms(3)
    by (auto simp: link_call_def call_with_resilience_def allows_call_iff Let_def split: option.splits)
qed

text \<open>A link leaves the breakers of the other providers as they were.\<close>

lemma link_call_frame:
  assumes "link_call tm rt pv op s = (r, rt1, s1)"
  shows "resolve rt1 = resolve rt" and "ro_retry rt1 = ro_retry rt" and "chain rt1 = chain rt"
    and "m \<noteq> pv_name pv \<Longrightarrow> breaker_for rt1 m = breaker_for rt m"
proof -
  obtain ob where rt1: "rt1 = put_breaker (pv_name pv) ob rt"
    using assms by (auto simp: link_call_def Let_def split: prod.splits)
  then show "resolve rt1 = resolve rt" "ro_retry rt1 = ro_retry rt" "chain rt1 = chain rt"
    by simp_all
  show "breaker_for rt1 m = breaker_for rt m" if "m \<noteq> pv_name pv"
    using that by (cases ob) (simp_all add: rt1)
qed

lemma complete_links_available:
  assumes "ref \<in> set refs" and "resolve rt ref = Inr (pv, model)"
    and "\<And>r pv' m'. r \<in> set refs \<Longrightarrow> resolve rt r = Inr (pv', m') \<Longrightarrow> pv_name pv' = pv_name pv
           \<Longrightarrow> (\<forall>s. \<exists>a s1. pv_complete pv' (req\<lparr>cq_model := m'\<rparr>) s = (Inr a, s1))"
    and "\<And>b. breaker_for rt (pv_name pv) = Some b \<Longrightarrow> br_opened_at b = None"
    and "rp_attempts (ro_retry rt) \<ge> 1"
  shows "\<exists>res rt1 s1. complete_links tm al req refs err rt s = (Inr res, rt1, s1)"
  using assms
proof (induction refs arbitrary: err rt s)
  case (Cons r refs)
  show ?case
  proof (cases "resolve rt r")
    case (Inl e)
    with Cons.prems(1,2) have mem: "ref \<in> set refs" by auto
    have "\<exists>res rt1 s1. complete_links tm al req refs (Some (Unresolved e)) rt s = (Inr res, rt1, s1)"
      by (rule Cons.IH [OF mem Cons.prems(2)]) 
         (use Cons.prems(3) [OF list.set_intros(2)] Cons.prems(4,5) in blast)+
    with Inl show ?thesis by simp
  next
    case (Inr pm)
    obtain pv' m' where pm: "pm = (pv', m')" by (cases pm)
    let ?op = "pv_complete pv' (req\<lparr>cq_model := m'\<rparr>)"
    show ?thesis
    proof (cases "pv_name pv' = pv_name pv")
      case True
      have ans: "\<forall>s. \<exists>a s1. ?op s = (Inr a, s1)"
        using Cons.prems(3) [of r pv' m'] Inr pm True by simp
      have op: "state_at (tm_now tm s) b \<noteq> OPEN" if "breaker_for rt (pv_name pv') = Some b" for b
        using Cons.prems(4) that True by (simp add: state_at_def)
      obtain a rt1 s1 where "link_call tm rt pv' ?op s = (Ok a, rt1, s1)"
        using link_call_success [where pv = pv' and s = s, OF ans Cons.prems(5) op] by auto
      with Inr pm show ?thesis by simp
    next
      case False
      then have "r \<noteq> ref" using Inr pm Cons.prems(2) by auto
      then have mem: "ref \<in> set refs" using Cons.prems(1) by simp
      obtain x rt1 s1 where call: "link_call tm rt pv' ?op s = (x, rt1, s1)" by (metis prod.exhaust)
      note fr = link_call_frame [OF call]
      have br: "breaker_for rt1 (pv_name pv) = breaker_for rt (pv_name pv)"
        using fr(4) False by metis
      have "\<exists>res rt2 s2. complete_links tm al req refs err' rt1 s1 = (Inr res, rt2, s2)" for err'
      proof (rule Cons.IH [OF mem])
        show "resolve rt1 ref = Inr (pv, model)" using Cons.prems(2) by (simp add: fr(1))
        show "\<forall>s. \<exists>a s1. pv_complete pv2 (req\<lparr>cq_model := m2\<rparr>) s = (Inr a, s1)"
          if "r' \<in> set refs" "resolve rt1 r' = Inr (pv2, m2)" "pv_name pv2 = pv_name pv" for r' pv2 m2
          using Cons.prems(3) [of r' pv2 m2] that by (simp add: fr(1))
        show "br_opened_at b = None" if "breaker_for rt1 (pv_name pv) = Some b" for b
          using Cons.prems(4) that by (simp add: br)
        show "1 \<le> rp_attempts (ro_retry rt1)" using Cons.prems(5) by (simp add: fr(2))
      qed
      then show ?thesis using Inr pm call by (auto split: call_result.splits)
    qed
  qed
qed simp

text \<open>Fallback works: when some link of the chain resolves to a provider whose circuit is
  closed and that answers (for every model the chain asks it for), the completion succeeds,
  whatever the links before it do: unresolvable refs, open circuits, vendor failures.\<close>

theorem complete_available:
  assumes "ref \<in> set (chain rt al)" and "resolve rt ref = Inr (pv, model)"
    and "\<And>r pv' m'. r \<in> set (chain rt al) \<Longrightarrow> resolve rt r = Inr (pv', m')
           \<Longrightarrow> pv_name pv' = pv_name pv
           \<Longrightarrow> (\<forall>s. \<exists>a s1. pv_complete pv' (req\<lparr>cq_model := m'\<rparr>) s = (Inr a, s1))"
    and "\<And>b. breaker_for rt (pv_name pv) = Some b \<Longrightarrow> br_opened_at b = None"
    and "rp_attempts (ro_retry rt) \<ge> 1"
  shows "\<exists>res rt1 s1. complete tm al req rt s = (Inr res, rt1, s1)"
  unfolding complete_def by (rule complete_links_available [OF assms])

definition demo_reply :: chat_result where
  "demo_reply = \<lparr>cs_message = \<lparr>cm_role = ASSISTANT, cm_content = ''ok'', cm_tool_calls = [],
     cm_tool_call_id = None\<rparr>, cs_usage = no_usage, cs_finish = Stop\<rparr>"

definition demo_provider :: "string \<Rightarrow> unit provider" where
  "demo_provider name = \<lparr>pv_name = name,
     pv_complete = (\<lambda>req s. (if name = ''echo'' then Inr demo_reply else Inl (Http_status 401), s)),
     pv_stream = (\<lambda>req s. (([Done_delta (Some demo_reply)], None), s)),
     pv_embed = (\<lambda>m ts s. (Inr [], s))\<rparr>"

definition demo_router :: "unit model_router" where
  "demo_router = make_router [(''dead'', demo_provider ''dead''), (''echo'', demo_provider ''echo'')]
     [(''deep'', ''dead/m1'')] [(''deep'', [''nosuch/x'', ''echo/m2''])] default_retry_policy 5 30"

definition demo_timing :: "unit timing" where
  "demo_timing = \<lparr>tm_jitter = (\<lambda>_. 0), tm_sleep = (\<lambda>_ s. s), tm_now = (\<lambda>_. 0)\<rparr>"

definition demo_request :: chat_request where
  "demo_request = \<lparr>cq_model = ''unset'', cq_messages = [], cq_tools = [],
     cq_temperature = 2/5, cq_max_tokens = 4096\<rparr>"

lemmas demo_defs = demo_router_def demo_provider_def make_router_def new_breaker_def
  chain_def alias_of_def resolve_def part_before_def part_after_def breaker_for_def

theorem complete_available_witness:
  "\<exists>res rt1 s1. complete demo_timing ''deep'' demo_request demo_router () = (Inr res, rt1, s1)"
  by (rule complete_available [where ref = "''echo/m2''" and pv = "demo_provider ''echo''" and model = "''m2''"])
     (auto simp: demo_defs default_retry_policy_def split: if_splits)

text \<open>Selection leaves an open breaker as it is and never picks its provider.\<close>

lemma select_links_skips_open:
  assumes "select_links now al req refs err rt = (Inr (pv, req'), rt1)"
    and "breaker_for rt n = Some b" and "state_at now b = OPEN"
  shows "breaker_for rt1 n = Some b \<and> resolve rt1 = resolve rt \<and> chain rt1 = chain rt \<and> pv_name pv \<noteq> n"
  using assms
proof (induction refs arbitrary: err rt)
  case (Cons r refs)
  show ?case
  proof (cases "resolve rt r")
    case (Inl e)
    with Cons.prems show ?thesis using Cons.IH by auto
  next
    case (Inr pm)
    obtain pv' m' where pm: "pm = (pv', m')" by (cases pm)
    show ?thesis
    proof (cases "breaker_for rt (pv_name pv')")
      case None
      with Cons.prems Inr pm show ?thesis by auto
    next
      case (Some b')
      let ?rt = "put_breaker (pv_name pv') (Some (snd (allows_call now b'))) rt"
      show ?thesis
      proof (cases "fst (allows_call now b')")
        case True
        with Cons.prems Inr pm Some show ?thesis by (auto simp: allows_call_iff)
      next
        case False
        then have "state_at now b' = OPEN" by (simp add: allows_call_iff)
        then have "breaker_for ?rt n = Some b" using Cons.prems(2) Some
          by (cases "n = pv_name pv'") simp_all
        moreover have "select_links now al req refs (Some (Circuit (pv_name pv'))) ?rt = (Inr (pv, req'), rt1)"
          using Cons.prems(1) Inr pm Some False by (simp add: Let_def)
        ultimately show ?thesis using Cons.IH [of _ ?rt] Cons.prems(3) by simp
      qed
    qed
  qed
qed simp

text \<open>A fallback's outcome is credited to the wrong breaker: when the circuit of the chain's
  first provider is open and the stream is therefore served by another one, reporting that
  stream's success closes the first provider's circuit, although it was not called, and
  leaves the breaker of the provider that did serve the stream as it was.\<close>

theorem stream_outcome_credits_first_link:
  assumes "resolve rt (hd (chain rt al)) = Inr (first, fm)"
    and "breaker_for rt (pv_name first) = Some b" and "state_at now b = OPEN"
    and "select_stream now al req rt = (Inr (pv, req'), rt1)"
  shows "pv_name pv \<noteq> pv_name first \<and>
         (\<exists>b'. breaker_for (note_stream_outcome later al True rt1) (pv_name first) = Some b'
               \<and> state_at later b' = CLOSED) \<and>
         breaker_for (note_stream_outcome later al True rt1) (pv_name pv) = breaker_for rt1 (pv_name pv)"
proof -
  note sel = select_links_skips_open [OF assms(4) [unfolded select_stream_def] assms(2,3)]
  from sel show ?thesis using assms(1)
    by (simp add: note_stream_outcome_def)
qed

definition demo_tripped :: "unit model_router" where
  "demo_tripped = demo_router\<lparr>ro_breakers :=
     [(''dead'', (new_breaker 5 30 ''dead'')\<lparr>br_opened_at := Some 0\<rparr>), (''echo'', new_breaker 5 30 ''echo'')]\<rparr>"

theorem stream_outcome_credits_first_link_witness:
  "\<exists>b'. breaker_for (note_stream_outcome 2 ''deep'' True (snd (select_stream 1 ''deep'' demo_request demo_tripped)))
      ''dead'' = Some b' \<and> state_at 2 b' = CLOSED"
proof -
  let ?b = "(new_breaker 5 30 ''dead'')\<lparr>br_opened_at := Some 0\<rparr>"
  have sel: "select_stream 1 ''deep'' demo_request demo_tripped
      = (Inr (demo_provider ''echo'', demo_request\<lparr>cq_model := ''m2''\<rparr>),
         snd (select_stream 1 ''deep'' demo_request demo_tripped))"
    by (simp add: select_stream_def demo_tripped_def demo_defs put_breaker_def allows_call_def
        state_at_def Let_def)
  have "\<exists>b'. breaker_for (note_stream_outcome 2 ''deep'' True
        (snd (select_stream 1 ''deep'' demo_request demo_tripped))) (pv_name (demo_provider ''dead'')) = Some b'
      \<and> state_at 2 b' = CLOSED"
    by (rule stream_outcome_credits_first_link [where now = "1" and later = "2" and al = "''deep''"
          and fm = "''m1''" and b = "?b", THEN conjunct2, THEN conjunct1, OF _ _ _ sel])
       (simp_all add: demo_tripped_def demo_defs state_at_def)
  then show ?thesis by (simp add: demo_provider_def)
qed

end
