(* ===== verification/Tooling.thy ===== *)
theory Tooling
  imports Store
begin

text \<open>
  \<open>tools/base.py\<close>, \<open>tools/registry.py\<close> and \<open>tools/executor.py\<close>: what a tool
  is, which tools an agent sees, and the policy envelope around every call.  The body of a
  tool, and pydantic's validation of its arguments, are functions of the tool: the state
  \<open>'s\<close> is whatever the tool may touch.
\<close>

section \<open>Glob patterns: fnmatch\<close>

fun match_class :: "string \<Rightarrow> char \<Rightarrow> bool" where
  "match_class [] c = False"
| "match_class [a] c = (a = c)"
| "match_class [a, b] c = (a = c \<or> b = c)"
| "match_class (a # b # d # rest) c =
     (if b = CHR ''-'' then (a \<le> c \<and> c \<le> d) \<or> match_class rest c
      else a = c \<or> match_class (b # d # rest) c)"

text \<open>The text after a \<open>[\<close>: negation, body, and the pattern after the closing \<open>]\<close>.\<close>

definition class_split :: "string \<Rightarrow> (bool \<times> string \<times> string) option" where
  "class_split ps =
     (let neg = (ps \<noteq> [] \<and> hd ps = CHR ''!'');
          q = (if neg then tl ps else ps);
          lead = (if q \<noteq> [] \<and> hd q = CHR '']'' then [CHR '']''] else []);
          rest = drop (length lead) q
      in case dropWhile (\<lambda>c. c \<noteq> CHR '']'') rest of
           [] \<Rightarrow> None
         | _ # after \<Rightarrow> Some (neg, lead @ takeWhile (\<lambda>c. c \<noteq> CHR '']'') rest, after))"

lemma class_split_shorter:
  assumes "class_split ps = Some (neg, body, after)"
  shows "length after < length ps"
proof -
  let ?q = "if ps \<noteq> [] \<and> hd ps = CHR ''!'' then tl ps else ps"
  let ?lead = "if ?q \<noteq> [] \<and> hd ?q = CHR '']'' then [CHR '']''] else []"
  let ?rest = "drop (length ?lead) ?q"
  from assms obtain x where "dropWhile (\<lambda>c. c \<noteq> CHR '']'') ?rest = x # after"
    by (auto simp: class_split_def Let_def split: list.splits)
  then have "length after < length (dropWhile (\<lambda>c. c \<noteq> CHR '']'') ?rest)" by simp
  also have "\<dots> \<le> length ?rest" by (rule length_dropWhile_le)
  also have "\<dots> \<le> length ps" by simp
  finally show ?thesis .
qed

function glob :: "string \<Rightarrow> string \<Rightarrow> bool" where
  "glob [] n = (n = [])"
| "glob (p # ps) n =
     (if p = CHR ''*'' then glob ps n \<or> (case n of [] \<Rightarrow> False | _ # n' \<Rightarrow> glob (p # ps) n')
      else case n of
          [] \<Rightarrow> False
        | c # n' \<Rightarrow>
            if p = CHR ''?'' then glob ps n'
            else if p = CHR ''['' then
              (case class_split ps of
                 None \<Rightarrow> c = p \<and> glob ps n'
               | Some (neg, body, after) \<Rightarrow> match_class body c \<noteq> neg \<and> glob after n')
            else c = p \<and> glob ps n')"
  by pat_completeness auto
termination
  by (relation "measure (\<lambda>(p, n). length p + length n)") (auto dest: class_split_shorter)

definition fnmatch :: "string \<Rightarrow> string \<Rightarrow> bool" where
  "fnmatch name pattern = glob pattern name"

section \<open>Tools\<close>

record tool_outcome =
  to_ok :: bool
  to_summary :: string
  to_data :: json_dict

definition success :: "string \<Rightarrow> json_dict \<Rightarrow> tool_outcome" where
  "success summary data = \<lparr>to_ok = True, to_summary = summary, to_data = data\<rparr>"

definition failure :: "string \<Rightarrow> json_dict \<Rightarrow> tool_outcome" where
  "failure summary data = \<lparr>to_ok = False, to_summary = summary, to_data = data\<rparr>"

text \<open>
  The answer of a delegated run, the \<open>LookupError\<close> for an unknown handle, or another
  exception that escapes the delegation.
\<close>

datatype delegate_result = Answer string | Lookup_error string | Delegate_raised

type_synonym 's delegate_fn = "string \<Rightarrow> string \<Rightarrow> 's \<Rightarrow> delegate_result \<times> 's"

record 's tool_context =
  cx_workspace :: ident
  cx_session :: ident
  cx_run :: ident
  cx_sandbox_dir :: string
  cx_delegate :: "'s delegate_fn option"
  cx_working_notes :: "string list"

record tool_invocation =
  iv_call_id :: string
  iv_tool_name :: string
  iv_arguments :: json_dict

text \<open>
  A run of a tool under \<open>asyncio.wait_for\<close> ends with its outcome, is cut off by the
  timeout it was given, or raises.
\<close>

datatype tool_run = Finished tool_outcome | Timed_out | Crashed string

text \<open>\<open>ts_validate\<close> is \<open>params_model.model_validate\<close>: the issues or the arguments.\<close>

record tool_spec =
  ts_name :: string
  ts_description :: string
  ts_schema :: json
  ts_validate :: "json_dict \<Rightarrow> string list + json_dict"
  ts_requires_approval :: bool
  ts_timeout_seconds :: "real option"

record 's tool =
  tl_spec :: tool_spec
  tl_run :: "json_dict \<Rightarrow> 's tool_context \<Rightarrow> real \<Rightarrow> 's \<Rightarrow> tool_run \<times> 's"

definition descriptor :: "tool_spec \<Rightarrow> tool_descriptor" where
  "descriptor sp = \<lparr>td_name = ts_name sp, td_description = ts_description sp, td_parameters = ts_schema sp\<rparr>"

section \<open>The registry\<close>

type_synonym 's registry = "(string \<times> 's tool) list"

definition register :: "'s tool \<Rightarrow> 's registry \<Rightarrow> string + 's registry" where
  "register t reg =
     (let name = ts_name (tl_spec t)
      in if name \<in> fst ` set reg then Inl (''tool '' @ name @ '' already registered'')
         else Inr (reg @ [(name, t)]))"

definition get_tool :: "'s registry \<Rightarrow> string \<Rightarrow> 's tool option" where
  "get_tool reg name = map_of reg name"

definition tool_names :: "'s registry \<Rightarrow> string list" where
  "tool_names reg = sort (map fst reg)"

definition granted :: "string list \<Rightarrow> 's registry \<Rightarrow> 's tool list" where
  "granted grants reg =
     map snd (filter (\<lambda>(name, t). \<exists>pattern\<in>set grants. fnmatch name pattern) (sort_key fst reg))"

definition descriptors :: "string list \<Rightarrow> 's registry \<Rightarrow> tool_descriptor list" where
  "descriptors grants reg = map (\<lambda>t. descriptor (tl_spec t)) (granted grants reg)"

definition is_granted :: "string \<Rightarrow> string list \<Rightarrow> 's registry \<Rightarrow> bool" where
  "is_granted name grants reg =
     (name \<in> fst ` set reg \<and> (\<exists>pattern\<in>set grants. fnmatch name pattern))"

section \<open>The executor\<close>

record approval_pending =
  pa_invocation :: tool_invocation
  pa_reason :: string

record 's executor =
  ex_registry :: "'s registry"
  ex_default_timeout :: real
  ex_force_approval :: "string list"

definition needs_approval :: "'s executor \<Rightarrow> 's tool \<Rightarrow> bool" where
  "needs_approval ex t =
     (ts_requires_approval (tl_spec t) \<or> ts_name (tl_spec t) \<in> set (ex_force_approval ex))"

definition timeout_of :: "'s executor \<Rightarrow> 's tool \<Rightarrow> real" where
  "timeout_of ex t = (case ts_timeout_seconds (tl_spec t) of
       None \<Rightarrow> ex_default_timeout ex
     | Some x \<Rightarrow> if x = 0 then ex_default_timeout ex else x)"

definition quoted :: "string \<Rightarrow> string" where
  "quoted x = CHR 0x27 # x @ [CHR 0x27]"

text \<open>\<open>Inl\<close> is the raised \<open>ApprovalPending\<close>, \<open>Inr\<close> the outcome handed to the model.\<close>

definition execute ::
  "'s executor \<Rightarrow> tool_invocation \<Rightarrow> 's tool_context \<Rightarrow> string list \<Rightarrow> bool \<Rightarrow> 's
     \<Rightarrow> (approval_pending + tool_outcome) \<times> 's" where
  "execute ex call ctx grants approved s =
     (let name = iv_tool_name call in
      if \<not> is_granted name grants (ex_registry ex)
      then (Inr (failure (''Tool '' @ quoted name @ '' is not available to this agent. '' @
              ''Use one of your listed tools instead.'') []), s)
      else case get_tool (ex_registry ex) name of
          None \<Rightarrow> (Inr (failure ''unreachable'' []), s)
        | Some t \<Rightarrow>
            (case ts_validate (tl_spec t) (iv_arguments call) of
               Inl issues \<Rightarrow>
                 (Inr (failure (''Invalid arguments for '' @ quoted name @ '': '' @ join ''; '' issues @
                    ''. Fix the arguments and retry.'') []), s)
             | Inr args \<Rightarrow>
                 if needs_approval ex t \<and> \<not> approved
                 then (Inl \<lparr>pa_invocation = call, pa_reason = quoted name @ '' requires human approval''\<rparr>, s)
                 else
                   (case tl_run t args ctx (timeout_of ex t) s of
                      (Timed_out, s1) \<Rightarrow>
                        (Inr (failure (quoted name @ '' timed out after '' @ show_fixed0 (timeout_of ex t) @ ''s. '' @
                           ''Try a smaller operation or split the work.'') []), s1)
                    | (Crashed _, s1) \<Rightarrow>
                        (Inr (failure (quoted name @ '' failed unexpectedly. Try a different approach.'') []), s1)
                    | (Finished out, s1) \<Rightarrow> (Inr out, s1))))"

section \<open>Registry lemmas\<close>

text \<open>Every tool is filed once, under its own name.\<close>

definition registry_ok :: "'s registry \<Rightarrow> bool" where
  "registry_ok reg = (distinct (map fst reg) \<and> (\<forall>(n, t)\<in>set reg. n = ts_name (tl_spec t)))"

lemma registry_ok_Nil [simp]: "registry_ok []"
  by (simp add: registry_ok_def)

lemma register_ok:
  assumes "registry_ok reg" and "register t reg = Inr reg'"
  shows "registry_ok reg'" and "get_tool reg' (ts_name (tl_spec t)) = Some t"
    and "n \<noteq> ts_name (tl_spec t) \<Longrightarrow> get_tool reg' n = get_tool reg n"
proof -
  let ?n = "ts_name (tl_spec t)"
  have new: "?n \<notin> fst ` set reg" and reg': "reg' = reg @ [(?n, t)]"
    using assms(2) by (auto simp: register_def Let_def split: if_splits)
  from new have none: "map_of reg ?n = None" by (simp add: map_of_eq_None_iff)
  show "registry_ok reg'" using assms(1) new by (auto simp: registry_ok_def reg')
  show "get_tool reg' ?n = Some t" using none by (simp add: get_tool_def reg' map_add_def)
  show "get_tool reg' n = get_tool reg n" if "n \<noteq> ?n"
    using that by (simp add: get_tool_def reg' map_add_def split: option.splits)
qed

lemma get_tool_iff: "n \<in> fst ` set reg \<longleftrightarrow> (\<exists>t. get_tool reg n = Some t)"
  by (metis get_tool_def map_of_eq_None_iff not_Some_eq)

lemma granted_mem:
  assumes "registry_ok reg"
  shows "t \<in> set (granted grants reg) \<longleftrightarrow>
         get_tool reg (ts_name (tl_spec t)) = Some t \<and> is_granted (ts_name (tl_spec t)) grants reg"
proof -
  have "get_tool reg n = Some t \<longleftrightarrow> (n, t) \<in> set reg" for n
    using assms by (simp add: get_tool_def registry_ok_def map_of_eq_Some_iff)
  then have lookup: "get_tool reg n = Some t \<longleftrightarrow> (n, t) \<in> set reg" for n .
  have name: "n = ts_name (tl_spec t)" if "(n, t) \<in> set reg" for n
    using assms that by (auto simp: registry_ok_def)
  have "t \<in> set (granted grants reg) \<longleftrightarrow>
      (\<exists>n. (n, t) \<in> set reg \<and> (\<exists>pattern\<in>set grants. fnmatch n pattern))"
    by (auto simp: granted_def image_iff)
  also have "\<dots> \<longleftrightarrow> (ts_name (tl_spec t), t) \<in> set reg \<and>
      (\<exists>pattern\<in>set grants. fnmatch (ts_name (tl_spec t)) pattern)"
    using name by blast
  finally show ?thesis using lookup by (auto simp: is_granted_def intro: rev_image_eqI)
qed

lemma fnmatch_literal:
  "\<forall>c\<in>set n. c \<noteq> CHR ''*'' \<and> c \<noteq> CHR ''?'' \<and> c \<noteq> CHR ''['' \<Longrightarrow> fnmatch m n \<longleftrightarrow> m = n"
  unfolding fnmatch_def
proof (induction n arbitrary: m)
  case (Cons c n)
  then show ?case by (cases m) auto
qed simp

lemma glob_star: "glob [CHR ''*''] n"
  by (induction n) simp_all

text \<open>A namespace grant such as \<open>fs.*\<close> covers exactly the names that start with it.\<close>

lemma fnmatch_namespace:
  "\<forall>c\<in>set p. c \<noteq> CHR ''*'' \<and> c \<noteq> CHR ''?'' \<and> c \<noteq> CHR ''['' \<Longrightarrow>
   fnmatch m (p @ [CHR ''*'']) \<longleftrightarrow> starts_with p m"
  unfolding fnmatch_def
proof (induction p arbitrary: m)
  case Nil
  then show ?case by (simp add: starts_with_def glob_star del: glob.simps)
next
  case (Cons c p)
  then show ?case by (cases m) (auto simp: starts_with_def)
qed

section \<open>Properties\<close>

text \<open>Registration keeps the registry well formed: it refuses a name that is taken and
  leaves the registry as it was; otherwise the new tool is found under its own name and
  every other name keeps its tool.\<close>

theorem register_functional:
  assumes "registry_ok reg"
  shows "case register t reg of
           Inl _ \<Rightarrow> get_tool reg (ts_name (tl_spec t)) \<noteq> None
         | Inr reg' \<Rightarrow> registry_ok reg' \<and> get_tool reg (ts_name (tl_spec t)) = None \<and>
             get_tool reg' = (get_tool reg)(ts_name (tl_spec t) \<mapsto> t)"
proof (cases "register t reg")
  case (Inl e)
  then show ?thesis by (auto simp: register_def Let_def get_tool_iff split: if_splits)
next
  case (Inr reg')
  have "get_tool reg' = (get_tool reg)(ts_name (tl_spec t) \<mapsto> t)"
    using register_ok(2,3) [OF assms Inr] by (auto simp: fun_eq_iff)
  moreover have "get_tool reg (ts_name (tl_spec t)) = None"
    using Inr get_tool_iff [of "ts_name (tl_spec t)" reg] by (auto simp: register_def Let_def split: if_splits)
  ultimately show ?thesis using register_ok(1) [OF assms Inr] Inr by simp
qed

definition demo_tool :: "string \<Rightarrow> bool \<Rightarrow> nat tool" where
  "demo_tool name gate =
     \<lparr>tl_spec = \<lparr>ts_name = name, ts_description = [], ts_schema = JNull, ts_validate = Inr,
        ts_requires_approval = gate, ts_timeout_seconds = None\<rparr>,
      tl_run = (\<lambda>args ctx t s. (Finished (success ''done'' []), Suc s))\<rparr>"

definition demo_registry :: "nat registry" where
  "demo_registry = [(''shell.run'', demo_tool ''shell.run'' True), (''fs.read'', demo_tool ''fs.read'' False)]"

definition demo_executor :: "nat executor" where
  "demo_executor = \<lparr>ex_registry = demo_registry, ex_default_timeout = 120, ex_force_approval = []\<rparr>"

definition demo_context :: "nat tool_context" where
  "demo_context = \<lparr>cx_workspace = ''w'', cx_session = ''s'', cx_run = ''r'', cx_sandbox_dir = ''d'',
     cx_delegate = None, cx_working_notes = []\<rparr>"

definition demo_call :: "string \<Rightarrow> tool_invocation" where
  "demo_call name = \<lparr>iv_call_id = ''c1'', iv_tool_name = name, iv_arguments = []\<rparr>"

lemma demo_registry_ok: "registry_ok demo_registry"
  by (simp add: registry_ok_def demo_registry_def demo_tool_def)

theorem register_functional_witness:
  "\<exists>reg'. register (demo_tool ''git.log'' False) demo_registry = Inr reg' \<and> registry_ok reg'"
proof -
  obtain reg' where reg: "register (demo_tool ''git.log'' False) demo_registry = Inr reg'"
    by (simp add: register_def demo_registry_def demo_tool_def Let_def)
  with register_functional [OF demo_registry_ok, of "demo_tool ''git.log'' False"]
  show ?thesis by simp
qed

text \<open>Visibility and executability agree: the tools advertised to the model under a set of
  grants are exactly those a call may execute, and a call to any other name is answered
  with a failure without touching anything.\<close>

theorem advertised_iff_executable:
  assumes "registry_ok (ex_registry ex)"
  shows "(name \<in> td_name ` set (descriptors grants (ex_registry ex)) \<longleftrightarrow> is_granted name grants (ex_registry ex)) \<and>
         (\<not> is_granted name grants (ex_registry ex) \<longrightarrow> iv_tool_name call = name \<longrightarrow>
            (\<exists>out. execute ex call ctx grants approved s = (Inr out, s) \<and> \<not> to_ok out))"
proof
  show "name \<in> td_name ` set (descriptors grants (ex_registry ex)) \<longleftrightarrow> is_granted name grants (ex_registry ex)"
  proof
    assume "name \<in> td_name ` set (descriptors grants (ex_registry ex))"
    then obtain t where "t \<in> set (granted grants (ex_registry ex))" "ts_name (tl_spec t) = name"
      by (auto simp: descriptors_def descriptor_def)
    then show "is_granted name grants (ex_registry ex)"
      using granted_mem [OF assms] by blast
  next
    assume g: "is_granted name grants (ex_registry ex)"
    then obtain t where t: "get_tool (ex_registry ex) name = Some t"
      using get_tool_iff [of name "ex_registry ex"] by (auto simp: is_granted_def)
    then have "ts_name (tl_spec t) = name"
      using assms by (auto simp: get_tool_def registry_ok_def dest: map_of_SomeD)
    then have "t \<in> set (granted grants (ex_registry ex))"
      using g t granted_mem [OF assms] by blast
    then show "name \<in> td_name ` set (descriptors grants (ex_registry ex))"
      using \<open>ts_name (tl_spec t) = name\<close> by (force simp: descriptors_def descriptor_def)
  qed
  show "\<not> is_granted name grants (ex_registry ex) \<longrightarrow> iv_tool_name call = name \<longrightarrow>
      (\<exists>out. execute ex call ctx grants approved s = (Inr out, s) \<and> \<not> to_ok out)"
    by (simp add: execute_def failure_def)
qed

theorem advertised_iff_executable_witness:
  "\<exists>out. execute demo_executor (demo_call ''shell.run'') demo_context [''fs.*''] True 0 = (Inr out, 0) \<and> \<not> to_ok out"
  using advertised_iff_executable [of demo_executor "''shell.run''" "[''fs.*'']" "demo_call ''shell.run''" demo_context True 0]
  by (simp add: demo_executor_def demo_registry_ok demo_call_def is_granted_def fnmatch_def)

text \<open>C3.  The approval gate cannot be bypassed: a call of a tool that needs approval (by its own
  flag or by the operator's forced list) without an explicit approval never runs the tool:
  nothing changes, and the answer is the pending approval for exactly this call, or a failure
  when the call is not granted or its arguments are invalid.\<close>

theorem gated_call_never_runs:
  assumes "get_tool (ex_registry ex) (iv_tool_name call) = Some t" and "needs_approval ex t"
    and "execute ex call ctx grants False s = (r, s')"
  shows "s' = s \<and> (case r of Inl p \<Rightarrow> pa_invocation p = call | Inr out \<Rightarrow> \<not> to_ok out)"
  using assms by (auto simp: execute_def Let_def failure_def split: sum.splits if_splits)

theorem gated_call_never_runs_witness:
  "\<exists>p. execute demo_executor (demo_call ''shell.run'') demo_context [''shell.*''] False 7 = (Inl p, 7)"
proof -
  let ?r = "execute demo_executor (demo_call ''shell.run'') demo_context [''shell.*''] False 7"
  have "snd ?r = 7"
    using gated_call_never_runs [of demo_executor "demo_call ''shell.run''" "demo_tool ''shell.run'' True"
        demo_context "[''shell.*'']" 7 "fst ?r" "snd ?r"]
    by (simp add: demo_executor_def demo_registry_def demo_call_def get_tool_def needs_approval_def demo_tool_def)
  moreover have "\<exists>p. fst ?r = Inl p"
    by (simp add: execute_def demo_executor_def demo_registry_def demo_call_def get_tool_def
        needs_approval_def demo_tool_def is_granted_def fnmatch_def Let_def)
  ultimately show ?thesis by (metis prod.collapse)
qed

end
