(* ===== verification/Context.thy ===== *)
theory Context
  imports Routing "HOL-Library.Multiset"
begin

text \<open>
  \<open>prompts.py\<close>, \<open>memory.py\<close> and \<open>providers/hashing.py\<close>: the token-budgeted
  context of a model call, episodic replay of a session, and semantic memory ranked by
  cosine similarity.  Embedding vectors are lists of reals.
\<close>

section \<open>Prompt assembly\<close>

definition newline :: string where
  "newline = [CHR 0x0A]"

definition estimate_tokens :: "string \<Rightarrow> int" where
  "estimate_tokens t = max 1 (int (length t) div 4)"

definition render_system_prompt :: "string \<Rightarrow> string \<Rightarrow> string" where
  "render_system_prompt title instructions =
     ''You are '' @ title @ '', an autonomous agent on the HoursX platform.'' @ newline @ newline @
     (if strip instructions = [] then ''(none)'' else strip instructions) @ newline @ newline @
     ''Operating rules:'' @ newline @
     ''- Work step by step toward the user'' @ [CHR 0x27] @ ''s goal; use tools when they help.'' @ newline @
     ''- When a tool fails, read its message and adjust '' @ em_dash @ '' do not repeat a failed call verbatim.''
       @ newline @
     ''- Give a clear final answer when the goal is met; say plainly if it cannot be met.''"

definition memory_header :: string where
  "memory_header = ''Relevant long-term memory:''"

definition knowledge_header :: string where
  "knowledge_header = ''Relevant knowledge base excerpts:''"

record context_builder =
  ctx_token_budget :: int
  ctx_aux_budget :: int
  ctx_system_prompt :: string
  ctx_memory_notes :: "string list"
  ctx_knowledge :: "string list"
  ctx_history :: "chat_message list"

text \<open>The item lines that fit, given what is spent already.\<close>

fun section_lines :: "int \<Rightarrow> int \<Rightarrow> string list \<Rightarrow> string list" where
  "section_lines budget spent [] = []"
| "section_lines budget spent (item # items) =
     (if spent + estimate_tokens item > budget then []
      else (''- '' @ item) # section_lines budget (spent + estimate_tokens item) items)"

definition bounded_section :: "context_builder \<Rightarrow> string \<Rightarrow> string list \<Rightarrow> string option" where
  "bounded_section b header items =
     (let rows = section_lines (ctx_aux_budget b) (estimate_tokens header) items
      in if rows = [] then None else Some (join newline (header # rows)))"

definition opt_list :: "'a option \<Rightarrow> 'a list" where
  "opt_list x = (case x of None \<Rightarrow> [] | Some a \<Rightarrow> [a])"

definition system_parts :: "context_builder \<Rightarrow> string list" where
  "system_parts b =
     (if ctx_system_prompt b = [] then [] else [ctx_system_prompt b])
     @ opt_list (bounded_section b memory_header (ctx_memory_notes b))
     @ opt_list (bounded_section b knowledge_header (ctx_knowledge b))"

definition system_messages :: "context_builder \<Rightarrow> chat_message list" where
  "system_messages b =
     (if system_parts b = [] then []
      else [\<lparr>cm_role = SYSTEM, cm_content = join (newline @ newline) (system_parts b),
             cm_tool_calls = [], cm_tool_call_id = None\<rparr>])"

definition message_cost :: "chat_message \<Rightarrow> int" where
  "message_cost m = estimate_tokens (cm_content m) + 8"

text \<open>
  The walk over the history, newest first: \<open>first\<close> says that nothing is kept yet, when
  the message is kept whatever it costs.
\<close>

fun keep_history :: "bool \<Rightarrow> int \<Rightarrow> chat_message list \<Rightarrow> chat_message list" where
  "keep_history first remaining [] = []"
| "keep_history first remaining (m # ms) =
     (if remaining - message_cost m < 0 \<and> \<not> first then []
      else m # keep_history False (remaining - message_cost m) ms)"

definition build :: "context_builder \<Rightarrow> chat_message list" where
  "build b =
     (let sys = system_messages b;
          fixed = sum_list (map (\<lambda>m. estimate_tokens (cm_content m)) sys)
      in sys @ rev (keep_history True (ctx_token_budget b - fixed) (rev (ctx_history b))))"

section \<open>Episodic memory\<close>

definition role_of_text :: "string \<Rightarrow> chat_role option" where
  "role_of_text r =
     (if r = ''system'' then Some SYSTEM else if r = ''user'' then Some USER
      else if r = ''assistant'' then Some ASSISTANT else if r = ''tool'' then Some TOOL else None)"

definition plain_message :: "chat_role \<Rightarrow> string \<Rightarrow> chat_message" where
  "plain_message role content =
     \<lparr>cm_role = role, cm_content = content, cm_tool_calls = [], cm_tool_call_id = None\<rparr>"

definition history_message :: "message \<Rightarrow> chat_message" where
  "history_message row =
     (case role_of_text (mg_role row) of
        None \<Rightarrow> plain_message USER (mg_content row)
      | Some TOOL \<Rightarrow> plain_message USER (''[tool result] '' @ mg_content row)
      | Some role \<Rightarrow> plain_message role (mg_content row))"

definition conversation_history :: "database \<Rightarrow> ident \<Rightarrow> nat \<Rightarrow> chat_message list" where
  "conversation_history d session_id limit =
     (let rows = take limit (rev (sort_key (\<lambda>m. (mg_created m, mg_id m))
                   (filter (\<lambda>m. mg_session m = session_id) (messages d))))
      in map history_message (rev rows))"

text \<open>Working memory: the newest \<open>max_notes\<close> notes.\<close>

record working_memory =
  wm_notes :: "string list"
  wm_max :: nat

definition jot :: "string \<Rightarrow> working_memory \<Rightarrow> working_memory" where
  "jot note w =
     (let ns = wm_notes w @ [note]
      in w\<lparr>wm_notes := (if length ns > wm_max w then drop (length ns - wm_max w) ns else ns)\<rparr>)"

section \<open>Semantic memory\<close>

definition dot :: "real list \<Rightarrow> real list \<Rightarrow> real" where
  "dot a b = sum_list (map (\<lambda>(x, y). x * y) (zip a b))"

definition vec_norm :: "real list \<Rightarrow> real" where
  "vec_norm a = sqrt (sum_list (map (\<lambda>x. x * x) a))"

definition cosine_similarity :: "real list \<Rightarrow> real list \<Rightarrow> real" where
  "cosine_similarity a b =
     (if length a \<noteq> length b \<or> a = [] then 0
      else if vec_norm a = 0 \<or> vec_norm b = 0 then 0
      else dot a b / (vec_norm a * vec_norm b))"

text \<open>\<open>[v] = await router.embed([text])\<close>; anything but one vector is a \<open>ValueError\<close>.\<close>

datatype embed_error =
    Embed_unresolved resolve_error
  | Embed_failed py_exc
  | Embed_circuit_open string
  | Embed_assertion
  | Embed_arity nat

definition embed_one ::
  "'v timing \<Rightarrow> string \<Rightarrow> 'v model_router \<Rightarrow> 'v \<Rightarrow> (embed_error + real list) \<times> 'v model_router \<times> 'v" where
  "embed_one tm t rt v =
     (case embed tm [t] ''embed'' rt v of
        (Inl e, rt1, v1) \<Rightarrow> (Inl (Embed_unresolved e), rt1, v1)
      | (Inr (Ok vecs), rt1, v1) \<Rightarrow>
          (case vecs of [x] \<Rightarrow> (Inr x, rt1, v1) | _ \<Rightarrow> (Inl (Embed_arity (length vecs)), rt1, v1))
      | (Inr (Exc e), rt1, v1) \<Rightarrow> (Inl (Embed_failed e), rt1, v1)
      | (Inr (Circuit_open n), rt1, v1) \<Rightarrow> (Inl (Embed_circuit_open n), rt1, v1)
      | (Inr Assertion_failed, rt1, v1) \<Rightarrow> (Inl Embed_assertion, rt1, v1))"

record recalled =
  rc_text :: string
  rc_score :: real

definition visible_memory :: "ident \<Rightarrow> ident option \<Rightarrow> memory_item \<Rightarrow> bool" where
  "visible_memory ws profile m =
     (mi_workspace m = ws \<and>
      (profile = None \<or> mi_profile m = profile \<or> mi_profile m = None))"

definition memory_score :: "real list \<Rightarrow> memory_item \<Rightarrow> real" where
  "memory_score q m = cosine_similarity q (mi_embedding m) * (1/2 + mi_importance m / 2)"

definition rank_memories ::
  "database \<Rightarrow> ident \<Rightarrow> ident option \<Rightarrow> nat \<Rightarrow> real \<Rightarrow> real list \<Rightarrow> recalled list" where
  "rank_memories d ws profile top_k min_score q =
     (let rows = filter (visible_memory ws profile) (memories d);
          scored = map (\<lambda>m. \<lparr>rc_text = mi_text m, rc_score = memory_score q m\<rparr>) rows
      in take top_k (sort_key (\<lambda>e. - rc_score e) (filter (\<lambda>e. rc_score e \<ge> min_score) scored)))"

definition recall ::
  "'v timing \<Rightarrow> ident \<Rightarrow> string \<Rightarrow> ident option \<Rightarrow> nat \<Rightarrow> real \<Rightarrow> database \<Rightarrow> 'v model_router \<Rightarrow> 'v
     \<Rightarrow> (embed_error + recalled list) \<times> 'v model_router \<times> 'v" where
  "recall tm ws query profile top_k min_score d rt v =
     (case embed_one tm query rt v of
        (Inl e, rt1, v1) \<Rightarrow> (Inl e, rt1, v1)
      | (Inr q, rt1, v1) \<Rightarrow> (Inr (rank_memories d ws profile top_k min_score q), rt1, v1))"

definition remember ::
  "'v timing \<Rightarrow> ident \<Rightarrow> instant \<Rightarrow> ident \<Rightarrow> string \<Rightarrow> ident option \<Rightarrow> real \<Rightarrow> database \<Rightarrow> 'v model_router \<Rightarrow> 'v
     \<Rightarrow> (embed_error + memory_item) \<times> database \<times> 'v model_router \<times> 'v" where
  "remember tm fresh now ws t profile importance d rt v =
     (case embed_one tm t rt v of
        (Inl e, rt1, v1) \<Rightarrow> (Inl e, d, rt1, v1)
      | (Inr x, rt1, v1) \<Rightarrow>
          (let item = \<lparr>mi_id = fresh, mi_created = now, mi_workspace = ws, mi_profile = profile,
                       mi_text = t, mi_embedding = x, mi_importance = max 0 (min 1 importance)\<rparr>
           in (Inr item, d\<lparr>memories := memories d @ [item]\<rparr>, rt1, v1)))"


section \<open>The history window\<close>

definition history_cost :: "chat_message list \<Rightarrow> int" where
  "history_cost ms = sum_list (map message_cost ms)"

lemma history_cost_simps [simp]:
  "history_cost [] = 0" "history_cost (m # ms) = message_cost m + history_cost ms"
  by (simp_all add: history_cost_def)

lemma history_cost_rev [simp]: "history_cost (rev ms) = history_cost ms"
  by (induction ms) (simp_all add: history_cost_def)

lemma keep_history_take: "keep_history first r ms = take (length (keep_history first r ms)) ms"
  by (induction first r ms rule: keep_history.induct) auto

lemma keep_history_length: "length (keep_history first r ms) \<le> length ms"
  by (induction first r ms rule: keep_history.induct) auto

lemma keep_history_fits:
  "keep_history False r ms \<noteq> [] \<Longrightarrow> history_cost (keep_history False r ms) \<le> r"
proof (induction ms arbitrary: r)
  case (Cons m ms)
  show ?case
  proof (cases "keep_history False (r - message_cost m) ms = []")
    case True
    with Cons.prems show ?thesis by (auto split: if_splits)
  next
    case False
    from Cons.IH [OF False] Cons.prems show ?thesis by (auto split: if_splits)
  qed
qed simp

lemma keep_history_maximal:
  "length (keep_history False r ms) < length ms \<Longrightarrow>
   r < history_cost (keep_history False r ms) + message_cost (ms ! length (keep_history False r ms))"
proof (induction ms arbitrary: r)
  case (Cons m ms)
  show ?case
  proof (cases "r - message_cost m < 0")
    case False
    with Cons.prems have "length (keep_history False (r - message_cost m) ms) < length ms" by simp
    from Cons.IH [OF this] False show ?thesis by simp
  qed simp
qed simp

lemma keep_history_first:
  "keep_history True r (m # ms) = m # keep_history False (r - message_cost m) ms"
  by simp

lemma suffix_of_rev:
  assumes "rev h = m # ms" and "k \<le> length ms"
  shows "drop (length h - Suc k) h = rev (take k ms) @ [m]"
proof -
  have h: "h = rev ms @ [m]" using assms(1) by (metis rev.simps(2) rev_rev_ident)
  show ?thesis using assms(2) by (simp add: h rev_take Suc_diff_le drop_append)
qed

text \<open>What the walk keeps of a history is its longest suffix that fits, and at least the newest message.\<close>

lemma keep_history_window:
  assumes rev: "rev h = m # ms"
  shows "\<exists>n. rev (keep_history True r (rev h)) = drop (length h - n) h \<and> n \<le> length h \<and> 1 \<le> n \<and>
    (n \<ge> 2 \<longrightarrow> history_cost (drop (length h - n) h) \<le> r) \<and>
    (n < length h \<longrightarrow> history_cost (drop (length h - Suc n) h) > r)"
proof -
  define kept where "kept = keep_history False (r - message_cost m) ms"
  let ?n = "Suc (length kept)"
  have le: "length kept \<le> length ms" by (simp add: kept_def keep_history_length)
  have kept_take: "kept = take (length kept) ms"
    unfolding kept_def by (rule keep_history_take)
  have len: "length h = Suc (length ms)" using arg_cong [OF rev, of length] by simp
  have window: "drop (length h - ?n) h = rev kept @ [m]" using suffix_of_rev [OF rev le] kept_take by simp
  have fits: "history_cost (drop (length h - ?n) h) \<le> r" if "1 \<le> length kept"
  proof -
    have "kept \<noteq> []" using that by auto
    then show ?thesis using keep_history_fits [of "r - message_cost m" ms] history_cost_rev [of kept]
      by (simp only: window) (simp add: history_cost_def kept_def)
  qed
  have maximal: "history_cost (drop (length h - Suc ?n) h) > r" if lt: "length kept < length ms"
  proof -
    have "r - message_cost m < history_cost kept + message_cost (ms ! length kept)"
      using lt unfolding kept_def by (rule keep_history_maximal)
    moreover have "take (Suc (length kept)) ms = kept @ [ms ! length kept]"
      using lt kept_take by (metis take_Suc_conv_app_nth)
    ultimately show ?thesis
      using suffix_of_rev [OF rev, of "Suc (length kept)"] lt history_cost_rev [of kept]
      by (simp add: history_cost_def)
  qed
  show ?thesis
    by (intro exI [of _ ?n] conjI impI)
      (use le len window fits maximal in \<open>auto simp: rev kept_def [symmetric] simp del: keep_history.simps
         simp: keep_history_first\<close>)
qed

text \<open>The context of a model call is the system message followed by the newest part of the
  conversation: the newest message is always kept, two or more messages are kept only when
  they fit the budget beside the system message, and a message is left out only when it
  would not have fitted.\<close>

theorem context_window:
  "let fixed = sum_list (map (\<lambda>m. estimate_tokens (cm_content m)) (system_messages b)); h = ctx_history b
   in \<exists>n. build b = system_messages b @ drop (length h - n) h \<and> n \<le> length h \<and>
        (h \<noteq> [] \<longrightarrow> n \<ge> 1) \<and>
        (n \<ge> 2 \<longrightarrow> fixed + history_cost (drop (length h - n) h) \<le> ctx_token_budget b) \<and>
        (n < length h \<longrightarrow> fixed + history_cost (drop (length h - Suc n) h) > ctx_token_budget b)"
proof (cases "rev (ctx_history b)")
  case Nil
  then show ?thesis by (simp add: build_def Let_def)
next
  case (Cons m ms)
  define fixed where "fixed = sum_list (map (\<lambda>m. estimate_tokens (cm_content m)) (system_messages b))"
  have "build b = system_messages b @ rev (keep_history True (ctx_token_budget b - fixed) (rev (ctx_history b)))"
    by (simp add: build_def Let_def fixed_def)
  then show ?thesis
    using keep_history_window [OF Cons, of "ctx_token_budget b - fixed"] unfolding Let_def fixed_def [symmetric]
    by (metis add.commute le_diff_eq diff_less_eq)
qed

definition demo_builder :: context_builder where
  "demo_builder = \<lparr>ctx_token_budget = 10, ctx_aux_budget = 2000, ctx_system_prompt = [], ctx_memory_notes = [],
     ctx_knowledge = [], ctx_history = [plain_message USER ''first'', plain_message USER ''second'']\<rparr>"

theorem context_window_witness:
  "build demo_builder = [plain_message USER ''second'']"
proof -
  let ?h = "[plain_message USER ''first'', plain_message USER ''second'']"
  have sys: "system_messages demo_builder = []"
    by (simp add: system_messages_def system_parts_def demo_builder_def bounded_section_def opt_list_def)
  have proj: "ctx_history demo_builder = ?h" "ctx_token_budget demo_builder = 10"
    by (simp_all add: demo_builder_def)
  obtain n where n: "build demo_builder = [] @ drop (length ?h - n) ?h" "n \<le> length ?h"
    "?h \<noteq> [] \<longrightarrow> 1 \<le> n" "n \<ge> 2 \<longrightarrow> 0 + history_cost (drop (length ?h - n) ?h) \<le> 10"
    using context_window [of demo_builder] unfolding Let_def sys proj list.map sum_list.Nil by blast
  have "n \<noteq> 2"
    using n(4) by (auto simp: message_cost_def plain_message_def estimate_tokens_def)
  with n(2,3) have "n = 1" by simp
  with n(1) show ?thesis by simp
qed

section \<open>Ranking\<close>

lemma sorted_take_drop:
  assumes "sorted (map f xs)" and "x \<in> set (take n xs)" and "y \<in> set (drop n xs)"
  shows "f x \<le> f y"
proof -
  have "sorted (map f (take n xs) @ map f (drop n xs))"
    using assms(1) by (metis append_take_drop_id map_append)
  then show ?thesis using assms(2,3) by (auto simp: sorted_append)
qed

text \<open>The best \<open>k\<close> of a list, best first, and what is left out.\<close>

lemma best_first:
  fixes f :: "'a \<Rightarrow> 'b :: linorder" and k :: nat and xs :: "'a list"
  defines "hits \<equiv> take k (sort_key f xs)" and "rest \<equiv> drop k (sort_key f xs)"
  shows "mset (hits @ rest) = mset xs \<and> sorted_wrt (\<lambda>x y. f x \<le> f y) hits \<and>
    (\<forall>x\<in>set hits. \<forall>y\<in>set rest. f x \<le> f y) \<and> length hits \<le> k \<and> (rest \<noteq> [] \<longrightarrow> length hits = k)"
proof -
  have srt: "sorted (map f (sort_key f xs))" by (rule sorted_sort_key)
  have "mset (hits @ rest) = mset xs" by (simp only: hits_def rest_def append_take_drop_id mset_sort)
  moreover have "sorted_wrt (\<lambda>x y. f x \<le> f y) (sort_key f xs)" using srt by (simp add: sorted_map)
  then have "sorted_wrt (\<lambda>x y. f x \<le> f y) hits" unfolding hits_def by (rule sorted_wrt_take)
  moreover have "\<forall>x\<in>set hits. \<forall>y\<in>set rest. f x \<le> f y"
    using sorted_take_drop [OF srt] unfolding hits_def rest_def by blast
  moreover have "length hits \<le> k" "rest \<noteq> [] \<longrightarrow> length hits = k" by (auto simp: hits_def rest_def)
  ultimately show ?thesis by blast
qed

text \<open>Semantic recall returns, best first, the \<open>top_k\<close> best of the notes the caller may
  see: the notes of its own workspace that are shared or belong to its agent, scoring at least
  the threshold.  Whatever is left out scores no better than everything returned, and nothing is
  left out while there is room.\<close>

theorem recall_ranked:
  assumes "recall tm ws query profile top_k min_score d rt v = (Inr hits, rt1, v1)"
  shows "\<exists>q rest.
    mset (hits @ rest) =
      mset (filter (\<lambda>e. rc_score e \<ge> min_score)
        (map (\<lambda>m. \<lparr>rc_text = mi_text m, rc_score = memory_score q m\<rparr>)
          (filter (visible_memory ws profile) (memories d)))) \<and>
    sorted_wrt (\<lambda>x y. rc_score x \<ge> rc_score y) hits \<and>
    (\<forall>x\<in>set hits. \<forall>y\<in>set rest. rc_score x \<ge> rc_score y) \<and>
    length hits \<le> top_k \<and> (rest \<noteq> [] \<longrightarrow> length hits = top_k)"
proof -
  obtain q where "hits = rank_memories d ws profile top_k min_score q"
    using assms by (auto simp: recall_def split: prod.splits sum.splits)
  with best_first [of top_k "\<lambda>e. - rc_score e" "filter (\<lambda>e. rc_score e \<ge> min_score)
        (map (\<lambda>m. \<lparr>rc_text = mi_text m, rc_score = memory_score q m\<rparr>) (filter (visible_memory ws profile) (memories d)))"]
  show ?thesis unfolding neg_le_iff_le rank_memories_def Let_def by blast
qed

definition unit_provider :: "unit provider" where
  "unit_provider = \<lparr>pv_name = ''hash'', pv_complete = (\<lambda>req v. (Inl (Other_exc ''no chat''), v)),
     pv_stream = (\<lambda>req v. (([], None), v)), pv_embed = (\<lambda>model texts v. (Inr (map (\<lambda>_. [1]) texts), v))\<rparr>"

definition unit_router :: "unit model_router" where
  "unit_router = make_router [(''hash'', unit_provider)] [(''embed'', ''hash/v1'')] [] default_retry_policy 5 30"

definition unit_timing :: "unit timing" where
  "unit_timing = \<lparr>tm_jitter = (\<lambda>_. 0), tm_sleep = (\<lambda>_ v. v), tm_now = (\<lambda>_. 0)\<rparr>"

definition demo_note :: "string \<Rightarrow> ident \<Rightarrow> real list \<Rightarrow> memory_item" where
  "demo_note t ws x = \<lparr>mi_id = t, mi_created = 0, mi_workspace = ws, mi_profile = None, mi_text = t,
     mi_embedding = x, mi_importance = 1\<rparr>"

definition empty_database :: database where
  "empty_database = \<lparr>users = [], api_keys = [], workspaces = [], members = [], profiles = [], sessions = [],
     messages = [], runs = [], run_steps = [], approvals = [], schedules = [], bindings = [], replies = [],
     audit_events = [], memories = [], documents = [], chunks = [], changes = [], cursors = []\<rparr>"

definition demo_memories :: database where
  "demo_memories = empty_database\<lparr>memories :=
     [demo_note ''mine'' ''w1'' [1], demo_note ''theirs'' ''w2'' [1], demo_note ''against'' ''w1'' [-1]]\<rparr>"

lemma recall_demo:
  "recall unit_timing ''w1'' ''query'' None 5 (1/10) demo_memories unit_router ()
   = (Inr [\<lparr>rc_text = ''mine'', rc_score = 1\<rparr>],
      put_breaker ''hash'' (Some (record_success (new_breaker 5 30 ''hash''))) unit_router, ())"
  by (simp add: recall_def embed_one_def embed_def unit_router_def make_router_def resolve_def alias_of_def
      part_before_def part_after_def Let_def unit_provider_def link_call_def call_with_resilience_def
      breaker_for_def unit_timing_def default_retry_policy_def rank_memories_def demo_memories_def
      empty_database_def visible_memory_def demo_note_def memory_score_def cosine_similarity_def
      vec_norm_def dot_def allows_call_def state_at_def new_breaker_def update_breaker_def numeral_eq_Suc)

theorem recall_ranked_witness:
  "\<exists>hits rt1 v1. recall unit_timing ''w1'' ''query'' None 5 (1/10) demo_memories unit_router () = (Inr hits, rt1, v1) \<and>
     length hits \<le> 5 \<and> sorted_wrt (\<lambda>x y. rc_score x \<ge> rc_score y) hits"
proof -
  let ?hits = "[\<lparr>rc_text = ''mine'', rc_score = 1\<rparr>]"
  from recall_ranked [OF recall_demo]
  have "length ?hits \<le> 5 \<and> sorted_wrt (\<lambda>x y. rc_score x \<ge> rc_score y) ?hits" by blast
  with recall_demo show ?thesis by blast
qed

end
