(* ===== verification/Runtime.thy ===== *)
theory Runtime
  imports Context Tooling
begin

text \<open>
  \<open>agents.py\<close>: the model-tools loop that drives every run.  A unit of work on the database
  (\<open>async with db.session()\<close>) is one step of the state; a call to a vendor or a tool is a
  function of the state, and \<open>sv_meanwhile\<close> is what the other connections of the deployment
  (the API, other workers) do while a model call is outstanding.  \<open>execute_at\<close>
  is \<open>execute_run\<close> with the code's \<open>_depth\<close>.  The sandbox directory is only named, not created.
\<close>

section \<open>The state and the services\<close>

text \<open>Work handed to the background: an inline task of the process, or a job of the arq queue.\<close>

datatype job = Execute_job ident | Resume_job ident ident bool | Ingest_job ident string

record 'v backend =
  bk_router :: "'v model_router"
  bk_vendors :: 'v
  bk_jobs :: "job list"

type_synonym 'v state = "'v backend sys"

datatype turn_error = Turn_routing router_error | Turn_stream py_exc | Turn_no_result

record 'v services =
  sv_executor :: "'v state executor"
  sv_timing :: "'v timing"
  sv_max_run_steps :: int
  sv_token_budget :: int
  sv_sandbox_root :: string
  sv_exc_text :: "turn_error \<Rightarrow> string"    \<comment> \<open>\<open>str(exc)\<close>\<close>
  sv_float_repr :: "real \<Rightarrow> string"
  sv_meanwhile :: "'v state \<Rightarrow> 'v state"
  sv_chunk_size :: nat
  sv_chunk_overlap :: nat
  sv_embed_text :: "embed_error \<Rightarrow> string"

definition on_backend :: "('v backend \<Rightarrow> 'v backend) \<Rightarrow> 'v state \<Rightarrow> 'v state" where
  "on_backend f s = s\<lparr>outside := f (outside s)\<rparr>"

lemma on_backend_sel [simp]:
  "db (on_backend f s) = db s" "clock (on_backend f s) = clock s"
  "id_supply (on_backend f s) = id_supply s" "published (on_backend f s) = published s"
  "outside (on_backend f s) = f (outside s)"
  by (simp_all add: on_backend_def)

text \<open>The next primary key, and the state without it.\<close>

definition fresh :: "'w sys \<Rightarrow> ident" where
  "fresh s = new_id (id_supply s)"

definition use_id :: "'w sys \<Rightarrow> 'w sys" where
  "use_id s = s\<lparr>id_supply := Suc (id_supply s)\<rparr>"

lemma use_id_sel [simp]:
  "db (use_id s) = db s" "clock (use_id s) = clock s" "outside (use_id s) = outside s"
  "published (use_id s) = published s" "id_supply (use_id s) = Suc (id_supply s)"
  by (simp_all add: use_id_def)

section \<open>Snapshots\<close>

record profile_snap =
  pf_id :: ident
  pf_title :: string
  pf_instructions :: string
  pf_model_alias :: string
  pf_tool_grants :: "string list"
  pf_can_delegate :: bool
  pf_max_steps :: "int option"

record run_snap =
  sn_run :: ident
  sn_workspace :: ident
  sn_session :: ident
  sn_parent :: "ident option"
  sn_goal :: string
  sn_sandbox :: string
  sn_profile :: profile_snap
  sn_step_count :: int
  sn_step_seq :: int
  sn_input_tokens :: int
  sn_output_tokens :: int

definition max_steps :: "'v services \<Rightarrow> run_snap \<Rightarrow> int" where
  "max_steps sv snap = (case pf_max_steps (sn_profile snap) of
       None \<Rightarrow> sv_max_run_steps sv
     | Some n \<Rightarrow> if n = 0 then sv_max_run_steps sv else n)"

definition emit :: "run_snap \<Rightarrow> event_type \<Rightarrow> json_dict \<Rightarrow> 'w sys \<Rightarrow> 'w sys" where
  "emit snap t payload s =
     publish \<lparr>ev_type = t, ev_workspace = sn_workspace snap, ev_session = Some (sn_session snap),
              ev_run = Some (sn_run snap), ev_payload = payload\<rparr> s"

lemma emit_sel [simp]:
  "db (emit snap t p s) = db s" "clock (emit snap t p s) = clock s"
  "id_supply (emit snap t p s) = id_supply s" "outside (emit snap t p s) = outside s"
  by (simp_all add: emit_def)

section \<open>Claiming a run\<close>

datatype claim_from = From_queued | From_awaiting

fun from_status :: "claim_from \<Rightarrow> run_status" where
  "from_status From_queued = Queued"
| "from_status From_awaiting = Awaiting_approval"

definition claimable :: "claim_from \<Rightarrow> run \<Rightarrow> bool" where
  "claimable frm r = (rn_status r = from_status frm)"

definition grab_run :: "claim_from \<Rightarrow> instant \<Rightarrow> run \<Rightarrow> run" where
  "grab_run frm now r = r\<lparr>rn_status := Running, rn_checkpoint := None, rn_heartbeat_at := Some now\<rparr>"

definition snapshot :: "run \<Rightarrow> session \<Rightarrow> agent_profile \<Rightarrow> int \<Rightarrow> run_snap" where
  "snapshot r ss pf seq =
     \<lparr>sn_run = rn_id r, sn_workspace = rn_workspace r, sn_session = rn_session r,
      sn_parent = rn_parent r, sn_goal = rn_goal r, sn_sandbox = ss_sandbox_dir ss,
      sn_profile = \<lparr>pf_id = ap_id pf, pf_title = ap_title pf, pf_instructions = ap_instructions pf,
        pf_model_alias = ap_model_alias pf, pf_tool_grants = ap_tool_grants pf,
        pf_can_delegate = ap_can_delegate pf, pf_max_steps = ap_max_steps pf\<rparr>,
      sn_step_count = rn_step_count r, sn_step_seq = seq, sn_input_tokens = 0, sn_output_tokens = 0\<rparr>"

definition update_run :: "ident \<Rightarrow> (run \<Rightarrow> run) \<Rightarrow> 'w sys \<Rightarrow> 'w sys" where
  "update_run k f = on_db (on_runs (update_where (\<lambda>r. rn_id r = k) f))"

lemma update_run_sel [simp]:
  "outside (update_run k f s) = outside s" "clock (update_run k f s) = clock s"
  "id_supply (update_run k f s) = id_supply s" "published (update_run k f s) = published s"
  by (simp_all add: update_run_def)

definition claim :: "ident \<Rightarrow> claim_from \<Rightarrow> 'w sys \<Rightarrow> run_snap option \<times> 'w sys" where
  "claim k frm s =
     (let (won, rows) = cas_claim rn_id claimable grab_run k frm (clock s) (runs (db s));
          s1 = on_db (on_runs (\<lambda>_. rows)) s
      in if \<not> won then (None, s1)
         else case get_run k (db s1) of
             None \<Rightarrow> (None, s1)
           | Some r \<Rightarrow>
               (case (get_session (rn_session r) (db s1), get_profile (rn_profile r) (db s1)) of
                  (Some ss, Some pf) \<Rightarrow>
                    (Some (snapshot r ss pf (int (count_where (\<lambda>x. rs_run x = k) (run_steps (db s1))))), s1)
                | _ \<Rightarrow>
                    (None, update_run k
                       (\<lambda>x. x\<lparr>rn_status := Failed, rn_error := Some ''session or agent profile no longer exists'',
                              rn_finished_at := Some (clock s1)\<rparr>) s1)))"

section \<open>Recording\<close>

definition cancel_requested :: "run_snap \<Rightarrow> 'w sys \<Rightarrow> bool" where
  "cancel_requested snap s = (case get_run (sn_run snap) (db s) of
       None \<Rightarrow> False | Some r \<Rightarrow> rn_cancel_requested r)"

definition tool_call_json :: "tool_call \<Rightarrow> json" where
  "tool_call_json c = JObj [(''id'', JStr (tc_id c)), (''name'', JStr (tc_name c)),
     (''arguments'', JObj (tc_arguments c))]"

definition record_step ::
  "step_kind \<Rightarrow> chat_usage \<Rightarrow> json_dict \<Rightarrow> run_snap \<Rightarrow> 'w sys \<Rightarrow> run_snap \<times> 'w sys" where
  "record_step kind usage detail snap s =
     (let step = \<lparr>rs_id = fresh s, rs_run = sn_run snap, rs_index = sn_step_seq snap, rs_kind = kind,
                  rs_detail = detail, rs_input_tokens = input_tokens usage,
                  rs_output_tokens = output_tokens usage\<rparr>;
          s1 = update_run (sn_run snap) (\<lambda>r. r\<lparr>rn_heartbeat_at := Some (clock s)\<rparr>) s;
          s2 = on_db (\<lambda>d. d\<lparr>run_steps := run_steps d @ [step]\<rparr>) s1
      in (snap\<lparr>sn_step_seq := sn_step_seq snap + 1\<rparr>, use_id s2))"

definition finish ::
  "run_snap \<Rightarrow> run_status \<Rightarrow> string option \<Rightarrow> string option \<Rightarrow> 'w sys \<Rightarrow> 'w sys" where
  "finish snap st answer err s =
     (let s1 = update_run (sn_run snap)
            (\<lambda>r. r\<lparr>rn_status := st, rn_answer := answer, rn_error := err, rn_checkpoint := None,
                   rn_step_count := sn_step_count snap, rn_input_tokens := sn_input_tokens snap,
                   rn_output_tokens := sn_output_tokens snap, rn_heartbeat_at := None,
                   rn_finished_at := Some (clock s)\<rparr>) s;
          s2 = (case (answer, sn_parent snap) of
                  (Some a, None) \<Rightarrow>
                    use_id (on_db (\<lambda>d. d\<lparr>messages := messages d @
                      [\<lparr>mg_id = fresh s1, mg_created = clock s1, mg_session = sn_session snap,
                        mg_role = ''assistant'', mg_content = a, mg_run = Some (sn_run snap)\<rparr>]\<rparr>) s1)
                | _ \<Rightarrow> s1)
      in emit snap RUN_FINISHED
           [(''status'', JStr (status_text st)), (''answer'', opt_str answer), (''error'', opt_str err)] s2)"

definition park_for_approval ::
  "run_snap \<Rightarrow> chat_message list \<Rightarrow> tool_call list \<Rightarrow> approval_pending \<Rightarrow> 'w sys \<Rightarrow> 'w sys" where
  "park_for_approval snap transcript pending gate s =
     (let a = fresh s; call = pa_invocation gate;
          req = \<lparr>ar_id = a, ar_created = clock s, ar_workspace = sn_workspace snap, ar_run = sn_run snap,
                 ar_tool_name = iv_tool_name call, ar_arguments = iv_arguments call,
                 ar_reason = pa_reason gate, ar_status = Pending_decision, ar_decided_by = None,
                 ar_decided_at = None\<rparr>;
          s1 = use_id (on_db (\<lambda>d. d\<lparr>approvals := approvals d @ [req]\<rparr>) s);
          s2 = update_run (sn_run snap)
            (\<lambda>r. r\<lparr>rn_status := Awaiting_approval, rn_step_count := sn_step_count snap,
                   rn_checkpoint := Some \<lparr>ck_messages = transcript, ck_pending = pending\<rparr>\<rparr>) s1
      in emit snap RUN_AWAITING_APPROVAL
           [(''approval_id'', JStr a), (''tool'', JStr (iv_tool_name call)),
            (''arguments'', JObj (iv_arguments call)), (''reason'', JStr (pa_reason gate))] s2)"

section \<open>Tools\<close>

definition tool_message :: "tool_call \<Rightarrow> string \<Rightarrow> chat_message" where
  "tool_message call content =
     \<lparr>cm_role = TOOL, cm_content = content, cm_tool_calls = [], cm_tool_call_id = Some (tc_id call)\<rparr>"

definition compact_json :: "(real \<Rightarrow> string) \<Rightarrow> json_dict \<Rightarrow> string" where
  "compact_json rep data =
     (let t = dumps rep (JObj data)
      in if length t \<le> 8000 then t
         else take 8000 t @ map char_of [226 :: nat, 128, 166] @ ''(truncated)'')"

definition tool_ctx ::
  "'v services \<Rightarrow> (run_snap \<Rightarrow> 'v state delegate_fn) \<Rightarrow> run_snap \<Rightarrow> 'v state tool_context" where
  "tool_ctx sv dl snap =
     \<lparr>cx_workspace = sn_workspace snap, cx_session = sn_session snap, cx_run = sn_run snap,
      cx_sandbox_dir = sv_sandbox_root sv @ ''/'' @ sn_sandbox snap,
      cx_delegate = (if pf_can_delegate (sn_profile snap) then Some (dl snap) else None),
      cx_working_notes = []\<rparr>"

definition run_tool ::
  "'v services \<Rightarrow> (run_snap \<Rightarrow> 'v state delegate_fn) \<Rightarrow> run_snap \<Rightarrow> tool_call \<Rightarrow> bool \<Rightarrow> 'v state
     \<Rightarrow> (approval_pending + chat_message) \<times> 'v state" where
  "run_tool sv dl snap call approved s =
     (case execute (sv_executor sv)
             \<lparr>iv_call_id = tc_id call, iv_tool_name = tc_name call, iv_arguments = tc_arguments call\<rparr>
             (tool_ctx sv dl snap) (pf_tool_grants (sn_profile snap)) approved s of
        (Inl gate, s1) \<Rightarrow> (Inl gate, s1)
      | (Inr out, s1) \<Rightarrow>
          (Inr (tool_message call
             (to_summary out @ (if to_data out = [] then [] else newline @ compact_json (sv_float_repr sv) (to_data out)))),
           emit snap RUN_STEP [(''tool'', JStr (tc_name call)), (''ok'', JBool (to_ok out)),
             (''summary'', JStr (to_summary out))] s1))"

text \<open>The calls of one model turn, in order: all of them, or up to the first that is gated.\<close>

datatype calls_result =
    Calls_done run_snap "chat_message list"
  | Gated run_snap "chat_message list" "tool_call list" approval_pending

fun tool_calls ::
  "'v services \<Rightarrow> (run_snap \<Rightarrow> 'v state delegate_fn) \<Rightarrow> run_snap \<Rightarrow> chat_message list \<Rightarrow> tool_call list
     \<Rightarrow> 'v state \<Rightarrow> calls_result \<times> 'v state" where
  "tool_calls sv dl snap transcript [] s = (Calls_done snap transcript, s)"
| "tool_calls sv dl snap transcript (call # rest) s =
     (case run_tool sv dl snap call False s of
        (Inl gate, s1) \<Rightarrow> (Gated snap transcript (call # rest) gate, s1)
      | (Inr msg, s1) \<Rightarrow>
          (case record_step Tool_step no_usage [(''call'', tool_call_json call)] snap s1 of
             (snap1, s2) \<Rightarrow> tool_calls sv dl snap1 (transcript @ [msg]) rest s2))"

section \<open>The model turn\<close>

definition note_stream :: "'v services \<Rightarrow> string \<Rightarrow> bool \<Rightarrow> 'v state \<Rightarrow> 'v state" where
  "note_stream sv al ok s =
     on_backend (\<lambda>b. b\<lparr>bk_router :=
       note_stream_outcome (tm_now (sv_timing sv) (bk_vendors b)) al ok (bk_router b)\<rparr>) s"

fun emit_deltas :: "run_snap \<Rightarrow> stream_delta list \<Rightarrow> 'w sys \<Rightarrow> 'w sys" where
  "emit_deltas snap [] s = s"
| "emit_deltas snap (Text_delta t # ds) s =
     emit_deltas snap ds (if t = [] then s else emit snap RUN_DELTA [(''text'', JStr t)] s)"
| "emit_deltas snap (Tool_call_delta c # ds) s = emit_deltas snap ds s"
| "emit_deltas snap (Done_delta r # ds) s = emit_deltas snap ds s"

fun last_result :: "chat_result option \<Rightarrow> stream_delta list \<Rightarrow> chat_result option" where
  "last_result r [] = r"
| "last_result r (Done_delta r' # ds) = last_result r' ds"
| "last_result r (Text_delta t # ds) = last_result r ds"
| "last_result r (Tool_call_delta c # ds) = last_result r ds"

definition turn_request :: "'v services \<Rightarrow> run_snap \<Rightarrow> chat_message list \<Rightarrow> chat_request" where
  "turn_request sv snap transcript =
     \<lparr>cq_model = ''unset'', cq_messages = transcript,
      cq_tools = descriptors (pf_tool_grants (sn_profile snap)) (ex_registry (sv_executor sv)),
      cq_temperature = 2/5, cq_max_tokens = 4096\<rparr>"

definition model_turn ::
  "'v services \<Rightarrow> run_snap \<Rightarrow> chat_message list \<Rightarrow> 'v state \<Rightarrow> (turn_error + run_snap \<times> chat_result) \<times> 'v state"
  where
  "model_turn sv snap transcript s =
     (let al = pf_model_alias (sn_profile snap); b = outside s in
      case select_stream (tm_now (sv_timing sv) (bk_vendors b)) al (turn_request sv snap transcript) (bk_router b) of
        (Inl e, rt) \<Rightarrow> (Inl (Turn_routing e), note_stream sv al False (on_backend (\<lambda>b. b\<lparr>bk_router := rt\<rparr>) s))
      | (Inr (pv, req), rt) \<Rightarrow>
          (case pv_stream pv req (bk_vendors b) of
             ((deltas, exc), v) \<Rightarrow>
               (let s1 = sv_meanwhile sv (on_backend (\<lambda>b. b\<lparr>bk_router := rt, bk_vendors := v\<rparr>) s);
                    s2 = emit_deltas snap deltas s1
                in case exc of
                     Some e \<Rightarrow> (Inl (Turn_stream e), note_stream sv al False s2)
                   | None \<Rightarrow>
                       (case last_result None deltas of
                          None \<Rightarrow> (Inl Turn_no_result, note_stream sv al False s2)
                        | Some res \<Rightarrow>
                            (Inr (snap\<lparr>sn_input_tokens := sn_input_tokens snap + input_tokens (cs_usage res),
                                       sn_output_tokens := sn_output_tokens snap + output_tokens (cs_usage res)\<rparr>,
                                  res), note_stream sv al True s2)))))"

section \<open>The loop\<close>

datatype 'v turn_result = Ended "'v state" | Continue run_snap "chat_message list" "'v state"

definition after_calls :: "calls_result \<times> 'v state \<Rightarrow> 'v turn_result" where
  "after_calls x = (case x of
       (Gated snap transcript pending gate, s) \<Rightarrow> Ended (park_for_approval snap transcript pending gate s)
     | (Calls_done snap transcript, s) \<Rightarrow> Continue snap transcript s)"

text \<open>The body of \<open>while snap.step_count < max_steps\<close>.\<close>

definition turn ::
  "'v services \<Rightarrow> (run_snap \<Rightarrow> 'v state delegate_fn) \<Rightarrow> run_snap \<Rightarrow> chat_message list \<Rightarrow> 'v state \<Rightarrow> 'v turn_result"
  where
  "turn sv dl snap transcript s =
     (if cancel_requested snap s
      then Ended (finish snap Cancelled None (Some ''cancelled by operator'') s)
      else case model_turn sv snap transcript s of
          (Inl e, s1) \<Rightarrow> Ended (finish snap Failed None (Some (''runtime error: '' @ sv_exc_text sv e)) s1)
        | (Inr (snap1, res), s1) \<Rightarrow>
            (let msg = cs_message res;
                 snap2 = snap1\<lparr>sn_step_count := sn_step_count snap1 + 1\<rparr>
             in case record_step Model_step (cs_usage res)
                       [(''text'', JStr (take 2000 (cm_content msg))),
                        (''tool_calls'', JList (map tool_call_json (cm_tool_calls msg)))] snap2 s1 of
                  (snap3, s2) \<Rightarrow>
                    if cm_tool_calls msg = [] then Ended (finish snap3 Succeeded (Some (cm_content msg)) None s2)
                    else after_calls (tool_calls sv dl snap3 (transcript @ [msg]) (cm_tool_calls msg) s2)))"

lemma record_step_snap [simp]:
  "sn_step_count (fst (record_step kind u d snap s)) = sn_step_count snap"
  "sn_profile (fst (record_step kind u d snap s)) = sn_profile snap"
  "sn_run (fst (record_step kind u d snap s)) = sn_run snap"
  "sn_workspace (fst (record_step kind u d snap s)) = sn_workspace snap"
  "sn_session (fst (record_step kind u d snap s)) = sn_session snap"
  "sn_parent (fst (record_step kind u d snap s)) = sn_parent snap"
  by (simp_all add: record_step_def Let_def)

text \<open>What the loop never changes in its snapshot.\<close>

definition same_run :: "run_snap \<Rightarrow> run_snap \<Rightarrow> bool" where
  "same_run a b = (sn_run a = sn_run b \<and> sn_profile a = sn_profile b \<and> sn_workspace a = sn_workspace b \<and>
     sn_session a = sn_session b \<and> sn_parent a = sn_parent b)"

lemma same_run_refl [simp]: "same_run a a"
  by (simp add: same_run_def)

lemma same_run_max_steps: "same_run a b \<Longrightarrow> max_steps sv a = max_steps sv b"
  by (simp add: same_run_def max_steps_def)

lemma record_step_same:
  "record_step kind u d snap s = (snap', s') \<Longrightarrow> same_run snap' snap \<and> sn_step_count snap' = sn_step_count snap"
  by (auto simp: record_step_def Let_def same_run_def)

lemma tool_calls_snap:
  "tool_calls sv dl snap tr cs s = (r, s') \<Longrightarrow>
   (case r of
      Calls_done snap' tr' \<Rightarrow> same_run snap' snap \<and> sn_step_count snap' = sn_step_count snap
    | Gated snap' tr' pend gate \<Rightarrow> same_run snap' snap \<and> sn_step_count snap' = sn_step_count snap)"
proof (induction cs arbitrary: snap tr s)
  case (Cons c cs)
  obtain x s1 where run: "run_tool sv dl snap c False s = (x, s1)" by (metis prod.exhaust)
  show ?case
  proof (cases x)
    case (Inl gate)
    with Cons.prems run show ?thesis by auto
  next
    case (Inr msg)
    obtain snap1 s2 where rec: "record_step Tool_step no_usage [(''call'', tool_call_json c)] snap s1 = (snap1, s2)"
      by (metis prod.exhaust)
    from Cons.prems run Inr rec have "tool_calls sv dl snap1 (tr @ [msg]) cs s2 = (r, s')" by simp
    from Cons.IH [OF this]
    have "case r of
      Calls_done snap' tr' \<Rightarrow> same_run snap' snap1 \<and> sn_step_count snap' = sn_step_count snap1
    | Gated snap' tr' pend gate \<Rightarrow> same_run snap' snap1 \<and> sn_step_count snap' = sn_step_count snap1" .
    moreover have "same_run snap1 snap" "sn_step_count snap1 = sn_step_count snap"
      using record_step_snap [of Tool_step no_usage "[(''call'', tool_call_json c)]" snap s1] rec
      by (simp_all add: same_run_def)
    ultimately show ?thesis by (auto simp: same_run_def split: calls_result.splits)
  qed
qed (auto split: calls_result.splits)

lemma turn_snap:
  assumes "turn sv dl snap tr s = Continue snap' tr' s'"
  shows "same_run snap' snap" and "sn_step_count snap' = sn_step_count snap + 1"
proof -
  obtain snap1 res s1 where m: "model_turn sv snap tr s = (Inr (snap1, res), s1)"
    using assms by (auto simp: turn_def split: if_splits prod.splits sum.splits)
  define snap2 where "snap2 = snap1\<lparr>sn_step_count := sn_step_count snap1 + 1\<rparr>"
  obtain snap3 s2 where r: "record_step Model_step (cs_usage res)
      [(''text'', JStr (take 2000 (cm_content (cs_message res)))),
       (''tool_calls'', JList (map tool_call_json (cm_tool_calls (cs_message res))))] snap2 s1 = (snap3, s2)"
    by (metis prod.exhaust)
  from assms m r obtain s3 where
    t: "tool_calls sv dl snap3 (tr @ [cs_message res]) (cm_tool_calls (cs_message res)) s2
        = (Calls_done snap' tr', s3)"
    by (auto simp: turn_def after_calls_def Let_def snap2_def
        split: if_splits prod.splits calls_result.splits)
  have a: "same_run snap1 snap" "sn_step_count snap1 = sn_step_count snap"
    using m by (auto simp: model_turn_def Let_def same_run_def split: prod.splits sum.splits option.splits)
  have b: "same_run snap3 snap2" "sn_step_count snap3 = sn_step_count snap2"
    using record_step_snap [of Model_step "cs_usage res"
      "[(''text'', JStr (take 2000 (cm_content (cs_message res)))),
       (''tool_calls'', JList (map tool_call_json (cm_tool_calls (cs_message res))))]" snap2 s1] r
    by (simp_all add: same_run_def)
  from tool_calls_snap [OF t] a b show "same_run snap' snap" "sn_step_count snap' = sn_step_count snap + 1"
    by (auto simp: same_run_def snap2_def)
qed

lemma turn_decreases:
  "turn sv dl snap tr s = Continue snap' tr' s' \<Longrightarrow>
   max_steps sv snap' = max_steps sv snap \<and> sn_step_count snap' = sn_step_count snap + 1"
  using turn_snap same_run_max_steps by blast

function loop ::
  "'v services \<Rightarrow> (run_snap \<Rightarrow> 'v state delegate_fn) \<Rightarrow> run_snap \<Rightarrow> chat_message list \<Rightarrow> 'v state \<Rightarrow> 'v state"
  where
  "loop sv dl snap transcript s =
     (if sn_step_count snap < max_steps sv snap
      then case turn sv dl snap transcript s of
          Ended s1 \<Rightarrow> s1
        | Continue snap1 transcript1 s1 \<Rightarrow> loop sv dl snap1 transcript1 s1
      else finish snap Failed None
             (Some (''step limit reached ('' @ show_int (max_steps sv snap) @ '') before a final answer'')) s)"
  by pat_completeness auto
termination
  by (relation "measure (\<lambda>(sv, dl, snap, tr, s). nat (max_steps sv snap - sn_step_count snap))")
     (auto dest!: turn_decreases)

declare loop.simps [simp del]

text \<open>\<open>_loop\<close>: the calls left over from a resumed turn first, then the loop.\<close>

definition drive ::
  "'v services \<Rightarrow> (run_snap \<Rightarrow> 'v state delegate_fn) \<Rightarrow> run_snap \<Rightarrow> chat_message list \<Rightarrow> tool_call list
     \<Rightarrow> 'v state \<Rightarrow> 'v state" where
  "drive sv dl snap transcript pending s =
     (case after_calls (tool_calls sv dl snap transcript pending s) of
        Ended s1 \<Rightarrow> s1
      | Continue snap1 transcript1 s1 \<Rightarrow> loop sv dl snap1 transcript1 s1)"

section \<open>Starting and resuming\<close>

definition build_transcript ::
  "'v services \<Rightarrow> run_snap \<Rightarrow> 'v state \<Rightarrow> (embed_error + chat_message list) \<times> 'v state" where
  "build_transcript sv snap s =
     (case recall (sv_timing sv) (sn_workspace snap) (sn_goal snap) (Some (pf_id (sn_profile snap))) 5 (1/10)
             (db s) (bk_router (outside s)) (bk_vendors (outside s)) of
        (Inl e, rt, v) \<Rightarrow> (Inl e, on_backend (\<lambda>b. b\<lparr>bk_router := rt, bk_vendors := v\<rparr>) s)
      | (Inr hits, rt, v) \<Rightarrow>
          (let s1 = on_backend (\<lambda>b. b\<lparr>bk_router := rt, bk_vendors := v\<rparr>) s;
               history = (if sn_parent snap \<noteq> None then []
                          else conversation_history (db s) (sn_session snap) 200);
               transcript = build \<lparr>ctx_token_budget = sv_token_budget sv, ctx_aux_budget = 2000,
                 ctx_system_prompt = render_system_prompt (pf_title (sn_profile snap)) (pf_instructions (sn_profile snap)),
                 ctx_memory_notes = map rc_text hits, ctx_knowledge = [], ctx_history = history\<rparr>
           in (Inr (if transcript = [] \<or> cm_role (last transcript) \<noteq> USER
                    then transcript @ [plain_message USER (sn_goal snap)] else transcript), s1)))"

text \<open>A call that returns, or the exception that escapes it.\<close>

type_synonym 'v outcome = "embed_error option \<times> 'v state"

definition execute_with ::
  "(run_snap \<Rightarrow> 'v state delegate_fn) \<Rightarrow> 'v services \<Rightarrow> ident \<Rightarrow> 'v state \<Rightarrow> 'v outcome" where
  "execute_with dl sv k s =
     (case claim k From_queued s of
        (None, s1) \<Rightarrow> (None, s1)
      | (Some snap, s1) \<Rightarrow>
          (let s2 = emit snap RUN_STARTED [(''goal'', JStr (sn_goal snap))] s1 in
           case build_transcript sv snap s2 of
             (Inl e, s3) \<Rightarrow> (Some e, s3)
           | (Inr transcript, s3) \<Rightarrow> (None, drive sv dl snap transcript [] s3)))"

definition queued_run ::
  "ident \<Rightarrow> instant \<Rightarrow> ident \<Rightarrow> ident \<Rightarrow> ident \<Rightarrow> ident option \<Rightarrow> string \<Rightarrow> string option \<Rightarrow> run" where
  "queued_run k now ws session profile parent goal key =
     \<lparr>rn_id = k, rn_created = now, rn_workspace = ws, rn_session = session, rn_profile = profile,
      rn_parent = parent, rn_goal = goal, rn_status = Queued, rn_answer = None, rn_error = None,
      rn_checkpoint = None, rn_step_count = 0, rn_finished_at = None, rn_cancel_requested = False,
      rn_idempotency_key = key, rn_input_tokens = 0, rn_output_tokens = 0, rn_heartbeat_at = None\<rparr>"

definition add_run :: "run \<Rightarrow> 'w sys \<Rightarrow> 'w sys" where
  "add_run r s = use_id (on_db (on_runs (\<lambda>rs. rs @ [r])) s)"

definition child_answer :: "run option \<Rightarrow> string" where
  "child_answer fin = (case fin of
       None \<Rightarrow> ''Delegated agent ended with status unknown: no answer''
     | Some r \<Rightarrow>
         if rn_status r \<noteq> Succeeded
         then ''Delegated agent ended with status '' @ status_text (rn_status r) @ '': '' @
              (if truthy (rn_error r) then the (rn_error r) else ''no answer'')
         else if truthy (rn_answer r) then the (rn_answer r) else ''(no answer text)'')"


text \<open>\<open>_delegate_fn(snap, depth)\<close>; \<open>exec\<close> is \<open>execute_run(..., _depth)\<close>.\<close>

definition max_delegation_depth :: nat where
  "max_delegation_depth = 2"

definition depth_limit_text :: string where
  "depth_limit_text = ''Delegation depth limit reached; solve the remainder yourself.''"

definition delegate_at ::
  "(nat \<Rightarrow> ident \<Rightarrow> 'v state \<Rightarrow> 'v outcome) \<Rightarrow> nat \<Rightarrow> run_snap \<Rightarrow> 'v state delegate_fn" where
  "delegate_at exec depth snap handle goal s =
     (if depth \<ge> max_delegation_depth then (Answer depth_limit_text, s)
      else case find (\<lambda>p. ap_workspace p = sn_workspace snap \<and> ap_handle p = handle) (profiles (db s)) of
        None \<Rightarrow> (Lookup_error handle, s)
      | Some p \<Rightarrow>
          (let child = fresh s;
               s1 = add_run (queued_run child (clock s) (sn_workspace snap) (sn_session snap) (ap_id p)
                      (Some (sn_run snap)) goal None) s
           in case exec (depth + 1) child s1 of
                (Some e, s2) \<Rightarrow> (Delegate_raised, s2)
              | (None, s2) \<Rightarrow> (Answer (child_answer (get_run child (db s2))), s2)))"

text \<open>The delegate calls only the next depth, and none far beyond the limit: the recursion ends.\<close>

lemma delegate_at_cong [fundef_cong]:
  "(\<And>d. d = depth + 1 \<Longrightarrow> depth \<le> max_delegation_depth + 1 \<Longrightarrow> exec d = exec' d) \<Longrightarrow> depth = depth' \<Longrightarrow>
   delegate_at exec depth = delegate_at exec' depth'"
  by (intro ext) (simp add: delegate_at_def split: option.splits)

text \<open>\<open>execute_run(run_id, _depth)\<close>.\<close>

function execute_at :: "'v services \<Rightarrow> nat \<Rightarrow> ident \<Rightarrow> 'v state \<Rightarrow> 'v outcome" where
  "execute_at sv depth = execute_with (delegate_at (execute_at sv) depth) sv"
  by pat_completeness auto
termination
  by (relation "measure (\<lambda>(sv, depth). max_delegation_depth + 2 - depth)") auto

declare execute_at.simps [simp del]

definition execute_run :: "'v services \<Rightarrow> ident \<Rightarrow> 'v state \<Rightarrow> 'v outcome" where
  "execute_run sv = execute_at sv 0"

text \<open>The delegate of a run that executes at depth 0, as a resumed run does too.\<close>

definition top_delegate :: "'v services \<Rightarrow> run_snap \<Rightarrow> 'v state delegate_fn" where
  "top_delegate sv = delegate_at (execute_at sv) 0"

text \<open>
  What the gated call becomes: the tool's result when it was approved (an approved call is
  never gated again, \<open>approved_never_gated\<close>), the denial otherwise.
\<close>

definition denial_text :: string where
  "denial_text = ''The human operator denied this action. Choose another approach.''"

definition gated_message ::
  "'v services \<Rightarrow> run_snap \<Rightarrow> tool_call \<Rightarrow> bool \<Rightarrow> 'v state \<Rightarrow> chat_message \<times> 'v state" where
  "gated_message sv snap gated approved s =
     (if approved then
        (case run_tool sv (top_delegate sv) snap gated True s of
           (Inr m, s1) \<Rightarrow> (m, s1)
         | (Inl gate, s1) \<Rightarrow> (tool_message gated (pa_reason gate), s1))
      else (tool_message gated denial_text,
            emit snap RUN_STEP [(''tool'', JStr (tc_name gated)), (''ok'', JBool False),
              (''summary'', JStr ''denied by operator'')] s))"

definition resume_gated ::
  "'v services \<Rightarrow> run_snap \<Rightarrow> chat_message list \<Rightarrow> tool_call \<Rightarrow> tool_call list \<Rightarrow> bool \<Rightarrow> 'v state \<Rightarrow> 'v state" where
  "resume_gated sv snap transcript gated rest approved s =
     (case gated_message sv snap gated approved s of
        (msg, s1) \<Rightarrow>
          (case record_step Tool_step no_usage
                  [(''call'', tool_call_json gated), (''approved'', JBool approved)] snap s1 of
             (snap1, s2) \<Rightarrow> drive sv (top_delegate sv) snap1 (transcript @ [msg]) rest s2))"

definition resume_run :: "'v services \<Rightarrow> ident \<Rightarrow> bool \<Rightarrow> 'v state \<Rightarrow> 'v state" where
  "resume_run sv k approved s =
     (case get_run k (db s) of
        None \<Rightarrow> s
      | Some r \<Rightarrow>
          if rn_status r \<noteq> Awaiting_approval then s
          else case rn_checkpoint r of
              None \<Rightarrow> s
            | Some ck \<Rightarrow>
                (case claim k From_awaiting s of
                   (None, s1) \<Rightarrow> s1
                 | (Some snap, s1) \<Rightarrow>
                     (case ck_pending ck of
                        [] \<Rightarrow> s1
                      | gated # rest \<Rightarrow> resume_gated sv snap (ck_messages ck) gated rest approved s1)))"


lemma approved_never_gated: "fst (run_tool sv dl snap call True s) \<noteq> Inl gate"
  by (auto simp: run_tool_def execute_def Let_def split: prod.splits sum.splits option.splits tool_run.splits if_splits)

end
