(* ===== verification/Run_Relations.thy ===== *)
theory Run_Relations
  imports Runtime
begin

text \<open>
  Relations between the state before and after a run.  The locale \<open>run_relation\<close> is the
  contract of a relation that every step of the runtime respects: it is a preorder, it
  holds when the rows of the run table are rewritten in place (their identity columns
  kept), and the code outside the runtime (tools, the other connections) respects it.  The runtime's
  operations are then related as a whole, given that the delegate of the run at hand respects it.
  \<open>run_relation_growing\<close> adds the creation of child
  runs.  Interpreted on: the identity of the runs, the well-formedness of the key column,
  the supply of keys and, in \<open>Generations\<close>, the generations of runs below one run.
\<close>

section \<open>The contract\<close>

text \<open>The columns no operation writes.\<close>

definition run_identity :: "run \<Rightarrow> ident \<times> instant \<times> ident \<times> ident \<times> ident \<times> ident option \<times> string \<times> string option" where
  "run_identity r = (rn_id r, rn_created r, rn_workspace r, rn_session r, rn_profile r, rn_parent r,
     rn_goal r, rn_idempotency_key r)"

text \<open>A rewriting of rows that keeps these, and the cancellation flag, which the API owns.\<close>

definition in_place :: "(run \<Rightarrow> run) \<Rightarrow> bool" where
  "in_place f = (\<forall>r. run_identity (f r) = run_identity r \<and> rn_cancel_requested (f r) = rn_cancel_requested r)"

text \<open>The code outside the runtime respects \<open>R\<close>; a tool does as long as its delegate does.\<close>

definition outside_respects :: "('v state \<Rightarrow> 'v state \<Rightarrow> bool) \<Rightarrow> 'v services \<Rightarrow> bool" where
  "outside_respects R sv =
     ((\<forall>s. R s (sv_meanwhile sv s)) \<and>
      (\<forall>(n, t)\<in>set (ex_registry (sv_executor sv)). \<forall>args ctx tmo s.
         (\<forall>d h g s. cx_delegate ctx = Some d \<longrightarrow> R s (snd (d h g s))) \<longrightarrow>
         R s (snd (tl_run t args ctx tmo s))))"

definition turn_state :: "'v turn_result \<Rightarrow> 'v state" where
  "turn_state x = (case x of Ended s \<Rightarrow> s | Continue snap tr s \<Rightarrow> s)"

lemma model_turn_snap:
  "model_turn sv snap tr s = (Inr (snap', res), s') \<Longrightarrow>
   same_run snap' snap \<and> sn_step_count snap' = sn_step_count snap"
  by (auto simp: model_turn_def Let_def same_run_def split: prod.splits sum.splits option.splits)

lemma claim_id: "claim k frm s = (Some snap, s1) \<Longrightarrow> sn_run snap = k"
  by (auto simp: claim_def snapshot_def Let_def get_run_def dest: find_row_Some split: prod.splits option.splits if_splits)

locale run_relation =
  fixes R :: "'v state \<Rightarrow> 'v state \<Rightarrow> bool" and sv :: "'v services"
  assumes rel_trans: "R s s' \<Longrightarrow> R s' s'' \<Longrightarrow> R s s''"
    and rel_rewrite: "in_place f \<Longrightarrow> runs (db s') = map f (runs (db s)) \<Longrightarrow>
           id_supply s \<le> id_supply s' \<Longrightarrow> R s s'"
    and rel_outside: "outside_respects R sv"
begin

lemma rel_quiet: "runs (db s') = runs (db s) \<Longrightarrow> id_supply s \<le> id_supply s' \<Longrightarrow> R s s'"
  by (rule rel_rewrite [of id]) (simp_all add: in_place_def)

lemma rel_refl: "R s s"
  by (rule rel_quiet) simp_all

lemma rel_emit: "R s (emit snap t p s)"
  by (rule rel_quiet) simp_all

lemma rel_backend: "R s (on_backend f s)"
  by (rule rel_quiet) simp_all

lemma rel_update_run: "in_place f \<Longrightarrow> R s (update_run k f s)"
  by (rule rel_rewrite [of "\<lambda>r. if rn_id r = k then f r else r"])
     (simp_all add: in_place_def update_run_def update_where_def)

lemma rel_record_step: "R s (snd (record_step kind u detail snap s))"
  by (rule rel_rewrite [of "\<lambda>r. if rn_id r = sn_run snap then r\<lparr>rn_heartbeat_at := Some (clock s)\<rparr> else r"])
     (simp_all add: in_place_def run_identity_def record_step_def update_run_def update_where_def Let_def)

lemma rel_finish: "R s (finish snap st answer err s)"
  by (rule rel_rewrite [of "\<lambda>r. if rn_id r = sn_run snap then
        r\<lparr>rn_status := st, rn_answer := answer, rn_error := err, rn_checkpoint := None,
          rn_step_count := sn_step_count snap, rn_input_tokens := sn_input_tokens snap,
          rn_output_tokens := sn_output_tokens snap, rn_heartbeat_at := None,
          rn_finished_at := Some (clock s)\<rparr> else r"])
     (auto simp: in_place_def run_identity_def finish_def update_run_def update_where_def Let_def
        split: option.splits)

lemma rel_park: "R s (park_for_approval snap tr pend gate s)"
  by (rule rel_rewrite [of "\<lambda>r. if rn_id r = sn_run snap then
        r\<lparr>rn_status := Awaiting_approval, rn_step_count := sn_step_count snap,
          rn_checkpoint := Some \<lparr>ck_messages = tr, ck_pending = pend\<rparr>\<rparr> else r"])
     (simp_all add: in_place_def run_identity_def park_for_approval_def update_run_def update_where_def Let_def)

lemma rel_claim: "R s (snd (claim k frm s))"
proof -
  let ?rows = "update_where (\<lambda>r. rn_id r = k \<and> claimable frm r) (grab_run frm (clock s)) (runs (db s))"
  let ?s1 = "on_db (on_runs (\<lambda>_. ?rows)) s"
  have one: "R s ?s1"
    by (rule rel_rewrite [of "\<lambda>r. if rn_id r = k \<and> claimable frm r then grab_run frm (clock s) r else r"])
       (simp_all add: in_place_def run_identity_def grab_run_def update_where_def)
  have "R ?s1 (update_run k (\<lambda>x. x\<lparr>rn_status := Failed,
      rn_error := Some ''session or agent profile no longer exists'', rn_finished_at := Some (clock ?s1)\<rparr>) ?s1)"
    by (rule rel_update_run) (simp add: in_place_def run_identity_def)
  with one show ?thesis
    by (auto simp: claim_def cas_claim_def Let_def intro: rel_trans split: option.splits)
qed

lemma rel_execute:
  assumes "\<And>d h g s. cx_delegate ctx = Some d \<Longrightarrow> R s (snd (d h g s))"
  shows "R s (snd (execute (sv_executor sv) call ctx grants approved s))"
proof -
  have run: "R s (snd (tl_run t args ctx tmo s))"
    if "get_tool (ex_registry (sv_executor sv)) (iv_tool_name call) = Some t" for t args tmo
    using rel_outside that assms by (fastforce simp: outside_respects_def get_tool_def dest: map_of_SomeD)
  have "R s s1" if "get_tool (ex_registry (sv_executor sv)) (iv_tool_name call) = Some t"
    "tl_run t args ctx tmo s = (x, s1)" for t args tmo x s1
    using run [OF that(1), of args tmo] that(2) by simp
  then show ?thesis
    by (auto simp: execute_def Let_def rel_refl split: option.splits sum.splits prod.splits tool_run.splits)
qed

lemma rel_run_tool:
  assumes "\<And>h g s. R s (snd (dl snap h g s))"
  shows "R s (snd (run_tool sv dl snap call approved s))"
proof -
  let ?inv = "\<lparr>iv_call_id = tc_id call, iv_tool_name = tc_name call, iv_arguments = tc_arguments call\<rparr>"
  obtain x s1 where ex: "execute (sv_executor sv) ?inv (tool_ctx sv dl snap)
      (pf_tool_grants (sn_profile snap)) approved s = (x, s1)" by (metis prod.exhaust)
  have "R s (snd (execute (sv_executor sv) ?inv (tool_ctx sv dl snap)
      (pf_tool_grants (sn_profile snap)) approved s))"
    by (rule rel_execute) (auto simp: tool_ctx_def assms split: if_splits)
  with ex have "R s s1" by simp
  then show ?thesis
    using ex by (auto simp: run_tool_def intro: rel_trans rel_emit split: sum.splits)
qed

lemma rel_tool_calls:
  assumes "\<And>snap' h g s. sn_run snap' = sn_run snap \<Longrightarrow> R s (snd (dl snap' h g s))"
  shows "R s (snd (tool_calls sv dl snap tr cs s))"
  using assms
proof (induction cs arbitrary: snap tr s)
  case (Cons c cs)
  obtain x s1 where run: "run_tool sv dl snap c False s = (x, s1)" by (metis prod.exhaust)
  with rel_run_tool [of dl snap s c False] Cons.prems have s1: "R s s1" by simp
  show ?case
  proof (cases x)
    case (Inl g)
    with run s1 show ?thesis by simp
  next
    case (Inr msg)
    obtain snap1 s2 where rec: "record_step Tool_step no_usage [(''call'', tool_call_json c)] snap s1 = (snap1, s2)"
      by (metis prod.exhaust)
    have "R s1 s2" using rel_record_step [of s1 Tool_step no_usage "[(''call'', tool_call_json c)]" snap] rec by simp
    moreover have "sn_run snap1 = sn_run snap" using record_step_same [OF rec] by (simp add: same_run_def)
    then have "R s2 (snd (tool_calls sv dl snap1 (tr @ [msg]) cs s2))"
      using Cons.prems by (intro Cons.IH) simp
    ultimately have "R s (snd (tool_calls sv dl snap1 (tr @ [msg]) cs s2))"
      using s1 rel_trans by blast
    with run Inr rec show ?thesis by simp
  qed
qed (simp add: rel_refl)

lemma rel_emit_deltas: "R s (emit_deltas snap ds s)"
proof (induction snap ds s rule: emit_deltas.induct)
  case (2 snap t ds s)
  have "R s (if t = [] then s else emit snap RUN_DELTA [(''text'', JStr t)] s)"
    by (simp add: rel_refl rel_emit)
  with 2 show ?case by (auto intro: rel_trans)
qed (simp_all add: rel_refl)

lemma rel_note_stream: "R s (note_stream sv al ok s)"
  by (simp add: note_stream_def rel_backend)

lemma rel_model_turn: "R s (snd (model_turn sv snap tr s))"
proof -
  have env: "R s (emit_deltas snap ds (sv_meanwhile sv (on_backend f s)))" for ds f
  proof -
    have "R (on_backend f s) (sv_meanwhile sv (on_backend f s))"
      using rel_outside by (simp add: outside_respects_def)
    then show ?thesis by (meson rel_trans rel_backend rel_emit_deltas)
  qed
  have noted: "R s (note_stream sv al ok s1)" if "R s s1" for al ok s1
    using that rel_note_stream rel_trans by blast
  show ?thesis
    by (auto simp: model_turn_def Let_def noted env rel_backend split: prod.splits sum.splits option.splits)
qed

lemma rel_after_calls: "R s (snd x) \<Longrightarrow> R s (turn_state (after_calls x))"
  by (auto simp: after_calls_def turn_state_def intro: rel_trans rel_park split: prod.splits calls_result.splits)

lemma rel_turn:
  assumes "\<And>snap' h g s. sn_run snap' = sn_run snap \<Longrightarrow> R s (snd (dl snap' h g s))"
  shows "R s (turn_state (turn sv dl snap tr s))"
proof (cases "cancel_requested snap s")
  case True
  then show ?thesis by (simp add: turn_def turn_state_def rel_finish)
next
  case False
  obtain x s1 where m: "model_turn sv snap tr s = (x, s1)" by (metis prod.exhaust)
  with rel_model_turn [of s snap tr] have s1: "R s s1" by simp
  show ?thesis
  proof (cases x)
    case (Inl e)
    with False m s1 show ?thesis by (auto simp: turn_def turn_state_def intro: rel_trans rel_finish)
  next
    case (Inr p)
    obtain snap1 res where p: "p = (snap1, res)" by (cases p)
    let ?snap2 = "snap1\<lparr>sn_step_count := sn_step_count snap1 + 1\<rparr>"
    obtain snap3 s2 where rec: "record_step Model_step (cs_usage res)
       [(''text'', JStr (take 2000 (cm_content (cs_message res)))),
        (''tool_calls'', JList (map tool_call_json (cm_tool_calls (cs_message res))))] ?snap2 s1 = (snap3, s2)"
      by (metis prod.exhaust)
    have "R s1 (snd (snap3, s2))" unfolding rec [symmetric] by (rule rel_record_step)
    with s1 have s2: "R s s2" by (simp add: rel_trans [OF s1])
    have fin: "R s (finish snap3 Succeeded a b s2)" for a b
      by (rule rel_trans [OF s2 rel_finish])
    have "sn_run snap3 = sn_run snap"
      using model_turn_snap [OF m [unfolded Inr p]] record_step_same [OF rec] by (simp add: same_run_def)
    then have calls: "R s (turn_state (after_calls (tool_calls sv dl snap3 (tr @ [cs_message res])
        (cm_tool_calls (cs_message res)) s2)))"
      using assms by (intro rel_after_calls rel_trans [OF s2] rel_tool_calls) simp
    show ?thesis using False m Inr p rec fin calls by (auto simp: turn_def Let_def turn_state_def)
  qed
qed

lemma rel_loop:
  assumes "\<And>snap' h g s. sn_run snap' = sn_run snap \<Longrightarrow> R s (snd (dl snap' h g s))"
  shows "R s (loop sv dl snap tr s)"
  using assms
proof (induction "nat (max_steps sv snap - sn_step_count snap)" arbitrary: snap tr s rule: less_induct)
  case less
  show ?case
  proof (cases "sn_step_count snap < max_steps sv snap")
    case False
    then show ?thesis by (simp add: loop.simps rel_finish)
  next
    case True
    have one: "R s (turn_state (turn sv dl snap tr s))" by (rule rel_turn) (rule less.prems)
    show ?thesis
    proof (cases "turn sv dl snap tr s")
      case (Ended s1)
      with True one show ?thesis by (simp add: loop.simps turn_state_def)
    next
      case (Continue snap1 tr1 s1)
      have "sn_run snap1 = sn_run snap" using turn_snap [OF Continue] by (simp add: same_run_def)
      with turn_decreases [OF Continue] True less.prems
      have "R s1 (loop sv dl snap1 tr1 s1)" by (intro less.hyps) simp_all
      with True one Continue show ?thesis
        by (auto simp: loop.simps [of sv dl snap] turn_state_def intro: rel_trans)
    qed
  qed
qed

lemma rel_drive:
  assumes "\<And>snap' h g s. sn_run snap' = sn_run snap \<Longrightarrow> R s (snd (dl snap' h g s))"
  shows "R s (drive sv dl snap tr pend s)"
proof -
  have calls: "R s (turn_state (after_calls (tool_calls sv dl snap tr pend s)))"
    by (rule rel_after_calls, rule rel_tool_calls, rule assms)
  show ?thesis
  proof (cases "after_calls (tool_calls sv dl snap tr pend s)")
    case (Ended s1)
    with calls show ?thesis by (simp add: drive_def turn_state_def)
  next
    case (Continue snap1 tr1 s1)
    then obtain r where "tool_calls sv dl snap tr pend s = (Calls_done snap1 tr1, s1)"
      by (auto simp: after_calls_def split: prod.splits calls_result.splits)
    then have "sn_run snap1 = sn_run snap" using tool_calls_snap by (fastforce simp: same_run_def)
    then have "R s1 (loop sv dl snap1 tr1 s1)" using assms by (intro rel_loop) simp
    with calls Continue show ?thesis
      by (auto simp: drive_def turn_state_def intro: rel_trans)
  qed
qed

lemma rel_build_transcript: "R s (snd (build_transcript sv snap s))"
  by (auto simp: build_transcript_def Let_def rel_backend split: prod.splits sum.splits)

lemma rel_execute_with:
  assumes "\<And>snap h g s. sn_run snap = k \<Longrightarrow> R s (snd (dl snap h g s))"
  shows "R s (snd (execute_with dl sv k s))"
proof -
  obtain x s1 where c: "claim k From_queued s = (x, s1)" by (metis prod.exhaust)
  with rel_claim [of s k From_queued] have s1: "R s s1" by simp
  show ?thesis
  proof (cases x)
    case None
    with c s1 show ?thesis by (simp add: execute_with_def)
  next
    case (Some snap)
    let ?s2 = "emit snap RUN_STARTED [(''goal'', JStr (sn_goal snap))] s1"
    obtain y s3 where b: "build_transcript sv snap ?s2 = (y, s3)" by (metis prod.exhaust)
    have "R ?s2 s3" using rel_build_transcript [of ?s2 snap] b by simp
    then have s3: "R s s3" by (meson s1 rel_trans rel_emit)
    have "R s (drive sv dl snap tr [] s3)" for tr
      using claim_id [OF c [unfolded Some]] assms by (intro rel_trans [OF s3 rel_drive]) simp
    with c Some b s3 show ?thesis by (auto simp: execute_with_def Let_def split: sum.splits)
  qed
qed

lemma rel_resume:
  assumes "\<And>snap h g s. sn_run snap = k \<Longrightarrow> R s (snd (top_delegate sv snap h g s))"
  shows "R s (resume_run sv k approved s)"
proof -
  obtain x s1 where c: "claim k From_awaiting s = (x, s1)" by (metis prod.exhaust)
  with rel_claim [of s k From_awaiting] have s1: "R s s1" by simp
  have go: "R s (resume_gated sv snap (ck_messages ck) gated rest approved s1)" if "x = Some snap" for snap ck gated rest
  proof -
    have id: "sn_run snap = k" using claim_id c that by simp
    have ran: "R s1 s2" if "run_tool sv (top_delegate sv) snap gated True s1 = (y, s2)" for y s2
      using rel_run_tool [of "top_delegate sv" snap s1 gated True] assms [OF id] that by simp
    obtain msg s2 where m: "gated_message sv snap gated approved s1 = (msg, s2)" by (metis prod.exhaust)
    have "R s1 s2"
      using m ran by (auto simp: gated_message_def rel_emit split: if_splits prod.splits sum.splits)
    moreover obtain snap1 s3 where r: "record_step Tool_step no_usage
        [(''call'', tool_call_json gated), (''approved'', JBool approved)] snap s2 = (snap1, s3)"
      by (metis prod.exhaust)
    moreover have "R s2 s3"
      using rel_record_step [of s2 Tool_step no_usage
        "[(''call'', tool_call_json gated), (''approved'', JBool approved)]" snap] r by simp
    moreover have "R s3 (drive sv (top_delegate sv) snap1 (ck_messages ck @ [msg]) rest s3)"
      using assms id record_step_same [OF r] by (intro rel_drive) (simp add: same_run_def)
    ultimately show ?thesis using s1 m by (auto simp: resume_gated_def intro: rel_trans)
  qed
  show ?thesis using c s1 go
    by (auto simp: resume_run_def rel_refl split: option.splits list.splits)
qed

end

locale run_relation_growing = run_relation +
  assumes rel_add_run: "rn_id r = fresh s \<Longrightarrow> rn_status r = Queued \<Longrightarrow> R s (add_run r s)"
begin

lemma rel_delegate:
  assumes "\<And>k s. depth \<le> max_delegation_depth + 1 \<Longrightarrow> R s (snd (exec (depth + 1) k s))"
  shows "R s (snd (delegate_at exec depth snap handle goal s))"
proof (cases "depth \<le> max_delegation_depth + 1 \<and>
    (\<exists>p. find (\<lambda>p. ap_workspace p = sn_workspace snap \<and> ap_handle p = handle) (profiles (db s)) = Some p)")
  case False
  then show ?thesis by (auto simp: delegate_at_def rel_refl split: option.splits)
next
  case True
  then obtain p where p: "find (\<lambda>p. ap_workspace p = sn_workspace snap \<and> ap_handle p = handle) (profiles (db s)) = Some p"
    by blast
  let ?s1 = "add_run (queued_run (fresh s) (clock s) (sn_workspace snap) (sn_session snap) (ap_id p)
      (Some (sn_run snap)) goal None) s"
  have one: "R s ?s1" by (rule rel_add_run) (simp_all add: queued_run_def)
  have "R s (snd (exec (depth + 1) (fresh s) ?s1))" using True by (intro rel_trans [OF one assms]) simp
  then show ?thesis by (auto simp: delegate_at_def Let_def rel_refl p split: prod.splits option.splits)
qed

lemma rel_execute_at: "R s (snd (execute_at sv depth k s))"
proof (induction "max_delegation_depth + 2 - depth" arbitrary: depth k s rule: less_induct)
  case less
  have "R s (snd (delegate_at (execute_at sv) depth snap h g s))" for snap h g s
    by (rule rel_delegate, rule less) simp
  then show ?case unfolding execute_at.simps [of sv depth] by (rule rel_execute_with)
qed

lemma rel_top_delegate: "R s (snd (top_delegate sv snap h g s))"
  unfolding top_delegate_def by (rule rel_delegate) (rule rel_execute_at)

lemma rel_execute_run: "R s (snd (execute_run sv k s))"
  unfolding execute_run_def by (rule rel_execute_at)

lemma rel_resume_run: "R s (resume_run sv k approved s)"
  by (rule rel_resume) (rule rel_top_delegate)

end

section \<open>What a run keeps\<close>

lemma outside_respects_guarded:
  "outside_respects (\<lambda>s s'. outside_respects K sv \<longrightarrow> K s s') sv"
proof (cases "outside_respects K sv")
  case True
  then show ?thesis by simp
next
  case False
  have "outside_respects (\<lambda>s s'. True) sv" by (auto simp: outside_respects_def)
  with False show ?thesis by simp
qed

lemma in_place_id: "in_place f \<Longrightarrow> rn_id (f r) = rn_id r"
  by (simp add: in_place_def run_identity_def)

lemma find_row_map:
  "(\<And>r. key (f r) = key r) \<Longrightarrow> find_row key k (map f rows) = map_option f (find_row key k rows)"
  by (induction rows) auto

text \<open>Every run is still there, with its identity.\<close>

definition runs_kept :: "'v state \<Rightarrow> 'v state \<Rightarrow> bool" where
  "runs_kept s s' = (\<forall>k r. get_run k (db s) = Some r \<longrightarrow>
     (\<exists>r'. get_run k (db s') = Some r' \<and> run_identity r' = run_identity r))"

text \<open>Keys are unique and were taken from the supply, which only grows.\<close>

definition run_keys_ok :: "'v state \<Rightarrow> bool" where
  "run_keys_ok s = (keyed rn_id (runs (db s)) \<and>
     (\<forall>r\<in>set (runs (db s)). \<exists>n<id_supply s. rn_id r = new_id n))"

definition keys_kept :: "'v state \<Rightarrow> 'v state \<Rightarrow> bool" where
  "keys_kept s s' = (id_supply s \<le> id_supply s' \<and> (run_keys_ok s \<longrightarrow> run_keys_ok s'))"

text \<open>A cancellation that was requested stays requested.\<close>

definition flags_kept :: "'v state \<Rightarrow> 'v state \<Rightarrow> bool" where
  "flags_kept s s' = (\<forall>k r. get_run k (db s) = Some r \<longrightarrow> rn_cancel_requested r \<longrightarrow>
     (\<exists>r'. get_run k (db s') = Some r' \<and> rn_cancel_requested r'))"

lemma flags_kept_rewrite:
  assumes "in_place f" and "runs (db s') = map f (runs (db s))"
  shows "flags_kept s s'"
proof -
  have "get_run k (db s') = map_option f (get_run k (db s))" for k
    using assms by (simp add: get_run_def find_row_map in_place_id)
  then show ?thesis using assms(1) by (auto simp: flags_kept_def in_place_def)
qed

lemma runs_kept_rewrite:
  assumes "in_place f" and "runs (db s') = map f (runs (db s))"
  shows "runs_kept s s'"
proof -
  have "get_run k (db s') = map_option f (get_run k (db s))" for k
    using assms by (simp add: get_run_def find_row_map in_place_id)
  then show ?thesis using assms(1) by (auto simp: runs_kept_def in_place_def)
qed

lemma keys_kept_rewrite:
  assumes "in_place f" and "runs (db s') = map f (runs (db s))" and "id_supply s \<le> id_supply s'"
  shows "keys_kept s s'"
proof -
  have "map rn_id (runs (db s')) = map rn_id (runs (db s))"
    using assms by (simp add: in_place_id)
  then have "keyed rn_id (runs (db s')) = keyed rn_id (runs (db s))"
    by (simp only: keyed_def)
  moreover have "\<exists>n<id_supply s'. rn_id r = new_id n"
    if "r \<in> set (runs (db s'))" "\<forall>r\<in>set (runs (db s)). \<exists>n<id_supply s. rn_id r = new_id n" for r
    using that assms by (fastforce simp: in_place_id intro: less_le_trans)
  ultimately show ?thesis
    using assms(3) by (auto simp: keys_kept_def run_keys_ok_def)
qed

lemma keys_kept_add: "rn_id r = fresh s \<Longrightarrow> keys_kept s (add_run r s)"
  by (auto simp: keys_kept_def run_keys_ok_def keyed_def add_run_def fresh_def intro: less_SucI)

interpretation kept: run_relation_growing
  "\<lambda>s s'. outside_respects runs_kept sv \<longrightarrow> runs_kept s s'" sv for sv
proof unfold_locales
  fix s s' s'' :: "'a state"
  assume "outside_respects runs_kept sv \<longrightarrow> runs_kept s s'" "outside_respects runs_kept sv \<longrightarrow> runs_kept s' s''"
  then show "outside_respects runs_kept sv \<longrightarrow> runs_kept s s''" by (fastforce simp: runs_kept_def)
next
  fix r :: run and s :: "'a state"
  show "outside_respects runs_kept sv \<longrightarrow> runs_kept s (add_run r s)"
    by (auto simp: runs_kept_def get_run_def add_run_def find_row_append)
qed (auto simp: runs_kept_rewrite outside_respects_guarded)

interpretation flags: run_relation_growing
  "\<lambda>s s'. outside_respects flags_kept sv \<longrightarrow> flags_kept s s'" sv for sv
proof unfold_locales
  fix s s' s'' :: "'a state"
  assume "outside_respects flags_kept sv \<longrightarrow> flags_kept s s'" "outside_respects flags_kept sv \<longrightarrow> flags_kept s' s''"
  then show "outside_respects flags_kept sv \<longrightarrow> flags_kept s s''" by (fastforce simp: flags_kept_def)
next
  fix r :: run and s :: "'a state"
  show "outside_respects flags_kept sv \<longrightarrow> flags_kept s (add_run r s)"
    by (auto simp: flags_kept_def get_run_def add_run_def find_row_append)
qed (auto simp: flags_kept_rewrite outside_respects_guarded)

interpretation keys: run_relation_growing
  "\<lambda>s s'. outside_respects keys_kept sv \<longrightarrow> keys_kept s s'" sv for sv
proof unfold_locales
  fix s s' s'' :: "'a state"
  assume "outside_respects keys_kept sv \<longrightarrow> keys_kept s s'" "outside_respects keys_kept sv \<longrightarrow> keys_kept s' s''"
  then show "outside_respects keys_kept sv \<longrightarrow> keys_kept s s''" by (auto simp: keys_kept_def)
qed (auto simp: keys_kept_rewrite keys_kept_add outside_respects_guarded)

end
