(* ===== verification/Run_Props.thy ===== *)
theory Run_Props
  imports Run_Relations "HOL-Library.Sublist"
begin

text \<open>
  What the runtime promises: one worker wins a run, a run never ends unrecorded, the step
  budget, the checkpoint of a parked run, cancellation at step boundaries and the denied call
  that is not executed.
\<close>

section \<open>Claims\<close>

interpretation run_claim: single_winner rn_id claimable grab_run
proof unfold_locales
  show "rn_id (grab_run t i r) = rn_id r" for t i r by (simp add: grab_run_def)
  show "\<not> claimable t (grab_run t i r)" if "claimable t r" for t i r
    by (cases t) (simp_all add: claimable_def grab_run_def)
qed

lemma get_run_update_run [simp]:
  assumes "\<And>r. rn_id (f r) = rn_id r"
  shows "get_run k (db (update_run k f s)) = map_option f (get_run k (db s))"
  using assms by (simp add: get_run_def update_run_def)

lemma claim_wins_iff:
  assumes "keyed rn_id (runs (db s))"
  shows "fst (claim k frm s) \<noteq> None \<longleftrightarrow>
    (\<exists>r. get_run k (db s) = Some r \<and> claimable frm r \<and>
         get_session (rn_session r) (db s) \<noteq> None \<and> get_profile (rn_profile r) (db s) \<noteq> None)"
proof -
  obtain won rows where cas: "cas_claim rn_id claimable grab_run k frm (clock s) (runs (db s)) = (won, rows)"
    by (metis prod.exhaust)
  have won: "won \<longleftrightarrow> (\<exists>r. get_run k (db s) = Some r \<and> claimable frm r)"
    using run_claim.claim_won_iff [OF assms, of k frm "clock s"] cas by (simp add: get_run_def)
  have row: "find_row rn_id k rows = map_option (\<lambda>r. if claimable frm r then grab_run frm (clock s) r else r)
      (get_run k (db s))"
    using run_claim.claim_row [of k frm "clock s" "runs (db s)"] cas by (simp add: get_run_def)
  show ?thesis
  proof (cases won)
    case False
    then show ?thesis using cas won by (auto simp: claim_def Let_def)
  next
    case True
    then obtain r where r: "get_run k (db s) = Some r" "claimable frm r" using won by blast
    then have "find_row rn_id k rows = Some (grab_run frm (clock s) r)" using row by simp
    then show ?thesis using cas True r
      by (auto simp: claim_def Let_def get_run_def get_session_def get_profile_def grab_run_def
          split: option.splits)
  qed
qed

text \<open>A row that was claimed is not claimable, from whatever status the next claim starts.\<close>

lemma claim_blocks:
  assumes "keyed rn_id (runs (db s))" and "fst (claim k frm s) \<noteq> None"
  shows "\<exists>r. get_run k (db (snd (claim k frm s))) = Some r \<and> rn_status r = Running"
proof -
  obtain r where r: "get_run k (db s) = Some r" "claimable frm r"
    "get_session (rn_session r) (db s) \<noteq> None" "get_profile (rn_profile r) (db s) \<noteq> None"
    using assms claim_wins_iff by blast
  obtain won rows where cas: "cas_claim rn_id claimable grab_run k frm (clock s) (runs (db s)) = (won, rows)"
    by (metis prod.exhaust)
  have "find_row rn_id k rows = Some (grab_run frm (clock s) r)"
    using run_claim.claim_row [of k frm "clock s" "runs (db s)"] cas r by (simp add: get_run_def)
  then show ?thesis using cas assms(2) r
    by (auto simp: claim_def Let_def get_run_def get_session_def get_profile_def grab_run_def
        split: option.splits if_splits)
qed

lemma claim_keeps_keys [simp]: "keyed rn_id (runs (db (snd (claim k frm s)))) = keyed rn_id (runs (db s))"
proof -
  have "keyed rn_id (snd (cas_claim rn_id claimable grab_run k frm (clock s) (runs (db s))))
      = keyed rn_id (runs (db s))"
    by (rule run_claim.claim_keyed)
  then show ?thesis
    by (auto simp: claim_def Let_def update_run_def keyed_update_where split: prod.splits option.splits)
qed

text \<open>Workers that pull the same job, and resumptions, one after the other.\<close>

fun claim_race :: "ident \<Rightarrow> claim_from list \<Rightarrow> 'w sys \<Rightarrow> run_snap option list" where
  "claim_race k [] s = []"
| "claim_race k (frm # frms) s = (case claim k frm s of (x, s1) \<Rightarrow> x # claim_race k frms s1)"

lemma claim_race_lost:
  assumes "keyed rn_id (runs (db s))"
    and "\<And>r frm. get_run k (db s) = Some r \<Longrightarrow> \<not> claimable frm r"
  shows "filter (\<lambda>x. x \<noteq> None) (claim_race k frms s) = []"
  using assms
proof (induction frms arbitrary: s)
  case (Cons frm frms)
  have lost: "fst (claim k frm s) = None"
    using claim_wins_iff [OF Cons.prems(1), of k frm] Cons.prems(2) by blast
  have "runs (db (snd (claim k frm s))) = runs (db s)"
  proof -
    obtain won rows where cas: "cas_claim rn_id claimable grab_run k frm (clock s) (runs (db s)) = (won, rows)"
      by (metis prod.exhaust)
    have "\<not> won"
      using run_claim.claim_won_iff [OF Cons.prems(1), of k frm "clock s"] cas Cons.prems(2)
      by (auto simp: get_run_def)
    moreover have "rows = runs (db s)"
    proof -
      have "\<not> (rn_id r = k \<and> claimable frm r)" if "r \<in> set (runs (db s))" for r
      proof
        assume a: "rn_id r = k \<and> claimable frm r"
        with that Cons.prems(1) have "find_row rn_id k (runs (db s)) = Some r"
          by (auto simp: find_row_unique)
        with a Cons.prems(2) show False by (auto simp: get_run_def)
      qed
      then show ?thesis using cas by (auto simp: cas_claim_def update_where_none)
    qed
    ultimately show ?thesis using cas by (simp add: claim_def Let_def)
  qed
  then have "filter (\<lambda>x. x \<noteq> None) (claim_race k frms (snd (claim k frm s))) = []"
    using Cons.prems by (intro Cons.IH) (simp_all add: get_run_def)
  with lost show ?case by (simp add: split_beta)
qed simp


text \<open>C2.  Claiming a run is exclusive: of any sequence of attempts by workers that pulled the
  same job and by resumptions, at most one wins; and one does win when the first finds the
  run in the status it claims from, with its session and its agent in place.\<close>

theorem claim_race_single_winner:
  assumes "keyed rn_id (runs (db s))"
  shows "length (filter (\<lambda>x. x \<noteq> None) (claim_race k (frm # frms) s)) \<le> 1 \<and>
         ((\<exists>r. get_run k (db s) = Some r \<and> claimable frm r \<and>
            get_session (rn_session r) (db s) \<noteq> None \<and> get_profile (rn_profile r) (db s) \<noteq> None) \<longrightarrow>
          length (filter (\<lambda>x. x \<noteq> None) (claim_race k (frm # frms) s)) = 1)"
proof -
  have after_win: "filter (\<lambda>x. x \<noteq> None) (claim_race k frms (snd (claim k f s))) = []"
    if win: "fst (claim k f s) \<noteq> None" and keys: "keyed rn_id (runs (db s))" for f s frms
  proof (rule claim_race_lost)
    show "keyed rn_id (runs (db (snd (claim k f s))))" using keys by simp
    from claim_blocks [OF keys win] obtain r0 where
      r0: "get_run k (db (snd (claim k f s))) = Some r0" "rn_status r0 = Running" by blast
    show "\<not> claimable f' r" if "get_run k (db (snd (claim k f s))) = Some r" for r f'
      using that r0 by (cases f') (simp_all add: claimable_def)
  qed
  have at_most: "length (filter (\<lambda>x. x \<noteq> None) (claim_race k fs s)) \<le> 1"
    if "keyed rn_id (runs (db s))" for fs s
    using that
  proof (induction fs arbitrary: s)
    case (Cons f fs)
    show ?case
    proof (cases "fst (claim k f s) = None")
      case True
      with Cons.IH [of "snd (claim k f s)"] Cons.prems show ?thesis by (simp add: split_beta)
    next
      case False
      with after_win [OF False Cons.prems, of fs] show ?thesis by (simp add: split_beta)
    qed
  qed simp
  have "length (filter (\<lambda>x. x \<noteq> None) (claim_race k (frm # frms) s)) = 1" if "fst (claim k frm s) \<noteq> None"
    using after_win [OF that assms, of frms] that by (simp add: split_beta)
  then show ?thesis using at_most [OF assms] claim_wins_iff [OF assms, of k frm] by blast
qed

section \<open>A small deployment\<close>

definition demo_run :: "run_status \<Rightarrow> run" where
  "demo_run st = (queued_run ''r1'' 0 ''w1'' ''s1'' ''p1'' None ''tidy up'' None)\<lparr>rn_status := st\<rparr>"

definition demo_session :: session where
  "demo_session = \<lparr>ss_id = ''s1'', ss_created = 0, ss_workspace = ''w1'', ss_user = ''u1'', ss_profile = ''p1'',
     ss_title = ''chat'', ss_sandbox_dir = ''box'', ss_archived = False\<rparr>"

definition demo_profile :: agent_profile where
  "demo_profile = \<lparr>ap_id = ''p1'', ap_created = 0, ap_workspace = ''w1'', ap_handle = ''ops'', ap_title = ''Ops'',
     ap_instructions = [], ap_model_alias = ''chat'', ap_tool_grants = [''*''], ap_can_delegate = True,
     ap_max_steps = Some 1\<rparr>"

definition demo_db :: "run_status \<Rightarrow> database" where
  "demo_db st = empty_database\<lparr>runs := [demo_run st], sessions := [demo_session], profiles := [demo_profile]\<rparr>"

text \<open>A model that answers at once, or asks for one tool call, and an embedding model.\<close>

definition demo_result :: "tool_call list \<Rightarrow> chat_result" where
  "demo_result calls = \<lparr>cs_message = \<lparr>cm_role = ASSISTANT, cm_content = ''done'', cm_tool_calls = calls,
     cm_tool_call_id = None\<rparr>, cs_usage = \<lparr>input_tokens = 7, output_tokens = 2\<rparr>, cs_finish = Stop\<rparr>"

definition lab_provider :: "tool_call list \<Rightarrow> nat provider" where
  "lab_provider calls = \<lparr>pv_name = ''lab'', pv_complete = (\<lambda>req v. (Inr (demo_result calls), Suc v)),
     pv_stream = (\<lambda>req v. (([Done_delta (Some (demo_result calls))], None), Suc v)),
     pv_embed = (\<lambda>model texts v. (Inr (map (\<lambda>_. [1]) texts), v))\<rparr>"

definition lab_router :: "tool_call list \<Rightarrow> nat model_router" where
  "lab_router calls = make_router [(''lab'', lab_provider calls)]
     [(''chat'', ''lab/m''), (''embed'', ''lab/e'')] [] default_retry_policy 5 30"

definition demo_state :: "tool_call list \<Rightarrow> run_status \<Rightarrow> nat state" where
  "demo_state calls st = \<lparr>db = demo_db st, published = [], clock = 5, id_supply = 0,
     outside = \<lparr>bk_router = lab_router calls, bk_vendors = 0, bk_jobs = []\<rparr>\<rparr>"

text \<open>Its one tool needs approval and only writes to the vendors' side.\<close>

definition wipe_tool :: "nat state tool" where
  "wipe_tool = \<lparr>tl_spec = \<lparr>ts_name = ''wipe'', ts_description = [], ts_schema = JNull, ts_validate = Inr,
       ts_requires_approval = True, ts_timeout_seconds = None\<rparr>,
     tl_run = (\<lambda>args ctx t s. (Finished (success ''wiped'' []), on_backend (\<lambda>b. b\<lparr>bk_vendors := 99\<rparr>) s))\<rparr>"

definition demo_services :: "nat services" where
  "demo_services = \<lparr>sv_executor = \<lparr>ex_registry = [(''wipe'', wipe_tool)], ex_default_timeout = 120, ex_force_approval = []\<rparr>,
     sv_timing = \<lparr>tm_jitter = (\<lambda>_. 0), tm_sleep = (\<lambda>_ v. v), tm_now = real\<rparr>,
     sv_max_run_steps = 25, sv_token_budget = 24000, sv_sandbox_root = ''/srv'', sv_exc_text = (\<lambda>_. ''error''),
     sv_float_repr = (\<lambda>_. ''0.0''), sv_meanwhile = (\<lambda>s. s), sv_chunk_size = 1600, sv_chunk_overlap = 200,
     sv_embed_text = (\<lambda>_. ''error'')\<rparr>"

definition wipe_call :: tool_call where
  "wipe_call = \<lparr>tc_id = ''c1'', tc_name = ''wipe'', tc_arguments = []\<rparr>"

lemmas demo_defs = demo_run_def queued_run_def demo_session_def demo_profile_def demo_db_def empty_database_def
  demo_state_def demo_services_def get_defs

lemma demo_keyed: "keyed rn_id (runs (db (demo_state calls st)))"
  by (simp add: demo_state_def demo_db_def empty_database_def)

lemma demo_claimable:
  "\<exists>r. get_run ''r1'' (db (demo_state calls Queued)) = Some r \<and> claimable From_queued r \<and>
     get_session (rn_session r) (db (demo_state calls Queued)) \<noteq> None \<and>
     get_profile (rn_profile r) (db (demo_state calls Queued)) \<noteq> None"
  by (simp add: demo_defs claimable_def)

theorem claim_race_single_winner_witness:
  "length (filter (\<lambda>x. x \<noteq> None)
     (claim_race ''r1'' [From_queued, From_awaiting, From_queued] (demo_state [] Queued))) = 1"
  using claim_race_single_winner [OF demo_keyed, of "''r1''" From_queued "[From_awaiting, From_queued]" "[]" Queued]
    demo_claimable [of "[]"] by blast

lemma demo_respects: "outside_respects runs_kept demo_services"
proof -
  have "runs_kept s s" "runs_kept s (on_backend f s)" for s :: "nat state" and f
    by (simp_all add: runs_kept_def)
  then show ?thesis by (simp add: outside_respects_def demo_services_def wipe_tool_def)
qed


section \<open>Runs end recorded\<close>

text \<open>
  How a run is left: terminal, with its end written down, or parked with the gated call first in
  its checkpoint and the approval request for that call pending; \<open>bound\<close> is an upper bound
  on the model turns charged.
\<close>

definition parked_on :: "ident \<Rightarrow> run \<Rightarrow> database \<Rightarrow> bool" where
  "parked_on k r d =
     (\<exists>ck call rest a. rn_checkpoint r = Some ck \<and> ck_pending ck = call # rest \<and> a \<in> set (approvals d) \<and>
        ar_run a = k \<and> ar_status a = Pending_decision \<and> ar_tool_name a = tc_name call \<and>
        ar_arguments a = tc_arguments call)"

definition recorded_run :: "int \<Rightarrow> ident \<Rightarrow> run \<Rightarrow> database \<Rightarrow> bool" where
  "recorded_run bound k r d =
     (rn_step_count r \<le> bound \<and>
      (if terminal_status (rn_status r)
       then rn_checkpoint r = None \<and> rn_finished_at r \<noteq> None \<and> rn_heartbeat_at r = None \<and>
            (rn_status r = Succeeded \<longleftrightarrow> rn_error r = None)
       else rn_status r = Awaiting_approval \<and> parked_on k r d))"

definition recorded :: "int \<Rightarrow> ident \<Rightarrow> 'w sys \<Rightarrow> bool" where
  "recorded bound k s = (\<exists>r. get_run k (db s) = Some r \<and> recorded_run bound k r (db s))"

definition exists_run :: "run_snap \<Rightarrow> 'w sys \<Rightarrow> bool" where
  "exists_run snap s = (get_run (sn_run snap) (db s) \<noteq> None)"

lemma exists_kept: "exists_run snap s \<Longrightarrow> runs_kept s s' \<Longrightarrow> exists_run snap s'"
  by (fastforce simp: exists_run_def runs_kept_def)

lemma finish_row:
  "get_run k (db (finish snap st answer err s)) = get_run k (db (update_run (sn_run snap)
     (\<lambda>r. r\<lparr>rn_status := st, rn_answer := answer, rn_error := err, rn_checkpoint := None,
           rn_step_count := sn_step_count snap, rn_input_tokens := sn_input_tokens snap,
           rn_output_tokens := sn_output_tokens snap, rn_heartbeat_at := None,
           rn_finished_at := Some (clock s)\<rparr>) s))"
  by (simp add: finish_def Let_def get_run_def split: option.splits)

lemma finish_recorded:
  assumes "exists_run snap s" and "terminal_status st" and "st = Succeeded \<longleftrightarrow> err = None"
    and "sn_step_count snap \<le> bound"
  shows "recorded bound (sn_run snap) (finish snap st answer err s)"
proof -
  obtain r where "get_run (sn_run snap) (db s) = Some r" using assms(1) by (auto simp: exists_run_def)
  then show ?thesis using assms(2-) by (simp add: recorded_def recorded_run_def finish_row)
qed

lemma park_recorded:
  assumes "exists_run snap s" and "sn_step_count snap \<le> bound"
    and "pa_invocation gate = \<lparr>iv_call_id = tc_id call, iv_tool_name = tc_name call, iv_arguments = tc_arguments call\<rparr>"
  shows "recorded bound (sn_run snap) (park_for_approval snap tr (call # rest) gate s)"
proof -
  obtain r where r: "get_run (sn_run snap) (db s) = Some r" using assms(1) by (auto simp: exists_run_def)
  define ck where "ck = \<lparr>ck_messages = tr, ck_pending = call # rest\<rparr>"
  define r' where "r' = r\<lparr>rn_status := Awaiting_approval, rn_step_count := sn_step_count snap, rn_checkpoint := Some ck\<rparr>"
  define a where "a = \<lparr>ar_id = fresh s, ar_created = clock s, ar_workspace = sn_workspace snap, ar_run = sn_run snap,
      ar_tool_name = tc_name call, ar_arguments = tc_arguments call, ar_reason = pa_reason gate,
      ar_status = Pending_decision, ar_decided_by = None, ar_decided_at = None\<rparr>"
  let ?s = "park_for_approval snap tr (call # rest) gate s"
  have apps: "approvals (db ?s) = approvals (db s) @ [a]"
    by (simp add: park_for_approval_def Let_def update_run_def a_def assms(3))
  have row: "get_run (sn_run snap) (db ?s) = Some r'"
    using r by (simp add: park_for_approval_def Let_def get_run_def update_run_def r'_def ck_def)
  have "parked_on (sn_run snap) r' (db ?s)"
    unfolding parked_on_def
    by (intro exI [of _ ck] exI [of _ call] exI [of _ rest] exI [of _ a]) (simp add: apps r'_def ck_def a_def)
  then show ?thesis unfolding recorded_def recorded_run_def
    using row assms(2) by (auto simp: r'_def terminal_status_def)
qed

lemma execute_gate: "execute ex call ctx grants approved s = (Inl gate, s') \<Longrightarrow> pa_invocation gate = call"
  by (auto simp: execute_def Let_def split: option.splits sum.splits prod.splits if_splits tool_run.splits)

lemma tool_calls_gated:
  "tool_calls sv dl snap tr cs s = (Gated snap' tr' pend gate, s') \<Longrightarrow>
   \<exists>call rest. pend = call # rest \<and> suffix pend cs \<and>
     pa_invocation gate = \<lparr>iv_call_id = tc_id call, iv_tool_name = tc_name call, iv_arguments = tc_arguments call\<rparr>"
proof (induction cs arbitrary: snap tr s)
  case (Cons c cs)
  obtain x s1 where run: "run_tool sv dl snap c False s = (x, s1)" by (metis prod.exhaust)
  show ?case
  proof (cases x)
    case (Inl g)
    with Cons.prems run have "pend = c # cs" "gate = g" by auto
    moreover have "pa_invocation g = \<lparr>iv_call_id = tc_id c, iv_tool_name = tc_name c, iv_arguments = tc_arguments c\<rparr>"
      using run Inl by (auto simp: run_tool_def split: prod.splits sum.splits dest: execute_gate)
    ultimately show ?thesis by simp
  next
    case (Inr msg)
    with Cons.prems run obtain snap1 s2 where "tool_calls sv dl snap1 (tr @ [msg]) cs s2 = (Gated snap' tr' pend gate, s')"
      by (auto split: prod.splits)
    from Cons.IH [OF this] show ?thesis by (auto intro: suffix_ConsI)
  qed
qed simp

text \<open>A delegate that keeps the runs.\<close>

definition kept_delegate :: "(run_snap \<Rightarrow> 'v state delegate_fn) \<Rightarrow> bool" where
  "kept_delegate dl = (\<forall>snap h g s. runs_kept s (snd (dl snap h g s)))"

lemma after_calls_recorded:
  assumes "outside_respects runs_kept sv" and "kept_delegate dl" and "exists_run snap s"
    and "sn_step_count snap \<le> bound"
    and "after_calls (tool_calls sv dl snap tr cs s) = Ended s'"
  shows "recorded bound (sn_run snap) s'"
proof -
  obtain r s1 where calls: "tool_calls sv dl snap tr cs s = (r, s1)" by (metis prod.exhaust)
  with assms(5) obtain snap' tr' pend gate where g: "r = Gated snap' tr' pend gate"
    by (auto simp: after_calls_def split: calls_result.splits)
  from tool_calls_gated [OF calls [unfolded g]] obtain call rest where
    c: "pend = call # rest" "pa_invocation gate =
      \<lparr>iv_call_id = tc_id call, iv_tool_name = tc_name call, iv_arguments = tc_arguments call\<rparr>" by blast
  have snap: "same_run snap' snap" "sn_step_count snap' = sn_step_count snap"
    using tool_calls_snap [OF calls] g by simp_all
  have "runs_kept s s1"
    using kept.rel_tool_calls [where sv = sv and dl = dl and s = s and snap = snap and tr = tr and cs = cs] assms(1,2) calls by (simp add: kept_delegate_def)
  then have "exists_run snap' s1"
    using assms(3) snap(1) exists_kept by (metis exists_run_def same_run_def)
  then have "recorded bound (sn_run snap') (park_for_approval snap' tr' (call # rest) gate s1)"
    using snap assms(4) c by (intro park_recorded) simp_all
  then show ?thesis using assms(5) calls g c snap by (simp add: after_calls_def same_run_def)
qed

lemma turn_recorded:
  assumes "outside_respects runs_kept sv" and "kept_delegate dl" and "exists_run snap s"
    and "sn_step_count snap < bound" and "turn sv dl snap tr s = Ended s'"
  shows "recorded bound (sn_run snap) s'"
proof (cases "cancel_requested snap s")
  case True
  with assms have "s' = finish snap Cancelled None (Some ''cancelled by operator'') s"
    by (simp add: turn_def)
  then show ?thesis using assms by (auto intro!: finish_recorded simp: terminal_status_def)
next
  case False
  obtain x s1 where m: "model_turn sv snap tr s = (x, s1)" by (metis prod.exhaust)
  have k1: "runs_kept s s1" using kept.rel_model_turn [of sv s snap tr] assms(1) m by simp
  show ?thesis
  proof (cases x)
    case (Inl e)
    with False m assms have "s' = finish snap Failed None (Some (''runtime error: '' @ sv_exc_text sv e)) s1"
      by (simp add: turn_def)
    then show ?thesis using assms k1 exists_kept
      by (auto intro!: finish_recorded simp: terminal_status_def)
  next
    case (Inr p)
    obtain snap1 res where p: "p = (snap1, res)" by (cases p)
    let ?d = "[(''text'', JStr (take 2000 (cm_content (cs_message res)))),
        (''tool_calls'', JList (map tool_call_json (cm_tool_calls (cs_message res))))]"
    let ?snap2 = "snap1\<lparr>sn_step_count := sn_step_count snap1 + 1\<rparr>"
    obtain snap3 s2 where rec: "record_step Model_step (cs_usage res) ?d ?snap2 s1 = (snap3, s2)"
      by (metis prod.exhaust)
    have snap3: "same_run snap3 snap" "sn_step_count snap3 = sn_step_count snap + 1"
      using model_turn_snap [OF m [unfolded Inr p]] record_step_same [OF rec] by (auto simp: same_run_def)
    have "runs_kept s1 s2"
      using kept.rel_record_step [of sv s1 Model_step "cs_usage res" ?d ?snap2] assms(1) rec by simp
    then have ex: "exists_run snap3 s2"
      using assms(3) k1 snap3 exists_kept by (metis exists_run_def same_run_def)
    have le: "sn_step_count snap3 \<le> bound" using assms(4) snap3 by simp
    have id: "sn_run snap3 = sn_run snap" using snap3 by (simp add: same_run_def)
    show ?thesis
    proof (cases "cm_tool_calls (cs_message res) = []")
      case True
      with False m Inr p rec assms(5) have "s' = finish snap3 Succeeded (Some (cm_content (cs_message res))) None s2"
        by (simp add: turn_def Let_def)
      then show ?thesis using finish_recorded [OF ex, of Succeeded None bound "Some (cm_content (cs_message res))"] le id
        by (simp add: terminal_status_def)
    next
      case tools: False
      with False m Inr p rec assms(5)
      have "after_calls (tool_calls sv dl snap3 (tr @ [cs_message res]) (cm_tool_calls (cs_message res)) s2) = Ended s'"
        by (simp add: turn_def Let_def)
      from after_calls_recorded [OF assms(1,2) ex le this] id show ?thesis by simp
    qed
  qed
qed

lemma loop_recorded:
  assumes "outside_respects runs_kept sv" and "kept_delegate dl" and "exists_run snap s"
    and "sn_step_count snap \<le> bound" and "max_steps sv snap \<le> bound"
  shows "recorded bound (sn_run snap) (loop sv dl snap tr s)"
  using assms
proof (induction "nat (max_steps sv snap - sn_step_count snap)" arbitrary: snap tr s rule: less_induct)
  case less
  show ?case
  proof (cases "sn_step_count snap < max_steps sv snap")
    case False
    then show ?thesis using less.prems
      by (auto simp: loop.simps [of sv dl snap] terminal_status_def intro!: finish_recorded)
  next
    case True
    show ?thesis
    proof (cases "turn sv dl snap tr s")
      case (Ended s1)
      then show ?thesis using True less.prems turn_recorded [OF less.prems(1-3) _ Ended, of bound]
        by (simp add: loop.simps [of sv dl snap])
    next
      case (Continue snap1 tr1 s1)
      note sn = turn_snap [OF Continue]
      have "runs_kept s s1"
        using kept.rel_turn [where sv = sv and dl = dl and s = s and snap = snap and tr = tr] less.prems(1,2) Continue
        by (simp add: kept_delegate_def turn_state_def)
      then have ex: "exists_run snap1 s1"
        using less.prems(3) sn(1) exists_kept by (metis exists_run_def same_run_def)
      have ms: "max_steps sv snap1 = max_steps sv snap" using sn(1) by (rule same_run_max_steps)
      have "recorded bound (sn_run snap1) (loop sv dl snap1 tr1 s1)"
        using True ms sn(2) less.prems ex by (intro less.hyps) simp_all
      then show ?thesis using True Continue sn(1)
        by (simp add: loop.simps [of sv dl snap] same_run_def)
    qed
  qed
qed

lemma drive_recorded:
  assumes "outside_respects runs_kept sv" and "kept_delegate dl" and "exists_run snap s"
    and "sn_step_count snap \<le> bound" and "max_steps sv snap \<le> bound"
  shows "recorded bound (sn_run snap) (drive sv dl snap tr pend s)"
proof (cases "after_calls (tool_calls sv dl snap tr pend s)")
  case (Ended s1)
  then show ?thesis using after_calls_recorded [OF assms(1-4) Ended] by (simp add: drive_def)
next
  case (Continue snap1 tr1 s1)
  then obtain r where calls: "tool_calls sv dl snap tr pend s = (Calls_done snap1 tr1, s1)"
    by (auto simp: after_calls_def split: prod.splits calls_result.splits)
  have sn: "same_run snap1 snap" "sn_step_count snap1 = sn_step_count snap"
    using tool_calls_snap [OF calls] by simp_all
  have "runs_kept s s1"
    using kept.rel_tool_calls [where sv = sv and dl = dl and s = s and snap = snap and tr = tr and cs = pend] assms(1,2) calls by (simp add: kept_delegate_def)
  then have ex: "exists_run snap1 s1"
    using assms(3) sn(1) exists_kept by (metis exists_run_def same_run_def)
  have "recorded bound (sn_run snap1) (loop sv dl snap1 tr1 s1)"
    using ex sn assms same_run_max_steps [OF sn(1), of sv] by (intro loop_recorded) simp_all
  then show ?thesis using Continue sn(1) by (simp add: drive_def same_run_def)
qed


lemma claim_Some:
  assumes "keyed rn_id (runs (db s))" and "claim k frm s = (Some snap, s1)"
  shows "\<exists>r ss pf n. get_run k (db s) = Some r \<and> claimable frm r \<and> snap = snapshot r ss pf n \<and>
           get_profile (rn_profile r) (db s) = Some pf \<and>
           get_run k (db s1) = Some (grab_run frm (clock s) r) \<and> outside s1 = outside s \<and>
           approvals (db s1) = approvals (db s) \<and> messages (db s1) = messages (db s)"
proof -
  obtain won rows where cas: "cas_claim rn_id claimable grab_run k frm (clock s) (runs (db s)) = (won, rows)"
    by (metis prod.exhaust)
  then have won using assms(2) by (auto simp: claim_def Let_def split: if_splits)
  then obtain r where r: "get_run k (db s) = Some r" "claimable frm r"
    using run_claim.claim_won_iff [OF assms(1), of k frm "clock s"] cas by (auto simp: get_run_def)
  have row: "find_row rn_id k rows = Some (grab_run frm (clock s) r)"
    using run_claim.claim_row [of k frm "clock s" "runs (db s)"] cas r by (simp add: get_run_def)
  have snap: "snapshot (grab_run frm now r) ss pf n = snapshot r ss pf n" for now ss pf n
    by (simp add: snapshot_def grab_run_def)
  show ?thesis
    using assms(2) cas \<open>won\<close> r row
    by (auto simp: claim_def Let_def get_run_def get_session_def get_profile_def grab_run_def snap [unfolded grab_run_def]
        split: option.splits if_splits)
qed

lemma snapshot_sel [simp]:
  "sn_run (snapshot r ss pf n) = rn_id r" "sn_step_count (snapshot r ss pf n) = rn_step_count r"
  "sn_parent (snapshot r ss pf n) = rn_parent r" "sn_input_tokens (snapshot r ss pf n) = 0"
  "pf_max_steps (sn_profile (snapshot r ss pf n)) = ap_max_steps pf"
  "sn_output_tokens (snapshot r ss pf n) = 0"
  by (simp_all add: snapshot_def)

lemma claim_None:
  assumes "keyed rn_id (runs (db s))" and "claim k frm s = (None, s1)"
    and "get_run k (db s) = Some r" and "claimable frm r"
  shows "\<exists>r'. get_run k (db s1) = Some r' \<and> rn_status r' = Failed \<and> rn_finished_at r' \<noteq> None \<and>
           rn_checkpoint r' = None \<and> rn_step_count r' = rn_step_count r"
proof -
  obtain won rows where cas: "cas_claim rn_id claimable grab_run k frm (clock s) (runs (db s)) = (won, rows)"
    by (metis prod.exhaust)
  then have won
    using run_claim.claim_won_iff [OF assms(1), of k frm "clock s"] assms(3,4) by (auto simp: get_run_def)
  have row: "find_row rn_id k rows = Some (grab_run frm (clock s) r)"
    using run_claim.claim_row [of k frm "clock s" "runs (db s)"] cas assms(3,4) by (simp add: get_run_def)
  let ?f = "\<lambda>x. x\<lparr>rn_status := Failed, rn_error := Some ''session or agent profile no longer exists'',
      rn_finished_at := Some (clock s)\<rparr>"
  let ?s = "on_db (on_runs (\<lambda>_. rows)) s"
  have got: "get_run k (db ?s) = Some (grab_run frm (clock s) r)" using row by (simp add: get_run_def)
  have "s1 = update_run k ?f ?s"
    using assms(2) cas \<open>won\<close> got by (auto simp: claim_def Let_def split: option.splits)
  then have "get_run k (db s1) = Some (?f (grab_run frm (clock s) r))" using got by simp
  then show ?thesis by (simp add: grab_run_def)
qed

lemma build_transcript_db: "db (snd (build_transcript sv snap s)) = db s"
  by (auto simp: build_transcript_def Let_def split: prod.splits sum.splits)

lemma kept_top:
  assumes "outside_respects runs_kept sv"
  shows "kept_delegate (top_delegate sv)"
  using kept.rel_top_delegate [of sv] assms by (simp add: kept_delegate_def)

lemma execute_with_recorded:
  assumes "outside_respects runs_kept sv" and "kept_delegate dl" and "keyed rn_id (runs (db s))"
    and "get_run k (db s) = Some r" and "rn_status r = Queued"
    and "execute_with dl sv k s = (esc, s')"
  shows "\<exists>r'. get_run k (db s') = Some r' \<and> run_identity r' = run_identity r \<and>
    (case esc of
       Some e \<Rightarrow> rn_status r' = Running \<and> rn_step_count r' = rn_step_count r
     | None \<Rightarrow>
         (case get_profile (rn_profile r) (db s) of
            None \<Rightarrow> rn_status r' = Failed
          | Some pf \<Rightarrow>
              rn_step_count r' \<le> max (rn_step_count r)
                (case ap_max_steps pf of None \<Rightarrow> sv_max_run_steps sv
                   | Some n \<Rightarrow> if n = 0 then sv_max_run_steps sv else n)) \<and>
         (terminal_status (rn_status r') \<and> rn_finished_at r' \<noteq> None \<and> rn_checkpoint r' = None \<or>
          rn_status r' = Awaiting_approval \<and> parked_on k r' (db s')))"
proof -
  have "runs_kept s s'"
    using kept.rel_execute_with [where sv = sv and dl = dl and s = s and k = k] assms(1,2,6) by (simp add: kept_delegate_def)
  then obtain r' where r': "get_run k (db s') = Some r'" "run_identity r' = run_identity r"
    using assms(4) by (auto simp: runs_kept_def)
  have claimable: "claimable From_queued r" using assms(5) by (simp add: claimable_def)
  obtain x s1 where c: "claim k From_queued s = (x, s1)" by (metis prod.exhaust)
  show ?thesis
  proof (cases x)
    case None
    from claim_None [OF assms(3) c [unfolded None] assms(4) claimable] obtain r1 where
      r1: "get_run k (db s1) = Some r1" "rn_status r1 = Failed" "rn_finished_at r1 \<noteq> None"
        "rn_checkpoint r1 = None" "rn_step_count r1 = rn_step_count r" by blast
    have "s' = s1" "esc = None" using assms(6) c None by (simp_all add: execute_with_def)
    with r1 r' show ?thesis by (auto simp: terminal_status_def split: option.splits)
  next
    case (Some snap)
    from claim_Some [OF assms(3) c [unfolded Some]] assms(4) obtain ss pf n where
      snap: "snap = snapshot r ss pf n" and row: "get_run k (db s1) = Some (grab_run From_queued (clock s) r)"
      and pf: "get_profile (rn_profile r) (db s) = Some pf" by auto
    have id: "sn_run snap = k" using snap assms(4) by (auto simp: get_run_def dest: find_row_Some)
    let ?s2 = "emit snap RUN_STARTED [(''goal'', JStr (sn_goal snap))] s1"
    obtain y s3 where b: "build_transcript sv snap ?s2 = (y, s3)" by (metis prod.exhaust)
    have db3: "db s3 = db s1" using build_transcript_db [of sv snap ?s2] b by simp
    show ?thesis
    proof (cases y)
      case (Inl e)
      then have "s' = s3" "esc = Some e" using assms(6) c Some b by (simp_all add: execute_with_def Let_def)
      then show ?thesis using r' row db3 by (auto simp: grab_run_def)
    next
      case (Inr tr)
      then have s': "s' = drive sv dl snap tr [] s3" "esc = None"
        using assms(6) c Some b by (simp_all add: execute_with_def Let_def)
      have "exists_run snap s3" using row db3 id by (simp add: exists_run_def)
      then have "recorded (max (sn_step_count snap) (max_steps sv snap)) (sn_run snap) s'"
        unfolding s' by (intro drive_recorded assms) simp_all
      then have "recorded_run (max (rn_step_count r) (max_steps sv snap)) k r' (db s')"
        using r' id by (simp add: recorded_def snap)
      then show ?thesis using r' s' pf
        by (auto simp: recorded_run_def max_steps_def snap split: if_splits)
    qed
  qed
qed

lemma execute_run_eq: "execute_run sv = execute_with (top_delegate sv) sv"
  by (simp add: execute_run_def top_delegate_def execute_at.simps)

text \<open>C1.  A run never ends without a recorded outcome: executing a queued run leaves it either
  terminal, with a finishing time and no checkpoint, or parked on a gated call that comes first
  in its checkpoint and has its approval request pending; and it charges at most the step
  budget of its agent.  The one exception is an exception: when the context cannot be built (the
  embedding provider fails), the call raises and the run stays \<open>running\<close>.\<close>

theorem run_ends_recorded:
  assumes "outside_respects runs_kept sv" and "keyed rn_id (runs (db s))"
    and "get_run k (db s) = Some r" and "rn_status r = Queued"
    and "execute_run sv k s = (esc, s')"
  shows "\<exists>r'. get_run k (db s') = Some r' \<and> run_identity r' = run_identity r \<and>
    (case esc of
       Some e \<Rightarrow> rn_status r' = Running \<and> rn_step_count r' = rn_step_count r
     | None \<Rightarrow>
         (case get_profile (rn_profile r) (db s) of
            None \<Rightarrow> rn_status r' = Failed
          | Some pf \<Rightarrow>
              rn_step_count r' \<le> max (rn_step_count r)
                (case ap_max_steps pf of None \<Rightarrow> sv_max_run_steps sv
                   | Some n \<Rightarrow> if n = 0 then sv_max_run_steps sv else n)) \<and>
         (terminal_status (rn_status r') \<and> rn_finished_at r' \<noteq> None \<and> rn_checkpoint r' = None \<or>
          rn_status r' = Awaiting_approval \<and> parked_on k r' (db s')))"
  by (rule execute_with_recorded [OF assms(1) kept_top [OF assms(1)] assms(2-4)
        assms(5) [unfolded execute_run_eq]])


lemma demo_recall:
  "memories d = [] \<Longrightarrow> recall (sv_timing demo_services) ws q p n m d (lab_router calls) 0
   = (Inr [], put_breaker ''lab'' (Some (record_success (new_breaker 5 30 ''lab''))) (lab_router calls), 0)"
  by (simp add: recall_def embed_one_def embed_def lab_router_def make_router_def resolve_def alias_of_def
      part_before_def part_after_def Let_def lab_provider_def link_call_def call_with_resilience_def
      breaker_for_def demo_services_def default_retry_policy_def rank_memories_def demo_db_def
      empty_database_def allows_call_def state_at_def new_breaker_def update_breaker_def numeral_eq_Suc)

definition demo_claimed :: "tool_call list \<Rightarrow> nat state" where
  "demo_claimed calls = snd (claim ''r1'' From_queued (demo_state calls Queued))"

definition demo_snap :: run_snap where
  "demo_snap = snapshot (demo_run Queued) demo_session demo_profile 0"

lemma demo_claim: "claim ''r1'' From_queued (demo_state calls Queued) = (Some demo_snap, demo_claimed calls)"
  by (simp add: demo_claimed_def claim_def cas_claim_def claimable_def grab_run_def demo_defs snapshot_def
      demo_snap_def Let_def)

lemma demo_built:
  assumes "memories (db s) = []" and "outside s = \<lparr>bk_router = lab_router calls, bk_vendors = 0, bk_jobs = []\<rparr>"
  shows "\<exists>tr s'. build_transcript demo_services snap s = (Inr tr, s')"
  using demo_recall [OF assms(1)] assms(2) by (simp add: build_transcript_def Let_def)

lemma demo_claimed_sel [simp]:
  "memories (db (demo_claimed calls)) = []"
  "outside (demo_claimed calls) = \<lparr>bk_router = lab_router calls, bk_vendors = 0, bk_jobs = []\<rparr>"
  by (simp_all add: demo_claimed_def claim_def cas_claim_def claimable_def grab_run_def demo_defs
      on_runs_def Let_def)

lemma demo_returns: "fst (execute_run demo_services ''r1'' (demo_state calls Queued)) = None"
proof -
  let ?s = "emit demo_snap RUN_STARTED [(''goal'', JStr (sn_goal demo_snap))] (demo_claimed calls)"
  obtain tr s' where "build_transcript demo_services demo_snap ?s = (Inr tr, s')"
    using demo_built [of ?s calls demo_snap] by auto
  then show ?thesis by (simp add: execute_run_eq execute_with_def demo_claim Let_def)
qed

theorem run_ends_recorded_witness:
  "\<exists>r'. get_run ''r1'' (db (snd (execute_run demo_services ''r1'' (demo_state [wipe_call] Queued)))) = Some r' \<and>
     rn_step_count r' \<le> 1 \<and> rn_status r' \<in> {Succeeded, Failed, Cancelled, Awaiting_approval}"
proof -
  let ?s = "demo_state [wipe_call] Queued"
  obtain s' where run: "execute_run demo_services ''r1'' ?s = (None, s')"
    using demo_returns [of "[wipe_call]"] by (metis prod.collapse)
  have row: "get_run ''r1'' (db ?s) = Some (demo_run Queued)" "rn_status (demo_run Queued) = Queued"
    and pf: "get_profile (rn_profile (demo_run Queued)) (db ?s) = Some demo_profile"
    by (simp_all add: demo_defs)
  from run_ends_recorded [OF demo_respects demo_keyed row run] pf
  obtain r' where r': "get_run ''r1'' (db s') = Some r'"
    "rn_step_count r' \<le> max (rn_step_count (demo_run Queued))
       (case ap_max_steps demo_profile of None \<Rightarrow> sv_max_run_steps demo_services
          | Some n \<Rightarrow> if n = 0 then sv_max_run_steps demo_services else n)"
    "terminal_status (rn_status r') \<or> rn_status r' = Awaiting_approval"
    by auto
  then show ?thesis using run by (auto simp: demo_defs terminal_status_def)
qed

definition parked_state :: "tool_call list \<Rightarrow> nat state" where
  "parked_state calls = (demo_state calls Awaiting_approval)\<lparr>db := (demo_db Awaiting_approval)\<lparr>
     runs := [(demo_run Awaiting_approval)\<lparr>rn_step_count := 1,
        rn_checkpoint := Some \<lparr>ck_messages = [plain_message USER ''tidy up''], ck_pending = [wipe_call]\<rparr>\<rparr>],
     approvals := [\<lparr>ar_id = ''a1'', ar_created = 3, ar_workspace = ''w1'', ar_run = ''r1'', ar_tool_name = ''wipe'',
        ar_arguments = [], ar_reason = ''gate'', ar_status = Pending_decision, ar_decided_by = None,
        ar_decided_at = None\<rparr>]\<rparr>\<rparr>"

definition parked_run :: run where
  "parked_run = (demo_run Awaiting_approval)\<lparr>rn_step_count := 1,
     rn_checkpoint := Some \<lparr>ck_messages = [plain_message USER ''tidy up''], ck_pending = [wipe_call]\<rparr>\<rparr>"

lemma parked_state_facts:
  "keyed rn_id (runs (db (parked_state calls)))"
  "get_run ''r1'' (db (parked_state calls)) = Some parked_run"
  "rn_status parked_run = Awaiting_approval"
  "get_session (rn_session parked_run) (db (parked_state calls)) \<noteq> None"
  "get_profile (rn_profile parked_run) (db (parked_state calls)) = Some demo_profile"
  "parked_on ''r1'' parked_run (db (parked_state calls))"
  "rn_checkpoint parked_run = Some \<lparr>ck_messages = [plain_message USER ''tidy up''], ck_pending = [wipe_call]\<rparr>"
  "rn_step_count parked_run = 1"
  by (simp_all add: parked_state_def parked_run_def demo_defs parked_on_def wipe_call_def)

text \<open>The tables other than runs and run steps.\<close>

definition other_tables :: "database \<Rightarrow> database" where
  "other_tables d = d\<lparr>runs := [], run_steps := []\<rparr>"

lemma other_tables_simps [simp]:
  "other_tables (on_runs f d) = other_tables d" "other_tables (d\<lparr>run_steps := x\<rparr>) = other_tables d"
  by (simp_all add: other_tables_def on_runs_def)

text \<open>C5.  A denied call is not executed: when the operator denies, the loop goes on with the
  denial as the call's result, one tool step is recorded, and nothing but the rows of runs and run
  steps has changed: no tool ran, nothing outside the service was touched.\<close>

theorem denied_call_not_executed:
  assumes "keyed rn_id (runs (db s))" and "get_run k (db s) = Some r" and "rn_status r = Awaiting_approval"
    and "rn_checkpoint r = Some \<lparr>ck_messages = msgs, ck_pending = call # rest\<rparr>"
    and "claim k From_awaiting s = (Some snap, s1)"
  shows "\<exists>snap1 s2. resume_run sv k False s =
            drive sv (top_delegate sv) snap1 (msgs @ [tool_message call denial_text]) rest s2 \<and>
          same_run snap1 snap \<and> sn_step_count snap1 = rn_step_count r \<and> outside s2 = outside s \<and>
          other_tables (db s2) = other_tables (db s) \<and>
          length (run_steps (db s2)) = Suc (length (run_steps (db s)))"
proof -
  let ?d = "[(''call'', tool_call_json call), (''approved'', JBool False)]"
  let ?s1 = "emit snap RUN_STEP [(''tool'', JStr (tc_name call)), (''ok'', JBool False),
      (''summary'', JStr ''denied by operator'')] s1"
  obtain snap1 s2 where rec: "record_step Tool_step no_usage ?d snap ?s1 = (snap1, s2)" by (metis prod.exhaust)
  have res: "resume_run sv k False s =
      drive sv (top_delegate sv) snap1 (msgs @ [tool_message call denial_text]) rest s2"
    using assms rec by (simp add: resume_run_def resume_gated_def gated_message_def)
  from claim_Some [OF assms(1,5)] assms(2) obtain ss pf n where
    snap: "snap = snapshot r ss pf n" and out: "outside s1 = outside s" by auto
  have db1: "other_tables (db s1) = other_tables (db s)" "run_steps (db s1) = run_steps (db s)"
    using assms(5) by (auto simp: claim_def Let_def update_run_def
        split: prod.splits option.splits if_splits)
  have db2: "other_tables (db s2) = other_tables (db s1)"
    "length (run_steps (db s2)) = Suc (length (run_steps (db s1)))" "outside s2 = outside s1"
    using rec by (auto simp: record_step_def Let_def update_run_def)
  have "same_run snap1 snap" "sn_step_count snap1 = rn_step_count r"
    using record_step_same [OF rec] by (simp_all add: snap)
  with res out db1 db2 show ?thesis by auto
qed


theorem denied_call_not_executed_witness:
  "\<exists>snap1 s2. resume_run demo_services ''r1'' False (parked_state []) =
      drive demo_services (top_delegate demo_services) snap1
        ([plain_message USER ''tidy up''] @ [tool_message wipe_call denial_text]) [] s2 \<and>
    outside s2 = outside (parked_state [])"
proof -
  let ?s = "parked_state []"
  have "fst (claim ''r1'' From_awaiting ?s) \<noteq> None"
    using claim_wins_iff [OF parked_state_facts(1), of "''r1''" From_awaiting "[]"] parked_state_facts
    by (auto simp: claimable_def)
  then obtain snap s1 where "claim ''r1'' From_awaiting ?s = (Some snap, s1)" by (metis not_None_eq prod.collapse)
  from denied_call_not_executed [OF parked_state_facts(1,2,3,7) this] show ?thesis by blast
qed

section \<open>Cancellation\<close>

lemma emit_deltas_db [simp]: "db (emit_deltas snap ds s) = db s"
  by (induction snap ds s rule: emit_deltas.induct) auto

lemma cancel_kept:
  assumes "cancel_requested snap s" and "flags_kept s s'" and "sn_run snap' = sn_run snap"
  shows "cancel_requested snap' s'"
proof -
  from assms(1) obtain r where "get_run (sn_run snap) (db s) = Some r" "rn_cancel_requested r"
    by (auto simp: cancel_requested_def split: option.splits)
  with assms(2) obtain r' where "get_run (sn_run snap) (db s') = Some r'" "rn_cancel_requested r'"
    by (auto simp: flags_kept_def)
  with assms(3) show ?thesis by (simp add: cancel_requested_def)
qed

text \<open>A request that arrives while the model call of a turn is outstanding is seen at its end.\<close>

lemma turn_cancels:
  assumes "outside_respects flags_kept sv" and "\<And>snap h g s. flags_kept s (snd (dl snap h g s))"
    and "model_turn sv snap tr s = (x, s1)" and "cancel_requested snap s1"
    and "turn sv dl snap tr s = Continue snap' tr' s'"
  shows "cancel_requested snap' s'"
proof -
  from assms(3,5) obtain snap1 res where m: "model_turn sv snap tr s = (Inr (snap1, res), s1)"
    by (auto simp: turn_def split: if_splits prod.splits sum.splits)
  let ?d = "[(''text'', JStr (take 2000 (cm_content (cs_message res)))),
        (''tool_calls'', JList (map tool_call_json (cm_tool_calls (cs_message res))))]"
  let ?snap2 = "snap1\<lparr>sn_step_count := sn_step_count snap1 + 1\<rparr>"
  obtain snap3 s2 where rec: "record_step Model_step (cs_usage res) ?d ?snap2 s1 = (snap3, s2)"
    by (metis prod.exhaust)
  from assms(5) m rec have t: "tool_calls sv dl snap3 (tr @ [cs_message res]) (cm_tool_calls (cs_message res)) s2
      = (Calls_done snap' tr', s')"
    by (auto simp: turn_def after_calls_def Let_def split: if_splits prod.splits calls_result.splits)
  have "flags_kept s1 s2" using flags.rel_record_step [of sv s1 Model_step "cs_usage res" ?d ?snap2] assms(1) rec by simp
  then have c2: "cancel_requested snap s2" using assms(4) cancel_kept by blast
  have "flags_kept s2 s'"
    using flags.rel_tool_calls [where sv = sv and dl = dl and s = s2 and snap = snap3 and
        tr = "tr @ [cs_message res]" and cs = "cm_tool_calls (cs_message res)"] assms(1,2) t
    by simp
  moreover have "sn_run snap' = sn_run snap" using turn_snap(1) [OF assms(5)] by (simp add: same_run_def)
  ultimately show ?thesis using c2 cancel_kept by blast
qed

text \<open>The configuration in which the loop of a run starts, and those at which it comes back to
  its condition, turn after turn.\<close>

definition loop_start :: "'v services \<Rightarrow> ident \<Rightarrow> 'v state \<Rightarrow> (run_snap \<times> chat_message list \<times> 'v state) option" where
  "loop_start sv k s =
     (case claim k From_queued s of
        (None, s1) \<Rightarrow> None
      | (Some snap, s1) \<Rightarrow>
          (case build_transcript sv snap (emit snap RUN_STARTED [(''goal'', JStr (sn_goal snap))] s1) of
             (Inl e, s2) \<Rightarrow> None
           | (Inr tr, s2) \<Rightarrow> Some (snap, tr, s2)))"

inductive turn_path ::
  "'v services \<Rightarrow> (run_snap \<Rightarrow> 'v state delegate_fn) \<Rightarrow> run_snap \<Rightarrow> chat_message list \<Rightarrow> 'v state
     \<Rightarrow> run_snap \<Rightarrow> chat_message list \<Rightarrow> 'v state \<Rightarrow> bool"
  for sv :: "'v services" and dl :: "run_snap \<Rightarrow> 'v state delegate_fn" and snap0 :: run_snap
    and tr0 :: "chat_message list" and s0 :: "'v state" where
  path_start: "turn_path sv dl snap0 tr0 s0 snap0 tr0 s0"
| path_turn: "turn_path sv dl snap0 tr0 s0 snap tr s \<Longrightarrow> sn_step_count snap < max_steps sv snap \<Longrightarrow>
    turn sv dl snap tr s = Continue snap' tr' s' \<Longrightarrow> turn_path sv dl snap0 tr0 s0 snap' tr' s'"

lemma path_loop: "turn_path sv dl snap0 tr0 s0 snap tr s \<Longrightarrow> loop sv dl snap0 tr0 s0 = loop sv dl snap tr s"
proof (induction rule: turn_path.induct)
  case (path_turn snap tr s snap' tr' s')
  then show ?case by (simp add: loop.simps [of sv dl snap])
qed simp

lemma path_kept:
  assumes "turn_path sv dl snap0 tr0 s0 snap tr s" and "outside_respects runs_kept sv" and "kept_delegate dl"
    and "exists_run snap0 s0"
  shows "sn_run snap = sn_run snap0 \<and> exists_run snap s"
  using assms
proof (induction rule: turn_path.induct)
  case (path_turn snap tr s snap' tr' s')
  have "runs_kept s s'"
    using kept.rel_turn [where sv = sv and dl = dl and s = s and snap = snap and tr = tr] path_turn
    by (simp add: kept_delegate_def turn_state_def)
  moreover have "sn_run snap' = sn_run snap"
    using turn_snap(1) [OF path_turn.hyps(3)] by (simp add: same_run_def)
  moreover have "exists_run snap s" "sn_run snap = sn_run snap0" using path_turn by simp_all
  moreover have "exists_run snap s'" by (rule exists_kept [OF calculation(3,1)])
  ultimately show ?case by (simp add: exists_run_def)
qed simp

lemma loop_start_run:
  assumes "keyed rn_id (runs (db s))" and "loop_start sv k s = Some (snap, tr, s1)"
  shows "execute_run sv k s = (None, loop sv (top_delegate sv) snap tr s1)" and "sn_run snap = k"
    and "exists_run snap s1"
proof -
  obtain s2 where c: "claim k From_queued s = (Some snap, s2)" and
    b: "build_transcript sv snap (emit snap RUN_STARTED [(''goal'', JStr (sn_goal snap))] s2) = (Inr tr, s1)"
    using assms(2) by (auto simp: loop_start_def split: prod.splits option.splits sum.splits)
  show "execute_run sv k s = (None, loop sv (top_delegate sv) snap tr s1)"
    using c b by (simp add: execute_run_eq execute_with_def Let_def drive_def after_calls_def)
  show id: "sn_run snap = k" by (rule claim_id [OF c])
  have "db s1 = db s2"
    using build_transcript_db [of sv snap "emit snap RUN_STARTED [(''goal'', JStr (sn_goal snap))] s2"] b by simp
  then show "exists_run snap s1" using claim_Some [OF assms(1) c] id by (auto simp: exists_run_def)
qed

text \<open>How the loop ends that finds its run cancelled when it comes back to its condition.\<close>

definition stopped :: "'v services \<Rightarrow> run_snap \<Rightarrow> 'v state \<Rightarrow> 'v state" where
  "stopped sv snap s =
     (if sn_step_count snap < max_steps sv snap
      then finish snap Cancelled None (Some ''cancelled by operator'') s
      else finish snap Failed None
             (Some (''step limit reached ('' @ show_int (max_steps sv snap) @ '') before a final answer'')) s)"

lemma loop_stopped: "cancel_requested snap s \<Longrightarrow> loop sv dl snap tr s = stopped sv snap s"
  by (simp add: loop.simps [of sv dl snap] turn_def stopped_def)

lemma stopped_recorded:
  "exists_run snap s \<Longrightarrow> recorded (sn_step_count snap) (sn_run snap) (stopped sv snap s)"
  by (auto simp: stopped_def terminal_status_def intro!: finish_recorded)

text \<open>C9.  Cancellation takes effect at the next step boundary, at whatever turn it arrives.  Take any
  turn that the execution of a queued run reaches.  If the request is there when the turn would start
  (it arrived before, or while the tools of the turn before ran), no model is called: the run ends
  there and then as cancelled.  If it arrives while the model call of the turn is outstanding, that
  turn is the last: the run ends with it, or stops at the boundary after it without another model
  call.  Either way it ends recorded, and no more than that one turn is charged.\<close>

theorem cancel_stops_at_step_boundary:
  assumes "outside_respects flags_kept sv" and "outside_respects runs_kept sv" and "keyed rn_id (runs (db s))"
    and "loop_start sv k s = Some (snap0, tr0, s0)"
    and "turn_path sv (top_delegate sv) snap0 tr0 s0 snap tr s1" and "sn_step_count snap < max_steps sv snap"
    and "model_turn sv snap tr s1 = (x, s2)" and "cancel_requested snap s1 \<or> cancel_requested snap s2"
  shows "execute_run sv k s = (None,
       if cancel_requested snap s1 then finish snap Cancelled None (Some ''cancelled by operator'') s1
       else case turn sv (top_delegate sv) snap tr s1 of
            Ended t \<Rightarrow> t
          | Continue snap' tr' t \<Rightarrow> stopped sv snap' t) \<and>
    recorded (if cancel_requested snap s1 then sn_step_count snap else sn_step_count snap + 1) k
      (snd (execute_run sv k s))"
proof -
  let ?dl = "top_delegate sv"
  note start = loop_start_run [OF assms(3,4)]
  note dl = kept_top [OF assms(2)]
  have run: "execute_run sv k s = (None, loop sv ?dl snap tr s1)"
    using start(1) path_loop [OF assms(5)] by simp
  have id: "sn_run snap = k" and ex: "exists_run snap s1"
    using path_kept [OF assms(5,2) dl start(3)] start(2) by simp_all
  show ?thesis
  proof (cases "cancel_requested snap s1")
    case True
    then have "loop sv ?dl snap tr s1 = finish snap Cancelled None (Some ''cancelled by operator'') s1"
      using loop_stopped [OF True, of sv ?dl tr] assms(6) by (simp add: stopped_def)
    moreover have "recorded (sn_step_count snap) k (finish snap Cancelled None (Some ''cancelled by operator'') s1)"
      using finish_recorded [OF ex, of Cancelled "Some ''cancelled by operator''" "sn_step_count snap" None] id
      by (simp add: terminal_status_def)
    ultimately show ?thesis using True run by simp
  next
    case False
    then have c2: "cancel_requested snap s2" using assms(8) by simp
    show ?thesis
    proof (cases "turn sv ?dl snap tr s1")
      case (Ended t)
      with False run assms(6) id turn_recorded [OF assms(2) dl ex _ Ended, of "sn_step_count snap + 1"]
      show ?thesis by (simp add: loop.simps [of sv ?dl snap])
    next
      case (Continue snap' tr' t)
      have "flags_kept s (snd (?dl snap h g s))" for snap h g s
        using flags.rel_top_delegate [of sv s snap h g] assms(1) by simp
      from turn_cancels [OF assms(1) this assms(7) c2 Continue] have c: "cancel_requested snap' t" .
      have "exists_run snap' t" using c by (auto simp: cancel_requested_def exists_run_def split: option.splits)
      moreover have "sn_run snap' = k" using turn_snap(1) [OF Continue] id by (simp add: same_run_def)
      ultimately have "recorded (sn_step_count snap') k (stopped sv snap' t)" using stopped_recorded by metis
      moreover have "loop sv ?dl snap tr s1 = stopped sv snap' t"
        using assms(6) Continue loop_stopped [OF c] by (simp add: loop.simps [of sv ?dl snap])
      ultimately show ?thesis using False run Continue turn_snap(2) [OF Continue] by simp
    qed
  qed
qed

lemma lab_router_calm:
  "put_breaker ''lab'' (Some (record_success (new_breaker 5 30 ''lab''))) (lab_router calls) = lab_router calls"
  "select_stream now ''chat'' req (lab_router calls) = (Inr (lab_provider calls, req\<lparr>cq_model := ''m''\<rparr>), lab_router calls)"
  "note_stream_outcome now ''chat'' True (lab_router calls) = lab_router calls"
  by (simp_all add: lab_router_def make_router_def put_breaker_def record_success_def new_breaker_def
      select_stream_def chain_def alias_of_def resolve_def part_before_def part_after_def Let_def lab_provider_def
      breaker_for_def allows_call_def state_at_def note_stream_outcome_def)

text \<open>A model turn against the lab provider, when the other connections leave the router alone.\<close>

definition lab_asked :: "tool_call list \<Rightarrow> nat state \<Rightarrow> nat state" where
  "lab_asked calls = on_backend (\<lambda>b. b\<lparr>bk_router := lab_router calls, bk_vendors := Suc (bk_vendors b)\<rparr>)"

lemma lab_model_turn:
  assumes "pf_model_alias (sn_profile snap) = ''chat''" and "bk_router (outside s) = lab_router calls"
    and "\<And>s. outside (sv_meanwhile sv s) = outside s"
  shows "\<exists>snap' s'. model_turn sv snap tr s = (Inr (snap', demo_result calls), s') \<and>
     outside s' = (outside s)\<lparr>bk_router := lab_router calls, bk_vendors := Suc (bk_vendors (outside s))\<rparr> \<and>
     db s' = db (sv_meanwhile sv (lab_asked calls s))"
  using assms
  by (auto simp: model_turn_def Let_def lab_router_calm lab_provider_def note_stream_def on_backend_def lab_asked_def)

text \<open>A deployment whose model always asks for a tool that is not there, and in which the operator
  cancels during the second model call.\<close>

definition ghost_call :: tool_call where
  "ghost_call = \<lparr>tc_id = ''c1'', tc_name = ''ghost'', tc_arguments = []\<rparr>"

definition ghost_state :: "nat state" where
  "ghost_state = (demo_state [ghost_call] Queued)\<lparr>db := (demo_db Queued)\<lparr>
     profiles := [demo_profile\<lparr>ap_max_steps := None\<rparr>]\<rparr>\<rparr>"

definition cancelling_services :: "nat services" where
  "cancelling_services = demo_services\<lparr>sv_meanwhile := (\<lambda>s. if bk_vendors (outside s) < 2 then s
     else update_run ''r1'' (\<lambda>r. r\<lparr>rn_cancel_requested := True\<rparr>) s)\<rparr>"

lemma cancelling_respects:
  "outside_respects runs_kept cancelling_services" "outside_respects flags_kept cancelling_services"
proof -
  let ?f = "\<lambda>r. r\<lparr>rn_cancel_requested := True\<rparr>"
  have row: "get_run k (db (update_run ''r1'' ?f s)) =
      map_option (\<lambda>r. if rn_id r = ''r1'' then ?f r else r) (get_run k (db s))" for k and s :: "nat state"
    by (simp add: update_run_def get_run_def find_row_update_where)
  have "runs_kept s (update_run ''r1'' ?f s)" "flags_kept s (update_run ''r1'' ?f s)" for s :: "nat state"
    unfolding runs_kept_def flags_kept_def row by (auto simp: run_identity_def)
  moreover have "runs_kept s (on_backend f s)" "flags_kept s (on_backend f s)" "runs_kept s s" "flags_kept s s"
    for s :: "nat state" and f
    by (simp_all add: runs_kept_def flags_kept_def)
  ultimately show "outside_respects runs_kept cancelling_services" "outside_respects flags_kept cancelling_services"
    by (simp_all add: outside_respects_def cancelling_services_def demo_services_def wipe_tool_def)
qed

lemma ghost_tool:
  "\<exists>m p. run_tool cancelling_services dl snap ghost_call False s = (Inr m, emit snap RUN_STEP p s)"
  by (auto simp: run_tool_def execute_def Let_def ghost_call_def cancelling_services_def demo_services_def get_tool_def)

lemma ghost_turn:
  assumes "pf_model_alias (sn_profile snap) = ''chat''" and "bk_router (outside s) = lab_router [ghost_call]"
    and "\<not> cancel_requested snap s"
  shows "\<exists>snap' tr' s'. turn cancelling_services dl snap tr s = Continue snap' tr' s' \<and>
    outside s' = (outside s)\<lparr>bk_router := lab_router [ghost_call], bk_vendors := Suc (bk_vendors (outside s))\<rparr>"
proof -
  have "outside (sv_meanwhile cancelling_services s) = outside s" for s by (simp add: cancelling_services_def)
  from lab_model_turn [OF assms(1,2) this, of tr] obtain snap1 s1 where
    m: "model_turn cancelling_services snap tr s = (Inr (snap1, demo_result [ghost_call]), s1)" and
    o1: "outside s1 = (outside s)\<lparr>bk_router := lab_router [ghost_call], bk_vendors := Suc (bk_vendors (outside s))\<rparr>"
    by blast
  have calls: "cm_tool_calls (cs_message (demo_result [ghost_call])) = [ghost_call]" by (simp add: demo_result_def)
  let ?r = "demo_result [ghost_call]"
  obtain snap3 s2 where rec: "record_step Model_step (cs_usage ?r)
     [(''text'', JStr (take 2000 (cm_content (cs_message ?r)))), (''tool_calls'', JList (map tool_call_json [ghost_call]))]
     (snap1\<lparr>sn_step_count := sn_step_count snap1 + 1\<rparr>) s1 = (snap3, s2)" by (metis prod.exhaust)
  obtain m2 p where tool: "run_tool cancelling_services dl snap3 ghost_call False s2 = (Inr m2, emit snap3 RUN_STEP p s2)"
    using ghost_tool by blast
  obtain snap4 s4 where rec2: "record_step Tool_step no_usage [(''call'', tool_call_json ghost_call)] snap3
     (emit snap3 RUN_STEP p s2) = (snap4, s4)" by (metis prod.exhaust)
  have "turn cancelling_services dl snap tr s = Continue snap4 ((tr @ [cs_message ?r]) @ [m2]) s4"
    using assms(3) m calls rec tool rec2 by (simp add: turn_def Let_def after_calls_def)
  moreover have "outside s4 = outside s1" using rec rec2 by (auto simp: record_step_def Let_def)
  ultimately show ?thesis using o1 by simp
qed

lemma build_transcript_cong:
  assumes "sv_timing a = sv_timing b" and "sv_token_budget a = sv_token_budget b"
  shows "build_transcript a = build_transcript b"
  by (intro ext) (unfold build_transcript_def assms, rule refl)

lemma ghost_start:
  "\<exists>snap tr s. loop_start cancelling_services ''r1'' ghost_state = Some (snap, tr, s) \<and>
     snap = snapshot (demo_run Queued) demo_session (demo_profile\<lparr>ap_max_steps := None\<rparr>) 0 \<and>
     \<not> cancel_requested snap s \<and> outside s = \<lparr>bk_router = lab_router [ghost_call], bk_vendors = 0, bk_jobs = []\<rparr>"
proof -
  let ?snap = "snapshot (demo_run Queued) demo_session (demo_profile\<lparr>ap_max_steps := None\<rparr>) 0"
  obtain s1 where c: "claim ''r1'' From_queued ghost_state = (Some ?snap, s1)" and s1: "memories (db s1) = []"
    "outside s1 = \<lparr>bk_router = lab_router [ghost_call], bk_vendors = 0, bk_jobs = []\<rparr>" "\<not> cancel_requested ?snap s1"
    by (simp add: claim_def cas_claim_def claimable_def grab_run_def demo_defs snapshot_def ghost_state_def
        cancel_requested_def on_runs_def Let_def)
  let ?s = "emit ?snap RUN_STARTED [(''goal'', JStr (sn_goal ?snap))] s1"
  have "build_transcript cancelling_services = build_transcript demo_services"
    by (rule build_transcript_cong) (simp_all add: cancelling_services_def)
  moreover obtain tr s2 where "build_transcript demo_services ?snap ?s = (Inr tr, s2)"
    "outside s2 = \<lparr>bk_router = lab_router [ghost_call], bk_vendors = 0, bk_jobs = []\<rparr>" "db s2 = db s1"
    using s1(1,2) demo_recall [of "db s1"]
    by (simp add: build_transcript_def Let_def lab_router_calm on_backend_def)
  ultimately show ?thesis using c s1(3)
    by (simp add: loop_start_def cancel_requested_def)
qed

theorem cancel_stops_at_step_boundary_witness:
  "\<exists>r'. get_run ''r1'' (db (snd (execute_run cancelling_services ''r1'' ghost_state))) = Some r' \<and>
     rn_step_count r' \<le> 2 \<and> (terminal_status (rn_status r') \<or> rn_status r' = Awaiting_approval)"
proof -
  let ?sv = "cancelling_services" and ?dl = "top_delegate cancelling_services"
  obtain snap0 tr0 s0 where start: "loop_start ?sv ''r1'' ghost_state = Some (snap0, tr0, s0)" and
    snap0: "snap0 = snapshot (demo_run Queued) demo_session (demo_profile\<lparr>ap_max_steps := None\<rparr>) 0" and
    calm: "\<not> cancel_requested snap0 s0" and
    out0: "outside s0 = \<lparr>bk_router = lab_router [ghost_call], bk_vendors = 0, bk_jobs = []\<rparr>"
    using ghost_start by blast
  have chat: "pf_model_alias (sn_profile snap0) = ''chat''"
    and steps: "sn_step_count snap0 = 0" "max_steps ?sv snap0 = 25"
    by (simp_all add: snap0 snapshot_def demo_profile_def demo_run_def queued_run_def max_steps_def
        cancelling_services_def demo_services_def)
  obtain snap1 tr1 s1 where t1: "turn ?sv ?dl snap0 tr0 s0 = Continue snap1 tr1 s1" and
    out1: "outside s1 = \<lparr>bk_router = lab_router [ghost_call], bk_vendors = 1, bk_jobs = []\<rparr>"
    using ghost_turn [OF chat _ calm, of ?dl tr0] out0 by auto
  note same = turn_snap [OF t1]
  have path: "turn_path ?sv ?dl snap0 tr0 s0 snap1 tr1 s1"
    using path_turn [OF path_start _ t1] steps by simp
  have keys: "keyed rn_id (runs (db ghost_state))" by (simp add: ghost_state_def demo_db_def)
  have ex: "exists_run snap1 s1" "sn_run snap1 = ''r1''"
    using path_kept [OF path cancelling_respects(1) kept_top] loop_start_run [OF keys start] cancelling_respects(1)
    by simp_all
  have "pf_model_alias (sn_profile snap1) = ''chat''" using same(1) chat by (simp add: same_run_def)
  from lab_model_turn [OF this, of s1 "[ghost_call]" ?sv tr1] out1 obtain snap2 s2 where
    m: "model_turn ?sv snap1 tr1 s1 = (Inr (snap2, demo_result [ghost_call]), s2)" and
    db2: "db s2 = db (sv_meanwhile ?sv (lab_asked [ghost_call] s1))" by (auto simp: cancelling_services_def)
  have "cancel_requested snap1 s2"
    using ex out1 by (auto simp: cancel_requested_def db2 cancelling_services_def lab_asked_def exists_run_def)
  moreover have "sn_step_count snap1 < max_steps ?sv snap1"
    using same steps same_run_max_steps [OF same(1), of ?sv] by simp
  ultimately have "recorded (if cancel_requested snap1 s1 then 1 else 2) ''r1'' (snd (execute_run ?sv ''r1'' ghost_state))"
    using cancel_stops_at_step_boundary [OF cancelling_respects(2,1) keys start path _ m] same(2) steps(1)
    by (auto simp del: snd_conv)
  then show ?thesis by (auto simp: recorded_def recorded_run_def split: if_splits)
qed

text \<open>Executing a run keeps the run table well formed and keeps every run in it: keys stay
  unique and below the supply, and each run is still there under its key with the workspace,
  session, agent, parent and goal it was created with.\<close>

theorem execution_keeps_runs:
  assumes "outside_respects keys_kept sv" and "outside_respects runs_kept sv" and "run_keys_ok s"
  shows "run_keys_ok (snd (execute_run sv k s)) \<and> runs_kept s (snd (execute_run sv k s)) \<and>
         run_keys_ok (resume_run sv k approved s) \<and> runs_kept s (resume_run sv k approved s)"
  using keys.rel_execute_run [of sv s k] keys.rel_resume_run [of sv s k approved]
    kept.rel_execute_run [of sv s k] kept.rel_resume_run [of sv s k approved] assms
  by (simp add: keys_kept_def)

lemma demo_keys_kept: "outside_respects keys_kept demo_services"
  by (simp add: outside_respects_def demo_services_def wipe_tool_def keys_kept_def run_keys_ok_def)

theorem execution_keeps_runs_witness:
  "run_keys_ok (snd (execute_run demo_services (new_id 0)
     ((demo_state [wipe_call] Queued)\<lparr>db := (demo_db Queued)\<lparr>runs := [(demo_run Queued)\<lparr>rn_id := new_id 0\<rparr>]\<rparr>,
        id_supply := 1\<rparr>)))"
proof -
  let ?s = "(demo_state [wipe_call] Queued)\<lparr>db := (demo_db Queued)\<lparr>runs := [(demo_run Queued)\<lparr>rn_id := new_id 0\<rparr>]\<rparr>,
        id_supply := 1\<rparr>"
  have "run_keys_ok ?s" by (auto simp: run_keys_ok_def intro: exI [of _ 0])
  from execution_keeps_runs [OF demo_keys_kept demo_respects this] show ?thesis by blast
qed


section \<open>Usage across a pause\<close>

text \<open>The token columns of a run forget what was spent before a pause: the snapshot of a
  resumption starts at zero and the finishing write overwrites the columns, so a run that is
  denied with its step budget used up ends with no tokens on its row, whatever its model steps
  recorded.\<close>

theorem pause_forgets_usage:
  assumes "keyed rn_id (runs (db s))" and "get_run k (db s) = Some r" and "rn_status r = Awaiting_approval"
    and "rn_checkpoint r = Some \<lparr>ck_messages = msgs, ck_pending = [call]\<rparr>"
    and "claim k From_awaiting s = (Some snap, s1)" and "max_steps sv snap \<le> rn_step_count r"
  shows "\<exists>r'. get_run k (db (resume_run sv k False s)) = Some r' \<and> rn_status r' = Failed \<and>
    rn_input_tokens r' = 0 \<and> rn_output_tokens r' = 0"
proof -
  let ?d = "[(''call'', tool_call_json call), (''approved'', JBool False)]"
  let ?s1 = "emit snap RUN_STEP [(''tool'', JStr (tc_name call)), (''ok'', JBool False),
      (''summary'', JStr ''denied by operator'')] s1"
  obtain snap1 s2 where rec: "record_step Tool_step no_usage ?d snap ?s1 = (snap1, s2)" by (metis prod.exhaust)
  from claim_Some [OF assms(1,5)] assms(2) obtain ss pf n where
    snap: "snap = snapshot r ss pf n" and row: "get_run k (db s1) = Some (grab_run From_awaiting (clock s) r)" by auto
  have id: "sn_run snap = k" using snap assms(2) by (auto simp: get_run_def dest: find_row_Some)
  note same = record_step_same [OF rec]
  have zero: "sn_input_tokens snap1 = 0" "sn_output_tokens snap1 = 0"
    using rec by (auto simp: record_step_def Let_def snap)
  have "get_run k (db s2) = Some ((grab_run From_awaiting (clock s) r)\<lparr>rn_heartbeat_at := Some (clock s1)\<rparr>)"
  proof -
    have "get_run k (db s2) = get_run k (db (update_run k (\<lambda>r. r\<lparr>rn_heartbeat_at := Some (clock s1)\<rparr>) s1))"
      using rec id by (auto simp: record_step_def Let_def get_run_def update_run_def)
    then show ?thesis using row by simp
  qed
  moreover have "\<not> sn_step_count snap1 < max_steps sv snap1"
    using same same_run_max_steps [of snap1 snap sv] assms(6) snap by simp
  then have "resume_run sv k False s = finish snap1 Failed None
      (Some (''step limit reached ('' @ show_int (max_steps sv snap1) @ '') before a final answer'')) s2"
    using assms(2-5) rec
    by (simp add: resume_run_def resume_gated_def gated_message_def drive_def after_calls_def loop.simps)
  moreover have "sn_run snap1 = k" using same id by (simp add: same_run_def)
  ultimately show ?thesis using zero by (simp add: finish_row)
qed

theorem pause_forgets_usage_witness:
  "\<exists>r'. get_run ''r1'' (db (resume_run demo_services ''r1'' False (parked_state []))) = Some r' \<and>
     rn_status r' = Failed \<and> rn_input_tokens r' = 0"
proof -
  let ?s = "parked_state []"
  have "fst (claim ''r1'' From_awaiting ?s) \<noteq> None"
    using claim_wins_iff [OF parked_state_facts(1), of "''r1''" From_awaiting "[]"] parked_state_facts
    by (auto simp: claimable_def)
  then obtain snap s1 where c: "claim ''r1'' From_awaiting ?s = (Some snap, s1)" by (metis not_None_eq prod.collapse)
  from claim_Some [OF parked_state_facts(1) c] parked_state_facts(2,5) obtain ss n where
    "snap = snapshot parked_run ss demo_profile n" by auto
  then have "max_steps demo_services snap \<le> rn_step_count parked_run"
    using parked_state_facts(8) by (simp add: max_steps_def demo_profile_def)
  from pause_forgets_usage [OF parked_state_facts(1,2,3,7) c this] show ?thesis by blast
qed

end
