(* ===== verification/Generations.thy ===== *)
theory Generations
  imports Run_Props
begin

text \<open>
  The bound on delegation.  A run that delegates creates a child run and executes it one level
  deeper (\<open>_delegate_fn\<close>, \<open>execute_run(..., _depth)\<close>), so the runs that an execution
  creates form a tree below it.  \<open>descends n k d j\<close> follows \<open>n\<close> parent links from \<open>j\<close> to
  \<open>k\<close>; \<open>grows k c depth\<close> is what executing \<open>c\<close> at \<open>depth\<close> below \<open>k\<close> may do to the table:
  every run that appears below \<open>k\<close> is at most two links away.  The contract
  \<open>run_relation\<close> is interpreted on it.
\<close>

section \<open>The tree of runs\<close>

fun descends :: "nat \<Rightarrow> ident \<Rightarrow> database \<Rightarrow> ident \<Rightarrow> bool" where
  "descends 0 k d j = (j = k)"
| "descends (Suc n) k d j =
     (case get_run j d of
        None \<Rightarrow> False
      | Some r \<Rightarrow> (case rn_parent r of None \<Rightarrow> False | Some p \<Rightarrow> descends n k d p))"

text \<open>Keys are in order, and the parent of every run is a run (the foreign key).\<close>

definition run_tree_ok :: "'w backend sys \<Rightarrow> bool" where
  "run_tree_ok s = (run_keys_ok s \<and>
     (\<forall>r\<in>set (runs (db s)). \<forall>p. rn_parent r = Some p \<longrightarrow> get_run p (db s) \<noteq> None))"

definition bounded_growth :: "ident \<Rightarrow> 'v state \<Rightarrow> 'v state \<Rightarrow> bool" where
  "bounded_growth k s s' = (run_tree_ok s' \<and> runs_kept s s' \<and>
     (\<forall>j n. get_run j (db s) = None \<longrightarrow> descends n k (db s') j \<longrightarrow> (\<exists>m\<le>2. descends m k (db s') j)))"

definition hangs_below :: "ident \<Rightarrow> ident \<Rightarrow> nat \<Rightarrow> 'v state \<Rightarrow> bool" where
  "hangs_below k c depth s = (run_tree_ok s \<and> get_run c (db s) \<noteq> None \<and> descends depth k (db s) c)"

definition grows :: "ident \<Rightarrow> ident \<Rightarrow> nat \<Rightarrow> 'v state \<Rightarrow> 'v state \<Rightarrow> bool" where
  "grows k c depth s s' = (id_supply s \<le> id_supply s' \<and> (hangs_below k c depth s \<longrightarrow> bounded_growth k s s'))"

lemma descends_kept:
  assumes "run_tree_ok s" and "runs_kept s s'" and "get_run j (db s) \<noteq> None"
  shows "descends n k (db s') j = descends n k (db s) j"
  using assms(3)
proof (induction n arbitrary: j)
  case (Suc n)
  then obtain r where r: "get_run j (db s) = Some r" by auto
  with assms(2) obtain r' where r': "get_run j (db s') = Some r'" "rn_parent r' = rn_parent r"
    by (fastforce simp: runs_kept_def run_identity_def)
  have "r \<in> set (runs (db s))" using r by (auto simp: get_run_def dest: find_row_Some)
  then have "get_run p (db s) \<noteq> None" if "rn_parent r = Some p" for p
    using that assms(1) by (auto simp: run_tree_ok_def)
  with Suc.IH r r' show ?case by (auto split: option.splits)
qed simp

lemma hangs_below_kept: "hangs_below k c depth s \<Longrightarrow> bounded_growth k s s' \<Longrightarrow> hangs_below k c depth s'"
  using descends_kept [of s s' c depth k] by (fastforce simp: hangs_below_def bounded_growth_def runs_kept_def)

lemma bounded_growth_trans:
  assumes "bounded_growth k s s'" and "bounded_growth k s' s''"
  shows "bounded_growth k s s''"
proof -
  have kept: "runs_kept s s''" using assms by (fastforce simp: bounded_growth_def runs_kept_def)
  have "\<exists>m\<le>2. descends m k (db s'') j" if "get_run j (db s) = None" "descends n k (db s'') j" for j n
  proof (cases "get_run j (db s')")
    case None
    then show ?thesis using that(2) assms(2) by (auto simp: bounded_growth_def)
  next
    case (Some r)
    then have "descends m k (db s'') j = descends m k (db s') j" for m
      using assms by (intro descends_kept) (auto simp: bounded_growth_def)
    then show ?thesis using that assms(1) by (auto simp: bounded_growth_def)
  qed
  with kept assms(2) show ?thesis by (auto simp: bounded_growth_def)
qed

lemma grows_trans: "grows k c depth s s' \<Longrightarrow> grows k c depth s' s'' \<Longrightarrow> grows k c depth s s''"
  using hangs_below_kept bounded_growth_trans by (fastforce simp: grows_def)

lemma grows_rewrite:
  assumes "in_place f" and "runs (db s') = map f (runs (db s))" and "id_supply s \<le> id_supply s'"
  shows "grows k c depth s s'"
proof -
  have row: "get_run j (db s') = map_option f (get_run j (db s))" for j
    using assms by (simp add: get_run_def find_row_map in_place_id)
  have "rn_parent (f r) = rn_parent r" for r using assms(1) by (simp add: in_place_def run_identity_def)
  then have "run_tree_ok s'" if "run_tree_ok s"
    using that keys_kept_rewrite [OF assms] row by (auto simp: run_tree_ok_def keys_kept_def assms(2))
  moreover have "\<exists>m\<le>2. descends m k (db s') j" if "get_run j (db s) = None" "descends n k (db s') j" for j n
    using that row by (cases n) (auto intro: exI [of _ 0])
  ultimately show ?thesis
    using runs_kept_rewrite [OF assms(1,2)] assms(3) by (auto simp: grows_def bounded_growth_def hangs_below_def)
qed

text \<open>A child of a run that is at most one level down.\<close>

lemma add_child:
  assumes "hangs_below k c depth s" and "depth < 2" and "rn_id r = fresh s" and "rn_parent r = Some c"
  shows "bounded_growth k s (add_run r s)" and "hangs_below k (fresh s) (Suc depth) (add_run r s)"
proof -
  let ?s = "add_run r s"
  have tree: "run_tree_ok s" and c: "get_run c (db s) \<noteq> None" and at: "descends depth k (db s) c"
    using assms(1) by (simp_all add: hangs_below_def)
  have rows: "runs (db ?s) = runs (db s) @ [r]" by (simp add: add_run_def)
  have kept: "runs_kept s ?s" by (auto simp: runs_kept_def get_run_def rows find_row_append)
  have free: "get_run (fresh s) (db s) = None"
    using tree by (auto simp: run_tree_ok_def run_keys_ok_def get_run_def fresh_def find_row_None)
  then have new: "get_run (fresh s) (db ?s) = Some r" using assms(3) by (simp add: get_run_def rows find_row_append)
  have "get_run p (db ?s) \<noteq> None" if "get_run p (db s) \<noteq> None" for p
    using that kept by (fastforce simp: runs_kept_def)
  then have tree': "run_tree_ok ?s"
    using tree keys_kept_add [OF assms(3)] c assms(4) by (auto simp: run_tree_ok_def keys_kept_def rows)
  have below: "descends (Suc depth) k (db ?s) (fresh s)"
    using new assms(4) at descends_kept [OF tree kept c] by simp
  then show "hangs_below k (fresh s) (Suc depth) ?s" using new tree' by (simp add: hangs_below_def)
  have "\<exists>m\<le>2. descends m k (db ?s) j" if "get_run j (db s) = None" "descends n k (db ?s) j" for j n
  proof (cases "j = fresh s")
    case True
    then show ?thesis using below assms(2) by (intro exI [of _ "Suc depth"]) simp
  next
    case False
    then have "get_run j (db ?s) = None" using that(1) assms(3) by (simp add: get_run_def rows find_row_append)
    then show ?thesis using that(2) by (cases n) (auto intro: exI [of _ 0])
  qed
  with kept tree' show "bounded_growth k s ?s" by (auto simp: bounded_growth_def)
qed

text \<open>
  A step of the code outside the runtime: it may rewrite what it likes of the runs but who they
  are, and add runs under fresh keys, but none below another run.
\<close>

definition stands_by :: "'v state \<Rightarrow> 'v state \<Rightarrow> bool" where
  "stands_by s s' =
     (\<exists>f xs. (\<forall>r. run_identity (f r) = run_identity r) \<and> runs (db s') = map f (runs (db s)) @ xs \<and> id_supply s \<le> id_supply s' \<and>
        distinct (map rn_id xs) \<and>
        (\<forall>r\<in>set xs. rn_parent r = None \<and> (\<exists>n. id_supply s \<le> n \<and> n < id_supply s' \<and> rn_id r = new_id n)))"

lemma stands_by_refl [simp]: "stands_by s s"
  unfolding stands_by_def by (intro exI [of _ "\<lambda>r. r"] exI [of _ "[]"]) simp

text \<open>
  Child runs come from the delegate alone: a tool and the other connections respect whatever is
  transitive and holds of the steps above, a tool as long as its delegate does.
\<close>

definition children_by_delegate :: "'v services \<Rightarrow> bool" where
  "children_by_delegate sv =
     (\<forall>R. (\<forall>s s'. stands_by s s' \<longrightarrow> R s s') \<and> (\<forall>s s' s''. R s s' \<and> R s' s'' \<longrightarrow> R s s'') \<longrightarrow> outside_respects R sv)"

lemma run_identity_same: "run_identity r = run_identity r' \<Longrightarrow> rn_id r = rn_id r' \<and> rn_parent r = rn_parent r'"
  by (simp add: run_identity_def)

lemma stands_by_rows:
  assumes "\<And>r. run_identity (f r) = run_identity r" and "runs (db s') = map f (runs (db s)) @ xs"
  shows "get_run j (db s') = (case get_run j (db s) of Some r \<Rightarrow> Some (f r) | None \<Rightarrow> find_row rn_id j xs)"
  using assms run_identity_same [OF assms(1)] by (simp add: get_run_def find_row_append find_row_map split: option.splits)

lemma stands_by_kept:
  assumes "stands_by s s'"
  shows "runs_kept s s'"
proof -
  obtain f xs where id: "\<And>r. run_identity (f r) = run_identity r" and rows: "runs (db s') = map f (runs (db s)) @ xs"
    using assms unfolding stands_by_def by blast
  show ?thesis by (simp add: runs_kept_def stands_by_rows [OF id rows] id)
qed

lemma runs_kept_trans: "runs_kept s s' \<Longrightarrow> runs_kept s' s'' \<Longrightarrow> runs_kept s s''"
  unfolding runs_kept_def by metis

lemma grows_stands_by:
  assumes "stands_by s s'"
  shows "grows k c depth s s'"
proof -
  obtain f xs where id: "\<And>r. run_identity (f r) = run_identity r" and rows: "runs (db s') = map f (runs (db s)) @ xs"
    and le: "id_supply s \<le> id_supply s'" and dist: "distinct (map rn_id xs)"
    and new: "\<And>r. r \<in> set xs \<Longrightarrow> rn_parent r = None \<and> (\<exists>n. id_supply s \<le> n \<and> n < id_supply s' \<and> rn_id r = new_id n)"
    using assms unfolding stands_by_def by blast
  note same = run_identity_same [OF id]
  note row = stands_by_rows [OF id rows]
  note kept = stands_by_kept [OF assms]
  have "bounded_growth k s s'" if tree: "run_tree_ok s"
  proof -
    have keys: "keyed rn_id (runs (db s))" "\<And>r. r \<in> set (runs (db s)) \<Longrightarrow> \<exists>n<id_supply s. rn_id r = new_id n"
      using tree by (auto simp: run_tree_ok_def run_keys_ok_def)
    have ids: "map rn_id (runs (db s')) = map rn_id (runs (db s)) @ map rn_id xs" by (simp add: rows same)
    have "rn_id ` set (runs (db s)) \<inter> rn_id ` set xs = {}" using keys(2) new by fastforce
    then have "keyed rn_id (runs (db s'))"
      using keys(1) dist by (simp only: keyed_def ids distinct_append) simp
    moreover have "\<exists>n<id_supply s'. rn_id r = new_id n" if "r \<in> set (runs (db s'))" for r
      using that keys(2) new le by (fastforce simp: rows same)
    ultimately have ok: "run_keys_ok s'" by (simp add: run_keys_ok_def)
    have "get_run p (db s') \<noteq> None" if "r \<in> set (runs (db s'))" "rn_parent r = Some p" for r p
      using that tree new by (fastforce simp: rows row same run_tree_ok_def)
    then have "run_tree_ok s'" using ok by (simp add: run_tree_ok_def)
    moreover have "j = k" if "get_run j (db s) = None" "descends n k (db s') j" for j n
      using that new find_row_Some [of rn_id j xs] by (cases n) (fastforce simp: row split: option.splits)+
    then have "\<exists>m\<le>2. descends m k (db s') j" if "get_run j (db s) = None" "descends n k (db s') j" for j n
      using that by (intro exI [of _ 0]) simp
    ultimately show ?thesis using kept by (auto simp: bounded_growth_def)
  qed
  then show ?thesis using le by (simp add: grows_def hangs_below_def)
qed

text \<open>The contract of the tree on the code outside.\<close>

definition outside_bounded :: "ident \<Rightarrow> 'v services \<Rightarrow> bool" where
  "outside_bounded k sv = (\<forall>c depth. outside_respects (grows k c depth) sv)"

lemma children_bounded: "children_by_delegate sv \<Longrightarrow> outside_bounded k sv"
proof -
  assume "children_by_delegate sv"
  then have "outside_respects R sv"
    if "\<And>s s'. stands_by s s' \<Longrightarrow> R s s'" "\<And>s s' s''. R s s' \<Longrightarrow> R s' s'' \<Longrightarrow> R s s''" for R
    using that unfolding children_by_delegate_def by metis
  then show "outside_bounded k sv" unfolding outside_bounded_def using grows_stands_by grows_trans by metis
qed

lemma children_kept: "children_by_delegate sv \<Longrightarrow> outside_respects runs_kept sv"
  unfolding children_by_delegate_def using stands_by_kept runs_kept_trans by metis

interpretation tree: run_relation
  "\<lambda>s s'. outside_respects (grows k c depth) sv \<longrightarrow> grows k c depth s s'" sv for k c depth sv
proof unfold_locales
  fix s s' s'' :: "'a state"
  assume "outside_respects (grows k c depth) sv \<longrightarrow> grows k c depth s s'"
    and "outside_respects (grows k c depth) sv \<longrightarrow> grows k c depth s' s''"
  then show "outside_respects (grows k c depth) sv \<longrightarrow> grows k c depth s s''" using grows_trans by blast
qed (auto simp: grows_rewrite outside_respects_guarded)

section \<open>Executing a run below another\<close>

lemma grows_delegate:
  assumes "sn_run snap = c"
    and "\<And>j s. depth < 2 \<Longrightarrow> grows k j (Suc depth) s (snd (exec (Suc depth) j s))"
  shows "grows k c depth s (snd (delegate_at exec depth snap h g s))"
proof (cases "depth < 2 \<and>
    (\<exists>p. find (\<lambda>p. ap_workspace p = sn_workspace snap \<and> ap_handle p = h) (profiles (db s)) = Some p)")
  case False
  then have "snd (delegate_at exec depth snap h g s) = s"
    by (auto simp: delegate_at_def max_delegation_depth_def split: option.splits)
  then show ?thesis using grows_rewrite [of id s s] by (simp add: in_place_def)
next
  case True
  then obtain p where p: "find (\<lambda>p. ap_workspace p = sn_workspace snap \<and> ap_handle p = h) (profiles (db s)) = Some p"
    by blast
  define r where "r = queued_run (fresh s) (clock s) (sn_workspace snap) (sn_session snap) (ap_id p) (Some c) g None"
  obtain e s2 where ex: "exec (Suc depth) (fresh s) (add_run r s) = (e, s2)" by (metis prod.exhaust)
  have res: "snd (delegate_at exec depth snap h g s) = s2"
    using True p ex assms(1)
    by (simp add: delegate_at_def Let_def r_def max_delegation_depth_def split: option.splits)
  have child: "grows k (fresh s) (Suc depth) (add_run r s) s2" using assms(2) [of "fresh s"] True ex
    by (metis snd_conv)
  have le: "id_supply s \<le> id_supply s2" using child by (simp add: grows_def add_run_def)
  have "bounded_growth k s s2" if "hangs_below k c depth s"
  proof (rule bounded_growth_trans)
    note add = add_child [OF that, of r]
    show "bounded_growth k s (add_run r s)" using True by (intro add) (simp_all add: r_def queued_run_def)
    have "hangs_below k (fresh s) (Suc depth) (add_run r s)"
      using True by (intro add) (simp_all add: r_def queued_run_def)
    then show "bounded_growth k (add_run r s) s2" using child by (simp add: grows_def)
  qed
  then show ?thesis using le res by (simp add: grows_def)
qed

lemma execute_at_grows:
  assumes "outside_bounded k sv"
  shows "grows k c depth s (snd (execute_at sv depth c s))"
proof (induction "2 - depth" arbitrary: depth c s rule: less_induct)
  case less
  have "grows k c depth s (snd (delegate_at (execute_at sv) depth snap h g s))" if "sn_run snap = c" for snap h g s
    by (rule grows_delegate [OF that]) (rule less, simp)
  then show ?case
    using tree.rel_execute_with [where dl = "delegate_at (execute_at sv) depth" and k = c and c = c and s = s
        and depth = depth and sv = sv and ka = k] assms
    by (simp add: execute_at.simps [of sv depth] outside_bounded_def)
qed

text \<open>C10.  Delegation is at most two generations deep: whatever run is executed or resumed, and
  however its tools, and the tools of the runs it delegates to, call their delegate, every run that
  appears below it is a child or a grandchild of it.  Of the tools it is only asked that the delegate
  is their one way to make a run below another.  The table keeps its runs and stays in order.\<close>

theorem delegation_depth_bounded:
  assumes "children_by_delegate sv" and "run_tree_ok s" and "get_run k (db s) \<noteq> None"
    and "s' = snd (execute_run sv k s) \<or> s' = resume_run sv k approved s"
    and "get_run j (db s) = None" and "descends n k (db s') j"
  shows "(descends 1 k (db s') j \<or> descends 2 k (db s') j) \<and> run_tree_ok s' \<and> runs_kept s s'"
proof -
  note bounded = children_bounded [OF assms(1), of k]
  have at: "hangs_below k k 0 s" using assms(2,3) by (simp add: hangs_below_def)
  have deleg: "grows k k 0 s (snd (top_delegate sv snap h g s))" if "sn_run snap = k" for snap h g s
    unfolding top_delegate_def by (rule grows_delegate [OF that]) (rule execute_at_grows [OF bounded])
  have "grows k k 0 s (snd (execute_run sv k s))"
    unfolding execute_run_def by (rule execute_at_grows [OF bounded])
  moreover have "grows k k 0 s (resume_run sv k approved s)"
    using tree.rel_resume [where k = k and c = k and s = s and depth = 0 and sv = sv and ka = k and approved = approved]
      deleg bounded by (simp add: outside_bounded_def)
  ultimately have "grows k k 0 s s'" using assms(4) by blast
  with at have b: "bounded_growth k s s'" by (simp add: grows_def)
  then obtain m where m: "m \<le> 2" "descends m k (db s') j"
    using assms(5,6) by (auto simp: bounded_growth_def)
  have "m \<noteq> 0" using m(2) assms(3,5) by (cases m) auto
  with m(1) have "m = 1 \<or> m = 2" by auto
  with m(2) b show ?thesis by (auto simp: bounded_growth_def)
qed

section \<open>A deployment that delegates\<close>

text \<open>The model of every run asks for a tool that hands its goal on to the agent \<open>ops\<close>.\<close>

definition spawn_tool :: "nat state tool" where
  "spawn_tool = wipe_tool\<lparr>tl_spec := (tl_spec wipe_tool)\<lparr>ts_requires_approval := False\<rparr>,
     tl_run := (\<lambda>args ctx t s. case cx_delegate ctx of
        None \<Rightarrow> (Finished (success ''nobody'' []), s)
      | Some d \<Rightarrow> (Finished (success ''handed on'' []), snd (d ''ops'' ''go on'' s)))\<rparr>"

definition spawning_services :: "nat services" where
  "spawning_services = demo_services\<lparr>sv_executor :=
     \<lparr>ex_registry = [(''wipe'', spawn_tool)], ex_default_timeout = 120, ex_force_approval = []\<rparr>\<rparr>"

definition spawn_state :: "nat state" where
  "spawn_state = (demo_state [wipe_call] Queued)\<lparr>db := (demo_db Queued)\<lparr>
     runs := [(demo_run Queued)\<lparr>rn_id := new_id 0\<rparr>]\<rparr>, id_supply := 1\<rparr>"

lemma spawn_respects:
  "children_by_delegate spawning_services" "outside_respects runs_kept spawning_services"
  "outside_respects keys_kept spawning_services"
proof -
  show "children_by_delegate spawning_services"
    unfolding children_by_delegate_def
  proof (intro allI impI, elim conjE)
    fix R :: "nat state \<Rightarrow> nat state \<Rightarrow> bool"
    assume "\<forall>s s'. stands_by s s' \<longrightarrow> R s s'"
    then have "R s s" for s by simp
    then show "outside_respects R spawning_services"
      by (simp add: outside_respects_def spawning_services_def demo_services_def spawn_tool_def split: option.splits)
  qed
  then show "outside_respects runs_kept spawning_services" by (rule children_kept)
  have "keys_kept s s" for s :: "nat state" by (simp add: keys_kept_def)
  then show "outside_respects keys_kept spawning_services"
    by (simp add: outside_respects_def spawning_services_def demo_services_def spawn_tool_def split: option.splits)
qed

definition has_child :: "ident \<Rightarrow> 'v state \<Rightarrow> bool" where
  "has_child k s = (\<exists>j r. get_run j (db s) = Some r \<and> rn_parent r = Some k)"

lemma has_child_kept: "has_child k s \<Longrightarrow> runs_kept s s' \<Longrightarrow> has_child k s'"
  by (fastforce simp: has_child_def runs_kept_def run_identity_def)

lemma spawn_child:
  assumes "run_keys_ok s" and "find (\<lambda>p. ap_workspace p = sn_workspace snap \<and> ap_handle p = ''ops'') (profiles (db s)) = Some p"
    and "pf_can_delegate (sn_profile snap)" and "pf_tool_grants (sn_profile snap) = [''*'']"
  shows "\<exists>m s'. run_tool spawning_services (top_delegate spawning_services) snap wipe_call False s = (Inr m, s') \<and>
    has_child (sn_run snap) s' \<and> runs_kept s s'"
proof -
  let ?sv = spawning_services
  define d where "d = snd (top_delegate ?sv snap ''ops'' ''go on'' s)"
  let ?r = "queued_run (fresh s) (clock s) (sn_workspace snap) (sn_session snap) (ap_id p) (Some (sn_run snap)) ''go on'' None"
  have kept: "runs_kept (add_run ?r s) (snd (execute_at ?sv 1 (fresh s) (add_run ?r s)))"
    using kept.rel_execute_at [of ?sv] spawn_respects(2) by blast
  have "d = snd (execute_at ?sv 1 (fresh s) (add_run ?r s))"
    using assms(2) by (simp add: d_def top_delegate_def delegate_at_def max_delegation_depth_def Let_def
        split: prod.splits option.splits)
  moreover have "has_child (sn_run snap) (add_run ?r s)"
  proof -
    have "get_run (fresh s) (db s) = None"
      using assms(1) by (auto simp: run_keys_ok_def get_run_def fresh_def find_row_None)
    then have "get_run (fresh s) (db (add_run ?r s)) = Some ?r"
      by (simp add: get_run_def add_run_def find_row_append queued_run_def)
    moreover have "rn_parent ?r = Some (sn_run snap)" by (simp add: queued_run_def)
    ultimately show ?thesis unfolding has_child_def by (intro exI conjI)
  qed
  ultimately have "has_child (sn_run snap) d" using has_child_kept [OF _ kept] by simp
  moreover have "runs_kept s d" using kept.rel_top_delegate [of ?sv] spawn_respects(2) by (simp add: d_def)
  moreover have ex: "sv_executor ?sv = \<lparr>ex_registry = [(''wipe'', spawn_tool)], ex_default_timeout = 120, ex_force_approval = []\<rparr>"
    by (simp add: spawning_services_def)
  have granted: "is_granted ''wipe'' [''*''] [(''wipe'', spawn_tool)]" by (simp add: is_granted_def fnmatch_def)
  have "\<exists>m p. run_tool ?sv (top_delegate ?sv) snap wipe_call False s = (Inr m, emit snap RUN_STEP p d)"
    using assms(3,4) granted
    by (auto simp: run_tool_def execute_def Let_def wipe_call_def ex get_tool_def
        spawn_tool_def wipe_tool_def tool_ctx_def needs_approval_def d_def)
  then obtain m p where "run_tool ?sv (top_delegate ?sv) snap wipe_call False s = (Inr m, emit snap RUN_STEP p d)" by blast
  moreover have "has_child (sn_run snap) (emit snap RUN_STEP p d) = has_child (sn_run snap) d"
    "runs_kept s (emit snap RUN_STEP p d) = runs_kept s d"
    by (simp_all add: has_child_def runs_kept_def)
  ultimately show ?thesis by simp
qed

lemma spawn_start:
  "\<exists>snap tr s. loop_start spawning_services (new_id 0) spawn_state = Some (snap, tr, s) \<and>
     snap = snapshot ((demo_run Queued)\<lparr>rn_id := new_id 0\<rparr>) demo_session demo_profile 0 \<and>
     \<not> cancel_requested snap s \<and> bk_router (outside s) = lab_router [wipe_call] \<and>
     profiles (db s) = [demo_profile] \<and> run_keys_ok s \<and> runs_kept spawn_state s"
proof -
  let ?snap = "snapshot ((demo_run Queued)\<lparr>rn_id := new_id 0\<rparr>) demo_session demo_profile 0"
  obtain s1 where c: "claim (new_id 0) From_queued spawn_state = (Some ?snap, s1)" and s1: "memories (db s1) = []"
    "outside s1 = \<lparr>bk_router = lab_router [wipe_call], bk_vendors = 0, bk_jobs = []\<rparr>" "\<not> cancel_requested ?snap s1"
    "profiles (db s1) = [demo_profile]" 
    by (simp add: claim_def cas_claim_def claimable_def grab_run_def demo_defs snapshot_def spawn_state_def
        cancel_requested_def on_runs_def Let_def)
  let ?s = "emit ?snap RUN_STARTED [(''goal'', JStr (sn_goal ?snap))] s1"
  have "build_transcript spawning_services = build_transcript demo_services"
    by (rule build_transcript_cong) (simp_all add: spawning_services_def)
  moreover obtain tr s2 where b: "build_transcript demo_services ?snap ?s = (Inr tr, s2)"
    "bk_router (outside s2) = lab_router [wipe_call]" "db s2 = db s1" "id_supply s2 = id_supply s1"
    using s1(1,2) demo_recall [of "db s1"]
    by (simp add: build_transcript_def Let_def lab_router_calm on_backend_def)
  moreover have "run_keys_ok spawn_state"
    by (auto simp: run_keys_ok_def spawn_state_def demo_db_def intro: exI [of _ 0])
  then have "run_keys_ok s1" "runs_kept spawn_state s1"
    using keys.rel_claim [of spawning_services spawn_state "new_id 0" From_queued]
      kept.rel_claim [of spawning_services spawn_state "new_id 0" From_queued] spawn_respects(2,3) c
    by (simp_all add: keys_kept_def)
  ultimately show ?thesis using c s1(3,4)
    by (simp add: loop_start_def cancel_requested_def run_keys_ok_def runs_kept_def)
qed

lemma spawn_turn:
  assumes "\<not> cancel_requested snap s" and "bk_router (outside s) = lab_router [wipe_call]"
    and "profiles (db s) = [demo_profile]" and "run_keys_ok s"
    and "sn_workspace snap = ''w1''" and "pf_can_delegate (sn_profile snap)"
    and "pf_tool_grants (sn_profile snap) = [''*'']" and "pf_model_alias (sn_profile snap) = ''chat''"
  shows "\<exists>snap' tr' s'. turn spawning_services (top_delegate spawning_services) snap tr s = Continue snap' tr' s' \<and>
    has_child (sn_run snap) s'"
proof -
  let ?sv = spawning_services and ?r = "demo_result [wipe_call]"
  have quiet: "sv_meanwhile ?sv s = s" for s by (simp add: spawning_services_def demo_services_def)
  then have "outside (sv_meanwhile ?sv s) = outside s" for s by simp
  from lab_model_turn [OF assms(8,2) this, of tr] obtain snap1 s1 where
    m: "model_turn ?sv snap tr s = (Inr (snap1, ?r), s1)" and db1: "db s1 = db s"
    by (auto simp: quiet lab_asked_def)
  have k1: "run_keys_ok s1"
    using keys.rel_model_turn [of ?sv s snap tr] spawn_respects(3) m assms(4) by (simp add: keys_kept_def)
  let ?d = "[(''text'', JStr (take 2000 (cm_content (cs_message ?r)))), (''tool_calls'', JList (map tool_call_json [wipe_call]))]"
  let ?snap2 = "snap1\<lparr>sn_step_count := sn_step_count snap1 + 1\<rparr>"
  obtain snap3 s2 where rec: "record_step Model_step (cs_usage ?r) ?d ?snap2 s1 = (snap3, s2)" by (metis prod.exhaust)
  have k2: "run_keys_ok s2"
    using keys.rel_record_step [of ?sv s1 Model_step "cs_usage ?r" ?d ?snap2] spawn_respects(3) rec k1
    by (simp add: keys_kept_def)
  have same: "same_run snap3 snap"
    using model_turn_snap [OF m] record_step_same [OF rec] by (simp add: same_run_def)
  have "profiles (db s2) = [demo_profile]" using rec db1 assms(3) by (auto simp: record_step_def Let_def update_run_def)
  then have "find (\<lambda>p. ap_workspace p = sn_workspace snap3 \<and> ap_handle p = ''ops'') (profiles (db s2)) = Some demo_profile"
    using same assms(5) by (simp add: demo_profile_def same_run_def)
  from spawn_child [OF k2 this] same assms(6,7) obtain m2 s3 where
    tool: "run_tool ?sv (top_delegate ?sv) snap3 wipe_call False s2 = (Inr m2, s3)" "has_child (sn_run snap) s3"
    by (auto simp: same_run_def)
  obtain snap4 s4 where rec2: "record_step Tool_step no_usage [(''call'', tool_call_json wipe_call)] snap3 s3 = (snap4, s4)"
    by (metis prod.exhaust)
  have "cm_tool_calls (cs_message ?r) = [wipe_call]" by (simp add: demo_result_def)
  then have "turn ?sv (top_delegate ?sv) snap tr s = Continue snap4 ((tr @ [cs_message ?r]) @ [m2]) s4"
    using assms(1) m rec tool rec2 by (simp add: turn_def Let_def after_calls_def)
  moreover have "runs_kept s3 s4"
    using kept.rel_record_step [of ?sv s3 Tool_step no_usage "[(''call'', tool_call_json wipe_call)]" snap3]
      spawn_respects(2) rec2 by simp
  then have "has_child (sn_run snap) s4" using tool(2) has_child_kept by blast
  ultimately show ?thesis by simp
qed

theorem delegation_depth_bounded_witness:
  "\<exists>j. get_run j (db spawn_state) = None \<and>
     descends 1 (new_id 0) (db (snd (execute_run spawning_services (new_id 0) spawn_state))) j"
proof -
  let ?sv = spawning_services and ?k = "new_id 0"
  let ?s' = "snd (execute_run ?sv ?k spawn_state)"
  have keys: "keyed rn_id (runs (db spawn_state))" by (simp add: spawn_state_def)
  have tree: "run_tree_ok spawn_state"
    by (auto simp: run_tree_ok_def run_keys_ok_def spawn_state_def demo_run_def queued_run_def intro: exI [of _ 0])
  obtain r0 where r0: "get_run ?k (db spawn_state) = Some r0" "rn_parent r0 = None"
    by (simp add: spawn_state_def get_run_def demo_run_def queued_run_def)
  have only: "get_run j (db spawn_state) = (if j = ?k then Some r0 else None)" for j
    using r0 by (auto simp: spawn_state_def get_run_def)
  from spawn_start obtain snap tr s where start: "loop_start ?sv ?k spawn_state = Some (snap, tr, s)"
    and snap: "snap = snapshot ((demo_run Queued)\<lparr>rn_id := new_id 0\<rparr>) demo_session demo_profile 0"
    and s: "\<not> cancel_requested snap s" "bk_router (outside s) = lab_router [wipe_call]"
      "profiles (db s) = [demo_profile]" "run_keys_ok s" by blast
  have sn: "sn_workspace snap = ''w1''" "pf_can_delegate (sn_profile snap)" "pf_tool_grants (sn_profile snap) = [''*'']"
    "pf_model_alias (sn_profile snap) = ''chat''" "sn_run snap = ?k" "sn_step_count snap < max_steps ?sv snap"
    by (simp_all add: snap snapshot_def demo_profile_def demo_run_def queued_run_def max_steps_def)
  obtain snap1 tr1 s1 where t: "turn ?sv (top_delegate ?sv) snap tr s = Continue snap1 tr1 s1" "has_child ?k s1"
    using spawn_turn [OF s sn(1-4), of tr] sn(5) by auto
  have "?s' = loop ?sv (top_delegate ?sv) snap1 tr1 s1"
    using loop_start_run(1) [OF keys start] sn(6) t(1) by (simp add: loop.simps [of ?sv _ snap])
  moreover have "runs_kept s1 (loop ?sv (top_delegate ?sv) snap1 tr1 s1)"
    using kept.rel_loop [where sv = ?sv and dl = "top_delegate ?sv"] kept.rel_top_delegate [of ?sv] spawn_respects(2) by blast
  ultimately have "has_child ?k ?s'" using t(2) has_child_kept by metis
  then obtain j r where j: "get_run j (db ?s') = Some r" "rn_parent r = Some ?k" by (auto simp: has_child_def)
  have below: "descends 1 ?k (db ?s') j" using j by simp
  have "runs_kept spawn_state ?s'"
    using kept.rel_execute_run [of ?sv spawn_state ?k] spawn_respects(2) by simp
  then have "j \<noteq> ?k" using j r0 by (fastforce simp: runs_kept_def run_identity_def)
  then have new: "get_run j (db spawn_state) = None" using only by simp
  from delegation_depth_bounded [OF spawn_respects(1) tree _ _ new below, of True] r0 new below show ?thesis by blast
qed

end
