(* ===== verification/Utf8.thy ===== *)
theory Utf8
  imports Prelude
begin

text \<open>
  Bytes and text.  A string of the model holds bytes, so a Python \<open>str\<close> is its UTF-8 encoding.
  \<open>decode_lossy\<close> is \<open>bytes.decode(errors="replace")\<close> and \<open>strip_text\<close> the
  \<open>str.strip()\<close> of the text that comes out of it; both are the identity and the plain
  \<open>strip\<close> on ASCII.
\<close>

section \<open>Decoding\<close>

definition is_ascii :: "string \<Rightarrow> bool" where
  "is_ascii t = list_all (\<lambda>c. (of_char c :: nat) < 128) t"

text \<open>
  The text keeps its valid UTF-8 sequences, and each maximal invalid prefix becomes one replacement
  character.
\<close>

definition replacement :: string where
  "replacement = [char_of (239 :: nat), char_of (191 :: nat), char_of (189 :: nat)]"

definition byte_in :: "nat \<Rightarrow> nat \<Rightarrow> char \<Rightarrow> bool" where
  "byte_in a b c = (let n = (of_char c :: nat) in a \<le> n \<and> n \<le> b)"

text \<open>How many continuation bytes a lead byte asks for, and the range of the first of them.\<close>

definition lead_byte :: "char \<Rightarrow> (nat \<times> nat \<times> nat) option" where
  "lead_byte c =
     (let n = (of_char c :: nat) in
      if n < 128 then Some (0, 128, 191)
      else if 194 \<le> n \<and> n \<le> 223 then Some (1, 128, 191)
      else if n = 224 then Some (2, 160, 191)
      else if n = 237 then Some (2, 128, 159)
      else if 225 \<le> n \<and> n \<le> 239 then Some (2, 128, 191)
      else if n = 240 then Some (3, 144, 191)
      else if 241 \<le> n \<and> n \<le> 243 then Some (3, 128, 191)
      else if n = 244 then Some (3, 128, 143)
      else None)"

text \<open>The continuation bytes found, at most \<open>k\<close>, and the rest.\<close>

fun continuation :: "nat \<Rightarrow> nat \<Rightarrow> nat \<Rightarrow> string \<Rightarrow> string \<times> string" where
  "continuation 0 a b cs = ([], cs)"
| "continuation (Suc k) a b [] = ([], [])"
| "continuation (Suc k) a b (c # cs) =
     (if byte_in a b c then (case continuation k 128 191 cs of (xs, r) \<Rightarrow> (c # xs, r)) else ([], c # cs))"

lemma continuation_length: "length (snd (continuation k a b cs)) \<le> length cs"
  by (induction k a b cs rule: continuation.induct) (auto split: prod.splits)

function decode_lossy :: "string \<Rightarrow> string" where
  "decode_lossy [] = []"
| "decode_lossy (c # cs) =
     (case lead_byte c of
        None \<Rightarrow> replacement @ decode_lossy cs
      | Some (k, a, b) \<Rightarrow>
          (let xs = fst (continuation k a b cs); r = snd (continuation k a b cs)
           in (if length xs = k then c # xs else replacement) @ decode_lossy r))"
  by pat_completeness auto
termination
  by (relation "measure length") (auto simp: le_imp_less_Suc continuation_length)

lemma decode_ascii: "is_ascii t \<Longrightarrow> decode_lossy t = t"
  by (induction t) (simp_all add: is_ascii_def lead_byte_def)

section \<open>White space\<close>

text \<open>The characters that \<open>str.isspace\<close> accepts, each as its bytes.\<close>

definition ascii_space :: "char \<Rightarrow> bool" where
  "ascii_space c = (byte_in 9 13 c \<or> byte_in 28 32 c)"

definition wide_spaces :: "string list" where
  "wide_spaces = map (map char_of)
     ([[194, 133], [194, 160], [225, 154, 128]] @ map (\<lambda>n. [226, 128, n]) [128..<139] @
      [[226, 128, 168], [226, 128, 169], [226, 128, 175], [226, 129, 159], [227, 128, 128 :: nat]])"

text \<open>The text without the spaces in front of it, those of more than one byte given by their bytes.\<close>

function strip_front :: "string list \<Rightarrow> string \<Rightarrow> string" where
  "strip_front wide [] = []"
| "strip_front wide (c # cs) =
     (if ascii_space c then strip_front wide cs
      else case find (\<lambda>w. w \<noteq> [] \<and> starts_with w (c # cs)) wide of
          None \<Rightarrow> c # cs
        | Some w \<Rightarrow> strip_front wide (drop (length w) (c # cs)))"
  by pat_completeness auto
termination
  by (relation "measure (\<lambda>(wide, t). length t)") (auto simp: find_Some_iff neq_Nil_conv)

definition strip_text :: "string \<Rightarrow> string" where
  "strip_text t = rev (strip_front (map rev wide_spaces) (rev (strip_front wide_spaces t)))"

lemma ascii_space_iff: "(of_char c :: nat) < 128 \<Longrightarrow> is_space c = ascii_space c"
  by (auto simp: is_space_def ascii_space_def byte_in_def Let_def)

lemma strip_front_ascii:
  assumes "is_ascii t" and "list_all (\<lambda>w. w \<noteq> [] \<and> \<not> is_ascii [hd w]) wide"
  shows "strip_front wide t = lstrip t"
  using assms(1)
proof (induction t)
  case (Cons c cs)
  have "\<not> (w \<noteq> [] \<and> starts_with w (c # cs))" if "w \<in> set wide" for w
    using assms(2) that Cons.prems by (cases w) (auto simp: starts_with_def is_ascii_def list_all_iff)
  then have "find (\<lambda>w. w \<noteq> [] \<and> starts_with w (c # cs)) wide = None" by (auto simp: find_None_iff)
  moreover have "is_space c = ascii_space c" using Cons.prems ascii_space_iff by (simp add: is_ascii_def)
  ultimately show ?case using Cons by (simp add: lstrip_def is_ascii_def)
qed (simp add: lstrip_def)

lemma wide_spaces_bytes:
  "list_all (\<lambda>w. w \<noteq> [] \<and> \<not> is_ascii [hd w]) wide_spaces" "list_all (\<lambda>w. w \<noteq> [] \<and> \<not> is_ascii [hd w]) (map rev wide_spaces)"
  by code_simp+

lemma is_ascii_lstrip: "is_ascii t \<Longrightarrow> is_ascii (lstrip t)"
  unfolding is_ascii_def lstrip_def by (induction t) auto

lemma is_ascii_rev [simp]: "is_ascii (rev t) = is_ascii t"
  by (simp add: is_ascii_def)

lemma strip_text_ascii: "is_ascii t \<Longrightarrow> strip_text t = strip t"
  using strip_front_ascii [OF _ wide_spaces_bytes(1), of t]
    strip_front_ascii [OF _ wide_spaces_bytes(2), of "rev (lstrip t)"] is_ascii_lstrip [of t]
  by (simp add: strip_text_def strip_def)

end
