(* ===== verification/Json.thy ===== *)
theory Json
  imports Prelude
begin

text \<open>
  \<open>json.loads\<close>, as far as the sources rely on it: planner replies, webhook bodies and the
  helper protocol are parsed with it.  Reals are exact, characters above 255 are written as
  their UTF-8 bytes and the non-standard constants \<open>NaN\<close> and \<open>Infinity\<close> are
  refused; a repeated key keeps its last value in the place of its first occurrence.
\<close>

definition json_space :: "char \<Rightarrow> bool" where
  "json_space c = ((of_char c :: nat) \<in> {32, 9, 10, 13})"

definition skip_space :: "string \<Rightarrow> string" where
  "skip_space = dropWhile json_space"

definition hex_val :: "char \<Rightarrow> nat option" where
  "hex_val c =
     (if is_digit c then Some (digit_val c)
      else if CHR ''a'' \<le> c \<and> c \<le> CHR ''f'' then Some (of_char c - 87)
      else if CHR ''A'' \<le> c \<and> c \<le> CHR ''F'' then Some (of_char c - 55)
      else None)"

definition utf8 :: "nat \<Rightarrow> string" where
  "utf8 n =
     (if n < 256 then [char_of n]
      else if n < 2048 then [char_of (192 + n div 64), char_of (128 + n mod 64)]
      else [char_of (224 + n div 4096), char_of (128 + (n div 64) mod 64), char_of (128 + n mod 64)])"

text \<open>The characters up to the closing quote and the text after it.\<close>

fun parse_chars :: "string \<Rightarrow> (string \<times> string) option" where
  "parse_chars [] = None"
| "parse_chars (c # cs) =
     (let n = (of_char c :: nat) in
      if n = 34 then Some ([], cs)
      else if n = 92 then
        (case cs of
           [] \<Rightarrow> None
         | e # cs1 \<Rightarrow>
             let k = (of_char e :: nat) in
             if k = 117 then
               (case cs1 of
                  a # b # d # f # cs2 \<Rightarrow>
                    (case (hex_val a, hex_val b, hex_val d, hex_val f) of
                       (Some w, Some x, Some y, Some z) \<Rightarrow>
                         map_option (\<lambda>(s, r). (utf8 (4096 * w + 256 * x + 16 * y + z) @ s, r)) (parse_chars cs2)
                     | _ \<Rightarrow> None)
                | _ \<Rightarrow> None)
             else
               (case map_of [(34, e), (92, e), (47, e), (98, char_of (8 :: nat)), (102, char_of (12 :: nat)),
                    (110, char_of (10 :: nat)), (114, char_of (13 :: nat)), (116, char_of (9 :: nat))] k of
                  None \<Rightarrow> None
                | Some x \<Rightarrow> map_option (\<lambda>(s, r). (x # s, r)) (parse_chars cs1)))
      else if n < 32 then None
      else map_option (\<lambda>(s, r). (c # s, r)) (parse_chars cs))"

definition take_digits :: "string \<Rightarrow> string \<times> string" where
  "take_digits s = (takeWhile is_digit s, dropWhile is_digit s)"

definition pow10 :: "int \<Rightarrow> real" where
  "pow10 e = (if e \<ge> 0 then 10 ^ nat e else 1 / 10 ^ nat (- e))"

text \<open>The integer part, the fraction digits and the exponent at the head of the text.\<close>

definition split_whole :: "string \<Rightarrow> string \<times> string" where
  "split_whole s = (if s \<noteq> [] \<and> hd s = CHR ''0'' then ([CHR ''0''], tl s) else take_digits s)"

definition split_frac :: "string \<Rightarrow> string \<times> string" where
  "split_frac s = (case s of
       [] \<Rightarrow> ([], s)
     | c # cs \<Rightarrow> if c = CHR ''.'' \<and> fst (take_digits cs) \<noteq> [] then take_digits cs else ([], s))"

definition split_exp :: "string \<Rightarrow> int option \<times> string" where
  "split_exp s = (case s of
       [] \<Rightarrow> (None, s)
     | c # cs \<Rightarrow>
         if c = CHR ''e'' \<or> c = CHR ''E'' then
           (let neg = (cs \<noteq> [] \<and> hd cs = CHR ''-'');
                cs1 = (if cs \<noteq> [] \<and> (hd cs = CHR ''-'' \<or> hd cs = CHR ''+'') then tl cs else cs);
                (es, r) = take_digits cs1
            in if es = [] then (None, s)
               else (Some (if neg then - int (digits_val es) else int (digits_val es)), r))
         else (None, s))"

text \<open>The number at the head of the text: an integer, or a real when it has a fraction or an exponent.\<close>

definition parse_unsigned :: "bool \<Rightarrow> string \<Rightarrow> (json \<times> string) option" where
  "parse_unsigned neg s =
     (let (ds, s2) = split_whole s; (fr, s3) = split_frac s2; (ex, s4) = split_exp s3;
          m = int (digits_val (ds @ fr)); v = (if neg then - m else m)
      in if ds = [] then None
         else if fr = [] \<and> ex = None then Some (JInt v, s4)
         else Some (JReal (real_of_int v * pow10 ((case ex of None \<Rightarrow> 0 | Some e \<Rightarrow> e) - int (length fr))), s4))"

definition parse_number :: "string \<Rightarrow> (json \<times> string) option" where
  "parse_number s =
     (if s \<noteq> [] \<and> hd s = CHR ''-'' then parse_unsigned True (tl s) else parse_unsigned False s)"

definition strip_word :: "string \<Rightarrow> json \<Rightarrow> string \<Rightarrow> (json \<times> string) option" where
  "strip_word w v s = (if starts_with w s then Some (v, drop (length w) s) else None)"

text \<open>\<open>n\<close> bounds the nesting and the number of elements; the length of the text is enough.\<close>

fun parse_value :: "nat \<Rightarrow> string \<Rightarrow> (json \<times> string) option"
  and parse_items :: "nat \<Rightarrow> string \<Rightarrow> (json list \<times> string) option"
  and parse_fields :: "nat \<Rightarrow> string \<Rightarrow> ((string \<times> json) list \<times> string) option"
  where
  "parse_value 0 s = None"
| "parse_value (Suc n) s =
     (case s of
        [] \<Rightarrow> None
      | c # cs \<Rightarrow>
          if c = CHR 0x22 then map_option (\<lambda>(t, r). (JStr t, r)) (parse_chars cs)
          else if c = CHR ''{'' then
            (case skip_space cs of
               [] \<Rightarrow> None
             | d # ds \<Rightarrow>
                 if d = CHR ''}'' then Some (JObj [], ds)
                 else map_option (\<lambda>(fs, r). (JObj (AList.updates (map fst fs) (map snd fs) []), r))
                        (parse_fields n (d # ds)))
          else if c = CHR ''['' then
            (case skip_space cs of
               [] \<Rightarrow> None
             | d # ds \<Rightarrow>
                 if d = CHR '']'' then Some (JList [], ds)
                 else map_option (\<lambda>(vs, r). (JList vs, r)) (parse_items n (d # ds)))
          else if c = CHR ''n'' then strip_word ''null'' JNull s
          else if c = CHR ''t'' then strip_word ''true'' (JBool True) s
          else if c = CHR ''f'' then strip_word ''false'' (JBool False) s
          else parse_number s)"
| "parse_items 0 s = None"
| "parse_items (Suc n) s =
     (case parse_value n s of
        None \<Rightarrow> None
      | Some (v, r) \<Rightarrow>
          (case skip_space r of
             [] \<Rightarrow> None
           | c # cs \<Rightarrow>
               if c = CHR '']'' then Some ([v], cs)
               else if c = CHR '','' then
                 map_option (\<lambda>(vs, r'). (v # vs, r')) (parse_items n (skip_space cs))
               else None))"
| "parse_fields 0 s = None"
| "parse_fields (Suc n) s =
     (case s of
        [] \<Rightarrow> None
      | q # qs \<Rightarrow>
          if q \<noteq> CHR 0x22 then None
          else case parse_chars qs of
              None \<Rightarrow> None
            | Some (k, r) \<Rightarrow>
                (case skip_space r of
                   [] \<Rightarrow> None
                 | c # cs \<Rightarrow>
                     if c \<noteq> CHR '':'' then None
                     else case parse_value n (skip_space cs) of
                         None \<Rightarrow> None
                       | Some (v, r1) \<Rightarrow>
                           (case skip_space r1 of
                              [] \<Rightarrow> None
                            | e # es \<Rightarrow>
                                if e = CHR ''}'' then Some ([(k, v)], es)
                                else if e = CHR '','' then
                                  map_option (\<lambda>(fs, r'). ((k, v) # fs, r')) (parse_fields n (skip_space es))
                                else None)))"

definition loads :: "string \<Rightarrow> json option" where
  "loads s = (case parse_value (Suc (2 * length s)) (skip_space s) of
       None \<Rightarrow> None
     | Some (v, r) \<Rightarrow> if skip_space r = [] then Some v else None)"

text \<open>\<open>d.get(k)\<close> on a parsed object.\<close>

definition field :: "string \<Rightarrow> json_dict \<Rightarrow> json option" where
  "field k d = map_of d k"


section \<open>Printing and parsing\<close>

lemma char_eqI: "of_char c = (n :: nat) \<Longrightarrow> c = char_of n"
  by (metis char_of_char)

lemma hex_val_hex_char: "d < 16 \<Longrightarrow> hex_val (hex_char d) = Some d"
  by (cases "d < 10") (simp_all add: hex_val_def hex_char_def is_digit_code digit_val_def less_eq_char_def)

lemma parse_escape:
  "parse_chars (escape_char c @ r) = map_option (\<lambda>(s, r'). (c # s, r')) (parse_chars r)"
proof -
  define n where "n = (of_char c :: nat)"
  have c: "c = char_of n" by (simp add: n_def)
  consider "n = 34 \<or> n = 92" | "n \<in> {10, 13, 9, 8, 12}" | "n < 32" "n \<notin> {10, 13, 9, 8, 12}" | "n \<ge> 32" "n \<noteq> 34" "n \<noteq> 92"
    by force
  then show ?thesis
  proof cases
    case 1
    then show ?thesis by (auto simp: escape_char_def n_def [symmetric] Let_def)
  next
    case 2
    then show ?thesis using c by (auto simp: escape_char_def n_def [symmetric] Let_def)
  next
    case 3
    have "hex_val (hex_char (n div 16)) = Some (n div 16)" "hex_val (hex_char (n mod 16)) = Some (n mod 16)"
      using 3 by (auto intro: hex_val_hex_char)
    moreover have "hex_val (CHR ''0'') = Some 0" by (simp add: hex_val_def is_digit_def digit_val_def)
    moreover have "utf8 (16 * (n div 16) + n mod 16) = [c]" using 3 c by (simp add: utf8_def)
    ultimately show ?thesis using 3
      by (auto simp: escape_char_def n_def [symmetric] Let_def)
  next
    case 4
    then show ?thesis by (simp add: escape_char_def n_def [symmetric] Let_def)
  qed
qed

lemma parse_dump_str: "parse_chars (concat (map escape_char t) @ CHR 0x22 # r) = Some (t, r)"
  by (induction t) (simp_all add: parse_escape)


text \<open>What can follow a printed value: the end, or a character that no number continues with.\<close>

definition stops_number :: "string \<Rightarrow> bool" where
  "stops_number r = (case r of [] \<Rightarrow> True | c # _ \<Rightarrow> \<not> is_digit c \<and> c \<notin> {CHR ''.'', CHR ''e'', CHR ''E''})"

lemma take_digits_append:
  assumes "list_all is_digit ds" and "stops_number r"
  shows "take_digits (ds @ r) = (ds, r)"
proof -
  have "\<forall>c\<in>set ds. is_digit c" using assms(1) by (simp add: list_all_iff)
  then show ?thesis using assms(2)
    by (cases r) (auto simp: take_digits_def stops_number_def)
qed

lemma show_nat_head: "n > 0 \<Longrightarrow> hd (show_nat n) \<noteq> CHR ''0''"
proof (induction n rule: show_nat.induct)
  case (1 n)
  show ?case
  proof (cases "n < 10")
    case True
    have "(of_char (digit_char n) :: nat) \<noteq> of_char (CHR ''0'')"
      using 1(2) True by (simp add: of_char_digit_char)
    then have "digit_char n \<noteq> CHR ''0''" by metis
    with True show ?thesis by (simp add: show_nat.simps [of n])
  next
    case False
    then have "hd (show_nat (n div 10)) \<noteq> CHR ''0''" using 1 by simp
    with False show ?thesis by (simp add: show_nat.simps [of n] hd_append)
  qed
qed

lemma show_nat_0: "show_nat 0 = [CHR ''0'']"
proof -
  have "digit_char 0 = CHR ''0''" by code_simp
  then show ?thesis by (simp add: show_nat.simps [of 0])
qed

lemma digit_not_sign: "is_digit c \<Longrightarrow> c \<noteq> CHR ''-'' \<and> c \<noteq> CHR 0x22 \<and> c \<noteq> CHR ''{'' \<and> c \<noteq> CHR ''['' \<and>
    c \<noteq> CHR ''n'' \<and> c \<noteq> CHR ''t'' \<and> c \<noteq> CHR ''f'' \<and> \<not> json_space c \<and> c \<noteq> CHR '']'' \<and> c \<noteq> CHR ''}''"
  by (auto simp: is_digit_code json_space_def)

lemma show_nat_cons: "\<exists>c cs. show_nat n = c # cs \<and> is_digit c \<and> list_all is_digit cs"
  using show_nat_digits [of n] show_nat_nonempty [of n] by (cases "show_nat n") auto

lemma split_tails: "stops_number r \<Longrightarrow> split_frac r = ([], r)" "stops_number r \<Longrightarrow> split_exp r = (None, r)"
  by (auto simp: split_frac_def split_exp_def stops_number_def split: list.splits)

lemma split_whole_show_nat: "stops_number r \<Longrightarrow> split_whole (show_nat n @ r) = (show_nat n, r)"
proof (cases "n = 0")
  case True
  then show ?thesis by (simp add: show_nat_0 split_whole_def)
next
  case False
  assume "stops_number r"
  with False show ?thesis by (simp add: split_whole_def show_nat_head take_digits_append show_nat_digits)
qed

lemma parse_unsigned_show_nat:
  "stops_number r \<Longrightarrow> parse_unsigned neg (show_nat n @ r) = Some (JInt (if neg then - int n else int n), r)"
  by (simp add: parse_unsigned_def split_whole_show_nat split_tails)

lemma parse_number_show_int:
  assumes "stops_number r"
  shows "parse_number (show_int i @ r) = Some (JInt i, r)"
proof (cases "i < 0")
  case True
  then show ?thesis by (simp add: parse_number_def show_int_def parse_unsigned_show_nat [OF assms])
next
  case False
  obtain c cs where c: "show_nat (nat i) = c # cs" "is_digit c" using show_nat_cons by blast
  then have "hd (show_nat (nat i) @ r) \<noteq> CHR ''-''" using digit_not_sign by simp
  then show ?thesis using False by (simp add: parse_number_def show_int_def parse_unsigned_show_nat [OF assms])
qed


text \<open>Values that print exactly: no float, no repeated key.\<close>

fun plain :: "json \<Rightarrow> bool" and plain_items :: "json list \<Rightarrow> bool" and plain_fields :: "json_dict \<Rightarrow> bool" where
  "plain (JReal x) = False"
| "plain (JList vs) = plain_items vs"
| "plain (JObj fs) = (distinct (map fst fs) \<and> plain_fields fs)"
| "plain (JInt i) = True"
| "plain v = True"
| "plain_items [] = True"
| "plain_items (v # vs) = (plain v \<and> plain_items vs)"
| "plain_fields [] = True"
| "plain_fields ((k, v) # fs) = (plain v \<and> plain_fields fs)"

fun need :: "json \<Rightarrow> nat" and need_items :: "json list \<Rightarrow> nat" and need_fields :: "json_dict \<Rightarrow> nat" where
  "need (JList vs) = Suc (need_items vs)"
| "need (JObj fs) = Suc (need_fields fs)"
| "need v = 1"
| "need_items [] = 0"
| "need_items (v # vs) = Suc (max (need v) (need_items vs))"
| "need_fields [] = 0"
| "need_fields ((k, v) # fs) = Suc (max (need v) (need_fields fs))"

lemma update_new: "k \<notin> fst ` set xs \<Longrightarrow> AList.update k v xs = xs @ [(k, v)]"
  by (induction xs) auto

lemma updates_distinct:
  "distinct (map fst (xs @ ys)) \<Longrightarrow> AList.updates (map fst ys) (map snd ys) xs = xs @ ys"
proof (induction ys arbitrary: xs)
  case (Cons y ys)
  then have "AList.update (fst y) (snd y) xs = xs @ [y]" by (simp add: update_new)
  with Cons.IH [of "xs @ [y]"] Cons.prems show ?case by (cases y) (simp add: AList.updates_def)
qed (simp add: AList.updates_def)

lemma skip_space_token: "\<not> json_space c \<Longrightarrow> skip_space (c # cs) = c # cs"
  by (simp add: skip_space_def)

lemma skip_space_one: "skip_space (CHR '' '' # s) = skip_space s"
  by (simp add: skip_space_def json_space_def)

lemma dumps_head:
  "plain v \<Longrightarrow> \<exists>c cs. dumps rep v = c # cs \<and> \<not> json_space c \<and> c \<noteq> CHR '']'' \<and> c \<noteq> CHR ''}''"
proof (cases v)
  case (JInt i)
  then show ?thesis using show_nat_cons [of "nat i"] digit_not_sign
    by (cases "i < 0") (auto simp: show_int_def json_space_def)
qed (auto simp: json_space_def dump_str_def)

lemma join_cons: "join sep (x # xs) = x @ (if xs = [] then [] else sep @ join sep xs)"
  by (cases xs) simp_all

lemma dumps_skip: "plain v \<Longrightarrow> skip_space (dumps rep v @ r) = dumps rep v @ r"
  using dumps_head [of v rep] by (auto simp: skip_space_token)

lemma parse_value_int:
  assumes "stops_number r"
  shows "parse_value (Suc n) (show_int i @ r) = Some (JInt i, r)"
proof -
  obtain c cs where c: "show_int i = c # cs"
    "c \<noteq> CHR 0x22" "c \<noteq> CHR ''{''" "c \<noteq> CHR ''[''" "c \<noteq> CHR ''n''" "c \<noteq> CHR ''t''" "c \<noteq> CHR ''f''"
    using show_nat_cons [of "nat i"] digit_not_sign by (cases "i < 0") (auto simp: show_int_def)
  then show ?thesis using parse_number_show_int [OF assms, of i] by simp
qed

lemma dump_items_join:
  "join '', '' (dump_items rep (v # w # vs)) @ r = dumps rep v @ CHR '','' # CHR '' '' # join '', '' (dump_items rep (w # vs)) @ r"
  by simp

lemma stops_number_separators: "stops_number (CHR '','' # r)" "stops_number (CHR '']'' # r)" "stops_number (CHR ''}'' # r)"
  by (simp_all add: stops_number_def is_digit_code)

lemma not_json_space [simp]:
  "\<not> json_space (CHR '','')" "\<not> json_space (CHR '']'')" "\<not> json_space (CHR ''}'')" "\<not> json_space (CHR 0x22)"
  "\<not> json_space (CHR '':'')"
  by (simp_all add: json_space_def)

lemma parse_value_dumps:
  "plain v \<Longrightarrow> stops_number r \<Longrightarrow> need v \<le> n \<Longrightarrow> parse_value n (dumps rep v @ r) = Some (v, r)"
  and parse_items_dumps:
  "plain_items vs \<Longrightarrow> vs \<noteq> [] \<Longrightarrow> need_items vs \<le> n \<Longrightarrow>
   parse_items n (join '', '' (dump_items rep vs) @ CHR '']'' # r) = Some (vs, r)"
  and parse_fields_dumps:
  "plain_fields fs \<Longrightarrow> fs \<noteq> [] \<Longrightarrow> need_fields fs \<le> n \<Longrightarrow>
   parse_fields n (join '', '' (dump_fields rep fs) @ CHR ''}'' # r) = Some (fs, r)"
proof (induction v and vs and fs arbitrary: n r and n r and n r rule: plain_plain_items_plain_fields.induct)
  case (2 vs)
  then obtain m where m: "n = Suc m" "need_items vs \<le> m" by (cases n) auto
  show ?case
  proof (cases vs)
    case Nil
    then show ?thesis using m by (simp add: skip_space_token)
  next
    case (Cons v ws)
    have "parse_items m (join '', '' (dump_items rep vs) @ CHR '']'' # r) = Some (vs, r)"
      using 2 m Cons by simp
    moreover obtain c cs where c: "dumps rep v = c # cs" "\<not> json_space c" "c \<noteq> CHR '']''"
      using dumps_head [of v rep] 2(2) Cons by auto
    moreover have "\<exists>ds. join '', '' (dump_items rep vs) @ CHR '']'' # r = c # ds"
      using Cons c by (simp add: join_cons)
    ultimately show ?thesis using m by (auto simp: skip_space_token)
  qed
next
  case (3 fs)
  then obtain m where m: "n = Suc m" "need_fields fs \<le> m" by (cases n) auto
  show ?case
  proof (cases fs)
    case Nil
    then show ?thesis using m by (simp add: skip_space_token AList.updates_def)
  next
    case (Cons kv ws)
    have parse: "parse_fields m (join '', '' (dump_fields rep fs) @ CHR ''}'' # r) = Some (fs, r)"
      using 3 m Cons by simp
    have "\<exists>ds. join '', '' (dump_fields rep fs) @ CHR ''}'' # r = CHR 0x22 # ds"
      using Cons by (cases kv) (simp add: dump_str_def join_cons)
    then obtain ds where ds: "join '', '' (dump_fields rep fs) @ CHR ''}'' # r = CHR 0x22 # ds" ..
    have "AList.updates (map fst fs) (map snd fs) [] = fs"
      using updates_distinct [of "[]" fs] 3(2) by simp
    then show ?thesis using m parse ds by (simp add: skip_space_token)
  qed
next
  case (4 i)
  then show ?case using parse_value_int by (cases n) auto
next
  case (7 v vs)
  then obtain m where m: "n = Suc m" "need v \<le> m" "need_items vs \<le> m" by (cases n) auto
  show ?case
  proof (cases vs)
    case Nil
    then show ?thesis using 7 m stops_number_separators by (simp add: skip_space_token)
  next
    case (Cons w ws)
    have "parse_items m (join '', '' (dump_items rep vs) @ CHR '']'' # r) = Some (vs, r)" using 7 m Cons by simp
    moreover obtain c cs where c: "dumps rep w = c # cs" "\<not> json_space c"
      using dumps_head [of w rep] 7(3) Cons by auto
    moreover have "skip_space (join '', '' (dump_items rep vs) @ CHR '']'' # r) = join '', '' (dump_items rep vs) @ CHR '']'' # r"
      using Cons c by (simp add: join_cons skip_space_token)
    moreover have "parse_value m (dumps rep v @ CHR '','' # x) = Some (v, CHR '','' # x)" for x
      using 7 m stops_number_separators by simp
    ultimately show ?thesis using m Cons by (simp add: skip_space_token skip_space_one)
  qed
next
  case (9 k v fs)
  then obtain m where m: "n = Suc m" "need v \<le> m" "need_fields fs \<le> m" by (cases n) auto
  have key: "parse_chars (concat (map escape_char k) @ CHR 0x22 # x) = Some (k, x)" for x
    by (rule parse_dump_str)
  have sp: "skip_space (dumps rep v @ x) = dumps rep v @ x" for x using dumps_skip 9(3) by simp
  show ?case
  proof (cases fs)
    case Nil
    then show ?thesis using 9 m stops_number_separators
      by (simp add: dump_str_def key skip_space_token skip_space_one sp)
  next
    case (Cons kv ws)
    have "parse_fields m (join '', '' (dump_fields rep fs) @ CHR ''}'' # r) = Some (fs, r)" using 9 m Cons by simp
    moreover have "skip_space (join '', '' (dump_fields rep fs) @ CHR ''}'' # r) = join '', '' (dump_fields rep fs) @ CHR ''}'' # r"
      using Cons by (cases kv) (simp add: dump_str_def join_cons skip_space_token)
    moreover have "parse_value m (dumps rep v @ CHR '','' # x) = Some (v, CHR '','' # x)" for x
      using 9 m stops_number_separators by simp
    moreover have "join '', '' (dump_fields rep ((k, v) # fs)) = dump_str k @ '': '' @ dumps rep v @ '', '' @ join '', '' (dump_fields rep fs)"
      using Cons by (cases kv) simp
    ultimately show ?thesis using m Cons
      by (simp add: dump_str_def key skip_space_token skip_space_one sp del: dump_fields.simps)
  qed
qed (case_tac [!] n, auto simp: strip_word_def starts_with_def dump_str_def parse_dump_str)


lemma dump_empty [simp]: "dump_items rep vs = [] \<longleftrightarrow> vs = []" "dump_fields rep fs = [] \<longleftrightarrow> fs = []"
proof -
  show "dump_items rep vs = [] \<longleftrightarrow> vs = []" by (cases vs) simp_all
  show "dump_fields rep fs = [] \<longleftrightarrow> fs = []" by (cases "(rep, fs)" rule: dump_fields.cases) simp_all
qed

lemma need_bound:
  "plain v \<Longrightarrow> need v \<le> 2 * length (dumps rep v)"
  and need_items_bound: "plain_items vs \<Longrightarrow> need_items vs \<le> Suc (2 * length (join '', '' (dump_items rep vs)))"
  and need_fields_bound: "plain_fields fs \<Longrightarrow> need_fields fs \<le> Suc (2 * length (join '', '' (dump_fields rep fs)))"
proof (induction v and vs and fs rule: plain_plain_items_plain_fields.induct)
  case (4 i)
  show ?case using show_nat_cons [of "nat i"] show_nat_cons [of "nat (- i)"]
    by (auto simp: show_int_def)
qed (auto simp: join_cons dump_str_def)

lemma parse_printed:
  assumes "plain v"
  shows "loads (dumps rep v) = Some v"
proof -
  have "parse_value (Suc (2 * length (dumps rep v))) (dumps rep v @ []) = Some (v, [])"
    using assms need_bound [OF assms, of rep] by (intro parse_value_dumps) (simp_all add: stops_number_def)
  moreover have "skip_space (dumps rep v) = dumps rep v" using dumps_skip [OF assms, of rep "[]"] by simp
  ultimately show ?thesis by (simp add: loads_def skip_space_def)
qed

text \<open>Printing and parsing JSON is a round trip: parsing what \<open>json.dumps\<close> prints for a value
  without floats and without repeated keys gives that value back, whatever strings it
  contains (quotes, backslashes and control characters included).\<close>

theorem loads_dumps:
  assumes "plain v"
  shows "loads (dumps rep v) = Some v"
  using assms by (rule parse_printed)

theorem loads_dumps_witness:
  "loads (dumps (\<lambda>_. []) (JObj [(''note'', JStr [CHR 0x22, CHR 0x0A, CHR 0x5C]), (''n'', JList [JInt (-12), JNull])]))
   = Some (JObj [(''note'', JStr [CHR 0x22, CHR 0x0A, CHR 0x5C]), (''n'', JList [JInt (-12), JNull])])"
  by (rule loads_dumps) simp

end
