(* ===== verification/Errors.thy ===== *)
theory Errors
  imports Prelude
begin

text \<open>\<open>errors.py\<close>: the domain errors, their stable codes, their HTTP status and the wire shape.\<close>

datatype error_kind =
    Not_found | Conflict | Validation_failed | Unauthenticated | Forbidden | Quota_exceeded
  | Provider_unavailable | Run_state_conflict | Internal_error

record hx_error =
  er_kind :: error_kind
  er_message :: string
  er_context :: json_dict

fun code_of :: "error_kind \<Rightarrow> string" where
  "code_of Not_found = ''not_found''"
| "code_of Conflict = ''conflict''"
| "code_of Validation_failed = ''validation_failed''"
| "code_of Unauthenticated = ''unauthenticated''"
| "code_of Forbidden = ''forbidden''"
| "code_of Quota_exceeded = ''quota_exceeded''"
| "code_of Provider_unavailable = ''provider_unavailable''"
| "code_of Run_state_conflict = ''run_state_conflict''"
| "code_of Internal_error = ''internal_error''"

fun status_of :: "error_kind \<Rightarrow> int" where
  "status_of Not_found = 404"
| "status_of Conflict = 409"
| "status_of Validation_failed = 422"
| "status_of Unauthenticated = 401"
| "status_of Forbidden = 403"
| "status_of Quota_exceeded = 429"
| "status_of Provider_unavailable = 503"
| "status_of Run_state_conflict = 409"
| "status_of Internal_error = 500"

definition as_payload :: "hx_error \<Rightarrow> json_dict" where
  "as_payload e =
     [(''code'', JStr (code_of (er_kind e))), (''detail'', JStr (er_message e))]
     @ (if er_context e = [] then [] else [(''context'', JObj (er_context e))])"

definition not_found :: "string \<Rightarrow> json_dict \<Rightarrow> hx_error" where
  "not_found msg ctx = \<lparr>er_kind = Not_found, er_message = msg, er_context = ctx\<rparr>"

end
