(* ===== verification/Knowledge.thy ===== *)
theory Knowledge
  imports Run_Props Errors
begin

text \<open>
  \<open>knowledge.py\<close>, \<open>vectorstore.py\<close> and \<open>api/ingest.py\<close>: splitting a document into overlapping
  chunks, embedding and storing them, and hybrid retrieval.  The engine reaches its chunks through
  the interface \<open>vector_store\<close>, which the SQL store provides.
\<close>

section \<open>Splitting\<close>

text \<open>\<open>s.rfind(p)\<close>, \<open>None\<close> for -1.\<close>

fun rfind :: "string \<Rightarrow> string \<Rightarrow> nat option" where
  "rfind p [] = (if p = [] then Some 0 else None)"
| "rfind p (x # xs) =
     (case rfind p xs of Some i \<Rightarrow> Some (Suc i) | None \<Rightarrow> if starts_with p (x # xs) then Some 0 else None)"

definition boundaries :: "string list" where
  "boundaries = [newline @ newline, ''. '', newline]"

fun boundary_cut :: "nat \<Rightarrow> string list \<Rightarrow> string \<Rightarrow> nat" where
  "boundary_cut width [] window = length window"
| "boundary_cut width (b # bs) window =
     (case rfind b window of
        Some pos \<Rightarrow> if pos > width div 2 then pos + length b else boundary_cut width bs window
      | None \<Rightarrow> boundary_cut width bs window)"

text \<open>Where the window at \<open>start\<close> is cut, and where the next one starts.\<close>

definition window_cut :: "nat \<Rightarrow> string \<Rightarrow> nat \<Rightarrow> nat" where
  "window_cut width t start =
     (let window = take width (drop start t)
      in if start + length window < length t then boundary_cut width boundaries window else length window)"

definition next_start :: "nat \<Rightarrow> nat \<Rightarrow> nat \<Rightarrow> nat" where
  "next_start overlap start n = (if start + n - overlap > start then start + n - overlap else start + n)"

lemma boundary_cut_pos: "window \<noteq> [] \<Longrightarrow> 0 < boundary_cut width bs window"
  by (induction bs) (auto split: option.splits)

lemma window_cut_pos: "0 < width \<Longrightarrow> start < length t \<Longrightarrow> 0 < window_cut width t start"
  by (auto simp: window_cut_def Let_def intro!: boundary_cut_pos)

lemma next_start_gt: "0 < n \<Longrightarrow> start < next_start overlap start n"
  by (simp add: next_start_def)

text \<open>A width of zero is refused by the caller: it cannot exceed the overlap.\<close>

function split_loop :: "nat \<Rightarrow> nat \<Rightarrow> string \<Rightarrow> nat \<Rightarrow> string list" where
  "split_loop width overlap t start =
     (if 0 < width \<and> start < length t then
        (let n = window_cut width t start;
             chunk = strip (take n (take width (drop start t)));
             rest = split_loop width overlap t (next_start overlap start n)
         in if chunk = [] then rest else chunk # rest)
      else [])"
  by pat_completeness auto
termination
  by (relation "measure (\<lambda>(width, overlap, t, start). length t - start)")
    (use window_cut_pos next_start_gt in \<open>fastforce intro!: diff_less_mono2\<close>)+

declare split_loop.simps [simp del]

text \<open>\<open>None\<close> is the \<open>ValueError\<close> of sizes that make no progress.\<close>

definition split_text :: "string \<Rightarrow> nat \<Rightarrow> nat \<Rightarrow> string list option" where
  "split_text t width overlap =
     (if width \<le> overlap then None else Some (split_loop width overlap (strip t) 0))"

section \<open>The vector store\<close>

record scored_chunk =
  sk_document :: ident
  sk_title :: string
  sk_text :: string
  sk_score :: real
  sk_index :: int

record chunk_to_store =
  kt_index :: int
  kt_text :: string
  kt_embedding :: "real list"

definition delete_document_chunks :: "ident \<Rightarrow> 'w sys \<Rightarrow> 'w sys" where
  "delete_document_chunks doc = on_db (\<lambda>d. d\<lparr>chunks := filter (\<lambda>c. dk_document c \<noteq> doc) (chunks d)\<rparr>)"

definition add_chunk :: "ident \<Rightarrow> ident \<Rightarrow> chunk_to_store \<Rightarrow> 'w sys \<Rightarrow> 'w sys" where
  "add_chunk doc ws c s =
     use_id (on_db (\<lambda>d. d\<lparr>chunks := chunks d @ [\<lparr>dk_id = fresh s, dk_document = doc, dk_workspace = ws, dk_index = kt_index c,
       dk_text = kt_text c, dk_embedding = kt_embedding c\<rparr>]\<rparr>) s)"

definition replace_document_chunks :: "ident \<Rightarrow> ident \<Rightarrow> chunk_to_store list \<Rightarrow> 'w sys \<Rightarrow> nat \<times> 'w sys" where
  "replace_document_chunks doc ws cs s = (length cs, fold (add_chunk doc ws) cs (delete_document_chunks doc s))"

definition keyword_weight :: real where
  "keyword_weight = 1 / 10"

definition keyword_bonus :: "string set \<Rightarrow> string \<Rightarrow> real" where
  "keyword_bonus terms t =
     (if terms = {} then 0 else keyword_weight * (real (card (terms \<inter> set (split_ws (lower t)))) / real (card terms)))"

definition chunk_score :: "real list \<Rightarrow> string set \<Rightarrow> document_chunk \<Rightarrow> real" where
  "chunk_score q terms c = cosine_similarity q (dk_embedding c) + keyword_bonus terms (dk_text c)"

text \<open>\<open>round(x, 4)\<close>.\<close>

definition round4 :: "real \<Rightarrow> real" where
  "round4 x = of_int (round_half_even (10000 * x)) / 10000"

definition scored :: "database \<Rightarrow> real list \<Rightarrow> string set \<Rightarrow> real \<Rightarrow> document_chunk \<Rightarrow> scored_chunk option" where
  "scored d q terms min_score c =
     (case find_row dc_id (dk_document c) (documents d) of
        None \<Rightarrow> None
      | Some doc \<Rightarrow>
          if chunk_score q terms c \<ge> min_score
          then Some \<lparr>sk_document = dk_document c, sk_title = dc_title doc, sk_text = dk_text c,
                 sk_score = round4 (chunk_score q terms c), sk_index = dk_index c\<rparr>
          else None)"

definition similarity_search ::
  "ident \<Rightarrow> real list \<Rightarrow> string set \<Rightarrow> nat \<Rightarrow> real \<Rightarrow> database \<Rightarrow> scored_chunk list" where
  "similarity_search ws q terms top_k min_score d =
     take top_k (sort_key (\<lambda>r. (- sk_score r, sk_document r, sk_index r))
       (List.map_filter (scored d q terms min_score) (filter (\<lambda>c. dk_workspace c = ws) (chunks d))))"

text \<open>The stand-in for pgvector searches as its parent until it is enabled; then it raises.\<close>

definition pg_similarity_search ::
  "bool \<Rightarrow> ident \<Rightarrow> real list \<Rightarrow> string set \<Rightarrow> nat \<Rightarrow> real \<Rightarrow> database \<Rightarrow> scored_chunk list option" where
  "pg_similarity_search enabled ws q terms top_k min_score d =
     (if enabled then None else Some (similarity_search ws q terms top_k min_score d))"

section \<open>The engine\<close>

definition on_models ::
  "('v model_router \<Rightarrow> 'v \<Rightarrow> 'a \<times> 'v model_router \<times> 'v) \<Rightarrow> 'v state \<Rightarrow> 'a \<times> 'v state" where
  "on_models f s =
     (let (x, rt, v) = f (bk_router (outside s)) (bk_vendors (outside s))
      in (x, on_backend (\<lambda>b. b\<lparr>bk_router := rt, bk_vendors := v\<rparr>) s))"

lemma on_models_db [simp]: "db (snd (on_models f s)) = db s"
  by (simp add: on_models_def split_beta)

datatype ingest_error = No_document hx_error | Bad_sizes | Not_embedded embed_error | Uneven bool

definition embed_batch :: nat where
  "embed_batch = 64"

definition embed_texts ::
  "'v timing \<Rightarrow> string list \<Rightarrow> 'v model_router \<Rightarrow> 'v \<Rightarrow> (embed_error + real list list) \<times> 'v model_router \<times> 'v" where
  "embed_texts tm ts rt v =
     (case embed tm ts ''embed'' rt v of
        (Inl e, rt1, v1) \<Rightarrow> (Inl (Embed_unresolved e), rt1, v1)
      | (Inr (Ok vecs), rt1, v1) \<Rightarrow> (Inr vecs, rt1, v1)
      | (Inr (Exc e), rt1, v1) \<Rightarrow> (Inl (Embed_failed e), rt1, v1)
      | (Inr (Circuit_open n), rt1, v1) \<Rightarrow> (Inl (Embed_circuit_open n), rt1, v1)
      | (Inr Assertion_failed, rt1, v1) \<Rightarrow> (Inl Embed_assertion, rt1, v1))"

text \<open>\<open>range(0, len(pieces), 64)\<close>: batches until the pieces are used up.\<close>

function embed_all ::
  "'v timing \<Rightarrow> string list \<Rightarrow> 'v state \<Rightarrow> (embed_error + real list list) \<times> 'v state" where
  "embed_all tm pieces s =
     (if pieces = [] then (Inr [], s)
      else case on_models (embed_texts tm (take embed_batch pieces)) s of
        (Inl e, s1) \<Rightarrow> (Inl e, s1)
      | (Inr vecs, s1) \<Rightarrow>
          (case embed_all tm (drop embed_batch pieces) s1 of
             (Inl e, s2) \<Rightarrow> (Inl e, s2)
           | (Inr rest, s2) \<Rightarrow> (Inr (vecs @ rest), s2)))"
  by pat_completeness auto
termination
  by (relation "measure (\<lambda>(tm, pieces, s). length pieces)") (auto simp: embed_batch_def)

declare embed_all.simps [simp del]

definition chunk_list :: "string list \<Rightarrow> real list list \<Rightarrow> chunk_to_store list" where
  "chunk_list pieces vecs =
     map (\<lambda>(i, piece, v). \<lparr>kt_index = int i, kt_text = piece, kt_embedding = v\<rparr>) (List.enumerate 0 (zip pieces vecs))"

definition get_document :: "ident \<Rightarrow> database \<Rightarrow> document option" where
  "get_document k d = find_row dc_id k (documents d)"

definition update_document :: "ident \<Rightarrow> (document \<Rightarrow> document) \<Rightarrow> 'w sys \<Rightarrow> 'w sys" where
  "update_document k f = on_db (\<lambda>d. d\<lparr>documents := update_where (\<lambda>x. dc_id x = k) f (documents d)\<rparr>)"

text \<open>The rows of a transaction that fails are not written; what was done outside the database stays.\<close>

definition ingest :: "'v services \<Rightarrow> ident \<Rightarrow> string \<Rightarrow> 'v state \<Rightarrow> (ingest_error + nat) \<times> 'v state" where
  "ingest sv k t s =
     (case get_document k (db s) of
        None \<Rightarrow> (Inl (No_document (not_found (''document '' @ k @ '' not found'') [(''document_id'', JStr k)])), s)
      | Some doc \<Rightarrow>
          (case split_text t (sv_chunk_size sv) (sv_chunk_overlap sv) of
             None \<Rightarrow> (Inl Bad_sizes, s)
           | Some pieces \<Rightarrow>
               (case embed_all (sv_timing sv) pieces s of
                  (Inl e, s1) \<Rightarrow> (Inl (Not_embedded e), s1)
                | (Inr vecs, s1) \<Rightarrow>
                    if length pieces \<noteq> length vecs then (Inl (Uneven (length vecs < length pieces)), s1)
                    else
                      (case replace_document_chunks k (dc_workspace doc) (chunk_list pieces vecs) s1 of
                         (n, s2) \<Rightarrow>
                           (Inr n, update_document k (\<lambda>x. x\<lparr>dc_chunk_count := int n, dc_status := Ready\<rparr>) s2)))))"

definition query_terms :: "string \<Rightarrow> string set" where
  "query_terms q = set (filter (\<lambda>t. length t > 2) (split_ws (lower q)))"

definition search_knowledge ::
  "'v services \<Rightarrow> ident \<Rightarrow> string \<Rightarrow> nat \<Rightarrow> real \<Rightarrow> 'v state \<Rightarrow> (embed_error + scored_chunk list) \<times> 'v state" where
  "search_knowledge sv ws query top_k min_score s =
     (case on_models (embed_one (sv_timing sv) query) s of
        (Inl e, s1) \<Rightarrow> (Inl e, s1)
      | (Inr q, s1) \<Rightarrow> (Inr (similarity_search ws q (query_terms query) top_k min_score (db s1)), s1))"

definition ingest_event :: "ident \<Rightarrow> json_dict \<Rightarrow> event" where
  "ingest_event ws payload =
     \<lparr>ev_type = DOCUMENT_INGESTED, ev_workspace = ws, ev_session = None, ev_run = None, ev_payload = payload\<rparr>"

fun ingest_text :: "('v services) \<Rightarrow> ingest_error \<Rightarrow> string" where
  "ingest_text sv (No_document e) = er_message e"
| "ingest_text sv Bad_sizes = ''chunk_size must exceed overlap''"
| "ingest_text sv (Not_embedded e) = sv_embed_text sv e"
| "ingest_text sv (Uneven shorter) = ''zip() argument 2 is '' @ (if shorter then ''shorter'' else ''longer'') @ '' than argument 1''"

definition ingest_and_announce :: "'v services \<Rightarrow> ident \<Rightarrow> string \<Rightarrow> 'v state \<Rightarrow> 'v state" where
  "ingest_and_announce sv k t s =
     (case ingest sv k t s of
        (Inl e, s1) \<Rightarrow>
          (case get_document k (db s1) of
             None \<Rightarrow> s1
           | Some doc \<Rightarrow>
               publish (ingest_event (dc_workspace doc)
                   [(''document_id'', JStr k), (''ok'', JBool False), (''error'', JStr (ingest_text sv e))])
                 (update_document k (\<lambda>x. x\<lparr>dc_status := Failed_ingest\<rparr>) s1))
      | (Inr n, s1) \<Rightarrow>
          (case get_document k (db s1) of
             None \<Rightarrow> s1
           | Some doc \<Rightarrow>
               publish (ingest_event (dc_workspace doc)
                   [(''document_id'', JStr k), (''ok'', JBool True), (''chunks'', JInt (int n))]) s1))"

definition forget_document :: "ident \<Rightarrow> 'w sys \<Rightarrow> 'w sys" where
  "forget_document k = delete_document_chunks k"

end
