(* ===== verification/Conductor.thy ===== *)
theory Conductor
  imports Run_Props Json Knowledge
begin

text \<open>
  \<open>quotas.py\<close>, \<open>planning.py\<close>, \<open>orchestration.py\<close> and \<open>recovery.py\<close>: admission of
  runs, submission, cancellation, approval decisions and the recovery of orphaned runs.
  Background work is appended to the job list of the state and performed by
  \<open>perform_job\<close>, in whatever order the environment picks.
\<close>

section \<open>Quotas\<close>

record quota_policy =
  qp_max_concurrent :: int
  qp_max_per_hour :: int

record quota_usage =
  qu_active :: int
  qu_last_hour :: int

definition active_status :: "run_status \<Rightarrow> bool" where
  "active_status st = (st \<in> {Queued, Running, Awaiting_approval})"

definition micros :: "int \<Rightarrow> int" where
  "micros seconds = seconds * 1000000"

definition current_usage :: "ident \<Rightarrow> instant \<Rightarrow> database \<Rightarrow> quota_usage" where
  "current_usage ws now d =
     (let since = now - micros 3600 in
      \<lparr>qu_active = int (count_where (\<lambda>r. rn_workspace r = ws \<and> active_status (rn_status r)) (runs d)),
       qu_last_hour = int (count_where (\<lambda>r. rn_workspace r = ws \<and> rn_created r \<ge> since) (runs d))\<rparr>)"

definition quota_error :: "string \<Rightarrow> string \<Rightarrow> int \<Rightarrow> int \<Rightarrow> hx_error" where
  "quota_error msg limit value current =
     \<lparr>er_kind = Quota_exceeded, er_message = msg,
      er_context = [(''limit'', JStr limit), (''limit_value'', JInt value), (''current'', JInt current)]\<rparr>"

definition enforce_run_quota :: "ident \<Rightarrow> quota_policy \<Rightarrow> instant \<Rightarrow> database \<Rightarrow> hx_error + quota_usage" where
  "enforce_run_quota ws p now d =
     (let u = current_usage ws now d in
      if qp_max_concurrent p > 0 \<and> qu_active u \<ge> qp_max_concurrent p
      then Inl (quota_error (''workspace already has '' @ show_int (qu_active u) @ '' active runs (limit '' @
             show_int (qp_max_concurrent p) @ ''); wait for one to finish'')
             ''max_concurrent_runs'' (qp_max_concurrent p) (qu_active u))
      else if qp_max_per_hour p > 0 \<and> qu_last_hour u \<ge> qp_max_per_hour p
      then Inl (quota_error (''workspace started '' @ show_int (qu_last_hour u) @ '' runs in the last hour (limit '' @
             show_int (qp_max_per_hour p) @ '')'')
             ''max_runs_per_hour'' (qp_max_per_hour p) (qu_last_hour u))
      else Inr u)"

section \<open>The planner\<close>

definition plan_prompt :: "string \<Rightarrow> string" where
  "plan_prompt goal =
     ''Break the goal below into a short ordered plan (2-6 steps). Reply with ONLY a'' @ newline @
     ''JSON object of the form {'' @ [CHR 0x22] @ ''steps'' @ [CHR 0x22] @ '': [{'' @ [CHR 0x22] @ ''description'' @
     [CHR 0x22] @ '': '' @ [CHR 0x22] @ ''...'' @ [CHR 0x22] @ ''}]} '' @ em_dash @ '' no prose.'' @ newline @ newline @
     ''Goal: '' @ goal"

text \<open>\<open>re.search(r"\{.*\}", text, re.DOTALL)\<close>: from the first opening to the last closing brace.\<close>

definition brace_span :: "string \<Rightarrow> string option" where
  "brace_span t =
     (let u = rev (dropWhile (\<lambda>c. c \<noteq> CHR ''}'') (rev (dropWhile (\<lambda>c. c \<noteq> CHR ''{'') t)))
      in if u = [] then None else Some u)"

text \<open>\<open>Plan.model_validate\<close>: at least one step, each with a description of three characters or more.\<close>

definition plan_step :: "json \<Rightarrow> string option" where
  "plan_step j = (case j of
       JObj fs \<Rightarrow> (case field ''description'' fs of
          Some (JStr t) \<Rightarrow> if length t \<ge> 3 then Some t else None | _ \<Rightarrow> None)
     | _ \<Rightarrow> None)"

definition all_some :: "'a option list \<Rightarrow> 'a list option" where
  "all_some xs = (if None \<in> set xs then None else Some (map the xs))"

definition plan_of_json :: "json \<Rightarrow> string list option" where
  "plan_of_json j = (case j of
       JObj fs \<Rightarrow> (case field ''steps'' fs of
          Some (JList xs) \<Rightarrow> if xs = [] then None else all_some (map plan_step xs) | _ \<Rightarrow> None)
     | _ \<Rightarrow> None)"

definition parse_plan :: "string \<Rightarrow> string list option" where
  "parse_plan t = (case brace_span t of
       None \<Rightarrow> None
     | Some u \<Rightarrow> (case loads u of None \<Rightarrow> None | Some j \<Rightarrow> plan_of_json j))"

datatype plan_error = Plan_unavailable router_error | Plan_invalid

definition make_plan :: "'v services \<Rightarrow> string \<Rightarrow> 'v state \<Rightarrow> (plan_error + string list) \<times> 'v state" where
  "make_plan sv goal s =
     (case on_models (complete (sv_timing sv) ''fast''
             \<lparr>cq_model = ''unset'', cq_messages = [plain_message USER (plan_prompt goal)], cq_tools = [],
              cq_temperature = 1/5, cq_max_tokens = 800\<rparr>) s of
        (Inl e, s1) \<Rightarrow> (Inl (Plan_unavailable e), s1)
      | (Inr res, s1) \<Rightarrow>
          (case parse_plan (cm_content (cs_message res)) of
             Some steps \<Rightarrow> (Inr steps, s1)
           | None \<Rightarrow> (if length goal \<ge> 3 then Inr [goal] else Inl Plan_invalid, s1)))"

definition as_checklist :: "string list \<Rightarrow> string" where
  "as_checklist steps =
     join newline (map (\<lambda>(i, t). show_nat (i + 1) @ ''. '' @ t) (List.enumerate 0 steps))"

section \<open>Submission\<close>

datatype submit_error = Domain hx_error | Planning plan_error

definition add_message :: "ident \<Rightarrow> string \<Rightarrow> string \<Rightarrow> ident option \<Rightarrow> 'w sys \<Rightarrow> 'w sys" where
  "add_message session role content run s =
     use_id (on_db (\<lambda>d. d\<lparr>messages := messages d @ [\<lparr>mg_id = fresh s, mg_created = clock s, mg_session = session,
       mg_role = role, mg_content = content, mg_run = run\<rparr>]\<rparr>) s)"

definition dispatch :: "job \<Rightarrow> 'v state \<Rightarrow> 'v state" where
  "dispatch j s = on_backend (\<lambda>b. b\<lparr>bk_jobs := bk_jobs b @ [j]\<rparr>) s"

text \<open>The first unit of work: the session, the original run of a retried key, the quota.\<close>

definition admit ::
  "quota_policy \<Rightarrow> ident \<Rightarrow> string option \<Rightarrow> 'w sys \<Rightarrow> hx_error + (ident + session)" where
  "admit p session_id key s =
     (case get_session session_id (db s) of
        None \<Rightarrow> Inl (not_found (''session '' @ session_id @ '' not found'') [(''session_id'', JStr session_id)])
      | Some ss \<Rightarrow>
          (case (if truthy key then find (\<lambda>r. rn_workspace r = ss_workspace ss \<and> rn_idempotency_key r = key)
                                  (runs (db s)) else None) of
             Some r \<Rightarrow> Inr (Inl (rn_id r))
           | None \<Rightarrow>
               (case enforce_run_quota (ss_workspace ss) p (clock s) (db s) of
                  Inl e \<Rightarrow> Inl e
                | Inr _ \<Rightarrow> Inr (Inr ss))))"

text \<open>The second unit of work: the user's message and the queued run.\<close>

definition place_run :: "session \<Rightarrow> ident \<Rightarrow> string \<Rightarrow> string \<Rightarrow> string option \<Rightarrow> 'w sys \<Rightarrow> ident \<times> 'w sys" where
  "place_run ss session_id t goal key s =
     (let s1 = add_message session_id ''user'' t None s
      in (fresh s1, add_run (queued_run (fresh s1) (clock s1) (ss_workspace ss) session_id (ss_profile ss)
                      None goal key) s1))"

text \<open>The goal of the run: the text, followed by a plan when one was asked for.\<close>

definition plan_goal :: "'v services \<Rightarrow> string \<Rightarrow> bool \<Rightarrow> 'v state \<Rightarrow> (plan_error + string) \<times> 'v state" where
  "plan_goal sv t plan_first s =
     (if plan_first then
        (case make_plan sv t s of
           (Inl e, s1) \<Rightarrow> (Inl e, s1)
         | (Inr steps, s1) \<Rightarrow>
             (Inr (t @ newline @ newline @ ''Work through this plan:'' @ newline @ as_checklist steps), s1))
      else (Inr t, s))"

definition submit_message ::
  "'v services \<Rightarrow> quota_policy \<Rightarrow> ident \<Rightarrow> string \<Rightarrow> bool \<Rightarrow> string option \<Rightarrow> 'v state
     \<Rightarrow> (submit_error + ident) \<times> 'v state" where
  "submit_message sv p session_id t plan_first key s =
     (case admit p session_id key s of
        Inl e \<Rightarrow> (Inl (Domain e), s)
      | Inr (Inl k) \<Rightarrow> (Inr k, s)
      | Inr (Inr ss) \<Rightarrow>
          (case plan_goal sv t plan_first s of
             (Inl e, s1) \<Rightarrow> (Inl (Planning e), s1)
           | (Inr goal, s1) \<Rightarrow>
               (case place_run ss session_id t goal key s1 of
                  (k, s2) \<Rightarrow> (Inr k, dispatch (Execute_job k) s2))))"

section \<open>Cancellation\<close>

definition cancel_event :: "ident \<Rightarrow> ident \<Rightarrow> event" where
  "cancel_event ws k =
     \<lparr>ev_type = RUN_FINISHED, ev_workspace = ws, ev_session = None, ev_run = Some k,
      ev_payload = [(''status'', JStr ''cancelled''), (''answer'', JNull), (''error'', JStr ''cancelled by operator'')]\<rparr>"

definition request_cancel :: "ident \<Rightarrow> ident \<Rightarrow> 'w sys \<Rightarrow> (hx_error + bool) \<times> 'w sys" where
  "request_cancel k ws s =
     (case get_run k (db s) of
        None \<Rightarrow> (Inl (not_found (''run '' @ k @ '' not found'') [(''run_id'', JStr k)]), s)
      | Some r \<Rightarrow>
          if rn_workspace r \<noteq> ws
          then (Inl (not_found (''run '' @ k @ '' not found'') [(''run_id'', JStr k)]), s)
          else if terminal_status (rn_status r) then (Inr False, s)
          else if rn_status r \<in> {Queued, Awaiting_approval}
          then (Inr True, publish (cancel_event ws k) (update_run k
                  (\<lambda>r. r\<lparr>rn_cancel_requested := True, rn_status := Cancelled, rn_error := Some ''cancelled by operator'',
                         rn_checkpoint := None, rn_finished_at := Some (clock s)\<rparr>) s))
          else (Inr True, update_run k (\<lambda>r. r\<lparr>rn_cancel_requested := True\<rparr>) s))"

section \<open>Approval decisions\<close>

definition decision_event :: "approval_request \<Rightarrow> bool \<Rightarrow> event" where
  "decision_event a approved =
     \<lparr>ev_type = APPROVAL_DECIDED, ev_workspace = ar_workspace a, ev_session = None, ev_run = Some (ar_run a),
      ev_payload = [(''approval_id'', JStr (ar_id a)), (''approved'', JBool approved)]\<rparr>"

definition update_approval :: "ident \<Rightarrow> (approval_request \<Rightarrow> approval_request) \<Rightarrow> 'w sys \<Rightarrow> 'w sys" where
  "update_approval k f = on_db (\<lambda>d. d\<lparr>approvals := update_where (\<lambda>a. ar_id a = k) f (approvals d)\<rparr>)"

definition decide_approval :: "ident \<Rightarrow> ident \<Rightarrow> bool \<Rightarrow> 'v state \<Rightarrow> (hx_error + unit) \<times> 'v state" where
  "decide_approval k user approved s =
     (case get_approval k (db s) of
        None \<Rightarrow> (Inl (not_found (''approval '' @ k @ '' not found'') [(''approval_id'', JStr k)]), s)
      | Some a \<Rightarrow>
          if ar_status a \<noteq> Pending_decision then (Inr (), s)
          else
            (let s1 = update_approval k
                   (\<lambda>a. a\<lparr>ar_status := (if approved then Approved else Denied), ar_decided_by := Some user,
                          ar_decided_at := Some (clock s)\<rparr>) s;
                 s2 = publish (decision_event a approved) s1
             in (Inr (), dispatch (Resume_job (ar_run a) k approved) s2)))"

section \<open>Background jobs\<close>

fun perform_job :: "'v services \<Rightarrow> job \<Rightarrow> 'v state \<Rightarrow> 'v state" where
  "perform_job sv (Execute_job k) s = snd (execute_run sv k s)"
| "perform_job sv (Resume_job k a approved) s = resume_run sv k approved s"
| "perform_job sv (Ingest_job k t) s = ingest_and_announce sv k t s"

section \<open>Recovery\<close>

definition heartbeat :: "ident \<Rightarrow> 'w sys \<Rightarrow> 'w sys" where
  "heartbeat k s = update_run k (\<lambda>r. r\<lparr>rn_heartbeat_at := Some (clock s)\<rparr>) s"

definition default_stale_after :: int where
  "default_stale_after = micros (15 * 60)"

definition stale :: "instant \<Rightarrow> run \<Rightarrow> bool" where
  "stale cutoff r = (rn_status r = Running \<and> (case rn_heartbeat_at r of None \<Rightarrow> False | Some t \<Rightarrow> t < cutoff))"

text \<open>The loop over the candidates: each is asserted stale again in its \<open>UPDATE\<close>.\<close>

definition requeue_run :: "instant \<Rightarrow> unit \<Rightarrow> run \<Rightarrow> run" where
  "requeue_run cutoff u r = r\<lparr>rn_status := Queued, rn_heartbeat_at := None\<rparr>"

fun requeue_each :: "instant \<Rightarrow> ident list \<Rightarrow> run list \<Rightarrow> ident list \<times> run list" where
  "requeue_each cutoff [] rows = ([], rows)"
| "requeue_each cutoff (k # ks) rows =
     (let (hit, rows1) = cas_claim rn_id stale requeue_run k cutoff () rows;
          (requeued, rows2) = requeue_each cutoff ks rows1
      in (if hit then k # requeued else requeued, rows2))"

definition requeue_orphaned_runs :: "int \<Rightarrow> 'w sys \<Rightarrow> ident list \<times> 'w sys" where
  "requeue_orphaned_runs stale_after s =
     (let cutoff = clock s - stale_after;
          candidates = map rn_id (filter (stale cutoff) (runs (db s)));
          (requeued, rows) = requeue_each cutoff candidates (runs (db s))
      in (requeued, on_db (on_runs (\<lambda>_. rows)) s))"


section \<open>Submission\<close>

lemma dispatch_db [simp]: "db (dispatch j s) = db s" "clock (dispatch j s) = clock s"
  by (simp_all add: dispatch_def)

lemma make_plan_db: "db (snd (make_plan sv goal s)) = db s"
  by (auto simp: make_plan_def on_models_def split: sum.splits prod.splits option.splits)

lemma make_plan_clock: "clock (snd (make_plan sv goal s)) = clock s"
  by (auto simp: make_plan_def on_models_def split: sum.splits prod.splits option.splits)

lemma place_run_runs:
  "place_run ss sid t goal key s = (k, s') \<Longrightarrow>
   runs (db s') = runs (db s) @ [queued_run k (clock s) (ss_workspace ss) sid (ss_profile ss) None goal key] \<and>
   sessions (db s') = sessions (db s) \<and> clock s' = clock s"
  by (auto simp: place_run_def add_message_def add_run_def Let_def)

lemma plan_goal_db:
  "plan_goal sv t plan s = (x, s') \<Longrightarrow> db s' = db s \<and> clock s' = clock s"
  using make_plan_db [of sv t s] make_plan_clock [of sv t s]
  by (auto simp: plan_goal_def split: if_splits prod.splits sum.splits)

definition placed :: "session \<Rightarrow> ident \<Rightarrow> string option \<Rightarrow> ident \<Rightarrow> 'w sys \<Rightarrow> 'w sys \<Rightarrow> bool" where
  "placed ss sid key k s s' =
     (\<exists>goal. runs (db s') = runs (db s) @ [queued_run k (clock s) (ss_workspace ss) sid (ss_profile ss) None goal key] \<and>
        sessions (db s') = sessions (db s) \<and> clock s' = clock s)"

lemma submit_cases:
  assumes "submit_message sv p sid t plan key s = (Inr k, s')"
  shows "admit p sid key s = Inr (Inl k) \<and> s' = s \<or>
         (\<exists>ss. admit p sid key s = Inr (Inr ss) \<and> placed ss sid key k s s')"
proof (cases "admit p sid key s")
  case (Inl e)
  with assms show ?thesis by (simp add: submit_message_def)
next
  case admitted: (Inr x)
  show ?thesis
  proof (cases x)
    case (Inl k1)
    with admitted assms show ?thesis by (simp add: submit_message_def)
  next
    case (Inr ss)
    obtain y s1 where pl: "plan_goal sv t plan s = (y, s1)" by (metis prod.exhaust)
    from assms admitted Inr pl obtain goal s2 where
      y: "y = Inr goal" and p2: "place_run ss sid t goal key s1 = (k, s2)" and s': "s' = dispatch (Execute_job k) s2"
      by (auto simp: submit_message_def split: sum.splits prod.splits)
    from place_run_runs [OF p2] plan_goal_db [OF pl] s' have "placed ss sid key k s s'"
      by (auto simp: placed_def)
    with admitted Inr show ?thesis by blast
  qed
qed

text \<open>A submission touches two tables.\<close>

lemma submit_touches:
  assumes "submit_message sv p sid t plan key s = (r, s')"
  shows "db s' = (db s)\<lparr>runs := runs (db s'), messages := messages (db s')\<rparr>"
proof (cases "admit p sid key s")
  case admitted: (Inr y)
  show ?thesis
  proof (cases y)
    case (Inr ss)
    obtain g s1 where g: "plan_goal sv t plan s = (g, s1)" by fastforce
    have "db s1 = db s" using plan_goal_db [OF g] by simp
    then show ?thesis using assms admitted Inr g
      by (auto simp: submit_message_def place_run_def add_message_def add_run_def on_runs_def Let_def split: sum.splits)
  qed (use admitted assms in \<open>auto simp: submit_message_def\<close>)
qed (use assms in \<open>auto simp: submit_message_def\<close>)

text \<open>Later states: no run is deleted and none changes the columns it was created with; anything else
  of a row may have changed (it ran, it was cancelled, it ended), and new rows stand behind.\<close>

definition table_grows :: "'w sys \<Rightarrow> 'w sys \<Rightarrow> bool" where
  "table_grows s s' = prefix (map run_identity (runs (db s))) (map run_identity (runs (db s')))"

lemma find_map_some: "find P (map f xs) = map_option f (find (\<lambda>x. P (f x)) xs)"
  by (induction xs) auto

lemma find_append_some: "find P xs = Some y \<Longrightarrow> find P (xs @ ys) = Some y"
  by (induction xs) (auto split: if_splits)

lemma find_grown:
  assumes "table_grows s s'"
    and "find (\<lambda>r. rn_workspace r = ws \<and> rn_idempotency_key r = key) (runs (db s)) = Some r"
  shows "\<exists>r'. find (\<lambda>r. rn_workspace r = ws \<and> rn_idempotency_key r = key) (runs (db s')) = Some r' \<and> rn_id r' = rn_id r"
proof -
  define P where "P = (\<lambda>x :: ident \<times> instant \<times> ident \<times> ident \<times> ident \<times> ident option \<times> string \<times> string option.
    case x of (i, c, w, ss, pf, pa, g, k) \<Rightarrow> w = ws \<and> k = key)"
  have P: "(\<lambda>r. rn_workspace r = ws \<and> rn_idempotency_key r = key) = (\<lambda>r. P (run_identity r))"
    by (simp add: P_def run_identity_def fun_eq_iff)
  have "find P (map run_identity (runs (db s))) = Some (run_identity r)"
    using assms(2) by (simp add: find_map_some P)
  then have "find P (map run_identity (runs (db s'))) = Some (run_identity r)"
    using assms(1) by (auto simp: table_grows_def prefix_def find_append_some)
  then obtain r' where "find (\<lambda>r. P (run_identity r)) (runs (db s')) = Some r'" "run_identity r' = run_identity r"
    by (auto simp: find_map_some)
  then show ?thesis by (auto simp: P run_identity_def)
qed

lemma find_snoc: "find P (xs @ [x]) = (case find P xs of None \<Rightarrow> if P x then Some x else None | Some y \<Rightarrow> Some y)"
  by (induction xs) auto

lemma submit_again:
  assumes "submit_message sv p sid t plan (Some key) s = (Inr k, s1)" and "key \<noteq> []"
    and "table_grows s1 s2"
    and "map_option ss_workspace (get_session sid (db s2)) = map_option ss_workspace (get_session sid (db s1))"
  shows "submit_message sv p' sid t' plan' (Some key) s2 = (Inr k, s2)"
proof -
  have tr: "truthy (Some key)" using assms(2) by (simp add: truthy_def)
  have "\<exists>ss r. get_session sid (db s1) = Some ss \<and> rn_id r = k \<and>
      find (\<lambda>r. rn_workspace r = ss_workspace ss \<and> rn_idempotency_key r = Some key) (runs (db s1)) = Some r"
    using submit_cases [OF assms(1)]
  proof (elim disjE exE conjE)
    assume "admit p sid (Some key) s = Inr (Inl k)" "s1 = s"
    then show ?thesis using tr by (auto simp: admit_def split: option.splits sum.splits)
  next
    fix ss assume a: "admit p sid (Some key) s = Inr (Inr ss)" "placed ss sid (Some key) k s s1"
    then have "get_session sid (db s) = Some ss"
      "find (\<lambda>r. rn_workspace r = ss_workspace ss \<and> rn_idempotency_key r = Some key) (runs (db s)) = None"
      using tr by (auto simp: admit_def split: option.splits sum.splits)
    with a(2) show ?thesis by (auto simp: placed_def get_session_def find_snoc queued_run_def)
  qed
  then obtain ss r where ss: "get_session sid (db s1) = Some ss" "rn_id r = k"
    "find (\<lambda>r. rn_workspace r = ss_workspace ss \<and> rn_idempotency_key r = Some key) (runs (db s1)) = Some r" by blast
  from find_grown [OF assms(3) ss(3)] ss(2) obtain r' where
    "find (\<lambda>r. rn_workspace r = ss_workspace ss \<and> rn_idempotency_key r = Some key) (runs (db s2)) = Some r'" "rn_id r' = k"
    by auto
  moreover obtain ss' where "get_session sid (db s2) = Some ss'" "ss_workspace ss' = ss_workspace ss"
    using ss(1) assms(4) by auto
  ultimately show ?thesis using tr by (simp add: submit_message_def admit_def)
qed

text \<open>C7.  Submission is idempotent under a key: once a submission with a key has returned a run, every
  later submission with that key in the same session returns the same run and changes nothing,
  whatever the quota says and whatever has happened meanwhile: runs were executed, cancelled, parked
  or finished, others were added, other sessions came and went.  All that must hold is that no run
  has been deleted and that the session still exists, in its workspace.\<close>

theorem submit_idempotent:
  assumes "submit_message sv p sid t plan (Some key) s = (Inr k, s1)" and "key \<noteq> []"
    and "table_grows s1 s2"
    and "map_option ss_workspace (get_session sid (db s2)) = map_option ss_workspace (get_session sid (db s1))"
  shows "submit_message sv p' sid t' plan' (Some key) s2 = (Inr k, s2)"
  using assms by (rule submit_again)

definition demo_quota :: quota_policy where
  "demo_quota = \<lparr>qp_max_concurrent = 1, qp_max_per_hour = 240\<rparr>"

definition idle_state :: "nat state" where
  "idle_state = (demo_state [] Queued)\<lparr>db := (demo_db Queued)\<lparr>runs := []\<rparr>\<rparr>"

lemma idle_submit:
  "\<exists>s1. submit_message demo_services demo_quota ''s1'' ''hello'' False key idle_state = (Inr (new_id 1), s1) \<and>
     runs (db s1) = [queued_run (new_id 1) 5 ''w1'' ''s1'' ''p1'' None ''hello'' key] \<and>
     sessions (db s1) = [demo_session] \<and> clock s1 = 5"
  by (simp add: submit_message_def plan_goal_def admit_def idle_state_def demo_defs enforce_run_quota_def current_usage_def
      demo_quota_def place_run_def add_message_def add_run_def fresh_def Let_def)

text \<open>A run that was submitted, and cancelled before it started.\<close>

theorem submit_idempotent_witness:
  "\<exists>s1 s2 r. submit_message demo_services demo_quota ''s1'' ''hello'' False (Some ''k'') idle_state = (Inr (new_id 1), s1) \<and>
     request_cancel (new_id 1) ''w1'' s1 = (Inr True, s2) \<and>
     get_run (new_id 1) (db s2) = Some r \<and> rn_cancel_requested r \<and> rn_status r = Cancelled \<and>
     submit_message demo_services demo_quota ''s1'' ''hello'' False (Some ''k'') s2 = (Inr (new_id 1), s2)"
proof -
  obtain s1 where s1: "submit_message demo_services demo_quota ''s1'' ''hello'' False (Some ''k'') idle_state
      = (Inr (new_id 1), s1)" and
    rows: "runs (db s1) = [queued_run (new_id 1) 5 ''w1'' ''s1'' ''p1'' None ''hello'' (Some ''k'')]" and
    ss: "sessions (db s1) = [demo_session]" using idle_submit by blast
  have run: "get_run (new_id 1) (db s1) = Some (queued_run (new_id 1) 5 ''w1'' ''s1'' ''p1'' None ''hello'' (Some ''k''))"
    by (simp add: get_run_def rows queued_run_def)
  let ?f = "\<lambda>r. r\<lparr>rn_cancel_requested := True, rn_status := Cancelled, rn_error := Some ''cancelled by operator'',
      rn_checkpoint := None, rn_finished_at := Some (clock s1)\<rparr>"
  define s2 where "s2 = publish (cancel_event ''w1'' (new_id 1)) (update_run (new_id 1) ?f s1)"
  have cancel: "request_cancel (new_id 1) ''w1'' s1 = (Inr True, s2)"
    using run by (simp add: request_cancel_def s2_def queued_run_def terminal_status_def)
  have "table_grows s1 s2"
    by (simp add: table_grows_def s2_def update_run_def rows update_where_def run_identity_def)
  moreover have "get_session ''s1'' (db s2) = get_session ''s1'' (db s1)"
    by (simp add: s2_def update_run_def get_session_def)
  ultimately have "submit_message demo_services demo_quota ''s1'' ''hello'' False (Some ''k'') s2 = (Inr (new_id 1), s2)"
    using submit_idempotent [OF s1, of s2] by simp
  moreover have "get_run (new_id 1) (db s2) = Some (?f (queued_run (new_id 1) 5 ''w1'' ''s1'' ''p1'' None ''hello'' (Some ''k'')))"
    using run by (simp add: s2_def)
  ultimately show ?thesis using s1 cancel by auto
qed

text \<open>C8.  Admission enforces the quota: a submission that creates a run leaves the workspace within
  both limits that are enabled, counting the new run; one that is refused for the quota changes
  nothing.\<close>

theorem submit_respects_quota:
  assumes "submit_message sv p sid t plan key s = (r, s')" and "get_session sid (db s) = Some ss"
  shows "case r of
      Inl (Domain e) \<Rightarrow> s' = s \<and> er_kind e = Quota_exceeded
    | Inl (Planning e) \<Rightarrow> db s' = db s
    | Inr k \<Rightarrow> s' = s \<or>
        (\<exists>x. runs (db s') = runs (db s) @ [x] \<and> rn_id x = k \<and> rn_status x = Queued \<and> rn_workspace x = ss_workspace ss) \<and>
        (qp_max_concurrent p > 0 \<longrightarrow> qu_active (current_usage (ss_workspace ss) (clock s') (db s')) \<le> qp_max_concurrent p) \<and>
        (qp_max_per_hour p > 0 \<longrightarrow> qu_last_hour (current_usage (ss_workspace ss) (clock s') (db s')) \<le> qp_max_per_hour p)"
proof (cases r)
  case (Inr k)
  have sub: "submit_message sv p sid t plan key s = (Inr k, s')" using assms(1) Inr by simp
  from submit_cases [OF this] show ?thesis
  proof (elim disjE exE conjE)
    assume "s' = s"
    then show ?thesis using Inr by simp
  next
    fix ss' assume a: "admit p sid key s = Inr (Inr ss')" "placed ss' sid key k s s'"
    then have ss: "ss' = ss" and q: "\<exists>u. enforce_run_quota (ss_workspace ss) p (clock s) (db s) = Inr u"
      using assms(2) by (auto simp: admit_def split: option.splits sum.splits if_splits)
    obtain goal where placed: "runs (db s') = runs (db s) @
        [queued_run k (clock s) (ss_workspace ss) sid (ss_profile ss) None goal key]" "clock s' = clock s"
      using a(2) ss by (auto simp: placed_def)
    let ?u = "current_usage (ss_workspace ss) (clock s) (db s)"
    let ?u' = "current_usage (ss_workspace ss) (clock s') (db s')"
    have "qu_active ?u' = qu_active ?u + 1" "qu_last_hour ?u' = qu_last_hour ?u + 1"
      using placed by (simp_all add: current_usage_def Let_def queued_run_def active_status_def micros_def)
    moreover have "\<not> (qp_max_concurrent p > 0 \<and> qu_active ?u \<ge> qp_max_concurrent p)"
      "\<not> (qp_max_per_hour p > 0 \<and> qu_last_hour ?u \<ge> qp_max_per_hour p)"
      using q by (auto simp: enforce_run_quota_def Let_def split: if_splits)
    ultimately show ?thesis using Inr placed by (auto simp: queued_run_def)
  qed
next
  case (Inl e)
  show ?thesis
  proof (cases e)
    case (Domain x)
    with Inl assms have "admit p sid key s = Inl x" "s' = s"
      by (auto simp: submit_message_def Let_def split: sum.splits prod.splits if_splits)
    then show ?thesis using Inl Domain assms(2)
      by (auto simp: admit_def enforce_run_quota_def quota_error_def Let_def split: option.splits sum.splits if_splits)
  next
    case (Planning x)
    with Inl assms(1) obtain y where "plan_goal sv t plan s = (y, s')"
      by (auto simp: submit_message_def split: sum.splits prod.splits)
    then show ?thesis using Inl Planning by (auto dest: plan_goal_db)
  qed
qed

theorem submit_respects_quota_witness:
  "\<exists>e s1. submit_message demo_services demo_quota ''s1'' ''again'' False None
      (snd (submit_message demo_services demo_quota ''s1'' ''hello'' False None idle_state)) = (Inl (Domain e), s1) \<and>
    er_kind e = Quota_exceeded"
proof -
  obtain s1 where s1: "submit_message demo_services demo_quota ''s1'' ''hello'' False None idle_state = (Inr (new_id 1), s1)"
    "runs (db s1) = [queued_run (new_id 1) 5 ''w1'' ''s1'' ''p1'' None ''hello'' None]"
    "sessions (db s1) = [demo_session]" "clock s1 = 5" using idle_submit by blast
  have sess: "get_session ''s1'' (db s1) = Some demo_session" using s1 by (simp add: demo_defs)
  obtain r s2 where again: "submit_message demo_services demo_quota ''s1'' ''again'' False None s1 = (r, s2)"
    by (metis prod.exhaust)
  moreover have "\<exists>e. r = Inl (Domain e)"
    using again s1(2-4) sess by (auto simp: submit_message_def admit_def truthy_def enforce_run_quota_def
        current_usage_def Let_def demo_quota_def demo_session_def queued_run_def active_status_def)
  ultimately show ?thesis using s1(1) submit_respects_quota [OF again sess] by auto
qed


section \<open>The planner's result\<close>

lemma all_some_Some: "all_some xs = Some ys \<Longrightarrow> length ys = length xs \<and> (\<forall>y\<in>set ys. Some y \<in> set xs)"
  by (auto simp: all_some_def split: if_splits) (metis not_None_eq option.sel)

lemma parse_plan_wellformed:
  assumes "parse_plan t = Some steps"
  shows "steps \<noteq> [] \<and> (\<forall>x\<in>set steps. length x \<ge> 3)"
proof -
  obtain j where j: "plan_of_json j = Some steps"
    using assms by (auto simp: parse_plan_def split: option.splits)
  then obtain xs where xs: "xs \<noteq> []" "all_some (map plan_step xs) = Some steps"
    by (auto simp: plan_of_json_def split: json.splits option.splits if_splits)
  from all_some_Some [OF xs(2)] xs(1) have "steps \<noteq> []" by auto
  moreover have "length x \<ge> 3" if "Some x = plan_step y" for x y
    using that by (auto simp: plan_step_def split: json.splits option.splits if_splits)
  ultimately show ?thesis using all_some_Some [OF xs(2)] by auto
qed

text \<open>Planning never blocks execution, with one exception: when the model answers, the plan has at
  least one step and every step has three characters or more, the goal itself standing in when the
  reply cannot be parsed; planning fails only when no model answers, or when the reply
  cannot be parsed and the goal is shorter than three characters.\<close>

theorem plan_degrades_gracefully:
  assumes "make_plan sv goal s = (r, s')"
  shows "db s' = db s \<and>
    (case r of
       Inr steps \<Rightarrow> steps \<noteq> [] \<and> (\<forall>t\<in>set steps. length t \<ge> 3)
     | Inl Plan_invalid \<Rightarrow> length goal < 3
     | Inl (Plan_unavailable e) \<Rightarrow> True)"
  using assms make_plan_db [of sv goal s] parse_plan_wellformed
  by (auto simp: make_plan_def split: prod.splits sum.splits option.splits if_splits)

theorem plan_degrades_gracefully_witness:
  "case make_plan demo_services ''ship it'' (demo_state [] Queued) of
     (r, s') \<Rightarrow> db s' = demo_db Queued"
proof -
  obtain r s' where m: "make_plan demo_services ''ship it'' (demo_state [] Queued) = (r, s')" by (metis prod.exhaust)
  from plan_degrades_gracefully [OF this] m show ?thesis by (simp add: demo_state_def)
qed

section \<open>Cancellation and approvals\<close>

lemma cancel_row:
  assumes "request_cancel k ws s = (Inr True, s')"
  shows "\<exists>r r'. get_run k (db s) = Some r \<and> rn_workspace r = ws \<and> get_run k (db s') = Some r' \<and> rn_cancel_requested r' \<and>
    (rn_status r' = Cancelled \<and> rn_finished_at r' \<noteq> None \<and> rn_checkpoint r' = None \<or>
     rn_status r = Running \<and> rn_status r' = Running) \<and> outside s' = outside s"
proof -
  obtain r where r: "get_run k (db s) = Some r" "rn_workspace r = ws" "\<not> terminal_status (rn_status r)"
    using assms by (auto simp: request_cancel_def split: option.splits if_splits)
  show ?thesis
  proof (cases "rn_status r \<in> {Queued, Awaiting_approval}")
    case True
    with assms r show ?thesis by (auto simp: request_cancel_def)
  next
    case False
    then have "rn_status r = Running" using r(3) by (cases "rn_status r") (auto simp: terminal_status_def)
    with assms r False show ?thesis by (auto simp: request_cancel_def)
  qed
qed

lemma cancel_other_rows:
  "k' \<noteq> k \<Longrightarrow> get_run k' (db (snd (request_cancel k ws s))) = get_run k' (db s)"
  by (auto simp: request_cancel_def update_run_def get_run_def find_row_update_other split: option.splits)

lemma settled_not_executed:
  assumes "keyed rn_id (runs (db s))" and "get_run k (db s) = Some r" and "terminal_status (rn_status r)"
  shows "outside (perform_job sv (Execute_job k) s) = outside s \<and>
         get_run k (db (perform_job sv (Execute_job k) s)) = Some r \<and> perform_job sv (Resume_job k a ok) s = s"
proof -
  obtain won rows where cas: "cas_claim rn_id claimable grab_run k From_queued (clock s) (runs (db s)) = (won, rows)"
    by (metis prod.exhaust)
  have no: "\<not> claimable From_queued r" using assms(3) by (auto simp: claimable_def terminal_status_def)
  then have "\<not> won"
    using run_claim.claim_won_iff [OF assms(1), of k From_queued "clock s"] cas assms(2) by (auto simp: get_run_def)
  moreover have "find_row rn_id k rows = Some r"
    using run_claim.claim_row [of k From_queued "clock s" "runs (db s)"] cas assms(2) no by (simp add: get_run_def)
  ultimately have "claim k From_queued s = (None, on_db (on_runs (\<lambda>_. rows)) s)"
    "get_run k (db (on_db (on_runs (\<lambda>_. rows)) s)) = Some r"
    using cas by (simp_all add: claim_def Let_def get_run_def)
  then show ?thesis using assms
    by (auto simp: execute_run_eq execute_with_def resume_run_def terminal_status_def)
qed

text \<open>A request to cancel ends in one of four ways, and touches no run but its own: refused when
  the run is not of the caller's workspace; a no-op when the run is terminal; settled at once when
  the run is queued or parked; flagged when it is running.  A run it settled is never executed:
  performing its pending jobs later changes nothing outside the database and leaves it cancelled.\<close>

theorem cancel_settles:
  assumes "request_cancel k ws s = (res, s')" and "keyed rn_id (runs (db s))"
  shows "(case res of
      Inl e \<Rightarrow> s' = s \<and> er_kind e = Not_found \<and> (\<forall>r. get_run k (db s) = Some r \<longrightarrow> rn_workspace r \<noteq> ws)
    | Inr False \<Rightarrow> s' = s \<and> (\<exists>r. get_run k (db s) = Some r \<and> terminal_status (rn_status r))
    | Inr True \<Rightarrow> \<exists>r'. get_run k (db s') = Some r' \<and> rn_cancel_requested r' \<and>
        (rn_status r' = Running \<or>
         rn_status r' = Cancelled \<and> outside (perform_job sv (Execute_job k) s') = outside s \<and>
         get_run k (db (perform_job sv (Execute_job k) s')) = Some r' \<and> perform_job sv (Resume_job k a ok) s' = s')) \<and>
    (\<forall>k'. k' \<noteq> k \<longrightarrow> get_run k' (db s') = get_run k' (db s))"
proof -
  have others: "\<forall>k'. k' \<noteq> k \<longrightarrow> get_run k' (db s') = get_run k' (db s)"
    using cancel_other_rows [of _ k ws s] assms(1) by simp
  have keys: "keyed rn_id (runs (db s'))"
    using assms by (auto simp: request_cancel_def update_run_def keyed_update_where split: option.splits if_splits)
  show ?thesis
  proof (cases res)
    case (Inl e)
    then show ?thesis using assms(1) others
      by (auto simp: request_cancel_def not_found_def split: option.splits if_splits)
  next
    case (Inr b)
    show ?thesis
    proof (cases b)
      case False
      with Inr assms(1) others show ?thesis
        by (auto simp: request_cancel_def split: option.splits if_splits)
    next
      case True
      with Inr assms(1) cancel_row [of k ws s s'] obtain r' where
        r': "get_run k (db s') = Some r'" "rn_cancel_requested r'" "rn_status r' = Cancelled \<or> rn_status r' = Running"
        "outside s' = outside s" by auto
      show ?thesis
      proof (cases "rn_status r' = Cancelled")
        case True
        then have "terminal_status (rn_status r')" by (simp add: terminal_status_def)
        from settled_not_executed [OF keys r'(1) this, of sv a ok] r' True Inr \<open>b\<close> others show ?thesis by auto
      next
        case False
        with r' Inr \<open>b\<close> others show ?thesis by auto
      qed
    qed
  qed
qed

theorem cancel_settles_witness:
  "\<exists>s' r'. request_cancel ''r1'' ''w1'' (demo_state [] Queued) = (Inr True, s') \<and> get_run ''r1'' (db s') = Some r' \<and>
     rn_status r' = Cancelled \<and> outside (perform_job demo_services (Execute_job ''r1'') s') = outside (demo_state [] Queued)"
proof -
  let ?s = "demo_state [] Queued"
  obtain s' where c: "request_cancel ''r1'' ''w1'' ?s = (Inr True, s')"
    "\<forall>r'. get_run ''r1'' (db s') = Some r' \<longrightarrow> rn_status r' = Cancelled"
    by (simp add: request_cancel_def demo_defs terminal_status_def update_run_def)
  from cancel_settles [OF c(1) demo_keyed, of demo_services "''a''" True] c(2)
  obtain r' where "get_run ''r1'' (db s') = Some r'" "rn_status r' = Cancelled"
    "outside (perform_job demo_services (Execute_job ''r1'') s') = outside ?s" by auto
  with c(1) show ?thesis by blast
qed


lemma update_approval_row [simp]:
  assumes "\<And>a. ar_id (f a) = ar_id a"
  shows "get_approval k (db (update_approval k f s)) = map_option f (get_approval k (db s))"
  using assms by (simp add: get_approval_def update_approval_def)

lemma update_approval_sel [simp]:
  "outside (update_approval k f s) = outside s" "runs (db (update_approval k f s)) = runs (db s)"
  by (simp_all add: update_approval_def)

text \<open>A decision on an approval is final: the first one is written down with the operator and
  the time, announced once, and schedules exactly one resumption of the parked run; every later
  decision, whatever it says, changes nothing.\<close>

theorem decision_is_final:
  assumes "get_approval k (db s) = Some a" and "ar_status a = Pending_decision"
    and "decide_approval k user approved s = (res, s1)"
  shows "res = Inr () \<and> decide_approval k user' approved' s1 = (Inr (), s1) \<and> runs (db s1) = runs (db s) \<and>
    bk_jobs (outside s1) = bk_jobs (outside s) @ [Resume_job (ar_run a) k approved] \<and>
    published s1 = published s @ [decision_event a approved] \<and>
    (\<exists>a'. get_approval k (db s1) = Some a' \<and> ar_status a' = (if approved then Approved else Denied) \<and>
       ar_decided_by a' = Some user \<and> ar_decided_at a' = Some (clock s))"
proof -
  have s1: "res = Inr ()" "s1 = dispatch (Resume_job (ar_run a) k approved) (publish (decision_event a approved)
      (update_approval k (\<lambda>a. a\<lparr>ar_status := (if approved then Approved else Denied), ar_decided_by := Some user,
         ar_decided_at := Some (clock s)\<rparr>) s))"
    using assms by (simp_all add: decide_approval_def Let_def)
  let ?a = "a\<lparr>ar_status := (if approved then Approved else Denied), ar_decided_by := Some user,
      ar_decided_at := Some (clock s)\<rparr>"
  have row: "get_approval k (db s1) = Some ?a" using assms(1) by (simp add: s1)
  have "published s1 = published s @ [decision_event a approved]"
    by (simp add: s1 dispatch_def update_approval_def)
  moreover have "bk_jobs (outside s1) = bk_jobs (outside s) @ [Resume_job (ar_run a) k approved]"
    by (simp add: s1 dispatch_def)
  moreover have "decide_approval k user' approved' s1 = (Inr (), s1)"
    using row by (simp add: decide_approval_def)
  moreover have "\<exists>a'. get_approval k (db s1) = Some a' \<and> ar_status a' = (if approved then Approved else Denied) \<and>
       ar_decided_by a' = Some user \<and> ar_decided_at a' = Some (clock s)"
    using row by simp
  moreover have "runs (db s1) = runs (db s)" by (simp add: s1)
  ultimately show ?thesis using s1(1) by blast
qed

theorem decision_is_final_witness:
  "\<exists>s1. decide_approval ''a1'' ''u1'' True (parked_state []) = (Inr (), s1) \<and>
     decide_approval ''a1'' ''u2'' False s1 = (Inr (), s1) \<and>
     bk_jobs (outside s1) = [Resume_job ''r1'' ''a1'' True]"
proof -
  obtain a where a: "get_approval ''a1'' (db (parked_state [])) = Some a" "ar_status a = Pending_decision"
    "ar_run a = ''r1''" by (simp add: parked_state_def get_approval_def)
  obtain res s1 where d: "decide_approval ''a1'' ''u1'' True (parked_state []) = (res, s1)" by (metis prod.exhaust)
  have "bk_jobs (outside (parked_state [])) = []" by (simp add: parked_state_def demo_state_def)
  with decision_is_final [OF a(1,2) d, of "''u2''" False] a(3) d show ?thesis by auto
qed

text \<open>C4.  A resumed run ends recorded too: resuming a run that waits with a gated call in its checkpoint
  leaves it terminal or parked again, whatever was decided, and the step budget goes on from where it
  was.  The resumption is dispatched by the decision, so the approval row is decided by then; the
  resumption does not read it, and nothing is asked of it here.\<close>

theorem resumed_run_ends_recorded:
  assumes "outside_respects runs_kept sv" and "keyed rn_id (runs (db s))"
    and "get_run k (db s) = Some r" and "rn_status r = Awaiting_approval"
    and "rn_checkpoint r = Some ck" and "ck_pending ck = call # rest"
    and "get_session (rn_session r) (db s) \<noteq> None" and "get_profile (rn_profile r) (db s) = Some pf"
  shows "recorded (max (rn_step_count r) (case ap_max_steps pf of None \<Rightarrow> sv_max_run_steps sv
            | Some n \<Rightarrow> if n = 0 then sv_max_run_steps sv else n)) k (resume_run sv k approved s)"
proof -
  note ck = assms(5,6)
  have claimable: "claimable From_awaiting r" using assms(4) by (simp add: claimable_def)
  have "fst (claim k From_awaiting s) \<noteq> None"
    using claim_wins_iff [OF assms(2), of k From_awaiting] assms(3,7,8) claimable by auto
  then obtain snap s1 where c: "claim k From_awaiting s = (Some snap, s1)" by (metis not_None_eq prod.collapse)
  from claim_Some [OF assms(2) c] assms(3,8) obtain ss n where
    snap: "snap = snapshot r ss pf n" and row: "get_run k (db s1) = Some (grab_run From_awaiting (clock s) r)"
    by auto
  have id: "sn_run snap = k" using snap assms(3) by (auto simp: get_run_def dest: find_row_Some)
  obtain msg s2 where m: "gated_message sv snap call approved s1 = (msg, s2)" by (metis prod.exhaust)
  let ?d = "[(''call'', tool_call_json call), (''approved'', JBool approved)]"
  obtain snap1 s3 where rec: "record_step Tool_step no_usage ?d snap s2 = (snap1, s3)" by (metis prod.exhaust)
  have res: "resume_run sv k approved s = drive sv (top_delegate sv) snap1 (ck_messages ck @ [msg]) rest s3"
    using assms(3,4) ck c m rec by (simp add: resume_run_def resume_gated_def)
  note dl = kept_top [OF assms(1)]
  have tool: "runs_kept s1 s2'" if "run_tool sv (top_delegate sv) snap call True s1 = (y, s2')" for y s2'
    using kept.rel_run_tool [of sv "top_delegate sv" snap s1 call True] assms(1) dl that
    by (simp add: kept_delegate_def)
  have quiet: "runs_kept s1 (emit snap RUN_STEP p s1)" for p by (simp add: runs_kept_def)
  have "runs_kept s1 s2"
    using m tool quiet by (auto simp: gated_message_def split: if_splits prod.splits sum.splits)
  moreover have "runs_kept s2 s3"
    using kept.rel_record_step [of sv s2 Tool_step no_usage ?d snap] assms(1) rec by simp
  moreover note same = record_step_same [OF rec]
  ultimately have ex: "exists_run snap1 s3"
    using row id exists_kept by (metis exists_run_def not_None_eq same_run_def)
  have "recorded (max (rn_step_count r) (max_steps sv snap)) (sn_run snap1) (resume_run sv k approved s)"
    unfolding res using assms(1) dl ex same same_run_max_steps [of snap1 snap sv] snap
    by (intro drive_recorded) simp_all
  then show ?thesis using same id by (simp add: same_run_def max_steps_def snap)
qed

text \<open>The run of \<open>parked_state\<close>, denied by an operator, and the job that the denial dispatched.\<close>

theorem resumed_run_ends_recorded_witness:
  "\<exists>s1 a. decide_approval ''a1'' ''u1'' False (parked_state []) = (Inr (), s1) \<and>
     get_approval ''a1'' (db s1) = Some a \<and> ar_status a = Denied \<and>
     bk_jobs (outside s1) = [Resume_job ''r1'' ''a1'' False] \<and>
     recorded 1 ''r1'' (perform_job demo_services (Resume_job ''r1'' ''a1'' False) s1)"
proof -
  let ?s = "parked_state []"
  obtain s1 where d: "decide_approval ''a1'' ''u1'' False ?s = (Inr (), s1)"
    "runs (db s1) = runs (db ?s)" "sessions (db s1) = sessions (db ?s)" "profiles (db s1) = profiles (db ?s)"
    "bk_jobs (outside s1) = [Resume_job ''r1'' ''a1'' False]"
    "\<exists>a. get_approval ''a1'' (db s1) = Some a \<and> ar_status a = Denied"
    by (simp add: decide_approval_def parked_state_def demo_state_def get_approval_def update_approval_def
        dispatch_def Let_def)
  have at: "keyed rn_id (runs (db s1))" "get_run ''r1'' (db s1) = Some parked_run"
    "get_session (rn_session parked_run) (db s1) \<noteq> None" "get_profile (rn_profile parked_run) (db s1) = Some demo_profile"
    using parked_state_facts(1,2,4,5) [of "[]"] d(2-4) by (simp_all add: get_defs)
  have pend: "ck_pending \<lparr>ck_messages = [plain_message USER ''tidy up''], ck_pending = [wipe_call]\<rparr> = wipe_call # []"
    by simp
  have "recorded 1 ''r1'' (resume_run demo_services ''r1'' False s1)"
    using resumed_run_ends_recorded [OF demo_respects at(1,2) parked_state_facts(3,7) pend at(3,4), of False]
      parked_state_facts(8) by (simp add: demo_profile_def)
  with d show ?thesis by auto
qed

section \<open>Recovery\<close>

interpretation orphan: single_winner rn_id stale requeue_run
  by unfold_locales (simp_all add: stale_def requeue_run_def)

lemma requeue_each_exact:
  assumes "keyed rn_id rows" and "distinct ks"
  shows "requeue_each cutoff ks rows =
    (filter (\<lambda>k. \<exists>r. find_row rn_id k rows = Some r \<and> stale cutoff r) ks,
     map (\<lambda>r. if rn_id r \<in> set ks \<and> stale cutoff r then requeue_run cutoff () r else r) rows)"
  using assms
proof (induction ks arbitrary: rows)
  case (Cons k ks)
  obtain hit rows1 where cas: "cas_claim rn_id stale requeue_run k cutoff () rows = (hit, rows1)" by (metis prod.exhaust)
  have hit: "hit \<longleftrightarrow> (\<exists>r. find_row rn_id k rows = Some r \<and> stale cutoff r)"
    using orphan.claim_won_iff [OF Cons.prems(1), of k cutoff "()"] cas by simp
  have keys: "keyed rn_id rows1"
    using orphan.claim_keyed [of k cutoff "()" rows] cas Cons.prems(1) by simp
  have rows1: "rows1 = map (\<lambda>r. if rn_id r = k \<and> stale cutoff r then requeue_run cutoff () r else r) rows"
    using cas by (auto simp: cas_claim_def update_where_def)
  have others: "find_row rn_id k' rows1 = find_row rn_id k' rows" if "k' \<in> set ks" for k'
    using orphan.claim_other_rows [of k' k cutoff "()" rows] cas that Cons.prems(2) by auto
  have IH: "requeue_each cutoff ks rows1 =
     (filter (\<lambda>k. \<exists>r. find_row rn_id k rows1 = Some r \<and> stale cutoff r) ks,
      map (\<lambda>r. if rn_id r \<in> set ks \<and> stale cutoff r then requeue_run cutoff () r else r) rows1)"
    using Cons keys by simp
  have "filter (\<lambda>k. \<exists>r. find_row rn_id k rows1 = Some r \<and> stale cutoff r) ks =
      filter (\<lambda>k. \<exists>r. find_row rn_id k rows = Some r \<and> stale cutoff r) ks"
    by (rule filter_cong) (simp_all add: others)
  moreover have "map (\<lambda>r. if rn_id r \<in> set ks \<and> stale cutoff r then requeue_run cutoff () r else r) rows1 =
      map (\<lambda>r. if rn_id r \<in> set (k # ks) \<and> stale cutoff r then requeue_run cutoff () r else r) rows"
    unfolding rows1 map_map
  proof (rule map_cong [OF refl])
    fix r
    show "((\<lambda>r. if rn_id r \<in> set ks \<and> stale cutoff r then requeue_run cutoff () r else r) \<circ>
        (\<lambda>r. if rn_id r = k \<and> stale cutoff r then requeue_run cutoff () r else r)) r =
      (if rn_id r \<in> set (k # ks) \<and> stale cutoff r then requeue_run cutoff () r else r)"
      using orphan.grab_blocks [of cutoff r "()"] Cons.prems(2) by (cases "stale cutoff r") auto
  qed
  ultimately show ?case using IH cas hit by simp
qed simp

text \<open>Recovery returns to the queue exactly the runs that are running with a heartbeat older than the
  threshold, reports exactly those, and leaves every other run as it was; in particular a run
  that waits for a human is never requeued.\<close>

theorem requeue_exact:
  assumes "keyed rn_id (runs (db s))" and "requeue_orphaned_runs stale_after s = (ks, s')"
  shows "ks = map rn_id (filter (stale (clock s - stale_after)) (runs (db s))) \<and>
    runs (db s') = map (\<lambda>r. if stale (clock s - stale_after) r
                            then r\<lparr>rn_status := Queued, rn_heartbeat_at := None\<rparr> else r) (runs (db s)) \<and>
    other_tables (db s') = other_tables (db s) \<and>
    (\<forall>k r. get_run k (db s) = Some r \<longrightarrow> rn_status r = Awaiting_approval \<longrightarrow> get_run k (db s') = Some r)"
proof -
  let ?cut = "clock s - stale_after"
  let ?ks = "map rn_id (filter (stale ?cut) (runs (db s)))"
  have "distinct ?ks" using assms(1) by (simp add: keyed_def distinct_map_filter)
  from requeue_each_exact [OF assms(1) this, of ?cut] have
    each: "requeue_each ?cut ?ks (runs (db s)) =
      (filter (\<lambda>k. \<exists>r. find_row rn_id k (runs (db s)) = Some r \<and> stale ?cut r) ?ks,
       map (\<lambda>r. if rn_id r \<in> set ?ks \<and> stale ?cut r then requeue_run ?cut () r else r) (runs (db s)))" .
  have all: "filter (\<lambda>k. \<exists>r. find_row rn_id k (runs (db s)) = Some r \<and> stale ?cut r) ?ks = ?ks"
    using assms(1) find_row_unique [of rn_id "runs (db s)"] by (auto simp: filter_id_conv)
  have ks: "ks = ?ks" and rows: "runs (db s') = map (\<lambda>r. if stale ?cut r
      then r\<lparr>rn_status := Queued, rn_heartbeat_at := None\<rparr> else r) (runs (db s))"
    and rest: "other_tables (db s') = other_tables (db s)"
    using assms(2) each all by (auto simp: requeue_orphaned_runs_def Let_def requeue_run_def split: prod.splits)
  have "get_run k (db s') = Some r" if "get_run k (db s) = Some r" "rn_status r = Awaiting_approval" for k r
    using that by (simp add: get_run_def rows find_row_map stale_def)
  with ks rows rest show ?thesis by blast
qed

definition orphaned_state :: "nat state" where
  "orphaned_state = (demo_state [] Running)\<lparr>clock := micros 1000, db := (demo_db Running)\<lparr>
     runs := [(demo_run Running)\<lparr>rn_heartbeat_at := Some 0\<rparr>, (demo_run Awaiting_approval)\<lparr>rn_id := ''r2'', rn_heartbeat_at := Some 0\<rparr>]\<rparr>\<rparr>"

theorem requeue_exact_witness:
  "fst (requeue_orphaned_runs default_stale_after orphaned_state) = [''r1'']"
proof -
  have keys: "keyed rn_id (runs (db orphaned_state))"
    by (simp add: orphaned_state_def demo_defs)
  obtain ks s' where r: "requeue_orphaned_runs default_stale_after orphaned_state = (ks, s')" by (metis prod.exhaust)
  from requeue_exact [OF keys r] r show ?thesis
    by (simp add: orphaned_state_def demo_defs stale_def default_stale_after_def micros_def)
qed

section \<open>Interleaved submissions\<close>

text \<open>Admission and placement are separate units of work, so the promises of submission hold for one
  submission at a time only: two submissions that are both admitted before either is placed exceed
  the concurrency limit of the workspace, and make two runs under one idempotency key.\<close>

theorem admission_race:
  "\<exists>ss k1 k2 s1 s2.
     admit demo_quota ''s1'' (Some ''key'') idle_state = Inr (Inr ss) \<and>
     place_run ss ''s1'' ''hello'' ''hello'' (Some ''key'') idle_state = (k1, s1) \<and>
     place_run ss ''s1'' ''hello'' ''hello'' (Some ''key'') s1 = (k2, s2) \<and> k1 \<noteq> k2 \<and>
     qu_active (current_usage ''w1'' 5 (db s2)) > qp_max_concurrent demo_quota \<and>
     map rn_idempotency_key (runs (db s2)) = [Some ''key'', Some ''key'']"
  by (simp add: admit_def idle_state_def demo_defs enforce_run_quota_def current_usage_def active_status_def
      demo_quota_def place_run_def add_message_def add_run_def fresh_def Let_def truthy_def)

end
