(* ===== verification/Lifecycle.thy ===== *)
theory Lifecycle
  imports Conductor
begin

text \<open>
  The run table under several workers.  A step is one unit of work of \<open>agents.py\<close>,
  \<open>orchestration.py\<close> or \<open>recovery.py\<close> on the shared database, made by any worker, the API or
  the recovery sweep, in any order; a worker may also crash, and time passes.  The cluster
  remembers which worker is executing which run, which the database does not know.
\<close>

section \<open>Steps\<close>

record cluster =
  cl_sys :: "unit sys"
  cl_busy :: "(nat \<times> ident) list"

definition release :: "nat \<Rightarrow> (nat \<times> ident) list \<Rightarrow> (nat \<times> ident) list" where
  "release w busy = filter (\<lambda>x. fst x \<noteq> w) busy"

text \<open>Every run that is being executed has a heartbeat within the stale window.\<close>

definition timely :: "cluster \<Rightarrow> bool" where
  "timely c = (\<forall>(w, k)\<in>set (cl_busy c). \<exists>r t. get_run k (db (cl_sys c)) = Some r \<and>
     rn_heartbeat_at r = Some t \<and> clock (cl_sys c) - default_stale_after \<le> t)"

inductive cluster_step :: "cluster \<Rightarrow> cluster \<Rightarrow> bool" where
  take_run: "claim k frm (cl_sys c) = (Some snap, s) \<Longrightarrow> w \<notin> fst ` set (cl_busy c) \<Longrightarrow>
    cluster_step c \<lparr>cl_sys = s, cl_busy = (w, k) # cl_busy c\<rparr>"
| lose_run: "claim k frm (cl_sys c) = (None, s) \<Longrightarrow> cluster_step c (c\<lparr>cl_sys := s\<rparr>)"
| beat: "(w, sn_run snap) \<in> set (cl_busy c) \<Longrightarrow> record_step kind u detail snap (cl_sys c) = (snap', s) \<Longrightarrow>
    cluster_step c (c\<lparr>cl_sys := s\<rparr>)"
| park: "(w, sn_run snap) \<in> set (cl_busy c) \<Longrightarrow>
    cluster_step c \<lparr>cl_sys = park_for_approval snap tr pend gate (cl_sys c), cl_busy = release w (cl_busy c)\<rparr>"
| settle: "(w, sn_run snap) \<in> set (cl_busy c) \<Longrightarrow> terminal_status st \<Longrightarrow>
    cluster_step c \<lparr>cl_sys = finish snap st answer err (cl_sys c), cl_busy = release w (cl_busy c)\<rparr>"
| crash: "cluster_step c \<lparr>cl_sys = cl_sys c, cl_busy = release w (cl_busy c)\<rparr>"
| cancel: "request_cancel k ws (cl_sys c) = (res, s) \<Longrightarrow> cluster_step c (c\<lparr>cl_sys := s\<rparr>)"
| place: "place_run ss sid t goal key (cl_sys c) = (k, s) \<Longrightarrow>
    k \<notin> rn_id ` set (runs (db (cl_sys c))) \<Longrightarrow> cluster_step c (c\<lparr>cl_sys := s\<rparr>)"
| sweep: "requeue_orphaned_runs default_stale_after (cl_sys c) = (ks, s) \<Longrightarrow> cluster_step c (c\<lparr>cl_sys := s\<rparr>)"
| tick: "0 \<le> d \<Longrightarrow> cluster_step c (c\<lparr>cl_sys := (cl_sys c)\<lparr>clock := clock (cl_sys c) + d\<rparr>\<rparr>)"

inductive_cases cluster_stepE: "cluster_step c c'"

text \<open>The steps of a cluster whose workers always beat in time.\<close>

definition timely_step :: "cluster \<Rightarrow> cluster \<Rightarrow> bool" where
  "timely_step c c' = (cluster_step c c' \<and> timely c')"

text \<open>Each worker executes one run, no run has two workers, and a run with a worker is running.\<close>

definition exclusive :: "cluster \<Rightarrow> bool" where
  "exclusive c = (keyed rn_id (runs (db (cl_sys c))) \<and> timely c \<and>
     distinct (map fst (cl_busy c)) \<and> distinct (map snd (cl_busy c)) \<and>
     (\<forall>(w, k)\<in>set (cl_busy c). \<exists>r. get_run k (db (cl_sys c)) = Some r \<and> rn_status r = Running))"

section \<open>One worker per run\<close>

text \<open>The status of the runs that are being executed is all that the invariant asks of the table.\<close>

definition running_kept :: "(nat \<times> ident) list \<Rightarrow> 'w sys \<Rightarrow> 'w sys \<Rightarrow> bool" where
  "running_kept busy s s' = (\<forall>(w, k)\<in>set busy. \<forall>r. get_run k (db s) = Some r \<longrightarrow> rn_status r = Running \<longrightarrow>
     (\<exists>r'. get_run k (db s') = Some r' \<and> rn_status r' = Running))"

lemma exclusive_table:
  assumes "exclusive c" and "keyed rn_id (runs (db s))" and "running_kept (cl_busy c) (cl_sys c) s"
    and "timely (c\<lparr>cl_sys := s\<rparr>)"
  shows "exclusive (c\<lparr>cl_sys := s\<rparr>)"
  using assms by (fastforce simp: exclusive_def running_kept_def)

lemma release_sub: "set (release w busy) \<subseteq> set busy"
  by (auto simp: release_def)

lemma release_distinct: "distinct (map f busy) \<Longrightarrow> distinct (map f (release w busy))"
  by (simp add: release_def distinct_map_filter)

lemma exclusive_release:
  assumes "exclusive c" and "keyed rn_id (runs (db s))"
    and "running_kept (release w (cl_busy c)) (cl_sys c) s"
    and "timely \<lparr>cl_sys = s, cl_busy = release w (cl_busy c)\<rparr>"
  shows "exclusive \<lparr>cl_sys = s, cl_busy = release w (cl_busy c)\<rparr>"
proof -
  have "\<exists>r. get_run k (db s) = Some r \<and> rn_status r = Running" if "(w', k) \<in> set (release w (cl_busy c))" for w' k
  proof -
    have "(w', k) \<in> set (cl_busy c)" using that release_sub by blast
    then obtain r where "get_run k (db (cl_sys c)) = Some r" "rn_status r = Running"
      using assms(1) by (auto simp: exclusive_def)
    with that assms(3) show ?thesis by (auto simp: running_kept_def)
  qed
  moreover have "distinct (map fst (release w (cl_busy c)))" "distinct (map snd (release w (cl_busy c)))"
    using assms(1) release_distinct by (auto simp: exclusive_def)
  ultimately show ?thesis using assms(2,4) by (auto simp: exclusive_def)
qed

text \<open>A write to the row of one run leaves the others running.\<close>

lemma running_kept_update:
  assumes "\<And>r. rn_id (f r) = rn_id r" and "\<And>w. (w, k) \<notin> set busy"
    and "\<And>k'. k' \<noteq> k \<Longrightarrow> get_run k' (db s') = get_run k' (db s)"
  shows "running_kept busy s s'"
  using assms(2,3) by (fastforce simp: running_kept_def)

lemma busy_unique:
  "distinct (map snd busy) \<Longrightarrow> (w, k) \<in> set busy \<Longrightarrow> (w', k) \<in> set busy \<Longrightarrow> w' = w"
  by (metis distinct_map fst_conv inj_onD snd_conv)

lemma released_gone:
  assumes "exclusive c" and "(w, k) \<in> set (cl_busy c)"
  shows "(w', k) \<notin> set (release w (cl_busy c))"
  using busy_unique [of "cl_busy c" w k w'] assms by (auto simp: exclusive_def release_def)

lemma running_row:
  "exclusive c \<Longrightarrow> (w, k) \<in> set (cl_busy c) \<Longrightarrow> \<exists>r. get_run k (db (cl_sys c)) = Some r \<and> rn_status r = Running"
  by (auto simp: exclusive_def)

lemma claim_running_kept:
  assumes "keyed rn_id (runs (db s))" and "get_run k' (db s) = Some r" and "rn_status r = Running"
  shows "get_run k' (db (snd (claim k frm s))) = Some r"
proof -
  obtain won rows where cas: "cas_claim rn_id claimable grab_run k frm (clock s) (runs (db s)) = (won, rows)"
    by (metis prod.exhaust)
  have no: "\<not> claimable frm r" using assms(3) by (cases frm) (simp_all add: claimable_def)
  have row: "find_row rn_id k' rows = Some r"
  proof (cases "k' = k")
    case True
    then show ?thesis using run_claim.claim_row [of k frm "clock s" "runs (db s)"] cas assms(2) no
      by (simp add: get_run_def)
  next
    case False
    then show ?thesis using run_claim.claim_other_rows [of k' k frm "clock s" "runs (db s)"] cas assms(2)
      by (simp add: get_run_def)
  qed
  have "k' \<noteq> k" if won
    using that run_claim.claim_won_iff [OF assms(1), of k frm "clock s"] cas assms(2) no by (auto simp: get_run_def)
  then show ?thesis using cas row
    by (auto simp: claim_def Let_def get_run_def update_run_def find_row_update_other split: option.splits)
qed

lemma record_step_status:
  assumes "get_run k (db s) = Some r" and "record_step kind u detail snap s = (snap', s')"
  shows "\<exists>r'. get_run k (db s') = Some r' \<and> rn_status r' = rn_status r"
  using assms by (auto simp: record_step_def Let_def get_run_def update_run_def find_row_update_where)

lemma finish_other: "k \<noteq> sn_run snap \<Longrightarrow> get_run k (db (finish snap st a e s)) = get_run k (db s)"
  by (simp add: finish_row) (simp add: get_run_def update_run_def find_row_update_other)

lemma park_other: "k \<noteq> sn_run snap \<Longrightarrow> get_run k (db (park_for_approval snap tr pend gate s)) = get_run k (db s)"
  by (simp add: park_for_approval_def Let_def get_run_def update_run_def find_row_update_other)

lemma finish_keyed [simp]: "keyed rn_id (runs (db (finish snap st a e s))) = keyed rn_id (runs (db s))"
  by (simp add: finish_def Let_def update_run_def keyed_update_where split: option.splits)

lemma park_keyed [simp]: "keyed rn_id (runs (db (park_for_approval snap tr pend gate s))) = keyed rn_id (runs (db s))"
  by (simp add: park_for_approval_def Let_def update_run_def keyed_update_where)

lemma record_step_keyed: "record_step kind u d snap s = (snap', s') \<Longrightarrow> keyed rn_id (runs (db s')) = keyed rn_id (runs (db s))"
  by (auto simp: record_step_def Let_def update_run_def keyed_update_where)

lemma cancel_running:
  assumes "get_run k' (db s) = Some r" and "rn_status r = Running" and "request_cancel k ws s = (res, s')"
  shows "\<exists>r'. get_run k' (db s') = Some r' \<and> rn_status r' = Running"
proof (cases "k' = k")
  case True
  with assms show ?thesis by (auto simp: request_cancel_def terminal_status_def split: if_splits)
next
  case False
  with cancel_other_rows [OF this, of ws s] assms show ?thesis by simp
qed

lemma cancel_keyed: "request_cancel k ws s = (res, s') \<Longrightarrow> keyed rn_id (runs (db s')) = keyed rn_id (runs (db s))"
  by (auto simp: request_cancel_def update_run_def keyed_update_where split: option.splits if_splits)

lemma exclusive_step:
  assumes "exclusive c" and "timely_step c c'"
  shows "exclusive c'"
proof -
  have keys: "keyed rn_id (runs (db (cl_sys c)))" and tm: "timely c"
    using assms(1) by (simp_all add: exclusive_def)
  have kept: "running_kept (cl_busy c) (cl_sys c) s"
    if "\<And>k r. get_run k (db (cl_sys c)) = Some r \<Longrightarrow> rn_status r = Running \<Longrightarrow>
          \<exists>r'. get_run k (db s) = Some r' \<and> rn_status r' = Running" for s
    using that by (auto simp: running_kept_def)
  from assms(2) have "cluster_step c c'" and tm': "timely c'" by (simp_all add: timely_step_def)
  from this(1) show ?thesis
  proof (cases rule: cluster_step.cases)
    case (take_run k frm snap s w)
    from claim_Some [OF keys take_run(2)] obtain r where
      r: "get_run k (db (cl_sys c)) = Some r" "claimable frm r" "get_run k (db s) = Some (grab_run frm (clock (cl_sys c)) r)"
      by blast
    have new: "k \<notin> snd ` set (cl_busy c)"
      using r running_row [OF assms(1)] by (cases frm) (fastforce simp: claimable_def)+
    have "keyed rn_id (runs (db s))" using claim_keeps_keys [of k frm "cl_sys c"] take_run(2) keys by simp
    moreover have "\<exists>r'. get_run k' (db s) = Some r' \<and> rn_status r' = Running" if "(w', k') \<in> set (cl_busy c)" for w' k'
      using running_row [OF assms(1) that] claim_running_kept [OF keys, of k' _ k frm] take_run(2) by force
    ultimately show ?thesis
      using take_run assms(1) new r(3) tm' by (auto simp: exclusive_def grab_run_def image_iff)
  next
    case (lose_run k frm s)
    have "keyed rn_id (runs (db s))" using claim_keeps_keys [of k frm "cl_sys c"] lose_run(2) keys by simp
    moreover have "running_kept (cl_busy c) (cl_sys c) s"
      using claim_running_kept [OF keys, of _ _ k frm] lose_run(2) by (intro kept) force
    ultimately show ?thesis using exclusive_table [OF assms(1)] lose_run tm' by simp
  next
    case (beat w snap kind u detail snap' s)
    have "keyed rn_id (runs (db s))" using record_step_keyed [OF beat(3)] keys by simp
    moreover have "running_kept (cl_busy c) (cl_sys c) s"
      using record_step_status [OF _ beat(3)] by (intro kept) force
    ultimately show ?thesis using exclusive_table [OF assms(1)] beat tm' by simp
  next
    case (park w snap tr pend gate)
    have "running_kept (release w (cl_busy c)) (cl_sys c) (park_for_approval snap tr pend gate (cl_sys c))"
      by (rule running_kept_update [where k = "sn_run snap" and f = id])
         (simp_all add: released_gone [OF assms(1) park(2)] park_other)
    then show ?thesis using exclusive_release [OF assms(1)] park keys tm' by simp
  next
    case (settle w snap st answer err)
    have "running_kept (release w (cl_busy c)) (cl_sys c) (finish snap st answer err (cl_sys c))"
      by (rule running_kept_update [where k = "sn_run snap" and f = id])
         (simp_all add: released_gone [OF assms(1) settle(2)] finish_other)
    then show ?thesis using exclusive_release [OF assms(1)] settle keys tm' by simp
  next
    case (crash w)
    have "running_kept (release w (cl_busy c)) (cl_sys c) (cl_sys c)" by (auto simp: running_kept_def)
    then show ?thesis using exclusive_release [OF assms(1) keys] crash tm' by simp
  next
    case (cancel k ws res s)
    have "running_kept (cl_busy c) (cl_sys c) s" using cancel_running [OF _ _ cancel(2)] by (intro kept) blast
    then show ?thesis using exclusive_table [OF assms(1)] cancel cancel_keyed [OF cancel(2)] keys tm' by simp
  next
    case (place ss sid t goal key k s)
    have rows: "runs (db s) = runs (db (cl_sys c)) @
        [queued_run k (clock (cl_sys c)) (ss_workspace ss) sid (ss_profile ss) None goal key]"
      using place_run_runs [OF place(2)] by simp
    then have "keyed rn_id (runs (db s))" using keys place(3) by (simp add: keyed_def queued_run_def)
    moreover have "running_kept (cl_busy c) (cl_sys c) s"
      by (intro kept) (simp add: get_run_def rows find_row_append)
    ultimately show ?thesis using exclusive_table [OF assms(1)] place tm' by simp
  next
    case (sweep ks s)
    note exact = requeue_exact [OF keys sweep(2)]
    have row: "get_run k (db s) = map_option (\<lambda>r. if stale (clock (cl_sys c) - default_stale_after) r
        then r\<lparr>rn_status := Queued, rn_heartbeat_at := None\<rparr> else r) (get_run k (db (cl_sys c)))" for k
      using exact by (simp add: get_run_def find_row_map)
    have "\<not> stale (clock (cl_sys c) - default_stale_after) r"
      if "(w, k) \<in> set (cl_busy c)" "get_run k (db (cl_sys c)) = Some r" for w k r
      using tm that by (fastforce simp: timely_def stale_def)
    then have "running_kept (cl_busy c) (cl_sys c) s" by (auto simp: running_kept_def row)
    moreover have "keyed rn_id (runs (db s))"
      using exact keys by (simp add: keyed_def comp_def if_distrib [of rn_id] cong: if_cong)
    ultimately show ?thesis using exclusive_table [OF assms(1)] sweep tm' by simp
  next
    case (tick d)
    have "running_kept (cl_busy c) (cl_sys c) ((cl_sys c)\<lparr>clock := clock (cl_sys c) + d\<rparr>)"
      by (auto simp: running_kept_def)
    then show ?thesis using exclusive_table [OF assms(1)] tick keys tm' by simp
  qed
qed

interpretation workers: state_machine timely_step exclusive
  by unfold_locales (rule exclusive_step)

text \<open>C6.  One worker per run: in a deployment where workers claim, beat, park, finish and crash,
  operators cancel and submit and the recovery sweep runs, all in any order, no two workers ever
  execute the same run, as long as every worker beats within the stale window.\<close>

theorem one_worker_per_run:
  assumes "timely_step\<^sup>*\<^sup>* c c'" and "cl_busy c = []" and "keyed rn_id (runs (db (cl_sys c)))"
    and "(w, k) \<in> set (cl_busy c')" and "(w', k) \<in> set (cl_busy c')"
  shows "w = w' \<and> (\<exists>r. get_run k (db (cl_sys c')) = Some r \<and> rn_status r = Running)"
proof -
  have "exclusive c" using assms(2,3) by (simp add: exclusive_def timely_def)
  from workers.reached_good [OF assms(1) this] have ex: "exclusive c'" .
  then have "w' = w" using busy_unique assms(4,5) by (metis exclusive_def)
  with running_row [OF ex assms(4)] show ?thesis by simp
qed


section \<open>A concrete cluster\<close>

definition demo_sys :: "run_status \<Rightarrow> instant option \<Rightarrow> instant \<Rightarrow> unit sys" where
  "demo_sys st beat_at now = \<lparr>db = (demo_db Queued)\<lparr>runs := [(demo_run st)\<lparr>rn_heartbeat_at := beat_at\<rparr>]\<rparr>,
     published = [], clock = now, id_supply = 0, outside = ()\<rparr>"

lemma demo_take:
  "claim ''r1'' From_queued (demo_sys Queued None now) = (Some demo_snap, demo_sys Running (Some now) now)"
  by (simp add: claim_def cas_claim_def claimable_def grab_run_def demo_sys_def demo_snap_def snapshot_def demo_run_def
      queued_run_def demo_db_def demo_session_def demo_profile_def empty_database_def get_defs on_db_def on_runs_def Let_def)

lemma demo_first_take:
  "cluster_step \<lparr>cl_sys = demo_sys Queued None now, cl_busy = busy\<rparr>
     \<lparr>cl_sys = demo_sys Running (Some now) now, cl_busy = (w, ''r1'') # busy\<rparr>" if "w \<notin> fst ` set busy"
  using cluster_step.take_run [where c = "\<lparr>cl_sys = demo_sys Queued None now, cl_busy = busy\<rparr>" and w = w
      and k = "''r1''" and frm = From_queued] demo_take that by simp

theorem one_worker_per_run_witness:
  "\<exists>c'. timely_step\<^sup>*\<^sup>* \<lparr>cl_sys = demo_sys Queued None 7, cl_busy = []\<rparr> c' \<and>
     (\<exists>r. get_run ''r1'' (db (cl_sys c')) = Some r \<and> rn_status r = Running)"
proof -
  let ?c = "\<lparr>cl_sys = demo_sys Queued None 7, cl_busy = []\<rparr>"
  let ?c' = "\<lparr>cl_sys = demo_sys Running (Some 7) 7, cl_busy = [(0, ''r1'')]\<rparr>"
  have "timely ?c'"
    by (simp add: timely_def demo_sys_def demo_run_def queued_run_def demo_db_def get_run_def default_stale_after_def
        micros_def)
  then have "timely_step ?c ?c'" using demo_first_take [of 0 "[]" 7] by (simp add: timely_step_def)
  then have reach: "timely_step\<^sup>*\<^sup>* ?c ?c'" by (rule r_into_rtranclp)
  have "keyed rn_id (runs (db (cl_sys ?c)))" by (simp add: demo_sys_def)
  from one_worker_per_run [OF reach _ this, of 0 "''r1''" 0] reach show ?thesis by auto
qed

text \<open>Without that condition the promise fails, and the delegation tool breaks the condition: the
  runtime beats only when a step is recorded, \<open>agent.delegate\<close> may run for 1800 seconds inside one
  step, and the sweep takes a run back after 900.  A worker that delegates for that long loses its
  run to the sweep while it is alive, and a second worker executes it beside the first.\<close>

theorem slow_delegation_runs_twice:
  "\<exists>c'. cluster_step\<^sup>*\<^sup>* \<lparr>cl_sys = demo_sys Queued None 0, cl_busy = []\<rparr> c' \<and>
     clock (cl_sys c') = micros 1800 \<and> (0, ''r1'') \<in> set (cl_busy c') \<and> (1, ''r1'') \<in> set (cl_busy c')"
proof -
  let ?t = "micros 1800"
  let ?c1 = "\<lparr>cl_sys = demo_sys Running (Some 0) 0, cl_busy = [(0, ''r1'')]\<rparr>"
  let ?c2 = "\<lparr>cl_sys = demo_sys Running (Some 0) ?t, cl_busy = [(0, ''r1'')]\<rparr>"
  let ?c3 = "\<lparr>cl_sys = demo_sys Queued None ?t, cl_busy = [(0, ''r1'')]\<rparr>"
  have take0: "cluster_step \<lparr>cl_sys = demo_sys Queued None 0, cl_busy = []\<rparr> ?c1"
    using demo_first_take [of 0 "[]" 0] by simp
  have wait: "cluster_step ?c1 ?c2"
    using cluster_step.tick [of ?t ?c1] by (simp add: demo_sys_def micros_def)
  have "requeue_orphaned_runs default_stale_after (demo_sys Running (Some 0) ?t) = ([''r1''], demo_sys Queued None ?t)"
    by (simp add: requeue_orphaned_runs_def demo_sys_def demo_run_def queued_run_def demo_db_def stale_def
        default_stale_after_def micros_def cas_claim_def requeue_run_def on_db_def on_runs_def Let_def)
  then have swept: "cluster_step ?c2 ?c3"
    using cluster_step.sweep [of ?c2] by simp
  have "cluster_step ?c3 \<lparr>cl_sys = demo_sys Running (Some ?t) ?t, cl_busy = [(1, ''r1''), (0, ''r1'')]\<rparr>"
    using demo_first_take [of 1 "[(0, ''r1'')]" ?t] by simp
  with take0 wait swept have "cluster_step\<^sup>*\<^sup>* \<lparr>cl_sys = demo_sys Queued None 0, cl_busy = []\<rparr>
      \<lparr>cl_sys = demo_sys Running (Some ?t) ?t, cl_busy = [(1, ''r1''), (0, ''r1'')]\<rparr>"
    by (meson converse_rtranclp_into_rtranclp rtranclp.rtrancl_refl)
  then show ?thesis by (intro exI conjI) (auto simp: demo_sys_def)
qed

end
