(* ===== verification/Privileges.thy ===== *)
theory Privileges
  imports Prelude
begin

text \<open>
  \<open>system/privileges.py\<close>: every host operation is a read, a mutation that needs approval, or
  refused whatever anybody approves.  The signal names are those of Linux.
\<close>

datatype operation_class = READ | MUTATE | REFUSED

record unsafe_operation =
  un_operation :: string
  un_reason :: string
  un_alternative :: string

definition unsafe_text :: "unsafe_operation \<Rightarrow> string" where
  "unsafe_text u = ''refused: '' @ un_operation u @ '' '' @ em_dash @ '' '' @ un_reason u @
     (if un_alternative u = [] then [] else ''. '' @ un_alternative u)"

section \<open>Kernel parameters\<close>

definition sysctl_mutable_prefixes :: "string list" where
  "sysctl_mutable_prefixes =
     [''net.core.'', ''net.ipv4.tcp_'', ''net.ipv4.ip_local_port_range'', ''net.netfilter.nf_conntrack_max'',
      ''vm.swappiness'', ''vm.dirty_ratio'', ''vm.dirty_background_ratio'', ''vm.vfs_cache_pressure'',
      ''vm.max_map_count'', ''fs.file-max'', ''fs.inotify.'', ''kernel.pid_max'']"

definition sysctl_refused :: "(string \<times> string \<times> string) list" where
  "sysctl_refused =
     [(''kernel.modules_disabled'', ''one-way switch that cannot be undone without a reboot'',
         ''Adjust module policy through your boot configuration instead.''),
      (''kernel.kptr_restrict'', ''relaxing it leaks kernel pointers to userspace and defeats KASLR'', []),
      (''kernel.dmesg_restrict'', ''weakens kernel log access control'', []),
      (''kernel.unprivileged_bpf_disabled'',
         ''re-enabling unprivileged BPF is a documented privilege-escalation surface'', []),
      (''kernel.core_pattern'',
         ''it is executed by the kernel on crash and is a known root-escalation vector'', []),
      (''kernel.sysrq'', ''exposes direct kernel commands including immediate reboot'', []),
      (''kernel.randomize_va_space'', ''disabling ASLR removes a core exploit mitigation'', []),
      (''kernel.ftrace_enabled'', ''kernel tracing control is not agent-appropriate'', [])]"

definition classify_sysctl :: "string \<Rightarrow> operation_class \<times> string" where
  "classify_sysctl key =
     (let normalized = strip key in
      case map_of sysctl_refused normalized of
        Some (reason, alternative) \<Rightarrow>
          (REFUSED, if alternative = [] then reason else reason @ ''. '' @ alternative)
      | None \<Rightarrow>
          if list_ex (\<lambda>p. starts_with p normalized) sysctl_mutable_prefixes
          then (MUTATE, ''reversible tunable; requires approval'')
          else (REFUSED, py_repr normalized @ '' is outside the reviewed tunable set; '' @
                  ''add it to the allowlist deliberately if your deployment needs it''))"

section \<open>Signals\<close>

definition known_signals :: "(int \<times> string) list" where
  "known_signals =
     [(1, ''SIGHUP''), (2, ''SIGINT''), (9, ''SIGKILL''), (10, ''SIGUSR1''), (12, ''SIGUSR2''), (15, ''SIGTERM''),
      (18, ''SIGCONT''), (19, ''SIGSTOP'')]"

text \<open>\<open>signal.Signals\<close> of the standard library, on Linux.\<close>

definition all_signals :: "(int \<times> string) list" where
  "all_signals =
     known_signals @
     [(3, ''SIGQUIT''), (4, ''SIGILL''), (5, ''SIGTRAP''), (6, ''SIGABRT''), (7, ''SIGBUS''), (8, ''SIGFPE''),
      (11, ''SIGSEGV''), (13, ''SIGPIPE''), (14, ''SIGALRM''), (16, ''SIGSTKFLT''), (17, ''SIGCHLD''),
      (20, ''SIGTSTP''), (21, ''SIGTTIN''), (22, ''SIGTTOU''), (23, ''SIGURG''), (24, ''SIGXCPU''),
      (25, ''SIGXFSZ''), (26, ''SIGVTALRM''), (27, ''SIGPROF''), (28, ''SIGWINCH''), (29, ''SIGIO''),
      (30, ''SIGPWR''), (31, ''SIGSYS''), (34, ''SIGRTMIN''), (64, ''SIGRTMAX'')]"

definition protected_pids :: "int list" where
  "protected_pids = [0, 1]"

definition classify_signal :: "int \<Rightarrow> int \<Rightarrow> int \<Rightarrow> operation_class \<times> string" where
  "classify_signal pid sig own_pid =
     (if pid \<in> set protected_pids
      then (REFUSED, ''pid '' @ show_int pid @ '' is the init/kernel process; signalling it halts the host'')
      else if pid = own_pid
      then (REFUSED, ''that is the agent'' @ [CHR 0x27] @ ''s own process; terminating it would abandon this run'')
      else if pid < 0
      then (REFUSED, ''negative pids signal an entire process group, which is too broad to approve safely'')
      else case map_of all_signals sig of
        None \<Rightarrow> (REFUSED, ''unknown signal number '' @ show_int sig)
      | Some name \<Rightarrow>
          if sig \<notin> fst ` set known_signals then (REFUSED, name @ '' is not in the permitted signal set'')
          else (MUTATE, ''sending '' @ name @ '' to pid '' @ show_int pid @ '' requires approval''))"

section \<open>Kernel modules\<close>

definition refuse_module_operation :: "string \<Rightarrow> unsafe_operation" where
  "refuse_module_operation operation =
     \<lparr>un_operation = operation,
      un_reason = ''loading or unloading kernel modules executes arbitrary code in kernel space, '' @
        ''where there is no sandbox, no rollback, and a fault panics the host'',
      un_alternative = ''Module inventory is readable via system.modules; if a module must change, '' @
        ''do it through your configuration management with a human at the console.''\<rparr>"

section \<open>Services\<close>

definition service_name_char :: "char \<Rightarrow> bool" where
  "service_name_char c =
     ((CHR ''A'' \<le> c \<and> c \<le> CHR ''Z'') \<or> (CHR ''a'' \<le> c \<and> c \<le> CHR ''z'') \<or> is_digit c \<or>
      c \<in> {CHR ''@'', CHR '':'', CHR ''.'', CHR ''_'', CHR 0x5C, CHR ''-''})"

definition service_name :: "string \<Rightarrow> bool" where
  "service_name unit = (full_match service_name_char unit \<and> length (before_newline unit) \<le> 128)"

definition critical_services :: "string list" where
  "critical_services =
     [''sshd'', ''ssh'', ''systemd-journald'', ''systemd-logind'', ''dbus'', ''networking'', ''systemd-networkd'',
      ''NetworkManager'']"

definition service_read_actions :: "string list" where
  "service_read_actions = [''status'', ''is-active'', ''is-enabled'', ''show'', ''cat'']"

definition service_mutate_actions :: "string list" where
  "service_mutate_actions = [''start'', ''stop'', ''restart'', ''reload'', ''enable'', ''disable'']"

definition classify_service :: "string \<Rightarrow> string \<Rightarrow> operation_class \<times> string" where
  "classify_service unit action =
     (if \<not> service_name unit then (REFUSED, ''invalid unit name '' @ py_repr unit)
      else if action \<in> set service_read_actions then (READ, ''inspection only'')
      else if action \<notin> set service_mutate_actions
      then (REFUSED, ''unsupported service action '' @ py_repr action)
      else let base = remove_suffix ''.service'' unit in
        if base \<in> set critical_services \<and> action \<in> set [''stop'', ''disable'', ''restart'']
        then (REFUSED, base @ '' carries the operator'' @ [CHR 0x27] @ ''s own access to this host; '' @
               ''stopping it could make the machine unreachable'')
        else (MUTATE, action @ '' on '' @ unit @ '' requires approval''))"

section \<open>The operator's policy\<close>

record system_policy =
  sp_enabled :: bool
  sp_allow_mutations :: bool
  sp_extra_sysctls :: "string list"
  sp_backend :: string
  sp_socket :: string

definition default_policy :: system_policy where
  "default_policy = \<lparr>sp_enabled = False, sp_allow_mutations = False, sp_extra_sysctls = [],
     sp_backend = ''direct'', sp_socket = ''/run/hoursx/sysd.sock''\<rparr>"

definition check_enabled :: "system_policy \<Rightarrow> string \<Rightarrow> unsafe_operation option" where
  "check_enabled p operation =
     (if sp_enabled p then None
      else Some \<lparr>un_operation = operation, un_reason = ''system operations are disabled on this deployment'',
                 un_alternative = ''Set HOURSX_SYSTEM_OPS=true to enable them.''\<rparr>)"

definition classify_sysctl_write :: "system_policy \<Rightarrow> string \<Rightarrow> operation_class \<times> string" where
  "classify_sysctl_write p key =
     (if key \<in> set (sp_extra_sysctls p) then (MUTATE, ''explicitly allowlisted by the operator'')
      else classify_sysctl key)"

definition require_mutations_allowed :: "system_policy \<Rightarrow> string \<Rightarrow> unsafe_operation option" where
  "require_mutations_allowed p operation =
     (if sp_allow_mutations p then None
      else Some \<lparr>un_operation = operation, un_reason = ''this deployment permits read-only system access'',
                 un_alternative = ''Set HOURSX_SYSTEM_MUTATIONS=true to allow approved changes.''\<rparr>)"

end
