(* ===== verification/Helper.thy ===== *)
theory Helper
  imports Utf8
begin

text \<open>
  \<open>system/helper.py\<close>: the client of the privileged daemon.  A request is one line, the verb and
  its arguments in base64; the reply is a status word and a base64 payload.  The socket is a
  function of the request line, and gives the bytes of a line; base64 is the standard library's
  \<open>b64encode\<close> and \<open>b64decode\<close> (which skips characters outside the alphabet, and raises
  \<open>ValueError\<close> for a \<open>str\<close> that is not ASCII).
\<close>

section \<open>Base64\<close>

definition b64_char :: "nat \<Rightarrow> char" where
  "b64_char v = char_of (if v < 26 then 65 + v else if v < 52 then 71 + v else if v < 62 then v - 4
     else if v = 62 then 43 else 47)"

definition b64_val :: "char \<Rightarrow> nat option" where
  "b64_val c = (let n = (of_char c :: nat) in
     if 65 \<le> n \<and> n \<le> 90 then Some (n - 65) else if 97 \<le> n \<and> n \<le> 122 then Some (n - 71)
     else if 48 \<le> n \<and> n \<le> 57 then Some (n + 4) else if n = 43 then Some 62 else if n = 47 then Some 63
     else None)"

fun b64_encode :: "string \<Rightarrow> string" where
  "b64_encode [] = []"
| "b64_encode [a] =
     (let x = (of_char a :: nat) in [b64_char (x div 4), b64_char (x mod 4 * 16), CHR ''='', CHR ''=''])"
| "b64_encode [a, b] =
     (let x = (of_char a :: nat); y = (of_char b :: nat)
      in [b64_char (x div 4), b64_char (x mod 4 * 16 + y div 16), b64_char (y mod 16 * 4), CHR ''=''])"
| "b64_encode (a # b # c # r) =
     (let x = (of_char a :: nat); y = (of_char b :: nat); z = (of_char c :: nat)
      in b64_char (x div 4) # b64_char (x mod 4 * 16 + y div 16) # b64_char (y mod 16 * 4 + z div 64) #
         b64_char (z mod 64) # b64_encode r)"

text \<open>
  The decoder's loop: \<open>quad\<close> is the position in the group of four, \<open>left\<close> the bits carried
  over, \<open>pads\<close> the padding characters in a row.  \<open>None\<close> is the \<open>ValueError\<close>.
\<close>

fun b64_loop :: "nat \<Rightarrow> nat \<Rightarrow> nat \<Rightarrow> string \<Rightarrow> string option" where
  "b64_loop quad left pads [] = (if quad = 0 then Some [] else None)"
| "b64_loop quad left pads (c # cs) =
     (if c = CHR ''='' then
        (if quad \<ge> 2 then (if quad + Suc pads \<ge> 4 then Some [] else b64_loop quad left (Suc pads) cs)
         else b64_loop quad left pads cs)
      else case b64_val c of
        None \<Rightarrow> b64_loop quad left pads cs
      | Some v \<Rightarrow>
          if quad = 0 then b64_loop 1 v 0 cs
          else if quad = 1 then map_option ((#) (char_of (left * 4 + v div 16))) (b64_loop 2 (v mod 16) 0 cs)
          else if quad = 2 then map_option ((#) (char_of (left * 16 + v div 4))) (b64_loop 3 (v mod 4) 0 cs)
          else map_option ((#) (char_of (left * 64 + v))) (b64_loop 0 0 0 cs))"

definition b64_decode :: "string \<Rightarrow> string option" where
  "b64_decode = b64_loop 0 0 0"

text \<open>\<open>urlsafe_b64encode\<close> replaces two characters of the alphabet.\<close>

definition url_char :: "char \<Rightarrow> char" where
  "url_char c = (if c = CHR ''+'' then CHR ''-'' else if c = CHR ''/'' then CHR ''_'' else c)"

lemma b64_char_val:
  assumes "v < 64"
  shows "b64_val (b64_char v) = Some v \<and> b64_char v \<noteq> CHR ''=''"
proof -
  have code: "(of_char (b64_char v) :: nat) =
      (if v < 26 then 65 + v else if v < 52 then 71 + v else if v < 62 then v - 4 else if v = 62 then 43 else 47)"
    using assms by (simp add: b64_char_def)
  have "(of_char (b64_char v) :: nat) \<noteq> 61" unfolding code using assms by auto
  then have "b64_char v \<noteq> CHR ''=''" by auto
  moreover have "b64_val (b64_char v) = Some v" unfolding b64_val_def code Let_def using assms by auto
  ultimately show ?thesis by simp
qed

lemma b64_val_char [simp]: "v < 64 \<Longrightarrow> b64_val (b64_char v) = Some v"
  and b64_char_pad [simp]: "v < 64 \<Longrightarrow> b64_char v \<noteq> CHR ''=''"
  by (simp_all add: b64_char_val)

lemma byte_bound: "(of_char c :: nat) < 256"
  by simp

lemma byte_top [simp]:
  fixes c :: char
  shows "of_char c div 16 mod 16 = (of_char c div 16 :: nat)" "of_char c div 64 mod 4 = (of_char c div 64 :: nat)"
proof -
  have "(of_char c :: nat) < 256" by simp
  then have "(of_char c :: nat) div 16 < 16" "(of_char c :: nat) div 64 < 4" by linarith+
  then show "of_char c div 16 mod 16 = (of_char c div 16 :: nat)" "of_char c div 64 mod 4 = (of_char c div 64 :: nat)"
    by simp_all
qed

lemma byte_bits [simp]: "char_of (of_char c div 4 * 4 + of_char c mod 4 :: nat) = c"
  "char_of (of_char c div 16 * 16 + of_char c mod 16 :: nat) = c"
  "char_of (of_char c div 64 * 64 + of_char c mod 64 :: nat) = c"
  by simp_all

lemma byte_parts [simp]:
  fixes c :: char
  shows "of_char c div 4 < (64 :: nat)" "of_char c mod 4 * 16 < (64 :: nat)" "of_char c mod 16 * 4 < (64 :: nat)"
    "of_char c mod 64 < (64 :: nat)"
    "of_char c mod 4 * 16 + of_char d div 16 < (64 :: nat)"
    "of_char c mod 16 * 4 + of_char d div 64 < (64 :: nat)"
proof -
  have c: "(of_char c :: nat) < 256" and d: "(of_char d :: nat) < 256" by simp_all
  have m: "(of_char c :: nat) mod 4 < 4" "(of_char c :: nat) mod 16 < 16" by simp_all
  show "of_char c div 4 < (64 :: nat)" "of_char c mod 4 * 16 < (64 :: nat)" "of_char c mod 16 * 4 < (64 :: nat)"
    "of_char c mod 64 < (64 :: nat)"
    "of_char c mod 4 * 16 + of_char d div 16 < (64 :: nat)"
    "of_char c mod 16 * 4 + of_char d div 64 < (64 :: nat)"
    using c d m by linarith+
qed

lemma b64_round: "b64_decode (b64_encode s) = Some s"
  unfolding b64_decode_def
proof (induction s rule: b64_encode.induct)
  case (4 a b c r)
  have d: "(of_char a mod 4 * 16 + of_char b div 16) div 16 = (of_char a mod 4 :: nat)"
    "(of_char a mod 4 * 16 + of_char b div 16) mod 16 = (of_char b div 16 :: nat)"
    "(of_char b mod 16 * 4 + of_char c div 64) div 4 = (of_char b mod 16 :: nat)"
    "(of_char b mod 16 * 4 + of_char c div 64) mod 4 = (of_char c div 64 :: nat)"
    using byte_bound [of b] byte_bound [of c] by (simp_all add: div_add1_eq mod_add_eq less_mult_imp_div_less)
  show ?case using 4 by (simp add: Let_def d)
qed (simp_all add: Let_def div_add1_eq less_mult_imp_div_less)

section \<open>The protocol\<close>

text \<open>What the socket does with a request line: no connection, no answer in time, or the line read.\<close>

datatype helper_reply = No_connection string | No_response string | Reply_line string

definition max_reply_bytes :: nat where
  "max_reply_bytes = 1048576"

definition encode_request :: "string \<Rightarrow> string list \<Rightarrow> string" where
  "encode_request verb args = join '' '' (verb # map b64_encode args)"

text \<open>\<open>Inl\<close> is the \<open>HelperUnavailableError\<close>.\<close>

definition read_reply :: "string \<Rightarrow> string + (bool \<times> string)" where
  "read_reply line =
     (if line = [] \<or> length line > max_reply_bytes then Inl ''hoursx-sysd returned an unusable reply''
      else let t = strip_text (decode_lossy line); word = part_after CHR '' '' t in
        case (if is_ascii word then b64_decode word else None) of
          None \<Rightarrow> Inl ''hoursx-sysd returned a malformed reply''
        | Some payload \<Rightarrow> Inr (part_before CHR '' '' t = ''OK'', decode_lossy payload))"

definition helper_call ::
  "(string \<Rightarrow> string \<Rightarrow> 'h \<Rightarrow> helper_reply \<times> 'h) \<Rightarrow> string \<Rightarrow> string \<Rightarrow> string list \<Rightarrow> 'h
     \<Rightarrow> (string + (bool \<times> string)) \<times> 'h" where
  "helper_call transport socket verb args h =
     (case transport socket (encode_request verb args @ [CHR 0x0A]) h of
        (No_connection exc, h1) \<Rightarrow>
          (Inl (''cannot reach hoursx-sysd at '' @ socket @ '': '' @ exc @
             ''. Start the daemon, or set HOURSX_SYSTEM_BACKEND=direct.''), h1)
      | (No_response exc, h1) \<Rightarrow> (Inl (''hoursx-sysd did not respond: '' @ exc), h1)
      | (Reply_line line, h1) \<Rightarrow> (read_reply line, h1))"

definition parse_exit_code :: "string \<Rightarrow> int option" where
  "parse_exit_code payload =
     (let first = part_before CHR 0x0A payload
      in if starts_with ''exit '' first then parse_int (strip (drop 5 first)) else None)"

definition ping ::
  "(string \<Rightarrow> string \<Rightarrow> 'h \<Rightarrow> helper_reply \<times> 'h) \<Rightarrow> string \<Rightarrow> 'h \<Rightarrow> (string + string) \<times> 'h" where
  "ping transport socket h =
     (case helper_call transport socket ''PING'' [] h of
        (Inl e, h1) \<Rightarrow> (Inl e, h1)
      | (Inr (ok, payload), h1) \<Rightarrow> (if ok then Inr payload else Inl payload, h1))"

definition helper_sysctl_get ::
  "(string \<Rightarrow> string \<Rightarrow> 'h \<Rightarrow> helper_reply \<times> 'h) \<Rightarrow> string \<Rightarrow> string \<Rightarrow> 'h \<Rightarrow> (string + string option) \<times> 'h" where
  "helper_sysctl_get transport socket key h =
     (case helper_call transport socket ''SYSCTL_GET'' [key] h of
        (Inl e, h1) \<Rightarrow> (Inl e, h1)
      | (Inr (ok, payload), h1) \<Rightarrow> (Inr (if ok then Some payload else None), h1))"

definition probe_helper ::
  "(string \<Rightarrow> string \<Rightarrow> 'h \<Rightarrow> helper_reply \<times> 'h) \<Rightarrow> string \<Rightarrow> 'h \<Rightarrow> (bool \<times> string) \<times> 'h" where
  "probe_helper transport socket h =
     (case ping transport socket h of
        (Inl e, h1) \<Rightarrow> ((False, e), h1)
      | (Inr version, h1) \<Rightarrow> ((True, version), h1))"

text \<open>The request of an operation can be read back: the words of the line, decoded, are its arguments.\<close>

lemma b64_chars: "c \<in> set (b64_encode s) \<Longrightarrow> c \<noteq> CHR '' '' \<and> c \<noteq> CHR 0x0A"
proof (induction s rule: b64_encode.induct)
  case (4 a b c' r)
  have "b64_char v \<noteq> CHR '' '' \<and> b64_char v \<noteq> CHR 0x0A" if "v < 64" for v
    using b64_val_char [OF that] by (auto simp: b64_val_def)
  then show ?case using 4 by (auto simp: Let_def)
next
  case (2 a)
  have "b64_char v \<noteq> CHR '' '' \<and> b64_char v \<noteq> CHR 0x0A" if "v < 64" for v
    using b64_val_char [OF that] by (auto simp: b64_val_def)
  then show ?case using 2 by (auto simp: Let_def)
next
  case (3 a b)
  have "b64_char v \<noteq> CHR '' '' \<and> b64_char v \<noteq> CHR 0x0A" if "v < 64" for v
    using b64_val_char [OF that] by (auto simp: b64_val_def)
  then show ?case using 3 by (auto simp: Let_def)
qed simp

lemma split_request:
  "CHR '' '' \<notin> set verb \<Longrightarrow>
   split_on CHR '' '' (encode_request verb args) = verb # map b64_encode args"
proof (induction args arbitrary: verb)
  case (Cons a args)
  have "CHR '' '' \<notin> set (b64_encode a)" using b64_chars by blast
  then have "split_on CHR '' '' (encode_request (b64_encode a) args) = b64_encode a # map b64_encode args"
    by (rule Cons.IH)
  then show ?case using Cons.prems
    by (simp add: encode_request_def) (use split_on_append [of "CHR '' ''" verb] in simp)
qed (simp add: encode_request_def split_on_plain)

text \<open>The wire format of the helper loses nothing: the words of a request line are the verb and,
  decoded, the arguments, and no argument can end the line early or add a word to it, whatever
  characters it contains.\<close>

theorem request_roundtrip:
  assumes "CHR '' '' \<notin> set verb" and "CHR 0x0A \<notin> set verb"
  shows "let line = encode_request verb args in
    CHR 0x0A \<notin> set line \<and> hd (split_on CHR '' '' line) = verb \<and>
    map b64_decode (tl (split_on CHR '' '' line)) = map Some args"
proof -
  have "CHR 0x0A \<notin> set (encode_request verb args)" using assms(2)
  proof (induction args arbitrary: verb)
    case (Cons a args)
    have "CHR 0x0A \<notin> set (encode_request (b64_encode a) args)" using b64_chars by (intro Cons.IH) blast
    then show ?case using Cons.prems by (simp add: encode_request_def)
  qed (simp add: encode_request_def)
  then show ?thesis using split_request [OF assms(1), of args] by (simp add: Let_def b64_round comp_def)
qed

theorem request_roundtrip_witness:
  "map b64_decode (tl (split_on CHR '' '' (encode_request ''SYSCTL_SET'' [''vm.swappiness'', ''10 20'' @ [CHR 0x0A]])))
   = [Some ''vm.swappiness'', Some (''10 20'' @ [CHR 0x0A])]"
  using request_roundtrip [of "''SYSCTL_SET''" "[''vm.swappiness'', ''10 20'' @ [CHR 0x0A]]"] by (simp add: Let_def)

end
