(* ===== verification/Probe.thy ===== *)
theory Probe
  imports Prelude
begin

text \<open>
  \<open>system/probe.py\<close>: what the host says about itself.  The kernel's files, directories and the
  few library calls are functions of the host (\<open>host_io\<close>); the parsers are the code's.  A path
  is the list of its parts.  An exception that escapes a probe is \<open>None\<close> of its result.
\<close>

section \<open>Numbers in text\<close>

text \<open>\<open>float(s)\<close>: \<open>None\<close> is the \<open>ValueError\<close>.  (Digit-group underscores are not modelled.)\<close>

datatype number = Finite real | Infinite bool | Not_a_number

definition exponent_of :: "string \<Rightarrow> int option" where
  "exponent_of t = (if t = [] then Some 0
     else if hd t \<in> {CHR ''e'', CHR ''E''} then
       (let u = tl t in
        if u \<noteq> [] \<and> hd u = CHR ''-'' then map_option (\<lambda>n. - int n) (parse_nat (tl u))
        else if u \<noteq> [] \<and> hd u = CHR ''+'' then map_option int (parse_nat (tl u))
        else map_option int (parse_nat u))
     else None)"

definition decimal_value :: "string \<Rightarrow> string \<Rightarrow> int \<Rightarrow> real" where
  "decimal_value whole decimals e =
     real (digits_val (whole @ decimals)) * (10 powi (e - int (length decimals)))"

definition parse_unsigned_float :: "string \<Rightarrow> number option" where
  "parse_unsigned_float t =
     (if lower t \<in> {''inf'', ''infinity''} then Some (Infinite False)
      else if lower t = ''nan'' then Some Not_a_number
      else let whole = takeWhile is_digit t; r = dropWhile is_digit t;
               dot = (r \<noteq> [] \<and> hd r = CHR ''.'');
               decimals = (if dot then takeWhile is_digit (tl r) else []);
               rest = (if dot then dropWhile is_digit (tl r) else r)
           in if whole = [] \<and> decimals = [] then None
              else map_option (\<lambda>e. Finite (decimal_value whole decimals e)) (exponent_of rest))"

fun negate :: "number \<Rightarrow> number" where
  "negate (Finite x) = Finite (- x)"
| "negate (Infinite b) = Infinite (\<not> b)"
| "negate Not_a_number = Not_a_number"

definition parse_float :: "string \<Rightarrow> number option" where
  "parse_float s = (let t = strip s in
     if t \<noteq> [] \<and> hd t = CHR ''-'' then map_option negate (parse_unsigned_float (tl t))
     else if t \<noteq> [] \<and> hd t = CHR ''+'' then parse_unsigned_float (tl t)
     else parse_unsigned_float t)"

text \<open>\<open>int(s, 16)\<close>.\<close>

definition hex_digit :: "char \<Rightarrow> nat option" where
  "hex_digit c = (let n = (of_char c :: nat) in
     if 48 \<le> n \<and> n \<le> 57 then Some (n - 48) else if 97 \<le> n \<and> n \<le> 102 then Some (n - 87)
     else if 65 \<le> n \<and> n \<le> 70 then Some (n - 55) else None)"

fun hex_value :: "nat \<Rightarrow> string \<Rightarrow> nat option" where
  "hex_value acc [] = Some acc"
| "hex_value acc (c # cs) = (case hex_digit c of None \<Rightarrow> None | Some d \<Rightarrow> hex_value (16 * acc + d) cs)"

definition parse_hex_digits :: "string \<Rightarrow> nat option" where
  "parse_hex_digits t =
     (let u = (if starts_with ''0x'' (lower t) then drop 2 t else t)
      in if u = [] then None else hex_value 0 u)"

definition parse_hex :: "string \<Rightarrow> int option" where
  "parse_hex s = (let t = strip s in
     if t \<noteq> [] \<and> hd t = CHR ''-'' then map_option (\<lambda>n. - int n) (parse_hex_digits (tl t))
     else if t \<noteq> [] \<and> hd t = CHR ''+'' then map_option int (parse_hex_digits (tl t))
     else map_option int (parse_hex_digits t))"

section \<open>The host\<close>

type_synonym path = "string list"

datatype dmesg_run = Dmesg_missing | Dmesg_error string | Dmesg_exit int string

record 'h host_io =
  io_file :: "path \<Rightarrow> 'h \<Rightarrow> string option"          \<comment> \<open>the text of a file; \<open>None\<close> when reading fails\<close>
  io_exists :: "path \<Rightarrow> 'h \<Rightarrow> bool"
  io_is_file :: "path \<Rightarrow> 'h \<Rightarrow> bool"
  io_names :: "path \<Rightarrow> 'h \<Rightarrow> string list option"     \<comment> \<open>\<open>iterdir\<close>; \<open>None\<close> when there is no directory\<close>
  io_below :: "path \<Rightarrow> 'h \<Rightarrow> path list"              \<comment> \<open>\<open>sorted(root.rglob("*"))\<close>\<close>
  io_link :: "path \<Rightarrow> 'h \<Rightarrow> string option"
  io_disk :: "string \<Rightarrow> 'h \<Rightarrow> (int \<times> int \<times> int) option"  \<comment> \<open>total, used, free of a mountpoint\<close>
  io_load :: "'h \<Rightarrow> (real \<times> real \<times> real) option"
  io_page_size :: int
  io_cpu_count :: int
  io_uname :: "string \<times> string \<times> string \<times> string"   \<comment> \<open>release, version, machine, node\<close>
  io_kmsg :: "'h \<Rightarrow> string list option"              \<comment> \<open>the chunks a non-blocking reader gets\<close>
  io_dmesg :: "'h \<Rightarrow> dmesg_run"

definition PROC :: path where "PROC = [''proc'']"

definition SYS :: path where "SYS = [''sys'']"

definition read_text :: "'h host_io \<Rightarrow> path \<Rightarrow> nat \<Rightarrow> 'h \<Rightarrow> string option" where
  "read_text io p limit h = map_option (take limit) (io_file io p h)"

definition text_or_empty :: "string option \<Rightarrow> string" where
  "text_or_empty x = (case x of None \<Rightarrow> [] | Some t \<Rightarrow> t)"

definition read_int :: "'h host_io \<Rightarrow> path \<Rightarrow> 'h \<Rightarrow> int option" where
  "read_int io p h = (case read_text io p 64 h of None \<Rightarrow> None | Some raw \<Rightarrow> parse_int (strip raw))"

definition numeric :: "string \<Rightarrow> bool" where
  "numeric s = (s \<noteq> [] \<and> list_all is_digit s)"

section \<open>The kernel\<close>

record kernel_facts =
  kf_release :: string
  kf_version :: string
  kf_architecture :: string
  kf_hostname :: string
  kf_distribution :: string
  kf_uptime :: "number option"
  kf_command_line :: string
  kf_cpu_count :: int
  kf_page_size :: int
  kf_container :: "string option"
  kf_security_modules :: "string list"

definition detect_container :: "'h host_io \<Rightarrow> 'h \<Rightarrow> string option" where
  "detect_container io h =
     (if io_exists io [''.dockerenv''] h then Some ''docker''
      else let cgroup = text_or_empty (read_text io (PROC @ [''1'', ''cgroup'']) 8192 h) in
        case find (\<lambda>m. contains m cgroup) [''kubepods'', ''docker'', ''containerd'', ''lxc'', ''podman''] of
          Some m \<Rightarrow> Some m
        | None \<Rightarrow>
            (let sched = text_or_empty (read_text io (PROC @ [''1'', ''sched'']) 256 h)
             in if sched \<noteq> [] \<and> \<not> (starts_with ''systemd'' sched \<or> starts_with ''init'' sched)
                then Some ''unknown-container'' else None))"

definition strip_chars :: "char \<Rightarrow> string \<Rightarrow> string" where
  "strip_chars c s = rev (dropWhile (\<lambda>x. x = c) (rev (dropWhile (\<lambda>x. x = c) s)))"

definition detect_distribution :: "'h host_io \<Rightarrow> 'h \<Rightarrow> string" where
  "detect_distribution io h =
     (case find (starts_with ''PRETTY_NAME='')
             (splitlines (text_or_empty (read_text io [''etc'', ''os-release''] 8192 h))) of
        None \<Rightarrow> []
      | Some line \<Rightarrow> strip_chars CHR 0x22 (strip (part_after CHR ''='' line)))"

definition security_modules :: "'h host_io \<Rightarrow> 'h \<Rightarrow> string list" where
  "security_modules io h =
     filter (\<lambda>m. m \<noteq> [])
       (split_on CHR '','' (strip (text_or_empty (read_text io (SYS @ [''kernel'', ''security'', ''lsm'']) 512 h))))"

definition kernel_facts_of :: "'h host_io \<Rightarrow> 'h \<Rightarrow> kernel_facts" where
  "kernel_facts_of io h =
     (let (release, version, machine, node) = io_uname io;
          words = split_ws (text_or_empty (read_text io (PROC @ [''uptime'']) 128 h));
          version_text = text_or_empty (read_text io (PROC @ [''version'']) 1024 h)
      in \<lparr>kf_release = release,
          kf_version = strip (if version_text = [] then version else version_text),
          kf_architecture = machine, kf_hostname = node, kf_distribution = detect_distribution io h,
          kf_uptime = (if words = [] then None else parse_float (hd words)),
          kf_command_line = strip (text_or_empty (read_text io (PROC @ [''cmdline'']) 4096 h)),
          kf_cpu_count = io_cpu_count io, kf_page_size = io_page_size io,
          kf_container = detect_container io h, kf_security_modules = security_modules io h\<rparr>)"

section \<open>Resources\<close>

record disk =
  dk_mountpoint :: string
  dk_device :: string
  dk_fstype :: string
  dk_total :: int
  dk_used :: int
  dk_free :: int
  dk_used_percent :: real

record resource_snapshot =
  rs_load :: "(real \<times> real \<times> real) option"
  rs_memory_total :: "int option"
  rs_memory_available :: "int option"
  rs_swap_total :: "int option"
  rs_swap_free :: "int option"
  rs_process_count :: int
  rs_open_files :: "int option"
  rs_file_limit :: "int option"
  rs_disks :: "disk list"

definition memory_used_percent :: "resource_snapshot \<Rightarrow> real option" where
  "memory_used_percent s = (case (rs_memory_total s, rs_memory_available s) of
       (Some all_kb, Some available) \<Rightarrow>
         if all_kb = 0 then None
         else Some (round1 (100 * real_of_int (all_kb - available) / real_of_int all_kb))
     | _ \<Rightarrow> None)"

definition meminfo_line :: "string \<Rightarrow> (string \<times> int) list \<Rightarrow> (string \<times> int) list" where
  "meminfo_line line values =
     (case split_ws (part_after CHR '':'' line) of
        [] \<Rightarrow> values
      | w # ws \<Rightarrow> if numeric w then AList.update (part_before CHR '':'' line) (int (digits_val w)) values else values)"

definition meminfo :: "'h host_io \<Rightarrow> 'h \<Rightarrow> (string \<times> int) list" where
  "meminfo io h = fold meminfo_line (splitlines (text_or_empty (read_text io (PROC @ [''meminfo'']) 16384 h))) []"

definition virtual_filesystems :: "string list" where
  "virtual_filesystems =
     [''proc'', ''sysfs'', ''devtmpfs'', ''devpts'', ''tmpfs'', ''cgroup'', ''cgroup2'', ''securityfs'', ''pstore'',
      ''bpf'', ''debugfs'', ''tracefs'', ''mqueue'', ''hugetlbfs'', ''configfs'', ''fusectl'', ''binfmt_misc'',
      ''overlay'', ''squashfs'']"

definition disk_of :: "string \<Rightarrow> string \<Rightarrow> string \<Rightarrow> int \<times> int \<times> int \<Rightarrow> disk" where
  "disk_of device mountpoint fstype usage =
     (let (size_bytes, used, free) = usage in
      \<lparr>dk_mountpoint = mountpoint, dk_device = device, dk_fstype = fstype, dk_total = size_bytes, dk_used = used,
       dk_free = free,
       dk_used_percent = (if size_bytes \<noteq> 0 then round1 (100 * real_of_int used / real_of_int size_bytes) else 0)\<rparr>)"

fun collect_disks :: "'h host_io \<Rightarrow> 'h \<Rightarrow> string list \<Rightarrow> string list \<Rightarrow> disk list" where
  "collect_disks io h seen [] = []"
| "collect_disks io h seen (line # lines) =
     (case split_ws line of
        device # mountpoint # fstype # rest \<Rightarrow>
          if fstype \<in> set virtual_filesystems \<or> mountpoint \<in> set seen then collect_disks io h seen lines
          else (case io_disk io mountpoint h of
                  None \<Rightarrow> collect_disks io h (mountpoint # seen) lines
                | Some usage \<Rightarrow>
                    disk_of device mountpoint fstype usage # collect_disks io h (mountpoint # seen) lines)
      | _ \<Rightarrow> collect_disks io h seen lines)"

definition disk_usage :: "'h host_io \<Rightarrow> 'h \<Rightarrow> disk list" where
  "disk_usage io h = take 40 (collect_disks io h [] (splitlines (text_or_empty (read_text io (PROC @ [''mounts'']) 65536 h))))"

definition process_ids :: "'h host_io \<Rightarrow> 'h \<Rightarrow> string list" where
  "process_ids io h = (case io_names io PROC h of None \<Rightarrow> [] | Some names \<Rightarrow> filter numeric names)"

definition resource_snapshot_of :: "'h host_io \<Rightarrow> 'h \<Rightarrow> resource_snapshot" where
  "resource_snapshot_of io h =
     (let memory = meminfo io h;
          fds = split_ws (text_or_empty (read_text io (PROC @ [''sys'', ''fs'', ''file-nr'']) 128 h))
      in \<lparr>rs_load = io_load io h,
          rs_memory_total = map_of memory ''MemTotal'', rs_memory_available = map_of memory ''MemAvailable'',
          rs_swap_total = map_of memory ''SwapTotal'', rs_swap_free = map_of memory ''SwapFree'',
          rs_process_count = int (length (process_ids io h)),
          rs_open_files = (if fds \<noteq> [] \<and> numeric (hd fds) then Some (int (digits_val (hd fds))) else None),
          rs_file_limit = read_int io (PROC @ [''sys'', ''fs'', ''file-max'']) h,
          rs_disks = disk_usage io h\<rparr>)"

section \<open>Processes and modules\<close>

record process =
  ps_pid :: int
  ps_name :: string
  ps_state :: string
  ps_ppid :: int
  ps_threads :: int
  ps_rss_kb :: int
  ps_uid :: string
  ps_cmdline :: string

definition status_fields :: "string \<Rightarrow> (string \<times> string) list" where
  "status_fields status =
     fold (\<lambda>line fs. AList.update (part_before CHR '':'' line) (strip (part_after CHR '':'' line)) fs)
       (splitlines status) []"

definition dict_get :: "(string \<times> string) list \<Rightarrow> string \<Rightarrow> string" where
  "dict_get fs k = text_or_empty (map_of fs k)"

text \<open>\<open>int(fields.get(k, 0) or 0)\<close>: \<open>None\<close> is the \<open>ValueError\<close>.\<close>

definition int_field :: "(string \<times> string) list \<Rightarrow> string \<Rightarrow> int option" where
  "int_field fs k = (if dict_get fs k = [] then Some 0 else parse_int (dict_get fs k))"

definition null_to_space :: "char \<Rightarrow> char" where
  "null_to_space c = (if c = CHR 0x00 then CHR '' '' else c)"

text \<open>The row of one process: absent when it has exited, \<open>None\<close> when a field is no number.\<close>

definition process_row :: "'h host_io \<Rightarrow> 'h \<Rightarrow> string \<Rightarrow> process list option" where
  "process_row io h pid =
     (case read_text io (PROC @ [pid, ''status'']) 8192 h of
        None \<Rightarrow> Some []
      | Some status \<Rightarrow>
          (let fs = status_fields status;
               statm = split_ws (text_or_empty (read_text io (PROC @ [pid, ''statm'']) 256 h));
               page_kb = io_page_size io div 1024;
               rss = (if length statm > 1 \<and> numeric (statm ! 1) then int (digits_val (statm ! 1)) * page_kb else 0);
               cmdline = strip (map null_to_space (text_or_empty (read_text io (PROC @ [pid, ''cmdline'']) 4096 h)));
               uid = split_ws (dict_get fs ''Uid'')
           in case (int_field fs ''PPid'', int_field fs ''Threads'') of
                (Some ppid, Some threads) \<Rightarrow>
                  Some [\<lparr>ps_pid = int (digits_val pid), ps_name = dict_get fs ''Name'', ps_state = dict_get fs ''State'',
                         ps_ppid = ppid, ps_threads = threads, ps_rss_kb = rss,
                         ps_uid = (if uid = [] then [] else hd uid),
                         ps_cmdline = (if take 400 cmdline = [] then ''['' @ dict_get fs ''Name'' @ '']'' else take 400 cmdline)\<rparr>]
              | _ \<Rightarrow> None))"

fun process_rows :: "'h host_io \<Rightarrow> 'h \<Rightarrow> string list \<Rightarrow> process list option" where
  "process_rows io h [] = Some []"
| "process_rows io h (pid # pids) =
     (case process_row io h pid of
        None \<Rightarrow> None
      | Some row \<Rightarrow> map_option ((@) row) (process_rows io h pids))"

definition list_processes :: "'h host_io \<Rightarrow> int \<Rightarrow> string \<Rightarrow> 'h \<Rightarrow> process list option" where
  "list_processes io limit sort_by h =
     map_option
       (\<lambda>rows. take (nat (max 1 limit))
          (sort_key (\<lambda>p. if sort_by = ''pid'' then ps_pid p else - ps_rss_kb p) rows))
       (process_rows io h (process_ids io h))"

record kernel_module =
  km_name :: string
  km_size :: int
  km_uses :: int
  km_used_by :: "string list"

definition rstrip_char :: "char \<Rightarrow> string \<Rightarrow> string" where
  "rstrip_char c s = rev (dropWhile (\<lambda>x. x = c) (rev s))"

definition count_text :: "string \<Rightarrow> int" where
  "count_text t = (if numeric t then int (digits_val t) else 0)"

definition module_row :: "string \<Rightarrow> kernel_module list" where
  "module_row line =
     (case split_ws line of
        modname # bytes # use_count # users # rest \<Rightarrow>
          (let used_by = rstrip_char CHR '','' users in
           [\<lparr>km_name = modname, km_size = count_text bytes, km_uses = count_text use_count,
             km_used_by = (if used_by = ''-'' then [] else split_on CHR '','' used_by)\<rparr>])
      | _ \<Rightarrow> [])"

definition loaded_modules :: "'h host_io \<Rightarrow> nat \<Rightarrow> 'h \<Rightarrow> kernel_module list" where
  "loaded_modules io limit h =
     concat (map module_row (take limit (splitlines (text_or_empty (read_text io (PROC @ [''modules'']) 262144 h)))))"

section \<open>Kernel parameters\<close>

definition sysctl_key_char :: "char \<Rightarrow> bool" where
  "sysctl_key_char c =
     ((CHR ''a'' \<le> c \<and> c \<le> CHR ''z'') \<or> (CHR ''A'' \<le> c \<and> c \<le> CHR ''Z'') \<or> is_digit c \<or>
      c \<in> {CHR ''_'', CHR ''.'', CHR ''-''})"

definition sysctl_path :: "string \<Rightarrow> path option" where
  "sysctl_path key =
     (if \<not> full_match sysctl_key_char key \<or> contains ''..'' key then None
      else Some (PROC @ [''sys''] @ filter (\<lambda>part. part \<noteq> []) (split_on CHR ''.'' key)))"

definition read_sysctl :: "'h host_io \<Rightarrow> string \<Rightarrow> 'h \<Rightarrow> string option" where
  "read_sysctl io key h =
     (case sysctl_path key of
        None \<Rightarrow> None
      | Some p \<Rightarrow> (let t = strip (text_or_empty (read_text io p 8192 h)) in if t = [] then None else Some t))"

fun sysctl_values :: "'h host_io \<Rightarrow> nat \<Rightarrow> 'h \<Rightarrow> path list \<Rightarrow> (string \<times> string) list \<Rightarrow> (string \<times> string) list" where
  "sysctl_values io limit h [] values = values"
| "sysctl_values io limit h (p # ps) values =
     (if \<not> io_is_file io p h \<or> length values \<ge> limit then sysctl_values io limit h ps values
      else case read_text io p 4096 h of
        None \<Rightarrow> sysctl_values io limit h ps values
      | Some content \<Rightarrow>
          sysctl_values io limit h ps (AList.update (join ''.'' (drop 2 p)) (strip content) values))"

definition read_sysctl_group :: "'h host_io \<Rightarrow> string \<Rightarrow> nat \<Rightarrow> 'h \<Rightarrow> (string \<times> string) list" where
  "read_sysctl_group io prefix limit h =
     (case sysctl_path prefix of
        None \<Rightarrow> []
      | Some start \<Rightarrow>
          if \<not> io_exists io start h then []
          else if io_is_file io start h
          then (case read_sysctl io prefix h of None \<Rightarrow> [] | Some value \<Rightarrow> [(prefix, value)])
          else sysctl_values io limit h (io_below io start h) [])"

section \<open>Namespaces, cgroups and the kernel log\<close>

definition list_namespaces :: "'h host_io \<Rightarrow> int \<Rightarrow> 'h \<Rightarrow> (string \<times> string) list" where
  "list_namespaces io pid h =
     (let ns = PROC @ [show_int pid, ''ns''] in
      case io_names io ns h of
        None \<Rightarrow> []
      | Some names \<Rightarrow>
          concat (map (\<lambda>n. case io_link io (ns @ [n]) h of None \<Rightarrow> [] | Some t \<Rightarrow> [(n, t)]) (sort names)))"

definition cgroup_limit :: "'h host_io \<Rightarrow> 'h \<Rightarrow> string \<times> string \<Rightarrow> json_dict" where
  "cgroup_limit io h field =
     (let (label, filename) = field;
          value = strip (text_or_empty (read_text io (SYS @ [''fs'', ''cgroup'', filename]) 128 h))
      in if value = [] then [] else [(label, JStr value)])"

definition cgroup_summary :: "'h host_io \<Rightarrow> 'h \<Rightarrow> json_dict" where
  "cgroup_summary io h =
     (let controllers = split_ws (text_or_empty (read_text io (SYS @ [''fs'', ''cgroup'', ''cgroup.controllers'']) 1024 h));
          own = strip (text_or_empty (read_text io (PROC @ [''self'', ''cgroup'']) 4096 h))
      in (if controllers = [] then [] else [(''controllers'', JList (map JStr controllers))]) @
         concat (map (cgroup_limit io h)
           [(''memory_max'', ''memory.max''), (''memory_current'', ''memory.current''), (''cpu_max'', ''cpu.max''),
            (''pids_max'', ''pids.max'')]) @
         (if own = [] then [] else [(''self_cgroup'', JStr own)]))"

definition last_lines :: "nat \<Rightarrow> string list \<Rightarrow> string list" where
  "last_lines n xs = (if n = 0 then xs else drop (length xs - n) xs)"

definition read_kernel_log :: "'h host_io \<Rightarrow> nat \<Rightarrow> 'h \<Rightarrow> bool \<times> string" where
  "read_kernel_log io lines h =
     (let chunks = (case io_kmsg io h of None \<Rightarrow> [] | Some cs \<Rightarrow> cs);
          collected = map strip (take lines (takeWhile (\<lambda>c. c \<noteq> []) chunks))
      in if collected \<noteq> [] then (True, join [CHR 0x0A] (last_lines lines collected))
         else case io_dmesg io h of
           Dmesg_missing \<Rightarrow> (False, ''kernel log unavailable: /dev/kmsg not readable and dmesg not installed'')
         | Dmesg_error exc \<Rightarrow> (False, ''kernel log unavailable: '' @ exc)
         | Dmesg_exit code output \<Rightarrow>
             if code \<noteq> 0
             then (False, ''kernel log unavailable: dmesg was denied '' @
                     ''(kernel.dmesg_restrict is likely set, or this is an unprivileged container)'')
             else (True, join [CHR 0x0A] (last_lines lines (splitlines output))))"

section \<open>Listening sockets\<close>

record listening_socket =
  sk_family :: string
  sk_port :: int
  sk_address :: string
  sk_inode :: string

definition socket_of_line :: "nat \<Rightarrow> string \<Rightarrow> listening_socket option" where
  "socket_of_line family line =
     (let parts = split_ws line in
      if length parts < 4 \<or> parts ! 3 \<noteq> ''0A'' then None
      else case parse_hex (part_after CHR '':'' (parts ! 1)) of
        None \<Rightarrow> None
      | Some port \<Rightarrow>
          Some \<lparr>sk_family = ''ipv'' @ show_nat family, sk_port = port, sk_address = part_before CHR '':'' (parts ! 1),
                sk_inode = (if length parts > 9 then parts ! 9 else [])\<rparr>)"

fun collect_sockets :: "int \<Rightarrow> (nat \<times> string) list \<Rightarrow> listening_socket list \<Rightarrow> listening_socket list" where
  "collect_sockets limit [] found = found"
| "collect_sockets limit ((family, line) # lines) found =
     (case socket_of_line family line of
        None \<Rightarrow> collect_sockets limit lines found
      | Some sk \<Rightarrow>
          if int (length found) + 1 \<ge> limit then found @ [sk] else collect_sockets limit lines (found @ [sk]))"

definition socket_lines :: "'h host_io \<Rightarrow> 'h \<Rightarrow> string \<Rightarrow> nat \<Rightarrow> (nat \<times> string) list" where
  "socket_lines io h name family =
     map (Pair family) (drop 1 (splitlines (text_or_empty (read_text io (PROC @ [''net'', name]) 262144 h))))"

definition listening_sockets :: "'h host_io \<Rightarrow> int \<Rightarrow> 'h \<Rightarrow> listening_socket list" where
  "listening_sockets io limit h =
     collect_sockets limit (socket_lines io h ''tcp'' 4 @ socket_lines io h ''tcp6'' 6) []"

section \<open>Paths stay under /proc/sys\<close>

lemma split_on_parts: "w \<in> set (split_on c s) \<Longrightarrow> c \<notin> set w \<and> set w \<subseteq> set s"
proof (induction s arbitrary: w)
  case (Cons x s)
  show ?case
  proof (cases "split_on c s")
    case (Cons v vs)
    then have "c \<notin> set v \<and> set v \<subseteq> set s" using Cons.IH by simp
    then show ?thesis using Cons Cons.prems Cons.IH [of w] by (auto split: if_splits)
  qed (use Cons in \<open>auto split: if_splits\<close>)
qed simp

lemma full_match_chars: "full_match cls s \<Longrightarrow> x \<in> set s \<Longrightarrow> cls x \<or> x = CHR 0x0A"
  by (cases s rule: rev_cases) (auto simp: full_match_def before_newline_def list_all_iff split: if_splits)

text \<open>A sysctl key never leads out of \<open>/proc/sys\<close>: the path of an accepted key starts there, and
  every further part is a plain name, not empty, not a dot entry, and without a slash.\<close>

theorem sysctl_path_contained:
  assumes "sysctl_path key = Some p"
  shows "\<exists>parts. p = [''proc'', ''sys''] @ parts \<and>
    (\<forall>part\<in>set parts. part \<noteq> [] \<and> part \<noteq> ''.'' \<and> part \<noteq> ''..'' \<and> CHR ''/'' \<notin> set part)"
proof -
  let ?parts = "filter (\<lambda>part. part \<noteq> []) (split_on CHR ''.'' key)"
  from assms have key: "full_match sysctl_key_char key" and p: "p = [''proc'', ''sys''] @ ?parts"
    by (auto simp: sysctl_path_def PROC_def split: if_splits)
  have "CHR ''/'' \<notin> set part \<and> CHR ''.'' \<notin> set part" if "part \<in> set ?parts" for part
    using that split_on_parts [of part "CHR ''.''" key] full_match_chars [OF key, of "CHR ''/''"]
    by (auto simp: sysctl_key_char_def is_digit_code)
  then have "part \<noteq> [] \<and> part \<noteq> ''.'' \<and> part \<noteq> ''..'' \<and> CHR ''/'' \<notin> set part" if "part \<in> set ?parts" for part
    using that by fastforce
  then show ?thesis using p by blast
qed

theorem sysctl_path_contained_witness:
  "sysctl_path ''vm.swappiness'' = Some [''proc'', ''sys'', ''vm'', ''swappiness''] \<and>
   (\<exists>parts. [''proc'', ''sys'', ''vm'', ''swappiness''] = [''proc'', ''sys''] @ parts \<and>
     (\<forall>part\<in>set parts. part \<noteq> [] \<and> part \<noteq> ''.'' \<and> part \<noteq> ''..'' \<and> CHR ''/'' \<notin> set part)) \<and>
   sysctl_path ''../../etc/passwd'' = None"
proof -
  have "sysctl_path ''vm.swappiness'' = Some [''proc'', ''sys'', ''vm'', ''swappiness'']" by code_simp
  moreover have "sysctl_path ''../../etc/passwd'' = None" by code_simp
  ultimately show ?thesis using sysctl_path_contained by blast
qed

end
