(* ===== verification/Host_Ops.thy ===== *)
theory Host_Ops
  imports Privileges Probe Helper
begin

text \<open>
  \<open>system/ops.py\<close>: the host mutations, each behind the privilege envelope.  What the kernel,
  \<open>systemctl\<close> and the daemon's socket do is a function of the host (\<open>'h host\<close>); everything
  decided before they are called, and what is made of their answers, is the code's.
\<close>

section \<open>The host\<close>

datatype write_run = Written | Write_denied | Write_error string

datatype kill_run = Signalled | No_process | Kill_denied

datatype systemctl_run = Systemctl_missing | Systemctl_timeout | Systemctl_exit int string

record 'h host =
  ho_io :: "'h host_io"
  ho_write :: "path \<Rightarrow> string \<Rightarrow> 'h \<Rightarrow> write_run \<times> 'h"
  ho_kill :: "int \<Rightarrow> int \<Rightarrow> 'h \<Rightarrow> kill_run \<times> 'h"
  ho_systemctl :: "string \<Rightarrow> string \<Rightarrow> 'h \<Rightarrow> systemctl_run \<times> 'h"   \<comment> \<open>action, unit\<close>
  ho_socket :: "string \<Rightarrow> string \<Rightarrow> 'h \<Rightarrow> helper_reply \<times> 'h"
  ho_own_pid :: int

record op_result =
  op_ok :: bool
  op_summary :: string
  op_detail :: json_dict

text \<open>
  The exceptions that leave an operation: a refusal, an unreachable daemon, and the
  \<open>FileNotFoundError\<close> of starting a \<open>systemctl\<close> that is not installed.
\<close>

datatype op_error = Unsafe unsafe_operation | Helper_down string | No_systemctl

type_synonym op_run = "op_error + op_result"

definition refusal :: "string \<Rightarrow> string \<Rightarrow> unsafe_operation" where
  "refusal operation reason = \<lparr>un_operation = operation, un_reason = reason, un_alternative = []\<rparr>"

section \<open>Kernel parameters\<close>

definition helper_sysctl_set :: "'h host \<Rightarrow> system_policy \<Rightarrow> string \<Rightarrow> string \<Rightarrow> 'h \<Rightarrow> op_run \<times> 'h" where
  "helper_sysctl_set ho p key value h =
     (case helper_call (ho_socket ho) (sp_socket p) ''SYSCTL_SET'' [key, value] h of
        (Inl e, h1) \<Rightarrow> (Inl (Helper_down e), h1)
      | (Inr (ok, payload), h1) \<Rightarrow>
          (Inr (if ok then \<lparr>op_ok = True, op_summary = key @ '': '' @ payload,
                            op_detail = [(''key'', JStr key), (''detail'', JStr payload)]\<rparr>
                else \<lparr>op_ok = False, op_summary = payload, op_detail = [(''key'', JStr key)]\<rparr>), h1))"

definition opt_text :: "string option \<Rightarrow> string" where
  "opt_text x = (case x of None \<Rightarrow> ''None'' | Some t \<Rightarrow> t)"

definition write_parameter :: "'h host \<Rightarrow> string \<Rightarrow> string \<Rightarrow> 'h \<Rightarrow> op_run \<times> 'h" where
  "write_parameter ho key value h =
     (let previous = read_sysctl (ho_io ho) key h in
      case sysctl_path key of
        None \<Rightarrow> (Inl (Unsafe (refusal (''sysctl write '' @ key) (''invalid sysctl key '' @ py_repr key))), h)
      | Some p \<Rightarrow>
          if \<not> io_exists (ho_io ho) p h
          then (Inr \<lparr>op_ok = False, op_summary = ''sysctl '' @ key @ '' does not exist on this kernel'', op_detail = []\<rparr>, h)
          else (case ho_write ho p value h of
             (Write_denied, h1) \<Rightarrow>
               (Inr \<lparr>op_ok = False,
                     op_summary = ''permission denied writing '' @ key @ ''; the process lacks CAP_SYS_ADMIN '' @
                       ''or the parameter is read-only in this namespace'',
                     op_detail = [(''key'', JStr key), (''previous'', opt_str previous)]\<rparr>, h1)
           | (Write_error exc, h1) \<Rightarrow>
               (Inr \<lparr>op_ok = False, op_summary = ''failed to write '' @ key @ '': '' @ exc,
                     op_detail = [(''key'', JStr key)]\<rparr>, h1)
           | (Written, h1) \<Rightarrow>
               (let current = read_sysctl (ho_io ho) key h1
                in (Inr \<lparr>op_ok = True, op_summary = key @ '': '' @ opt_text previous @ '' -> '' @ opt_text current,
                         op_detail = [(''key'', JStr key), (''previous'', opt_str previous),
                                      (''current'', opt_str current)]\<rparr>, h1))))"

definition write_sysctl :: "'h host \<Rightarrow> system_policy \<Rightarrow> string \<Rightarrow> string \<Rightarrow> 'h \<Rightarrow> op_run \<times> 'h" where
  "write_sysctl ho p key value h =
     (let operation = ''sysctl write '' @ key in
      case check_enabled p operation of Some u \<Rightarrow> (Inl (Unsafe u), h) | None \<Rightarrow>
      (case require_mutations_allowed p operation of Some u \<Rightarrow> (Inl (Unsafe u), h) | None \<Rightarrow>
      (case classify_sysctl_write p key of (class, reason) \<Rightarrow>
         if class = REFUSED then (Inl (Unsafe (refusal operation reason)), h)
         else if sp_backend p = ''helper'' then helper_sysctl_set ho p key value h
         else write_parameter ho key value h)))"

section \<open>Signals\<close>

definition helper_signal :: "'h host \<Rightarrow> system_policy \<Rightarrow> int \<Rightarrow> int \<Rightarrow> 'h \<Rightarrow> op_run \<times> 'h" where
  "helper_signal ho p pid sig h =
     (case helper_call (ho_socket ho) (sp_socket p) ''SIGNAL'' [show_int pid, show_int sig] h of
        (Inl e, h1) \<Rightarrow> (Inl (Helper_down e), h1)
      | (Inr (ok, payload), h1) \<Rightarrow>
          (Inr \<lparr>op_ok = ok, op_summary = payload, op_detail = [(''pid'', JInt pid), (''signal'', JInt sig)]\<rparr>, h1))"

text \<open>\<open>PermissionError\<close> is an \<open>OSError\<close>, so the first handler catches every failure of \<open>os.kill\<close>.\<close>

definition kill_process :: "'h host \<Rightarrow> int \<Rightarrow> int \<Rightarrow> 'h \<Rightarrow> op_run \<times> 'h" where
  "kill_process ho pid sig h =
     (case ho_kill ho pid sig h of
        (Signalled, h1) \<Rightarrow>
          (let name = (case map_of all_signals sig of Some n \<Rightarrow> n | None \<Rightarrow> ''SIG_'' @ show_int sig)
           in (Inr \<lparr>op_ok = True, op_summary = ''sent '' @ name @ '' to pid '' @ show_int pid,
                    op_detail = [(''pid'', JInt pid), (''signal'', JStr name)]\<rparr>, h1))
      | (_, h1) \<Rightarrow>
          (Inr \<lparr>op_ok = False, op_summary = ''no process with pid '' @ show_int pid,
                op_detail = [(''pid'', JInt pid)]\<rparr>, h1))"

definition send_signal :: "'h host \<Rightarrow> system_policy \<Rightarrow> int \<Rightarrow> int \<Rightarrow> 'h \<Rightarrow> op_run \<times> 'h" where
  "send_signal ho p pid sig h =
     (let operation = ''signal pid '' @ show_int pid in
      case check_enabled p operation of Some u \<Rightarrow> (Inl (Unsafe u), h) | None \<Rightarrow>
      (case require_mutations_allowed p operation of Some u \<Rightarrow> (Inl (Unsafe u), h) | None \<Rightarrow>
      (case classify_signal pid sig (ho_own_pid ho) of (class, reason) \<Rightarrow>
         if class = REFUSED then (Inl (Unsafe (refusal operation reason)), h)
         else if sp_backend p = ''helper'' then helper_signal ho p pid sig h
         else kill_process ho pid sig h)))"

section \<open>Services\<close>

definition helper_service :: "'h host \<Rightarrow> system_policy \<Rightarrow> string \<Rightarrow> string \<Rightarrow> 'h \<Rightarrow> op_run \<times> 'h" where
  "helper_service ho p unit action h =
     (case helper_call (ho_socket ho) (sp_socket p) ''SERVICE'' [unit, action] h of
        (Inl e, h1) \<Rightarrow> (Inl (Helper_down e), h1)
      | (Inr (ok, payload), h1) \<Rightarrow>
          (let code = parse_exit_code payload
           in (Inr \<lparr>op_ok = ok,
                    op_summary = (case code of None \<Rightarrow> payload
                      | Some n \<Rightarrow> ''systemctl '' @ action @ '' '' @ unit @ '' -> exit '' @ show_int n),
                    op_detail = [(''unit'', JStr unit), (''action'', JStr action),
                      (''exit_code'', case code of None \<Rightarrow> JNull | Some n \<Rightarrow> JInt n), (''output'', JStr payload)]\<rparr>, h1)))"

definition last_chars :: "nat \<Rightarrow> string \<Rightarrow> string" where
  "last_chars n t = drop (length t - n) t"

definition run_systemctl :: "'h host \<Rightarrow> string \<Rightarrow> string \<Rightarrow> 'h \<Rightarrow> op_run \<times> 'h" where
  "run_systemctl ho unit action h =
     (case ho_systemctl ho action unit h of
        (Systemctl_missing, h1) \<Rightarrow> (Inl No_systemctl, h1)
      | (Systemctl_timeout, h1) \<Rightarrow>
          (Inr \<lparr>op_ok = False, op_summary = ''systemctl '' @ action @ '' '' @ unit @ '' timed out'',
                op_detail = [(''unit'', JStr unit)]\<rparr>, h1)
      | (Systemctl_exit code output, h1) \<Rightarrow>
          (Inr \<lparr>op_ok = (code = 0 \<or> action \<in> {''is-active'', ''is-enabled''}),
                op_summary = ''systemctl '' @ action @ '' '' @ unit @ '' -> exit '' @ show_int code,
                op_detail = [(''unit'', JStr unit), (''action'', JStr action), (''exit_code'', JInt code),
                             (''output'', JStr (last_chars 16000 output))]\<rparr>, h1))"

definition manage_service :: "'h host \<Rightarrow> system_policy \<Rightarrow> string \<Rightarrow> string \<Rightarrow> 'h \<Rightarrow> op_run \<times> 'h" where
  "manage_service ho p unit action h =
     (let operation = ''service '' @ action @ '' '' @ unit in
      case check_enabled p operation of Some u \<Rightarrow> (Inl (Unsafe u), h) | None \<Rightarrow>
      (case classify_service unit action of (class, reason) \<Rightarrow>
         if class = REFUSED then (Inl (Unsafe (refusal operation reason)), h)
         else case (if class = MUTATE then require_mutations_allowed p operation else None) of
           Some u \<Rightarrow> (Inl (Unsafe u), h)
         | None \<Rightarrow>
             if sp_backend p = ''helper'' then helper_service ho p unit action h
             else run_systemctl ho unit action h))"

section \<open>Kernel modules\<close>

definition load_kernel_module :: "'h \<Rightarrow> op_run \<times> 'h" where
  "load_kernel_module h = (Inl (Unsafe (refuse_module_operation ''kernel module load'')), h)"

definition unload_kernel_module :: "'h \<Rightarrow> op_run \<times> 'h" where
  "unload_kernel_module h = (Inl (Unsafe (refuse_module_operation ''kernel module unload'')), h)"

section \<open>The envelope\<close>

lemmas op_defs = write_sysctl_def send_signal_def manage_service_def
lemmas policy_defs = check_enabled_def require_mutations_allowed_def

lemma refused_sysctl:
  assumes "fst (classify_sysctl_write p key) = REFUSED"
  shows "\<exists>u. write_sysctl ho p key v h = (Inl (Unsafe u), h)"
proof -
  obtain reason where "classify_sysctl_write p key = (REFUSED, reason)" using assms by (cases "classify_sysctl_write p key") auto
  then show ?thesis by (simp add: write_sysctl_def policy_defs Let_def split: option.splits)
qed

lemma refused_signal:
  assumes "fst (classify_signal pid sig (ho_own_pid ho)) = REFUSED"
  shows "\<exists>u. send_signal ho p pid sig h = (Inl (Unsafe u), h)"
proof -
  obtain reason where "classify_signal pid sig (ho_own_pid ho) = (REFUSED, reason)"
    using assms by (cases "classify_signal pid sig (ho_own_pid ho)") auto
  then show ?thesis by (simp add: send_signal_def policy_defs Let_def split: option.splits)
qed

lemma refused_service:
  assumes "fst (classify_service unit action) = REFUSED"
  shows "\<exists>u. manage_service ho p unit action h = (Inl (Unsafe u), h)"
proof -
  obtain reason where "classify_service unit action = (REFUSED, reason)" using assms by (cases "classify_service unit action") auto
  then show ?thesis by (simp add: manage_service_def policy_defs Let_def split: option.splits)
qed

lemma critical_refused:
  "remove_suffix ''.service'' unit \<in> set critical_services \<Longrightarrow> action \<in> {''stop'', ''disable'', ''restart''} \<Longrightarrow>
   fst (classify_service unit action) = REFUSED"
  by (auto simp: classify_service_def Let_def service_read_actions_def service_mutate_actions_def)

text \<open>A host of files: nothing but the files of \<open>/proc\<close> can be changed on it.\<close>

type_synonym files = "(path \<times> string) list"

definition file_host :: "files host" where
  "file_host =
     \<lparr>ho_io = \<lparr>io_file = (\<lambda>p h. map_of h p), io_exists = (\<lambda>p h. p \<in> fst ` set h),
         io_is_file = (\<lambda>p h. p \<in> fst ` set h), io_names = (\<lambda>p h. None), io_below = (\<lambda>p h. []),
         io_link = (\<lambda>p h. None), io_disk = (\<lambda>m h. None), io_load = (\<lambda>h. None), io_page_size = 4096,
         io_cpu_count = 1, io_uname = ([], [], [], []), io_kmsg = (\<lambda>h. None), io_dmesg = (\<lambda>h. Dmesg_missing)\<rparr>,
      ho_write = (\<lambda>p v h. (Written, AList.update p v h)), ho_kill = (\<lambda>pid sig h. (No_process, h)),
      ho_systemctl = (\<lambda>action unit h. (Systemctl_missing, h)), ho_socket = (\<lambda>socket line h. (No_connection ''no daemon'', h)),
      ho_own_pid = 4242\<rparr>"

definition open_policy :: system_policy where
  "open_policy = default_policy\<lparr>sp_enabled := True, sp_allow_mutations := True\<rparr>"

text \<open>C17.  Some operations are out of reach under every policy, approval and backend, and attempting
  one raises a refusal and leaves the host as it is: a write to a parameter on the refusal list
  (unless the operator allowlisted that very key), a signal to init, to the agent itself or to a
  process group, and stopping, disabling or restarting a service that carries the operator's
  own access.\<close>

theorem refused_operations_inert:
  "(strip key \<in> fst ` set sysctl_refused \<and> key \<notin> set (sp_extra_sysctls p) \<longrightarrow>
      (\<exists>u. write_sysctl ho p key v h = (Inl (Unsafe u), h))) \<and>
   (pid \<in> {0, 1, ho_own_pid ho} \<or> pid < 0 \<longrightarrow> (\<exists>u. send_signal ho p pid sig h = (Inl (Unsafe u), h))) \<and>
   (remove_suffix ''.service'' unit \<in> set critical_services \<and> action \<in> {''stop'', ''disable'', ''restart''} \<longrightarrow>
      (\<exists>u. manage_service ho p unit action h = (Inl (Unsafe u), h)))"
proof (intro conjI impI)
  assume a: "strip key \<in> fst ` set sysctl_refused \<and> key \<notin> set (sp_extra_sysctls p)"
  then have "map_of sysctl_refused (strip key) \<noteq> None" by (simp add: map_of_eq_None_iff)
  then obtain r where "map_of sysctl_refused (strip key) = Some r" by blast
  then have "fst (classify_sysctl_write p key) = REFUSED"
    using a by (cases r) (simp add: classify_sysctl_write_def classify_sysctl_def Let_def)
  then show "\<exists>u. write_sysctl ho p key v h = (Inl (Unsafe u), h)" by (rule refused_sysctl)
next
  assume "pid \<in> {0, 1, ho_own_pid ho} \<or> pid < 0"
  then have "fst (classify_signal pid sig (ho_own_pid ho)) = REFUSED"
    by (auto simp: classify_signal_def protected_pids_def)
  then show "\<exists>u. send_signal ho p pid sig h = (Inl (Unsafe u), h)" by (rule refused_signal)
next
  assume a: "remove_suffix ''.service'' unit \<in> set critical_services \<and> action \<in> {''stop'', ''disable'', ''restart''}"
  show "\<exists>u. manage_service ho p unit action h = (Inl (Unsafe u), h)"
    by (rule refused_service, rule critical_refused) (rule conjunct1 [OF a], rule conjunct2 [OF a])
qed

theorem refused_operations_inert_witness:
  "(\<exists>u. write_sysctl file_host open_policy '' kernel.sysrq'' ''1'' [] = (Inl (Unsafe u), [])) \<and>
   (\<exists>u. send_signal file_host open_policy 1 9 [] = (Inl (Unsafe u), [])) \<and>
   (\<exists>u. manage_service file_host open_policy ''sshd.service'' ''stop'' [] = (Inl (Unsafe u), []))"
proof -
  have "strip '' kernel.sysrq'' \<in> fst ` set sysctl_refused" by code_simp
  moreover have "remove_suffix ''.service'' ''sshd.service'' \<in> set critical_services" by code_simp
  ultimately show ?thesis
    using refused_operations_inert [of "'' kernel.sysrq''" open_policy file_host "''1''" "[]" 1 9 "''sshd.service''" "''stop''"]
    by (simp add: open_policy_def default_policy_def)
qed

text \<open>The operator's switches hold for every operation: with system operations disabled nothing
  reaches the host, and without permission for mutations only the five inspecting service actions
  do.\<close>

theorem switches_hold:
  assumes "\<not> sp_enabled p \<or> \<not> sp_allow_mutations p"
  shows "(\<exists>u. write_sysctl ho p key v h = (Inl (Unsafe u), h)) \<and>
    (\<exists>u. send_signal ho p pid sig h = (Inl (Unsafe u), h)) \<and>
    (sp_enabled p \<and> action \<in> set service_read_actions \<or> (\<exists>u. manage_service ho p unit action h = (Inl (Unsafe u), h)))"
proof (intro conjI)
  show "\<exists>u. write_sysctl ho p key v h = (Inl (Unsafe u), h)" "\<exists>u. send_signal ho p pid sig h = (Inl (Unsafe u), h)"
    using assms by (auto simp: write_sysctl_def send_signal_def policy_defs Let_def)
  show "sp_enabled p \<and> action \<in> set service_read_actions \<or> (\<exists>u. manage_service ho p unit action h = (Inl (Unsafe u), h))"
    using assms by (auto simp: manage_service_def policy_defs classify_service_def Let_def)
qed

theorem switches_hold_witness:
  "(\<exists>u. write_sysctl file_host default_policy ''vm.swappiness'' ''10'' [] = (Inl (Unsafe u), [])) \<and>
   (\<exists>u. send_signal file_host default_policy 4243 15 [] = (Inl (Unsafe u), [])) \<and>
   (\<exists>u. manage_service file_host default_policy ''nginx'' ''status'' [] = (Inl (Unsafe u), []))"
  using switches_hold [of default_policy] by (simp add: default_policy_def)

end
