(* ===== verification/Conditions.thy ===== *)
theory Conditions
  imports Probe
begin

text \<open>
  \<open>remediation/conditions.py\<close>: declarative post-conditions over host state.  A value, observed or
  expected, is a JSON value: Python's \<open>str\<close>, \<open>bool\<close>, \<open>int\<close>, \<open>float\<close> or \<open>None\<close>.  An
  exception of a probe is a value of a sum; asking \<open>systemctl\<close> is a function of the host.
\<close>

datatype probe_kind =
    MEMORY_USED_PERCENT | LOAD_1M | LOAD_5M | PROCESS_COUNT | OPEN_FILE_DESCRIPTORS
  | DISK_USED_PERCENT | DISK_FREE_BYTES | SYSCTL_VALUE | PORT_LISTENING | PROCESS_RUNNING | SERVICE_ACTIVE

fun probe_name :: "probe_kind \<Rightarrow> string" where
  "probe_name MEMORY_USED_PERCENT = ''memory_used_percent''"
| "probe_name LOAD_1M = ''load_1m''"
| "probe_name LOAD_5M = ''load_5m''"
| "probe_name PROCESS_COUNT = ''process_count''"
| "probe_name OPEN_FILE_DESCRIPTORS = ''open_file_descriptors''"
| "probe_name DISK_USED_PERCENT = ''disk_used_percent''"
| "probe_name DISK_FREE_BYTES = ''disk_free_bytes''"
| "probe_name SYSCTL_VALUE = ''sysctl_value''"
| "probe_name PORT_LISTENING = ''port_listening''"
| "probe_name PROCESS_RUNNING = ''process_running''"
| "probe_name SERVICE_ACTIVE = ''service_active''"

datatype operator = LT | LTE | GT | GTE | EQ | NE

fun operator_symbol :: "operator \<Rightarrow> string" where
  "operator_symbol LT = ''<''"
| "operator_symbol LTE = ''<=''"
| "operator_symbol GT = ''>''"
| "operator_symbol GTE = ''>=''"
| "operator_symbol EQ = ''==''"
| "operator_symbol NE = ''!=''"

fun operator_name :: "operator \<Rightarrow> string" where
  "operator_name LT = ''lt''"
| "operator_name LTE = ''lte''"
| "operator_name GT = ''gt''"
| "operator_name GTE = ''gte''"
| "operator_name EQ = ''eq''"
| "operator_name NE = ''ne''"

definition needs_target :: "probe_kind \<Rightarrow> bool" where
  "needs_target k = (k \<in> {DISK_USED_PERCENT, DISK_FREE_BYTES, SYSCTL_VALUE, PORT_LISTENING, PROCESS_RUNNING,
     SERVICE_ACTIVE})"

record condition =
  cd_probe :: probe_kind
  cd_operator :: operator
  cd_value :: json
  cd_target :: string

record condition_result =
  cn_condition :: condition
  cn_met :: bool
  cn_observed :: json
  cn_detail :: string

text \<open>\<open>str(v)\<close> and \<open>repr(v)\<close>; \<open>rep\<close> is the shortest representation of a float.\<close>

definition py_str :: "(real \<Rightarrow> string) \<Rightarrow> json \<Rightarrow> string" where
  "py_str rep v = (case v of JStr t \<Rightarrow> t | JBool b \<Rightarrow> if b then ''True'' else ''False''
     | JInt i \<Rightarrow> show_int i | JReal x \<Rightarrow> rep x | JNull \<Rightarrow> ''None'' | _ \<Rightarrow> dumps rep v)"

definition py_repr_value :: "(real \<Rightarrow> string) \<Rightarrow> json \<Rightarrow> string" where
  "py_repr_value rep v = (case v of JStr t \<Rightarrow> py_repr t | _ \<Rightarrow> py_str rep v)"

definition describe_condition :: "(real \<Rightarrow> string) \<Rightarrow> condition \<Rightarrow> string" where
  "describe_condition rep c =
     (let name = probe_name (cd_probe c);
          subject = (if cd_target c = [] then name else name @ ''('' @ cd_target c @ '')'')
      in subject @ '' '' @ operator_symbol (cd_operator c) @ '' '' @ py_str rep (cd_value c))"

definition describe_result :: "(real \<Rightarrow> string) \<Rightarrow> condition_result \<Rightarrow> string" where
  "describe_result rep r =
     (let verdict = (if cn_met r then ''held'' else ''FAILED'');
          base = describe_condition rep (cn_condition r) @ '' -> '' @ verdict @ '' (observed '' @
            py_repr_value rep (cn_observed r) @ '')''
      in if cn_detail r = [] then base else base @ ''; '' @ cn_detail r)"

section \<open>Observation\<close>

datatype unit_query = No_such_tool | Query_failed string | Unit_state string

record 'h watch =
  wa_io :: "'h host_io"
  wa_unit :: "string \<Rightarrow> 'h \<Rightarrow> unit_query"      \<comment> \<open>what \<open>systemctl is-active\<close> prints\<close>
  wa_value_error :: string                    \<comment> \<open>text of the \<open>ValueError\<close> of a process row\<close>

datatype probe_failure = Unobservable string | Probe_fault string

definition service_is_active :: "'h watch \<Rightarrow> string \<Rightarrow> 'h \<Rightarrow> probe_failure + json" where
  "service_is_active w unit h = (case wa_unit w unit h of
       No_such_tool \<Rightarrow> Inl (Unobservable ''systemctl is not available on this host'')
     | Query_failed exc \<Rightarrow> Inl (Probe_fault exc)
     | Unit_state out \<Rightarrow> Inr (JBool (strip out = ''active'')))"

definition matches_process :: "string \<Rightarrow> process \<Rightarrow> bool" where
  "matches_process needle p = (contains needle (lower (ps_name p)) \<or> contains needle (lower (ps_cmdline p)))"

definition or_unobservable :: "string \<Rightarrow> ('a \<Rightarrow> json) \<Rightarrow> 'a option \<Rightarrow> probe_failure + json" where
  "or_unobservable reason f x = (case x of None \<Rightarrow> Inl (Unobservable reason) | Some v \<Rightarrow> Inr (f v))"

definition observe_disk :: "resource_snapshot \<Rightarrow> probe_kind \<Rightarrow> string \<Rightarrow> probe_failure + json" where
  "observe_disk snap k target =
     or_unobservable (''no mounted filesystem at '' @ target)
       (\<lambda>d. if k = DISK_USED_PERCENT then JReal (dk_used_percent d) else JInt (dk_free d))
       (find (\<lambda>d. dk_mountpoint d = target) (rs_disks snap))"

definition observe_resource :: "resource_snapshot \<Rightarrow> probe_kind \<Rightarrow> string \<Rightarrow> probe_failure + json" where
  "observe_resource snap k target = (case k of
       MEMORY_USED_PERCENT \<Rightarrow> or_unobservable ''memory usage is not readable'' JReal (memory_used_percent snap)
     | LOAD_1M \<Rightarrow> or_unobservable ''load average is not readable'' (\<lambda>(a, b, c). JReal a) (rs_load snap)
     | LOAD_5M \<Rightarrow> or_unobservable ''load average is not readable'' (\<lambda>(a, b, c). JReal b) (rs_load snap)
     | PROCESS_COUNT \<Rightarrow> Inr (JInt (rs_process_count snap))
     | OPEN_FILE_DESCRIPTORS \<Rightarrow> or_unobservable ''file descriptor count is not readable'' JInt (rs_open_files snap)
     | _ \<Rightarrow> observe_disk snap k target)"

definition observe :: "'h watch \<Rightarrow> condition \<Rightarrow> 'h \<Rightarrow> probe_failure + json" where
  "observe w c h =
     (let k = cd_probe c; target = cd_target c; io = wa_io w in
      if needs_target k \<and> target = [] then Inl (Unobservable (probe_name k @ '' requires a target''))
      else case k of
        SYSCTL_VALUE \<Rightarrow>
          or_unobservable (''sysctl '' @ target @ '' is not readable'') JStr (read_sysctl io target h)
      | PORT_LISTENING \<Rightarrow>
          if \<not> numeric target then Inl (Unobservable (py_repr target @ '' is not a port number''))
          else Inr (JBool (list_ex (\<lambda>sk. sk_port sk = int (digits_val target)) (listening_sockets io 500 h)))
      | PROCESS_RUNNING \<Rightarrow>
          (case list_processes io 200 ''pid'' h of
             None \<Rightarrow> Inl (Probe_fault (wa_value_error w))
           | Some rows \<Rightarrow> Inr (JBool (list_ex (matches_process (lower target)) rows)))
      | SERVICE_ACTIVE \<Rightarrow> service_is_active w target h
      | _ \<Rightarrow> observe_resource (resource_snapshot_of io h) k target)"

section \<open>Comparison\<close>

fun number_less :: "number \<Rightarrow> number \<Rightarrow> bool" where
  "number_less (Finite x) (Finite y) = (x < y)"
| "number_less (Finite x) (Infinite neg) = (\<not> neg)"
| "number_less (Infinite neg) (Finite y) = neg"
| "number_less (Infinite a) (Infinite b) = (a \<and> \<not> b)"
| "number_less _ _ = False"

fun number_equal :: "number \<Rightarrow> number \<Rightarrow> bool" where
  "number_equal (Finite x) (Finite y) = (x = y)"
| "number_equal (Infinite a) (Infinite b) = (a = b)"
| "number_equal _ _ = False"

definition as_number :: "json \<Rightarrow> number option" where
  "as_number v = (case v of
       JBool b \<Rightarrow> None
     | JInt i \<Rightarrow> Some (Finite (real_of_int i))
     | JReal x \<Rightarrow> Some (Finite x)
     | JStr t \<Rightarrow> parse_float (strip t)
     | _ \<Rightarrow> None)"

definition as_bool :: "(real \<Rightarrow> string) \<Rightarrow> json \<Rightarrow> bool" where
  "as_bool rep v = (case v of JBool b \<Rightarrow> b
     | _ \<Rightarrow> lower (strip (py_str rep v)) \<in> {''1'', ''true'', ''yes'', ''active'', ''on''})"

definition is_bool :: "json \<Rightarrow> bool" where
  "is_bool v = (case v of JBool _ \<Rightarrow> True | _ \<Rightarrow> False)"

definition loosely_equal :: "(real \<Rightarrow> string) \<Rightarrow> json \<Rightarrow> json \<Rightarrow> bool" where
  "loosely_equal rep observed expected =
     (if is_bool observed \<or> is_bool expected then as_bool rep observed = as_bool rep expected
      else case (as_number observed, as_number expected) of
        (Some l, Some r) \<Rightarrow> number_equal l r
      | _ \<Rightarrow> strip (py_str rep observed) = strip (py_str rep expected))"

definition ordered :: "operator \<Rightarrow> number \<Rightarrow> number \<Rightarrow> bool" where
  "ordered oper l r = (case oper of LT \<Rightarrow> number_less l r | LTE \<Rightarrow> number_less l r \<or> number_equal l r
     | GT \<Rightarrow> number_less r l | GTE \<Rightarrow> number_less r l \<or> number_equal l r | _ \<Rightarrow> False)"

text \<open>\<open>Inl\<close> is the \<open>_Unobservable\<close> of two values without an order.\<close>

definition compare_values :: "(real \<Rightarrow> string) \<Rightarrow> json \<Rightarrow> operator \<Rightarrow> json \<Rightarrow> string + bool" where
  "compare_values rep observed oper expected =
     (if oper = EQ then Inr (loosely_equal rep observed expected)
      else if oper = NE then Inr (\<not> loosely_equal rep observed expected)
      else case (as_number observed, as_number expected) of
        (Some l, Some r) \<Rightarrow> Inr (ordered oper l r)
      | _ \<Rightarrow> Inl (''cannot order-compare '' @ py_repr_value rep observed @ '' against '' @
               py_repr_value rep expected @ ''; use eq/ne instead''))"

section \<open>Evaluation\<close>

definition evaluate_one :: "(real \<Rightarrow> string) \<Rightarrow> 'h watch \<Rightarrow> 'h \<Rightarrow> condition \<Rightarrow> condition_result" where
  "evaluate_one rep w h c =
     (case observe w c h of
        Inl (Unobservable reason) \<Rightarrow>
          \<lparr>cn_condition = c, cn_met = False, cn_observed = JNull, cn_detail = reason\<rparr>
      | Inl (Probe_fault exc) \<Rightarrow>
          \<lparr>cn_condition = c, cn_met = False, cn_observed = JNull, cn_detail = ''probe error: '' @ exc\<rparr>
      | Inr v \<Rightarrow>
          (case compare_values rep v (cd_operator c) (cd_value c) of
             Inl reason \<Rightarrow> \<lparr>cn_condition = c, cn_met = False, cn_observed = v, cn_detail = reason\<rparr>
           | Inr met \<Rightarrow> \<lparr>cn_condition = c, cn_met = met, cn_observed = v, cn_detail = []\<rparr>))"

definition evaluate_conditions :: "(real \<Rightarrow> string) \<Rightarrow> 'h watch \<Rightarrow> 'h \<Rightarrow> condition list \<Rightarrow> condition_result list" where
  "evaluate_conditions rep w h cs = map (evaluate_one rep w h) cs"

definition all_met :: "condition_result list \<Rightarrow> bool" where
  "all_met rs = list_all cn_met rs"

section \<open>What a verdict means\<close>

lemma evaluate_one_condition [simp]: "cn_condition (evaluate_one rep w h c) = c"
  by (simp add: evaluate_one_def split: sum.splits probe_failure.splits)

lemma evaluate_one_met:
  "cn_met (evaluate_one rep w h c) \<longleftrightarrow>
   (\<exists>v. observe w c h = Inr v \<and> compare_values rep v (cd_operator c) (cd_value c) = Inr True)"
  by (auto simp: evaluate_one_def split: sum.splits probe_failure.splits)

text \<open>
  What a probe is meant to show, as a relation: \<open>reads w h k target v\<close> holds of the value \<open>v\<close> that
  the host shows for it.  A probe that can show nothing is related to nothing.
\<close>

inductive reads :: "'h watch \<Rightarrow> 'h \<Rightarrow> probe_kind \<Rightarrow> string \<Rightarrow> json \<Rightarrow> bool" for w :: "'h watch" and h :: 'h where
  reads_memory: "memory_used_percent (resource_snapshot_of (wa_io w) h) = Some x \<Longrightarrow>
    reads w h MEMORY_USED_PERCENT target (JReal x)"
| reads_load_1m: "rs_load (resource_snapshot_of (wa_io w) h) = Some (a, b, c) \<Longrightarrow> reads w h LOAD_1M target (JReal a)"
| reads_load_5m: "rs_load (resource_snapshot_of (wa_io w) h) = Some (a, b, c) \<Longrightarrow> reads w h LOAD_5M target (JReal b)"
| reads_processes: "reads w h PROCESS_COUNT target (JInt (rs_process_count (resource_snapshot_of (wa_io w) h)))"
| reads_files: "rs_open_files (resource_snapshot_of (wa_io w) h) = Some n \<Longrightarrow> reads w h OPEN_FILE_DESCRIPTORS target (JInt n)"
| reads_disk_used: "rs_disks (resource_snapshot_of (wa_io w) h) = before @ d # after \<Longrightarrow> target \<noteq> [] \<Longrightarrow>
    dk_mountpoint d = target \<Longrightarrow> \<forall>x\<in>set before. dk_mountpoint x \<noteq> target \<Longrightarrow>
    reads w h DISK_USED_PERCENT target (JReal (dk_used_percent d))"
| reads_disk_free: "rs_disks (resource_snapshot_of (wa_io w) h) = before @ d # after \<Longrightarrow> target \<noteq> [] \<Longrightarrow>
    dk_mountpoint d = target \<Longrightarrow> \<forall>x\<in>set before. dk_mountpoint x \<noteq> target \<Longrightarrow>
    reads w h DISK_FREE_BYTES target (JInt (dk_free d))"
| reads_sysctl: "target \<noteq> [] \<Longrightarrow> read_sysctl (wa_io w) target h = Some t \<Longrightarrow> reads w h SYSCTL_VALUE target (JStr t)"
| reads_port: "target \<noteq> [] \<Longrightarrow> numeric target \<Longrightarrow>
    open_now = (\<exists>sk\<in>set (listening_sockets (wa_io w) 500 h). sk_port sk = int (digits_val target)) \<Longrightarrow>
    reads w h PORT_LISTENING target (JBool open_now)"
| reads_running: "target \<noteq> [] \<Longrightarrow> list_processes (wa_io w) 200 ''pid'' h = Some rows \<Longrightarrow>
    running = (\<exists>p\<in>set rows. contains (lower target) (lower (ps_name p)) \<or> contains (lower target) (lower (ps_cmdline p))) \<Longrightarrow>
    reads w h PROCESS_RUNNING target (JBool running)"
| reads_service: "target \<noteq> [] \<Longrightarrow> wa_unit w target h = Unit_state out \<Longrightarrow>
    reads w h SERVICE_ACTIVE target (JBool (strip out = ''active''))"

inductive_simps reads_simps:
  "reads w h MEMORY_USED_PERCENT target v" "reads w h LOAD_1M target v" "reads w h LOAD_5M target v"
  "reads w h PROCESS_COUNT target v" "reads w h OPEN_FILE_DESCRIPTORS target v" "reads w h SYSCTL_VALUE target v"
  "reads w h PORT_LISTENING target v" "reads w h PROCESS_RUNNING target v" "reads w h SERVICE_ACTIVE target v"
  "reads w h DISK_USED_PERCENT target v" "reads w h DISK_FREE_BYTES target v"

lemma find_splits: "find P xs = Some x \<Longrightarrow> \<exists>before after. xs = before @ x # after \<and> P x \<and> (\<forall>y\<in>set before. \<not> P y)"
proof (induction xs)
  case (Cons a xs)
  show ?case
  proof (cases "P a")
    case True
    then show ?thesis using Cons.prems by (intro exI [of _ "[]"] exI [of _ xs]) simp
  next
    case False
    then obtain before after where "xs = before @ x # after" "P x" "\<forall>y\<in>set before. \<not> P y"
      using Cons.IH Cons.prems by auto
    then show ?thesis using False by (intro exI [of _ "a # before"] exI [of _ after]) simp
  qed
qed simp

lemma find_split: "(\<forall>y\<in>set before. \<not> P y) \<Longrightarrow> P x \<Longrightarrow> find P (before @ x # after) = Some x"
  by (induction before) auto

lemma reads_disk:
  "reads w h DISK_USED_PERCENT target v \<longleftrightarrow> target \<noteq> [] \<and>
     (\<exists>d. find (\<lambda>d. dk_mountpoint d = target) (rs_disks (resource_snapshot_of (wa_io w) h)) = Some d \<and> v = JReal (dk_used_percent d))"
  "reads w h DISK_FREE_BYTES target v \<longleftrightarrow> target \<noteq> [] \<and>
     (\<exists>d. find (\<lambda>d. dk_mountpoint d = target) (rs_disks (resource_snapshot_of (wa_io w) h)) = Some d \<and> v = JInt (dk_free d))"
proof -
  let ?disks = "rs_disks (resource_snapshot_of (wa_io w) h)"
  have split: "find (\<lambda>d. dk_mountpoint d = target) ?disks = Some d \<longleftrightarrow>
      (\<exists>before after. ?disks = before @ d # after \<and> dk_mountpoint d = target \<and> (\<forall>x\<in>set before. dk_mountpoint x \<noteq> target))" for d
  proof
    assume "find (\<lambda>d. dk_mountpoint d = target) ?disks = Some d"
    from find_splits [OF this] show "\<exists>before after. ?disks = before @ d # after \<and> dk_mountpoint d = target \<and>
      (\<forall>x\<in>set before. dk_mountpoint x \<noteq> target)" .
  qed (auto intro: find_split)
  show "reads w h DISK_USED_PERCENT target v \<longleftrightarrow> target \<noteq> [] \<and>
     (\<exists>d. find (\<lambda>d. dk_mountpoint d = target) ?disks = Some d \<and> v = JReal (dk_used_percent d))"
    unfolding reads_simps split by blast
  show "reads w h DISK_FREE_BYTES target v \<longleftrightarrow> target \<noteq> [] \<and>
     (\<exists>d. find (\<lambda>d. dk_mountpoint d = target) ?disks = Some d \<and> v = JInt (dk_free d))"
    unfolding reads_simps split by blast
qed

lemma observe_reads: "observe w c h = Inr v \<longleftrightarrow> reads w h (cd_probe c) (cd_target c) v"
proof (cases "cd_probe c")
  case DISK_USED_PERCENT
  then show ?thesis
    by (auto simp: observe_def needs_target_def observe_resource_def observe_disk_def or_unobservable_def reads_disk
        Let_def split: option.splits)
next
  case DISK_FREE_BYTES
  then show ?thesis
    by (auto simp: observe_def needs_target_def observe_resource_def observe_disk_def or_unobservable_def reads_disk
        Let_def split: option.splits)
next
  case PORT_LISTENING
  then show ?thesis by (auto simp: observe_def needs_target_def Let_def reads_simps list_ex_iff image_iff)
next
  case PROCESS_RUNNING
  then show ?thesis
    by (auto simp: observe_def needs_target_def Let_def reads_simps list_ex_iff matches_process_def split: option.splits)
next
  case SERVICE_ACTIVE
  then show ?thesis
    by (auto simp: observe_def needs_target_def Let_def reads_simps service_is_active_def split: unit_query.splits)
qed (auto simp: observe_def needs_target_def reads_simps observe_resource_def or_unobservable_def Let_def split: option.splits)

text \<open>
  What an operator is meant to say of two values.  Values that are numbers stand on one line, from
  the negative to the positive infinity; a NaN stands nowhere, and differs from every number.  When
  one of the two is a flag, both are read as flags; texts that are not numbers are equal or not.
  Nothing else is true.
\<close>

fun line_place :: "number \<Rightarrow> (int \<times> real) option" where
  "line_place (Finite x) = Some (0, x)"
| "line_place (Infinite neg) = Some (if neg then -1 else 1, 0)"
| "line_place Not_a_number = None"

definition left_of :: "int \<times> real \<Rightarrow> int \<times> real \<Rightarrow> bool" where
  "left_of p q = (fst p < fst q \<or> fst p = fst q \<and> snd p < snd q)"

fun on_line :: "operator \<Rightarrow> int \<times> real \<Rightarrow> int \<times> real \<Rightarrow> bool" where
  "on_line LT p q = left_of p q"
| "on_line LTE p q = (\<not> left_of q p)"
| "on_line GT p q = left_of q p"
| "on_line GTE p q = (\<not> left_of p q)"
| "on_line EQ p q = (p = q)"
| "on_line NE p q = (p \<noteq> q)"

inductive holds :: "(real \<Rightarrow> string) \<Rightarrow> json \<Rightarrow> operator \<Rightarrow> json \<Rightarrow> bool" for rep :: "real \<Rightarrow> string" where
  holds_number: "as_number a = Some m \<Longrightarrow> as_number b = Some n \<Longrightarrow> line_place m = Some p \<Longrightarrow> line_place n = Some q \<Longrightarrow>
    on_line oper p q \<Longrightarrow> holds rep a oper b"
| holds_nan: "as_number a = Some m \<Longrightarrow> as_number b = Some n \<Longrightarrow> line_place m = None \<or> line_place n = None \<Longrightarrow> holds rep a NE b"
| holds_flags_eq: "is_bool a \<or> is_bool b \<Longrightarrow> as_bool rep a = as_bool rep b \<Longrightarrow> holds rep a EQ b"
| holds_flags_ne: "is_bool a \<or> is_bool b \<Longrightarrow> as_bool rep a \<noteq> as_bool rep b \<Longrightarrow> holds rep a NE b"
| holds_text_eq: "\<not> is_bool a \<Longrightarrow> \<not> is_bool b \<Longrightarrow> as_number a = None \<or> as_number b = None \<Longrightarrow>
    strip (py_str rep a) = strip (py_str rep b) \<Longrightarrow> holds rep a EQ b"
| holds_text_ne: "\<not> is_bool a \<Longrightarrow> \<not> is_bool b \<Longrightarrow> as_number a = None \<or> as_number b = None \<Longrightarrow>
    strip (py_str rep a) \<noteq> strip (py_str rep b) \<Longrightarrow> holds rep a NE b"

lemma not_bool_number: "as_number a = Some m \<Longrightarrow> \<not> is_bool a"
  by (cases a) (auto simp: as_number_def is_bool_def)

lemma equal_on_line: "number_equal m n \<longleftrightarrow> (\<exists>p. line_place m = Some p \<and> line_place n = Some p)"
  by (cases m; cases n) auto

lemma less_on_line: "number_less m n \<longleftrightarrow> (\<exists>p q. line_place m = Some p \<and> line_place n = Some q \<and> left_of p q)"
  by (cases m; cases n) (auto simp: left_of_def)

lemma ordered_line:
  assumes "oper \<notin> {EQ, NE}"
  shows "ordered oper m n \<longleftrightarrow> (\<exists>p q. line_place m = Some p \<and> line_place n = Some q \<and> on_line oper p q)"
  using assms by (cases oper) (auto simp: ordered_def less_on_line equal_on_line left_of_def)

lemma loosely_equal_holds:
  "(loosely_equal rep a b \<longleftrightarrow> holds rep a EQ b) \<and> (\<not> loosely_equal rep a b \<longleftrightarrow> holds rep a NE b)"
proof -
  consider (flags) "is_bool a \<or> is_bool b" | (numbers) m n where "as_number a = Some m" "as_number b = Some n"
    | (texts) "\<not> is_bool a" "\<not> is_bool b" "as_number a = None \<or> as_number b = None" by fastforce
  then show ?thesis
  proof cases
    case flags
    then show ?thesis by (auto simp: loosely_equal_def holds.simps dest: not_bool_number)
  next
    case (numbers m n)
    then have "\<not> is_bool a" "\<not> is_bool b" using not_bool_number by blast+
    then show ?thesis using numbers
      by (cases "line_place m"; cases "line_place n"; auto simp: loosely_equal_def holds.simps equal_on_line)
  next
    case texts
    then show ?thesis by (auto simp: loosely_equal_def holds.simps split: option.splits)
  qed
qed

lemma compare_holds: "compare_values rep v oper x = Inr True \<longleftrightarrow> holds rep v oper x"
proof (cases "oper \<in> {EQ, NE}")
  case True
  then show ?thesis using loosely_equal_holds [of rep v x] by (auto simp: compare_values_def)
next
  case False
  then have "holds rep v oper x \<longleftrightarrow>
      (\<exists>m n. as_number v = Some m \<and> as_number x = Some n \<and> ordered oper m n)"
    unfolding ordered_line [OF False] by (cases oper) (auto simp: holds.simps)
  then show ?thesis using False by (auto simp: compare_values_def split: option.splits)
qed


text \<open>The comparison of two values that read as finite numbers, whatever mixture of integers,
  floats and the texts of kernel files they are, is the order of those numbers.\<close>

theorem comparison_is_numeric:
  assumes "as_number a = Some (Finite x)" and "as_number b = Some (Finite y)"
  shows "compare_values rep a LT b = Inr (x < y) \<and> compare_values rep a LTE b = Inr (x \<le> y) \<and>
    compare_values rep a GT b = Inr (x > y) \<and> compare_values rep a GTE b = Inr (x \<ge> y) \<and>
    compare_values rep a EQ b = Inr (x = y) \<and> compare_values rep a NE b = Inr (x \<noteq> y)"
proof -
  have "\<not> is_bool a" "\<not> is_bool b" using assms by (auto simp: is_bool_def as_number_def split: json.splits)
  then show ?thesis using assms by (auto simp: compare_values_def ordered_def loosely_equal_def)
qed

theorem comparison_is_numeric_witness:
  "compare_values (\<lambda>_. []) (JStr ''10'') LTE (JReal 10) = Inr True \<and> compare_values (\<lambda>_. []) (JStr ''10'') EQ (JInt 10) = Inr True"
proof -
  have "as_number (JStr ''10'') = Some (Finite 10)"
    by (simp add: as_number_def parse_float_def strip_def lstrip_def is_space_def parse_unsigned_float_def lower_def
        lower_char_def is_digit_def decimal_value_def exponent_of_def digits_val_def digit_val_def Let_def)
  then show ?thesis
    using comparison_is_numeric [of "JStr ''10''" 10 "JReal 10" 10 "\<lambda>_. []"] comparison_is_numeric [of "JStr ''10''" 10 "JInt 10" 10 "\<lambda>_. []"]
    by (simp add: as_number_def)
qed

end
