(* ===== verification/Ledger.thy ===== *)
theory Ledger
  imports Runtime Errors Host_Ops Conditions
begin

text \<open>
  \<open>remediation/ledger.py\<close>: the rows that say what was changed on the host and how to put it
  back.  The state of the service has the host as its outside.  An exception that leaves an
  operation also leaves its transaction, so the database is the one before it, while what was
  done to the host stays done.
\<close>

definition on_host :: "('h \<Rightarrow> 'a \<times> 'h) \<Rightarrow> 'h sys \<Rightarrow> 'a \<times> 'h sys" where
  "on_host f s = (let (x, h) = f (outside s) in (x, s\<lparr>outside := h\<rparr>))"

lemma on_host_sel [simp]:
  "db (snd (on_host f s)) = db s" "clock (snd (on_host f s)) = clock s"
  "id_supply (snd (on_host f s)) = id_supply s" "published (snd (on_host f s)) = published s"
  "outside (snd (on_host f s)) = snd (f (outside s))" "fst (on_host f s) = fst (f (outside s))"
  by (simp_all add: on_host_def split_beta)

definition on_changes :: "(change_record list \<Rightarrow> change_record list) \<Rightarrow> 'w sys \<Rightarrow> 'w sys" where
  "on_changes f = on_db (\<lambda>d. d\<lparr>changes := f (changes d)\<rparr>)"

lemma on_changes_sel [simp]:
  "changes (db (on_changes f s)) = f (changes (db s))" "clock (on_changes f s) = clock s"
  "id_supply (on_changes f s) = id_supply s" "outside (on_changes f s) = outside s"
  "published (on_changes f s) = published s"
  by (simp_all add: on_changes_def)

definition get_change :: "ident \<Rightarrow> database \<Rightarrow> change_record option" where
  "get_change k d = find_row ch_id k (changes d)"

definition update_change :: "ident \<Rightarrow> (change_record \<Rightarrow> change_record) \<Rightarrow> 'w sys \<Rightarrow> 'w sys" where
  "update_change k f = on_changes (update_where (\<lambda>r. ch_id r = k) f)"

lemma update_change_sel [simp]:
  "changes (db (update_change k f s)) = update_where (\<lambda>r. ch_id r = k) f (changes (db s))"
  "clock (update_change k f s) = clock s" "id_supply (update_change k f s) = id_supply s"
  "outside (update_change k f s) = outside s" "published (update_change k f s) = published s"
  by (simp_all add: update_change_def)

definition service_inverse :: "string \<Rightarrow> string option" where
  "service_inverse = map_of [(''start'', ''stop''), (''stop'', ''start''), (''enable'', ''disable''), (''disable'', ''enable'')]"

definition kind_text :: "change_kind \<Rightarrow> string" where
  "kind_text k = (case k of Sysctl \<Rightarrow> ''sysctl'' | Service \<Rightarrow> ''service'')"

record revert_outcome =
  ro_ok :: bool
  ro_summary :: string
  ro_status :: change_status

definition condition_json :: "condition \<Rightarrow> json" where
  "condition_json c = JObj [(''probe'', JStr (probe_name (cd_probe c))), (''operator'', JStr (operator_name (cd_operator c))),
     (''value'', cd_value c), (''target'', JStr (cd_target c))]"

text \<open>\<open>timedelta(seconds=x)\<close>, to the microsecond.\<close>

definition timedelta :: "real \<Rightarrow> int" where
  "timedelta x = round_half_even (x * 1000000)"

definition revertible_change :: "change_kind \<Rightarrow> string \<Rightarrow> bool" where
  "revertible_change kind new_value = (\<not> (kind = Service \<and> service_inverse new_value = None))"

definition change_row ::
  "ident \<Rightarrow> instant \<Rightarrow> ident \<Rightarrow> ident option \<Rightarrow> change_kind \<Rightarrow> string \<Rightarrow> string option \<Rightarrow> string \<Rightarrow> json list
     \<Rightarrow> real option \<Rightarrow> change_record" where
  "change_row k now ws run kind target previous new_value conditions revert_after =
     (let revertible = revertible_change kind new_value in
      \<lparr>ch_id = k, ch_created = now, ch_workspace = ws, ch_run = run, ch_kind = kind, ch_target = target,
       ch_previous = previous, ch_new = new_value, ch_revertible = revertible,
       ch_status = (if revertible then Applied else Unrevertible), ch_conditions = conditions, ch_detail = [],
       ch_expires_at = (case revert_after of None \<Rightarrow> None
         | Some x \<Rightarrow> if x \<noteq> 0 \<and> revertible then Some (now + timedelta x) else None),
       ch_settled_at = None\<rparr>)"

definition record_change ::
  "ident \<Rightarrow> ident option \<Rightarrow> change_kind \<Rightarrow> string \<Rightarrow> string option \<Rightarrow> string \<Rightarrow> json list \<Rightarrow> real option \<Rightarrow> 'w sys
     \<Rightarrow> change_record \<times> 'w sys" where
  "record_change ws run kind target previous new_value conditions revert_after s =
     (let row = change_row (fresh s) (clock s) ws run kind target previous new_value conditions revert_after
      in (row, use_id (on_changes (\<lambda>rows. rows @ [row]) s)))"

text \<open>\<open>(ok, summary)\<close>, or the exception that escapes.\<close>

definition summarised :: "op_run \<times> 'h \<Rightarrow> (op_error + bool \<times> string) \<times> 'h" where
  "summarised x = (case x of (Inl e, h) \<Rightarrow> (Inl e, h) | (Inr r, h) \<Rightarrow> (Inr (op_ok r, op_summary r), h))"

definition apply_inverse ::
  "'h host \<Rightarrow> system_policy \<Rightarrow> change_record \<Rightarrow> 'h \<Rightarrow> (op_error + bool \<times> string) \<times> 'h" where
  "apply_inverse ho p r h = (case ch_kind r of
       Sysctl \<Rightarrow> (case ch_previous r of
           None \<Rightarrow> (Inr (False, ''no prior value recorded for '' @ ch_target r), h)
         | Some v \<Rightarrow> summarised (write_sysctl ho p (ch_target r) v h))
     | Service \<Rightarrow> (case service_inverse (ch_new r) of
           None \<Rightarrow> (Inr (False, ''no inverse for service action '' @ py_repr (ch_new r)), h)
         | Some action \<Rightarrow> summarised (manage_service ho p (ch_target r) action h)))"

definition mark_settled :: "change_status \<Rightarrow> string \<Rightarrow> instant \<Rightarrow> change_record \<Rightarrow> change_record" where
  "mark_settled st detail now r =
     r\<lparr>ch_status := st, ch_expires_at := None, ch_detail := detail, ch_settled_at := Some now\<rparr>"

definition write_revert :: "change_record \<Rightarrow> string \<Rightarrow> bool \<Rightarrow> string \<Rightarrow> 'w sys \<Rightarrow> revert_outcome \<times> 'w sys" where
  "write_revert r reason ok summary s =
     (let st = (if ok then Reverted else Revert_failed)
      in (\<lparr>ro_ok = ok, ro_summary = summary, ro_status = st\<rparr>,
          update_change (ch_id r) (mark_settled st (strip (reason @ '' '' @ summary)) (clock s)) s))"

definition revert_change ::
  "'h host \<Rightarrow> system_policy \<Rightarrow> change_record \<Rightarrow> string \<Rightarrow> 'h sys \<Rightarrow> (op_error + revert_outcome) \<times> 'h sys" where
  "revert_change ho p r reason s =
     (if ch_status r \<in> {Reverted, Confirmed} then
        (Inr \<lparr>ro_ok = True, ro_summary = ''change '' @ take 12 (ch_id r) @ '' needs no revert'', ro_status = ch_status r\<rparr>, s)
      else if \<not> ch_revertible r then
        (Inr \<lparr>ro_ok = False,
              ro_summary = kind_text (ch_kind r) @ '' '' @ [CHR 0x27] @ ch_new r @ [CHR 0x27] @ '' on '' @ ch_target r @
                '' has no inverse; restore it deliberately'',
              ro_status = Unrevertible\<rparr>, s)
      else case on_host (apply_inverse ho p r) s of
        (Inl (Unsafe u), s1) \<Rightarrow> (case write_revert r reason False (unsafe_text u) s1 of (out, s2) \<Rightarrow> (Inr out, s2))
      | (Inl e, s1) \<Rightarrow> (Inl e, s1)
      | (Inr (ok, summary), s1) \<Rightarrow> (case write_revert r reason ok summary s1 of (out, s2) \<Rightarrow> (Inr out, s2)))"

definition load_change :: "ident \<Rightarrow> ident \<Rightarrow> database \<Rightarrow> hx_error + change_record" where
  "load_change k ws d = (case get_change k d of
       Some r \<Rightarrow> if ch_workspace r = ws then Inr r else Inl (not_found ''change not found'' [(''change_id'', JStr k)])
     | None \<Rightarrow> Inl (not_found ''change not found'' [(''change_id'', JStr k)]))"

definition list_changes :: "ident \<Rightarrow> ident option \<Rightarrow> nat \<Rightarrow> database \<Rightarrow> change_record list" where
  "list_changes ws run limit d =
     take limit (sort_key (\<lambda>r. - ch_created r)
       (filter (\<lambda>r. ch_workspace r = ws \<and> (truthy run \<longrightarrow> ch_run r = run)) (changes d)))"

section \<open>The dead-man switch\<close>

definition due_change :: "instant \<Rightarrow> change_record \<Rightarrow> bool" where
  "due_change now r = (ch_status r = Applied \<and> (case ch_expires_at r of None \<Rightarrow> False | Some t \<Rightarrow> t < now))"

fun revert_each ::
  "'h host \<Rightarrow> system_policy \<Rightarrow> change_record list \<Rightarrow> 'h sys \<Rightarrow> (op_error + ident list) \<times> 'h sys" where
  "revert_each ho p [] s = (Inr [], s)"
| "revert_each ho p (r # rs) s =
     (case revert_change ho p r ''confirmation window elapsed;'' s of
        (Inl e, s1) \<Rightarrow> (Inl e, s1)
      | (Inr out, s1) \<Rightarrow>
          (case revert_each ho p rs s1 of
             (Inl e, s2) \<Rightarrow> (Inl e, s2)
           | (Inr ks, s2) \<Rightarrow> (Inr (if ro_ok out then ch_id r # ks else ks), s2)))"

definition revert_expired_changes :: "'h host \<Rightarrow> system_policy \<Rightarrow> 'h sys \<Rightarrow> (op_error + ident list) \<times> 'h sys" where
  "revert_expired_changes ho p s =
     (case revert_each ho p (filter (due_change (clock s)) (changes (db s))) s of
        (Inl e, s1) \<Rightarrow> (Inl e, s1\<lparr>db := db s\<rparr>)
      | (Inr ks, s1) \<Rightarrow> (Inr ks, s1))"

text \<open>\<open>policy or SystemPolicy(...)\<close>: the sweep's own policy has no extra allowlist.\<close>

definition sweep_policy :: "system_policy \<Rightarrow> system_policy" where
  "sweep_policy settings = settings\<lparr>sp_extra_sysctls := []\<rparr>"

section \<open>The rows after a revert\<close>

lemma write_revert_fst [simp]:
  "fst (write_revert r reason ok summary s) = \<lparr>ro_ok = ok, ro_summary = summary, ro_status = (if ok then Reverted else Revert_failed)\<rparr>"
  by (simp add: write_revert_def Let_def)

lemma write_revert_changes [simp]:
  "changes (db (snd (write_revert r reason ok summary s))) =
     update_where (\<lambda>x. ch_id x = ch_id r)
       (mark_settled (if ok then Reverted else Revert_failed) (strip (reason @ '' '' @ summary)) (clock s)) (changes (db s))"
  "clock (snd (write_revert r reason ok summary s)) = clock s"
  "outside (snd (write_revert r reason ok summary s)) = outside s"
  by (simp_all add: write_revert_def Let_def)

text \<open>What a revert that was attempted leaves: its row settled one way or the other, and no other row touched.\<close>

lemma revert_change_attempted:
  assumes "revert_change ho p r reason s = (Inr out, s')" and "ch_status r \<notin> {Reverted, Confirmed}" and "ch_revertible r"
  shows "\<exists>detail. changes (db s') = update_where (\<lambda>x. ch_id x = ch_id r)
      (mark_settled (if ro_ok out then Reverted else Revert_failed) detail (clock s)) (changes (db s)) \<and>
    ro_status out = (if ro_ok out then Reverted else Revert_failed) \<and> clock s' = clock s"
proof -
  obtain x s1 where x: "on_host (apply_inverse ho p r) s = (x, s1)" by fastforce
  then have s1: "db s1 = db s" "clock s1 = clock s"
    using on_host_sel(1,2) [of "apply_inverse ho p r" s] by simp_all
  have "\<exists>ok summary. write_revert r reason ok summary s1 = (out, s')"
    using assms x by (auto simp: revert_change_def split: prod.splits sum.splits op_error.splits)
  then obtain ok summary where w: "write_revert r reason ok summary s1 = (out, s')" by blast
  then have "out = fst (write_revert r reason ok summary s1)" "s' = snd (write_revert r reason ok summary s1)" by simp_all
  then show ?thesis using s1 by auto
qed

text \<open>Well-formed rows: a timer is armed only on a revertible change that is still provisional, the changes
  without an inverse are the service actions outside the table of inverses, and no other change
  is marked as one.\<close>

definition change_wf :: "change_record \<Rightarrow> bool" where
  "change_wf r = ((ch_expires_at r \<noteq> None \<longrightarrow> ch_revertible r \<and> ch_status r = Applied) \<and>
     ch_revertible r = revertible_change (ch_kind r) (ch_new r) \<and>
     (ch_status r = Unrevertible \<longrightarrow> \<not> ch_revertible r))"

definition ledger_wf :: "'w sys \<Rightarrow> bool" where
  "ledger_wf s = (keyed ch_id (changes (db s)) \<and> list_all change_wf (changes (db s)))"

lemma change_wf_settled [simp]: "change_wf r \<Longrightarrow> st = Unrevertible \<longrightarrow> \<not> ch_revertible r \<Longrightarrow> change_wf (mark_settled st detail now r)"
  by (simp add: change_wf_def mark_settled_def)

lemma mark_settled_sel [simp]:
  "ch_id (mark_settled st detail now r) = ch_id r" "ch_status (mark_settled st detail now r) = st"
  "ch_expires_at (mark_settled st detail now r) = None" "ch_revertible (mark_settled st detail now r) = ch_revertible r"
  "ch_previous (mark_settled st detail now r) = ch_previous r" "ch_target (mark_settled st detail now r) = ch_target r"
  "ch_kind (mark_settled st detail now r) = ch_kind r" "ch_new (mark_settled st detail now r) = ch_new r"
  "ch_workspace (mark_settled st detail now r) = ch_workspace r" "ch_run (mark_settled st detail now r) = ch_run r"
  by (simp_all add: mark_settled_def)

lemma change_row_wf [simp]: "change_wf (change_row k now ws run kind target previous new_value conditions revert_after)"
  by (simp add: change_row_def change_wf_def Let_def split: option.splits)

lemma list_all_update_where:
  "list_all P rows \<Longrightarrow> (\<And>r. P r \<Longrightarrow> P (f r)) \<Longrightarrow> list_all P (update_where p f rows)"
  by (induction rows) auto

lemma keyed_settled [simp]:
  "keyed ch_id (update_where p (mark_settled st detail now) rows) = keyed ch_id rows"
  by (simp add: keyed_update_where)

lemma ledger_wf_settled:
  "ledger_wf s \<Longrightarrow> st \<noteq> Unrevertible \<Longrightarrow>
   changes (db s') = update_where p (mark_settled st detail now) (changes (db s)) \<Longrightarrow> ledger_wf s'"
  by (simp add: ledger_wf_def list_all_update_where)

text \<open>A row as the sweep leaves it.\<close>

definition swept :: "ident list \<Rightarrow> ident list \<Rightarrow> change_record \<Rightarrow> change_record \<Rightarrow> bool" where
  "swept tried reverted r r' =
     (if ch_id r \<in> set tried
      then \<exists>detail now. r' = mark_settled (if ch_id r \<in> set reverted then Reverted else Revert_failed) detail now r
      else r' = r)"

lemma revert_each_exact:
  assumes "revert_each ho p rs s = (Inr ks, s')" and "distinct (map ch_id rs)"
    and "\<forall>r\<in>set rs. ch_status r = Applied \<and> ch_revertible r"
  shows "list_all2 (swept (map ch_id rs) ks) (changes (db s)) (changes (db s')) \<and> set ks \<subseteq> ch_id ` set rs"
  using assms
proof (induction rs arbitrary: s ks)
  case Nil
  then show ?case by (auto simp: swept_def list.rel_refl)
next
  case (Cons r rs)
  obtain out s1 where one: "revert_change ho p r ''confirmation window elapsed;'' s = (Inr out, s1)"
    using Cons.prems(1) by (auto split: prod.splits sum.splits)
  then obtain ks1 where rest: "revert_each ho p rs s1 = (Inr ks1, s')" and ks: "ks = (if ro_ok out then ch_id r # ks1 else ks1)"
    using Cons.prems(1) by (auto split: prod.splits sum.splits)
  obtain detail where c1: "changes (db s1) = update_where (\<lambda>x. ch_id x = ch_id r)
      (mark_settled (if ro_ok out then Reverted else Revert_failed) detail (clock s)) (changes (db s))"
    using revert_change_attempted [OF one] Cons.prems(3) by auto
  have ih: "list_all2 (swept (map ch_id rs) ks1) (changes (db s1)) (changes (db s'))" "set ks1 \<subseteq> ch_id ` set rs"
    using Cons.IH [OF rest] Cons.prems(2,3) by auto
  have new: "ch_id r \<notin> ch_id ` set rs" using Cons.prems(2) by auto
  have "list_all2 (\<lambda>x y. swept (map ch_id (r # rs)) ks x y) (changes (db s)) (changes (db s'))"
  proof -
    have "list_all2 (\<lambda>x y. swept (map ch_id rs) ks1
        (if ch_id x = ch_id r then mark_settled (if ro_ok out then Reverted else Revert_failed) detail (clock s) x else x) y)
        (changes (db s)) (changes (db s'))"
      using ih(1) unfolding c1 update_where_def by (simp add: list_all2_map1)
    then show ?thesis
    proof (rule list_all2_mono)
      fix x y
      assume "swept (map ch_id rs) ks1
        (if ch_id x = ch_id r then mark_settled (if ro_ok out then Reverted else Revert_failed) detail (clock s) x else x) y"
      then show "swept (map ch_id (r # rs)) ks x y"
        using new ih(2) by (cases "ch_id x = ch_id r") (auto simp: swept_def ks)
    qed
  qed
  then show ?case using ih(2) ks by auto
qed

text \<open>C14.  The dead-man switch: a sweep that gets through leaves every change whose confirmation window
  has elapsed reverted, and reported, or marked as a failed revert, with its timer cleared either
  way; every other row of the ledger is as it was.\<close>

theorem dead_man_sweep:
  assumes "revert_expired_changes ho p s = (Inr ks, s')" and "ledger_wf s"
  shows "list_all2 (\<lambda>r r'. if due_change (clock s) r
      then \<exists>detail now. r' = mark_settled (if ch_id r \<in> set ks then Reverted else Revert_failed) detail now r
      else r' = r) (changes (db s)) (changes (db s')) \<and>
    (\<forall>k\<in>set ks. \<exists>r\<in>set (changes (db s)). ch_id r = k \<and> due_change (clock s) r)"
proof -
  let ?due = "filter (due_change (clock s)) (changes (db s))"
  have key: "distinct (map ch_id (changes (db s)))" and wf: "\<forall>r\<in>set (changes (db s)). change_wf r"
    using assms(2) by (simp_all add: ledger_wf_def keyed_def list_all_iff)
  have run: "revert_each ho p ?due s = (Inr ks, s')"
    using assms(1) by (auto simp: revert_expired_changes_def split: prod.splits sum.splits)
  have due: "\<forall>r\<in>set ?due. ch_status r = Applied \<and> ch_revertible r"
    using wf by (auto simp: due_change_def change_wf_def split: option.splits)
  have exact: "list_all2 (swept (map ch_id ?due) ks) (changes (db s)) (changes (db s'))" "set ks \<subseteq> ch_id ` set ?due"
    using revert_each_exact [OF run distinct_map_filter [OF key] due] by simp_all
  have "ch_id r \<in> set (map ch_id ?due) \<longleftrightarrow> due_change (clock s) r" if "r \<in> set (changes (db s))" for r
    using that key by (auto simp: distinct_map inj_on_def)
  then have "list_all2 (\<lambda>r r'. if due_change (clock s) r
      then \<exists>detail now. r' = mark_settled (if ch_id r \<in> set ks then Reverted else Revert_failed) detail now r
      else r' = r) (changes (db s)) (changes (db s'))"
    using exact(1) by (auto elim!: list.rel_mono_strong simp: swept_def)
  then show ?thesis using exact(2) by auto
qed

text \<open>A host with one parameter, and a change of it whose window has elapsed.\<close>

definition swap_path :: path where "swap_path = [''proc'', ''sys'', ''vm'', ''swappiness'']"

definition guard_state :: "files sys" where
  "guard_state = \<lparr>db = empty_database, published = [], clock = 0, id_supply = 0, outside = [(swap_path, ''60'')]\<rparr>"

lemma demo_path: "sysctl_path ''vm.swappiness'' = Some swap_path"
  by code_simp

lemma demo_class: "classify_sysctl ''vm.swappiness'' = (MUTATE, ''reversible tunable; requires approval'')"
  by code_simp

lemma demo_read:
  "read_sysctl (ho_io file_host) ''vm.swappiness'' h = (case map_of h swap_path of None \<Rightarrow> None
     | Some t \<Rightarrow> if strip (take 8192 t) = [] then None else Some (strip (take 8192 t)))"
  by (simp add: read_sysctl_def demo_path read_text_def text_or_empty_def file_host_def strip_def lstrip_def Let_def
      split: option.splits)

lemma demo_write:
  "swap_path \<in> fst ` set h \<Longrightarrow>
   \<exists>r. write_sysctl file_host open_policy ''vm.swappiness'' v h = (Inr r, AList.update swap_path v h) \<and> op_ok r"
  by (simp add: write_sysctl_def policy_defs open_policy_def default_policy_def classify_sysctl_write_def demo_class
      write_parameter_def demo_path Let_def file_host_def)

definition late_change :: change_record where
  "late_change = change_row ''c1'' 0 ''w1'' None Sysctl ''vm.swappiness'' (Some ''60'') ''10'' [] (Some 1)"

definition late_state :: "files sys" where
  "late_state = guard_state\<lparr>db := empty_database\<lparr>changes := [late_change]\<rparr>, clock := 5000000,
     outside := [(swap_path, ''10'')]\<rparr>"

lemma late_due: "due_change (clock late_state) late_change"
  by (simp add: due_change_def late_change_def late_state_def change_row_def revertible_change_def timedelta_def
      round_half_even_def Let_def)

lemma late_wf: "ledger_wf late_state"
  by (simp add: ledger_wf_def late_state_def late_change_def)

lemma late_revert:
  "\<exists>s'. revert_expired_changes file_host open_policy late_state = (Inr [''c1''], s')"
proof -
  obtain r where r: "write_sysctl file_host open_policy ''vm.swappiness'' ''60'' [(swap_path, ''10'')] =
      (Inr r, AList.update swap_path ''60'' [(swap_path, ''10'')])" "op_ok r"
    using demo_write [of "[(swap_path, ''10'')]"] by auto
  have c: "ch_status late_change = Applied" "ch_revertible late_change" "ch_kind late_change = Sysctl"
    "ch_previous late_change = Some ''60''" "ch_target late_change = ''vm.swappiness''" "ch_id late_change = ''c1''"
    by (simp_all add: late_change_def change_row_def revertible_change_def Let_def)
  have o1: "outside late_state = [(swap_path, ''10'')]" and ch: "changes (db late_state) = [late_change]"
    by (simp_all add: late_state_def)
  show ?thesis unfolding revert_expired_changes_def ch using late_due r
    by (simp add: revert_change_def c on_host_def o1 apply_inverse_def summarised_def write_revert_def Let_def)
qed

theorem dead_man_sweep_witness:
  "map ch_status (changes (db (snd (revert_expired_changes file_host open_policy late_state)))) = [Reverted]"
proof -
  obtain s' where s': "revert_expired_changes file_host open_policy late_state = (Inr [''c1''], s')" using late_revert by blast
  have ch: "changes (db late_state) = [late_change]" "ch_id late_change = ''c1''"
    by (simp_all add: late_state_def late_change_def change_row_def Let_def)
  show ?thesis using dead_man_sweep [OF s' late_wf] late_due ch s' by (auto simp: list_all2_Cons1)
qed

end
