(* ===== verification/Guard.thy ===== *)
theory Guard
  imports Ledger
begin

text \<open>
  \<open>remediation/guard.py\<close>: a host change is recorded, applied, verified, and reverted when its
  post-conditions do not hold; and \<open>tools/builtin/change.py\<close>, the tools that expose it.
  \<open>ge_wait\<close> is the settle window: the time that passes and what every other connection of the
  deployment does meanwhile.
\<close>

section \<open>Guarded changes\<close>

record 'h guard_env =
  ge_host :: "'h host"
  ge_watch :: "'h watch"
  ge_rep :: "real \<Rightarrow> string"
  ge_wait :: "real \<Rightarrow> 'h sys \<Rightarrow> 'h sys"

record guard_outcome =
  go_ok :: bool
  go_summary :: string
  go_change_id :: ident
  go_status :: change_status
  go_results :: "condition_result list"
  go_detail :: json_dict

definition change_status_text :: "change_status \<Rightarrow> string" where
  "change_status_text st = (case st of
       Applied \<Rightarrow> ''applied'' | Verified \<Rightarrow> ''verified'' | Confirmed \<Rightarrow> ''confirmed'' | Reverted \<Rightarrow> ''reverted''
     | Revert_failed \<Rightarrow> ''revert_failed'' | Unrevertible \<Rightarrow> ''unrevertible'')"

definition guard_payload :: "(real \<Rightarrow> string) \<Rightarrow> guard_outcome \<Rightarrow> json_dict" where
  "guard_payload rep o1 =
     AList.updates [''change_id'', ''status'', ''verification'']
       [JStr (go_change_id o1), JStr (change_status_text (go_status o1)),
        JList (map (\<lambda>r. JObj [(''condition'', JStr (describe_condition rep (cn_condition r))), (''met'', JBool (cn_met r)),
          (''observed'', cn_observed r), (''detail'', JStr (cn_detail r))]) (go_results o1))] (go_detail o1)"

definition outcome :: "bool \<Rightarrow> string \<Rightarrow> ident \<Rightarrow> change_status \<Rightarrow> condition_result list \<Rightarrow> json_dict \<Rightarrow> guard_outcome" where
  "outcome ok summary k st results detail =
     \<lparr>go_ok = ok, go_summary = summary, go_change_id = k, go_status = st, go_results = results, go_detail = detail\<rparr>"

lemma outcome_sel [simp]:
  "go_ok (outcome ok summary k st results detail) = ok" "go_change_id (outcome ok summary k st results detail) = k"
  "go_status (outcome ok summary k st results detail) = st" "go_results (outcome ok summary k st results detail) = results"
  "go_summary (outcome ok summary k st results detail) = summary"
  by (simp_all add: outcome_def)

definition max_settle_seconds :: real where "max_settle_seconds = 60"

definition max_revert_after_seconds :: real where "max_revert_after_seconds = 3600"

definition clamp_settle :: "real \<Rightarrow> real" where
  "clamp_settle x = max 0 (min x max_settle_seconds)"

definition clamp_window :: "real option \<Rightarrow> real option" where
  "clamp_window x = (case x of None \<Rightarrow> None
     | Some t \<Rightarrow> if t = 0 then None else Some (max 1 (min t max_revert_after_seconds)))"

text \<open>\<open>_read_prior_state\<close>: a refusal of the inspection is no prior state; other exceptions escape.\<close>

definition prior_of_result :: "op_result \<Rightarrow> string option" where
  "prior_of_result r =
     (case map_of (op_detail r) ''output'' of
        Some (JStr t) \<Rightarrow> if strip t = [] then None else Some (strip t)
      | _ \<Rightarrow> None)"

definition read_prior_state ::
  "'h host \<Rightarrow> system_policy \<Rightarrow> change_kind \<Rightarrow> string \<Rightarrow> 'h \<Rightarrow> (op_error + string option) \<times> 'h" where
  "read_prior_state ho p kind target h = (case kind of
       Sysctl \<Rightarrow> (Inr (read_sysctl (ho_io ho) target h), h)
     | Service \<Rightarrow> (case manage_service ho p target ''is-active'' h of
          (Inl (Unsafe u), h1) \<Rightarrow> (Inr None, h1)
        | (Inl e, h1) \<Rightarrow> (Inl e, h1)
        | (Inr r, h1) \<Rightarrow> (Inr (prior_of_result r), h1)))"

definition apply_change ::
  "'h host \<Rightarrow> system_policy \<Rightarrow> change_kind \<Rightarrow> string \<Rightarrow> string \<Rightarrow> 'h \<Rightarrow> (op_error + bool \<times> string) \<times> 'h" where
  "apply_change ho p kind target new_value h =
     summarised (case kind of Sysctl \<Rightarrow> write_sysctl ho p target new_value h
       | Service \<Rightarrow> manage_service ho p target new_value h)"

definition settle_change :: "ident \<Rightarrow> change_status \<Rightarrow> string \<Rightarrow> 'w sys \<Rightarrow> 'w sys" where
  "settle_change k st detail s = update_change k (mark_settled st detail (clock s)) s"

definition change_event :: "ident \<Rightarrow> ident option \<Rightarrow> event_type \<Rightarrow> json_dict \<Rightarrow> 'w sys \<Rightarrow> 'w sys" where
  "change_event ws run t payload s =
     publish \<lparr>ev_type = t, ev_workspace = ws, ev_session = None, ev_run = run, ev_payload = payload\<rparr> s"

lemma change_event_sel [simp]:
  "db (change_event ws run t payload s) = db s" "clock (change_event ws run t payload s) = clock s"
  "outside (change_event ws run t payload s) = outside s" "id_supply (change_event ws run t payload s) = id_supply s"
  by (simp_all add: change_event_def)

lemma settle_change_sel [simp]:
  "changes (db (settle_change k st detail s)) = update_where (\<lambda>r. ch_id r = k) (mark_settled st detail (clock s)) (changes (db s))"
  "outside (settle_change k st detail s) = outside s" "clock (settle_change k st detail s) = clock s"
  by (simp_all add: settle_change_def)

definition in_seconds :: "real \<Rightarrow> string" where
  "in_seconds x = show_fixed0 x @ ''s''"

text \<open>The answer when no post-condition was declared.\<close>

definition unverified_outcome :: "change_record \<Rightarrow> string \<Rightarrow> real option \<Rightarrow> guard_outcome" where
  "unverified_outcome r summary window =
     outcome True
       (summary @ (case window of None \<Rightarrow> [] | Some x \<Rightarrow>
          '' '' @ em_dash @ '' reverts automatically in '' @ in_seconds x @ '' unless confirmed (change.confirm '' @
          take 12 (ch_id r) @ '')''))
       (ch_id r) Applied []
       [(''previous'', opt_str (ch_previous r)), (''applied'', JStr summary),
        (''expires_in'', case window of None \<Rightarrow> JNull | Some x \<Rightarrow> JReal x)]"

definition semicolon_join :: "string list \<Rightarrow> string" where
  "semicolon_join = join ''; ''"

definition verified_outcome :: "(real \<Rightarrow> string) \<Rightarrow> change_record \<Rightarrow> string \<Rightarrow> real option \<Rightarrow> condition_result list \<Rightarrow> guard_outcome" where
  "verified_outcome rep r summary window results =
     outcome True
       (summary @ '' '' @ em_dash @ '' verified ('' @ semicolon_join (map (describe_result rep) results) @ '')'' @
        (case window of None \<Rightarrow> [] | Some x \<Rightarrow> ''; still reverts in '' @ in_seconds x @ '' unless confirmed''))
       (ch_id r) Verified results [(''previous'', opt_str (ch_previous r)), (''applied'', JStr summary)]"

definition failed_conditions :: "(real \<Rightarrow> string) \<Rightarrow> condition_result list \<Rightarrow> string" where
  "failed_conditions rep results = semicolon_join (map (describe_result rep) (filter (\<lambda>r. \<not> cn_met r) results))"

definition opt_repr :: "string option \<Rightarrow> string" where
  "opt_repr x = (case x of None \<Rightarrow> ''None'' | Some t \<Rightarrow> py_repr t)"

definition reverted_outcome :: "change_record \<Rightarrow> string \<Rightarrow> revert_outcome \<Rightarrow> condition_result list \<Rightarrow> guard_outcome" where
  "reverted_outcome r failed rev_out results =
     (if ro_ok rev_out
      then outcome False
        (''Post-conditions did not hold ('' @ failed @ ''). The change was reverted to '' @ opt_repr (ch_previous r) @
         ''. Try a different value or investigate further.'')
        (ch_id r) Reverted results []
      else outcome False
        (''Post-conditions did not hold ('' @ failed @ '') AND the revert failed ('' @ ro_summary rev_out @ ''). '' @
         ch_target r @ '' may be left at '' @ py_repr (ch_new r) @ '' '' @ em_dash @ '' check it.'')
        (ch_id r) Revert_failed results [])"

definition irreversible_outcome :: "change_record \<Rightarrow> string \<Rightarrow> string \<Rightarrow> condition_result list \<Rightarrow> guard_outcome" where
  "irreversible_outcome r summary failed results =
     outcome False
       (summary @ '' '' @ em_dash @ '' post-conditions did NOT hold ('' @ failed @ ''), and this action '' @
        ''has no automatic inverse. Restore it deliberately.'')
       (ch_id r) Unrevertible results []"

text \<open>
  After a failed verification.  The row is read again (the \<open>assert\<close> that it is there is the
  missing case of the lookup), then reverted in the same transaction.
\<close>

definition undo_change ::
  "'h guard_env \<Rightarrow> system_policy \<Rightarrow> change_record \<Rightarrow> condition_result list \<Rightarrow> 'h sys
     \<Rightarrow> (op_error option + guard_outcome) \<times> 'h sys" where
  "undo_change env p r results s =
     (let failed = failed_conditions (ge_rep env) results in
      case get_change (ch_id r) (db s) of
        None \<Rightarrow> (Inl None, s)
      | Some row \<Rightarrow>
          (case revert_change (ge_host env) p row ''post-conditions failed;'' s of
             (Inl e, s1) \<Rightarrow> (Inl (Some e), s1)
           | (Inr out, s1) \<Rightarrow>
               (Inr (reverted_outcome r failed out results),
                change_event (ch_workspace r) (ch_run r) CHANGE_REVERTED
                  [(''change_id'', JStr (ch_id r)), (''target'', JStr (ch_target r)), (''ok'', JBool (ro_ok out)),
                   (''reason'', JStr failed)] s1)))"

text \<open>From a change that is on the host to its outcome.\<close>

definition verify_change ::
  "'h guard_env \<Rightarrow> system_policy \<Rightarrow> change_record \<Rightarrow> string \<Rightarrow> condition list \<Rightarrow> real \<Rightarrow> real option \<Rightarrow> 'h sys
     \<Rightarrow> (op_error option + guard_outcome) \<times> 'h sys" where
  "verify_change env p r summary conds settle window s =
     (let s1 = (if settle \<noteq> 0 then ge_wait env settle s else s);
          results = evaluate_conditions (ge_rep env) (ge_watch env) (outside s1) conds
      in if all_met results then
           (let s2 = settle_change (ch_id r) Verified ''post-conditions held'' s1;
                s3 = change_event (ch_workspace r) (ch_run r) CHANGE_VERIFIED
                       [(''change_id'', JStr (ch_id r)), (''target'', JStr (ch_target r))] s2
            in (Inr (verified_outcome (ge_rep env) r summary window results), s3))
         else if \<not> ch_revertible r then
           (let failed = failed_conditions (ge_rep env) results
            in (Inr (irreversible_outcome r summary failed results),
                settle_change (ch_id r) Unrevertible (''unverified: '' @ failed) s1))
         else undo_change env p r results s1)"

text \<open>The recorded change, applied: an operation that refused or did nothing closes its row.\<close>

definition carry_out ::
  "'h guard_env \<Rightarrow> system_policy \<Rightarrow> change_record \<Rightarrow> condition list \<Rightarrow> real \<Rightarrow> real option \<Rightarrow> 'h sys
     \<Rightarrow> (op_error option + guard_outcome) \<times> 'h sys" where
  "carry_out env p r conds settle window s =
     (case on_host (apply_change (ge_host env) p (ch_kind r) (ch_target r) (ch_new r)) s of
        (Inl (Unsafe u), s1) \<Rightarrow>
          (Inr (outcome False (unsafe_text u) (ch_id r) Reverted [] []), settle_change (ch_id r) Reverted (unsafe_text u) s1)
      | (Inl e, s1) \<Rightarrow> (Inl (Some e), s1)
      | (Inr (ok, summary), s1) \<Rightarrow>
          if \<not> ok then
            (Inr (outcome False summary (ch_id r) Reverted [] []), settle_change (ch_id r) Reverted summary s1)
          else
            (let s2 = change_event (ch_workspace r) (ch_run r) CHANGE_APPLIED
                        [(''change_id'', JStr (ch_id r)), (''kind'', JStr (kind_text (ch_kind r))),
                         (''target'', JStr (ch_target r)), (''value'', JStr (ch_new r))] s1
             in if conds = [] then (Inr (unverified_outcome r summary window), s2)
                else verify_change env p r summary conds settle window s2))"

definition apply_guarded ::
  "'h guard_env \<Rightarrow> system_policy \<Rightarrow> ident \<Rightarrow> ident option \<Rightarrow> change_kind \<Rightarrow> string \<Rightarrow> string \<Rightarrow> condition list
     \<Rightarrow> real \<Rightarrow> real option \<Rightarrow> 'h sys \<Rightarrow> (op_error option + guard_outcome) \<times> 'h sys" where
  "apply_guarded env p ws run kind target new_value conds settle_seconds revert_after_seconds s =
     (let window = clamp_window revert_after_seconds in
      case on_host (read_prior_state (ge_host env) p kind target) s of
        (Inl e, s1) \<Rightarrow> (Inl (Some e), s1)
      | (Inr previous, s1) \<Rightarrow>
          (case record_change ws run kind target previous new_value (map condition_json conds) window s1 of
             (r, s2) \<Rightarrow> carry_out env p r conds (clamp_settle settle_seconds) window s2))"

definition confirmed_row :: "string \<Rightarrow> instant \<Rightarrow> change_record \<Rightarrow> change_record" where
  "confirmed_row by_whom now = mark_settled Confirmed (''confirmed by '' @ by_whom) now"

definition confirm_change :: "ident \<Rightarrow> ident \<Rightarrow> string \<Rightarrow> 'w sys \<Rightarrow> (hx_error + guard_outcome) \<times> 'w sys" where
  "confirm_change k ws by_whom s =
     (case load_change k ws (db s) of
        Inl e \<Rightarrow> (Inl e, s)
      | Inr r \<Rightarrow>
          if ch_status r \<in> {Reverted, Revert_failed}
          then (Inr (outcome False (''change '' @ take 12 k @ '' was already reverted; nothing to confirm'') k (ch_status r) [] []), s)
          else (Inr (outcome True (ch_target r @ '' confirmed; it will not be reverted'') k Confirmed [] []),
                update_change k (confirmed_row by_whom (clock s)) s))"

section \<open>The tools of the agent\<close>

text \<open>The arguments are those pydantic has validated; \<open>None\<close> stands for services the context lacks.\<close>

definition guard_failure :: "op_error \<Rightarrow> tool_outcome option" where
  "guard_failure e = (case e of Unsafe u \<Rightarrow> Some (failure (unsafe_text u) []) | _ \<Rightarrow> None)"

definition tool_of_guard :: "(real \<Rightarrow> string) \<Rightarrow> guard_outcome \<Rightarrow> tool_outcome" where
  "tool_of_guard rep o1 = \<lparr>to_ok = go_ok o1, to_summary = go_summary o1, to_data = guard_payload rep o1\<rparr>"

text \<open>\<open>None\<close> of the result is an exception that escapes the tool.\<close>

definition guarded_tool ::
  "change_kind \<Rightarrow> 'h guard_env option \<Rightarrow> system_policy \<Rightarrow> ident \<Rightarrow> ident \<Rightarrow> string \<Rightarrow> string \<Rightarrow> condition list \<Rightarrow> real \<Rightarrow> real option
     \<Rightarrow> 'h sys \<Rightarrow> tool_outcome option \<times> 'h sys" where
  "guarded_tool kind services p ws run target value conds settle window s =
     (case services of
        None \<Rightarrow> (Some (failure ''Guarded changes are unavailable in this context.'' []), s)
      | Some env \<Rightarrow>
          (case apply_guarded env p ws (Some run) kind target value conds settle window s of
             (Inl (Some e), s1) \<Rightarrow> (guard_failure e, s1)
           | (Inl None, s1) \<Rightarrow> (None, s1)
           | (Inr o1, s1) \<Rightarrow> (Some (tool_of_guard (ge_rep env) o1), s1)))"

definition change_summary :: "change_record \<Rightarrow> json" where
  "change_summary r = JObj
     [(''id'', JStr (ch_id r)), (''kind'', JStr (kind_text (ch_kind r))), (''target'', JStr (ch_target r)),
      (''previous'', opt_str (ch_previous r)), (''new'', JStr (ch_new r)), (''status'', JStr (change_status_text (ch_status r))),
      (''revertible'', JBool (ch_revertible r)), (''detail'', JStr (ch_detail r))]"

definition change_list_tool :: "bool \<Rightarrow> ident \<Rightarrow> ident \<Rightarrow> database \<Rightarrow> tool_outcome" where
  "change_list_tool this_run_only ws run d =
     (let rows = list_changes ws (if this_run_only then Some run else None) 50 d
      in if rows = [] then success ''No host changes recorded.'' [(''changes'', JList [])]
         else success (show_nat (length rows) @ '' recorded change(s)'') [(''changes'', JList (map change_summary rows))])"

text \<open>An id prefix names the newest matching change of the workspace.\<close>

definition resolve_change :: "ident \<Rightarrow> string \<Rightarrow> database \<Rightarrow> change_record option" where
  "resolve_change ws prefix d = find (\<lambda>r. starts_with prefix (ch_id r)) (list_changes ws None 200 d)"

definition revert_tool ::
  "'h host \<Rightarrow> system_policy \<Rightarrow> ident \<Rightarrow> string \<Rightarrow> 'h sys \<Rightarrow> tool_outcome option \<times> 'h sys" where
  "revert_tool ho p ws prefix s =
     (case resolve_change ws prefix (db s) of
        None \<Rightarrow> (Some (failure (''No change matching '' @ py_repr prefix @
                   ''. Use change.list to see recorded changes.'') []), s)
      | Some m \<Rightarrow>
          (case load_change (ch_id m) ws (db s) of
             Inl e \<Rightarrow> (None, s)
           | Inr r \<Rightarrow>
               (case revert_change ho p r ''requested by agent;'' s of
                  (Inl e, s1) \<Rightarrow> (None, s1)
                | (Inr out, s1) \<Rightarrow>
                    (Some \<lparr>to_ok = ro_ok out, to_summary = ro_summary out,
                           to_data = [(''change_id'', JStr (ch_id m)), (''status'', JStr (change_status_text (ro_status out)))]\<rparr>, s1))))"

definition confirm_tool :: "ident \<Rightarrow> ident \<Rightarrow> string \<Rightarrow> 'w sys \<Rightarrow> tool_outcome option \<times> 'w sys" where
  "confirm_tool ws run prefix s =
     (case resolve_change ws prefix (db s) of
        None \<Rightarrow> (Some (failure (''No change matching '' @ py_repr prefix @ ''.'') []), s)
      | Some m \<Rightarrow>
          (case confirm_change (ch_id m) ws (''run:'' @ run) s of
             (Inl e, s1) \<Rightarrow> (None, s1)
           | (Inr o1, s1) \<Rightarrow>
               (Some \<lparr>to_ok = go_ok o1, to_summary = go_summary o1,
                      to_data = [(''change_id'', JStr (ch_id m)), (''status'', JStr (change_status_text (go_status o1)))]\<rparr>, s1)))"

end
