(* ===== verification/Guard_Props.thy ===== *)
theory Guard_Props
  imports Guard
begin

text \<open>
  What the guard promises: its outcome is the outcome in the ledger, a change that does not hold
  is put back, rows stay well-formed, and every operation moves a change along its life cycle.
\<close>

section \<open>The outcome and the ledger\<close>

definition wait_leaves_ledger :: "'h guard_env \<Rightarrow> bool" where
  "wait_leaves_ledger env = (\<forall>t s. changes (db (ge_wait env t s)) = changes (db s))"

lemma waited_changes [simp]: "wait_leaves_ledger env \<Longrightarrow> changes (db (ge_wait env t s)) = changes (db s)"
  by (simp add: wait_leaves_ledger_def)

lemma update_where_last:
  "k \<notin> ch_id ` set rows \<Longrightarrow> update_where (\<lambda>x. ch_id x = k) f (rows @ [r]) = rows @ [if ch_id r = k then f r else r]"
  by (induction rows) (auto simp: update_where_def)

lemma find_last: "k \<notin> ch_id ` set rows \<Longrightarrow> ch_id r = k \<Longrightarrow> find_row ch_id k (rows @ [r]) = Some r"
  by (simp add: find_row_append find_row_None [THEN iffD2])

lemma change_row_sel [simp]:
  "ch_id (change_row k now ws run kind target previous new conds window) = k"
  "ch_kind (change_row k now ws run kind target previous new conds window) = kind"
  "ch_target (change_row k now ws run kind target previous new conds window) = target"
  "ch_previous (change_row k now ws run kind target previous new conds window) = previous"
  "ch_new (change_row k now ws run kind target previous new conds window) = new"
  "ch_status (change_row k now ws run kind target previous new conds window) =
     (if revertible_change kind new then Applied else Unrevertible)"
  "ch_revertible (change_row k now ws run kind target previous new conds window) = revertible_change kind new"
  by (simp_all add: change_row_def Let_def)

text \<open>
  The row \<open>r\<close> as recorded, and as an outcome leaves it: the same change, its status the one the
  outcome reports (except that an unverified change without an inverse is recorded as such).
\<close>

definition recorded_as :: "change_record \<Rightarrow> guard_outcome \<Rightarrow> change_record \<Rightarrow> bool" where
  "recorded_as r o1 r' = (ch_id r' = ch_id r \<and> go_change_id o1 = ch_id r \<and> ch_kind r' = ch_kind r \<and>
     ch_target r' = ch_target r \<and> ch_new r' = ch_new r \<and> ch_previous r' = ch_previous r \<and> change_wf r' \<and>
     ch_status r' = (if go_status o1 = Applied \<and> \<not> ch_revertible r then Unrevertible else go_status o1) \<and>
     go_ok o1 = (go_status o1 \<in> {Applied, Verified}))"

text \<open>Which verdicts lead to which outcome.\<close>

definition judged_by :: "condition list \<Rightarrow> guard_outcome \<Rightarrow> bool" where
  "judged_by conds o1 =
     ((go_status o1 = Applied \<longrightarrow> conds = []) \<and>
      (go_status o1 = Verified \<longrightarrow> conds \<noteq> [] \<and> all_met (go_results o1)) \<and>
      (go_results o1 \<noteq> [] \<longrightarrow> map cn_condition (go_results o1) = conds \<and> (go_ok o1 \<longleftrightarrow> all_met (go_results o1))))"

lemma evaluated_conditions [simp]: "map cn_condition (evaluate_conditions rep w h conds) = conds"
  by (simp add: evaluate_conditions_def comp_def)

lemma undo_recorded:
  assumes "undo_change env p r results s = (Inr o1, s')" and "changes (db s) = rows @ [r]"
    and "ch_id r \<notin> ch_id ` set rows" and "ch_status r = Applied" and "ch_revertible r" and "change_wf r"
  shows "\<exists>r'. changes (db s') = rows @ [r'] \<and> recorded_as r o1 r' \<and> go_results o1 = results \<and>
    go_status o1 \<in> {Reverted, Revert_failed}"
proof -
  have row: "get_change (ch_id r) (db s) = Some r" using assms(2,3) by (simp add: get_change_def find_last)
  then obtain out s1 where rv: "revert_change (ge_host env) p r ''post-conditions failed;'' s = (Inr out, s1)"
    and o1: "o1 = reverted_outcome r (failed_conditions (ge_rep env) results) out results" and db: "db s' = db s1"
    using assms(1) by (auto simp: undo_change_def Let_def split: prod.splits sum.splits)
  obtain detail where "changes (db s1) = update_where (\<lambda>x. ch_id x = ch_id r)
      (mark_settled (if ro_ok out then Reverted else Revert_failed) detail (clock s)) (changes (db s))"
    using revert_change_attempted [OF rv] assms(4,5) by auto
  then have "changes (db s') = rows @ [mark_settled (if ro_ok out then Reverted else Revert_failed) detail (clock s) r]"
    using assms(2,3) db by (simp add: update_where_last)
  then show ?thesis using assms(5,6) by (auto simp: o1 reverted_outcome_def recorded_as_def)
qed

lemma verify_recorded:
  assumes "verify_change env p r summary conds settle window s = (Inr o1, s')" and "changes (db s) = rows @ [r]"
    and "ch_id r \<notin> ch_id ` set rows" and "ch_revertible r \<longrightarrow> ch_status r = Applied" and "change_wf r"
    and "wait_leaves_ledger env" and "conds \<noteq> []"
  shows "(\<exists>r'. changes (db s') = rows @ [r'] \<and> recorded_as r o1 r') \<and> judged_by conds o1 \<and> go_results o1 \<noteq> []"
proof -
  define s1 where "s1 = (if settle \<noteq> 0 then ge_wait env settle s else s)"
  define results where "results = evaluate_conditions (ge_rep env) (ge_watch env) (outside s1) conds"
  have c1: "changes (db s1) = rows @ [r]" using assms(2,6) by (simp add: s1_def)
  have ne: "results \<noteq> []" and cs: "map cn_condition results = conds"
    using assms(7) evaluated_conditions by (auto simp: results_def evaluate_conditions_def [of _ _ _ "_ # _"] neq_Nil_conv)
  note verdict = assms(1) [unfolded verify_change_def Let_def, folded s1_def, folded results_def]
  consider (met) "all_met results" | (stuck) "\<not> all_met results" "\<not> ch_revertible r" | (undone) "\<not> all_met results" "ch_revertible r"
    by blast
  then show ?thesis
  proof cases
    case met
    then show ?thesis using verdict c1 assms(3,5) ne cs
      by (auto simp: update_where_last verified_outcome_def recorded_as_def judged_by_def)
  next
    case stuck
    then show ?thesis using verdict c1 assms(3,5) ne cs
      by (auto simp: update_where_last irreversible_outcome_def recorded_as_def judged_by_def)
  next
    case undone
    with verdict have "undo_change env p r results s1 = (Inr o1, s')" by simp
    from undo_recorded [OF this c1 assms(3)] undone assms(4,5) obtain r' where
      r': "changes (db s') = rows @ [r']" "recorded_as r o1 r'" "go_results o1 = results" "go_status o1 \<in> {Reverted, Revert_failed}"
      by auto
    then show ?thesis using undone ne cs by (auto simp: judged_by_def recorded_as_def)
  qed
qed

lemma carry_out_recorded:
  assumes "carry_out env p r conds settle window s = (Inr o1, s')" and "changes (db s) = rows @ [r]"
    and "ch_id r \<notin> ch_id ` set rows" and "ch_status r = (if ch_revertible r then Applied else Unrevertible)" and "change_wf r"
    and "wait_leaves_ledger env"
  shows "(\<exists>r'. changes (db s') = rows @ [r'] \<and> recorded_as r o1 r') \<and> judged_by conds o1"
proof -
  obtain x s1 where x: "on_host (apply_change (ge_host env) p (ch_kind r) (ch_target r) (ch_new r)) s = (x, s1)"
    by fastforce
  have db1: "db s1 = db s" using on_host_sel(1) [of "apply_change (ge_host env) p (ch_kind r) (ch_target r) (ch_new r)" s] x by simp
  have closed: ?thesis if "s' = settle_change (ch_id r) Reverted detail s1" "o1 = outcome False detail (ch_id r) Reverted [] []" for detail
    using that assms(2,3,5) db1 by (auto simp: update_where_last recorded_as_def judged_by_def)
  consider (refused) u where "x = Inl (Unsafe u)" | (idle) summary where "x = Inr (False, summary)"
    | (applied) summary where "x = Inr (True, summary)"
    using assms(1) x by (auto simp: carry_out_def split: sum.splits op_error.splits prod.splits)
  then show ?thesis
  proof cases
    case refused
    show ?thesis by (rule closed [of "unsafe_text u"]) (use assms(1) x refused in \<open>simp_all add: carry_out_def\<close>)
  next
    case idle
    show ?thesis by (rule closed [of summary]) (use assms(1) x idle in \<open>simp_all add: carry_out_def\<close>)
  next
    case applied
    show ?thesis
    proof (cases "conds = []")
      case True
      then show ?thesis using assms applied x db1
        by (auto simp: carry_out_def Let_def unverified_outcome_def recorded_as_def judged_by_def)
    next
      case False
      then obtain s2 where "verify_change env p r summary conds settle window s2 = (Inr o1, s')" "db s2 = db s"
        using assms(1) applied x db1 by (auto simp: carry_out_def Let_def)
      from verify_recorded [OF this(1) _ assms(3) _ assms(5,6) False] this(2) assms(2,4) show ?thesis by simp
    qed
  qed
qed

text \<open>The steps before the change is carried out: the prior state is read and the row is written.\<close>

lemma apply_guarded_split:
  assumes "apply_guarded env p ws run kind target new_value conds settle after s = (Inr o1, s')"
  shows "\<exists>previous h r s2. read_prior_state (ge_host env) p kind target (outside s) = (Inr previous, h) \<and>
    r = change_row (fresh s) (clock s) ws run kind target previous new_value (map condition_json conds) (clamp_window after) \<and>
    changes (db s2) = changes (db s) @ [r] \<and> outside s2 = h \<and>
    carry_out env p r conds (clamp_settle settle) (clamp_window after) s2 = (Inr o1, s')"
proof -
  obtain previous h where prior: "read_prior_state (ge_host env) p kind target (outside s) = (Inr previous, h)"
    using assms by (auto simp: apply_guarded_def on_host_def Let_def split: prod.splits sum.splits)
  show ?thesis
    using assms prior
    by (intro exI [of _ previous] exI [of _ h] exI conjI)
      (auto simp: apply_guarded_def on_host_def record_change_def fresh_def Let_def)
qed

text \<open>C12.  The guard's word is the ledger's: a guarded change that returns has added exactly one row, with
  the change, the state read before it and the status the outcome reports; it reports success only
  when no post-condition was declared or all of them held, and a verified or settled change has no
  timer left.\<close>

theorem guard_outcome_recorded:
  assumes "apply_guarded env p ws run kind target new_value conds settle after s = (Inr o1, s')"
    and "fresh s \<notin> ch_id ` set (changes (db s))" and "wait_leaves_ledger env"
  shows "(\<exists>r. changes (db s') = changes (db s) @ [r] \<and> ch_id r = go_change_id o1 \<and>
      ch_kind r = kind \<and> ch_target r = target \<and> ch_new r = new_value \<and>
      (\<exists>h. read_prior_state (ge_host env) p kind target (outside s) = (Inr (ch_previous r), h)) \<and>
      ch_status r = (if go_status o1 = Applied \<and> \<not> revertible_change kind new_value then Unrevertible else go_status o1) \<and>
      (ch_expires_at r \<noteq> None \<longrightarrow> ch_status r = Applied)) \<and>
    (go_ok o1 \<longleftrightarrow> go_status o1 \<in> {Applied, Verified}) \<and> judged_by conds o1"
proof -
  obtain previous h r s2 where a: "read_prior_state (ge_host env) p kind target (outside s) = (Inr previous, h)"
    "r = change_row (fresh s) (clock s) ws run kind target previous new_value (map condition_json conds) (clamp_window after)"
    "changes (db s2) = changes (db s) @ [r]"
    "carry_out env p r conds (clamp_settle settle) (clamp_window after) s2 = (Inr o1, s')"
    using apply_guarded_split [OF assms(1)] by blast
  have out: "(\<exists>r'. changes (db s') = changes (db s) @ [r'] \<and> recorded_as r o1 r')" "judged_by conds o1"
    using carry_out_recorded [OF a(4,3)] a(2) assms(2,3) by simp_all
  then obtain r' where r': "changes (db s') = changes (db s) @ [r']" "recorded_as r o1 r'" by blast
  then have "\<exists>r. changes (db s') = changes (db s) @ [r] \<and> ch_id r = go_change_id o1 \<and>
      ch_kind r = kind \<and> ch_target r = target \<and> ch_new r = new_value \<and>
      (\<exists>h. read_prior_state (ge_host env) p kind target (outside s) = (Inr (ch_previous r), h)) \<and>
      ch_status r = (if go_status o1 = Applied \<and> \<not> revertible_change kind new_value then Unrevertible else go_status o1) \<and>
      (ch_expires_at r \<noteq> None \<longrightarrow> ch_status r = Applied)"
    using a(1,2) by (intro exI [of _ r']) (auto simp: recorded_as_def change_wf_def)
  then show ?thesis using r'(2) out(2) by (simp add: recorded_as_def)
qed

section \<open>What is reverted is restored\<close>

text \<open>
  What is relied on of the kernel: a write that fails changes nothing, and a value it has once
  reported for a parameter, when it is accepted, is the value of the parameter.
\<close>

definition kernel_laws :: "'h host \<Rightarrow> bool" where
  "kernel_laws ho =
     ((\<forall>p v h x h'. ho_write ho p v h = (x, h') \<longrightarrow> x \<noteq> Written \<longrightarrow> h' = h) \<and>
      (\<forall>key p v h0 h h'. read_sysctl (ho_io ho) key h0 = Some v \<longrightarrow> sysctl_path key = Some p \<longrightarrow>
         ho_write ho p v h = (Written, h') \<longrightarrow> read_sysctl (ho_io ho) key h' = Some v))"

text \<open>
  What is relied on of the daemon, when the changes go through it: a write that it answers with a
  refusal or a failure leaves the parameter as it was, and one that it answers with success is what
  the parameter then reads, for a value the parameter has once read.
\<close>

definition daemon_laws :: "'h host \<Rightarrow> string \<Rightarrow> bool" where
  "daemon_laws ho socket =
     ((\<forall>key v h e h'. helper_call (ho_socket ho) socket ''SYSCTL_SET'' [key, v] h = (Inr (False, e), h') \<longrightarrow>
         read_sysctl (ho_io ho) key h' = read_sysctl (ho_io ho) key h) \<and>
      (\<forall>key v h0 h e h'. read_sysctl (ho_io ho) key h0 = Some v \<longrightarrow>
         helper_call (ho_socket ho) socket ''SYSCTL_SET'' [key, v] h = (Inr (True, e), h') \<longrightarrow>
         read_sysctl (ho_io ho) key h' = Some v))"

definition backend_laws :: "'h host \<Rightarrow> system_policy \<Rightarrow> bool" where
  "backend_laws ho p = (if sp_backend p = ''helper'' then daemon_laws ho (sp_socket p) else kernel_laws ho)"

lemma write_sysctl_routes:
  assumes "write_sysctl ho p key v h = (x, h')"
  shows "(\<exists>u. x = Inl (Unsafe u)) \<and> h' = h \<or>
    (if sp_backend p = ''helper'' then helper_sysctl_set ho p key v h = (x, h') else write_parameter ho key v h = (x, h'))"
  using assms by (auto simp: write_sysctl_def policy_defs Let_def split: prod.splits if_splits)

lemma helper_sysctl_cases:
  assumes "helper_sysctl_set ho p key v h = (x, h')"
  shows "(\<exists>e. x = Inl (Helper_down e)) \<or>
    (\<exists>ok e r. helper_call (ho_socket ho) (sp_socket p) ''SYSCTL_SET'' [key, v] h = (Inr (ok, e), h') \<and> x = Inr r \<and> op_ok r = ok)"
  using assms by (auto simp: helper_sysctl_set_def split: prod.splits sum.splits if_splits)

lemma write_parameter_cases:
  assumes "write_parameter ho key v h = (x, h')"
  shows "(\<exists>u. x = Inl (Unsafe u)) \<and> h' = h \<or> (\<exists>r. x = Inr r \<and> \<not> op_ok r \<and>
      (h' = h \<or> (\<exists>p y. ho_write ho p v h = (y, h') \<and> y \<noteq> Written))) \<or>
    (\<exists>r p. x = Inr r \<and> op_ok r \<and> sysctl_path key = Some p \<and> ho_write ho p v h = (Written, h'))"
proof (cases "sysctl_path key")
  case None
  then show ?thesis using assms by (auto simp: write_parameter_def)
next
  case (Some p)
  show ?thesis
  proof (cases "io_exists (ho_io ho) p h")
    case False
    then show ?thesis using Some assms by (auto simp: write_parameter_def)
  next
    case True
    obtain y h1 where y: "ho_write ho p v h = (y, h1)" by fastforce
    have "h' = h1 \<and> (\<exists>r. x = Inr r \<and> (op_ok r \<longleftrightarrow> y = Written))"
      using assms Some True y by (cases y) (auto simp: write_parameter_def Let_def)
    then show ?thesis using Some y by blast
  qed
qed

lemma failed_write_inert:
  assumes "write_sysctl ho p key v h = (x, h')" and "backend_laws ho p"
    and "(\<exists>u. x = Inl (Unsafe u)) \<or> (\<exists>r. x = Inr r \<and> \<not> op_ok r)"
  shows "read_sysctl (ho_io ho) key h' = read_sysctl (ho_io ho) key h"
proof (cases "sp_backend p = ''helper''")
  case True
  have "h' = h \<or> (\<exists>e. helper_call (ho_socket ho) (sp_socket p) ''SYSCTL_SET'' [key, v] h = (Inr (False, e), h'))"
    using write_sysctl_routes [OF assms(1)] helper_sysctl_cases [of ho p key v h x h'] assms(3) True by auto
  moreover have "daemon_laws ho (sp_socket p)" using assms(2) True by (simp add: backend_laws_def)
  ultimately show ?thesis unfolding daemon_laws_def by metis
next
  case False
  have "h' = h \<or> (\<exists>q y. ho_write ho q v h = (y, h') \<and> y \<noteq> Written)"
    using write_sysctl_routes [OF assms(1)] write_parameter_cases [of ho key v h x h'] assms(3) False by auto
  moreover have "kernel_laws ho" using assms(2) False by (simp add: backend_laws_def)
  ultimately show ?thesis unfolding kernel_laws_def by metis
qed

lemma accepted_write_restores:
  assumes "write_sysctl ho p key v h = (Inr r, h')" and "op_ok r" and "backend_laws ho p"
    and "read_sysctl (ho_io ho) key h0 = Some v"
  shows "read_sysctl (ho_io ho) key h' = Some v"
proof (cases "sp_backend p = ''helper''")
  case True
  have "\<exists>e. helper_call (ho_socket ho) (sp_socket p) ''SYSCTL_SET'' [key, v] h = (Inr (True, e), h')"
    using write_sysctl_routes [OF assms(1)] helper_sysctl_cases [of ho p key v h "Inr r" h'] assms(2) True by auto
  moreover have "daemon_laws ho (sp_socket p)" using assms(3) True by (simp add: backend_laws_def)
  ultimately show ?thesis using assms(4) unfolding daemon_laws_def by metis
next
  case False
  have "\<exists>q. sysctl_path key = Some q \<and> ho_write ho q v h = (Written, h')"
    using write_sysctl_routes [OF assms(1)] write_parameter_cases [of ho key v h "Inr r" h'] assms(2) False by auto
  moreover have "kernel_laws ho" using assms(3) False by (simp add: backend_laws_def)
  ultimately show ?thesis using assms(4) unfolding kernel_laws_def by metis
qed

lemma reverted_row_restored:
  assumes "revert_change ho p r reason s = (Inr out, s')" and "ro_ok out" and "ch_status r = Applied" and "ch_kind r = Sysctl"
    and "backend_laws ho p" and "ch_previous r = read_sysctl (ho_io ho) (ch_target r) h0"
    and "ch_revertible r"
  shows "read_sysctl (ho_io ho) (ch_target r) (outside s') = read_sysctl (ho_io ho) (ch_target r) h0"
proof -
  obtain x h1 where x: "apply_inverse ho p r (outside s) = (x, h1)" by fastforce
  have "(\<exists>summary. x = Inr (True, summary)) \<and> outside s' = h1"
    using assms(1,2,3,7) x
    by (auto simp: revert_change_def on_host_def write_revert_def Let_def split: prod.splits sum.splits op_error.splits)
  then obtain summary where ok: "apply_inverse ho p r (outside s) = (Inr (True, summary), h1)" and s': "outside s' = h1"
    using x by auto
  then obtain v where v: "ch_previous r = Some v" using assms(4) by (auto simp: apply_inverse_def split: option.splits)
  then obtain res where "write_sysctl ho p (ch_target r) v (outside s) = (Inr res, h1)" "op_ok res"
    using ok assms(4) by (auto simp: apply_inverse_def summarised_def split: prod.splits sum.splits)
  then show ?thesis using accepted_write_restores assms(5,6) v s' by metis
qed

lemma carry_out_restored:
  assumes "carry_out env p r conds settle window s = (Inr o1, s')" and "changes (db s) = rows @ [r]"
    and "ch_id r \<notin> ch_id ` set rows" and "ch_status r = Applied" and "ch_revertible r"
    and "wait_leaves_ledger env" and "go_status o1 = Reverted" and "ch_kind r = Sysctl"
    and "backend_laws (ge_host env) p" and "ch_previous r = read_sysctl (ho_io (ge_host env)) (ch_target r) (outside s)"
  shows "read_sysctl (ho_io (ge_host env)) (ch_target r) (outside s') = read_sysctl (ho_io (ge_host env)) (ch_target r) (outside s)"
proof -
  let ?read = "read_sysctl (ho_io (ge_host env)) (ch_target r)"
  obtain x h1 where x: "write_sysctl (ge_host env) p (ch_target r) (ch_new r) (outside s) = (x, h1)" by fastforce
  show ?thesis
  proof (cases "\<exists>res. x = Inr res \<and> op_ok res")
    case False
    then have "outside s' = h1 \<and> ((\<exists>u. x = Inl (Unsafe u)) \<or> (\<exists>r. x = Inr r \<and> \<not> op_ok r))" using assms(1,8) x
      by (auto simp: carry_out_def on_host_def apply_change_def summarised_def Let_def
          split: sum.splits op_error.splits prod.splits if_splits)
    then show ?thesis using failed_write_inert [OF x assms(9)] by simp
  next
    case True
    then obtain res where res: "x = Inr res" "op_ok res" by blast
    have "conds \<noteq> []"
      using assms(1,7,8) x res by (auto simp: carry_out_def on_host_def apply_change_def summarised_def unverified_outcome_def)
    then obtain s2 where s2: "verify_change env p r (op_summary res) conds settle window s2 = (Inr o1, s')" "db s2 = db s"
      using assms(1,8) x res by (auto simp: carry_out_def on_host_def apply_change_def summarised_def Let_def)
    define s3 where "s3 = (if settle \<noteq> 0 then ge_wait env settle s2 else s2)"
    have c3: "changes (db s3) = rows @ [r]" using s2(2) assms(2,6) by (simp add: s3_def)
    obtain results where "undo_change env p r results s3 = (Inr o1, s')"
      using s2(1) assms(5,7)
      by (auto simp: verify_change_def Let_def s3_def verified_outcome_def split: if_splits)
    moreover have "get_change (ch_id r) (db s3) = Some r" using c3 assms(3) by (simp add: get_change_def find_last)
    ultimately obtain out s4 where rv: "revert_change (ge_host env) p r ''post-conditions failed;'' s3 = (Inr out, s4)"
      "ro_ok out" "outside s' = outside s4"
      using assms(7) by (auto simp: undo_change_def Let_def reverted_outcome_def split: prod.splits sum.splits if_splits)
    show ?thesis using reverted_row_restored [OF rv(1,2) assms(4,8,9,10,5)] rv(3) by simp
  qed
qed

text \<open>C11.  What is reported as reverted is restored: when a guarded change of a kernel parameter ends as
  reverted, whether it was refused, failed or did not pass its verification, and whatever else
  happened on the host during the settle window, the parameter reads as it did before; with the
  direct backend and with the privileged daemon, whose laws the model of the daemon is shown to
  keep (\<open>daemon_keeps_laws\<close>).\<close>

theorem reverted_means_restored:
  assumes "apply_guarded env p ws run Sysctl target new_value conds settle after s = (Inr o1, s')"
    and "go_status o1 = Reverted" and "backend_laws (ge_host env) p"
    and "fresh s \<notin> ch_id ` set (changes (db s))" and "wait_leaves_ledger env"
  shows "read_sysctl (ho_io (ge_host env)) target (outside s') = read_sysctl (ho_io (ge_host env)) target (outside s)"
proof -
  obtain previous h r s2 where a: "read_prior_state (ge_host env) p Sysctl target (outside s) = (Inr previous, h)"
    "r = change_row (fresh s) (clock s) ws run Sysctl target previous new_value (map condition_json conds) (clamp_window after)"
    "changes (db s2) = changes (db s) @ [r]" "outside s2 = h"
    "carry_out env p r conds (clamp_settle settle) (clamp_window after) s2 = (Inr o1, s')"
    using apply_guarded_split [OF assms(1)] by blast
  have h: "h = outside s" "previous = read_sysctl (ho_io (ge_host env)) target (outside s)"
    using a(1) by (auto simp: read_prior_state_def)
  show ?thesis
    using carry_out_restored [OF a(5,3)] a(2,4) h assms(2-5) by (simp add: revertible_change_def)
qed

section \<open>A change that cannot be verified\<close>

text \<open>The settle window of the demo lets another client fill the parameter with something else.\<close>

definition demo_env :: "files guard_env" where
  "demo_env = \<lparr>ge_host = file_host, ge_watch = \<lparr>wa_io = ho_io file_host, wa_unit = (\<lambda>unit h. No_such_tool), wa_value_error = []\<rparr>,
     ge_rep = (\<lambda>_. []), ge_wait = (\<lambda>t s. s\<lparr>outside := [(swap_path, ''99'')]\<rparr>)\<rparr>"

definition port_open :: condition where
  "port_open = \<lparr>cd_probe = PORT_LISTENING, cd_operator = EQ, cd_value = JBool True, cd_target = []\<rparr>"

lemma port_open_unmet: "\<not> all_met (evaluate_conditions rep w h [port_open])"
  by (simp add: all_met_def evaluate_conditions_def evaluate_one_met observe_def needs_target_def port_open_def)

lemma file_host_laws: "kernel_laws file_host"
proof -
  have strip_fix: "strip (take 8192 v) = v \<and> v \<noteq> []" if v: "read_sysctl (ho_io file_host) key h = Some v" for key h v
  proof -
    have "\<exists>t. v = strip (take 8192 t) \<and> v \<noteq> []"
      using v by (auto simp: read_sysctl_def file_host_def read_text_def text_or_empty_def Let_def
          split: option.splits if_splits)
    then obtain t where t: "v = strip (take 8192 t)" "v \<noteq> []" by blast
    have "length v \<le> 8192" using length_strip [of "take 8192 t"] t(1) by simp
    then show ?thesis using t by simp
  qed
  have "read_sysctl (ho_io file_host) key (AList.update p v h) = Some v"
    if "read_sysctl (ho_io file_host) key h0 = Some v" "sysctl_path key = Some p" for key p v h0 h
    using that(2) strip_fix [OF that(1)]
    by (simp add: read_sysctl_def read_text_def text_or_empty_def file_host_def update_conv' Let_def)
  then show ?thesis by (simp add: kernel_laws_def file_host_def)
qed
lemma demo_env_sel [simp]: "ge_host demo_env = file_host" "wait_leaves_ledger demo_env"
  by (simp_all add: demo_env_def wait_leaves_ledger_def)

definition demo_guarded :: "(op_error option + guard_outcome) \<times> files sys" where
  "demo_guarded = apply_guarded demo_env open_policy ''w1'' None Sysctl ''vm.swappiness'' ''10'' [port_open] 1 None guard_state"

definition demo_row :: "condition list \<Rightarrow> real option \<Rightarrow> change_record" where
  "demo_row conds after = change_row (fresh guard_state) 0 ''w1'' None Sysctl ''vm.swappiness'' (Some ''60'') ''10''
     (map condition_json conds) (clamp_window after)"

lemma demo_row_sel [simp]:
  "ch_id (demo_row conds after) = fresh guard_state" "ch_kind (demo_row conds after) = Sysctl"
  "ch_target (demo_row conds after) = ''vm.swappiness''" "ch_previous (demo_row conds after) = Some ''60''"
  "ch_new (demo_row conds after) = ''10''" "ch_status (demo_row conds after) = Applied" "ch_revertible (demo_row conds after)"
  by (simp_all add: demo_row_def revertible_change_def)

text \<open>Up to the verification, the demo change is the same in every environment.\<close>

lemma demo_applied:
  assumes host: "ge_host env = file_host" and "conds \<noteq> []"
  shows "\<exists>summary s4. apply_guarded env open_policy ''w1'' None Sysctl ''vm.swappiness'' ''10'' conds settle after guard_state =
      verify_change env open_policy (demo_row conds after) summary conds (clamp_settle settle) (clamp_window after) s4 \<and>
    changes (db s4) = [demo_row conds after] \<and> clock s4 = 0 \<and> outside s4 = [(swap_path, ''10'')]"
proof -
  obtain r1 where r1: "write_sysctl file_host open_policy ''vm.swappiness'' ''10'' [(swap_path, ''60'')] = (Inr r1, [(swap_path, ''10'')])" "op_ok r1"
    using demo_write [of "[(swap_path, ''60'')]" "''10''"] by auto
  have sixty: "strip ''60'' = ''60''" by code_simp
  have prior: "read_prior_state file_host open_policy Sysctl ''vm.swappiness'' (outside guard_state) = (Inr (Some ''60''), outside guard_state)"
    by (simp add: read_prior_state_def demo_read guard_state_def sixty)
  have same: "guard_state\<lparr>outside := outside guard_state\<rparr> = guard_state" "clock guard_state = 0" by (simp_all add: guard_state_def)
  let ?s2 = "use_id (on_changes (\<lambda>rows. rows @ [demo_row conds after]) guard_state)"
  have out: "outside ?s2 = [(swap_path, ''60'')]" by (simp add: guard_state_def)
  define s3 where "s3 = change_event (ch_workspace (demo_row conds after)) (ch_run (demo_row conds after)) CHANGE_APPLIED
      [(''change_id'', JStr (fresh guard_state)), (''kind'', JStr (kind_text Sysctl)),
       (''target'', JStr ''vm.swappiness''), (''value'', JStr ''10'')] (?s2\<lparr>outside := [(swap_path, ''10'')]\<rparr>)"
  have "apply_guarded env open_policy ''w1'' None Sysctl ''vm.swappiness'' ''10'' conds settle after guard_state =
      carry_out env open_policy (demo_row conds after) conds (clamp_settle settle) (clamp_window after) ?s2"
    by (simp add: apply_guarded_def on_host_def host prior record_change_def same demo_row_def Let_def)
  also have "\<dots> = verify_change env open_policy (demo_row conds after) (op_summary r1) conds (clamp_settle settle) (clamp_window after) s3"
    using r1 out assms(2) by (simp add: carry_out_def on_host_def apply_change_def summarised_def host Let_def s3_def)
  finally have "apply_guarded env open_policy ''w1'' None Sysctl ''vm.swappiness'' ''10'' conds settle after guard_state =
      verify_change env open_policy (demo_row conds after) (op_summary r1) conds (clamp_settle settle) (clamp_window after) s3" .
  moreover have "changes (db s3) = [demo_row conds after]" "clock s3 = 0" "outside s3 = [(swap_path, ''10'')]"
    by (simp_all add: s3_def guard_state_def empty_database_def)
  ultimately show ?thesis by blast
qed

text \<open>Putting the parameter back works whatever it holds.\<close>

lemma demo_revert:
  "outside s = [(swap_path, v)] \<Longrightarrow> r = demo_row conds after \<Longrightarrow> changes (db s) = [r] \<Longrightarrow>
   \<exists>out s'. revert_change file_host open_policy r reason s = (Inr out, s') \<and> ro_ok out \<and> outside s' = [(swap_path, ''60'')] \<and>
     map (\<lambda>x. (ch_id x, ch_new x)) (changes (db s')) = [(ch_id r, ''10'')]"
  using demo_write [of "[(swap_path, v)]" "''60''"]
  by (auto simp: revert_change_def on_host_def apply_inverse_def summarised_def write_revert_def Let_def)

lemma demo_guarded_reverts: "\<exists>o1 s'. demo_guarded = (Inr o1, s') \<and> go_status o1 = Reverted \<and> map_of (outside s') swap_path = Some ''60''"
proof -
  have clamp: "clamp_settle 1 = 1" by (simp add: clamp_settle_def max_settle_seconds_def)
  let ?r = "demo_row [port_open] None"
  obtain summary s4 where s4: "demo_guarded = verify_change demo_env open_policy ?r summary [port_open] 1 (clamp_window None) s4"
    "changes (db s4) = [?r]"
    using demo_applied [of demo_env "[port_open]" 1 None] by (auto simp: demo_guarded_def clamp)
  let ?s5 = "ge_wait demo_env 1 s4"
  have s5: "changes (db ?s5) = [?r]" "outside ?s5 = [(swap_path, ''99'')]" using s4(2) by (simp_all add: demo_env_def)
  obtain results where und: "demo_guarded = undo_change demo_env open_policy ?r results ?s5"
    using s4(1) by (simp add: verify_change_def Let_def port_open_unmet)
  have row: "get_change (ch_id ?r) (db ?s5) = Some ?r" using s5(1) by (simp add: get_change_def)
  obtain out s6 where "revert_change file_host open_policy ?r ''post-conditions failed;'' ?s5 = (Inr out, s6)" "ro_ok out"
    "outside s6 = [(swap_path, ''60'')]"
    using demo_revert [OF s5(2) refl s5(1)] by blast
  then show ?thesis unfolding und undo_change_def row by (simp add: Let_def reverted_outcome_def)
qed

lemma demo_fresh: "fresh guard_state \<notin> ch_id ` set (changes (db guard_state))"
  by (simp add: guard_state_def empty_database_def)

theorem reverted_means_restored_witness:
  "read_sysctl (ho_io file_host) ''vm.swappiness'' (outside (snd demo_guarded)) =
   read_sysctl (ho_io file_host) ''vm.swappiness'' (outside guard_state)"
proof -
  obtain o1 s' where "demo_guarded = (Inr o1, s')" "go_status o1 = Reverted" using demo_guarded_reverts by blast
  then show ?thesis
    using reverted_means_restored [of demo_env open_policy "''w1''" None "''vm.swappiness''" "''10''" "[port_open]" 1 None guard_state o1 s']
      demo_fresh file_host_laws by (simp add: demo_guarded_def backend_laws_def open_policy_def default_policy_def)
qed

theorem guard_outcome_recorded_witness:
  "\<exists>o1 r. fst demo_guarded = Inr o1 \<and> \<not> go_ok o1 \<and> changes (db (snd demo_guarded)) = [r] \<and> ch_status r = Reverted \<and>
     ch_expires_at r = None"
proof -
  obtain o1 s' where g: "demo_guarded = (Inr o1, s')" "go_status o1 = Reverted" using demo_guarded_reverts by blast
  have "changes (db guard_state) = []" by (simp add: guard_state_def empty_database_def)
  then show ?thesis
    using guard_outcome_recorded [of demo_env open_policy "''w1''" None Sysctl "''vm.swappiness''" "''10''" "[port_open]" 1 None guard_state o1 s']
      demo_fresh g by (auto simp: demo_guarded_def)
qed

end
