(* ===== verification/Ledger_Life.thy ===== *)
theory Ledger_Life
  imports Guard_Props
begin

text \<open>
  The life cycle of a change, as a machine on statuses alone, and the operations of the ledger and
  the guard as refinements of it: each is a path of the machine, and the rows stay well-formed.
\<close>

section \<open>The abstract life cycle\<close>

type_synonym life = "ident \<Rightarrow> change_status option"

fun life_edge :: "change_status \<Rightarrow> change_status \<Rightarrow> bool" where
  "life_edge Applied st = (st \<in> {Verified, Confirmed, Reverted, Revert_failed})"
| "life_edge Unrevertible st = (st \<in> {Unrevertible, Verified, Confirmed, Reverted})"
| "life_edge Verified st = (st \<in> {Confirmed, Reverted, Revert_failed})"
| "life_edge Revert_failed st = (st \<in> {Reverted, Revert_failed})"
| "life_edge Confirmed st = (st = Confirmed)"
| "life_edge Reverted st = False"

inductive life_step :: "life \<Rightarrow> life \<Rightarrow> bool" where
  enter: "m k = None \<Longrightarrow> st \<in> {Applied, Unrevertible} \<Longrightarrow> life_step m (m(k \<mapsto> st))"
| move: "m k = Some a \<Longrightarrow> life_edge a st \<Longrightarrow> life_step m (m(k \<mapsto> st))"

inductive_cases life_stepE: "life_step m m'"

text \<open>A reverted change stays reverted, a confirmed one confirmed.\<close>

interpretation reverted: state_machine life_step "\<lambda>m. m k = Some Reverted" for k
  by unfold_locales (auto elim!: life_stepE)

interpretation kept_change: state_machine life_step "\<lambda>m. m k = Some Confirmed" for k
  by unfold_locales (auto elim!: life_stepE)

definition life_of :: "'w sys \<Rightarrow> life" where
  "life_of s k = map_option ch_status (get_change k (db s))"

section \<open>One row at a time\<close>

text \<open>The table unchanged, or one row of it settled along an edge.\<close>

definition row_moved :: "change_record \<Rightarrow> 'w sys \<Rightarrow> 'w sys \<Rightarrow> bool" where
  "row_moved r s s' = (changes (db s') = changes (db s) \<or>
     (\<exists>st detail now. life_edge (ch_status r) st \<and> (st = Unrevertible \<longrightarrow> \<not> ch_revertible r) \<and>
        changes (db s') = update_where (\<lambda>x. ch_id x = ch_id r) (mark_settled st detail now) (changes (db s))))"

lemma life_same: "changes (db s') = changes (db s) \<Longrightarrow> life_of s' = life_of s"
  by (simp add: life_of_def get_change_def fun_eq_iff)

lemma life_settled:
  assumes "get_change (ch_id r) (db s) = Some r"
    and "changes (db s') = update_where (\<lambda>x. ch_id x = ch_id r) (mark_settled st detail now) (changes (db s))"
  shows "life_of s' = (life_of s)(ch_id r \<mapsto> st)"
proof
  fix k
  have row: "find_row ch_id (ch_id r) (changes (db s)) = Some r" using assms(1) by (simp add: get_change_def)
  show "life_of s' k = ((life_of s)(ch_id r \<mapsto> st)) k"
  proof (cases "k = ch_id r")
    case True
    then show ?thesis unfolding life_of_def get_change_def assms(2) by (simp add: row)
  next
    case False
    then show ?thesis unfolding life_of_def get_change_def assms(2) by (simp add: find_row_update_other)
  qed
qed

lemma row_moved_life:
  assumes "row_moved r s s'" and "get_change (ch_id r) (db s) = Some r"
  shows "life_step\<^sup>*\<^sup>* (life_of s) (life_of s')"
proof (cases "changes (db s') = changes (db s)")
  case True
  show ?thesis unfolding life_same [OF True] by (rule rtranclp.rtrancl_refl)
next
  case False
  with assms(1) obtain st detail now where st: "life_edge (ch_status r) st"
    "changes (db s') = update_where (\<lambda>x. ch_id x = ch_id r) (mark_settled st detail now) (changes (db s))"
    unfolding row_moved_def by blast
  have "life_of s (ch_id r) = Some (ch_status r)" using assms(2) by (simp add: life_of_def)
  then have "life_step (life_of s) (life_of s')"
    using life_settled [OF assms(2) st(2)] st(1) by (simp add: life_step.move)
  then show ?thesis by blast
qed

lemma wf_settled_row:
  assumes "ledger_wf s" and "get_change (ch_id r) (db s) = Some r" and "st = Unrevertible \<longrightarrow> \<not> ch_revertible r"
    and "changes (db s') = update_where (\<lambda>x. ch_id x = ch_id r) (mark_settled st detail now) (changes (db s))"
  shows "ledger_wf s'"
proof -
  have key: "keyed ch_id (changes (db s))" using assms(1) by (simp add: ledger_wf_def)
  have "change_wf y" if "y \<in> set (changes (db s'))" for y
  proof -
    have "y \<in> (\<lambda>x. if ch_id x = ch_id r then mark_settled st detail now x else x) ` set (changes (db s))"
      using that assms(4) by (simp add: update_where_def)
    then obtain x where x: "x \<in> set (changes (db s))" "y = (if ch_id x = ch_id r then mark_settled st detail now x else x)"
      by (elim imageE) simp
    have "x = r" if "ch_id x = ch_id r"
      using find_row_unique [OF key x(1)] that assms(2) by (simp add: get_change_def)
    then show ?thesis using x assms(1,3) by (auto simp: ledger_wf_def list_all_iff)
  qed
  then show ?thesis using key assms(4) by (simp add: ledger_wf_def list_all_iff)
qed

lemma row_moved_wf:
  "row_moved r s s' \<Longrightarrow> get_change (ch_id r) (db s) = Some r \<Longrightarrow> ledger_wf s \<Longrightarrow> ledger_wf s'"
  unfolding row_moved_def by (elim disjE exE conjE) (simp add: ledger_wf_def, blast intro: wf_settled_row)

section \<open>The operations\<close>

lemma get_change_row: "get_change k (db s) = Some r \<Longrightarrow> ledger_wf s \<Longrightarrow> change_wf r \<and> ch_id r = k"
  by (auto simp: get_change_def ledger_wf_def list_all_iff dest: find_row_Some)

lemma revert_moves:
  assumes "revert_change ho p r reason s = (x, s')" and "change_wf r"
  shows "row_moved r s s'"
proof (cases x)
  case (Inl e)
  obtain y s1 where y: "on_host (apply_inverse ho p r) s = (y, s1)" by fastforce
  then have "db s1 = db s" using on_host_sel(1) [of "apply_inverse ho p r" s] by simp
  then have "db s' = db s" using assms(1) Inl y
    by (auto simp: revert_change_def split: prod.splits sum.splits op_error.splits if_splits)
  then show ?thesis by (simp add: row_moved_def)
next
  case (Inr out)
  show ?thesis
  proof (cases "ch_status r \<in> {Reverted, Confirmed} \<or> \<not> ch_revertible r")
    case True
    then have "s' = s" using assms(1) by (auto simp: revert_change_def split: if_splits)
    then show ?thesis by (simp add: row_moved_def)
  next
    case False
    then have "life_edge (ch_status r) Reverted" "life_edge (ch_status r) Revert_failed"
      using assms(2) by (cases "ch_status r"; simp add: change_wf_def)+
    then show ?thesis using revert_change_attempted [of ho p r reason s out s'] assms(1) Inr False
      unfolding row_moved_def by (metis change_status.distinct(30) change_status.distinct(28))
  qed
qed

lemma confirm_moves:
  assumes "confirm_change k ws w s = (x, s')" and "ledger_wf s"
  shows "s' = s \<or> (\<exists>r. get_change (ch_id r) (db s) = Some r \<and> row_moved r s s')"
proof (cases "load_change k ws (db s)")
  case (Inr r)
  then have r: "get_change k (db s) = Some r" by (auto simp: load_change_def split: option.splits if_splits)
  have k: "ch_id r = k" using get_change_row [OF r assms(2)] by simp
  show ?thesis
  proof (cases "ch_status r \<in> {Reverted, Revert_failed}")
    case False
    then have "life_edge (ch_status r) Confirmed" by (cases "ch_status r") simp_all
    moreover have "changes (db s') = update_where (\<lambda>x. ch_id x = ch_id r)
        (mark_settled Confirmed (''confirmed by '' @ w) (clock s)) (changes (db s))"
      using assms(1) Inr False k by (auto simp: confirm_change_def confirmed_row_def)
    ultimately have "row_moved r s s'" unfolding row_moved_def by blast
    then show ?thesis using r k by blast
  qed (use assms(1) Inr in \<open>auto simp: confirm_change_def\<close>)
qed (use assms in \<open>simp add: confirm_change_def\<close>)

lemma sweep_moves:
  assumes "revert_each ho p rs s = (x, s')" and "ledger_wf s" and "distinct (map ch_id rs)"
    and "\<forall>r\<in>set rs. get_change (ch_id r) (db s) = Some r"
  shows "life_step\<^sup>*\<^sup>* (life_of s) (life_of s') \<and> ledger_wf s'"
  using assms
proof (induction rs arbitrary: s x)
  case (Cons r rs)
  obtain y s1 where one: "revert_change ho p r ''confirmation window elapsed;'' s = (y, s1)" by fastforce
  have row: "get_change (ch_id r) (db s) = Some r" using Cons.prems(4) by simp
  have moved: "row_moved r s s1" using revert_moves [OF one] get_change_row [OF row Cons.prems(2)] by simp
  have first: "life_step\<^sup>*\<^sup>* (life_of s) (life_of s1)" "ledger_wf s1"
    using row_moved_life [OF moved row] row_moved_wf [OF moved row Cons.prems(2)] .
  show ?case
  proof (cases y)
    case (Inl e)
    then show ?thesis using one first Cons.prems(1) by simp
  next
    case (Inr out)
    then obtain z where rest: "revert_each ho p rs s1 = (z, s')"
      using one Cons.prems(1) by (auto split: prod.splits sum.splits)
    have "get_change (ch_id q) (db s1) = Some q" if "q \<in> set rs" for q
    proof -
      have "ch_id r \<notin> ch_id ` set rs" using Cons.prems(3) by simp
      then have "ch_id q \<noteq> ch_id r" using that by (metis imageI)
      then have "get_change (ch_id q) (db s1) = get_change (ch_id q) (db s)"
        using moved by (auto simp: row_moved_def get_change_def find_row_update_other)
      then show ?thesis using that Cons.prems(4) by simp
    qed
    then show ?thesis using Cons.IH [OF rest first(2)] Cons.prems(3) first(1) by fastforce
  qed
qed simp

text \<open>A guarded change: the row enters the table, then moves at most once.\<close>

lemma closed_moves:
  assumes "s' = settle_change (ch_id r) st detail s1" and "changes (db s1) = changes (db s)"
    and "life_edge (ch_status r) st" and "st = Unrevertible \<longrightarrow> \<not> ch_revertible r"
  shows "row_moved r s s'"
  using assms by (auto simp: row_moved_def)

lemma verify_moves:
  assumes "verify_change env p r summary conds settle window s = (x, s')" and "get_change (ch_id r) (db s) = Some r"
    and "change_wf r" and "ch_status r = (if ch_revertible r then Applied else Unrevertible)" and "wait_leaves_ledger env"
  shows "row_moved r s s'"
proof -
  define s1 where "s1 = (if settle \<noteq> 0 then ge_wait env settle s else s)"
  define results where "results = evaluate_conditions (ge_rep env) (ge_watch env) (outside s1) conds"
  have c1: "changes (db s1) = changes (db s)" using assms(5) by (simp add: s1_def)
  note verdict = assms(1) [unfolded verify_change_def Let_def, folded s1_def, folded results_def]
  consider (met) "all_met results" | (stuck) "\<not> all_met results" "\<not> ch_revertible r" | (undone) "\<not> all_met results" "ch_revertible r"
    by blast
  then show ?thesis
  proof cases
    case met
    then have "db s' = db (settle_change (ch_id r) Verified ''post-conditions held'' s1)" using verdict by auto
    then show ?thesis using closed_moves [OF refl c1, of r Verified "''post-conditions held''"] assms(4)
      by (simp add: row_moved_def)
  next
    case stuck
    then have "s' = settle_change (ch_id r) Unrevertible (''unverified: '' @ failed_conditions (ge_rep env) results) s1"
      using verdict by simp
    from closed_moves [OF this c1] show ?thesis using assms(4) stuck by simp
  next
    case undone
    have "get_change (ch_id r) (db s1) = Some r" using assms(2) c1 by (simp add: get_change_def)
    then obtain y s2 where "revert_change (ge_host env) p r ''post-conditions failed;'' s1 = (y, s2)" "db s' = db s2"
      using verdict undone
      by (cases "revert_change (ge_host env) p r ''post-conditions failed;'' s1")
        (auto simp: undo_change_def Let_def split: sum.splits)
    from revert_moves [OF this(1) assms(3)] this(2) c1 show ?thesis by (simp add: row_moved_def)
  qed
qed

lemma carry_out_moves:
  assumes "carry_out env p r conds settle window s = (x, s')" and "get_change (ch_id r) (db s) = Some r"
    and "change_wf r" and "ch_status r = (if ch_revertible r then Applied else Unrevertible)" and "wait_leaves_ledger env"
  shows "row_moved r s s'"
proof -
  obtain y s1 where y: "on_host (apply_change (ge_host env) p (ch_kind r) (ch_target r) (ch_new r)) s = (y, s1)"
    by fastforce
  have db1: "db s1 = db s" using on_host_sel(1) [of "apply_change (ge_host env) p (ch_kind r) (ch_target r) (ch_new r)" s] y by simp
  have edge: "life_edge (ch_status r) Reverted" using assms(4) by simp
  consider (refused) u where "y = Inl (Unsafe u)" | (escaped) e where "y = Inl e" "\<forall>u. e \<noteq> Unsafe u"
    | (idle) summary where "y = Inr (False, summary)" | (applied) summary where "y = Inr (True, summary)"
    by (metis obj_sumE prod.exhaust)
  then show ?thesis
  proof cases
    case refused
    then have "s' = settle_change (ch_id r) Reverted (unsafe_text u) s1" using assms(1) y by (simp add: carry_out_def)
    from closed_moves [OF this] db1 edge show ?thesis by simp
  next
    case escaped
    then have "s' = s1" using assms(1) y by (cases e) (simp_all add: carry_out_def)
    then show ?thesis using db1 by (simp add: row_moved_def)
  next
    case idle
    then have "s' = settle_change (ch_id r) Reverted summary s1" using assms(1) y by (simp add: carry_out_def)
    from closed_moves [OF this] db1 edge show ?thesis by simp
  next
    case applied
    show ?thesis
    proof (cases "conds = []")
      case True
      then have "db s' = db s" using assms(1) y applied db1 by (auto simp: carry_out_def Let_def)
      then show ?thesis by (simp add: row_moved_def)
    next
      case False
      then obtain s2 where "verify_change env p r summary conds settle window s2 = (x, s')" "db s2 = db s"
        using assms(1) y applied db1 by (auto simp: carry_out_def Let_def)
      then show ?thesis using verify_moves [of env p r summary conds settle window s2 x s'] assms(2-5)
        by (simp add: row_moved_def)
    qed
  qed
qed

lemma apply_guarded_moves:
  assumes "apply_guarded env p ws run kind target new_value conds settle after s = (x, s')"
    and "fresh s \<notin> ch_id ` set (changes (db s))" and "wait_leaves_ledger env" and "ledger_wf s"
  shows "life_step\<^sup>*\<^sup>* (life_of s) (life_of s') \<and> ledger_wf s'"
proof -
  obtain y h where prior: "read_prior_state (ge_host env) p kind target (outside s) = (y, h)" by fastforce
  show ?thesis
  proof (cases y)
    case (Inl e)
    then have "changes (db s') = changes (db s)" using assms(1) prior by (auto simp: apply_guarded_def on_host_def Let_def)
    then show ?thesis using assms(4) life_same [of s' s] by (simp add: ledger_wf_def)
  next
    case (Inr previous)
    define r where "r = change_row (fresh s) (clock s) ws run kind target previous new_value (map condition_json conds) (clamp_window after)"
    define s2 where "s2 = use_id (on_changes (\<lambda>rows. rows @ [r]) (s\<lparr>outside := h\<rparr>))"
    have s2: "changes (db s2) = changes (db s) @ [r]"
      "carry_out env p r conds (clamp_settle settle) (clamp_window after) s2 = (x, s')"
      using assms(1) prior Inr
      by (simp_all add: apply_guarded_def on_host_def record_change_def fresh_def Let_def r_def s2_def)
    have row: "get_change (ch_id r) (db s2) = Some r" using s2(1) assms(2) by (simp add: get_change_def find_last r_def)
    have wf: "ledger_wf s2" using assms(2,4) s2(1) by (auto simp: ledger_wf_def keyed_def r_def)
    have moved: "row_moved r s2 s'" using carry_out_moves [OF s2(2) row _ _ assms(3)] by (simp add: r_def)
    have none: "find_row ch_id (fresh s) (changes (db s)) = None" using assms(2) by (simp add: find_row_None)
    have "life_of s (fresh s) = None" by (simp add: life_of_def get_change_def none)
    moreover have "life_of s2 = (life_of s)(fresh s \<mapsto> ch_status r)"
      unfolding life_of_def get_change_def fun_eq_iff s2(1)
      by (auto simp: find_row_append r_def none split: option.splits)
    ultimately have "life_step (life_of s) (life_of s2)" by (simp add: life_step.enter r_def)
    then show ?thesis using row_moved_life [OF moved row] row_moved_wf [OF moved row wf]
      by (meson converse_rtranclp_into_rtranclp)
  qed
qed

lemma late_fresh: "fresh late_state \<notin> ch_id ` set (changes (db late_state))"
  by (simp add: late_state_def late_change_def guard_state_def fresh_def new_id_def)

section \<open>The refinement\<close>

lemma sweep_path:
  assumes "revert_expired_changes ho p s = (x, s')" and "ledger_wf s"
  shows "life_step\<^sup>*\<^sup>* (life_of s) (life_of s') \<and> ledger_wf s'"
proof -
  let ?due = "filter (due_change (clock s)) (changes (db s))"
  have key: "keyed ch_id (changes (db s))" using assms(2) by (simp add: ledger_wf_def)
  have "distinct (map ch_id ?due)" using key by (simp add: keyed_def distinct_map_filter)
  moreover have "\<forall>r\<in>set ?due. get_change (ch_id r) (db s) = Some r"
    using find_row_unique [OF key] by (simp add: get_change_def)
  moreover obtain y s1 where run: "revert_each ho p ?due s = (y, s1)" by fastforce
  ultimately have path: "life_step\<^sup>*\<^sup>* (life_of s) (life_of s1) \<and> ledger_wf s1"
    using sweep_moves [OF run assms(2)] by blast
  show ?thesis
  proof (cases y)
    case (Inl e)
    then have "changes (db s') = changes (db s)" using assms(1) run by (auto simp: revert_expired_changes_def)
    then show ?thesis using assms(2) life_same [of s' s] by (simp add: ledger_wf_def)
  next
    case (Inr ks)
    then show ?thesis using assms(1) run path by (simp add: revert_expired_changes_def)
  qed
qed

text \<open>C13.  The ledger refines the life cycle of a change: whatever a guarded change, a revert, a
  confirmation or a sweep returns, an exception included, the statuses of all changes have moved
  along the life cycle, in which a reverted change stays reverted and a confirmed one confirmed.\<close>

theorem ledger_refines_life:
  assumes "ledger_wf s" and "fresh s \<notin> ch_id ` set (changes (db s))" and "wait_leaves_ledger env"
  shows "life_step\<^sup>*\<^sup>* (life_of s) (life_of (snd (apply_guarded env p ws run kind target new_value conds settle after s))) \<and>
    (get_change k (db s) = Some r \<longrightarrow> life_step\<^sup>*\<^sup>* (life_of s) (life_of (snd (revert_change ho p r reason s)))) \<and>
    life_step\<^sup>*\<^sup>* (life_of s) (life_of (snd (confirm_change k ws w s))) \<and>
    life_step\<^sup>*\<^sup>* (life_of s) (life_of (snd (revert_expired_changes ho p s))) \<and>
    (\<forall>m. life_step\<^sup>*\<^sup>* (life_of s) m \<longrightarrow> st \<in> {Reverted, Confirmed} \<longrightarrow> life_of s k = Some st \<longrightarrow> m k = Some st)"
proof (intro conjI allI impI)
  show "life_step\<^sup>*\<^sup>* (life_of s) (life_of (snd (apply_guarded env p ws run kind target new_value conds settle after s)))"
    using apply_guarded_moves [OF surjective_pairing assms(2,3,1)] by blast
  show "life_step\<^sup>*\<^sup>* (life_of s) (life_of (snd (revert_change ho p r reason s)))" if "get_change k (db s) = Some r"
    using row_moved_life [OF revert_moves [OF surjective_pairing]] get_change_row [OF that assms(1)] that by metis
  show "life_step\<^sup>*\<^sup>* (life_of s) (life_of (snd (confirm_change k ws w s)))"
    using confirm_moves [OF surjective_pairing assms(1), of k ws w] row_moved_life by (metis rtranclp.rtrancl_refl)
  show "life_step\<^sup>*\<^sup>* (life_of s) (life_of (snd (revert_expired_changes ho p s)))"
    using sweep_path [OF surjective_pairing assms(1)] by blast
  show "m k = Some st" if "life_step\<^sup>*\<^sup>* (life_of s) m" "st \<in> {Reverted, Confirmed}" "life_of s k = Some st" for m
    using that reverted.reached_good [of "life_of s" m k] kept_change.reached_good [of "life_of s" m k] by blast
qed

theorem ledger_refines_life_witness:
  "life_step\<^sup>*\<^sup>* (life_of late_state) (life_of (snd (revert_expired_changes file_host open_policy late_state))) \<and>
   life_step\<^sup>*\<^sup>* (life_of late_state) (life_of (snd (apply_guarded demo_env open_policy ''w1'' None Sysctl ''vm.swappiness''
     ''10'' [port_open] 1 None late_state)))"
  using ledger_refines_life [OF late_wf late_fresh demo_env_sel(2)] by blast

text \<open>C15.  Every row of the ledger stays well-formed under every operation: keys are unique, only
  provisional changes that can be undone carry a timer, and exactly the service actions without
  an inverse are marked as having none.\<close>

theorem ledger_stays_wf:
  assumes "ledger_wf s" and "fresh s \<notin> ch_id ` set (changes (db s))" and "wait_leaves_ledger env"
  shows "ledger_wf (snd (apply_guarded env p ws run kind target new_value conds settle after s)) \<and>
    (get_change k (db s) = Some r \<longrightarrow> ledger_wf (snd (revert_change ho p r reason s))) \<and>
    ledger_wf (snd (confirm_change k ws w s)) \<and> ledger_wf (snd (revert_expired_changes ho p s))"
proof (intro conjI impI)
  show "ledger_wf (snd (apply_guarded env p ws run kind target new_value conds settle after s))"
    using apply_guarded_moves [OF surjective_pairing assms(2,3,1)] by blast
  show "ledger_wf (snd (revert_change ho p r reason s))" if "get_change k (db s) = Some r"
    using row_moved_wf [OF revert_moves [OF surjective_pairing] _ assms(1)] get_change_row [OF that assms(1)] that by metis
  show "ledger_wf (snd (confirm_change k ws w s))"
    using confirm_moves [OF surjective_pairing assms(1), of k ws w] row_moved_wf assms(1) by metis
  show "ledger_wf (snd (revert_expired_changes ho p s))"
    using sweep_path [OF surjective_pairing assms(1)] by blast
qed

theorem ledger_stays_wf_witness:
  "ledger_wf (snd (revert_expired_changes file_host open_policy late_state)) \<and>
   ledger_wf (snd (apply_guarded demo_env open_policy ''w1'' None Service ''nginx'' ''restart'' [port_open] 1 (Some 5) late_state))"
  using ledger_stays_wf [OF late_wf late_fresh demo_env_sel(2)] by blast

section \<open>A sweep inside the settle window\<close>

text \<open>An environment whose recovery sweep runs while a guard waits.\<close>

definition sweeping_env :: "files guard_env" where
  "sweeping_env = demo_env\<lparr>ge_wait := (\<lambda>t s. snd (revert_expired_changes file_host open_policy
     (s\<lparr>clock := clock s + timedelta t\<rparr>)))\<rparr>"

definition no_leak :: condition where
  "no_leak = \<lparr>cd_probe = PROCESS_RUNNING, cd_operator = EQ, cd_value = JBool False, cd_target = ''leak''\<rparr>"

lemma no_leak_met: "all_met (evaluate_conditions rep (ge_watch sweeping_env) h [no_leak])"
  by (simp add: all_met_def evaluate_conditions_def evaluate_one_met observe_def needs_target_def no_leak_def Let_def
      sweeping_env_def demo_env_def list_processes_def process_ids_def file_host_def compare_values_def
      loosely_equal_def is_bool_def as_bool_def)

text \<open>The settle write is not conditional on the row being provisional still: with a confirmation
  window shorter than the settle window the change is reverted by the sweep, then marked as
  verified, and the guard reports success for a parameter that has its old value.
\<close>

theorem verified_after_sweep:
  "\<exists>o1 s' r. apply_guarded sweeping_env open_policy ''w1'' None Sysctl ''vm.swappiness'' ''10'' [no_leak] 60 (Some 1) guard_state =
      (Inr o1, s') \<and> go_ok o1 \<and> changes (db s') = [r] \<and> ch_status r = Verified \<and> ch_new r = ''10'' \<and>
    map_of (outside s') swap_path = Some ''60''"
proof -
  let ?r = "demo_row [no_leak] (Some 1)"
  have clamps: "clamp_settle 60 = 60" "clamp_window (Some 1) = Some 1"
    by (simp_all add: clamp_settle_def max_settle_seconds_def clamp_window_def max_revert_after_seconds_def)
  have host: "ge_host sweeping_env = file_host" by (simp add: sweeping_env_def demo_env_def)
  obtain summary s4 where s4: "apply_guarded sweeping_env open_policy ''w1'' None Sysctl ''vm.swappiness'' ''10'' [no_leak] 60 (Some 1) guard_state =
      verify_change sweeping_env open_policy ?r summary [no_leak] 60 (Some 1) s4"
    "changes (db s4) = [?r]" "clock s4 = 0" "outside s4 = [(swap_path, ''10'')]"
    using demo_applied [OF host, of "[no_leak]" 60 "Some 1"] by (auto simp: clamps)
  let ?s5 = "s4\<lparr>clock := clock s4 + timedelta 60\<rparr>"
  have clk: "clock ?s5 = 60000000" using s4(3) by (simp add: timedelta_def round_half_even_def Let_def)
  have due: "due_change (clock ?s5) ?r" unfolding clk
    by (simp add: due_change_def demo_row_def change_row_def revertible_change_def timedelta_def round_half_even_def clamps Let_def)
  have s5: "outside ?s5 = [(swap_path, ''10'')]" "changes (db ?s5) = [?r]" using s4 by simp_all
  obtain out s6 where s6: "revert_change file_host open_policy ?r ''confirmation window elapsed;'' ?s5 = (Inr out, s6)" "ro_ok out"
    "outside s6 = [(swap_path, ''60'')]" "map (\<lambda>x. (ch_id x, ch_new x)) (changes (db s6)) = [(ch_id ?r, ''10'')]"
    using demo_revert [OF s5(1) refl s5(2), of "''confirmation window elapsed;''"] by (elim exE conjE)
  have "snd (revert_expired_changes file_host open_policy ?s5) = s6"
    unfolding revert_expired_changes_def s5(2) using due s6(1) by simp
  then have wait: "ge_wait sweeping_env 60 s4 = s6" by (simp add: sweeping_env_def)
  obtain y where c6: "changes (db s6) = [y]" "ch_id y = ch_id ?r" "ch_new y = ''10''" using s6(4) by auto
  show ?thesis unfolding s4(1) verify_change_def Let_def
    using wait no_leak_met s6(3) c6 by (simp add: verified_outcome_def)
qed

end
