(* ===== verification/Channels.thy ===== *)
theory Channels
  imports Conductor
begin

text \<open>
  \<open>channels/base.py\<close>, \<open>channels/router.py\<close> and \<open>channels/dispatch.py\<close>: an inbound message
  becomes a run and an owed reply; the dispatcher settles the owed replies.  A transport is the
  function that sends a message; the hexadecimal SHA-256 of a text is a parameter.
\<close>

section \<open>Messages and transports\<close>

datatype channel_kind = TELEGRAM | WHATSAPP | GMAIL | SLACK | WEBHOOK

fun kind_value :: "channel_kind \<Rightarrow> string" where
  "kind_value TELEGRAM = ''telegram''"
| "kind_value WHATSAPP = ''whatsapp''"
| "kind_value GMAIL = ''gmail''"
| "kind_value SLACK = ''slack''"
| "kind_value WEBHOOK = ''webhook''"

text \<open>\<open>ChannelKind(text)\<close>: \<open>None\<close> is the \<open>ValueError\<close>.\<close>

definition kind_of_text :: "string \<Rightarrow> channel_kind option" where
  "kind_of_text t = find (\<lambda>k. kind_value k = t) [TELEGRAM, WHATSAPP, GMAIL, SLACK, WEBHOOK]"

lemma kind_of_value [simp]: "kind_of_text (kind_value k) = Some k"
  by (cases k) (simp_all add: kind_of_text_def)

record inbound =
  in_channel :: channel_kind
  in_conversation :: string
  in_sender :: string
  in_external :: string
  in_display :: string
  in_text :: string
  in_subject :: string

definition routing_key :: "inbound \<Rightarrow> string" where
  "routing_key m = kind_value (in_channel m) @ '':'' @ in_conversation m"

definition dedupe_key :: "(string \<Rightarrow> string) \<Rightarrow> inbound \<Rightarrow> string" where
  "dedupe_key sha m =
     (let identity = (if in_external m = [] then ''body:'' @ in_text m else in_external m)
      in ''ch:'' @ take 48 (sha (routing_key m @ ''|'' @ identity)))"

record outbound =
  ob_conversation :: string
  ob_text :: string
  ob_subject :: string
  ob_reply_to :: string

text \<open>A \<open>DeliveryResult\<close>, or an exception of the transport.\<close>

datatype send_run = Delivered bool string | Send_raised

record 'w transport =
  tp_kind :: channel_kind
  tp_send :: "outbound \<Rightarrow> 'w \<Rightarrow> send_run \<times> 'w"

type_synonym 'w channel_registry = "(channel_kind \<times> 'w transport) list"

definition register_channel ::
  "('w, 'z) transport_scheme \<Rightarrow> (channel_kind \<times> ('w, 'z) transport_scheme) list
     \<Rightarrow> (channel_kind \<times> ('w, 'z) transport_scheme) list" where
  "register_channel c reg = AList.update (tp_kind c) c reg"

definition get_channel :: "channel_kind \<Rightarrow> (channel_kind \<times> 'c) list \<Rightarrow> 'c option" where
  "get_channel k reg = map_of reg k"

definition channel_kinds :: "(channel_kind \<times> 'c) list \<Rightarrow> string list" where
  "channel_kinds reg = sort (map (\<lambda>(k, c). kind_value k) reg)"

text \<open>\<open>build_registry\<close>: a channel without credentials is absent.\<close>

record channel_settings =
  st_telegram_token :: string
  st_whatsapp_token :: string
  st_whatsapp_phone :: string
  st_gmail_token :: string
  st_workspace_slug :: string
  st_agent_handle :: string
  st_max_attempts :: int

definition build_registry ::
  "(channel_kind \<Rightarrow> ('w, 'z) transport_scheme) \<Rightarrow> 's channel_settings_scheme
     \<Rightarrow> (channel_kind \<times> ('w, 'z) transport_scheme) list" where
  "build_registry adapter st =
     (let r0 = [];
          r1 = (if st_telegram_token st = [] then r0 else register_channel (adapter TELEGRAM) r0);
          r2 = (if st_whatsapp_token st = [] \<or> st_whatsapp_phone st = [] then r1
                else register_channel (adapter WHATSAPP) r1)
      in if st_gmail_token st = [] then r2 else register_channel (adapter GMAIL) r2)"

section \<open>Routing an inbound message\<close>

record channel_target =
  tg_workspace :: ident
  tg_handle :: string

definition resolve_target :: "'s channel_settings_scheme \<Rightarrow> database \<Rightarrow> hx_error + channel_target" where
  "resolve_target st d =
     (if st_workspace_slug st = [] then
        Inl (not_found (''channels are configured but HOURSX_CHANNEL_WORKSPACE_SLUG is not set, '' @
               ''so inbound messages have no workspace to belong to'') [])
      else case find (\<lambda>w. wk_slug w = st_workspace_slug st) (workspaces d) of
        None \<Rightarrow> Inl (not_found (''no workspace with slug '' @ [CHR 0x27] @ st_workspace_slug st @ [CHR 0x27])
                      [(''slug'', JStr (st_workspace_slug st))])
      | Some w \<Rightarrow>
          if st_agent_handle st = [] then
            Inl (not_found (''channels are configured but HOURSX_CHANNEL_AGENT_HANDLE is not set, '' @
                   ''so there is no agent to answer inbound messages'') [])
          else Inr \<lparr>tg_workspace = wk_id w, tg_handle = st_agent_handle st\<rparr>)"

definition session_title :: "inbound \<Rightarrow> string" where
  "session_title m =
     (let who = (if in_display m \<noteq> [] then in_display m else if in_sender m \<noteq> [] then in_sender m else ''unknown'')
      in take 200 (kind_value (in_channel m) @ '': '' @ who))"

definition reply_handle :: "inbound \<Rightarrow> string" where
  "reply_handle m = (if in_channel m = GMAIL then in_sender m else [])"

definition compose_goal :: "inbound \<Rightarrow> string" where
  "compose_goal m = (if in_subject m = [] then in_text m
     else ''Subject: '' @ in_subject m @ newline @ newline @ in_text m)"

definition first_member :: "ident \<Rightarrow> database \<Rightarrow> hx_error + ident" where
  "first_member ws d =
     (case sort_key wm_created (filter (\<lambda>m. wm_workspace m = ws) (members d)) of
        [] \<Rightarrow> Inl (not_found ''workspace has no members to own the session'' [])
      | m # _ \<Rightarrow> Inr (wm_user m))"

definition bound_session :: "inbound \<Rightarrow> ident \<Rightarrow> database \<Rightarrow> session option" where
  "bound_session m ws d =
     (case find (\<lambda>b. cb_workspace b = ws \<and> cb_routing_key b = routing_key m) (bindings d) of
        None \<Rightarrow> None
      | Some b \<Rightarrow> get_session (cb_session b) d)"

definition new_binding :: "inbound \<Rightarrow> ident \<Rightarrow> ident \<Rightarrow> ident \<Rightarrow> instant \<Rightarrow> channel_binding" where
  "new_binding m ws k sid now =
     \<lparr>cb_id = k, cb_created = now, cb_workspace = ws, cb_channel = kind_value (in_channel m), cb_routing_key = routing_key m,
      cb_session = sid, cb_sender_id = in_sender m, cb_sender_display = in_display m\<rparr>"

definition open_session :: "inbound \<Rightarrow> ident \<Rightarrow> ident \<Rightarrow> agent_profile \<Rightarrow> 'w sys \<Rightarrow> ident \<times> 'w sys" where
  "open_session m ws owner_id profile s =
     (let sid = fresh s;
          ss = \<lparr>ss_id = sid, ss_created = clock s, ss_workspace = ws, ss_user = owner_id, ss_profile = ap_id profile,
                ss_title = session_title m, ss_sandbox_dir = ''session-'' @ sid, ss_archived = False\<rparr>;
          s1 = use_id (on_db (\<lambda>d. d\<lparr>sessions := sessions d @ [ss]\<rparr>) s)
      in (sid, use_id (on_db (\<lambda>d. d\<lparr>bindings := bindings d @ [new_binding m ws (fresh s1) sid (clock s1)]\<rparr>) s1)))"

definition session_for :: "inbound \<Rightarrow> channel_target \<Rightarrow> 'w sys \<Rightarrow> (hx_error + ident \<times> ident) \<times> 'w sys" where
  "session_for m tg s =
     (case bound_session m (tg_workspace tg) (db s) of
        Some ss \<Rightarrow> (Inr (ss_id ss, ss_user ss), s)
      | None \<Rightarrow>
          (case find (\<lambda>p. ap_workspace p = tg_workspace tg \<and> ap_handle p = tg_handle tg) (profiles (db s)) of
             None \<Rightarrow> (Inl (not_found (''no agent '' @ [CHR 0x27] @ tg_handle tg @ [CHR 0x27] @
                        '' in this workspace to answer '' @ kind_value (in_channel m) @ '' messages'')
                        [(''agent_handle'', JStr (tg_handle tg))]), s)
           | Some p \<Rightarrow>
               (case first_member (tg_workspace tg) (db s) of
                  Inl e \<Rightarrow> (Inl e, s)
                | Inr owner_id \<Rightarrow>
                    (case open_session m (tg_workspace tg) owner_id p s of (sid, s1) \<Rightarrow> (Inr (sid, owner_id), s1)))))"

definition owed_reply :: "inbound \<Rightarrow> ident \<Rightarrow> ident \<Rightarrow> ident \<Rightarrow> instant \<Rightarrow> channel_reply" where
  "owed_reply m ws k run_id now =
     \<lparr>cr_id = k, cr_created = now, cr_workspace = ws, cr_run = run_id, cr_channel = kind_value (in_channel m),
      cr_conversation = in_conversation m,
      cr_subject = (if in_subject m = [] then [] else ''Re: '' @ in_subject m), cr_reply_to = reply_handle m,
      cr_status = Pending_reply, cr_attempts = 0, cr_interim_sent = False, cr_detail = [], cr_sent_at = None\<rparr>"

text \<open>\<open>False\<close> when the run has its reply owed already.\<close>

definition owe_reply :: "inbound \<Rightarrow> ident \<Rightarrow> ident \<Rightarrow> 'w sys \<Rightarrow> bool \<times> 'w sys" where
  "owe_reply m run_id ws s =
     (if list_ex (\<lambda>r. cr_run r = run_id) (replies (db s)) then (False, s)
      else (True, use_id (on_db (\<lambda>d. d\<lparr>replies := replies d @ [owed_reply m ws (fresh s) run_id (clock s)]\<rparr>) s)))"

record routed_run =
  ru_run :: ident
  ru_session :: ident
  ru_duplicate :: bool

definition handle_inbound ::
  "'v services \<Rightarrow> quota_policy \<Rightarrow> (string \<Rightarrow> string) \<Rightarrow> inbound \<Rightarrow> channel_target \<Rightarrow> 'v state
     \<Rightarrow> (submit_error + routed_run) \<times> 'v state" where
  "handle_inbound sv p sha m tg s =
     (case session_for m tg s of
        (Inl e, s1) \<Rightarrow> (Inl (Domain e), s1)
      | (Inr (sid, owner_id), s1) \<Rightarrow>
          (case submit_message sv p sid (compose_goal m) False (Some (dedupe_key sha m)) s1 of
             (Inl e, s2) \<Rightarrow> (Inl e, s2)
           | (Inr run_id, s2) \<Rightarrow>
               (case owe_reply m run_id (tg_workspace tg) s2 of
                  (new, s3) \<Rightarrow> (Inr \<lparr>ru_run = run_id, ru_session = sid, ru_duplicate = \<not> new\<rparr>, s3))))"

section \<open>Settling replies\<close>

definition approval_notice :: string where
  "approval_notice = ''I need a human decision before I can continue. '' @
     ''Once someone approves it in the HoursX console I will finish and reply here.''"

definition or_text :: "string option \<Rightarrow> string \<Rightarrow> string" where
  "or_text x alt = (case x of None \<Rightarrow> alt | Some t \<Rightarrow> if t = [] then alt else t)"

definition answer_text :: "run \<Rightarrow> string" where
  "answer_text r =
     (if rn_status r = Succeeded then or_text (rn_answer r) ''I finished, but produced no answer to send.''
      else if rn_status r = Cancelled then ''That request was cancelled before I could finish it.''
      else ''I could not finish that: '' @ or_text (rn_error r) ''the run did not succeed'')"

definition due_reply :: "int \<Rightarrow> database \<Rightarrow> channel_reply \<Rightarrow> bool" where
  "due_reply max_attempts d r =
     (cr_status r = Pending_reply \<and> cr_attempts r < max_attempts \<and>
      (case get_run (cr_run r) d of None \<Rightarrow> True
       | Some x \<Rightarrow> terminal_status (rn_status x) \<or> rn_status x = Awaiting_approval))"

definition due_replies :: "int \<Rightarrow> database \<Rightarrow> ident list" where
  "due_replies max_attempts d =
     take 100 (map cr_id (sort_key cr_created (filter (due_reply max_attempts d) (replies d))))"

definition get_reply :: "ident \<Rightarrow> database \<Rightarrow> channel_reply option" where
  "get_reply k d = find_row cr_id k (replies d)"

definition on_replies :: "(channel_reply list \<Rightarrow> channel_reply list) \<Rightarrow> 'w sys \<Rightarrow> 'w sys" where
  "on_replies f = on_db (\<lambda>d. d\<lparr>replies := f (replies d)\<rparr>)"

lemma on_replies_sel [simp]:
  "replies (db (on_replies f s)) = f (replies (db s))" "runs (db (on_replies f s)) = runs (db s)"
  "clock (on_replies f s) = clock s" "outside (on_replies f s) = outside s" "id_supply (on_replies f s) = id_supply s"
  by (simp_all add: on_replies_def)

text \<open>A loaded row that is assigned to is the row with its primary key.\<close>

definition update_reply :: "ident \<Rightarrow> (channel_reply \<Rightarrow> channel_reply) \<Rightarrow> 'w sys \<Rightarrow> 'w sys" where
  "update_reply k f = on_replies (update_where (\<lambda>r. cr_id r = k) f)"

text \<open>What the dispatcher remembers of a reply it is about to deliver.\<close>

record delivery =
  dv_reply :: ident
  dv_kind :: string
  dv_interim :: bool
  dv_attempts :: int
  dv_message :: outbound

datatype reply_view = Nothing_due | Run_gone | Owed delivery

definition look_at_reply :: "ident \<Rightarrow> database \<Rightarrow> reply_view" where
  "look_at_reply k d =
     (case get_reply k d of
        None \<Rightarrow> Nothing_due
      | Some r \<Rightarrow>
          if cr_status r \<noteq> Pending_reply then Nothing_due
          else case get_run (cr_run r) d of
            None \<Rightarrow> Run_gone
          | Some x \<Rightarrow>
              (let interim = (rn_status x = Awaiting_approval) in
               if interim \<and> cr_interim_sent r then Nothing_due
               else Owed \<lparr>dv_reply = k, dv_kind = cr_channel r, dv_interim = interim, dv_attempts = cr_attempts r,
                 dv_message = \<lparr>ob_conversation = cr_conversation r,
                   ob_text = (if interim then approval_notice else answer_text x),
                   ob_subject = cr_subject r, ob_reply_to = cr_reply_to r\<rparr>\<rparr>))"

text \<open>The claim: \<open>t\<close> is the count the dispatcher read and whether it sends the interim note.\<close>

definition deliverable :: "int \<times> bool \<Rightarrow> channel_reply \<Rightarrow> bool" where
  "deliverable t r = (cr_status r = Pending_reply \<and>
     (if snd t then \<not> cr_interim_sent r else cr_attempts r = fst t))"

definition take_delivery :: "int \<times> bool \<Rightarrow> unit \<Rightarrow> channel_reply \<Rightarrow> channel_reply" where
  "take_delivery t u r = (if snd t then r\<lparr>cr_interim_sent := True\<rparr> else r\<lparr>cr_attempts := fst t + 1\<rparr>)"

definition claim_reply :: "delivery \<Rightarrow> 'w sys \<Rightarrow> bool \<times> 'w sys" where
  "claim_reply dv s =
     (let (won, rows) = cas_claim cr_id deliverable take_delivery (dv_reply dv) (dv_attempts dv, dv_interim dv) () (replies (db s))
      in (won, on_replies (\<lambda>_. rows) s))"

interpretation reply_claim: single_winner cr_id deliverable take_delivery
  by unfold_locales (auto simp: deliverable_def take_delivery_def)

definition record_send :: "int \<Rightarrow> bool \<Rightarrow> string \<Rightarrow> instant \<Rightarrow> channel_reply \<Rightarrow> channel_reply" where
  "record_send max_attempts ok summary now r =
     (if ok then r\<lparr>cr_status := Sent, cr_detail := summary, cr_sent_at := Some now\<rparr>
      else if cr_attempts r \<ge> max_attempts
      then r\<lparr>cr_status := Abandoned, cr_detail := ''gave up after '' @ show_int (cr_attempts r) @ '' attempts: '' @ summary\<rparr>
      else r\<lparr>cr_detail := summary\<rparr>)"

definition abandon_unconfigured :: "ident \<Rightarrow> string \<Rightarrow> 'w sys \<Rightarrow> 'w sys" where
  "abandon_unconfigured k kind_text s = on_replies (update_where (\<lambda>r. cr_id r = k \<and> cr_status r = Pending_reply)
     (\<lambda>r. r\<lparr>cr_status := Abandoned, cr_detail := kind_text @ '' is no longer configured''\<rparr>)) s"

definition send_out :: "'w transport \<Rightarrow> outbound \<Rightarrow> 'w sys \<Rightarrow> send_run \<times> 'w sys" where
  "send_out c m s = (let (x, w) = tp_send c m (outside s) in (x, s\<lparr>outside := w\<rparr>))"

text \<open>\<open>None\<close> is an exception that leaves the sweep: the transport's, or of an unknown kind.\<close>

definition deliver :: "int \<Rightarrow> 'w transport \<Rightarrow> delivery \<Rightarrow> 'w sys \<Rightarrow> nat option \<times> 'w sys" where
  "deliver max_attempts c dv s =
     (case claim_reply dv s of
        (False, s1) \<Rightarrow> (Some 0, s1)
      | (True, s1) \<Rightarrow>
          (case send_out c (dv_message dv) s1 of
             (Send_raised, s2) \<Rightarrow> (None, s2)
           | (Delivered ok summary, s2) \<Rightarrow>
               (Some (if ok then 1 else 0),
                if dv_interim dv then s2
                else update_reply (dv_reply dv) (record_send max_attempts ok summary (clock s2)) s2)))"

definition settle_reply :: "int \<Rightarrow> 'w channel_registry \<Rightarrow> ident \<Rightarrow> 'w sys \<Rightarrow> nat option \<times> 'w sys" where
  "settle_reply max_attempts reg k s =
     (case look_at_reply k (db s) of
        Nothing_due \<Rightarrow> (Some 0, s)
      | Run_gone \<Rightarrow>
          (Some 0, update_reply k (\<lambda>r. r\<lparr>cr_status := Abandoned,
             cr_detail := ''the run this reply belonged to no longer exists''\<rparr>) s)
      | Owed dv \<Rightarrow>
          (case kind_of_text (dv_kind dv) of
             None \<Rightarrow> (None, s)
           | Some kind \<Rightarrow>
               (case get_channel kind reg of
                  None \<Rightarrow> (Some 0, abandon_unconfigured k (dv_kind dv) s)
                | Some c \<Rightarrow> deliver max_attempts c dv s)))"

fun settle_each :: "int \<Rightarrow> 'w channel_registry \<Rightarrow> ident list \<Rightarrow> 'w sys \<Rightarrow> nat option \<times> 'w sys" where
  "settle_each max_attempts reg [] s = (Some 0, s)"
| "settle_each max_attempts reg (k # ks) s =
     (case settle_reply max_attempts reg k s of
        (None, s1) \<Rightarrow> (None, s1)
      | (Some n, s1) \<Rightarrow>
          (case settle_each max_attempts reg ks s1 of
             (None, s2) \<Rightarrow> (None, s2)
           | (Some m, s2) \<Rightarrow> (Some (n + m), s2)))"

definition dispatcher_attempts :: "'s channel_settings_scheme \<Rightarrow> int" where
  "dispatcher_attempts st = max 1 (st_max_attempts st)"

definition sweep_once :: "int \<Rightarrow> 'w channel_registry \<Rightarrow> 'w sys \<Rightarrow> nat option \<times> 'w sys" where
  "sweep_once max_attempts reg s = settle_each max_attempts reg (due_replies max_attempts (db s)) s"

end
