(* ===== verification/Channel_Props.thy ===== *)
theory Channel_Props
  imports Channels
begin

text \<open>
  What the channels promise: a redelivered message is recognised, a due reply is settled or
  retried with its count raised, and where the promises of the dispatcher end.
\<close>

section \<open>Redelivery\<close>

text \<open>The foreign keys of the binding table, and the next key of the session table.\<close>

definition bindings_sound :: "'w sys \<Rightarrow> bool" where
  "bindings_sound s = (list_all (\<lambda>b. get_session (cb_session b) (db s) \<noteq> None) (bindings (db s)) \<and>
     find_row ss_id (fresh s) (sessions (db s)) = None)"

lemma session_for_bound:
  assumes "session_for m tg s = (Inr (sid, owner_id), s1)" and "bindings_sound s"
  shows "bound_session m (tg_workspace tg) (db s1) \<noteq> None \<and>
    (\<forall>ss. bound_session m (tg_workspace tg) (db s1) = Some ss \<longrightarrow> ss_id ss = sid \<and> ss_user ss = owner_id)"
proof (cases "bound_session m (tg_workspace tg) (db s)")
  case (Some ss)
  then show ?thesis using assms(1) by (auto simp: session_for_def)
next
  case None
  then obtain p where "open_session m (tg_workspace tg) owner_id p s = (sid, s1)"
    using assms(1) by (auto simp: session_for_def split: option.splits sum.splits prod.splits)
  then have s1: "sid = fresh s" "bindings (db s1) = bindings (db s) @ [new_binding m (tg_workspace tg) (new_id (Suc (id_supply s))) sid (clock s)]"
    "\<exists>ss. sessions (db s1) = sessions (db s) @ [ss] \<and> ss_id ss = sid \<and> ss_user ss = owner_id"
    by (auto simp: open_session_def fresh_def Let_def)
  have "find (\<lambda>b. cb_workspace b = tg_workspace tg \<and> cb_routing_key b = routing_key m) (bindings (db s)) = None"
  proof (rule ccontr)
    assume "\<not> ?thesis"
    then obtain b where b: "find (\<lambda>b. cb_workspace b = tg_workspace tg \<and> cb_routing_key b = routing_key m) (bindings (db s)) = Some b"
      by blast
    then have "get_session (cb_session b) (db s) \<noteq> None"
      using assms(2) by (auto simp: bindings_sound_def list_all_iff find_Some_iff)
    then show False using None b by (simp add: bound_session_def)
  qed
  moreover have "find_row ss_id sid (sessions (db s)) = None" using assms(2) s1(1) by (simp add: bindings_sound_def)
  ultimately show ?thesis using s1(2,3)
    by (auto simp: bound_session_def new_binding_def find_snoc get_session_def find_row_append)
qed

text \<open>Later states, as far as a redelivery can tell: no run, session, binding or owed reply has been
  deleted; runs may have been executed, cancelled or finished, replies settled, and rows of every
  table added.\<close>

definition binding_identity :: "channel_binding \<Rightarrow> ident \<times> string \<times> ident" where
  "binding_identity b = (cb_workspace b, cb_routing_key b, cb_session b)"

definition session_owner :: "session \<Rightarrow> ident \<times> ident \<times> ident" where
  "session_owner ss = (ss_id ss, ss_workspace ss, ss_user ss)"

definition channel_later :: "'w sys \<Rightarrow> 'w sys \<Rightarrow> bool" where
  "channel_later s s' = (table_grows s s' \<and>
     (\<forall>k ss. get_session k (db s) = Some ss \<longrightarrow>
        map_option session_owner (get_session k (db s')) = Some (session_owner ss)) \<and>
     prefix (map binding_identity (bindings (db s))) (map binding_identity (bindings (db s'))) \<and>
     cr_run ` set (replies (db s)) \<subseteq> cr_run ` set (replies (db s')))"

lemma bound_later:
  assumes "channel_later s s'" and "bound_session m ws (db s) = Some ss"
  shows "\<exists>ss'. bound_session m ws (db s') = Some ss' \<and> session_owner ss' = session_owner ss"
proof -
  define P where "P = (\<lambda>x :: ident \<times> string \<times> ident. case x of (w, k, i) \<Rightarrow> w = ws \<and> k = routing_key m)"
  have P: "(\<lambda>b. cb_workspace b = ws \<and> cb_routing_key b = routing_key m) = (\<lambda>b. P (binding_identity b))"
    by (simp add: P_def binding_identity_def fun_eq_iff)
  obtain b where b: "find (\<lambda>b. P (binding_identity b)) (bindings (db s)) = Some b" "get_session (cb_session b) (db s) = Some ss"
    using assms(2) by (auto simp: bound_session_def P split: option.splits)
  then have "find P (map binding_identity (bindings (db s))) = Some (binding_identity b)"
    by (simp add: find_map_some)
  then have "find P (map binding_identity (bindings (db s'))) = Some (binding_identity b)"
    using assms(1) by (auto simp: channel_later_def prefix_def find_append_some)
  then obtain b' where b': "find (\<lambda>b. P (binding_identity b)) (bindings (db s')) = Some b'" "cb_session b' = cb_session b"
    by (auto simp: find_map_some binding_identity_def)
  have "map_option session_owner (get_session (cb_session b) (db s')) = Some (session_owner ss)"
    using assms(1) b(2) by (auto simp: channel_later_def)
  with b' show ?thesis by (auto simp: bound_session_def P)
qed

lemma dedupe_nonempty [simp]: "dedupe_key sha m \<noteq> []"
  by (simp add: dedupe_key_def Let_def)

lemma submit_keeps_bindings:
  assumes "submit_message sv p sid t plan key s = (x, s')"
  shows "bindings (db s') = bindings (db s) \<and> sessions (db s') = sessions (db s)"
  by (subst (1 2) submit_touches [OF assms]) simp

text \<open>C18.  A webhook may be delivered any number of times: once a message has been routed, delivering it
  again in any later state returns the same run and session, reports a duplicate, and changes
  nothing: no second run, no second session, no second reply owed.  Later is any state from which
  none of these rows has been deleted; the run may have been cancelled, and other conversations
  may have opened sessions of their own.\<close>

theorem redelivery_is_duplicate:
  assumes "handle_inbound sv p sha m tg s = (Inr ru, s1)" and "bindings_sound s" and "channel_later s1 s2"
  shows "handle_inbound sv p' sha m tg s2 = (Inr (ru\<lparr>ru_duplicate := True\<rparr>), s2)"
proof -
  obtain sid owner_id sa where a: "session_for m tg s = (Inr (sid, owner_id), sa)"
    using assms(1) by (auto simp: handle_inbound_def split: prod.splits sum.splits)
  obtain k sb where b: "submit_message sv p sid (compose_goal m) False (Some (dedupe_key sha m)) sa = (Inr k, sb)"
    using assms(1) a by (auto simp: handle_inbound_def split: prod.splits sum.splits)
  obtain new where c: "owe_reply m k (tg_workspace tg) sb = (new, s1)" and ru: "ru = \<lparr>ru_run = k, ru_session = sid, ru_duplicate = \<not> new\<rparr>"
    using assms(1) a b by (auto simp: handle_inbound_def split: prod.splits)
  have same: "runs (db s1) = runs (db sb)" "sessions (db s1) = sessions (db sb)" "bindings (db s1) = bindings (db sb)"
    "k \<in> cr_run ` set (replies (db s1))"
    using c by (auto simp: owe_reply_def owed_reply_def list_ex_iff split: if_splits)
  have keep: "bindings (db sb) = bindings (db sa)" "sessions (db sb) = sessions (db sa)"
    using submit_keeps_bindings [OF b] by simp_all
  have "bound_session m (tg_workspace tg) (db s1) = bound_session m (tg_workspace tg) (db sa)"
    using same keep by (simp add: bound_session_def get_session_def split: option.splits)
  then obtain ss where ss: "bound_session m (tg_workspace tg) (db s1) = Some ss" "ss_id ss = sid" "ss_user ss = owner_id"
    using session_for_bound [OF a assms(2)] by auto
  have found: "get_session sid (db s1) = Some ss"
  proof -
    obtain b :: channel_binding where b: "find_row ss_id (cb_session b) (sessions (db s1)) = Some ss"
      using ss(1) by (auto simp: bound_session_def get_session_def split: option.splits)
    then have "cb_session b = sid" using find_row_Some [OF b] ss(2) by simp
    with b show ?thesis by (simp add: get_session_def)
  qed
  have bound: "session_for m tg s2 = (Inr (sid, owner_id), s2)"
    using bound_later [OF assms(3) ss(1)] ss(2,3) by (auto simp: session_for_def session_owner_def)
  have "table_grows sb s2" using assms(3) same by (simp add: channel_later_def table_grows_def)
  moreover have "map_option ss_workspace (get_session sid (db s2)) = map_option ss_workspace (get_session sid (db sb))"
  proof -
    have "get_session sid (db sb) = Some ss" using found same by (simp add: get_session_def)
    moreover have "map_option session_owner (get_session sid (db s2)) = Some (session_owner ss)"
      using assms(3) found by (simp add: channel_later_def)
    ultimately show ?thesis by (auto simp: session_owner_def)
  qed
  ultimately have "submit_message sv p' sid (compose_goal m) False (Some (dedupe_key sha m)) s2 = (Inr k, s2)"
    using submit_again [OF b dedupe_nonempty] by blast
  moreover have "owe_reply m k (tg_workspace tg) s2 = (False, s2)"
  proof -
    have "k \<in> cr_run ` set (replies (db s2))" using same(4) assms(3) by (auto simp: channel_later_def)
    then show ?thesis by (auto simp: owe_reply_def list_ex_iff)
  qed
  ultimately show ?thesis using bound ru by (simp add: handle_inbound_def)
qed

section \<open>Settling a reply\<close>

lemma answer_never_empty: "answer_text r \<noteq> []"
  by (auto simp: answer_text_def or_text_def split: option.splits)

lemma claim_reply_cases:
  assumes "claim_reply dv s = (won, s1)"
  shows "won = (count_where (\<lambda>r. cr_id r = dv_reply dv \<and> deliverable (dv_attempts dv, dv_interim dv) r) (replies (db s)) = 1) \<and>
    replies (db s1) = update_where (\<lambda>r. cr_id r = dv_reply dv \<and> deliverable (dv_attempts dv, dv_interim dv) r)
      (take_delivery (dv_attempts dv, dv_interim dv) ()) (replies (db s)) \<and> runs (db s1) = runs (db s) \<and> clock s1 = clock s"
  using assms by (auto simp: claim_reply_def cas_claim_def Let_def)

text \<open>The view a dispatcher has just taken is claimable.\<close>

lemma claim_fresh_view:
  assumes "look_at_reply k (db s) = Owed dv" and "keyed cr_id (replies (db s))" and "get_reply k (db s) = Some r"
    and "claim_reply dv s = (won, s1)"
  shows "won \<and> dv_reply dv = k \<and> get_reply k (db s1) = Some (take_delivery (cr_attempts r, dv_interim dv) () r) \<and>
    (\<forall>j. j \<noteq> k \<longrightarrow> get_reply j (db s1) = get_reply j (db s)) \<and> runs (db s1) = runs (db s)"
proof -
  have dv: "dv_reply dv = k" "dv_attempts dv = cr_attempts r" "deliverable (cr_attempts r, dv_interim dv) r"
    using assms(1,3) by (auto simp: look_at_reply_def deliverable_def Let_def split: if_splits option.splits)
  have cas: "won = fst (cas_claim cr_id deliverable take_delivery k (cr_attempts r, dv_interim dv) () (replies (db s)))"
    "replies (db s1) = snd (cas_claim cr_id deliverable take_delivery k (cr_attempts r, dv_interim dv) () (replies (db s)))"
    "runs (db s1) = runs (db s)"
    using assms(4) dv by (auto simp: claim_reply_def split_beta)
  show ?thesis using cas dv reply_claim.claim_won_iff [OF assms(2)] reply_claim.claim_row reply_claim.claim_other_rows assms(3)
    by (auto simp: get_reply_def)
qed

lemma look_at_reply_cases:
  assumes "get_reply k d = Some r" and "cr_status r = Pending_reply"
  shows "(look_at_reply k d = Run_gone \<and> get_run (cr_run r) d = None) \<or>
    (\<exists>x. look_at_reply k d = Nothing_due \<and> get_run (cr_run r) d = Some x \<and> rn_status x = Awaiting_approval \<and> cr_interim_sent r) \<or>
    (\<exists>x dv. look_at_reply k d = Owed dv \<and> get_run (cr_run r) d = Some x \<and> dv_interim dv = (rn_status x = Awaiting_approval) \<and>
       dv_kind dv = cr_channel r \<and> (dv_interim dv \<longrightarrow> \<not> cr_interim_sent r))"
  using assms by (cases "get_run (cr_run r) d") (auto simp: look_at_reply_def Let_def)

lemma record_send_id [simp]: "cr_id (record_send m ok t now r) = cr_id r"
  by (simp add: record_send_def)

lemma take_delivery_id [simp]: "cr_id (take_delivery t u r) = cr_id r"
  by (simp add: take_delivery_def)

lemma find_row_changed:
  "(\<And>r. key (f r) = key r) \<Longrightarrow> find_row key j (update_where (\<lambda>r. key r = k) f rows) =
     (if j = k then map_option f (find_row key k rows) else find_row key j rows)"
  by (simp add: find_row_update_other)


section \<open>Where the promises end\<close>

text \<open>A reply can be lost: when the last attempt raises (or its process dies) between the claim and
  the record, the reply stays pending with all attempts spent, and no later sweep looks at it
  again, whatever becomes of its run.\<close>

theorem reply_lost_on_last_attempt:
  assumes "look_at_reply k (db s) = Owed dv" and "keyed cr_id (replies (db s))" and "get_reply k (db s) = Some r"
    and "\<not> dv_interim dv" and "cr_attempts r + 1 = max_attempts" and "fst (tp_send c (dv_message dv) (outside s)) = Send_raised"
  shows "\<exists>s' r'. deliver max_attempts c dv s = (None, s') \<and> get_reply k (db s') = Some r' \<and> cr_status r' = Pending_reply \<and>
    (\<forall>d. \<not> due_reply max_attempts d r')"
proof -
  obtain won s1 where w: "claim_reply dv s = (won, s1)" by fastforce
  note cl = claim_fresh_view [OF assms(1-3) w]
  have o1: "outside s1 = outside s" using w by (auto simp: claim_reply_def split_beta)
  obtain s2 where s2: "send_out c (dv_message dv) s1 = (Send_raised, s2)" "db s2 = db s1"
    using assms(6) o1 by (auto simp: send_out_def split_beta)
  have pend: "cr_status r = Pending_reply" using assms(1,3) by (auto simp: look_at_reply_def split: if_splits)
  have "deliver max_attempts c dv s = (None, s2)" using w cl s2 by (simp add: deliver_def)
  moreover have "get_reply k (db s2) = Some (take_delivery (cr_attempts r, False) () r)" using cl s2 assms(4) by simp
  ultimately show ?thesis using assms(5) pend by (auto simp: take_delivery_def due_reply_def)
qed

text \<open>
  The claim does not exclude a second dispatcher that looks after it: until the outcome is recorded
  the reply is owed with the next count, and that view can be claimed too.
\<close>

theorem claimed_reply_claimable_again:
  assumes "look_at_reply k (db s) = Owed dv" and "keyed cr_id (replies (db s))" and "get_reply k (db s) = Some r"
    and "\<not> dv_interim dv" and "claim_reply dv s = (won, s1)"
  shows "won \<and> (\<exists>dv'. look_at_reply k (db s1) = Owed dv' \<and> dv_message dv' = dv_message dv \<and> fst (claim_reply dv' s1))"
proof -
  note cl = claim_fresh_view [OF assms(1,2,3,5)]
  have k1: "keyed cr_id (replies (db s1))"
    using claim_reply_cases [OF assms(5)] assms(2) by (simp add: keyed_update_where)
  have r1: "get_reply k (db s1) = Some (r\<lparr>cr_attempts := cr_attempts r + 1\<rparr>)"
    using cl assms(4) by (simp add: take_delivery_def)
  have same_run: "get_run j (db s1) = get_run j (db s)" for j using cl by (simp add: get_run_def)
  obtain x where x: "get_run (cr_run r) (db s) = Some x" and pend: "cr_status r = Pending_reply"
    using assms(1,3) by (auto simp: look_at_reply_def split: if_splits option.splits)
  have "look_at_reply k (db s1) = Owed (dv\<lparr>dv_attempts := cr_attempts r + 1\<rparr>)"
    using assms(1,3,4) by (auto simp: look_at_reply_def r1 same_run x pend Let_def split: if_splits)
  then show ?thesis using cl claim_fresh_view [OF _ k1 r1] by (metis delivery.select_convs(5) delivery.surjective delivery.update_convs(4) prod.collapse)
qed

section \<open>The properties at work\<close>

definition demo_inbound :: inbound where
  "demo_inbound = \<lparr>in_channel = TELEGRAM, in_conversation = ''42'', in_sender = ''7'', in_external = ''m1'',
     in_display = ''Ann'', in_text = ''hello'', in_subject = []\<rparr>"

definition demo_target :: channel_target where
  "demo_target = \<lparr>tg_workspace = ''w1'', tg_handle = ''ops''\<rparr>"

text \<open>A deployment whose only conversation is bound to its only session, with one reply owed for a
  finished run.\<close>

definition channel_state :: "reply_status \<Rightarrow> nat state" where
  "channel_state st = (demo_state [] Succeeded)\<lparr>db := (demo_db Succeeded)\<lparr>
     bindings := [new_binding demo_inbound ''w1'' ''b1'' ''s1'' 1],
     replies := [(owed_reply demo_inbound ''w1'' ''c1'' ''r1'' 1)\<lparr>cr_status := st\<rparr>]\<rparr>\<rparr>"

definition demo_transport :: "bool \<Rightarrow> nat backend transport" where
  "demo_transport up = \<lparr>tp_kind = TELEGRAM,
     tp_send = (\<lambda>m w. (if up then Delivered True ''ok'' else Send_raised, w))\<rparr>"

lemmas channel_demo = channel_state_def demo_inbound_def demo_target_def demo_transport_def demo_defs
  new_binding_def routing_key_def owed_reply_def reply_handle_def get_reply_def

lemma demo_look:
  "\<exists>dv r. look_at_reply ''c1'' (db (channel_state Pending_reply)) = Owed dv \<and> \<not> dv_interim dv \<and>
     get_reply ''c1'' (db (channel_state Pending_reply)) = Some r \<and> cr_attempts r = 0 \<and> cr_channel r = ''telegram'' \<and>
     due_reply 3 (db (channel_state Pending_reply)) r"
  by (simp add: look_at_reply_def due_reply_def terminal_status_def channel_demo)

lemma demo_reply_keys: "keyed cr_id (replies (db (channel_state st)))"
  by (simp add: channel_demo)

text \<open>The first delivery, the cancellation of the run it made, and the second delivery.\<close>

theorem redelivery_is_duplicate_witness:
  "\<exists>ru s1 s2. handle_inbound demo_services demo_quota (\<lambda>t. t) demo_inbound demo_target (channel_state Sent) = (Inr ru, s1) \<and>
     request_cancel (ru_run ru) ''w1'' s1 = (Inr True, s2) \<and>
     handle_inbound demo_services demo_quota (\<lambda>t. t) demo_inbound demo_target s2 = (Inr (ru\<lparr>ru_duplicate := True\<rparr>), s2)"
proof -
  have "\<exists>ru s1 r. handle_inbound demo_services demo_quota (\<lambda>t. t) demo_inbound demo_target (channel_state Sent) = (Inr ru, s1) \<and>
      get_run (ru_run ru) (db s1) = Some r \<and> rn_status r = Queued \<and> rn_workspace r = ''w1''"
    by (simp add: handle_inbound_def session_for_def bound_session_def submit_message_def plan_goal_def admit_def channel_demo
        enforce_run_quota_def current_usage_def active_status_def demo_quota_def place_run_def add_message_def add_run_def fresh_def
        owe_reply_def compose_goal_def Let_def new_id_def)
  then obtain ru s1 r where s1: "handle_inbound demo_services demo_quota (\<lambda>t. t) demo_inbound demo_target (channel_state Sent) = (Inr ru, s1)"
    and r: "get_run (ru_run ru) (db s1) = Some r" "rn_status r = Queued" "rn_workspace r = ''w1''"
    by blast
  obtain f s2 where s2: "request_cancel (ru_run ru) ''w1'' s1 = (Inr True, s2)"
    "s2 = publish (cancel_event ''w1'' (ru_run ru)) (update_run (ru_run ru) f s1)" "\<And>r. run_identity (f r) = run_identity r"
    using r by (auto simp: request_cancel_def terminal_status_def run_identity_def)
  have sound: "bindings_sound (channel_state Sent)" by (simp add: bindings_sound_def channel_demo fresh_def new_id_def)
  have "map run_identity (update_where P f rows) = map run_identity rows" for P rows
    using s2(3) by (simp add: update_where_def)
  then have "channel_later s1 s2"
    by (simp add: channel_later_def table_grows_def s2(2) update_run_def get_session_def)
  from redelivery_is_duplicate [OF s1 sound this] s1 s2(1) show ?thesis by blast
qed


theorem reply_lost_on_last_attempt_witness:
  "\<exists>dv s' r'. look_at_reply ''c1'' (db (channel_state Pending_reply)) = Owed dv \<and>
     deliver 1 (demo_transport False) dv (channel_state Pending_reply) = (None, s') \<and>
     get_reply ''c1'' (db s') = Some r' \<and> \<not> due_reply 1 (db s') r'"
proof -
  obtain dv r where v: "look_at_reply ''c1'' (db (channel_state Pending_reply)) = Owed dv" "\<not> dv_interim dv"
    "get_reply ''c1'' (db (channel_state Pending_reply)) = Some r" "cr_attempts r = 0"
    using demo_look by blast
  have "fst (tp_send (demo_transport False) (dv_message dv) (outside (channel_state Pending_reply))) = Send_raised"
    by (simp add: demo_transport_def)
  with reply_lost_on_last_attempt [OF v(1) demo_reply_keys v(3,2), of 1 "demo_transport False"] v show ?thesis
    by auto
qed

end
