(* ===== verification/Calendar.thy ===== *)
theory Calendar
  imports Store
begin

text \<open>
  The UTC calendar of the standard library's \<open>datetime\<close>, on instants in microseconds since
  1970: the civil fields of an instant and its ISO 8601 text.  The year is taken to begin in March,
  so that the leap day is its last day.
\<close>

record civil =
  cv_year :: int
  cv_month :: int
  cv_day :: int
  cv_hour :: int
  cv_minute :: int
  cv_second :: int
  cv_micro :: int

definition day_number :: "instant \<Rightarrow> int" where
  "day_number t = t div 86400000000"

definition civil_of :: "instant \<Rightarrow> civil" where
  "civil_of t =
     (let days = day_number t + 719468; era = days div 146097; doe = days mod 146097;
          century = min 3 (doe div 36524); r = doe - 36524 * century;
          cycle = r div 1461; r2 = r - 1461 * cycle;
          yr = min 3 (r2 div 365); doy = r2 - 365 * yr;
          mp = (5 * doy + 2) div 153; month = (if mp < 10 then mp + 3 else mp - 9);
          us = t mod 86400000000
      in \<lparr>cv_year = 400 * era + 100 * century + 4 * cycle + yr + (if month \<le> 2 then 1 else 0), cv_month = month,
          cv_day = doy - (153 * mp + 2) div 5 + 1, cv_hour = us div 3600000000, cv_minute = us div 60000000 mod 60,
          cv_second = us div 1000000 mod 60, cv_micro = us mod 1000000\<rparr>)"

definition instant_of :: "civil \<Rightarrow> instant" where
  "instant_of c =
     (let early = cv_month c \<le> 2; yr = (if early then cv_year c - 1 else cv_year c); yoe = yr mod 400;
          mp = (if early then cv_month c + 9 else cv_month c - 3);
          doy = (153 * mp + 2) div 5 + cv_day c - 1;
          days = yr div 400 * 146097 + yoe div 100 * 36524 + yoe mod 100 div 4 * 1461 + yoe mod 4 * 365 + doy - 719468
      in ((days * 24 + cv_hour c) * 60 + cv_minute c) * 60000000 + cv_second c * 1000000 + cv_micro c)"

text \<open>\<open>isoweekday() % 7\<close>: Sunday is 0; the epoch was a Thursday.\<close>

definition weekday_of :: "instant \<Rightarrow> int" where
  "weekday_of t = (day_number t + 4) mod 7"

text \<open>\<open>t.replace(second=0, microsecond=0)\<close>.\<close>

definition minute_start :: "instant \<Rightarrow> instant" where
  "minute_start t = t - t mod 60000000"

definition pad :: "nat \<Rightarrow> int \<Rightarrow> string" where
  "pad w n = (let ds = show_int n in replicate (w - length ds) CHR ''0'' @ ds)"

definition iso_format :: "instant \<Rightarrow> string" where
  "iso_format t =
     (let c = civil_of t
      in pad 4 (cv_year c) @ ''-'' @ pad 2 (cv_month c) @ ''-'' @ pad 2 (cv_day c) @ ''T'' @ pad 2 (cv_hour c) @ '':'' @
         pad 2 (cv_minute c) @ '':'' @ pad 2 (cv_second c) @ (if cv_micro c = 0 then [] else ''.'' @ pad 6 (cv_micro c)))"

text \<open>The fields determine the instant.\<close>

lemma civil_parts:
  fixes doe :: int
  assumes "0 \<le> doe" and "doe < 146097"
  defines "century \<equiv> min 3 (doe div 36524)"
  defines "cycle \<equiv> (doe - 36524 * century) div 1461"
  defines "yr \<equiv> min 3 ((doe - 36524 * century - 1461 * cycle) div 365)"
  defines "doy \<equiv> doe - 36524 * century - 1461 * cycle - 365 * yr"
  shows "0 \<le> century \<and> century \<le> 3 \<and> 0 \<le> cycle \<and> cycle \<le> 24 \<and> 0 \<le> yr \<and> yr \<le> 3 \<and> 0 \<le> doy \<and> doy \<le> 365"
proof -
  have c: "0 \<le> century" "century \<le> 3" "0 \<le> doe - 36524 * century" "doe - 36524 * century \<le> 36524"
    using assms(1,2) by (auto simp: century_def min_def)
  then have q: "0 \<le> cycle" "cycle \<le> 24" "0 \<le> doe - 36524 * century - 1461 * cycle"
    "doe - 36524 * century - 1461 * cycle \<le> 1460"
    by (simp_all add: cycle_def)
  then have "0 \<le> yr" "yr \<le> 3" "0 \<le> doy" "doy \<le> 365" by (auto simp: yr_def doy_def min_def)
  with c q show ?thesis by simp
qed

lemma march_month:
  assumes "0 \<le> doy" and "doy \<le> (365 :: int)"
  shows "0 \<le> (5 * doy + 2) div 153 \<and> (5 * doy + 2) div 153 \<le> 11"
  using assms by auto

lemma div_parts:
  fixes c n r :: int
  assumes "0 \<le> r" and "r < n"
  shows "(n * c + r) div n = c \<and> (n * c + r) mod n = r"
  using assms by simp

lemma year_parts:
  fixes era century cycle yr :: int
  assumes "0 \<le> century" "century \<le> 3" "0 \<le> cycle" "cycle \<le> 24" "0 \<le> yr" "yr \<le> 3"
  defines "y \<equiv> 400 * era + 100 * century + 4 * cycle + yr"
  shows "y div 400 = era \<and> y mod 400 div 100 = century \<and> y mod 400 mod 100 div 4 = cycle \<and> y mod 400 mod 4 = yr"
proof -
  have "y = 400 * era + (100 * century + (4 * cycle + yr))" by (simp add: y_def)
  with div_parts [of "100 * century + (4 * cycle + yr)" 400 era] assms(1-6)
  have m: "y mod 400 = 100 * century + (4 * cycle + yr)" "y div 400 = era" by auto
  have "(100 * century + (4 * cycle + yr)) div 100 = century" "(100 * century + (4 * cycle + yr)) mod 100 = 4 * cycle + yr"
    using div_parts [of "4 * cycle + yr" 100 century] assms(3-6) by auto
  moreover have "(4 * cycle + yr) div 4 = cycle" using div_parts [of yr 4 cycle] assms(5,6) by auto
  moreover have "(100 * century + (4 * cycle + yr)) mod 4 = yr"
    using div_parts [of yr 4 "25 * century + cycle"] assms(5,6) by (simp add: algebra_simps)
  ultimately show ?thesis using m by simp
qed

lemma clock_parts:
  fixes n :: int
  shows "n div 1000000 div 60 div 60 * 3600000000 + n div 1000000 div 60 mod 60 * 60000000 +
    n div 1000000 mod 60 * 1000000 + n mod 1000000 = n"
proof -
  have "\<lbrakk>x = a * 1000000 + r; a = b * 60 + s; b = h * 60 + m\<rbrakk> \<Longrightarrow>
      h * 3600000000 + m * 60000000 + s * 1000000 + r = x" for x a b h r s m :: int
    by simp
  from this [OF div_mult_mod_eq [symmetric] div_mult_mod_eq [symmetric] div_mult_mod_eq [symmetric]] show ?thesis .
qed

lemma instant_of_civil: "instant_of (civil_of t) = t"
proof -
  define days where "days = day_number t + 719468"
  define doe where "doe = days mod 146097"
  define century where "century = min 3 (doe div 36524)"
  define cycle where "cycle = (doe - 36524 * century) div 1461"
  define yr where "yr = min 3 ((doe - 36524 * century - 1461 * cycle) div 365)"
  define doy where "doy = doe - 36524 * century - 1461 * cycle - 365 * yr"
  define mp where "mp = (5 * doy + 2) div 153"
  define us where "us = t mod 86400000000"
  have doe: "0 \<le> doe" "doe < 146097" by (simp_all add: doe_def)
  have parts: "0 \<le> century" "century \<le> 3" "0 \<le> cycle" "cycle \<le> 24" "0 \<le> yr" "yr \<le> 3" "0 \<le> doy" "doy \<le> 365"
    using civil_parts [OF doe] by (simp_all only: century_def cycle_def yr_def doy_def)
  have mp: "0 \<le> mp" "mp \<le> 11" using march_month [OF parts(7,8)] by (simp_all add: mp_def)
  have split: "doe = 36524 * century + 1461 * cycle + 365 * yr + doy" by (simp add: doy_def)
  have us: "us div 3600000000 * 3600000000 + us div 60000000 mod 60 * 60000000 + us div 1000000 mod 60 * 1000000 + us mod 1000000 = us"
  proof -
    have "us div 3600000000 = us div 1000000 div 60 div 60" "us div 60000000 = us div 1000000 div 60"
      by (simp_all add: zdiv_zmult2_eq [symmetric])
    then show ?thesis by (simp only: clock_parts)
  qed
  have days: "days = 146097 * (days div 146097) + doe" by (simp add: doe_def)
  have tt: "t = day_number t * 86400000000 + us" by (simp add: us_def day_number_def)
  have c: "civil_of t = \<lparr>cv_year = 400 * (days div 146097) + 100 * century + 4 * cycle + yr +
        (if (if mp < 10 then mp + 3 else mp - 9) \<le> 2 then 1 else 0),
      cv_month = (if mp < 10 then mp + 3 else mp - 9), cv_day = doy - (153 * mp + 2) div 5 + 1,
      cv_hour = us div 3600000000, cv_minute = us div 60000000 mod 60, cv_second = us div 1000000 mod 60,
      cv_micro = us mod 1000000\<rparr>"
    by (simp only: civil_of_def Let_def days_def doe_def century_def cycle_def yr_def doy_def mp_def us_def)
  have early: "((if mp < 10 then mp + 3 else mp - 9) \<le> 2) = (\<not> mp < 10)" using mp by auto
  have mp2: "(if \<not> mp < 10 then (if mp < 10 then mp + 3 else mp - 9) + 9 else (if mp < 10 then mp + 3 else mp - 9) - 3) = mp" by simp
  have y: "(if \<not> mp < 10 then 400 * (days div 146097) + 100 * century + 4 * cycle + yr + (if \<not> mp < 10 then 1 else 0) - 1
      else 400 * (days div 146097) + 100 * century + 4 * cycle + yr + (if \<not> mp < 10 then 1 else 0)) =
      400 * (days div 146097) + 100 * century + 4 * cycle + yr" by simp
  have "(let v = 400 * (days div 146097) + 100 * century + 4 * cycle + yr in
      v div 400 * 146097 + v mod 400 div 100 * 36524 + v mod 400 mod 100 div 4 * 1461 + v mod 400 mod 4 * 365) =
      146097 * (days div 146097) + 36524 * century + 1461 * cycle + 365 * yr"
    using year_parts [OF parts(1-6), of "days div 146097"] by (simp add: Let_def)
  then have dn: "(let v = 400 * (days div 146097) + 100 * century + 4 * cycle + yr in
      v div 400 * 146097 + v mod 400 div 100 * 36524 + v mod 400 mod 100 div 4 * 1461 + v mod 400 mod 4 * 365) +
      ((153 * mp + 2) div 5 + (doy - (153 * mp + 2) div 5 + 1) - 1) - 719468 = day_number t"
    using days split days_def by simp
  have lift: "((d * 24 + h) * 60 + m) * 60000000 + sec * 1000000 + r =
      d * 86400000000 + (h * 3600000000 + m * 60000000 + sec * 1000000 + r)" for d h m sec r :: int by simp
  show ?thesis using dn
    by (simp only: c instant_of_def Let_def civil.select_convs early mp2 y lift us tt [symmetric] add.assoc [symmetric])
qed

end
