(* ===== verification/Scheduler.thy ===== *)
theory Scheduler
  imports Conductor Calendar
begin

text \<open>
  \<open>scheduler.py\<close>: cron expressions and the firing of due schedules in two phases, the marking
  transaction and the submissions.  \<open>None\<close> as the result of a match is the \<open>ValueError\<close>.
\<close>

section \<open>Cron expressions\<close>

fun field_parts :: "string list \<Rightarrow> int \<Rightarrow> bool option" where
  "field_parts [] v = Some False"
| "field_parts (p # ps) v =
     (if p = ''*'' then Some True
      else if starts_with ''*/'' p then
        (case parse_int (drop 2 p) of
           None \<Rightarrow> None
         | Some step \<Rightarrow> if step > 0 \<and> v mod step = 0 then Some True else field_parts ps v)
      else if CHR ''-'' \<in> set p then
        (case parse_int (part_before (CHR ''-'') p) of
           None \<Rightarrow> None
         | Some low \<Rightarrow>
             if low \<le> v then
               (case parse_int (part_after (CHR ''-'') p) of
                  None \<Rightarrow> None
                | Some high \<Rightarrow> if v \<le> high then Some True else field_parts ps v)
             else field_parts ps v)
      else if parse_nat p = Some (nat v) \<and> 0 \<le> v then Some True
      else field_parts ps v)"

definition field_matches :: "string \<Rightarrow> int \<Rightarrow> bool option" where
  "field_matches f v = field_parts (split_on (CHR '','') f) v"

text \<open>The conjunction stops at the first field that does not match.\<close>

fun all_match :: "(string \<times> int) list \<Rightarrow> bool option" where
  "all_match [] = Some True"
| "all_match ((f, v) # rest) =
     (case field_matches f v of None \<Rightarrow> None | Some False \<Rightarrow> Some False | Some True \<Rightarrow> all_match rest)"

definition cron_matches :: "string \<Rightarrow> instant \<Rightarrow> bool option" where
  "cron_matches expression now =
     (let fields = split_ws expression; c = civil_of now
      in if length fields \<noteq> 5 then None
         else all_match (zip fields [cv_minute c, cv_hour c, cv_day c, cv_month c, weekday_of now]))"

section \<open>Firing\<close>

record due_fire =
  df_schedule :: ident
  df_workspace :: ident
  df_session :: ident
  df_user :: ident
  df_goal :: string

definition fires_at :: "instant \<Rightarrow> schedule \<Rightarrow> bool" where
  "fires_at now sc =
     (cron_matches (sd_cron sc) now = Some True \<and>
      (case sd_last_fired_at sc of None \<Rightarrow> True | Some t \<Rightarrow> minute_start t \<noteq> minute_start now))"

definition schedule_session :: "schedule \<Rightarrow> ident \<Rightarrow> instant \<Rightarrow> session" where
  "schedule_session sc k now =
     \<lparr>ss_id = k, ss_created = now, ss_workspace = sd_workspace sc, ss_user = sd_user sc, ss_profile = sd_profile sc,
      ss_title = ''Scheduled: '' @ take 60 (sd_goal sc), ss_sandbox_dir = ''schedule-'' @ sd_id sc, ss_archived = False\<rparr>"

definition update_schedule :: "ident \<Rightarrow> (schedule \<Rightarrow> schedule) \<Rightarrow> 'w sys \<Rightarrow> 'w sys" where
  "update_schedule k f = on_db (\<lambda>d. d\<lparr>schedules := update_where (\<lambda>x. sd_id x = k) f (schedules d)\<rparr>)"

definition mark_schedule :: "instant \<Rightarrow> schedule \<Rightarrow> 'w sys \<Rightarrow> due_fire \<times> 'w sys" where
  "mark_schedule now sc s =
     (let s1 = update_schedule (sd_id sc) (\<lambda>x. x\<lparr>sd_last_fired_at := Some now\<rparr>) s;
          sid = fresh s1;
          s2 = use_id (on_db (\<lambda>d. d\<lparr>sessions := sessions d @ [schedule_session sc sid (clock s1)]\<rparr>) s1)
      in (\<lparr>df_schedule = sd_id sc, df_workspace = sd_workspace sc, df_session = sid, df_user = sd_user sc,
           df_goal = sd_goal sc\<rparr>, s2))"

text \<open>The marking transaction works on the rows it has read.\<close>

fun mark_due :: "instant \<Rightarrow> schedule list \<Rightarrow> 'w sys \<Rightarrow> due_fire list \<times> 'w sys" where
  "mark_due now [] s = ([], s)"
| "mark_due now (sc # scs) s =
     (if fires_at now sc then
        (let (f, s1) = mark_schedule now sc s; (fs, s2) = mark_due now scs s1 in (f # fs, s2))
      else mark_due now scs s)"

definition enabled_schedules :: "database \<Rightarrow> schedule list" where
  "enabled_schedules d = filter sd_enabled (schedules d)"

definition fired_event :: "due_fire \<Rightarrow> event" where
  "fired_event f =
     \<lparr>ev_type = SCHEDULE_FIRED, ev_workspace = df_workspace f, ev_session = Some (df_session f), ev_run = None,
      ev_payload = [(''schedule_id'', JStr (df_schedule f))]\<rparr>"

fun submit_fires :: "'v services \<Rightarrow> quota_policy \<Rightarrow> due_fire list \<Rightarrow> 'v state \<Rightarrow> submit_error option \<times> 'v state" where
  "submit_fires sv p [] s = (None, s)"
| "submit_fires sv p (f # fs) s =
     (case submit_message sv p (df_session f) (df_goal f) False None (publish (fired_event f) s) of
        (Inl e, s1) \<Rightarrow> (Some e, s1)
      | (Inr k, s1) \<Rightarrow> submit_fires sv p fs s1)"

definition fire_due_schedules ::
  "'v services \<Rightarrow> quota_policy \<Rightarrow> instant option \<Rightarrow> 'v state \<Rightarrow> (submit_error + nat) \<times> 'v state" where
  "fire_due_schedules sv p at_time s =
     (let now = (case at_time of Some t \<Rightarrow> t | None \<Rightarrow> clock s);
          (fires, s1) = mark_due now (enabled_schedules (db s)) s
      in case submit_fires sv p fires s1 of
           (Some e, s2) \<Rightarrow> (Inl e, s2)
         | (None, s2) \<Rightarrow> (Inr (length fires), s2))"

section \<open>What a firing does\<close>

lemma mark_schedule_sel:
  assumes "mark_schedule now sc s = (f, s1)"
  shows "schedules (db s1) = update_where (\<lambda>x. sd_id x = sd_id sc) (\<lambda>x. x\<lparr>sd_last_fired_at := Some now\<rparr>) (schedules (db s)) \<and>
    sessions (db s1) = sessions (db s) @ [schedule_session sc (fresh s) (clock s)] \<and> runs (db s1) = runs (db s) \<and>
    clock s1 = clock s \<and> id_supply s1 = Suc (id_supply s) \<and> df_schedule f = sd_id sc \<and> df_session f = fresh s \<and>
    df_goal f = sd_goal sc \<and> df_workspace f = sd_workspace sc"
  using assms by (auto simp: mark_schedule_def update_schedule_def fresh_def Let_def)

definition stamped :: "instant \<Rightarrow> schedule list \<Rightarrow> schedule \<Rightarrow> schedule" where
  "stamped now fired x = (if sd_id x \<in> sd_id ` set fired then x\<lparr>sd_last_fired_at := Some now\<rparr> else x)"

lemma stamped_id [simp]: "sd_id (stamped now fired x) = sd_id x" "sd_cron (stamped now fired x) = sd_cron x"
  "sd_enabled (stamped now fired x) = sd_enabled x"
  by (simp_all add: stamped_def)

lemma mark_due_exact:
  assumes "mark_due now scs s = (fs, s1)"
  shows "schedules (db s1) = map (stamped now (filter (fires_at now) scs)) (schedules (db s)) \<and>
    runs (db s1) = runs (db s) \<and> clock s1 = clock s \<and> map df_schedule fs = map sd_id (filter (fires_at now) scs) \<and>
    map df_goal fs = map sd_goal (filter (fires_at now) scs) \<and>
    (\<exists>new. sessions (db s1) = sessions (db s) @ new \<and> map ss_id new = map df_session fs \<and>
       map ss_workspace new = map df_workspace fs)"
  using assms
proof (induction scs arbitrary: s fs)
  case Nil
  then show ?case by (simp add: stamped_def)
next
  case (Cons sc scs)
  show ?case
  proof (cases "fires_at now sc")
    case True
    obtain f s0 where m: "mark_schedule now sc s = (f, s0)" by fastforce
    obtain gs where g: "mark_due now scs s0 = (gs, s1)" and fs: "fs = f # gs"
      using Cons.prems True m by (auto simp: split: prod.splits)
    note one = mark_schedule_sel [OF m] and rest = Cons.IH [OF g]
    have "map (stamped now (filter (fires_at now) scs)) (update_where (\<lambda>x. sd_id x = sd_id sc) (\<lambda>x. x\<lparr>sd_last_fired_at := Some now\<rparr>) xs)
        = map (stamped now (sc # filter (fires_at now) scs)) xs" for xs
      by (induction xs) (auto simp: stamped_def)
    with one rest True fs show ?thesis by (auto simp: schedule_session_def)
  qed (use Cons in simp)
qed

lemma submit_keeps_schedules:
  assumes "submit_message sv p sid t plan key s = (r, s')"
  shows "schedules (db s') = schedules (db s) \<and> sessions (db s') = sessions (db s)"
  by (subst (1 2) submit_touches [OF assms]) simp

lemma submit_fires_schedules:
  "submit_fires sv p fs s = (e, s') \<Longrightarrow> schedules (db s') = schedules (db s)"
proof (induction fs arbitrary: s)
  case (Cons f fs)
  obtain r s1 where r: "submit_message sv p (df_session f) (df_goal f) False None (publish (fired_event f) s) = (r, s1)"
    by fastforce
  from Cons.prems Cons.IH submit_keeps_schedules [OF r] r show ?case by (cases r) auto
qed simp

text \<open>Without a plan and a key a submission either adds one queued run with the text as its goal, or nothing.\<close>

lemma submit_plain:
  assumes "submit_message sv p sid t False None s = (r, s')"
  shows "clock s' = clock s \<and> (case r of
      Inl e \<Rightarrow> db s' = db s
    | Inr k \<Rightarrow> \<exists>x. runs (db s') = runs (db s) @ [x] \<and> rn_id x = k \<and> rn_goal x = t \<and> rn_session x = sid \<and> rn_status x = Queued)"
proof (cases "admit p sid None s")
  case (Inr y)
  then obtain ss where "y = Inr ss" by (auto simp: admit_def truthy_def split: option.splits sum.splits)
  then show ?thesis using assms Inr
    by (auto simp: submit_message_def plan_goal_def place_run_def add_message_def add_run_def queued_run_def Let_def)
qed (use assms in \<open>auto simp: submit_message_def\<close>)

lemma submit_fires_runs:
  assumes "submit_fires sv p fs s = (e, s')"
  shows "\<exists>new. runs (db s') = runs (db s) @ new \<and> (\<forall>x\<in>set new. rn_status x = Queued) \<and>
    map (\<lambda>x. (rn_session x, rn_goal x)) new = take (length new) (map (\<lambda>f. (df_session f, df_goal f)) fs) \<and>
    length new \<le> length fs \<and> (e = None \<longleftrightarrow> length new = length fs)"
  using assms
proof (induction fs arbitrary: s)
  case (Cons f fs)
  obtain r s1 where r: "submit_message sv p (df_session f) (df_goal f) False None (publish (fired_event f) s) = (r, s1)"
    by fastforce
  note plain = submit_plain [OF r]
  show ?case
  proof (cases r)
    case (Inl x)
    with Cons.prems r plain show ?thesis by (intro exI [of _ "[]"]) auto
  next
    case (Inr k)
    with Cons.prems r have "submit_fires sv p fs s1 = (e, s')" by simp
    from Cons.IH [OF this] obtain new where new: "runs (db s') = runs (db s1) @ new" "\<forall>x\<in>set new. rn_status x = Queued"
      "map (\<lambda>x. (rn_session x, rn_goal x)) new = take (length new) (map (\<lambda>f. (df_session f, df_goal f)) fs)"
      "length new \<le> length fs" "e = None \<longleftrightarrow> length new = length fs"
      by blast
    from plain Inr obtain x where "runs (db s1) = runs (db s) @ [x]" "rn_goal x = df_goal f" "rn_session x = df_session f"
      "rn_status x = Queued" by auto
    with new show ?thesis by (intro exI [of _ "x # new"]) auto
  qed
qed simp

text \<open>A sweep of the scheduler stamps exactly the enabled schedules that match the minute and have
  not fired in it, opens one session for each, and submits their goals in order: as many queued
  runs as schedules when it returns, and fewer, the rest being stamped and lost for this minute,
  when a submission is refused.\<close>

theorem schedules_fired_exact:
  assumes "fire_due_schedules sv p (Some now) s = (r, s')"
  shows "\<exists>new. schedules (db s') = map (stamped now (filter (fires_at now) (enabled_schedules (db s)))) (schedules (db s)) \<and>
    runs (db s') = runs (db s) @ new \<and> (\<forall>x\<in>set new. rn_status x = Queued) \<and>
    map rn_goal new = take (length new) (map sd_goal (filter (fires_at now) (enabled_schedules (db s)))) \<and>
    (case r of Inr n \<Rightarrow> n = length new \<and> n = length (filter (fires_at now) (enabled_schedules (db s)))
     | Inl e \<Rightarrow> length new < length (filter (fires_at now) (enabled_schedules (db s))))"
proof -
  obtain fs s1 where m: "mark_due now (enabled_schedules (db s)) s = (fs, s1)" by fastforce
  obtain e s2 where f: "submit_fires sv p fs s1 = (e, s2)" by fastforce
  note marked = mark_due_exact [OF m] and same = submit_fires_schedules [OF f]
  from submit_fires_runs [OF f] obtain new where new: "runs (db s2) = runs (db s1) @ new" "\<forall>x\<in>set new. rn_status x = Queued"
    "map (\<lambda>x. (rn_session x, rn_goal x)) new = take (length new) (map (\<lambda>f. (df_session f, df_goal f)) fs)"
    "length new \<le> length fs" "e = None \<longleftrightarrow> length new = length fs"
    by blast
  have s': "s' = s2" "r = (case e of Some x \<Rightarrow> Inl x | None \<Rightarrow> Inr (length fs))"
    using assms m f by (auto simp: fire_due_schedules_def split: option.splits)
  have "map rn_goal new = take (length new) (map df_goal fs)"
    using arg_cong [OF new(3), of "map snd"] by (simp add: comp_def take_map)
  moreover have "length fs = length (filter (fires_at now) (enabled_schedules (db s)))"
    using marked by (metis length_map)
  ultimately show ?thesis using marked same new s' by (auto split: option.splits)
qed

lemma day_number_minute: "day_number t = t div 60000000 div 1440"
  by (simp add: day_number_def zdiv_zmult2_eq [symmetric])

lemma minute_fields:
  "cv_minute (civil_of t) = t div 60000000 mod 60" "cv_hour (civil_of t) = t div 60000000 div 60 mod 24"
proof -
  have us: "t mod 86400000000 = t mod 60000000 + 60000000 * (t div 60000000 mod 1440)"
    using mod_mult2_eq' [of t 60000000 1440] by simp
  have q: "(t mod 60000000 + 60000000 * x) div 60000000 = x" for x by simp
  have "t mod 86400000000 div 60000000 = t div 60000000 mod 1440" by (simp only: us q)
  moreover have "t mod 86400000000 div 3600000000 = t mod 86400000000 div 60000000 div 60"
    by (simp add: zdiv_zmult2_eq [symmetric])
  moreover have "x mod 1440 mod 60 = x mod 60" "x mod 1440 div 60 = x div 60 mod 24" for x :: int
    using mod_mult2_eq' [of x 60 24] by (simp_all add: mod_mod_cancel)
  ultimately show "cv_minute (civil_of t) = t div 60000000 mod 60" "cv_hour (civil_of t) = t div 60000000 div 60 mod 24"
    by (simp_all only: civil_of_def Let_def civil.select_convs)
qed

lemma cron_minute:
  assumes "minute_start t = minute_start t'"
  shows "cron_matches e t = cron_matches e t'"
proof -
  have "t div 60000000 * 60000000 = t' div 60000000 * 60000000"
    using assms by (simp only: minute_start_def minus_mod_eq_div_mult)
  then have m: "t div 60000000 = t' div 60000000" by simp
  have d: "day_number t = day_number t'" by (simp only: day_number_minute m)
  have "cv_day (civil_of t) = cv_day (civil_of t')" "cv_month (civil_of t) = cv_month (civil_of t')"
    by (simp_all only: civil_of_def Let_def civil.select_convs d)
  then show ?thesis by (simp only: cron_matches_def minute_fields m weekday_of_def d Let_def)
qed

lemma fires_minute:
  assumes "minute_start t = minute_start t'"
  shows "fires_at t x = fires_at t' x"
  unfolding fires_at_def cron_minute [OF assms] assms ..

text \<open>A schedule fires at most once per minute: after a sweep at some instant, whatever became of
  its submissions, a sweep of the same schedules at any instant of the same minute fires nothing and
  changes nothing.\<close>

theorem fires_once_per_minute:
  assumes "fire_due_schedules sv p (Some now) s = (r, s1)" and "keyed sd_id (schedules (db s))"
    and "schedules (db s2) = schedules (db s1)" and "minute_start later = minute_start now"
  shows "fire_due_schedules sv p (Some later) s2 = (Inr 0, s2)"
proof -
  let ?due = "filter (fires_at now) (enabled_schedules (db s))"
  have rows: "schedules (db s2) = map (stamped now ?due) (schedules (db s))"
    using schedules_fired_exact [OF assms(1)] assms(3) by auto
  have "\<not> fires_at later (stamped now ?due x)" if x: "x \<in> set (schedules (db s))" "sd_enabled x" for x
  proof (cases "fires_at now x")
    case True
    with x have "sd_id x \<in> sd_id ` set ?due" by (auto simp: enabled_schedules_def)
    then show ?thesis using assms(4) by (simp add: stamped_def fires_at_def)
  next
    case False
    have "sd_id x \<notin> sd_id ` set ?due"
    proof
      assume "sd_id x \<in> sd_id ` set ?due"
      then obtain y where "y \<in> set ?due" "sd_id y = sd_id x" by auto
      with x(1) assms(2) have "y = x" by (auto simp: enabled_schedules_def keyed_def distinct_map inj_on_def)
      with False \<open>y \<in> set ?due\<close> show False by simp
    qed
    then show ?thesis using False fires_minute [OF assms(4)] by (simp add: stamped_def)
  qed
  then have "filter (fires_at later) (enabled_schedules (db s2)) = []"
    by (auto simp: enabled_schedules_def rows filter_empty_conv)
  moreover have "filter (fires_at later) scs = [] \<Longrightarrow> mark_due later scs s2 = ([], s2)" for scs
    by (induction scs) (auto split: if_splits)
  ultimately show ?thesis by (simp add: fire_due_schedules_def)
qed

section \<open>Where the promises end\<close>

text \<open>
  The check and the stamp are not one statement: two ticks that have both read the schedules before
  either commits both fire.
\<close>

theorem overlapping_ticks_both_fire:
  assumes "fires_at now sc"
  shows "map df_schedule (fst (mark_due now [sc] s)) = [sd_id sc] \<and>
    map df_schedule (fst (mark_due now [sc] (snd (mark_due now [sc] s)))) = [sd_id sc]"
  using assms by (simp add: mark_schedule_def Let_def)

text \<open>The validation of a new schedule matches its expression against the current minute only, and a
  field after one that does not match is not looked at: a malformed expression can be accepted,
  and is then skipped in the very minutes it was meant for.\<close>

theorem cron_validation_depends_on_time:
  "cron_matches ''30 x-y * * *'' 0 = Some False \<and> cron_matches ''30 x-y * * *'' 1800000000 = None"
proof -
  have "split_ws ''30 x-y * * *'' = [''30'', ''x-y'', ''*'', ''*'', ''*'']"
    "field_matches ''30'' 0 = Some False" "field_matches ''30'' 30 = Some True" "field_matches ''x-y'' 0 = None"
    by code_simp+
  then show ?thesis by (simp add: cron_matches_def minute_fields Let_def)
qed

section \<open>The properties at work\<close>

definition nightly :: "string \<Rightarrow> schedule" where
  "nightly cron = \<lparr>sd_id = ''d1'', sd_created = 0, sd_workspace = ''w1'', sd_profile = ''p1'', sd_user = ''u1'',
     sd_cron = cron, sd_goal = ''tidy up'', sd_enabled = True, sd_last_fired_at = None\<rparr>"

definition schedule_state :: "nat state" where
  "schedule_state = idle_state\<lparr>db := (db idle_state)\<lparr>schedules := [nightly ''0-10 * * * *'']\<rparr>\<rparr>"

lemma nightly_fires: "fires_at 90000000 (nightly ''0-10 * * * *'')"
proof -
  have "split_ws ''0-10 * * * *'' = [''0-10'', ''*'', ''*'', ''*'', ''*'']" "field_matches ''0-10'' 1 = Some True"
    by code_simp+
  moreover have "field_matches ''*'' v = Some True" for v by (simp add: field_matches_def)
  ultimately show ?thesis by (simp add: fires_at_def nightly_def cron_matches_def minute_fields Let_def)
qed

lemma schedule_demo:
  "\<exists>s1. fire_due_schedules demo_services demo_quota (Some 90000000) schedule_state = (Inr 1, s1)"
  using nightly_fires
  by (simp add: fire_due_schedules_def schedule_state_def enabled_schedules_def nightly_def mark_schedule_def update_schedule_def
      idle_state_def demo_defs schedule_session_def submit_message_def plan_goal_def admit_def truthy_def enforce_run_quota_def
      current_usage_def demo_quota_def place_run_def add_message_def add_run_def fresh_def Let_def)

theorem schedules_fired_exact_witness:
  "\<exists>r s1. fire_due_schedules demo_services demo_quota (Some 90000000) schedule_state = (r, s1) \<and>
     (\<exists>x. runs (db s1) = [x] \<and> rn_goal x = ''tidy up'' \<and> rn_status x = Queued)"
proof -
  obtain s1 where s1: "fire_due_schedules demo_services demo_quota (Some 90000000) schedule_state = (Inr 1, s1)"
    using schedule_demo by blast
  have en: "filter (fires_at 90000000) (enabled_schedules (db schedule_state)) = [nightly ''0-10 * * * *'']"
    using nightly_fires by (simp add: schedule_state_def enabled_schedules_def) (simp add: nightly_def)
  have "runs (db schedule_state) = []" by (simp add: schedule_state_def idle_state_def)
  moreover obtain new where "runs (db s1) = runs (db schedule_state) @ new" "\<forall>x\<in>set new. rn_status x = Queued"
    "map rn_goal new = take (length new) [''tidy up'']" "1 = length new"
    using schedules_fired_exact [OF s1] by (simp add: en) (force simp: nightly_def)
  ultimately have "\<exists>x. runs (db s1) = [x] \<and> rn_goal x = ''tidy up'' \<and> rn_status x = Queued"
    by (cases new) simp_all
  with s1 show ?thesis by blast
qed

theorem fires_once_per_minute_witness:
  "\<exists>r s1. fire_due_schedules demo_services demo_quota (Some 90000000) schedule_state = (r, s1) \<and>
     fire_due_schedules demo_services demo_quota (Some 119999999) s1 = (Inr 0, s1)"
proof -
  obtain s1 where s1: "fire_due_schedules demo_services demo_quota (Some 90000000) schedule_state = (Inr 1, s1)"
    using schedule_demo by blast
  have "keyed sd_id (schedules (db schedule_state))" by (simp add: schedule_state_def)
  from fires_once_per_minute [OF s1 this refl, of 119999999] s1 show ?thesis by (auto simp: minute_start_def)
qed

end
