(* ===== verification/Access.thy ===== *)
theory Access
  imports Conductor Helper
begin

text \<open>
  Who may do what: \<open>auth/\<close> (roles, permissions, credentials, tokens), \<open>audit.py\<close> with the
  redaction of \<open>observability.py\<close>, \<open>api/deps.py\<close>, and the routers \<open>auth\<close>, \<open>members\<close> and
  \<open>keys\<close>.  A handler gets the state and returns its response or an error; an error rolls the
  transaction back.  The JWT library, SHA-256 and the key derivation are parameters.
\<close>

section \<open>Roles and permissions\<close>

datatype role = OWNER | ADMIN | MEMBER | VIEWER

fun role_value :: "role \<Rightarrow> string" where
  "role_value OWNER = ''owner''"
| "role_value ADMIN = ''admin''"
| "role_value MEMBER = ''member''"
| "role_value VIEWER = ''viewer''"

definition role_named :: "string \<Rightarrow> role option" where
  "role_named t = find (\<lambda>r. role_value r = t) [OWNER, ADMIN, MEMBER, VIEWER]"

datatype permission =
    WORKSPACE_MANAGE | MEMBERS_MANAGE | AGENTS_MANAGE | SESSIONS_USE | RUNS_APPROVE
  | KNOWLEDGE_WRITE | KNOWLEDGE_READ | SCHEDULES_MANAGE | PLUGINS_MANAGE | OBSERVE

fun permission_value :: "permission \<Rightarrow> string" where
  "permission_value WORKSPACE_MANAGE = ''workspace.manage''"
| "permission_value MEMBERS_MANAGE = ''members.manage''"
| "permission_value AGENTS_MANAGE = ''agents.manage''"
| "permission_value SESSIONS_USE = ''sessions.use''"
| "permission_value RUNS_APPROVE = ''runs.approve''"
| "permission_value KNOWLEDGE_WRITE = ''knowledge.write''"
| "permission_value KNOWLEDGE_READ = ''knowledge.read''"
| "permission_value SCHEDULES_MANAGE = ''schedules.manage''"
| "permission_value PLUGINS_MANAGE = ''plugins.manage''"
| "permission_value OBSERVE = ''observe''"

definition viewer_permissions :: "permission list" where
  "viewer_permissions = [KNOWLEDGE_READ, OBSERVE]"

definition member_permissions :: "permission list" where
  "member_permissions = viewer_permissions @ [SESSIONS_USE, KNOWLEDGE_WRITE]"

definition admin_permissions :: "permission list" where
  "admin_permissions = member_permissions @ [AGENTS_MANAGE, RUNS_APPROVE, SCHEDULES_MANAGE, PLUGINS_MANAGE, MEMBERS_MANAGE]"

definition owner_permissions :: "permission list" where
  "owner_permissions = admin_permissions @ [WORKSPACE_MANAGE]"

fun role_grants :: "role \<Rightarrow> permission list" where
  "role_grants VIEWER = viewer_permissions"
| "role_grants MEMBER = member_permissions"
| "role_grants ADMIN = admin_permissions"
| "role_grants OWNER = owner_permissions"

definition role_allows :: "string \<Rightarrow> permission \<Rightarrow> bool" where
  "role_allows r p = (case role_named r of None \<Rightarrow> False | Some x \<Rightarrow> p \<in> set (role_grants x))"

section \<open>Credentials and tokens\<close>

definition hex_text :: "string \<Rightarrow> string" where
  "hex_text bytes = concat (map (\<lambda>c. [hex_char (of_char c div 16), hex_char (of_char c mod 16)]) bytes)"

text \<open>\<open>bytes.fromhex\<close>: pairs of digits, white space between them.\<close>

fun from_hex :: "string \<Rightarrow> string option" where
  "from_hex [] = Some []"
| "from_hex [a] = (if is_space a then Some [] else None)"
| "from_hex (a # b # r) =
     (if is_space a then from_hex (b # r)
      else case (hex_val a, hex_val b) of
        (Some x, Some y) \<Rightarrow> map_option (\<lambda>w. char_of (16 * x + y) # w) (from_hex r)
      | _ \<Rightarrow> None)"

definition password_iterations :: int where
  "password_iterations = 310000"

type_synonym key_derivation = "string \<Rightarrow> string \<Rightarrow> int \<Rightarrow> string"

definition hash_password :: "key_derivation \<Rightarrow> string \<Rightarrow> string \<Rightarrow> string" where
  "hash_password kd salt password =
     ''pbkdf2$'' @ show_int password_iterations @ ''$'' @ hex_text salt @ ''$'' @
     hex_text (kd password salt password_iterations)"

definition verify_password :: "key_derivation \<Rightarrow> string \<Rightarrow> string \<Rightarrow> bool" where
  "verify_password kd password stored =
     (case split_on (CHR ''$'') stored of
        [scheme, iterations, salt, digest] \<Rightarrow>
          scheme = ''pbkdf2'' \<and>
          (case (from_hex salt, parse_int iterations) of
             (Some b, Some n) \<Rightarrow> n \<ge> 1 \<and> hex_text (kd password b n) = digest
           | _ \<Rightarrow> False)
      | _ \<Rightarrow> False)"

definition new_api_key :: "string \<Rightarrow> string" where
  "new_api_key random = ''hx_'' @ map url_char (filter (\<lambda>c. c \<noteq> CHR ''='') (b64_encode random))"

text \<open>The JWT library: signing, and checking signature, issuer and expiry at a time in seconds.\<close>

record jwt_lib =
  jw_encode :: "json_dict \<Rightarrow> string \<Rightarrow> string"
  jw_decode :: "string \<Rightarrow> string \<Rightarrow> string \<Rightarrow> int \<Rightarrow> string + json_dict"

definition seconds :: "instant \<Rightarrow> int" where
  "seconds t = t div 1000000"

definition issue_token :: "jwt_lib \<Rightarrow> ident \<Rightarrow> string \<Rightarrow> int \<Rightarrow> instant \<Rightarrow> string" where
  "issue_token jw user_id secret ttl t =
     jw_encode jw [(''sub'', JStr user_id), (''iat'', JInt (seconds t)), (''exp'', JInt (seconds t + ttl)), (''iss'', JStr ''hoursx'')] secret"

definition verify_token :: "jwt_lib \<Rightarrow> string \<Rightarrow> string \<Rightarrow> instant \<Rightarrow> string + ident" where
  "verify_token jw token secret t =
     (case jw_decode jw token secret ''hoursx'' (seconds t) of
        Inl e \<Rightarrow> Inl e
      | Inr claims \<Rightarrow>
          (case map_of claims ''sub'' of
             Some (JStr sub) \<Rightarrow> if sub = [] then Inl ''token missing subject'' else Inr sub
           | _ \<Rightarrow> Inl ''token missing subject''))"

section \<open>The audit trail\<close>

definition redacted_keys :: "string list" where
  "redacted_keys = [''api_key'', ''authorization'', ''password'', ''secret'', ''token'', ''jwt'']"

fun redact :: "json_dict \<Rightarrow> json_dict" where
  "redact [] = []"
| "redact ((k, v) # rest) =
     (k, if lower k \<in> set redacted_keys then JStr ''***'' else case v of JObj fs \<Rightarrow> JObj (redact fs) | _ \<Rightarrow> v) # redact rest"

definition record_audit ::
  "ident \<Rightarrow> ident option \<Rightarrow> string \<Rightarrow> string \<Rightarrow> ident \<Rightarrow> json_dict \<Rightarrow> 'w sys \<Rightarrow> 'w sys" where
  "record_audit ws actor action kind target detail s =
     use_id (on_db (\<lambda>d. d\<lparr>audit_events := audit_events d @ [\<lparr>ae_id = fresh s, ae_created = clock s, ae_workspace = ws,
       ae_actor = actor, ae_action = action, ae_target_type = kind, ae_target_id = target, ae_detail = redact detail\<rparr>]\<rparr>) s)"

text \<open>\<open>ORDER BY created_at DESC, id DESC\<close>: the ascending order, reversed.\<close>

definition recent_events :: "ident \<Rightarrow> int \<Rightarrow> database \<Rightarrow> audit_event list" where
  "recent_events ws limit d =
     take (nat limit) (rev (sort_key (\<lambda>e. (ae_created e, ae_id e)) (filter (\<lambda>e. ae_workspace e = ws) (audit_events d))))"

section \<open>Requests and actors\<close>

text \<open>An \<open>HTTPException\<close>, a domain error, or an exception no handler expects.\<close>

datatype api_error = Http int string | Domain_error hx_error | Crashed

type_synonym ('a, 'w) handler = "'w sys \<Rightarrow> (api_error + 'a) \<times> 'w sys"

record access_env =
  az_jwt :: jwt_lib
  az_secret :: string
  az_ttl :: int
  az_open_registration :: bool
  az_sha :: "string \<Rightarrow> string"
  az_kd :: key_derivation

record credentials =
  cd_authorization :: "string option"
  cd_api_key :: "string option"
  cd_workspace :: "string option"

record actor =
  ac_user :: user
  ac_workspace :: workspace
  ac_role :: role

definition get_user :: "ident \<Rightarrow> database \<Rightarrow> user option" where
  "get_user k d = find_row us_id k (users d)"

definition active_user :: "user option \<Rightarrow> api_error + user" where
  "active_user u = (case u of
       Some x \<Rightarrow> if us_active x then Inr x else Inl (Http 401 ''unknown or inactive user'')
     | None \<Rightarrow> Inl (Http 401 ''unknown or inactive user''))"

definition bearer :: "string option \<Rightarrow> string option" where
  "bearer h = (case h of None \<Rightarrow> None
     | Some t \<Rightarrow> if starts_with ''bearer '' (lower t) then Some (drop 7 t) else None)"

definition resolve_user :: "access_env \<Rightarrow> string option \<Rightarrow> string option \<Rightarrow> instant \<Rightarrow> database \<Rightarrow> api_error + user" where
  "resolve_user env authorization api_key now d =
     (if truthy api_key then
        (case find (\<lambda>k. ak_key_hash k = az_sha env (the api_key) \<and> \<not> ak_revoked k) (api_keys d) of
           None \<Rightarrow> Inl (Http 401 ''invalid API key'')
         | Some k \<Rightarrow> active_user (get_user (ak_user k) d))
      else case bearer authorization of
        Some token \<Rightarrow>
          (case verify_token (az_jwt env) token (az_secret env) now of
             Inl e \<Rightarrow> Inl (Http 401 e)
           | Inr k \<Rightarrow> active_user (get_user k d))
      | None \<Rightarrow> Inl (Http 401 ''missing credentials''))"

definition memberships :: "ident \<Rightarrow> string option \<Rightarrow> database \<Rightarrow> workspace_member list" where
  "memberships user ws d =
     sort_key wm_created (filter (\<lambda>m. wm_user m = user \<and> (truthy ws \<longrightarrow> Some (wm_workspace m) = ws)) (members d))"

definition get_actor :: "access_env \<Rightarrow> credentials \<Rightarrow> instant \<Rightarrow> database \<Rightarrow> api_error + actor" where
  "get_actor env cd now d =
     (case resolve_user env (cd_authorization cd) (cd_api_key cd) now d of
        Inl e \<Rightarrow> Inl e
      | Inr u \<Rightarrow>
          (case memberships (us_id u) (cd_workspace cd) d of
             [] \<Rightarrow> Inl (Http 403 ''no workspace membership'')
           | m # _ \<Rightarrow>
               (case (find_row wk_id (wm_workspace m) (workspaces d), role_named (wm_role m)) of
                  (Some w, Some r) \<Rightarrow> Inr \<lparr>ac_user = u, ac_workspace = w, ac_role = r\<rparr>
                | _ \<Rightarrow> Inl Crashed)))"

definition require :: "access_env \<Rightarrow> permission \<Rightarrow> credentials \<Rightarrow> instant \<Rightarrow> database \<Rightarrow> api_error + actor" where
  "require env p cd now d =
     (case get_actor env cd now d of
        Inl e \<Rightarrow> Inl e
      | Inr a \<Rightarrow> if role_allows (role_value (ac_role a)) p then Inr a
                 else Inl (Http 403 (''requires permission '' @ permission_value p)))"

text \<open>A route: its dependency, then its handler.\<close>

definition route :: "access_env \<Rightarrow> permission \<Rightarrow> (actor \<Rightarrow> ('a, 'w) handler) \<Rightarrow> credentials \<Rightarrow> ('a, 'w) handler" where
  "route env p h cd s = (case require env p cd (clock s) (db s) of Inl e \<Rightarrow> (Inl e, s) | Inr a \<Rightarrow> h a s)"

section \<open>Registration and login\<close>

record token_response =
  tr_token :: string
  tr_user :: ident
  tr_workspace :: ident

definition issue :: "access_env \<Rightarrow> ident \<Rightarrow> ident \<Rightarrow> instant \<Rightarrow> token_response" where
  "issue env user_id ws now =
     \<lparr>tr_token = issue_token (az_jwt env) user_id (az_secret env) (az_ttl env) now, tr_user = user_id, tr_workspace = ws\<rparr>"

definition found_workspace :: "access_env \<Rightarrow> string \<Rightarrow> string \<Rightarrow> string \<Rightarrow> string \<Rightarrow> 'w sys \<Rightarrow> token_response \<times> 'w sys" where
  "found_workspace env salt email password display s =
     (let uid = fresh s; now = clock s;
          u = \<lparr>us_id = uid, us_created = now, us_email = lower email, us_display_name = display,
               us_password_hash = hash_password (az_kd env) salt password, us_active = True\<rparr>;
          s1 = use_id (on_db (\<lambda>d. d\<lparr>users := users d @ [u]\<rparr>) s);
          wid = fresh s1;
          w = \<lparr>wk_id = wid, wk_created = now, wk_name = display @ [CHR 0x27] @ ''s workspace'', wk_slug = ''ws-'' @ take 12 uid\<rparr>;
          s2 = use_id (on_db (\<lambda>d. d\<lparr>workspaces := workspaces d @ [w]\<rparr>) s1);
          m = \<lparr>wm_id = fresh s2, wm_created = now, wm_workspace = wid, wm_user = uid, wm_role = role_value OWNER\<rparr>
      in (issue env uid wid now, use_id (on_db (\<lambda>d. d\<lparr>members := members d @ [m]\<rparr>) s2)))"

definition register_user ::
  "access_env \<Rightarrow> string \<Rightarrow> string \<Rightarrow> string \<Rightarrow> string \<Rightarrow> (token_response, 'w) handler" where
  "register_user env salt email password display s =
     (if users (db s) \<noteq> [] \<and> \<not> az_open_registration env
      then (Inl (Http 403 ''registration is closed on this deployment''), s)
      else if find_row us_email (lower email) (users (db s)) \<noteq> None
      then (Inl (Http 409 ''email already registered''), s)
      else (case found_workspace env salt email password display s of (r, s1) \<Rightarrow> (Inr r, s1)))"

definition login :: "access_env \<Rightarrow> string \<Rightarrow> string \<Rightarrow> (token_response, 'w) handler" where
  "login env email password s =
     (case find_row us_email (lower email) (users (db s)) of
        None \<Rightarrow> (Inl (Http 401 ''invalid credentials''), s)
      | Some u \<Rightarrow>
          if \<not> verify_password (az_kd env) password (us_password_hash u)
          then (Inl (Http 401 ''invalid credentials''), s)
          else case memberships (us_id u) None (db s) of
            [] \<Rightarrow> (Inl (Http 403 ''no workspace membership''), s)
          | m # _ \<Rightarrow> (Inr (issue env (us_id u) (wm_workspace m) (clock s)), s))"

definition me :: "actor \<Rightarrow> (ident \<times> string \<times> string, 'w) handler" where
  "me a s = (Inr (us_id (ac_user a), us_email (ac_user a), us_display_name (ac_user a)), s)"

section \<open>Membership\<close>

fun rank :: "role \<Rightarrow> nat" where
  "rank VIEWER = 0"
| "rank MEMBER = 1"
| "rank ADMIN = 2"
| "rank OWNER = 3"

definition escalation :: "actor \<Rightarrow> role \<Rightarrow> api_error option" where
  "escalation a target =
     (if rank target > rank (ac_role a)
      then Some (Domain_error \<lparr>er_kind = Validation_failed, er_message = ''cannot grant '' @ role_value target @
             '': it outranks your own role ('' @ role_value (ac_role a) @ '')'', er_context = []\<rparr>)
      else None)"

definition owner_count :: "ident \<Rightarrow> database \<Rightarrow> nat" where
  "owner_count ws d = count_where (\<lambda>m. wm_workspace m = ws \<and> wm_role m = role_value OWNER) (members d)"

definition conflict :: "string \<Rightarrow> api_error" where
  "conflict msg = Domain_error \<lparr>er_kind = Conflict, er_message = msg, er_context = []\<rparr>"

definition member_not_found :: "ident \<Rightarrow> api_error" where
  "member_not_found user_id = Domain_error (not_found ''member not found'' [(''user_id'', JStr user_id)])"

record member_out =
  mo_user :: ident
  mo_email :: string
  mo_display :: string
  mo_role :: string
  mo_created :: instant

definition out_of_member :: "user \<Rightarrow> workspace_member \<Rightarrow> member_out" where
  "out_of_member u m =
     \<lparr>mo_user = us_id u, mo_email = us_email u, mo_display = us_display_name u, mo_role = wm_role m, mo_created = wm_created m\<rparr>"

definition find_member :: "ident \<Rightarrow> ident \<Rightarrow> database \<Rightarrow> workspace_member option" where
  "find_member ws user_id d = find (\<lambda>m. wm_workspace m = ws \<and> wm_user m = user_id) (members d)"

definition list_members :: "actor \<Rightarrow> (member_out list, 'w) handler" where
  "list_members a s =
     (Inr (List.map_filter (\<lambda>m. map_option (\<lambda>u. out_of_member u m) (get_user (wm_user m) (db s)))
        (sort_key wm_created (filter (\<lambda>m. wm_workspace m = wk_id (ac_workspace a)) (members (db s))))), s)"

definition add_member :: "string \<Rightarrow> role \<Rightarrow> actor \<Rightarrow> (member_out, 'w) handler" where
  "add_member email r a s =
     (case escalation a r of
        Some e \<Rightarrow> (Inl e, s)
      | None \<Rightarrow>
          (case find_row us_email (lower email) (users (db s)) of
             None \<Rightarrow> (Inl (Domain_error (not_found (''no user registered with '' @ email) [])), s)
           | Some u \<Rightarrow>
               if find_member (wk_id (ac_workspace a)) (us_id u) (db s) \<noteq> None
               then (Inl (conflict ''user is already a member of this workspace''), s)
               else
                 (let m = \<lparr>wm_id = fresh s, wm_created = clock s, wm_workspace = wk_id (ac_workspace a), wm_user = us_id u,
                        wm_role = role_value r\<rparr>;
                      s1 = use_id (on_db (\<lambda>d. d\<lparr>members := members d @ [m]\<rparr>) s)
                  in (Inr (out_of_member u m),
                      record_audit (wk_id (ac_workspace a)) (Some (us_id (ac_user a))) ''member.added'' ''user'' (us_id u)
                        [(''role'', JStr (role_value r))] s1))))"

definition change_role :: "ident \<Rightarrow> role \<Rightarrow> actor \<Rightarrow> (member_out, 'w) handler" where
  "change_role user_id r a s =
     (case escalation a r of
        Some e \<Rightarrow> (Inl e, s)
      | None \<Rightarrow>
          (case find_member (wk_id (ac_workspace a)) user_id (db s) of
             None \<Rightarrow> (Inl (member_not_found user_id), s)
           | Some m \<Rightarrow>
               if wm_role m = role_value OWNER \<and> r \<noteq> OWNER \<and> owner_count (wk_id (ac_workspace a)) (db s) = 1
               then (Inl (conflict ''cannot demote the last owner; promote another owner first''), s)
               else
                 (let s1 = on_db (\<lambda>d. d\<lparr>members := update_where (\<lambda>x. wm_id x = wm_id m) (\<lambda>x. x\<lparr>wm_role := role_value r\<rparr>) (members d)\<rparr>) s
                  in case get_user user_id (db s1) of
                       None \<Rightarrow> (Inl Crashed, s)
                     | Some u \<Rightarrow>
                         (Inr (out_of_member u (m\<lparr>wm_role := role_value r\<rparr>)),
                          record_audit (wk_id (ac_workspace a)) (Some (us_id (ac_user a))) ''member.role_changed'' ''user'' user_id
                            [(''previous_role'', JStr (wm_role m)), (''new_role'', JStr (role_value r))] s1))))"

definition remove_member :: "ident \<Rightarrow> actor \<Rightarrow> (unit, 'w) handler" where
  "remove_member user_id a s =
     (case find_member (wk_id (ac_workspace a)) user_id (db s) of
        None \<Rightarrow> (Inl (member_not_found user_id), s)
      | Some m \<Rightarrow>
          if wm_role m = role_value OWNER \<and> owner_count (wk_id (ac_workspace a)) (db s) = 1
          then (Inl (conflict ''cannot remove the last owner of a workspace''), s)
          else (Inr (), record_audit (wk_id (ac_workspace a)) (Some (us_id (ac_user a))) ''member.removed'' ''user'' user_id []
                 (on_db (\<lambda>d. d\<lparr>members := filter (\<lambda>x. wm_id x \<noteq> wm_id m) (members d)\<rparr>) s)))"

section \<open>API keys\<close>

record key_out =
  ko_id :: ident
  ko_name :: string
  ko_revoked :: bool
  ko_created :: instant

definition out_of_key :: "api_key \<Rightarrow> key_out" where
  "out_of_key k = \<lparr>ko_id = ak_id k, ko_name = ak_name k, ko_revoked = ak_revoked k, ko_created = ak_created k\<rparr>"

definition list_keys :: "actor \<Rightarrow> (key_out list, 'w) handler" where
  "list_keys a s =
     (Inr (map out_of_key (sort_key (\<lambda>k. - ak_created k) (filter (\<lambda>k. ak_user k = us_id (ac_user a)) (api_keys (db s))))), s)"

text \<open>The response is the only place the key itself appears.\<close>

definition create_key :: "access_env \<Rightarrow> string \<Rightarrow> string \<Rightarrow> actor \<Rightarrow> (key_out \<times> string, 'w) handler" where
  "create_key env random name a s =
     (let key = new_api_key random;
          k = \<lparr>ak_id = fresh s, ak_created = clock s, ak_user = us_id (ac_user a), ak_name = name, ak_key_hash = az_sha env key,
               ak_revoked = False\<rparr>;
          s1 = use_id (on_db (\<lambda>d. d\<lparr>api_keys := api_keys d @ [k]\<rparr>) s)
      in (Inr (out_of_key k, key),
          record_audit (wk_id (ac_workspace a)) (Some (us_id (ac_user a))) ''api_key.created'' ''api_key'' (ak_id k)
            [(''name'', JStr name)] s1))"

definition revoke_key :: "ident \<Rightarrow> actor \<Rightarrow> (unit, 'w) handler" where
  "revoke_key key_id a s =
     (case find_row ak_id key_id (api_keys (db s)) of
        None \<Rightarrow> (Inl (Domain_error (not_found ''api key not found'' [(''key_id'', JStr key_id)])), s)
      | Some k \<Rightarrow>
          if ak_user k \<noteq> us_id (ac_user a)
          then (Inl (Domain_error (not_found ''api key not found'' [(''key_id'', JStr key_id)])), s)
          else (Inr (), record_audit (wk_id (ac_workspace a)) (Some (us_id (ac_user a))) ''api_key.revoked'' ''api_key'' key_id []
                 (on_db (\<lambda>d. d\<lparr>api_keys := update_where (\<lambda>x. ak_id x = key_id) (\<lambda>x. x\<lparr>ak_revoked := True\<rparr>) (api_keys d)\<rparr>) s)))"

end
