(* ===== verification/Access_Props.thy ===== *)
theory Access_Props
  imports Access
begin

text \<open>
  What access control promises: the roles are ordered, every workspace keeps an owner, nobody
  grants more than they have, a revoked key stays revoked, a stored password accepts the password
  it was made from, and audit details carry no secret outside lists.
\<close>

section \<open>Roles\<close>

lemma role_of_value [simp]: "role_named (role_value r) = Some r"
  by (cases r) (simp_all add: role_named_def)

lemma role_value_inject [simp]: "role_value r = role_value r' \<longleftrightarrow> r = r'"
  by (cases r; cases r') simp_all

lemma role_named_Some: "role_named t = Some r \<longleftrightarrow> t = role_value r"
  by (cases r) (auto simp: role_named_def split: if_splits)

lemma role_allows_value [simp]: "role_allows (role_value r) p = (p \<in> set (role_grants r))"
  by (simp add: role_allows_def)

lemmas permission_sets = owner_permissions_def admin_permissions_def member_permissions_def viewer_permissions_def

text \<open>A higher rank has at least the permissions of a lower one, and unknown roles have none.\<close>

lemma grants_follow_rank: "rank r \<le> rank r' \<longleftrightarrow> set (role_grants r) \<subseteq> set (role_grants r')"
  by (cases r; cases r') (simp_all add: permission_sets)

section \<open>Every workspace keeps an owner\<close>

definition administrable :: "'w sys \<Rightarrow> bool" where
  "administrable s =
     (list_all (\<lambda>w. owner_count (wk_id w) (db s) \<ge> 1) (workspaces (db s)) \<and> keyed wm_id (members (db s)) \<and>
      list_all (\<lambda>m. \<exists>n < id_supply s. wm_id m = new_id n) (members (db s)))"

definition access_tables :: "database \<Rightarrow> user list \<times> workspace list \<times> workspace_member list \<times> api_key list" where
  "access_tables d = (users d, workspaces d, members d, api_keys d)"

text \<open>
  One request to the three routers, with whatever credentials; or anything else the service does,
  which leaves the four tables alone.
\<close>

inductive access_step :: "access_env \<Rightarrow> 'w sys \<Rightarrow> 'w sys \<Rightarrow> bool" for env where
  registered: "register_user env salt email password display s = (r, s') \<Longrightarrow> access_step env s s'"
| added: "route env MEMBERS_MANAGE (add_member email role) cd s = (r, s') \<Longrightarrow> access_step env s s'"
| changed: "route env MEMBERS_MANAGE (change_role user_id role) cd s = (r, s') \<Longrightarrow> access_step env s s'"
| removed: "route env MEMBERS_MANAGE (remove_member user_id) cd s = (r, s') \<Longrightarrow> access_step env s s'"
| created: "route env SESSIONS_USE (create_key env random name) cd s = (r, s') \<Longrightarrow> access_step env s s'"
| revoked: "route env SESSIONS_USE (revoke_key key_id) cd s = (r, s') \<Longrightarrow> access_step env s s'"
| elsewhere: "\<lbrakk>access_tables (db s') = access_tables (db s); id_supply s \<le> id_supply s'\<rbrakk> \<Longrightarrow> access_step env s s'"

lemma record_audit_sel [simp]:
  "users (db (record_audit ws a ac k t d s)) = users (db s)" "members (db (record_audit ws a ac k t d s)) = members (db s)"
  "workspaces (db (record_audit ws a ac k t d s)) = workspaces (db s)" "api_keys (db (record_audit ws a ac k t d s)) = api_keys (db s)"
  "id_supply (record_audit ws a ac k t d s) = Suc (id_supply s)"
  by (simp_all add: record_audit_def)

lemma route_cases:
  assumes "route env p h cd s = (r, s')"
  shows "s' = s \<or> (\<exists>a. require env p cd (clock s) (db s) = Inr a \<and> h a s = (r, s'))"
  using assms by (auto simp: route_def split: sum.splits)

text \<open>A row found in a keyed table stands alone under its key.\<close>

lemma found_row_alone:
  assumes "keyed key rows" and "find P rows = Some m"
  shows "\<exists>xs ys. rows = xs @ m # ys \<and> update_where (\<lambda>x. key x = key m) f rows = xs @ f m # ys \<and>
    filter (\<lambda>x. key x \<noteq> key m) rows = xs @ ys"
proof -
  have "m \<in> set rows" using assms(2) by (auto simp: find_Some_iff)
  then obtain xs ys where rows: "rows = xs @ m # ys" by (auto dest: split_list)
  have other: "key x \<noteq> key m" if "x \<in> set xs \<union> set ys" for x
    using assms(1) that rows by (auto simp: keyed_def image_iff)
  have "update_where (\<lambda>x. key x = key m) f xs = xs" "update_where (\<lambda>x. key x = key m) f ys = ys"
    using other by (auto intro: update_where_none)
  moreover have "filter (\<lambda>x. key x \<noteq> key m) xs = xs" "filter (\<lambda>x. key x \<noteq> key m) ys = ys"
    using other by (auto intro: filter_True)
  ultimately show ?thesis using rows by (intro exI [of _ xs] exI [of _ ys]) (simp add: update_where_def)
qed

lemma count_update_le:
  assumes "keyed key rows" and "find P rows = Some m"
  shows "count_where q rows \<le> count_where q (update_where (\<lambda>x. key x = key m) f rows) + (if q m \<and> \<not> q (f m) then 1 else 0)"
  using found_row_alone [OF assms, of f] by auto

lemma count_filter_le:
  assumes "keyed key rows" and "find P rows = Some m"
  shows "count_where q rows \<le> count_where q (filter (\<lambda>x. key x \<noteq> key m) rows) + (if q m then 1 else 0)"
  using found_row_alone [OF assms, of "\<lambda>x. x"] by auto

lemma found_workspace_sel:
  assumes "found_workspace env salt email password display s = (r, s')"
  shows "\<exists>u w m. users (db s') = users (db s) @ [u] \<and> workspaces (db s') = workspaces (db s) @ [w] \<and>
    members (db s') = members (db s) @ [m] \<and> api_keys (db s') = api_keys (db s) \<and> wm_workspace m = wk_id w \<and>
    wm_role m = role_value OWNER \<and> wm_id m = new_id (Suc (Suc (id_supply s))) \<and> id_supply s' = Suc (Suc (Suc (id_supply s)))"
  using assms by (auto simp: found_workspace_def fresh_def Let_def)

lemma administrable_new_member:
  assumes "administrable s" and "members (db s') = members (db s) @ [m]" and "wm_id m = new_id n" and "id_supply s \<le> n"
    and "n < id_supply s'" and "set (workspaces (db s')) \<subseteq> set (workspaces (db s)) \<union> {w. wm_role m = role_value OWNER \<and> wk_id w = wm_workspace m}"
  shows "administrable s'"
proof -
  have "new_id n \<notin> wm_id ` set (members (db s))"
    using assms(1,4) by (auto simp: administrable_def list_all_iff)
  moreover have "owner_count (wk_id w) (db s') \<ge> 1" if "w \<in> set (workspaces (db s'))" for w
    using that assms(1,2,6) by (auto simp: administrable_def owner_count_def list_all_iff)
  moreover have "\<exists>j < id_supply s'. wm_id x = new_id j" if "x \<in> set (members (db s'))" for x
  proof (cases "x = m")
    case False
    then have "x \<in> set (members (db s))" using that assms(2) by simp
    then obtain j where "j < id_supply s" "wm_id x = new_id j"
      using assms(1) unfolding administrable_def list_all_iff by blast
    then show ?thesis using assms(4,5) by (intro exI [of _ j]) simp
  qed (use assms in auto)
  ultimately show ?thesis using assms(1-3) by (auto simp: administrable_def list_all_iff keyed_def)
qed

text \<open>The rows that are left keep the keys, and each workspace its owners: one fewer only where a second was.\<close>

lemma administrable_fewer:
  assumes "administrable s" and "workspaces (db s') = workspaces (db s)" and "id_supply s \<le> id_supply s'"
    and "keyed wm_id (members (db s'))" and "wm_id ` set (members (db s')) \<subseteq> wm_id ` set (members (db s))"
    and "\<And>w. owner_count w (db s) \<le> owner_count w (db s') + (if w = ws \<and> owner_count ws (db s) \<noteq> 1 then 1 else 0)"
  shows "administrable s'"
proof -
  have "owner_count (wk_id w) (db s') \<ge> 1" if "w \<in> set (workspaces (db s'))" for w
    using that assms(1,2) assms(6) [of "wk_id w"] by (auto simp: administrable_def list_all_iff split: if_splits)
  moreover have "\<exists>j < id_supply s'. wm_id x = new_id j" if "x \<in> set (members (db s'))" for x
  proof -
    from that assms(5) obtain y where "y \<in> set (members (db s))" "wm_id y = wm_id x" by (metis imageE image_eqI subset_iff)
    then obtain j where "j < id_supply s" "wm_id x = new_id j"
      using assms(1) by (auto simp: administrable_def list_all_iff)
    then show ?thesis using assms(3) by (intro exI [of _ j]) simp
  qed
  ultimately show ?thesis using assms(4) by (auto simp: administrable_def list_all_iff)
qed

lemma find_member_Some:
  "find_member ws uid d = Some m \<Longrightarrow> m \<in> set (members d) \<and> wm_workspace m = ws \<and> wm_user m = uid"
  by (auto simp: find_member_def find_Some_iff)

lemma change_role_effect:
  assumes "change_role uid r a s = (x, s')" and "s' \<noteq> s"
  shows "\<exists>m. find_member (wk_id (ac_workspace a)) uid (db s) = Some m \<and> rank r \<le> rank (ac_role a) \<and>
    \<not> (wm_role m = role_value OWNER \<and> r \<noteq> OWNER \<and> owner_count (wk_id (ac_workspace a)) (db s) = 1) \<and>
    members (db s') = update_where (\<lambda>x. wm_id x = wm_id m) (\<lambda>x. x\<lparr>wm_role := role_value r\<rparr>) (members (db s)) \<and>
    workspaces (db s') = workspaces (db s) \<and> api_keys (db s') = api_keys (db s) \<and> id_supply s' = Suc (id_supply s)"
  using assms by (auto simp: change_role_def escalation_def Let_def split: if_splits option.splits)

lemma remove_member_effect:
  assumes "remove_member uid a s = (x, s')" and "s' \<noteq> s"
  shows "\<exists>m. find_member (wk_id (ac_workspace a)) uid (db s) = Some m \<and>
    \<not> (wm_role m = role_value OWNER \<and> owner_count (wk_id (ac_workspace a)) (db s) = 1) \<and>
    members (db s') = filter (\<lambda>x. wm_id x \<noteq> wm_id m) (members (db s)) \<and>
    workspaces (db s') = workspaces (db s) \<and> api_keys (db s') = api_keys (db s) \<and> id_supply s' = Suc (id_supply s)"
  using assms by (auto simp: remove_member_def Let_def split: if_splits option.splits)

lemma add_member_effect:
  assumes "add_member email r a s = (x, s')" and "s' \<noteq> s"
  shows "\<exists>m. rank r \<le> rank (ac_role a) \<and> members (db s') = members (db s) @ [m] \<and> wm_id m = fresh s \<and>
    wm_workspace m = wk_id (ac_workspace a) \<and> wm_role m = role_value r \<and> workspaces (db s') = workspaces (db s) \<and>
    api_keys (db s') = api_keys (db s) \<and> id_supply s' = Suc (Suc (id_supply s))"
  using assms by (auto simp: add_member_def escalation_def Let_def split: if_splits option.splits)

lemma create_key_effect:
  assumes "create_key env random name a s = (x, s')"
  shows "\<exists>k. api_keys (db s') = api_keys (db s) @ [k] \<and> members (db s') = members (db s) \<and>
    workspaces (db s') = workspaces (db s) \<and> id_supply s \<le> id_supply s'"
  using assms by (auto simp: create_key_def Let_def)

lemma revoke_key_effect:
  assumes "revoke_key k a s = (x, s')"
  shows "members (db s') = members (db s) \<and> workspaces (db s') = workspaces (db s) \<and> id_supply s \<le> id_supply s' \<and>
    (s' = s \<or> api_keys (db s') = update_where (\<lambda>x. ak_id x = k) (\<lambda>x. x\<lparr>ak_revoked := True\<rparr>) (api_keys (db s)))"
  using assms by (auto simp: revoke_key_def Let_def split: if_splits option.splits)

lemma register_user_effect:
  assumes "register_user env salt email password display s = (r, s')" and "s' \<noteq> s"
  shows "\<exists>t. found_workspace env salt email password display s = (t, s')"
  using assms by (auto simp: register_user_def split: if_splits prod.splits)

lemma administrable_same:
  assumes "administrable s" and "members (db s') = members (db s)" and "workspaces (db s') = workspaces (db s)"
    and "id_supply s \<le> id_supply s'"
  shows "administrable s'"
  using assms by (intro administrable_fewer [of s s']) (auto simp: owner_count_def administrable_def)

lemma change_role_keeps:
  assumes "administrable s" and "change_role uid r a s = (x, s')"
  shows "administrable s'"
proof (cases "s' = s")
  case False
  let ?ws = "wk_id (ac_workspace a)"
  from change_role_effect [OF assms(2) False] obtain m where m: "find_member ?ws uid (db s) = Some m"
    "\<not> (wm_role m = role_value OWNER \<and> r \<noteq> OWNER \<and> owner_count ?ws (db s) = 1)"
    "members (db s') = update_where (\<lambda>x. wm_id x = wm_id m) (\<lambda>x. x\<lparr>wm_role := role_value r\<rparr>) (members (db s))"
    "workspaces (db s') = workspaces (db s)" "id_supply s \<le> id_supply s'"
    by auto
  have k: "keyed wm_id (members (db s))" using assms(1) by (simp add: administrable_def)
  show ?thesis
  proof (rule administrable_fewer [OF assms(1) m(4,5)])
    show "keyed wm_id (members (db s'))" using k by (simp add: m(3) keyed_update_where)
    show "wm_id ` set (members (db s')) \<subseteq> wm_id ` set (members (db s))" by (auto simp: m(3) update_where_def) (metis image_eqI)
    show "owner_count w (db s) \<le> owner_count w (db s') + (if w = ?ws \<and> owner_count ?ws (db s) \<noteq> 1 then 1 else 0)" for w
      using count_update_le [OF k m(1) [unfolded find_member_def], of "\<lambda>x. wm_workspace x = w \<and> wm_role x = role_value OWNER"
          "\<lambda>x. x\<lparr>wm_role := role_value r\<rparr>"] m(2) find_member_Some [OF m(1)]
      by (auto simp: owner_count_def m(3) split: if_splits)
  qed
qed (use assms in simp)

lemma remove_member_keeps:
  assumes "administrable s" and "remove_member uid a s = (x, s')"
  shows "administrable s'"
proof (cases "s' = s")
  case False
  let ?ws = "wk_id (ac_workspace a)"
  from remove_member_effect [OF assms(2) False] obtain m where m: "find_member ?ws uid (db s) = Some m"
    "\<not> (wm_role m = role_value OWNER \<and> owner_count ?ws (db s) = 1)"
    "members (db s') = filter (\<lambda>x. wm_id x \<noteq> wm_id m) (members (db s))"
    "workspaces (db s') = workspaces (db s)" "id_supply s \<le> id_supply s'"
    by auto
  have k: "keyed wm_id (members (db s))" using assms(1) by (simp add: administrable_def)
  show ?thesis
  proof (rule administrable_fewer [OF assms(1) m(4,5)])
    show "keyed wm_id (members (db s'))" using k by (simp add: m(3) keyed_def distinct_map_filter)
    show "wm_id ` set (members (db s')) \<subseteq> wm_id ` set (members (db s))" by (auto simp: m(3))
    show "owner_count w (db s) \<le> owner_count w (db s') + (if w = ?ws \<and> owner_count ?ws (db s) \<noteq> 1 then 1 else 0)" for w
      using count_filter_le [OF k m(1) [unfolded find_member_def], of "\<lambda>x. wm_workspace x = w \<and> wm_role x = role_value OWNER"]
        m(2) find_member_Some [OF m(1)]
      by (auto simp: owner_count_def m(3) split: if_splits)
  qed
qed (use assms in simp)

lemma register_keeps:
  assumes "administrable s" and "register_user env salt email password display s = (r, s')"
  shows "administrable s'"
proof (cases "s' = s")
  case False
  obtain t where t: "found_workspace env salt email password display s = (t, s')"
    using register_user_effect [OF assms(2) False] by blast
  from found_workspace_sel [OF t] obtain w m where "workspaces (db s') = workspaces (db s) @ [w]"
    "members (db s') = members (db s) @ [m]" "wm_workspace m = wk_id w" "wm_role m = role_value OWNER"
    "wm_id m = new_id (Suc (Suc (id_supply s)))" "id_supply s' = Suc (Suc (Suc (id_supply s)))"
    by blast
  then show ?thesis using assms(1) by (intro administrable_new_member [of s s' m "Suc (Suc (id_supply s))"]) auto
qed (use assms in simp)

lemma add_member_keeps:
  assumes "administrable s" and "add_member email r a s = (x, s')"
  shows "administrable s'"
proof (cases "s' = s")
  case False
  from add_member_effect [OF assms(2) False] show ?thesis using assms(1)
    by (auto simp: fresh_def intro: administrable_new_member [of s s' _ "id_supply s"])
qed (use assms in simp)

lemma access_step_keeps:
  assumes "administrable s" and "access_step env s s'"
  shows "administrable s'"
  using assms(2)
proof (cases rule: access_step.cases)
  case registered
  then show ?thesis using register_keeps [OF assms(1)] by blast
next
  case added
  then show ?thesis using route_cases [OF added] add_member_keeps [OF assms(1)] assms(1) by blast
next
  case changed
  then show ?thesis using route_cases [OF changed] change_role_keeps [OF assms(1)] assms(1) by blast
next
  case removed
  then show ?thesis using route_cases [OF removed] remove_member_keeps [OF assms(1)] assms(1) by blast
next
  case created
  then show ?thesis using route_cases [OF created] create_key_effect administrable_same [OF assms(1)] assms(1) by metis
next
  case revoked
  then show ?thesis using route_cases [OF revoked] revoke_key_effect administrable_same [OF assms(1)] assms(1) by metis
next
  case elsewhere
  then show ?thesis by (intro administrable_same [OF assms(1)]) (auto simp: access_tables_def)
qed

interpretation access_machine: state_machine "access_step env" administrable
  by unfold_locales (rule access_step_keeps)

text \<open>C27.  A workspace can never become unadministrable: after any sequence of registrations, invitations,
  role changes, removals, key operations and everything else the service does, with whatever
  credentials, every workspace still has an owner.\<close>

theorem last_owner_kept:
  assumes "(access_step env)\<^sup>*\<^sup>* s s'" and "administrable s"
  shows "\<forall>w \<in> set (workspaces (db s')). \<exists>m \<in> set (members (db s')). wm_workspace m = wk_id w \<and> wm_role m = role_value OWNER"
proof -
  have "administrable s'" using access_machine.reached_good assms by blast
  then show ?thesis
    by (auto simp: administrable_def owner_count_def list_all_iff Suc_le_eq neq0_conv [symmetric] count_where_0 simp del: neq0_conv)
qed

section \<open>No escalation\<close>

text \<open>A request to the members router, reduced to what it changes.\<close>

datatype member_request = Invite string role | Assign ident role | Expel ident

fun membership_request :: "access_env \<Rightarrow> member_request \<Rightarrow> credentials \<Rightarrow> 'w sys \<Rightarrow> 'w sys" where
  "membership_request env (Invite email r) cd s = snd (route env MEMBERS_MANAGE (add_member email r) cd s)"
| "membership_request env (Assign uid r) cd s = snd (route env MEMBERS_MANAGE (change_role uid r) cd s)"
| "membership_request env (Expel uid) cd s = snd (route env MEMBERS_MANAGE (remove_member uid) cd s)"

definition rank_of_text :: "string \<Rightarrow> nat" where
  "rank_of_text t = (case role_named t of None \<Rightarrow> 0 | Some r \<Rightarrow> rank r)"

lemma rank_of_value [simp]: "rank_of_text (role_value r) = rank r"
  by (simp add: rank_of_text_def)

text \<open>The member a request is about; an invitation is about the user with that address.\<close>

fun request_about :: "member_request \<Rightarrow> database \<Rightarrow> workspace_member \<Rightarrow> bool" where
  "request_about (Invite email r) d m =
     (\<exists>u. find_row us_email (lower email) (users d) = Some u \<and> wm_user m = us_id u)"
| "request_about (Assign uid r) d m = (wm_user m = uid)"
| "request_about (Expel uid) d m = (wm_user m = uid)"

text \<open>The rows that a request adds, removes or alters, as they were and as they are.\<close>

definition touched :: "'w sys \<Rightarrow> 'w sys \<Rightarrow> workspace_member set" where
  "touched s s' = (set (members (db s)) - set (members (db s'))) \<union> (set (members (db s')) - set (members (db s)))"

lemma keyed_row_unique: "keyed key rows \<Longrightarrow> x \<in> set rows \<Longrightarrow> y \<in> set rows \<Longrightarrow> key x = key y \<Longrightarrow> x = y"
  by (auto simp: keyed_def distinct_map dest: inj_onD)

lemma touched_by_key:
  assumes "keyed wm_id (members (db s))" and "find_member ws uid (db s) = Some m"
    and "members (db s') = update_where (\<lambda>x. wm_id x = wm_id m) (\<lambda>x. x\<lparr>wm_role := r\<rparr>) (members (db s)) \<or>
      members (db s') = filter (\<lambda>x. wm_id x \<noteq> wm_id m) (members (db s))"
    and "x \<in> touched s s'"
  shows "wm_workspace x = ws \<and> wm_user x = uid"
proof -
  note found = find_member_Some [OF assms(2)]
  have only: "y = m" if "y \<in> set (members (db s))" "wm_id y = wm_id m" for y
    using keyed_row_unique [OF assms(1)] that found by blast
  have "x = m \<or> x = m\<lparr>wm_role := r\<rparr>"
    using assms(3,4) only by (auto simp: touched_def update_where_def split: if_splits) (metis image_eqI)
  then show ?thesis using found by auto
qed

lemma invited_user:
  assumes "add_member email r a s = (x, s')" and "s' \<noteq> s"
  shows "\<exists>u m. find_row us_email (lower email) (users (db s)) = Some u \<and> members (db s') = members (db s) @ [m] \<and> wm_user m = us_id u"
  using assms by (auto simp: add_member_def escalation_def Let_def split: if_splits option.splits)


section \<open>Revoked keys\<close>

definition key_dead :: "string \<Rightarrow> 'w sys \<Rightarrow> bool" where
  "key_dead h s = (\<exists>k \<in> set (api_keys (db s)). ak_key_hash k = h \<and> ak_revoked k)"

lemma key_dead_grows: "key_dead h s \<Longrightarrow> set (api_keys (db s)) \<subseteq> set (api_keys (db s')) \<Longrightarrow> key_dead h s'"
  by (auto simp: key_dead_def)

lemma key_dead_revoke:
  assumes "key_dead h s" and "api_keys (db s') = update_where (\<lambda>x. ak_id x = k) (\<lambda>x. x\<lparr>ak_revoked := True\<rparr>) (api_keys (db s))"
  shows "key_dead h s'"
  using assms by (force simp: key_dead_def update_where_def)

lemma access_step_dead:
  assumes "key_dead h s" and "access_step env s s'"
  shows "key_dead h s'"
  using assms(2)
proof (cases rule: access_step.cases)
  case (registered salt email password display r)
  show ?thesis
  proof (cases "s' = s")
    case False
    from register_user_effect [OF registered this] found_workspace_sel assms(1) show ?thesis
      by (metis key_dead_grows subset_refl)
  qed (use assms in simp)
next
  case (added email role cd r)
  then show ?thesis using route_cases [OF added] add_member_effect key_dead_grows [OF assms(1)] assms(1) by (metis subset_refl)
next
  case (changed uid role cd r)
  then show ?thesis using route_cases [OF changed] change_role_effect key_dead_grows [OF assms(1)] assms(1) by (metis subset_refl)
next
  case (removed uid cd r)
  then show ?thesis using route_cases [OF removed] remove_member_effect key_dead_grows [OF assms(1)] assms(1) by (metis subset_refl)
next
  case (created random name cd r)
  then show ?thesis using route_cases [OF created] create_key_effect key_dead_grows [OF assms(1)] assms(1)
    by (metis Un_upper1 set_append)
next
  case (revoked k cd r)
  then show ?thesis using route_cases [OF revoked] revoke_key_effect key_dead_revoke [OF assms(1)] assms(1) by metis
next
  case elsewhere
  then show ?thesis using assms(1) by (simp add: access_tables_def key_dead_def)
qed

interpretation revocation: state_machine "access_step env" "key_dead h"
  by unfold_locales (rule access_step_dead)

text \<open>Revocation is final: once a key has been revoked, no later state of the service authenticates a
  request that presents it, whatever bearer token comes along.\<close>

theorem revocation_is_final:
  assumes "route env SESSIONS_USE (revoke_key (ak_id k)) cd s = (Inr (), s1)" and "k \<in> set (api_keys (db s))"
    and "az_sha env key = ak_key_hash k" and "key \<noteq> []"
    and "(access_step env)\<^sup>*\<^sup>* s1 s2" and "keyed ak_key_hash (api_keys (db s2))"
  shows "resolve_user env authorization (Some key) now (db s2) = Inl (Http 401 ''invalid API key'')"
proof -
  obtain a where "revoke_key (ak_id k) a s = (Inr (), s1)"
    using assms(1) by (auto simp: route_def split: sum.splits)
  then have "api_keys (db s1) = update_where (\<lambda>x. ak_id x = ak_id k) (\<lambda>x. x\<lparr>ak_revoked := True\<rparr>) (api_keys (db s))"
    by (auto simp: revoke_key_def split: option.splits if_splits)
  then have "k\<lparr>ak_revoked := True\<rparr> \<in> set (api_keys (db s1))"
    using assms(2) by (force simp: update_where_def)
  then have "key_dead (ak_key_hash k) s1" unfolding key_dead_def by (rule bexI [rotated]) simp
  then have "key_dead (ak_key_hash k) s2" using revocation.reached_good [OF assms(5)] by blast
  then obtain r where r: "r \<in> set (api_keys (db s2))" "ak_key_hash r = az_sha env key" "ak_revoked r"
    using assms(3) by (auto simp: key_dead_def)
  have "find (\<lambda>k. ak_key_hash k = az_sha env key \<and> \<not> ak_revoked k) (api_keys (db s2)) = None"
    using r assms(6) by (auto simp: find_None_iff keyed_def distinct_map) (metis inj_onD)
  then show ?thesis using assms(4) by (simp add: resolve_user_def truthy_def)
qed

section \<open>Passwords and secrets\<close>

lemma hex_val_digit [simp]: "n < 16 \<Longrightarrow> hex_val (hex_char n) = Some n"
  by (simp add: hex_val_hex_char)

lemma hex_not_space: "n < 16 \<Longrightarrow> \<not> is_space (hex_char n) \<and> hex_char n \<noteq> CHR ''$''"
  by (auto simp: hex_char_def is_space_def Let_def take_bit_eq_mod dest!: arg_cong [of _ _ "of_char :: char \<Rightarrow> nat"])

lemma high_nibble [simp]: "(of_char c :: nat) div 16 < 16"
  by (rule less_mult_imp_div_less) (simp add: byte_bound)

lemma from_hex_text [simp]: "from_hex (hex_text w) = Some w"
  by (induction w) (simp_all add: hex_text_def hex_not_space)

lemma hex_text_plain: "CHR ''$'' \<notin> set (hex_text w)"
proof -
  have "hex_char n \<noteq> CHR ''$''" if "n < 16" for n using hex_not_space [OF that] by simp
  then have "hex_char (of_char c div 16) \<noteq> CHR ''$''" "hex_char (of_char c mod 16) \<noteq> CHR ''$''" for c
    by simp_all
  then show ?thesis by (induction w) (auto simp: hex_text_def dest: sym)
qed

text \<open>A stored password accepts exactly the passwords whose derived key is the same: in particular the
  one it was made from, whatever the salt and the key derivation.\<close>

theorem password_roundtrip:
  "verify_password kd p' (hash_password kd salt p) \<longleftrightarrow> kd p' salt password_iterations = kd p salt password_iterations"
proof -
  have digits: "CHR ''$'' \<notin> set (show_int password_iterations)"
    using show_nat_digits [of 310000] by (auto simp: password_iterations_def show_int_def list_all_iff is_digit_def)
  have inj: "hex_text x = hex_text y \<longleftrightarrow> x = y" for x y by (metis from_hex_text option.inject)
  have "split_on (CHR ''$'') (hash_password kd salt p) =
      [''pbkdf2'', show_int password_iterations, hex_text salt, hex_text (kd p salt password_iterations)]"
    using digits hex_text_plain by (simp add: hash_password_def split_on_append split_on_plain)
  moreover have "1 \<le> password_iterations" "parse_int (show_int password_iterations) = Some password_iterations"
    by (simp_all add: parse_int_show_int password_iterations_def)
  ultimately show ?thesis by (simp add: verify_password_def inj)
qed

fun secret_free :: "json_dict \<Rightarrow> bool" where
  "secret_free [] = True"
| "secret_free ((k, v) # rest) =
     ((if lower k \<in> set redacted_keys then v = JStr ''***'' else case v of JObj fs \<Rightarrow> secret_free fs | _ \<Rightarrow> True) \<and> secret_free rest)"

text \<open>
  The details of an audit event show no value under a secret-bearing key, at any depth of nested
  objects; the keys are kept and the rest is unchanged.  Lists are copied as they are.
\<close>

lemma redact_secret_free: "secret_free (redact d) \<and> map fst (redact d) = map fst d"
  by (induction d rule: redact.induct) (auto split: json.splits)

lemma redact_secret_free_id: "secret_free d \<Longrightarrow> redact d = d"
  by (induction d rule: redact.induct) (auto split: json.splits if_splits)

theorem redact_skips_lists:
  "redact [(''items'', JList [JObj [(''password'', JStr ''hunter2'')]])] = [(''items'', JList [JObj [(''password'', JStr ''hunter2'')]])]"
  by code_simp

section \<open>A small workspace\<close>

definition demo_user :: "string \<Rightarrow> user" where
  "demo_user k = \<lparr>us_id = k, us_created = 0, us_email = k, us_display_name = k, us_password_hash = [], us_active = True\<rparr>"

definition demo_member :: "nat \<Rightarrow> string \<Rightarrow> role \<Rightarrow> workspace_member" where
  "demo_member n k r = \<lparr>wm_id = new_id n, wm_created = 0, wm_workspace = ''w1'', wm_user = k, wm_role = role_value r\<rparr>"

definition demo_key :: api_key where
  "demo_key = \<lparr>ak_id = ''k1'', ak_created = 0, ak_user = ''ann'', ak_name = ''ci'', ak_key_hash = ''hx_1'', ak_revoked = False\<rparr>"

text \<open>Ann is an owner with an API key, Bob has the given role.\<close>

definition access_state :: "role \<Rightarrow> role \<Rightarrow> unit sys" where
  "access_state ann bob = \<lparr>db = empty_database\<lparr>users := [demo_user ''ann'', demo_user ''bob''],
     workspaces := [\<lparr>wk_id = ''w1'', wk_created = 0, wk_name = ''W'', wk_slug = ''ws''\<rparr>],
     members := [demo_member 0 ''ann'' ann, demo_member 1 ''bob'' bob], api_keys := [demo_key]\<rparr>,
     published = [], clock = 0, id_supply = 2, outside = ()\<rparr>"

definition demo_access :: access_env where
  "demo_access = \<lparr>az_jwt = \<lparr>jw_encode = (\<lambda>c k. []), jw_decode = (\<lambda>t k i n. Inl ''no tokens here'')\<rparr>, az_secret = ''s'', az_ttl = 60,
     az_open_registration = True, az_sha = (\<lambda>t. t), az_kd = (\<lambda>p s n. p)\<rparr>"

definition ann_credentials :: credentials where
  "ann_credentials = \<lparr>cd_authorization = None, cd_api_key = Some ''hx_1'', cd_workspace = None\<rparr>"

lemmas access_demo = access_state_def demo_user_def demo_member_def demo_key_def demo_access_def ann_credentials_def
  empty_database_def require_def get_actor_def resolve_user_def active_user_def get_user_def memberships_def truthy_def
  route_def find_member_def

lemma demo_actor:
  "\<exists>a. require demo_access MEMBERS_MANAGE ann_credentials 0 (db (access_state OWNER bob)) = Inr a \<and> ac_role a = OWNER"
  by (simp add: access_demo role_named_def role_allows_def permission_sets)

lemma access_state_good: "administrable (access_state OWNER bob)"
  by (auto simp: administrable_def owner_count_def access_state_def demo_member_def empty_database_def)

theorem last_owner_kept_witness:
  "\<exists>m \<in> set (members (db (membership_request demo_access (Expel ''ann'') ann_credentials (access_state OWNER MEMBER)))).
     wm_workspace m = ''w1'' \<and> wm_role m = role_value OWNER"
proof -
  let ?s = "access_state OWNER MEMBER"
  obtain r s' where r: "route demo_access MEMBERS_MANAGE (remove_member ''ann'') ann_credentials ?s = (r, s')" by fastforce
  have "workspaces (db s') = workspaces (db ?s)"
    using route_cases [OF r] remove_member_effect by metis
  then have "\<exists>w \<in> set (workspaces (db s')). wk_id w = ''w1''" by (simp add: access_state_def)
  then obtain w where w: "w \<in> set (workspaces (db s'))" "wk_id w = ''w1''" by blast
  note kept = last_owner_kept [OF r_into_rtranclp [of "access_step demo_access", OF access_step.removed [OF r]] access_state_good]
  show ?thesis using kept [rule_format, OF w(1)] w(2) r by simp
qed

lemma demo_promotion:
  "members (db (membership_request demo_access (Assign ''bob'' ADMIN) ann_credentials (access_state OWNER MEMBER))) \<noteq>
     members (db (access_state OWNER MEMBER))"
  by (simp add: access_demo role_named_def role_allows_def permission_sets change_role_def escalation_def owner_count_def Let_def)

lemma access_demo_keyed: "keyed wm_id (members (db (access_state a b)))"
  by (simp add: access_state_def demo_member_def empty_database_def)


theorem revocation_is_final_witness:
  "\<exists>s1. route demo_access SESSIONS_USE (revoke_key ''k1'') ann_credentials (access_state OWNER MEMBER) = (Inr (), s1) \<and>
     resolve_user demo_access None (Some ''hx_1'') 7 (db s1) = Inl (Http 401 ''invalid API key'')"
proof -
  have "\<exists>s1. route demo_access SESSIONS_USE (revoke_key ''k1'') ann_credentials (access_state OWNER MEMBER) = (Inr (), s1) \<and>
      keyed ak_key_hash (api_keys (db s1))"
    by (simp add: access_demo role_named_def role_allows_def permission_sets revoke_key_def record_audit_def)
  then obtain s1 where s1: "route demo_access SESSIONS_USE (revoke_key (ak_id demo_key)) ann_credentials (access_state OWNER MEMBER) = (Inr (), s1)"
    "keyed ak_key_hash (api_keys (db s1))" by (auto simp: demo_key_def)
  have "demo_key \<in> set (api_keys (db (access_state OWNER MEMBER)))" "az_sha demo_access ''hx_1'' = ak_key_hash demo_key"
    by (simp_all add: access_state_def demo_access_def demo_key_def)
  from revocation_is_final [OF s1(1) this _ rtranclp.rtrancl_refl s1(2), of None 7] s1(1) show ?thesis
    by (auto simp: demo_key_def)
qed

text \<open>The rank of the member acted on is not looked at: an admin can demote an owner while another is left.\<close>

theorem admin_demotes_owner:
  "\<exists>a out s'. ac_role a = ADMIN \<and> change_role ''bob'' VIEWER a (access_state OWNER OWNER) = (Inr out, s') \<and> mo_role out = ''viewer''"
  by (rule exI [of _ "\<lparr>ac_user = demo_user ''eve'', ac_workspace = \<lparr>wk_id = ''w1'', wk_created = 0, wk_name = ''W'', wk_slug = ''ws''\<rparr>, ac_role = ADMIN\<rparr>"])
    (simp add: access_demo change_role_def escalation_def owner_count_def out_of_member_def Let_def)

end
