(* ===== verification/Knowledge_Props.thy ===== *)
theory Knowledge_Props
  imports Knowledge Conductor
begin

text \<open>
  What the knowledge base promises: splitting loses no word, re-ingestion replaces the chunks of a
  document and touches no other, every ingestion is recorded and announced, and a search answers
  with the best chunks of its workspace.
\<close>

section \<open>Splitting\<close>

lemma rfind_bound: "rfind p s = Some i \<Longrightarrow> i + length p \<le> length s"
  by (induction s arbitrary: i) (auto simp: starts_with_def split: option.splits if_splits dest: arg_cong [of _ _ length])

lemma boundary_cut_le: "boundary_cut width bs window \<le> length window"
  by (induction bs) (auto split: option.splits dest: rfind_bound)

lemma window_cut_le: "window_cut width t start \<le> length (take width (drop start t))"
  using boundary_cut_le [of width boundaries "take width (drop start t)"] by (auto simp: window_cut_def Let_def)

lemma window_cut_width: "window_cut width t start \<le> width"
  by (rule order_trans [OF window_cut_le]) simp

lemma strip_parts: "\<exists>pre post. w = pre @ strip w @ post \<and> list_all is_space pre \<and> list_all is_space post"
proof -
  let ?u = "dropWhile is_space w"
  have "w = takeWhile is_space w @ ?u" by simp
  moreover have "?u = rev (dropWhile is_space (rev ?u)) @ rev (takeWhile is_space (rev ?u))"
    by (metis rev_append rev_rev_ident takeWhile_dropWhile_id)
  ultimately have "w = takeWhile is_space w @ strip w @ rev (takeWhile is_space (rev ?u))"
    by (simp add: strip_def lstrip_def)
  moreover have "list_all is_space (takeWhile is_space w)" "list_all is_space (rev (takeWhile is_space (rev ?u)))"
    by (auto simp: list_all_iff dest: set_takeWhileD)
  ultimately show ?thesis by blast
qed

text \<open>The chunk \<open>c\<close> is a piece of the text around position \<open>i\<close>.\<close>

definition covers :: "string \<Rightarrow> nat \<Rightarrow> string \<Rightarrow> bool" where
  "covers t i c = (\<exists>k. k \<le> i \<and> i < k + length c \<and> take (length c) (drop k t) = c)"

lemma strip_covers:
  assumes "i < length w" and "\<not> is_space (w ! i)" and "take (length w) (drop start t) = w"
  shows "strip w \<noteq> [] \<and> covers t (start + i) (strip w)"
proof -
  obtain pre post where w: "w = pre @ strip w @ post" and sp: "list_all is_space pre" "list_all is_space post"
    using strip_parts by blast
  have lo: "length pre \<le> i"
  proof (rule ccontr)
    assume not: "\<not> ?thesis"
    have "w ! i = (pre @ strip w @ post) ! i" using w by simp
    also have "\<dots> = pre ! i" using not by (simp add: nth_append)
    finally have "w ! i \<in> set pre" using not by simp
    then show False using assms(2) sp(1) by (simp add: list_all_iff)
  qed
  have hi: "i < length pre + length (strip w)"
  proof (rule ccontr)
    assume not: "\<not> ?thesis"
    have "w ! i = (pre @ strip w @ post) ! i" using w by simp
    also have "\<dots> = ((pre @ strip w) @ post) ! i" by simp
    also have "\<dots> = post ! (i - length pre - length (strip w))" using not by (subst nth_append) simp
    finally have "w ! i = post ! (i - length pre - length (strip w))" .
    moreover have "length w = length pre + length (strip w) + length post" using arg_cong [OF w, of length] by simp
    ultimately have "w ! i \<in> set post" using not assms(1) by (simp add: nth_mem)
    then show False using assms(2) sp(2) by (simp add: list_all_iff)
  qed
  have "take (length (strip w)) (drop (length pre) w) = strip w" by (subst (2) w) simp
  moreover have "take (length (strip w)) (drop (length pre) (take (length w) (drop start t))) =
      take (length (strip w)) (drop (start + length pre) t)"
  proof -
    have "length pre + length (strip w) \<le> length w" using arg_cong [OF w, of length] by simp
    then show ?thesis by (simp add: drop_take min_def add.commute)
  qed
  ultimately have "take (length (strip w)) (drop (start + length pre) t) = strip w" using assms(3) by simp
  with lo hi show ?thesis unfolding covers_def by (intro conjI exI [of _ "start + length pre"]) auto
qed

definition piece_at :: "nat \<Rightarrow> string \<Rightarrow> nat \<Rightarrow> string" where
  "piece_at width t start = take (window_cut width t start) (take width (drop start t))"

lemma split_loop_step:
  assumes "0 < width" and "start < length t"
  shows "split_loop width overlap t start =
    (let rest = split_loop width overlap t (next_start overlap start (window_cut width t start))
     in if strip (piece_at width t start) = [] then rest else strip (piece_at width t start) # rest)"
  using assms by (subst split_loop.simps) (simp add: Let_def piece_at_def del: take_take)

lemma split_loop_stop: "\<not> (0 < width \<and> start < length t) \<Longrightarrow> split_loop width overlap t start = []"
  by (subst split_loop.simps) (simp only: if_False)

lemma length_piece [simp]: "length (piece_at width t start) = window_cut width t start"
  using window_cut_le [of width t start] by (simp add: piece_at_def)

lemma piece_is_taken: "take (length (piece_at width t start)) (drop start t) = piece_at width t start"
  unfolding length_piece using window_cut_width [of width t start] by (simp add: piece_at_def min_absorb1)

lemma split_loop_covers:
  assumes "0 < width" and "i < length t" and "\<not> is_space (t ! i)"
  shows "start \<le> i \<Longrightarrow> \<exists>c \<in> set (split_loop width overlap t start). covers t i c"
proof (induction "length t - start" arbitrary: start rule: less_induct)
  case less
  let ?n = "window_cut width t start"
  have go: "start < length t" using less.prems assms(2) by simp
  show ?case
  proof (cases "i < start + ?n")
    case True
    have "piece_at width t start ! (i - start) = t ! i"
      using True less.prems go window_cut_le [of width t start] by (simp add: piece_at_def)
    then have "strip (piece_at width t start) \<noteq> [] \<and> covers t (start + (i - start)) (strip (piece_at width t start))"
      using True less.prems assms(3) by (intro strip_covers piece_is_taken) auto
    then show ?thesis using split_loop_step [OF assms(1) go] less.prems by (simp add: Let_def)
  next
    case False
    then have "next_start overlap start ?n \<le> i" by (auto simp: next_start_def)
    moreover have "start < next_start overlap start ?n" using next_start_gt [OF window_cut_pos] assms(1) go by blast
    ultimately obtain c where "c \<in> set (split_loop width overlap t (next_start overlap start ?n))" "covers t i c"
      using less.hyps [of "next_start overlap start ?n"] go by (auto intro: diff_less_mono2)
    then show ?thesis using split_loop_step [OF assms(1) go] by (auto simp: Let_def)
  qed
qed

lemma split_loop_bounds:
  assumes "0 < width"
  shows "(\<forall>c \<in> set (split_loop width overlap t start). c \<noteq> [] \<and> length c \<le> width) \<and>
    length (split_loop width overlap t start) \<le> length t - start"
proof (induction "length t - start" arbitrary: start rule: less_induct)
  case less
  show ?case
  proof (cases "start < length t")
    case True
    let ?n = "window_cut width t start"
    have gt: "start < next_start overlap start ?n" using next_start_gt [OF window_cut_pos] assms True by blast
    then have IH: "(\<forall>c \<in> set (split_loop width overlap t (next_start overlap start ?n)). c \<noteq> [] \<and> length c \<le> width) \<and>
        length (split_loop width overlap t (next_start overlap start ?n)) \<le> length t - next_start overlap start ?n"
      using less.hyps True by (auto intro: diff_less_mono2)
    moreover have "length (strip (piece_at width t start)) \<le> width"
      using length_strip [of "piece_at width t start"] window_cut_width [of width t start] by simp
    ultimately show ?thesis using split_loop_step [OF assms True] gt True by (auto simp: Let_def)
  qed (simp add: split_loop_stop)
qed

text \<open>Splitting a document loses no text: when the window is wider than the overlap, every character that
  is not white space lies in a chunk, in its place; no chunk is empty or wider than the window, and
  there are no more chunks than characters.\<close>

theorem split_text_covers:
  assumes "split_text t width overlap = Some cs"
  shows "(\<forall>i < length (strip t). \<not> is_space (strip t ! i) \<longrightarrow> (\<exists>c \<in> set cs. covers (strip t) i c)) \<and>
    (\<forall>c \<in> set cs. c \<noteq> [] \<and> length c \<le> width) \<and> length cs \<le> length (strip t)"
proof -
  have cs: "cs = split_loop width overlap (strip t) 0" "0 < width"
    using assms by (auto simp: split_text_def split: if_splits)
  then show ?thesis
    using split_loop_covers [of width _ "strip t" 0 overlap] split_loop_bounds [of width overlap "strip t" 0] by auto
qed

text \<open>
  A document that fits one window is still split in two: the window steps back by the overlap, and
  its tail is stored, embedded and found a second time.
\<close>

theorem short_document_stored_twice:
  assumes "0 < overlap" and "overlap < length (strip t)" and "length (strip t) \<le> width"
  shows "\<exists>c. c \<noteq> [] \<and> split_text t width overlap = Some [strip t, c] \<and> length c \<le> overlap"
proof -
  let ?t = "strip t"
  let ?c = "strip (drop (length ?t - overlap) ?t)"
  have tail: "?c \<noteq> []"
  proof -
    have "?t \<noteq> []" using assms by auto
    moreover have "\<not> is_space (List.last ?t)"
      using lstrip_head [of "rev (lstrip t)"] \<open>?t \<noteq> []\<close> by (simp add: strip_def last_rev)
    ultimately have "\<not> is_space (?t ! (length ?t - 1))" by (simp add: last_conv_nth)
    then have "drop (length ?t - overlap) ?t ! (overlap - 1) = ?t ! (length ?t - 1)" using assms by simp
    with strip_covers [of "overlap - 1" "drop (length ?t - overlap) ?t" "length ?t - overlap" ?t]
    show ?thesis using assms \<open>\<not> is_space (?t ! (length ?t - 1))\<close> by simp
  qed
  have w0: "window_cut width ?t 0 = length ?t" using assms by (simp add: window_cut_def)
  have w1: "window_cut width ?t (length ?t - overlap) = overlap" using assms by (simp add: window_cut_def)
  have "split_loop width overlap ?t 0 = ?t # split_loop width overlap ?t (length ?t - overlap)"
    using assms by (subst split_loop.simps) (auto simp: w0 next_start_def Let_def)
  also have "split_loop width overlap ?t (length ?t - overlap) = ?c # split_loop width overlap ?t (length ?t)"
    using assms tail by (subst split_loop.simps) (auto simp: w1 next_start_def Let_def)
  also have "split_loop width overlap ?t (length ?t) = []" by (simp add: split_loop.simps)
  finally have "split_loop width overlap ?t 0 = [?t, ?c]" .
  moreover have "length ?c \<le> overlap" using length_strip [of "drop (length ?t - overlap) ?t"] assms by simp
  ultimately show ?thesis using tail assms by (intro exI [of _ ?c]) (auto simp: split_text_def)
qed

section \<open>What a vector store promises\<close>

text \<open>
  The interface the engine relies on: the chunks of a document after they were replaced, and
  nothing else changed; a search that returns the best matches of the workspace, best first.
\<close>

locale vector_store =
  fixes replace_chunks :: "ident \<Rightarrow> ident \<Rightarrow> chunk_to_store list \<Rightarrow> 'w sys \<Rightarrow> nat \<times> 'w sys"
    and drop_chunks :: "ident \<Rightarrow> 'w sys \<Rightarrow> 'w sys"
    and stored :: "ident \<Rightarrow> 'w sys \<Rightarrow> chunk_to_store list"
  assumes replaced: "stored doc (snd (replace_chunks doc ws cs s)) = cs"
    and counted: "fst (replace_chunks doc ws cs s) = length cs"
    and others_kept: "doc' \<noteq> doc \<Longrightarrow> stored doc' (snd (replace_chunks doc ws cs s)) = stored doc' s"
    and dropped: "stored doc (drop_chunks doc s) = []"
    and drop_others: "doc' \<noteq> doc \<Longrightarrow> stored doc' (drop_chunks doc s) = stored doc' s"
begin

lemma replaced_again:
  "stored d (snd (replace_chunks doc ws cs (snd (replace_chunks doc ws' cs' s)))) = stored d (snd (replace_chunks doc ws cs s))"
  by (cases "d = doc") (simp_all add: replaced others_kept)

lemma dropped_after: "stored d (drop_chunks doc (snd (replace_chunks doc ws cs s))) = stored d (drop_chunks doc s)"
  by (cases "d = doc") (simp_all add: dropped drop_others others_kept)

end

definition stored_chunks :: "ident \<Rightarrow> 'w sys \<Rightarrow> chunk_to_store list" where
  "stored_chunks doc s =
     map (\<lambda>c. \<lparr>kt_index = dk_index c, kt_text = dk_text c, kt_embedding = dk_embedding c\<rparr>)
       (filter (\<lambda>c. dk_document c = doc) (chunks (db s)))"

lemma stored_delete: "stored_chunks d (delete_document_chunks doc s) = (if d = doc then [] else stored_chunks d s)"
  by (auto simp: stored_chunks_def delete_document_chunks_def intro!: arg_cong [of _ _ "map _"] filter_cong)

lemma stored_add: "stored_chunks d (add_chunk doc ws c s) = stored_chunks d s @ (if d = doc then [c] else [])"
  by (simp add: stored_chunks_def add_chunk_def)

lemma stored_fold: "stored_chunks d (fold (add_chunk doc ws) cs s) = stored_chunks d s @ (if d = doc then cs else [])"
  by (induction cs arbitrary: s) (simp_all add: stored_add)

interpretation sql_store: vector_store replace_document_chunks delete_document_chunks stored_chunks
  by unfold_locales (simp_all add: replace_document_chunks_def stored_fold stored_delete)

section \<open>Ingestion\<close>

definition chunks_only :: "'w sys \<Rightarrow> 'w sys \<Rightarrow> bool" where
  "chunks_only s s' = (documents (db s') = documents (db s) \<and> published s' = published s \<and> clock s' = clock s)"

lemma fold_add_chunks_only: "chunks_only s (fold (add_chunk doc ws) cs s)"
proof (induction cs arbitrary: s)
  case (Cons c cs)
  have "chunks_only s (add_chunk doc ws c s)" by (simp add: chunks_only_def add_chunk_def)
  with Cons [of "add_chunk doc ws c s"] show ?case by (simp add: chunks_only_def)
qed (simp add: chunks_only_def)

lemma replace_chunks_only: "chunks_only s (snd (replace_document_chunks doc ws cs s))"
  using fold_add_chunks_only [of "delete_document_chunks doc s" doc ws cs]
  by (simp add: replace_document_chunks_def chunks_only_def delete_document_chunks_def)

lemma on_models_frame:
  "on_models f s = (x, s') \<Longrightarrow> db s' = db s \<and> published s' = published s \<and> clock s' = clock s"
  by (auto simp: on_models_def split: prod.splits)

lemma embed_all_frame:
  "embed_all tm pieces s = (x, s') \<Longrightarrow> db s' = db s \<and> published s' = published s \<and> clock s' = clock s"
proof (induction tm pieces s arbitrary: x s' rule: embed_all.induct)
  case (1 tm pieces s)
  show ?case
  proof (cases "pieces = []")
    case False
    obtain y s1 where y: "on_models (embed_texts tm (take embed_batch pieces)) s = (y, s1)" by fastforce
    note frame = on_models_frame [OF y]
    show ?thesis
    proof (cases y)
      case (Inl e)
      with 1 False y frame show ?thesis by (subst (asm) embed_all.simps) auto
    next
      case (Inr vecs)
      obtain z s2 where z: "embed_all tm (drop embed_batch pieces) s1 = (z, s2)" by fastforce
      from 1(1) [OF False y [symmetric] Inr z] have "db s2 = db s1 \<and> published s2 = published s1 \<and> clock s2 = clock s1"
        by blast
      with 1(2) False y z Inr frame show ?thesis by (subst (asm) embed_all.simps) (auto split: sum.splits)
    qed
  qed (use 1 in \<open>simp add: embed_all.simps\<close>)
qed

text \<open>What an ingestion leaves: the pieces of the text, in order, or the old chunks.\<close>

lemma ingest_effect:
  assumes "ingest sv k t s = (r, s')" and "get_document k (db s) = Some doc"
  shows "published s' = published s \<and> (case r of
      Inl e \<Rightarrow> db s' = db s
    | Inr n \<Rightarrow> documents (db s') = update_where (\<lambda>x. dc_id x = k) (\<lambda>x. x\<lparr>dc_chunk_count := int n, dc_status := Ready\<rparr>) (documents (db s)) \<and>
        (\<exists>pieces vecs. split_text t (sv_chunk_size sv) (sv_chunk_overlap sv) = Some pieces \<and> length vecs = length pieces \<and>
           n = length pieces \<and> stored_chunks k s' = chunk_list pieces vecs \<and>
           (\<forall>d. d \<noteq> k \<longrightarrow> stored_chunks d s' = stored_chunks d s)))"
proof (cases "split_text t (sv_chunk_size sv) (sv_chunk_overlap sv)")
  case (Some pieces)
  obtain y s1 where y: "embed_all (sv_timing sv) pieces s = (y, s1)" by fastforce
  note frame = embed_all_frame [OF y]
  show ?thesis
  proof (cases y)
    case (Inr vecs)
    show ?thesis
    proof (cases "length pieces = length vecs")
      case True
      obtain n s2 where rep: "replace_document_chunks k (dc_workspace doc) (chunk_list pieces vecs) s1 = (n, s2)" by fastforce
      have r: "r = Inr n" "s' = update_document k (\<lambda>x. x\<lparr>dc_chunk_count := int n, dc_status := Ready\<rparr>) s2"
        using assms Some y Inr True rep by (simp_all add: ingest_def)
      have only: "chunks_only s1 s2" using replace_chunks_only [of s1 k "dc_workspace doc" "chunk_list pieces vecs"] rep by simp
      have st: "stored_chunks d s' = stored_chunks d s2" for d by (simp add: r stored_chunks_def update_document_def)
      have "n = length pieces" using sql_store.counted [of k "dc_workspace doc" "chunk_list pieces vecs" s1] rep True
        by (simp add: chunk_list_def)
      moreover have "stored_chunks k s' = chunk_list pieces vecs"
        using sql_store.replaced [of k "dc_workspace doc" "chunk_list pieces vecs" s1] rep st by simp
      moreover have "stored_chunks d s' = stored_chunks d s" if "d \<noteq> k" for d
        using sql_store.others_kept [OF that, of "dc_workspace doc" "chunk_list pieces vecs" s1] rep st frame
        by (simp add: stored_chunks_def)
      moreover have "documents (db s') = update_where (\<lambda>x. dc_id x = k) (\<lambda>x. x\<lparr>dc_chunk_count := int n, dc_status := Ready\<rparr>) (documents (db s))"
        "published s' = published s"
        using only frame by (simp_all add: r update_document_def chunks_only_def)
      ultimately show ?thesis using Some True r by auto
    qed (use assms Some y Inr frame in \<open>auto simp: ingest_def\<close>)
  qed (use assms Some y frame in \<open>auto simp: ingest_def\<close>)
qed (use assms in \<open>auto simp: ingest_def\<close>)

text \<open>C29.  An ingestion is never left pending: the document ends ready, holding exactly the pieces of the
  text in order with their count, or failed, with the chunks it had; the outcome is announced once,
  to its workspace; and no other document loses a chunk.\<close>

theorem ingestion_recorded:
  assumes "get_document k (db s) = Some doc" and "ingest_and_announce sv k t s = s'"
  shows "\<exists>doc' e. get_document k (db s') = Some doc' \<and> published s' = published s @ [e] \<and>
    ev_type e = DOCUMENT_INGESTED \<and> ev_workspace e = dc_workspace doc \<and>
    map_of (ev_payload e) ''ok'' = Some (JBool (dc_status doc' = Ready)) \<and>
    (dc_status doc' = Ready \<and>
       (\<exists>pieces vecs. split_text t (sv_chunk_size sv) (sv_chunk_overlap sv) = Some pieces \<and> length vecs = length pieces \<and>
          dc_chunk_count doc' = int (length pieces) \<and> stored_chunks k s' = chunk_list pieces vecs) \<or>
     dc_status doc' = Failed_ingest \<and> chunks (db s') = chunks (db s)) \<and>
    (\<forall>d. d \<noteq> k \<longrightarrow> stored_chunks d s' = stored_chunks d s)"
proof -
  obtain r s1 where r: "ingest sv k t s = (r, s1)" by fastforce
  note eff = ingest_effect [OF r assms(1)]
  show ?thesis
  proof (cases r)
    case (Inl e)
    with eff have "db s1 = db s" "published s1 = published s" by simp_all
    then show ?thesis using r Inl assms
      by (auto simp: ingest_and_announce_def get_document_def update_document_def ingest_event_def stored_chunks_def
          find_row_update_self)
  next
    case (Inr n)
    with eff obtain pieces vecs where
      docs: "documents (db s1) = update_where (\<lambda>x. dc_id x = k) (\<lambda>x. x\<lparr>dc_chunk_count := int n, dc_status := Ready\<rparr>) (documents (db s))"
      and pub: "published s1 = published s"
      and st: "split_text t (sv_chunk_size sv) (sv_chunk_overlap sv) = Some pieces" "length vecs = length pieces" "n = length pieces"
        "stored_chunks k s1 = chunk_list pieces vecs" "\<forall>d. d \<noteq> k \<longrightarrow> stored_chunks d s1 = stored_chunks d s"
      by auto
    have doc': "get_document k (db s1) = Some (doc\<lparr>dc_chunk_count := int n, dc_status := Ready\<rparr>)"
      using assms(1) by (simp add: get_document_def docs)
    then have s': "s' = publish (ingest_event (dc_workspace doc)
        [(''document_id'', JStr k), (''ok'', JBool True), (''chunks'', JInt (int n))]) s1"
      using r Inr assms(2) by (simp add: ingest_and_announce_def)
    have "stored_chunks d s' = stored_chunks d s1" for d by (simp add: s' stored_chunks_def)
    with st doc' pub show ?thesis by (auto simp: s' ingest_event_def)
  qed
qed

text \<open>A search of the knowledge base returns, best first by rounded score, the \<open>top_k\<close> best chunks of its
  own workspace that reach the threshold; whatever is left out ranks no better.\<close>

theorem search_best:
  assumes "search_knowledge sv ws query top_k min_score s = (Inr hits, s')"
  shows "\<exists>q rest.
    mset (hits @ rest) = mset (List.map_filter (scored (db s) q (query_terms query) min_score)
      (filter (\<lambda>c. dk_workspace c = ws) (chunks (db s)))) \<and>
    sorted_wrt (\<lambda>x y. sk_score x \<ge> sk_score y) hits \<and> (\<forall>x\<in>set hits. \<forall>y\<in>set rest. sk_score x \<ge> sk_score y) \<and>
    length hits \<le> top_k \<and> (rest \<noteq> [] \<longrightarrow> length hits = top_k)"
proof -
  let ?key = "\<lambda>r. (- sk_score r, sk_document r, sk_index r)"
  obtain q s1 where q: "on_models (embed_one (sv_timing sv) query) s = (Inr q, s1)"
    "hits = similarity_search ws q (query_terms query) top_k min_score (db s1)"
    using assms by (auto simp: search_knowledge_def split: sum.splits prod.splits)
  let ?all = "List.map_filter (scored (db s) q (query_terms query) min_score) (filter (\<lambda>c. dk_workspace c = ws) (chunks (db s)))"
  let ?rest = "drop top_k (sort_key ?key ?all)"
  have hits: "hits = take top_k (sort_key ?key ?all)"
    using q on_models_frame [OF q(1)] by (simp add: similarity_search_def)
  have weaker: "sk_score x \<ge> sk_score y" if "?key x \<le> ?key y" for x y using that by (auto simp: less_eq_prod_def)
  define rest where "rest = ?rest"
  note bf = best_first [of top_k ?key ?all, folded hits rest_def]
  have "sorted_wrt (\<lambda>x y. sk_score x \<ge> sk_score y) hits"
    by (rule sorted_wrt_mono_rel [OF _ bf [THEN conjunct2, THEN conjunct1]]) (rule weaker)
  moreover have "\<forall>x\<in>set hits. \<forall>y\<in>set rest. sk_score x \<ge> sk_score y"
    by (intro ballI weaker) (rule bf [THEN conjunct2, THEN conjunct2, THEN conjunct1, rule_format])
  moreover note bf [THEN conjunct1] bf [THEN conjunct2, THEN conjunct2, THEN conjunct2]
  ultimately show ?thesis by blast
qed

section \<open>The properties at work\<close>

definition demo_document :: document where
  "demo_document = \<lparr>dc_id = ''d1'', dc_created = 0, dc_workspace = ''w1'', dc_title = ''Manual'', dc_source = ''upload'',
     dc_status = Pending_ingest, dc_chunk_count = 0\<rparr>"

definition library_state :: "nat state" where
  "library_state = (demo_state [] Queued)\<lparr>db := (demo_db Queued)\<lparr>documents := [demo_document]\<rparr>\<rparr>"

lemma demo_in_library: "get_document ''d1'' (db library_state) = Some demo_document"
  by (simp add: library_state_def get_document_def demo_document_def)

theorem split_text_covers_witness:
  "\<exists>cs. split_text ''alpha beta gamma'' 8 3 = Some cs \<and> (\<forall>c \<in> set cs. c \<noteq> [] \<and> length c \<le> 8) \<and> (\<exists>c \<in> set cs. covers (strip ''alpha beta gamma'') 6 c)"
proof -
  obtain cs where cs: "split_text ''alpha beta gamma'' 8 3 = Some cs" by (simp add: split_text_def)
  have "strip ''alpha beta gamma'' = ''alpha beta gamma''" by code_simp
  then have "6 < length (strip ''alpha beta gamma'') \<and> \<not> is_space (strip ''alpha beta gamma'' ! 6)" by (simp add: is_space_def)
  with split_text_covers [OF cs] cs show ?thesis by blast
qed

theorem ingestion_recorded_witness:
  "\<exists>doc'. get_document ''d1'' (db (ingest_and_announce demo_services ''d1'' ''read me'' library_state)) = Some doc' \<and>
     dc_status doc' \<in> {Ready, Failed_ingest}"
  using ingestion_recorded [OF demo_in_library refl, of demo_services "''read me''"] by blast

definition shelf_state :: "nat state" where
  "shelf_state = library_state\<lparr>db := (db library_state)\<lparr>chunks := [\<lparr>dk_id = ''c1'', dk_document = ''d1'', dk_workspace = ''w1'',
     dk_index = 0, dk_text = ''read me'', dk_embedding = [1]\<rparr>]\<rparr>\<rparr>"

lemma demo_search:
  "\<exists>hits s'. search_knowledge demo_services ''w1'' ''hi'' 3 (1/20) shelf_state = (Inr hits, s') \<and> map sk_text hits = [''read me'']"
proof -
  have terms: "query_terms ''hi'' = {}" by (simp add: query_terms_def lower_def split_ws_def lower_char_def is_space_def)
  have "\<exists>s'. on_models (embed_one (sv_timing demo_services) ''hi'') shelf_state = (Inr [1], s') \<and> db s' = db shelf_state"
    by (simp add: on_models_def embed_one_def embed_def shelf_state_def library_state_def demo_state_def demo_services_def
        lab_router_def make_router_def resolve_def alias_of_def part_before_def part_after_def Let_def lab_provider_def link_call_def
        call_with_resilience_def breaker_for_def default_retry_policy_def allows_call_def state_at_def new_breaker_def
        update_breaker_def numeral_eq_Suc)
  then obtain s' where s': "on_models (embed_one (sv_timing demo_services) ''hi'') shelf_state = (Inr [1], s')" "db s' = db shelf_state"
    by blast
  have "map sk_text (similarity_search ''w1'' [1] {} 3 (1/20) (db shelf_state)) = [''read me'']"
    by (simp add: similarity_search_def shelf_state_def library_state_def demo_document_def scored_def chunk_score_def
        keyword_bonus_def cosine_similarity_def vec_norm_def dot_def map_filter_simps)
  with s' terms show ?thesis by (simp add: search_knowledge_def)
qed

theorem search_best_witness:
  "\<exists>hits s'. search_knowledge demo_services ''w1'' ''hi'' 3 (1/20) shelf_state = (Inr hits, s') \<and> length hits = 1 \<and> length hits \<le> 3"
proof -
  obtain hits s' where h: "search_knowledge demo_services ''w1'' ''hi'' 3 (1/20) shelf_state = (Inr hits, s')" "map sk_text hits = [''read me'']"
    using demo_search by (elim exE conjE)
  from arg_cong [OF h(2), of length] have "length hits = 1" by simp
  moreover have "length hits \<le> 3" using search_best [OF h(1)] by blast
  ultimately show ?thesis using h(1) by blast
qed

end
