(* ===== verification/Adapters.thy ===== *)
theory Adapters
  imports Channels Helper Knowledge Utf8
begin

text \<open>
  \<open>channels/telegram.py\<close>, \<open>channels/whatsapp.py\<close> and \<open>channels/gmail.py\<close>: authenticating,
  parsing and sending messages.  Payloads are JSON values, with the Python exceptions that a value
  of an unexpected type provokes.  HTTP is a function of what is outside; HMAC and the rendering of
  an e-mail are parameters.
\<close>

section \<open>Python on JSON values\<close>

fun truthy_json :: "json \<Rightarrow> bool" where
  "truthy_json JNull = False"
| "truthy_json (JBool b) = b"
| "truthy_json (JInt i) = (i \<noteq> 0)"
| "truthy_json (JReal x) = (x \<noteq> 0)"
| "truthy_json (JStr t) = (t \<noteq> [])"
| "truthy_json (JList xs) = (xs \<noteq> [])"
| "truthy_json (JObj fs) = (fs \<noteq> [])"

text \<open>\<open>d.get(k, alt)\<close> and \<open>d.get(k) or alt\<close>.\<close>

definition get_or :: "string \<Rightarrow> json \<Rightarrow> json_dict \<Rightarrow> json" where
  "get_or k alt fs = (case field k fs of None \<Rightarrow> alt | Some v \<Rightarrow> v)"

definition truthy_or :: "json \<Rightarrow> json \<Rightarrow> json" where
  "truthy_or v alt = (if truthy_json v then v else alt)"

text \<open>\<open>str(v)\<close>; the \<open>repr\<close> of floats, lists and dicts is a parameter.\<close>

fun py_str :: "(json \<Rightarrow> string) \<Rightarrow> json \<Rightarrow> string" where
  "py_str rep JNull = ''None''"
| "py_str rep (JBool b) = (if b then ''True'' else ''False'')"
| "py_str rep (JInt i) = show_int i"
| "py_str rep (JStr t) = t"
| "py_str rep v = rep v"

text \<open>What \<open>verify\<close> and \<open>parse\<close> do: return, refuse, or raise something the caller does not expect.\<close>

datatype verified = Authentic | Forged | Verify_raised

datatype parsed = Ignored | Parsed inbound | Parse_raised

text \<open>\<open>hmac.compare_digest\<close> of two strings: a \<open>TypeError\<close> unless both are ASCII.\<close>

definition compare_digest :: "string \<Rightarrow> string \<Rightarrow> bool option" where
  "compare_digest a b = (if is_ascii a \<and> is_ascii b then Some (a = b) else None)"

definition header :: "string \<Rightarrow> (string \<times> string) list \<Rightarrow> string" where
  "header k hs = (case map_of hs k of None \<Rightarrow> [] | Some v \<Rightarrow> v)"

definition digest_verdict :: "bool option \<Rightarrow> verified" where
  "digest_verdict m = (case m of None \<Rightarrow> Verify_raised | Some True \<Rightarrow> Authentic | Some False \<Rightarrow> Forged)"

text \<open>The reply of an HTTP call: the transport failed, or a status and the body, which may not be JSON.\<close>

datatype http_reply = Unreachable string | Reply int "json option"

record 'w http =
  ht_post :: "string \<Rightarrow> json \<Rightarrow> 'w \<Rightarrow> http_reply \<times> 'w"
  ht_get :: "string \<Rightarrow> json_dict \<Rightarrow> 'w \<Rightarrow> http_reply \<times> 'w"

text \<open>The pydantic check of the text fields of an \<open>InboundMessage\<close>.\<close>

definition inbound_of ::
  "channel_kind \<Rightarrow> string \<Rightarrow> string \<Rightarrow> string \<Rightarrow> json \<Rightarrow> json \<Rightarrow> parsed" where
  "inbound_of kind conversation external sender display t =
     (case (display, t) of
        (JStr d, JStr x) \<Rightarrow> Parsed \<lparr>in_channel = kind, in_conversation = conversation, in_sender = sender,
            in_external = external, in_display = d, in_text = x, in_subject = []\<rparr>
      | _ \<Rightarrow> Parse_raised)"

section \<open>Telegram\<close>

definition max_message_chars :: nat where
  "max_message_chars = 4096"

definition telegram_verify :: "string \<Rightarrow> (string \<times> string) list \<Rightarrow> verified" where
  "telegram_verify secret headers =
     (if secret = [] then Authentic
      else digest_verdict (compare_digest (header ''x-telegram-bot-api-secret-token'' headers) secret))"

text \<open>The display name: the truthy ones of two names joined by a blank, or the user name.\<close>

definition display_name :: "json_dict \<Rightarrow> json option" where
  "display_name sender =
     (let parts = filter truthy_json [get_or ''first_name'' JNull sender, get_or ''last_name'' JNull sender]
      in if list_all (\<lambda>v. case v of JStr t \<Rightarrow> True | _ \<Rightarrow> False) parts
         then Some (truthy_or (JStr (join '' '' (map (\<lambda>v. case v of JStr t \<Rightarrow> t | _ \<Rightarrow> []) parts)))
                     (get_or ''username'' (JStr []) sender))
         else None)"

text \<open>\<open>"id" in chat\<close>: membership in a dict or list, a substring of a text, a \<open>TypeError\<close> elsewhere.\<close>

fun contains_key :: "string \<Rightarrow> json \<Rightarrow> bool option" where
  "contains_key k (JObj fs) = Some (field k fs \<noteq> None)"
| "contains_key k (JStr t) = Some (contains k t)"
| "contains_key k (JList xs) = Some (JStr k \<in> set xs)"
| "contains_key k v = None"

definition telegram_message :: "json_dict \<Rightarrow> json" where
  "telegram_message payload = truthy_or (get_or ''message'' JNull payload) (get_or ''edited_message'' JNull payload)"

definition telegram_inbound :: "(json \<Rightarrow> string) \<Rightarrow> json_dict \<Rightarrow> json_dict \<Rightarrow> json \<Rightarrow> json \<Rightarrow> json \<Rightarrow> parsed" where
  "telegram_inbound rep m c chat_id sender t =
     (case sender of
        JObj f \<Rightarrow>
          (case display_name f of
             None \<Rightarrow> Parse_raised
           | Some d \<Rightarrow> inbound_of TELEGRAM (py_str rep chat_id) (py_str rep (get_or ''message_id'' (JStr []) m))
                        (py_str rep (get_or ''id'' chat_id f)) d t)
      | _ \<Rightarrow> Parse_raised)"

definition telegram_parse :: "(json \<Rightarrow> string) \<Rightarrow> json_dict \<Rightarrow> parsed" where
  "telegram_parse rep payload =
     (case telegram_message payload of
        JObj m \<Rightarrow>
          (let chat = truthy_or (get_or ''chat'' JNull m) (JObj []);
               sender = truthy_or (get_or ''from'' JNull m) (JObj []);
               t = truthy_or (truthy_or (get_or ''text'' JNull m) (get_or ''caption'' JNull m)) (JStr [])
           in if \<not> truthy_json t then Ignored
              else case contains_key ''id'' chat of
                None \<Rightarrow> Parse_raised
              | Some False \<Rightarrow> Ignored
              | Some True \<Rightarrow>
                  (case chat of
                     JObj c \<Rightarrow> telegram_inbound rep m c (get_or ''id'' JNull c) sender t
                   | _ \<Rightarrow> Parse_raised))
      | _ \<Rightarrow> Ignored)"

text \<open>
  Splitting a reply on line boundaries.  The loop does not end for every limit, so not returning is
  \<open>None\<close>.
\<close>

definition telegram_cut :: "nat \<Rightarrow> string \<Rightarrow> nat" where
  "telegram_cut limit remaining =
     (case rfind newline (take limit remaining) of
        None \<Rightarrow> limit
      | Some pos \<Rightarrow> if pos < limit div 2 then limit else pos)"

definition strip_newlines :: "string \<Rightarrow> string" where
  "strip_newlines = dropWhile (\<lambda>c. c = CHR 0x0A)"

partial_function (option) telegram_chunks :: "nat \<Rightarrow> string \<Rightarrow> string list option" where
  "telegram_chunks limit remaining =
     (if remaining = [] then Some []
      else if length remaining \<le> limit then Some [remaining]
      else Option.bind (telegram_chunks limit (strip_newlines (drop (telegram_cut limit remaining) remaining)))
             (\<lambda>cs. Some (take (telegram_cut limit remaining) remaining # cs)))"

definition empty_response :: string where
  "empty_response = ''(empty response)''"

definition telegram_split :: "string \<Rightarrow> nat \<Rightarrow> string list option" where
  "telegram_split t limit =
     (if length t \<le> limit then Some [if t = [] then empty_response else t] else telegram_chunks limit t)"

text \<open>\<open>_describe_error\<close>, \<open>None\<close> when the body has no \<open>get\<close>.\<close>

definition telegram_describe :: "(json \<Rightarrow> string) \<Rightarrow> int \<Rightarrow> json option \<Rightarrow> string option" where
  "telegram_describe rep code body =
     (case body of
        None \<Rightarrow> Some (''HTTP '' @ show_int code)
      | Some (JObj fs) \<Rightarrow> Some (take 200 (py_str rep (truthy_or (get_or ''description'' JNull fs) (JObj fs))))
      | _ \<Rightarrow> None)"

definition telegram_body :: "outbound \<Rightarrow> string \<Rightarrow> bool \<Rightarrow> json" where
  "telegram_body m chunk first =
     JObj ([(''chat_id'', JStr (ob_conversation m)), (''text'', JStr chunk), (''disable_web_page_preview'', JBool True)] @
           (if ob_reply_to m \<noteq> [] \<and> first then [(''reply_to_message_id'', JStr (ob_reply_to m))] else []))"

fun telegram_send_chunks ::
  "(json \<Rightarrow> string) \<Rightarrow> 'w http \<Rightarrow> string \<Rightarrow> outbound \<Rightarrow> string list \<Rightarrow> nat \<Rightarrow> 'w \<Rightarrow> send_run \<times> 'w" where
  "telegram_send_chunks rep h token m [] sent w =
     (Delivered True (''delivered '' @ show_nat sent @ '' message(s) to '' @ ob_conversation m), w)"
| "telegram_send_chunks rep h token m (c # cs) sent w =
     (case ht_post h (''https://api.telegram.org/bot'' @ token @ ''/sendMessage'') (telegram_body m c (sent = 0)) w of
        (Unreachable e, w1) \<Rightarrow> (Delivered False (''telegram unreachable: '' @ e), w1)
      | (Reply code body, w1) \<Rightarrow>
          if code \<noteq> 200 then
            (case telegram_describe rep code body of
               None \<Rightarrow> (Send_raised, w1)
             | Some d \<Rightarrow> (Delivered False (''telegram rejected the message: '' @ d), w1))
          else telegram_send_chunks rep h token m cs (Suc sent) w1)"

definition telegram_send :: "(json \<Rightarrow> string) \<Rightarrow> 'w http \<Rightarrow> string \<Rightarrow> outbound \<Rightarrow> 'w \<Rightarrow> send_run \<times> 'w" where
  "telegram_send rep h token m w =
     (if token = [] then (Delivered False ''no Telegram bot token configured'', w)
      else case telegram_split (ob_text m) max_message_chars of
        None \<Rightarrow> (Send_raised, w)
      | Some cs \<Rightarrow> telegram_send_chunks rep h token m cs 0 w)"

definition register_webhook :: "(json \<Rightarrow> string) \<Rightarrow> 'w http \<Rightarrow> string \<Rightarrow> string \<Rightarrow> string \<Rightarrow> 'w \<Rightarrow> send_run \<times> 'w" where
  "register_webhook rep h token secret url w =
     (if token = [] then (Delivered False ''no Telegram bot token configured'', w)
      else case ht_post h (''https://api.telegram.org/bot'' @ token @ ''/setWebhook'')
             (JObj ([(''url'', JStr url), (''allowed_updates'', JList [JStr ''message'', JStr ''edited_message''])] @
                    (if secret = [] then [] else [(''secret_token'', JStr secret)]))) w of
        (Unreachable e, w1) \<Rightarrow> (Send_raised, w1)
      | (Reply code body, w1) \<Rightarrow>
          if code \<noteq> 200 then
            (case telegram_describe rep code body of
               None \<Rightarrow> (Send_raised, w1)
             | Some d \<Rightarrow> (Delivered False (''could not register webhook: '' @ d), w1))
          else (Delivered True (''webhook registered at '' @ url), w1))"

section \<open>WhatsApp\<close>

definition whatsapp_verify :: "(string \<Rightarrow> string \<Rightarrow> string) \<Rightarrow> string \<Rightarrow> (string \<times> string) list \<Rightarrow> string \<Rightarrow> verified" where
  "whatsapp_verify hmac app_secret headers body =
     (if app_secret = [] then Authentic
      else let h = header ''x-hub-signature-256'' headers in
        if \<not> starts_with ''sha256='' h then Forged
        else digest_verdict (compare_digest (drop 7 h) (hmac app_secret body)))"

text \<open>\<open>payload["entry"][0]["changes"][0]["value"]\<close>; every failure on the way is caught.\<close>

definition at_key :: "string \<Rightarrow> json \<Rightarrow> json option" where
  "at_key k v = (case v of JObj fs \<Rightarrow> field k fs | _ \<Rightarrow> None)"

definition first_item :: "json \<Rightarrow> json option" where
  "first_item v = (case v of JList (x # _) \<Rightarrow> Some x | _ \<Rightarrow> None)"

definition whatsapp_change :: "json_dict \<Rightarrow> json option" where
  "whatsapp_change payload =
     Option.bind (field ''entry'' payload) (\<lambda>e. Option.bind (first_item e) (\<lambda>e0. Option.bind (at_key ''changes'' e0)
       (\<lambda>c. Option.bind (first_item c) (at_key ''value''))))"

text \<open>The text of a message or the caption of its media; \<open>None\<close> raises.\<close>

definition whatsapp_text :: "json_dict \<Rightarrow> json option" where
  "whatsapp_text m =
     (if field ''type'' m = Some (JStr ''text'') then
        (case get_or ''text'' (JObj []) m of JObj fs \<Rightarrow> Some (get_or ''body'' (JStr []) fs) | _ \<Rightarrow> None)
      else case get_or ''type'' (JStr []) m of
        JList xs \<Rightarrow> None
      | JObj fs \<Rightarrow> None
      | JStr k \<Rightarrow>
          (case contains_key ''caption'' (get_or k (JObj []) m) of
             None \<Rightarrow> None
           | Some False \<Rightarrow> Some (JStr [])
           | Some True \<Rightarrow> (case get_or k (JObj []) m of JObj fs \<Rightarrow> field ''caption'' fs | _ \<Rightarrow> None))
      | _ \<Rightarrow> Some (JStr []))"

definition whatsapp_display :: "json_dict \<Rightarrow> json option" where
  "whatsapp_display change =
     (case first_item (truthy_or (get_or ''contacts'' JNull change) (JList [JObj []])) of
        Some (JObj c) \<Rightarrow> (case get_or ''profile'' (JObj []) c of JObj p \<Rightarrow> Some (get_or ''name'' (JStr []) p) | _ \<Rightarrow> None)
      | _ \<Rightarrow> None)"

definition whatsapp_message :: "(json \<Rightarrow> string) \<Rightarrow> json_dict \<Rightarrow> json_dict \<Rightarrow> parsed" where
  "whatsapp_message rep change m =
     (let sender = py_str rep (get_or ''from'' (JStr []) m) in
      if sender = [] then Ignored
      else case whatsapp_text m of
        None \<Rightarrow> Parse_raised
      | Some t \<Rightarrow>
          if \<not> truthy_json t then Ignored
          else case whatsapp_display change of
            None \<Rightarrow> Parse_raised
          | Some d \<Rightarrow> inbound_of WHATSAPP sender (py_str rep (get_or ''id'' (JStr []) m)) sender d t)"

definition whatsapp_parse :: "(json \<Rightarrow> string) \<Rightarrow> json_dict \<Rightarrow> parsed" where
  "whatsapp_parse rep payload =
     (case whatsapp_change payload of
        None \<Rightarrow> Ignored
      | Some (JObj change) \<Rightarrow>
          (let messages = get_or ''messages'' JNull change in
           if \<not> truthy_json messages then Ignored
           else case first_item messages of Some (JObj m) \<Rightarrow> whatsapp_message rep change m | _ \<Rightarrow> Parse_raised)
      | Some _ \<Rightarrow> Parse_raised)"

function slices :: "nat \<Rightarrow> string \<Rightarrow> string list" where
  "slices limit t = (if t = [] \<or> limit = 0 then [] else take limit t # slices limit (drop limit t))"
  by pat_completeness auto
termination
  by (relation "measure (\<lambda>(limit, t). length t)") auto

declare slices.simps [simp del]

definition whatsapp_split :: "string \<Rightarrow> nat \<Rightarrow> string list" where
  "whatsapp_split t limit =
     (if length t \<le> limit then [if t = [] then empty_response else t] else slices limit t)"

definition whatsapp_describe :: "(json \<Rightarrow> string) \<Rightarrow> int \<Rightarrow> json option \<Rightarrow> string option" where
  "whatsapp_describe rep code body =
     (case body of
        None \<Rightarrow> Some (''HTTP '' @ show_int code)
      | Some (JObj fs) \<Rightarrow> Some (take 250 (py_str rep (get_or ''error'' (JObj fs) fs)))
      | _ \<Rightarrow> None)"

definition whatsapp_body :: "outbound \<Rightarrow> string \<Rightarrow> json" where
  "whatsapp_body m chunk =
     JObj [(''messaging_product'', JStr ''whatsapp''), (''to'', JStr (ob_conversation m)), (''type'', JStr ''text''),
           (''text'', JObj [(''body'', JStr chunk), (''preview_url'', JBool False)])]"

definition window_closed :: string where
  "window_closed = ''the 24-hour customer service window has closed; only a '' @
     ''pre-approved template message can be sent now''"

fun whatsapp_send_chunks ::
  "(json \<Rightarrow> string) \<Rightarrow> 'w http \<Rightarrow> string \<Rightarrow> outbound \<Rightarrow> nat \<Rightarrow> string list \<Rightarrow> 'w \<Rightarrow> send_run \<times> 'w" where
  "whatsapp_send_chunks rep h phone m n [] w = (Delivered True (''delivered '' @ show_nat n @ '' message(s)''), w)"
| "whatsapp_send_chunks rep h phone m n (c # cs) w =
     (case ht_post h (''https://graph.facebook.com/v21.0/'' @ phone @ ''/messages'') (whatsapp_body m c) w of
        (Unreachable e, w1) \<Rightarrow> (Delivered False (''whatsapp unreachable: '' @ e), w1)
      | (Reply code body, w1) \<Rightarrow>
          if code \<ge> 400 then
            (case whatsapp_describe rep code body of
               None \<Rightarrow> (Send_raised, w1)
             | Some d \<Rightarrow>
                 (Delivered False (if contains ''131047'' d then window_closed else ''whatsapp rejected the message: '' @ d), w1))
          else whatsapp_send_chunks rep h phone m n cs w1)"

definition whatsapp_send :: "(json \<Rightarrow> string) \<Rightarrow> 'w http \<Rightarrow> string \<Rightarrow> string \<Rightarrow> outbound \<Rightarrow> 'w \<Rightarrow> send_run \<times> 'w" where
  "whatsapp_send rep h token phone m w =
     (if token = [] \<or> phone = [] then (Delivered False ''WhatsApp token or phone number id is not configured'', w)
      else let cs = whatsapp_split (ob_text m) max_message_chars in whatsapp_send_chunks rep h phone m (length cs) cs w)"

definition verification_challenge :: "string \<Rightarrow> (string \<times> string) list \<Rightarrow> string option option" where
  "verification_challenge app_secret params =
     (if map_of params ''hub.mode'' \<noteq> Some ''subscribe'' then Some None
      else case compare_digest (header ''hub.verify_token'' params) app_secret of
        None \<Rightarrow> None
      | Some False \<Rightarrow> Some None
      | Some True \<Rightarrow> Some (map_of params ''hub.challenge''))"

section \<open>Gmail\<close>

text \<open>\<open>base64.urlsafe_b64decode\<close>: \<open>None\<close> for a value that is not ASCII text, or not base64.\<close>

definition url_back :: "char \<Rightarrow> char" where
  "url_back c = (if c = CHR ''-'' then CHR ''+'' else if c = CHR ''_'' then CHR ''/'' else c)"

definition url_b64_decode :: "json \<Rightarrow> string option" where
  "url_b64_decode v = (case v of JStr t \<Rightarrow> if is_ascii t then b64_decode (map url_back t) else None | _ \<Rightarrow> None)"

definition gmail_pointer :: "string \<Rightarrow> (json \<Rightarrow> string) \<Rightarrow> json_dict \<Rightarrow> parsed" where
  "gmail_pointer address rep notification =
     (let history_id = py_str rep (get_or ''historyId'' (JStr []) notification) in
      if history_id = [] then Ignored
      else case get_or ''emailAddress'' (JStr address) notification of
        JStr a \<Rightarrow> Parsed \<lparr>in_channel = GMAIL, in_conversation = history_id, in_sender = a, in_external = [],
                   in_display = a, in_text = [], in_subject = []\<rparr>
      | _ \<Rightarrow> Parse_raised)"

definition gmail_parse :: "string \<Rightarrow> (json \<Rightarrow> string) \<Rightarrow> json_dict \<Rightarrow> parsed" where
  "gmail_parse address rep payload =
     (case field ''message'' payload of
        Some (JObj m) \<Rightarrow>
          (case Option.bind (field ''data'' m) url_b64_decode of
             None \<Rightarrow> Ignored
           | Some bytes \<Rightarrow>
               (case loads (decode_lossy bytes) of
                  None \<Rightarrow> Ignored
                | Some (JObj notification) \<Rightarrow> gmail_pointer address rep notification
                | Some v \<Rightarrow> Parse_raised))
      | _ \<Rightarrow> Ignored)"

text \<open>The message ids a history page adds; \<open>None\<close> raises.  A text or dict iterates over texts.\<close>

definition items_of :: "json \<Rightarrow> json list option" where
  "items_of v = (if \<not> truthy_json v then Some []
     else case v of
       JList xs \<Rightarrow> Some xs
     | JStr t \<Rightarrow> Some (map (\<lambda>c. JStr [c]) t)
     | JObj fs \<Rightarrow> Some (map (\<lambda>(k, x). JStr k) fs)
     | _ \<Rightarrow> None)"

definition as_dict :: "json \<Rightarrow> json_dict option" where
  "as_dict v = (case v of JObj fs \<Rightarrow> Some fs | _ \<Rightarrow> None)"

definition hashable :: "json \<Rightarrow> bool" where
  "hashable v = (case v of JList xs \<Rightarrow> False | JObj fs \<Rightarrow> False | _ \<Rightarrow> True)"

definition own_labels :: "json list" where
  "own_labels = [JStr ''SENT'', JStr ''DRAFT'', JStr ''TRASH'']"

definition added_id :: "json \<Rightarrow> json list option" where
  "added_id added =
     Option.bind (as_dict added) (\<lambda>a.
     Option.bind (as_dict (get_or ''message'' (JObj []) a)) (\<lambda>m.
     Option.bind (items_of (get_or ''labelIds'' (JList []) m)) (\<lambda>labels.
       if \<not> list_all hashable labels then None
       else if list_ex (\<lambda>l. l \<in> set own_labels) labels then Some []
       else if truthy_json (get_or ''id'' JNull m) then Some [get_or ''id'' JNull m] else Some [])))"

fun collect :: "('a \<Rightarrow> 'b list option) \<Rightarrow> 'a list \<Rightarrow> 'b list option" where
  "collect f [] = Some []"
| "collect f (x # xs) = Option.bind (f x) (\<lambda>ys. map_option ((@) ys) (collect f xs))"

definition history_ids :: "json_dict \<Rightarrow> json list option" where
  "history_ids body =
     Option.bind (items_of (get_or ''history'' (JList []) body)) (collect (\<lambda>entry.
     Option.bind (as_dict entry) (\<lambda>e.
     Option.bind (items_of (get_or ''messagesAdded'' (JList []) e)) (collect added_id))))"

definition gmail_describe :: "(json \<Rightarrow> string) \<Rightarrow> int \<Rightarrow> json option \<Rightarrow> string option" where
  "gmail_describe rep code body =
     (case body of
        None \<Rightarrow> Some (''HTTP '' @ show_int code)
      | Some v \<Rightarrow>
          Option.bind (as_dict v) (\<lambda>b. Option.bind (as_dict (get_or ''error'' (JObj []) b)) (\<lambda>e.
            Some (take 200 (py_str rep (get_or ''message'' (JInt code) e))))))"

definition gmail_url :: string where
  "gmail_url = ''https://gmail.googleapis.com/gmail/v1/users/me''"

definition history_page :: "(json \<Rightarrow> string) \<Rightarrow> string \<Rightarrow> json option \<Rightarrow> (json list \<times> string) option" where
  "history_page rep start body =
     Option.bind body (\<lambda>v. Option.bind (as_dict v) (\<lambda>b. map_option
       (\<lambda>ids. (ids, py_str rep (truthy_or (get_or ''historyId'' JNull b) (JStr start)))) (history_ids b)))"

definition list_history ::
  "(json \<Rightarrow> string) \<Rightarrow> 'w http \<Rightarrow> string \<Rightarrow> string \<Rightarrow> 'w \<Rightarrow> (json list \<times> string) option \<times> 'w" where
  "list_history rep h token start w =
     (if token = [] \<or> start = [] then (Some ([], start), w)
      else case ht_get h (gmail_url @ ''/history'') [(''startHistoryId'', JStr start), (''historyTypes'', JStr ''messageAdded'')] w of
        (Unreachable e, w1) \<Rightarrow> (Some ([], start), w1)
      | (Reply code body, w1) \<Rightarrow>
          if code = 404 then (Some ([], []), w1)
          else if code \<noteq> 200 then
            (case gmail_describe rep code body of None \<Rightarrow> (None, w1) | Some d \<Rightarrow> (Some ([], start), w1))
          else (history_page rep start body, w1))"

text \<open>\<open>_extract_text\<close>: the first non-empty plain-text body of the MIME tree.\<close>

lemma field_size: "field k fs = Some v \<Longrightarrow> size v < size (JObj fs)"
  by (induction fs) (auto simp: field_def split: if_splits)

lemma parts_size: "get_or k (JList []) fs = JList xs \<Longrightarrow> size_list size xs < size (JObj fs)"
  by (auto simp: get_or_def dest: field_size split: option.splits)

function extract_text :: "json \<Rightarrow> string option" and extract_parts :: "json list \<Rightarrow> string option" where
  "extract_text v =
     (case v of
        JObj p \<Rightarrow>
          (let children = (case get_or ''parts'' (JList []) p of
                 JList xs \<Rightarrow> extract_parts xs
               | w \<Rightarrow> if truthy_json w then None else Some [])
           in if field ''mimeType'' p = Some (JStr ''text/plain'') then
                (case get_or ''body'' (JObj []) p of
                   JObj b \<Rightarrow>
                     (if truthy_json (get_or ''data'' JNull b)
                      then map_option decode_lossy (url_b64_decode (get_or ''data'' JNull b)) else children)
                 | _ \<Rightarrow> None)
              else children)
      | _ \<Rightarrow> None)"
| "extract_parts [] = Some []"
| "extract_parts (x # xs) =
     (case extract_text x of None \<Rightarrow> None | Some t \<Rightarrow> if t \<noteq> [] then Some t else extract_parts xs)"
  by pat_completeness auto
termination
  by (relation "measure (\<lambda>x. case x of Inl v \<Rightarrow> size v | Inr vs \<Rightarrow> size_list size vs)")
    (simp_all add: parts_size [simplified])

text \<open>The headers by lower-case name, the last of a name winning.\<close>

definition header_pair :: "json \<Rightarrow> (string \<times> json) list option" where
  "header_pair v =
     (case v of
        JObj h \<Rightarrow>
          (case (field ''name'' h, field ''value'' h) of
             (Some (JStr n), Some x) \<Rightarrow> Some [(lower n, x)]
           | _ \<Rightarrow> None)
      | _ \<Rightarrow> None)"

definition gmail_headers :: "json_dict \<Rightarrow> json_dict option" where
  "gmail_headers part =
     (case get_or ''headers'' (JList []) part of
        JList xs \<Rightarrow> map_option rev (collect header_pair xs)
      | v \<Rightarrow> if truthy_json v then None else Some [])"

definition gmail_message :: "(json \<Rightarrow> string) \<Rightarrow> json \<Rightarrow> json_dict \<Rightarrow> parsed" where
  "gmail_message rep mid body =
     (case get_or ''payload'' (JObj []) body of
        JObj part \<Rightarrow>
          (case (gmail_headers part, extract_text (JObj part)) of
             (Some hs, Some t) \<Rightarrow>
               (case (get_or ''threadId'' mid body, mid, get_or ''from'' (JStr []) hs, get_or ''subject'' (JStr []) hs,
                      truthy_or (JStr t) (get_or ''snippet'' (JStr []) body)) of
                  (JStr thread, JStr i, JStr sender, JStr subject, JStr content) \<Rightarrow>
                    Parsed \<lparr>in_channel = GMAIL, in_conversation = thread, in_sender = sender, in_external = i,
                      in_display = sender, in_text = content, in_subject = subject\<rparr>
                | _ \<Rightarrow> Parse_raised)
           | _ \<Rightarrow> Parse_raised)
      | _ \<Rightarrow> Parse_raised)"

definition fetch_message :: "(json \<Rightarrow> string) \<Rightarrow> 'w http \<Rightarrow> string \<Rightarrow> json \<Rightarrow> 'w \<Rightarrow> parsed \<times> 'w" where
  "fetch_message rep h token mid w =
     (if token = [] then (Ignored, w)
      else case ht_get h (gmail_url @ ''/messages/'' @ py_str rep mid) [(''format'', JStr ''full'')] w of
        (Unreachable e, w1) \<Rightarrow> (Parse_raised, w1)
      | (Reply code body, w1) \<Rightarrow>
          if code \<noteq> 200 then
            (case gmail_describe rep code body of None \<Rightarrow> (Parse_raised, w1) | Some d \<Rightarrow> (Ignored, w1))
          else (case Option.bind body as_dict of None \<Rightarrow> (Parse_raised, w1) | Some b \<Rightarrow> (gmail_message rep mid b, w1)))"

text \<open>\<open>EmailMessage\<close>: the bytes of a mail to, about, from and saying; \<open>None\<close> when a header is refused.\<close>

type_synonym mail_format = "string \<Rightarrow> string \<Rightarrow> string option \<Rightarrow> string \<Rightarrow> string option"

definition mail_of :: "mail_format \<Rightarrow> string \<Rightarrow> outbound \<Rightarrow> string option" where
  "mail_of fmt address m =
     fmt (if ob_reply_to m \<noteq> [] then ob_reply_to m else ob_conversation m)
       (if ob_subject m \<noteq> [] then ob_subject m else ''Re:'')
       (if address \<noteq> [] then Some address else None)
       (if ob_text m \<noteq> [] then ob_text m else empty_response)"

definition gmail_body :: "string \<Rightarrow> outbound \<Rightarrow> json" where
  "gmail_body bytes m =
     JObj ((''raw'', JStr (map url_char (b64_encode bytes))) #
           (if ob_conversation m \<noteq> [] then [(''threadId'', JStr (ob_conversation m))] else []))"

definition gmail_send ::
  "(json \<Rightarrow> string) \<Rightarrow> mail_format \<Rightarrow> 'w http \<Rightarrow> string \<Rightarrow> string \<Rightarrow> outbound \<Rightarrow> 'w \<Rightarrow> send_run \<times> 'w" where
  "gmail_send rep fmt h token address m w =
     (if token = [] then (Delivered False ''no Gmail access token configured'', w)
      else case mail_of fmt address m of
        None \<Rightarrow> (Send_raised, w)
      | Some bytes \<Rightarrow>
          (case ht_post h (gmail_url @ ''/messages/send'') (gmail_body bytes m) w of
             (Unreachable e, w1) \<Rightarrow> (Delivered False (''gmail unreachable: '' @ e), w1)
           | (Reply code body, w1) \<Rightarrow>
               if code = 401 then
                 (Delivered False ''Gmail rejected the access token; it has expired or been revoked'', w1)
               else if code \<ge> 400 then
                 (case gmail_describe rep code body of
                    None \<Rightarrow> (Send_raised, w1)
                  | Some d \<Rightarrow> (Delivered False (''gmail rejected the message: '' @ d), w1))
               else (Delivered True ''email sent'', w1)))"

section \<open>The adapters of a deployment\<close>

record adapter_settings = channel_settings +
  as_telegram_secret :: string
  as_whatsapp_secret :: string
  as_gmail_address :: string
  as_public_url :: string

record adapter_libs =
  al_rep :: "json \<Rightarrow> string"
  al_hmac :: "string \<Rightarrow> string \<Rightarrow> string"
  al_mail :: mail_format

text \<open>A transport with its inbound half.\<close>

record 'w adapter = "'w transport" +
  ad_verify :: "(string \<times> string) list \<Rightarrow> string \<Rightarrow> verified"
  ad_parse :: "json_dict \<Rightarrow> parsed"

definition adapter_for :: "adapter_libs \<Rightarrow> 'w http \<Rightarrow> adapter_settings \<Rightarrow> channel_kind \<Rightarrow> 'w adapter" where
  "adapter_for lib h st k =
     (case k of
        TELEGRAM \<Rightarrow> \<lparr>tp_kind = k, tp_send = telegram_send (al_rep lib) h (st_telegram_token st),
          ad_verify = \<lambda>hs body. telegram_verify (as_telegram_secret st) hs, ad_parse = telegram_parse (al_rep lib)\<rparr>
      | WHATSAPP \<Rightarrow> \<lparr>tp_kind = k, tp_send = whatsapp_send (al_rep lib) h (st_whatsapp_token st) (st_whatsapp_phone st),
          ad_verify = whatsapp_verify (al_hmac lib) (as_whatsapp_secret st), ad_parse = whatsapp_parse (al_rep lib)\<rparr>
      | _ \<Rightarrow> \<lparr>tp_kind = k, tp_send = gmail_send (al_rep lib) (al_mail lib) h (st_gmail_token st) (as_gmail_address st),
          ad_verify = \<lambda>hs body. Authentic, ad_parse = gmail_parse (as_gmail_address st) (al_rep lib)\<rparr>)"

definition adapters_of :: "adapter_libs \<Rightarrow> 'w http \<Rightarrow> adapter_settings \<Rightarrow> (channel_kind \<times> 'w adapter) list" where
  "adapters_of lib h st = build_registry (adapter_for lib h st) st"

end
