(* ===== verification/Ingress.thy ===== *)
theory Ingress
  imports Adapters Access
begin

text \<open>
  \<open>api/routers/channels.py\<close>: the webhooks through which messages enter, with the cursor of the
  pull-style channel, and the routes an operator uses to look at the channels.
\<close>

section \<open>Webhooks\<close>

text \<open>What a webhook answers; \<open>Raised\<close> is an exception nothing catches, a 500.\<close>

datatype response = Response int string | Raised

record 'v ingress =
  ig_services :: "'v services"
  ig_quota :: quota_policy
  ig_sha :: "string \<Rightarrow> string"
  ig_settings :: adapter_settings
  ig_libs :: adapter_libs
  ig_http :: "'v backend http"

definition ingress_channel :: "'v ingress \<Rightarrow> channel_kind \<Rightarrow> 'v backend adapter option" where
  "ingress_channel g k = get_channel k (adapters_of (ig_libs g) (ig_http g) (ig_settings g))"

definition whatsapp_verification :: "'v ingress \<Rightarrow> (string \<times> string) list \<Rightarrow> response" where
  "whatsapp_verification g params =
     (case ingress_channel g WHATSAPP of
        None \<Rightarrow> Response 404 []
      | Some c \<Rightarrow>
          (case verification_challenge (as_whatsapp_secret (ig_settings g)) params of
             None \<Rightarrow> Raised
           | Some None \<Rightarrow> Response 403 ''verification token did not match''
           | Some (Some challenge) \<Rightarrow> Response 200 challenge))"

text \<open>Fetching the messages of a history page; \<open>None\<close> raises.\<close>

fun fetch_all :: "(json \<Rightarrow> string) \<Rightarrow> 'w http \<Rightarrow> string \<Rightarrow> json list \<Rightarrow> 'w \<Rightarrow> inbound list option \<times> 'w" where
  "fetch_all rep h token [] w = (Some [], w)"
| "fetch_all rep h token (i # ids) w =
     (case fetch_message rep h token i w of
        (Parse_raised, w1) \<Rightarrow> (None, w1)
      | (Ignored, w1) \<Rightarrow> fetch_all rep h token ids w1
      | (Parsed m, w1) \<Rightarrow> (case fetch_all rep h token ids w1 of (r, w2) \<Rightarrow> (map_option ((#) m) r, w2)))"

definition gmail_cursor :: "ident \<Rightarrow> database \<Rightarrow> channel_cursor option" where
  "gmail_cursor ws d = find (\<lambda>c. cu_workspace c = ws \<and> cu_channel c = kind_value GMAIL) (cursors d)"

definition baseline_cursor :: "ident \<Rightarrow> string \<Rightarrow> 'w sys \<Rightarrow> 'w sys" where
  "baseline_cursor ws position s =
     use_id (on_db (\<lambda>d. d\<lparr>cursors := cursors d @ [\<lparr>cu_id = fresh s, cu_workspace = ws, cu_channel = kind_value GMAIL,
       cu_position = position, cu_updated = clock s\<rparr>]\<rparr>) s)"

definition advance_cursor :: "ident \<Rightarrow> string \<Rightarrow> 'w sys \<Rightarrow> 'w sys" where
  "advance_cursor ws position s =
     on_db (\<lambda>d. d\<lparr>cursors := update_where (\<lambda>c. cu_workspace c = ws \<and> cu_channel c = kind_value GMAIL)
       (\<lambda>c. c\<lparr>cu_position := position, cu_updated := clock s\<rparr>) (cursors d)\<rparr>) s"

text \<open>The window from a stored position: what it lists is fetched, then the position moves on.\<close>

definition read_window ::
  "'v ingress \<Rightarrow> ident \<Rightarrow> string \<Rightarrow> string \<Rightarrow> 'v state \<Rightarrow> inbound list option \<times> 'v state" where
  "read_window g ws position start s =
     (let rep = al_rep (ig_libs g); h = ig_http g; token = st_gmail_token (ig_settings g) in
      case list_history rep h token start (outside s) of
        (None, w1) \<Rightarrow> (None, s\<lparr>outside := w1\<rparr>)
      | (Some (ids, next_position), w1) \<Rightarrow>
          (case fetch_all rep h token ids w1 of
             (None, w2) \<Rightarrow> (None, s\<lparr>outside := w2\<rparr>)
           | (Some ms, w2) \<Rightarrow>
               (Some ms, advance_cursor ws (if next_position = [] then position else next_position) (s\<lparr>outside := w2\<rparr>))))"

definition resolve_gmail ::
  "'v ingress \<Rightarrow> inbound \<Rightarrow> channel_target \<Rightarrow> 'v state \<Rightarrow> inbound list option \<times> 'v state" where
  "resolve_gmail g notification tg s =
     (let ws = tg_workspace tg; position = in_conversation notification in
      case gmail_cursor ws (db s) of
        None \<Rightarrow> (Some [], baseline_cursor ws position s)
      | Some c \<Rightarrow> if cu_position c = [] then (Some [], s) else read_window g ws position (cu_position c) s)"

text \<open>Routing the messages in order, until one is refused.\<close>

fun route_each ::
  "'v ingress \<Rightarrow> channel_target \<Rightarrow> inbound list \<Rightarrow> nat \<Rightarrow> 'v state \<Rightarrow> response \<times> 'v state" where
  "route_each g tg [] routed s = (Response 200 (''accepted '' @ show_nat routed @ '' message(s)''), s)"
| "route_each g tg (m # ms) routed s =
     (case handle_inbound (ig_services g) (ig_quota g) (ig_sha g) m tg s of
        (Inl (Domain e), s1) \<Rightarrow> (Response 503 (er_message e), s1)
      | (Inl (Planning e), s1) \<Rightarrow> (Raised, s1)
      | (Inr ru, s1) \<Rightarrow> route_each g tg ms (if ru_duplicate ru then routed else Suc routed) s1)"

definition route_inbound :: "'v ingress \<Rightarrow> channel_kind \<Rightarrow> inbound \<Rightarrow> 'v state \<Rightarrow> response \<times> 'v state" where
  "route_inbound g k m s =
     (case resolve_target (ig_settings g) (db s) of
        Inl e \<Rightarrow> (Response 503 (er_message e), s)
      | Inr tg \<Rightarrow>
          if k = GMAIL then
            (case resolve_gmail g m tg s of
               (None, s1) \<Rightarrow> (Raised, s1)
             | (Some ms, s1) \<Rightarrow> route_each g tg ms 0 s1)
          else route_each g tg [m] 0 s)"

text \<open>A body that is not UTF-8 raises before it is parsed.\<close>

definition read_body :: "string \<Rightarrow> json option option" where
  "read_body body =
     (let t = (if body = [] then ''{}'' else body)
      in if decode_lossy t \<noteq> t then None else Some (loads t))"

definition act_on_body :: "'v ingress \<Rightarrow> channel_kind \<Rightarrow> 'v backend adapter \<Rightarrow> string \<Rightarrow> 'v state \<Rightarrow> response \<times> 'v state" where
  "act_on_body g k c body s =
     (case read_body body of
        None \<Rightarrow> (Raised, s)
      | Some None \<Rightarrow> (Response 400 ''payload was not JSON'', s)
      | Some (Some (JObj payload)) \<Rightarrow>
          (case ad_parse c payload of
             Parse_raised \<Rightarrow> (Raised, s)
           | Ignored \<Rightarrow> (Response 200 ''nothing to act on'', s)
           | Parsed m \<Rightarrow> route_inbound g k m s)
      | Some (Some v) \<Rightarrow> (Response 400 ''payload was not an object'', s))"

definition receive_webhook ::
  "'v ingress \<Rightarrow> string \<Rightarrow> (string \<times> string) list \<Rightarrow> string \<Rightarrow> 'v state \<Rightarrow> response \<times> 'v state" where
  "receive_webhook g kind headers body s =
     (case kind_of_text kind of
        None \<Rightarrow> (Response 404 ''unknown channel'', s)
      | Some k \<Rightarrow>
          (case ingress_channel g k of
             None \<Rightarrow> (Response 404 (kind @ '' is not configured''), s)
           | Some c \<Rightarrow>
               (case ad_verify c (map (\<lambda>(n, v). (lower n, v)) headers) body of
                  Verify_raised \<Rightarrow> (Raised, s)
                | Forged \<Rightarrow> (Response 401 ''signature verification failed'', s)
                | Authentic \<Rightarrow> act_on_body g k c body s)))"

section \<open>The operator's routes\<close>

record channel_overview =
  cl_configured :: "string list"
  cl_workspace_slug :: string
  cl_agent_handle :: string
  cl_webhook_base :: string

definition rstrip_char :: "char \<Rightarrow> string \<Rightarrow> string" where
  "rstrip_char c t = rev (dropWhile (\<lambda>x. x = c) (rev t))"

definition public_base :: "adapter_settings \<Rightarrow> string" where
  "public_base st = rstrip_char (CHR ''/'') (as_public_url st) @ ''/v1/channels''"

definition channel_status :: "'v ingress \<Rightarrow> actor \<Rightarrow> (channel_overview, 'w) handler" where
  "channel_status g a s =
     (Inr \<lparr>cl_configured = channel_kinds (adapters_of (ig_libs g) (ig_http g) (ig_settings g)),
           cl_workspace_slug = st_workspace_slug (ig_settings g), cl_agent_handle = st_agent_handle (ig_settings g),
           cl_webhook_base = public_base (ig_settings g)\<rparr>, s)"

definition list_bindings :: "actor \<Rightarrow> (channel_binding list, 'w) handler" where
  "list_bindings a s =
     (Inr (take 200 (sort_key (\<lambda>b. - cb_created b) (filter (\<lambda>b. cb_workspace b = wk_id (ac_workspace a)) (bindings (db s))))), s)"

definition delivery_stats :: "actor \<Rightarrow> (nat \<times> nat \<times> nat, 'w) handler" where
  "delivery_stats a s =
     (let count = (\<lambda>st. count_where (\<lambda>r. cr_workspace r = wk_id (ac_workspace a) \<and> cr_status r = st) (replies (db s)))
      in (Inr (count Pending_reply, count Sent, count Abandoned), s))"

definition register_telegram_webhook :: "'v ingress \<Rightarrow> actor \<Rightarrow> (bool \<times> string \<times> string, 'v backend) handler" where
  "register_telegram_webhook g a s =
     (case ingress_channel g TELEGRAM of
        None \<Rightarrow> (Inl (Domain_error \<lparr>er_kind = Internal_error, er_message = ''Telegram is not configured'', er_context = []\<rparr>), s)
      | Some c \<Rightarrow>
          (let url = public_base (ig_settings g) @ ''/telegram/webhook'' in
           case register_webhook (al_rep (ig_libs g)) (ig_http g) (st_telegram_token (ig_settings g))
                  (as_telegram_secret (ig_settings g)) url (outside s) of
             (Send_raised, w) \<Rightarrow> (Inl Crashed, s\<lparr>outside := w\<rparr>)
           | (Delivered ok summary, w) \<Rightarrow> (Inr (ok, summary, url), s\<lparr>outside := w\<rparr>)))"

end
