(* ===== verification/Ingress_Props.thy ===== *)
theory Ingress_Props
  imports Ingress Channel_Props
begin

text \<open>
  What the adapters and the webhooks promise: replies are cut into messages the provider accepts,
  nothing is done for a message that is not authentic, and what is acknowledged is recorded.
\<close>

section \<open>Cutting replies\<close>

lemma rfind_newline:
  "rfind newline t = Some pos \<Longrightarrow> pos < length t \<and> t ! pos = CHR 0x0A"
  by (induction t arbitrary: pos) (auto simp: newline_def starts_with_def split: option.splits if_splits)

lemma telegram_cut_le: "telegram_cut limit t \<le> limit"
  by (auto simp: telegram_cut_def split: option.splits dest: rfind_newline)

lemma strip_newlines_length: "length (strip_newlines t) \<le> length t"
  by (simp add: strip_newlines_def length_dropWhile_le)

lemma strip_newlines_idem [simp]: "strip_newlines (strip_newlines t) = strip_newlines t"
  by (simp add: strip_newlines_def)

lemma strip_newlines_keeps: "filter (\<lambda>c. c \<noteq> CHR 0x0A) (strip_newlines t) = filter (\<lambda>c. c \<noteq> CHR 0x0A) t"
  by (induction t) (simp_all add: strip_newlines_def)

text \<open>Either something is cut off, or what is left starts with a line break.\<close>

lemma telegram_shrinks:
  assumes "0 < limit" and "limit < length t"
  shows "length (strip_newlines (drop (telegram_cut limit t) t)) < length t"
proof (cases "telegram_cut limit t = 0")
  case False
  then have "length (drop (telegram_cut limit t) t) < length t" using assms by auto
  then show ?thesis using strip_newlines_length [of "drop (telegram_cut limit t) t"] by linarith
next
  case True
  then have "rfind newline (take limit t) = Some 0"
    using assms(1) by (auto simp: telegram_cut_def split: option.splits if_splits)
  then have "take limit t ! 0 = CHR 0x0A" using rfind_newline by blast
  then obtain r where t: "t = CHR 0x0A # r" using assms by (cases t) auto
  then show ?thesis using True strip_newlines_length [of r] by (simp add: strip_newlines_def)
qed

lemma telegram_chunks_total:
  assumes "0 < limit"
  shows "\<exists>cs. telegram_chunks limit t = Some cs \<and> list_all (\<lambda>c. length c \<le> limit) cs \<and>
    filter (\<lambda>c. c \<noteq> CHR 0x0A) (concat cs) = filter (\<lambda>c. c \<noteq> CHR 0x0A) t"
proof (induction t rule: length_induct)
  case (1 t)
  consider "t = []" | "t \<noteq> []" "length t \<le> limit" | "limit < length t" by linarith
  then show ?case
  proof cases
    case 3
    let ?n = "telegram_cut limit t" and ?keep = "filter (\<lambda>c. c \<noteq> CHR 0x0A)"
    let ?r = "strip_newlines (drop ?n t)"
    obtain cs where cs: "telegram_chunks limit ?r = Some cs" "list_all (\<lambda>c. length c \<le> limit) cs" "?keep (concat cs) = ?keep ?r"
      using 1 telegram_shrinks [OF assms 3] by blast
    have step: "telegram_chunks limit t = Some (take ?n t # cs)"
      using 3 cs(1) by (subst telegram_chunks.simps) auto
    have "?keep (take ?n t) @ ?keep (drop ?n t) = ?keep t" by (simp flip: filter_append)
    then show ?thesis using step cs(2,3) telegram_cut_le [of limit t] by (simp add: strip_newlines_keeps)
  qed (auto simp: telegram_chunks.simps)
qed

text \<open>Without room for a character, only line breaks are ever used up.\<close>

lemma telegram_chunks_zero:
  assumes "telegram_chunks limit t = Some cs"
  shows "limit = 0 \<longrightarrow> strip_newlines t = []"
proof (rule telegram_chunks.raw_induct [OF _ assms])
  fix f limit t cs
  assume ih: "\<And>l u y. f l u = Some y \<Longrightarrow> l = 0 \<longrightarrow> strip_newlines u = []"
    and body: "(if t = [] then Some [] else if length t \<le> limit then Some [t]
      else Option.bind (f limit (strip_newlines (drop (telegram_cut limit t) t)))
             (\<lambda>cs. Some (take (telegram_cut limit t) t # cs))) = Some cs"
  show "limit = 0 \<longrightarrow> strip_newlines t = []"
  proof
    assume 0: "limit = 0"
    then have n: "telegram_cut limit t = 0" by (simp add: telegram_cut_def newline_def)
    show "strip_newlines t = []"
    proof (cases "t = []")
      case True
      then show ?thesis by (simp add: strip_newlines_def)
    next
      case False
      then have "\<exists>y. f limit (strip_newlines t) = Some y"
        using body 0 n by (auto simp: Option.bind_eq_Some_conv)
      then show ?thesis using ih 0 by fastforce
    qed
  qed
qed

lemma telegram_chunks_zero_some: "strip_newlines t = [] \<Longrightarrow> t \<noteq> [] \<Longrightarrow> telegram_chunks 0 t \<noteq> None"
  by (subst telegram_chunks.simps, subst telegram_chunks.simps) (simp add: telegram_cut_def newline_def)

text \<open>C21.  The loop that cuts a reply for Telegram ends for every limit but zero (with which it
  ends only on line breaks); then no part is longer than the limit, and the parts hold the text of the
  reply but for line breaks.\<close>

theorem telegram_split_terminates:
  "(telegram_split t limit = None \<longleftrightarrow> limit = 0 \<and> strip_newlines t \<noteq> []) \<and>
   (0 < limit \<and> t \<noteq> [] \<longrightarrow> (\<exists>cs. telegram_split t limit = Some cs \<and> list_all (\<lambda>c. length c \<le> limit) cs \<and>
      filter (\<lambda>c. c \<noteq> CHR 0x0A) (concat cs) = filter (\<lambda>c. c \<noteq> CHR 0x0A) t))"
proof (cases "0 < limit")
  case True
  then obtain cs where "telegram_chunks limit t = Some cs" "list_all (\<lambda>c. length c \<le> limit) cs"
      "filter (\<lambda>c. c \<noteq> CHR 0x0A) (concat cs) = filter (\<lambda>c. c \<noteq> CHR 0x0A) t"
    using telegram_chunks_total by blast
  then show ?thesis using True by (auto simp: telegram_split_def)
next
  case False
  then show ?thesis using telegram_chunks_zero [of limit t] telegram_chunks_zero_some [of t]
    by (cases "t = []"; cases "telegram_chunks limit t") (auto simp: telegram_split_def strip_newlines_def)
qed

lemma slices_concat: "0 < limit \<Longrightarrow> concat (slices limit t) = t"
  by (induction limit t rule: slices.induct) (subst slices.simps, auto)

lemma slices_bounded: "list_all (\<lambda>c. length c \<le> limit \<and> c \<noteq> []) (slices limit t)"
  by (induction limit t rule: slices.induct) (subst slices.simps, auto)

text \<open>A WhatsApp reply is sent as the slices of its text: put together they are the text, and each fits.\<close>

theorem whatsapp_split_exact:
  "0 < limit \<Longrightarrow> t \<noteq> [] \<Longrightarrow> concat (whatsapp_split t limit) = t \<and> list_all (\<lambda>c. length c \<le> limit \<and> c \<noteq> []) (whatsapp_split t limit)"
  using slices_concat [of limit t] slices_bounded [of limit t] by (auto simp: whatsapp_split_def)

section \<open>Authenticity\<close>

lemma tp_kind_adapter [simp]: "tp_kind (adapter_for lib h st k) = k"
  by (cases k) (simp_all add: adapter_for_def)

lemma get_channel_register [simp]:
  "get_channel k (register_channel c reg) = (if k = tp_kind c then Some c else get_channel k reg)"
  by (simp add: get_channel_def register_channel_def update_conv')

lemma get_channel_Nil [simp]: "get_channel k [] = None"
  by (simp add: get_channel_def)

lemma ingress_channel_cases:
  "ingress_channel g k = Some c \<Longrightarrow> k \<in> {TELEGRAM, WHATSAPP, GMAIL} \<and> c = adapter_for (ig_libs g) (ig_http g) (ig_settings g) k"
  by (auto simp: ingress_channel_def adapters_of_def build_registry_def Let_def split: if_splits)

lemma digest_authentic: "digest_verdict (compare_digest a b) = Authentic \<Longrightarrow> a = b"
  by (auto simp: digest_verdict_def compare_digest_def split: if_splits bool.splits)

lemma telegram_authentic:
  "telegram_verify secret hs = Authentic \<Longrightarrow> secret = [] \<or> header ''x-telegram-bot-api-secret-token'' hs = secret"
  by (auto simp: telegram_verify_def dest!: digest_authentic split: if_splits)

lemma starts_with_append: "starts_with p t \<Longrightarrow> t = p @ drop (length p) t"
  by (metis append_take_drop_id starts_with_def)

lemma whatsapp_authentic:
  assumes "whatsapp_verify hmac secret hs body = Authentic"
  shows "secret = [] \<or> header ''x-hub-signature-256'' hs = ''sha256='' @ hmac secret body"
proof (cases "secret = []")
  case False
  let ?h = "header ''x-hub-signature-256'' hs"
  have pre: "starts_with ''sha256='' ?h" and eq: "drop 7 ?h = hmac secret body"
    using assms False by (auto simp: whatsapp_verify_def Let_def dest!: digest_authentic split: if_splits)
  have "?h = ''sha256='' @ drop 7 ?h" using starts_with_append [OF pre] by (simp add: eval_nat_numeral)
  then show ?thesis using eq by simp
qed simp

definition lowered :: "(string \<times> string) list \<Rightarrow> (string \<times> string) list" where
  "lowered headers = map (\<lambda>(n, v). (lower n, v)) headers"

text \<open>C20.  A webhook of Telegram or WhatsApp with a secret configured changes nothing unless the request
  proves that the sender knows the secret; only Gmail's door is open.\<close>

theorem forged_webhook_inert:
  assumes "receive_webhook g kind headers body s = (x, s')" and "s' \<noteq> s"
  shows "kind = ''telegram'' \<and> (as_telegram_secret (ig_settings g) = [] \<or>
           header ''x-telegram-bot-api-secret-token'' (lowered headers) = as_telegram_secret (ig_settings g)) \<or>
         kind = ''whatsapp'' \<and> (as_whatsapp_secret (ig_settings g) = [] \<or>
           header ''x-hub-signature-256'' (lowered headers) =
             ''sha256='' @ al_hmac (ig_libs g) (as_whatsapp_secret (ig_settings g)) body) \<or>
         kind = ''gmail''"
proof -
  obtain k c where k: "kind_of_text kind = Some k" and c: "ingress_channel g k = Some c"
    and v: "ad_verify c (lowered headers) body = Authentic"
    using assms by (auto simp: receive_webhook_def lowered_def split: option.splits verified.splits)
  have kind: "kind = kind_value k" using k by (auto simp: kind_of_text_def split: if_splits)
  have c': "c = adapter_for (ig_libs g) (ig_http g) (ig_settings g) k" and "k = TELEGRAM \<or> k = WHATSAPP \<or> k = GMAIL"
    using ingress_channel_cases [OF c] by auto
  from this(2) show ?thesis
  proof (elim disjE)
    assume "k = TELEGRAM"
    then show ?thesis using telegram_authentic [of _ "lowered headers"] v c' kind by (simp add: adapter_for_def)
  next
    assume "k = WHATSAPP"
    then show ?thesis using whatsapp_authentic [of _ _ "lowered headers" body] v c' kind by (simp add: adapter_for_def)
  qed (simp add: kind)
qed

section \<open>Acknowledgement\<close>

text \<open>The message has its run, and the answer is owed.\<close>

definition message_recorded :: "(string \<Rightarrow> string) \<Rightarrow> inbound \<Rightarrow> database \<Rightarrow> bool" where
  "message_recorded sha m d = list_ex (\<lambda>r. rn_idempotency_key r = Some (dedupe_key sha m) \<and> rn_id r \<in> cr_run ` set (replies d)) (runs d)"

lemma find_hit: "find P xs = Some r \<Longrightarrow> r \<in> set xs \<and> P r"
  by (auto simp: find_Some_iff)

lemma submit_recorded:
  assumes "submit_message sv p sid t plan (Some key) s = (Inr k, s')" and "key \<noteq> []"
  shows "\<exists>r\<in>set (runs (db s')). rn_id r = k \<and> rn_idempotency_key r = Some key"
  using submit_cases [OF assms(1)]
proof (elim disjE exE conjE)
  assume a: "admit p sid (Some key) s = Inr (Inl k)" "s' = s"
  have "truthy (Some key)" using assms(2) by (simp add: truthy_def)
  then show ?thesis using a by (auto simp: admit_def dest!: find_hit split: option.splits sum.splits)
next
  fix ss assume "placed ss sid (Some key) k s s'"
  then show ?thesis by (auto simp: placed_def queued_run_def)
qed

lemma handle_inbound_records:
  assumes "handle_inbound sv p sha m tg s = (Inr ru, s')"
  shows "message_recorded sha m (db s')"
proof -
  obtain sid owner_id sa k sb where
    b: "submit_message sv p sid (compose_goal m) False (Some (dedupe_key sha m)) sa = (Inr k, sb)"
    and c: "snd (owe_reply m k (tg_workspace tg) sb) = s'"
    using assms by (auto simp: handle_inbound_def split: prod.splits sum.splits)
  have "runs (db s') = runs (db sb)" "k \<in> cr_run ` set (replies (db s'))"
    using c by (auto simp: owe_reply_def owed_reply_def list_ex_iff split: if_splits)
  then show ?thesis using submit_recorded [OF b] by (auto simp: message_recorded_def list_ex_iff)
qed

lemma submit_grows:
  assumes "submit_message sv p sid t False key s = (x, s')"
  shows "set (runs (db s)) \<subseteq> set (runs (db s'))"
proof (cases x)
  case (Inl e)
  then show ?thesis using assms by (auto simp: submit_message_def plan_goal_def split: sum.splits prod.splits)
next
  case (Inr k)
  then show ?thesis using submit_cases [of sv p sid t False key s k s'] assms by (auto simp: placed_def)
qed

text \<open>Routing one message: nothing recorded is forgotten, and the cursors are not looked at.\<close>

lemma handle_inbound_keeps:
  assumes "handle_inbound sv p sha m tg s = (x, s')"
  shows "set (runs (db s)) \<subseteq> set (runs (db s')) \<and> set (replies (db s)) \<subseteq> set (replies (db s')) \<and> cursors (db s') = cursors (db s)"
proof -
  obtain y sa where a: "session_for m tg s = (y, sa)" by fastforce
  have sa: "runs (db sa) = runs (db s) \<and> replies (db sa) = replies (db s) \<and> cursors (db sa) = cursors (db s)"
    using a by (auto simp: session_for_def open_session_def Let_def split: option.splits sum.splits prod.splits)
  show ?thesis
  proof (cases y)
    case (Inl e)
    then show ?thesis using assms a sa by (simp add: handle_inbound_def)
  next
    case (Inr z)
    obtain sid owner_id where z: "z = (sid, owner_id)" by fastforce
    obtain r sb where b: "submit_message sv p sid (compose_goal m) False (Some (dedupe_key sha m)) sa = (r, sb)" by fastforce
    have sb: "set (runs (db sa)) \<subseteq> set (runs (db sb))" "replies (db sb) = replies (db sa)" "cursors (db sb) = cursors (db sa)"
      using submit_grows [OF b] by (simp, (subst submit_touches [OF b], simp)+)
    show ?thesis using assms a sa sb Inr z b
      by (cases r) (auto simp: handle_inbound_def owe_reply_def split: if_splits)
  qed
qed

lemma recorded_mono:
  "message_recorded sha m d \<Longrightarrow> set (runs d) \<subseteq> set (runs d') \<Longrightarrow> set (replies d) \<subseteq> set (replies d') \<Longrightarrow> message_recorded sha m d'"
  by (fastforce simp: message_recorded_def list_ex_iff)

lemma route_each_keeps:
  "route_each g tg ms n s = (x, s') \<Longrightarrow>
     set (runs (db s)) \<subseteq> set (runs (db s')) \<and> set (replies (db s)) \<subseteq> set (replies (db s')) \<and> cursors (db s') = cursors (db s)"
proof (induction ms arbitrary: n s)
  case (Cons m ms)
  obtain y s1 where y: "handle_inbound (ig_services g) (ig_quota g) (ig_sha g) m tg s = (y, s1)" by fastforce
  note k = handle_inbound_keeps [OF y]
  show ?case
  proof (cases y)
    case (Inl e)
    then show ?thesis using Cons.prems y k by (cases e) auto
  next
    case (Inr ru)
    then have "route_each g tg ms (if ru_duplicate ru then n else Suc n) s1 = (x, s')" using Cons.prems y by simp
    from Cons.IH [OF this] k show ?thesis by (metis subset_trans)
  qed
qed simp

lemma route_each_records:
  "route_each g tg ms n s = (Response 200 d, s') \<Longrightarrow> m \<in> set ms \<Longrightarrow> message_recorded (ig_sha g) m (db s')"
proof (induction ms arbitrary: n s)
  case (Cons m1 ms)
  obtain y s1 where y: "handle_inbound (ig_services g) (ig_quota g) (ig_sha g) m1 tg s = (y, s1)" by fastforce
  obtain ru where ru: "y = Inr ru"
    using Cons.prems(1) y by (cases y; cases "projl y") auto
  have rest: "route_each g tg ms (if ru_duplicate ru then n else Suc n) s1 = (Response 200 d, s')"
    using Cons.prems(1) y ru by simp
  show ?case
  proof (cases "m = m1")
    case True
    then show ?thesis using handle_inbound_records y ru route_each_keeps [OF rest] recorded_mono by blast
  next
    case False
    then show ?thesis using Cons.IH [OF rest] Cons.prems(2) by auto
  qed
qed simp

text \<open>C19.  A 200 for a message means it is safely recorded: it has been routed, every message it stands for
  has its run, and each of these runs has its answer owed.\<close>

theorem acknowledged_is_recorded:
  assumes "receive_webhook g (kind_value k) headers body s = (Response 200 d, s')"
    and "ingress_channel g k = Some c" and "read_body body = Some (Some (JObj payload))" and "ad_parse c payload = Parsed m"
  shows "\<exists>tg ms s1. resolve_target (ig_settings g) (db s) = Inr tg \<and>
    (if k = GMAIL then resolve_gmail g m tg s = (Some ms, s1) else ms = [m]) \<and>
    list_all (\<lambda>x. message_recorded (ig_sha g) x (db s')) ms"
proof -
  have route: "route_inbound g k m s = (Response 200 d, s')"
    using assms by (auto simp: receive_webhook_def act_on_body_def split: verified.splits)
  then obtain tg where tg: "resolve_target (ig_settings g) (db s) = Inr tg"
    by (auto simp: route_inbound_def split: sum.splits)
  show ?thesis
  proof (cases "k = GMAIL")
    case True
    then obtain ms s1 where "resolve_gmail g m tg s = (Some ms, s1)" "route_each g tg ms 0 s1 = (Response 200 d, s')"
      using route tg by (auto simp: route_inbound_def split: prod.splits option.splits)
    then show ?thesis using tg True route_each_records by (fastforce simp: list_all_iff)
  next
    case False
    then have "route_each g tg [m] 0 s = (Response 200 d, s')" using route tg by (simp add: route_inbound_def)
    then have "message_recorded (ig_sha g) m (db s')" by (rule route_each_records) simp
    then show ?thesis using tg False by (auto intro: exI [of _ "[m]"])
  qed
qed

text \<open>The position of a mailbox moves past a window as soon as its messages have been fetched, before
  any of them is routed: whatever is answered then, a 503 included, the provider's retry starts
  behind messages that were not recorded.\<close>

theorem gmail_window_not_retried:
  assumes "resolve_target (ig_settings g) (db s) = Inr tg" and "gmail_cursor (tg_workspace tg) (db s) = Some c"
    and "cu_position c \<noteq> []"
    and "list_history (al_rep (ig_libs g)) (ig_http g) (st_gmail_token (ig_settings g)) (cu_position c) (outside s) = (Some (ids, pos), w1)"
    and "pos \<noteq> []" and "fetch_all (al_rep (ig_libs g)) (ig_http g) (st_gmail_token (ig_settings g)) ids w1 = (Some ms, w2)"
    and "route_inbound g GMAIL m s = (x, s')"
  shows "map_option cu_position (gmail_cursor (tg_workspace tg) (db s')) = Some pos"
proof -
  let ?s1 = "advance_cursor (tg_workspace tg) pos (s\<lparr>outside := w2\<rparr>)"
  have "resolve_gmail g m tg s = (Some ms, ?s1)"
    using assms(2-6) by (simp add: resolve_gmail_def read_window_def Let_def)
  then have "route_each g tg ms 0 ?s1 = (x, s')" using assms(1,7) by (simp add: route_inbound_def)
  then have same: "cursors (db s') = cursors (db ?s1)" using route_each_keeps by blast
  have "gmail_cursor ws (db (advance_cursor ws pos r)) =
      map_option (\<lambda>c. c\<lparr>cu_position := pos, cu_updated := clock r\<rparr>) (gmail_cursor ws (db r))" for ws and r :: "'a state"
  proof -
    have "find P (update_where P f xs) = map_option f (find P xs)" if "\<And>x. P (f x) = P x" for P f and xs :: "channel_cursor list"
      using that by (induction xs) auto
    then show ?thesis by (simp add: gmail_cursor_def advance_cursor_def)
  qed
  then show ?thesis using same assms(2) by (simp add: gmail_cursor_def)
qed

section \<open>The properties at work\<close>

definition demo_payload :: json_dict where
  "demo_payload = [(''message'', JObj [(''message_id'', JStr ''m1''), (''chat'', JObj [(''id'', JStr ''42'')]),
     (''from'', JObj [(''id'', JStr ''7''), (''first_name'', JStr ''Ann'')]), (''text'', JStr ''hello'')])]"

definition demo_settings :: adapter_settings where
  "demo_settings = \<lparr>st_telegram_token = ''t'', st_whatsapp_token = [], st_whatsapp_phone = [], st_gmail_token = ''g'',
     st_workspace_slug = ''lab'', st_agent_handle = ''ops'', st_max_attempts = 3, as_telegram_secret = ''k'',
     as_whatsapp_secret = [], as_gmail_address = [], as_public_url = []\<rparr>"

text \<open>A mailbox whose history lists one message, from a sender.\<close>

definition demo_http :: "'w http" where
  "demo_http = \<lparr>ht_post = (\<lambda>u b w. (Unreachable [], w)),
     ht_get = (\<lambda>u ps w. (Reply 200 (Some (if u = gmail_url @ ''/history''
       then JObj [(''historyId'', JStr ''9''), (''history'', JList [JObj [(''messagesAdded'', JList [JObj [(''message'', JObj [(''id'', JStr ''a'')])]])]])]
       else JObj [(''threadId'', JStr ''th''), (''snippet'', JStr ''hi'')])), w))\<rparr>"

definition demo_ingress :: "nat ingress" where
  "demo_ingress = \<lparr>ig_services = demo_services, ig_quota = demo_quota, ig_sha = (\<lambda>t. t), ig_settings = demo_settings,
     ig_libs = \<lparr>al_rep = (\<lambda>_. []), al_hmac = (\<lambda>_ _. []), al_mail = (\<lambda>_ _ _ _. None)\<rparr>, ig_http = demo_http\<rparr>"

definition demo_body :: string where
  "demo_body = dumps (\<lambda>_. []) (JObj demo_payload)"

lemma demo_parse: "telegram_parse (\<lambda>_. []) demo_payload = Parsed demo_inbound"
  by (simp add: telegram_parse_def telegram_message_def telegram_inbound_def demo_payload_def get_or_def field_def truthy_or_def
      display_name_def inbound_of_def demo_inbound_def Let_def)

lemma demo_read_body: "read_body demo_body = Some (Some (JObj demo_payload))"
proof -
  have "decode_lossy demo_body = demo_body"
    by (simp add: demo_body_def demo_payload_def dump_str_def escape_char_def lead_byte_def Let_def)
  moreover have "loads demo_body = Some (JObj demo_payload)"
    unfolding demo_body_def by (rule parse_printed) (simp add: demo_payload_def)
  moreover have "demo_body \<noteq> []" by (simp add: demo_body_def)
  ultimately show ?thesis by (simp add: read_body_def)
qed

definition hook_state :: "nat state" where
  "hook_state = (channel_state Sent)\<lparr>db := (db (channel_state Sent))\<lparr>
     workspaces := [\<lparr>wk_id = ''w1'', wk_created = 0, wk_name = ''Lab'', wk_slug = ''lab''\<rparr>],
     cursors := [\<lparr>cu_id = ''q1'', cu_workspace = ''w1'', cu_channel = ''gmail'', cu_position = ''4'', cu_updated = 0\<rparr>]\<rparr>\<rparr>"

lemmas hook_demo = hook_state_def demo_ingress_def demo_settings_def

lemma demo_channel: "ingress_channel demo_ingress TELEGRAM =
    Some (adapter_for (ig_libs demo_ingress) demo_http demo_settings TELEGRAM)"
  by (simp add: ingress_channel_def adapters_of_def build_registry_def demo_ingress_def demo_settings_def)

lemma demo_target_found: "resolve_target demo_settings (db hook_state) = Inr demo_target"
  by (simp add: resolve_target_def hook_demo demo_target_def)

lemma demo_handled:
  "\<exists>ru s1. handle_inbound demo_services demo_quota (\<lambda>t. t) demo_inbound demo_target hook_state = (Inr ru, s1)"
  by (simp add: handle_inbound_def session_for_def bound_session_def submit_message_def plan_goal_def admit_def hook_state_def channel_demo
      enforce_run_quota_def current_usage_def active_status_def demo_quota_def place_run_def add_message_def add_run_def fresh_def
      owe_reply_def compose_goal_def Let_def)

definition demo_headers :: "(string \<times> string) list" where
  "demo_headers = [(''X-Telegram-Bot-Api-Secret-Token'', ''k'')]"

lemma demo_kind: "kind_of_text ''telegram'' = Some TELEGRAM"
  by (simp add: kind_of_text_def)

lemma demo_verifies: "ad_verify (adapter_for lib h demo_settings TELEGRAM) = (\<lambda>hs body. telegram_verify ''k'' hs)"
  by (simp add: adapter_for_def demo_settings_def)

lemma demo_parses: "ad_parse (adapter_for (ig_libs demo_ingress) demo_http demo_settings TELEGRAM) demo_payload = Parsed demo_inbound"
  by (simp add: adapter_for_def demo_ingress_def demo_parse)

lemma demo_hook:
  "\<exists>d s'. receive_webhook demo_ingress (kind_value TELEGRAM) demo_headers demo_body hook_state = (Response 200 d, s') \<and>
     message_recorded (\<lambda>t. t) demo_inbound (db s')"
proof -
  obtain ru s1 where h: "handle_inbound demo_services demo_quota (\<lambda>t. t) demo_inbound demo_target hook_state = (Inr ru, s1)"
    using demo_handled by blast
  have ok: "telegram_verify ''k'' (map (\<lambda>(n, v). (lower n, v)) demo_headers) = Authentic"
    by code_simp
  have "receive_webhook demo_ingress (kind_value TELEGRAM) demo_headers demo_body hook_state
      = route_inbound demo_ingress TELEGRAM demo_inbound hook_state"
    using ok by (simp add: demo_parses receive_webhook_def act_on_body_def demo_read_body demo_channel demo_kind demo_verifies)
  moreover have "\<exists>d. route_inbound demo_ingress TELEGRAM demo_inbound hook_state = (Response 200 d, s1)"
    using h demo_target_found by (simp add: route_inbound_def demo_ingress_def)
  ultimately show ?thesis using handle_inbound_records [OF h] by auto
qed

lemma demo_unrecorded: "\<not> message_recorded (\<lambda>t. t) demo_inbound (db hook_state)"
  by (simp add: message_recorded_def hook_state_def channel_demo)

theorem forged_webhook_inert_witness:
  "\<exists>x s'. receive_webhook demo_ingress ''telegram'' demo_headers demo_body hook_state = (x, s') \<and> s' \<noteq> hook_state \<and>
     header ''x-telegram-bot-api-secret-token'' (lowered demo_headers) = ''k''"
proof -
  obtain d s' where r: "receive_webhook demo_ingress ''telegram'' demo_headers demo_body hook_state = (Response 200 d, s')"
    "message_recorded (\<lambda>t. t) demo_inbound (db s')" using demo_hook by auto
  then have new: "s' \<noteq> hook_state" using demo_unrecorded by auto
  from forged_webhook_inert [OF r(1) new] r(1) new show ?thesis by (auto simp: demo_ingress_def demo_settings_def)
qed

theorem acknowledged_is_recorded_witness:
  "\<exists>d s'. receive_webhook demo_ingress ''telegram'' demo_headers demo_body hook_state = (Response 200 d, s') \<and>
     message_recorded (\<lambda>t. t) demo_inbound (db s')"
proof -
  obtain d s' where r: "receive_webhook demo_ingress (kind_value TELEGRAM) demo_headers demo_body hook_state = (Response 200 d, s')"
    using demo_hook by auto
  from acknowledged_is_recorded [OF r demo_channel demo_read_body demo_parses] r show ?thesis by (auto simp: demo_ingress_def)
qed

theorem telegram_split_terminates_witness:
  "\<exists>cs. telegram_split (''ab'' @ newline @ ''cd'') 3 = Some cs \<and> list_all (\<lambda>c. length c \<le> 3) cs"
  using telegram_split_terminates [of "''ab'' @ newline @ ''cd''" 3] by auto

theorem whatsapp_split_exact_witness: "concat (whatsapp_split ''abcde'' 2) = ''abcde''"
  using whatsapp_split_exact [of 2 "''abcde''"] by simp

theorem gmail_window_not_retried_witness:
  "\<exists>t s'. route_inbound demo_ingress GMAIL demo_inbound hook_state = (Response 503 t, s') \<and>
     map_option cu_position (gmail_cursor ''w1'' (db s')) = Some ''9''"
proof -
  let ?mail = "\<lparr>in_channel = GMAIL, in_conversation = ''th'', in_sender = [], in_external = ''a'', in_display = [],
    in_text = ''hi'', in_subject = []\<rparr>"
  have lists: "list_history (\<lambda>_. []) demo_http ''g'' ''4'' w = (Some ([JStr ''a''], ''9''), w)" for w :: "nat backend"
    by (simp add: list_history_def demo_http_def history_page_def history_ids_def as_dict_def items_of_def added_id_def get_or_def
        field_def truthy_or_def gmail_url_def)
  have fetch: "fetch_all (\<lambda>_. []) demo_http ''g'' [JStr ''a''] w = (Some [?mail], w)" for w :: "nat backend"
    by (simp add: fetch_message_def demo_http_def gmail_message_def gmail_headers_def as_dict_def get_or_def extract_text.simps
        field_def truthy_or_def gmail_url_def)
  have cur: "gmail_cursor ''w1'' (db hook_state) = Some \<lparr>cu_id = ''q1'', cu_workspace = ''w1'', cu_channel = ''gmail'',
    cu_position = ''4'', cu_updated = 0\<rparr>"
    by (simp add: gmail_cursor_def hook_state_def)
  obtain x s' where r: "route_inbound demo_ingress GMAIL demo_inbound hook_state = (x, s')" by fastforce
  have "\<exists>t. x = Response 503 t"
    using r demo_target_found cur lists fetch
    by (auto simp: route_inbound_def resolve_gmail_def read_window_def demo_ingress_def demo_settings_def Let_def demo_target_def
        handle_inbound_def session_for_def bound_session_def advance_cursor_def hook_state_def channel_demo first_member_def)
  moreover have "map_option cu_position (gmail_cursor ''w1'' (db s')) = Some ''9''"
    using gmail_window_not_retried [of demo_ingress hook_state demo_target] r demo_target_found cur lists fetch
    by (auto simp: demo_ingress_def demo_settings_def demo_target_def)
  ultimately show ?thesis using r by auto
qed

end
