(* ===== verification/Api.thy ===== *)
theory Api
  imports Access Run_Props
begin

text \<open>
  The conversational routes, \<open>api/routers/sessions.py\<close> and \<open>api/routers/runs.py\<close>, with the
  request models of \<open>api/schemas.py\<close> they take.  A handler is what runs after the request has
  been authorised; the check of its body comes first.
\<close>

section \<open>Request bodies\<close>

definition length_within :: "nat \<Rightarrow> nat \<Rightarrow> string \<Rightarrow> bool" where
  "length_within lo hi t = (lo \<le> length t \<and> length t \<le> hi)"

definition unprocessable :: api_error where
  "unprocessable = Http 422 ''request validation failed''"

text \<open>The body of a request is checked before its handler runs.\<close>

definition checked :: "bool \<Rightarrow> ('a, 'w) handler \<Rightarrow> ('a, 'w) handler" where
  "checked ok h s = (if ok then h s else (Inl unprocessable, s))"

section \<open>Sessions\<close>

record session_out =
  so_id :: ident
  so_title :: string
  so_profile :: ident
  so_created :: instant
  so_archived :: bool

definition out_of_session :: "session \<Rightarrow> session_out" where
  "out_of_session x =
     \<lparr>so_id = ss_id x, so_title = ss_title x, so_profile = ss_profile x, so_created = ss_created x, so_archived = ss_archived x\<rparr>"

definition workspace_of :: "actor \<Rightarrow> ident" where
  "workspace_of a = wk_id (ac_workspace a)"

definition missing :: "string \<Rightarrow> string \<Rightarrow> ident \<Rightarrow> api_error" where
  "missing what key k = Domain_error (not_found (what @ '' not found'') [(key, JStr k)])"

definition owned_session :: "actor \<Rightarrow> ident \<Rightarrow> database \<Rightarrow> api_error + session" where
  "owned_session a k d =
     (case get_session k d of
        None \<Rightarrow> Inl (missing ''session'' ''session_id'' k)
      | Some x \<Rightarrow> if ss_workspace x \<noteq> workspace_of a then Inl (missing ''session'' ''session_id'' k) else Inr x)"

definition list_sessions :: "actor \<Rightarrow> (session_out list, 'w) handler" where
  "list_sessions a s =
     (Inr (map out_of_session (take 100 (sort_key (\<lambda>x. - ss_created x)
        (filter (\<lambda>x. ss_workspace x = workspace_of a \<and> \<not> ss_archived x) (sessions (db s)))))), s)"

definition owned_profile :: "api_error \<Rightarrow> actor \<Rightarrow> ident \<Rightarrow> database \<Rightarrow> api_error + agent_profile" where
  "owned_profile e a k d =
     (case get_profile k d of
        None \<Rightarrow> Inl e
      | Some p \<Rightarrow> if ap_workspace p \<noteq> workspace_of a then Inl e else Inr p)"

definition create_session :: "ident \<Rightarrow> string \<Rightarrow> actor \<Rightarrow> (session_out, 'w) handler" where
  "create_session profile_id title a s =
     (case owned_profile (missing ''agent profile'' ''agent_profile_id'' profile_id) a profile_id (db s) of
        Inl e \<Rightarrow> (Inl e, s)
      | Inr p \<Rightarrow>
          (let x = \<lparr>ss_id = fresh s, ss_created = clock s, ss_workspace = workspace_of a, ss_user = us_id (ac_user a),
                 ss_profile = ap_id p, ss_title = title, ss_sandbox_dir = ''session-'' @ fresh s, ss_archived = False\<rparr>
           in (Inr (out_of_session x), use_id (on_db (\<lambda>d. d\<lparr>sessions := sessions d @ [x]\<rparr>) s))))"

record message_out =
  gm_id :: ident
  gm_role :: string
  gm_content :: string
  gm_run :: "ident option"
  gm_created :: instant

definition out_of_message :: "message \<Rightarrow> message_out" where
  "out_of_message m =
     \<lparr>gm_id = mg_id m, gm_role = mg_role m, gm_content = mg_content m, gm_run = mg_run m, gm_created = mg_created m\<rparr>"

definition list_messages :: "ident \<Rightarrow> actor \<Rightarrow> (message_out list, 'w) handler" where
  "list_messages session_id a s =
     (case owned_session a session_id (db s) of
        Inl e \<Rightarrow> (Inl e, s)
      | Inr x \<Rightarrow>
          (Inr (map out_of_message (take 500 (sort_key (\<lambda>m. (mg_created m, mg_id m))
             (filter (\<lambda>m. mg_session m = session_id) (messages (db s)))))), s))"

record message_in =
  in_text_body :: string
  in_plan_first :: bool
  in_idempotency_key :: "string option"

definition valid_message_in :: "message_in \<Rightarrow> bool" where
  "valid_message_in m = (length_within 1 100000 (in_text_body m) \<and>
     (case in_idempotency_key m of None \<Rightarrow> True | Some k \<Rightarrow> length k \<le> 80))"

fun submit_failure :: "submit_error \<Rightarrow> api_error" where
  "submit_failure (Domain e) = Domain_error e"
| "submit_failure (Planning e) = Crashed"

definition post_message ::
  "'v services \<Rightarrow> quota_policy \<Rightarrow> ident \<Rightarrow> message_in \<Rightarrow> actor \<Rightarrow> (ident, 'v backend) handler" where
  "post_message sv p session_id m a = checked (valid_message_in m) (\<lambda>s.
     case owned_session a session_id (db s) of
       Inl e \<Rightarrow> (Inl e, s)
     | Inr x \<Rightarrow>
         (case submit_message sv p session_id (in_text_body m) (in_plan_first m) (in_idempotency_key m) s of
            (Inl e, s1) \<Rightarrow> (Inl (submit_failure e), s1)
          | (Inr k, s1) \<Rightarrow> (Inr k, s1)))"

section \<open>Runs\<close>

record run_out =
  uo_id :: ident
  uo_session :: ident
  uo_status :: run_status
  uo_goal :: string
  uo_answer :: "string option"
  uo_error :: "string option"
  uo_steps :: int
  uo_created :: instant
  uo_finished :: "instant option"
  uo_cancel_requested :: bool
  uo_input_tokens :: int
  uo_output_tokens :: int

definition out_of_run :: "run \<Rightarrow> run_out" where
  "out_of_run r =
     \<lparr>uo_id = rn_id r, uo_session = rn_session r, uo_status = rn_status r, uo_goal = rn_goal r, uo_answer = rn_answer r,
      uo_error = rn_error r, uo_steps = rn_step_count r, uo_created = rn_created r, uo_finished = rn_finished_at r,
      uo_cancel_requested = rn_cancel_requested r, uo_input_tokens = rn_input_tokens r, uo_output_tokens = rn_output_tokens r\<rparr>"

definition owned_run :: "actor \<Rightarrow> ident \<Rightarrow> database \<Rightarrow> api_error + run" where
  "owned_run a k d =
     (case get_run k d of
        None \<Rightarrow> Inl (missing ''run'' ''run_id'' k)
      | Some r \<Rightarrow> if rn_workspace r \<noteq> workspace_of a then Inl (missing ''run'' ''run_id'' k) else Inr r)"

definition read_run :: "ident \<Rightarrow> actor \<Rightarrow> (run_out, 'w) handler" where
  "read_run k a s = (map_sum id out_of_run (owned_run a k (db s)), s)"

definition read_run_steps :: "ident \<Rightarrow> actor \<Rightarrow> ((int \<times> step_kind \<times> json_dict) list, 'w) handler" where
  "read_run_steps k a s =
     (case owned_run a k (db s) of
        Inl e \<Rightarrow> (Inl e, s)
      | Inr r \<Rightarrow> (Inr (map (\<lambda>x. (rs_index x, rs_kind x, rs_detail x))
                    (sort_key rs_index (filter (\<lambda>x. rs_run x = k) (run_steps (db s))))), s))"

definition cancel_run :: "ident \<Rightarrow> actor \<Rightarrow> (bool, 'w) handler" where
  "cancel_run k a s =
     (case request_cancel k (workspace_of a) s of
        (Inl e, s1) \<Rightarrow> (Inl (Domain_error e), s1)
      | (Inr b, s1) \<Rightarrow> (Inr b, s1))"

text \<open>The events a subscriber is sent: those of the run, up to its end.\<close>

fun stream_events :: "ident \<Rightarrow> event list \<Rightarrow> (event_type \<times> json_dict) list" where
  "stream_events k [] = []"
| "stream_events k (e # es) =
     (if ev_run e \<noteq> Some k then stream_events k es
      else (ev_type e, ev_payload e) # (if ev_type e = RUN_FINISHED then [] else stream_events k es))"

text \<open>\<open>coming\<close> is what the bus delivers to the workspace after the subscription.\<close>

definition stream_run :: "ident \<Rightarrow> event list \<Rightarrow> actor \<Rightarrow> ((event_type \<times> json_dict) list, 'w) handler" where
  "stream_run k coming a s =
     (case owned_run a k (db s) of
        Inl e \<Rightarrow> (Inl e, s)
      | Inr r \<Rightarrow>
          (Inr (if terminal_status (rn_status r)
                then [(RUN_FINISHED, [(''status'', JStr (status_text (rn_status r))), (''answer'', opt_str (rn_answer r)),
                        (''error'', opt_str (rn_error r))])]
                else stream_events k (filter (\<lambda>e. ev_workspace e = workspace_of a) coming)), s))"

record approval_out =
  po_id :: ident
  po_run :: ident
  po_tool :: string
  po_arguments :: json_dict
  po_reason :: string
  po_status :: approval_status
  po_created :: instant

definition out_of_approval :: "approval_request \<Rightarrow> approval_out" where
  "out_of_approval x =
     \<lparr>po_id = ar_id x, po_run = ar_run x, po_tool = ar_tool_name x, po_arguments = ar_arguments x, po_reason = ar_reason x,
      po_status = ar_status x, po_created = ar_created x\<rparr>"

definition list_pending_approvals :: "actor \<Rightarrow> (approval_out list, 'w) handler" where
  "list_pending_approvals a s =
     (Inr (map out_of_approval (sort_key ar_created
        (filter (\<lambda>x. ar_workspace x = workspace_of a \<and> ar_status x = Pending_decision) (approvals (db s))))), s)"

definition decide :: "ident \<Rightarrow> bool \<Rightarrow> actor \<Rightarrow> (unit, 'v backend) handler" where
  "decide k approved a s =
     (case get_approval k (db s) of
        None \<Rightarrow> (Inl (missing ''approval'' ''approval_id'' k), s)
      | Some x \<Rightarrow>
          if ar_workspace x \<noteq> workspace_of a then (Inl (missing ''approval'' ''approval_id'' k), s)
          else (case decide_approval k (us_id (ac_user a)) approved s of
                  (Inl e, s1) \<Rightarrow> (Inl (Domain_error e), s1)
                | (Inr u, s1) \<Rightarrow> (Inr u, s1)))"

end
