(* ===== verification/Console.thy ===== *)
theory Console
  imports Api Scheduler Guard Knowledge
begin

text \<open>
  The routes of the console: \<open>api/routers/agents.py\<close>, \<open>schedules.py\<close>, \<open>knowledge.py\<close>,
  \<open>changes.py\<close> and \<open>admin.py\<close>, with the request models they take.
\<close>

section \<open>Agent profiles\<close>

record agent_in =
  ai_handle :: string
  ai_title :: string
  ai_instructions :: string
  ai_model_alias :: string
  ai_tool_grants :: "string list"
  ai_can_delegate :: bool
  ai_max_steps :: "int option"

definition is_lower :: "char \<Rightarrow> bool" where
  "is_lower c = (CHR ''a'' \<le> c \<and> c \<le> CHR ''z'')"

text \<open>\<open>^[a-z][a-z0-9-]{1,63}$\<close>\<close>

definition valid_handle :: "string \<Rightarrow> bool" where
  "valid_handle t = (case t of
       [] \<Rightarrow> False
     | c # cs \<Rightarrow> is_lower c \<and> length_within 1 63 cs \<and> list_all (\<lambda>x. is_lower x \<or> is_digit x \<or> x = CHR ''-'') cs)"

definition valid_agent_in :: "agent_in \<Rightarrow> bool" where
  "valid_agent_in b = (valid_handle (ai_handle b) \<and> length_within 1 120 (ai_title b) \<and>
     (case ai_max_steps b of None \<Rightarrow> True | Some n \<Rightarrow> 1 \<le> n \<and> n \<le> 200))"

record agent_out = agent_in +
  ai_id :: ident
  ai_created :: instant

definition out_of_agent :: "agent_profile \<Rightarrow> agent_out" where
  "out_of_agent p =
     \<lparr>ai_handle = ap_handle p, ai_title = ap_title p, ai_instructions = ap_instructions p, ai_model_alias = ap_model_alias p,
      ai_tool_grants = ap_tool_grants p, ai_can_delegate = ap_can_delegate p, ai_max_steps = ap_max_steps p,
      ai_id = ap_id p, ai_created = ap_created p\<rparr>"

definition list_agents :: "actor \<Rightarrow> (agent_out list, 'w) handler" where
  "list_agents a s =
     (Inr (map out_of_agent (sort_key ap_created (filter (\<lambda>p. ap_workspace p = workspace_of a) (profiles (db s))))), s)"

text \<open>The columns a body writes.\<close>

definition write_agent :: "agent_in \<Rightarrow> agent_profile \<Rightarrow> agent_profile" where
  "write_agent b p =
     p\<lparr>ap_handle := ai_handle b, ap_title := ai_title b, ap_instructions := ai_instructions b, ap_model_alias := ai_model_alias b,
       ap_tool_grants := ai_tool_grants b, ap_can_delegate := ai_can_delegate b, ap_max_steps := ai_max_steps b\<rparr>"

definition new_agent :: "ident \<Rightarrow> instant \<Rightarrow> ident \<Rightarrow> agent_in \<Rightarrow> agent_profile" where
  "new_agent k now ws b =
     \<lparr>ap_id = k, ap_created = now, ap_workspace = ws, ap_handle = ai_handle b, ap_title = ai_title b,
      ap_instructions = ai_instructions b, ap_model_alias = ai_model_alias b, ap_tool_grants = ai_tool_grants b,
      ap_can_delegate = ai_can_delegate b, ap_max_steps = ai_max_steps b\<rparr>"

definition handle_taken :: "ident \<Rightarrow> string \<Rightarrow> database \<Rightarrow> bool" where
  "handle_taken ws h d = list_ex (\<lambda>p. ap_workspace p = ws \<and> ap_handle p = h) (profiles d)"

definition create_agent :: "agent_in \<Rightarrow> actor \<Rightarrow> (agent_out, 'w) handler" where
  "create_agent b a = checked (valid_agent_in b) (\<lambda>s.
     if handle_taken (workspace_of a) (ai_handle b) (db s)
     then (Inl (conflict (''agent handle '' @ py_repr (ai_handle b) @ '' already exists in this workspace'')), s)
     else
       (let p = new_agent (fresh s) (clock s) (workspace_of a) b;
            s1 = use_id (on_db (\<lambda>d. d\<lparr>profiles := profiles d @ [p]\<rparr>) s)
        in (Inr (out_of_agent p),
            record_audit (workspace_of a) (Some (us_id (ac_user a))) ''agent.created'' ''agent_profile'' (ap_id p)
              [(''handle'', JStr (ap_handle p))] s1)))"

text \<open>The unique constraint on workspace and handle: a handle taken by another profile raises.\<close>

definition update_agent :: "ident \<Rightarrow> agent_in \<Rightarrow> actor \<Rightarrow> (agent_out, 'w) handler" where
  "update_agent k b a = checked (valid_agent_in b) (\<lambda>s.
     case owned_profile (missing ''agent'' ''agent_id'' k) a k (db s) of
       Inl e \<Rightarrow> (Inl e, s)
     | Inr p \<Rightarrow>
         if list_ex (\<lambda>x. ap_id x \<noteq> k \<and> ap_workspace x = workspace_of a \<and> ap_handle x = ai_handle b) (profiles (db s))
         then (Inl Crashed, s)
         else (Inr (out_of_agent (write_agent b p)),
               on_db (\<lambda>d. d\<lparr>profiles := update_where (\<lambda>x. ap_id x = k) (write_agent b) (profiles d)\<rparr>) s))"

text \<open>Where foreign keys are enforced, a profile that is referred to cannot be deleted.\<close>

definition profile_used :: "ident \<Rightarrow> database \<Rightarrow> bool" where
  "profile_used k d = (list_ex (\<lambda>x. ss_profile x = k) (sessions d) \<or> list_ex (\<lambda>r. rn_profile r = k) (runs d) \<or>
     list_ex (\<lambda>x. sd_profile x = k) (schedules d) \<or> list_ex (\<lambda>m. mi_profile m = Some k) (memories d))"

definition delete_agent :: "bool \<Rightarrow> ident \<Rightarrow> actor \<Rightarrow> (unit, 'w) handler" where
  "delete_agent enforced k a s =
     (case owned_profile (missing ''agent'' ''agent_id'' k) a k (db s) of
        Inl e \<Rightarrow> (Inl e, s)
      | Inr p \<Rightarrow>
          if enforced \<and> profile_used k (db s) then (Inl Crashed, s)
          else (Inr (), on_db (\<lambda>d. d\<lparr>profiles := filter (\<lambda>x. ap_id x \<noteq> k) (profiles d)\<rparr>) s))"

section \<open>Schedules\<close>

record schedule_in =
  si_profile :: ident
  si_cron :: string
  si_goal :: string
  si_enabled :: bool

record schedule_out = schedule_in +
  si_id :: ident
  si_last_fired :: "instant option"
  si_created :: instant

definition out_of_schedule :: "schedule \<Rightarrow> schedule_out" where
  "out_of_schedule x =
     \<lparr>si_profile = sd_profile x, si_cron = sd_cron x, si_goal = sd_goal x, si_enabled = sd_enabled x, si_id = sd_id x,
      si_last_fired = sd_last_fired_at x, si_created = sd_created x\<rparr>"

definition list_schedules :: "actor \<Rightarrow> (schedule_out list, 'w) handler" where
  "list_schedules a s =
     (Inr (map out_of_schedule (sort_key sd_created (filter (\<lambda>x. sd_workspace x = workspace_of a) (schedules (db s))))), s)"

text \<open>The text of the \<open>ValueError\<close> is a parameter.\<close>

definition create_schedule :: "string \<Rightarrow> schedule_in \<Rightarrow> actor \<Rightarrow> (schedule_out, 'w) handler" where
  "create_schedule reason b a = checked (3 \<le> length (si_goal b)) (\<lambda>s.
     if cron_matches (si_cron b) (clock s) = None then (Inl (Http 422 reason), s)
     else case owned_profile (Http 404 ''agent profile not found'') a (si_profile b) (db s) of
       Inl e \<Rightarrow> (Inl e, s)
     | Inr p \<Rightarrow>
         (let x = \<lparr>sd_id = fresh s, sd_created = clock s, sd_workspace = workspace_of a, sd_profile = si_profile b,
                sd_user = us_id (ac_user a), sd_cron = si_cron b, sd_goal = si_goal b, sd_enabled = si_enabled b,
                sd_last_fired_at = None\<rparr>
          in (Inr (out_of_schedule x), use_id (on_db (\<lambda>d. d\<lparr>schedules := schedules d @ [x]\<rparr>) s))))"

definition delete_schedule :: "ident \<Rightarrow> actor \<Rightarrow> (unit, 'w) handler" where
  "delete_schedule k a s =
     (case find_row sd_id k (schedules (db s)) of
        None \<Rightarrow> (Inl (Http 404 ''schedule not found''), s)
      | Some x \<Rightarrow>
          if sd_workspace x \<noteq> workspace_of a then (Inl (Http 404 ''schedule not found''), s)
          else (Inr (), on_db (\<lambda>d. d\<lparr>schedules := filter (\<lambda>y. sd_id y \<noteq> k) (schedules d)\<rparr>) s))"

section \<open>Knowledge\<close>

record document_out =
  do_id :: ident
  do_title :: string
  do_source :: string
  do_status :: document_status
  do_chunks :: int
  do_created :: instant

definition out_of_document :: "document \<Rightarrow> document_out" where
  "out_of_document x =
     \<lparr>do_id = dc_id x, do_title = dc_title x, do_source = dc_source x, do_status = dc_status x, do_chunks = dc_chunk_count x,
      do_created = dc_created x\<rparr>"

definition list_documents :: "actor \<Rightarrow> (document_out list, 'w) handler" where
  "list_documents a s =
     (Inr (map out_of_document (take 200 (sort_key (\<lambda>x. - dc_created x)
        (filter (\<lambda>x. dc_workspace x = workspace_of a) (documents (db s)))))), s)"

text \<open>The document is created, then its ingestion is left to the workers.\<close>

definition upload_document :: "string \<Rightarrow> string \<Rightarrow> string \<Rightarrow> actor \<Rightarrow> (document_out, 'v backend) handler" where
  "upload_document title t source a = checked (length_within 1 300 title \<and> t \<noteq> []) (\<lambda>s.
     let x = \<lparr>dc_id = fresh s, dc_created = clock s, dc_workspace = workspace_of a, dc_title = title, dc_source = source,
            dc_status = Pending_ingest, dc_chunk_count = 0\<rparr>
     in (Inr (out_of_document x), dispatch (Ingest_job (dc_id x) t) (use_id (on_db (\<lambda>d. d\<lparr>documents := documents d @ [x]\<rparr>) s))))"

definition search_documents :: "'v services \<Rightarrow> nat \<Rightarrow> string \<Rightarrow> actor \<Rightarrow> (scored_chunk list, 'v backend) handler" where
  "search_documents sv top_k q a = checked (2 \<le> length q) (\<lambda>s.
     case search_knowledge sv (workspace_of a) q top_k (1/20) s of
       (Inl e, s1) \<Rightarrow> (Inl Crashed, s1)
     | (Inr hits, s1) \<Rightarrow> (Inr hits, s1))"

section \<open>Changes\<close>

definition list_workspace_changes :: "ident option \<Rightarrow> nat \<Rightarrow> actor \<Rightarrow> (change_record list, 'w) handler" where
  "list_workspace_changes run limit a = checked (1 \<le> limit \<and> limit \<le> 200) (\<lambda>s.
     (Inr (list_changes (workspace_of a) run limit (db s)), s))"

text \<open>An exception rolls the rows back; what was done to the host stays.\<close>

definition revert_route :: "'h host \<Rightarrow> system_policy \<Rightarrow> ident \<Rightarrow> actor \<Rightarrow> (revert_outcome, 'h) handler" where
  "revert_route ho p k a s =
     (case load_change k (workspace_of a) (db s) of
        Inl e \<Rightarrow> (Inl (Domain_error e), s)
      | Inr r \<Rightarrow>
          (case revert_change ho p r (''reverted by '' @ us_email (ac_user a) @ '';'') s of
             (Inl e, s1) \<Rightarrow> (Inl Crashed, s1\<lparr>db := db s\<rparr>)
           | (Inr out, s1) \<Rightarrow>
               (Inr out, record_audit (workspace_of a) (Some (us_id (ac_user a))) ''change.reverted'' ''change'' k
                  [(''ok'', JBool (ro_ok out)), (''target'', JStr (ch_target r))] s1)))"

definition confirm_route :: "ident \<Rightarrow> actor \<Rightarrow> (guard_outcome, 'w) handler" where
  "confirm_route k a s =
     (case confirm_change k (workspace_of a) (us_email (ac_user a)) s of
        (Inl e, s1) \<Rightarrow> (Inl (Domain_error e), s1)
      | (Inr out, s1) \<Rightarrow>
          (Inr out, record_audit (workspace_of a) (Some (us_id (ac_user a))) ''change.confirmed'' ''change'' k [] s1))"

section \<open>Administration\<close>

text \<open>What the dependencies answered: \<open>None\<close> for an answer, or the name of the exception.\<close>

definition check_text :: "string option \<Rightarrow> string" where
  "check_text x = (case x of None \<Rightarrow> ''ok'' | Some e \<Rightarrow> ''error: '' @ e)"

definition readyz :: "string option \<Rightarrow> string option option \<Rightarrow> bool \<times> (string \<times> string) list" where
  "readyz database redis =
     (let checks = (''database'', check_text database) #
            (case redis of None \<Rightarrow> [] | Some x \<Rightarrow> [(''redis'', check_text x)])
      in (list_all (\<lambda>(n, v). v = ''ok'') checks, checks))"

definition get_audit_log :: "int \<Rightarrow> actor \<Rightarrow> (audit_event list, 'w) handler" where
  "get_audit_log limit a s = (Inr (recent_events (workspace_of a) (min (max limit 1) 500) (db s)), s)"

definition get_quota :: "quota_policy \<Rightarrow> actor \<Rightarrow> (quota_usage \<times> quota_policy, 'w) handler" where
  "get_quota p a s = (Inr (current_usage (workspace_of a) (clock s) (db s), p), s)"

definition list_tools :: "'v services \<Rightarrow> actor \<Rightarrow> (string list, 'w) handler" where
  "list_tools sv a s = (Inr (tool_names (ex_registry (sv_executor sv))), s)"

end
