(* ===== verification/Tenancy.thy ===== *)
theory Tenancy
  imports Console Ingress Access_Props
begin

text \<open>
  The routes as one service: a request is authorised by the permission its route requires and then
  handled.  A workspace is isolated in both directions: what is done for one workspace leaves the
  rows of every other untouched, and what it is shown depends on its own rows alone.
\<close>

section \<open>Requests\<close>

record 'v deployment =
  dp_services :: "'v services"
  dp_quota :: quota_policy
  dp_env :: access_env
  dp_host :: "'v backend host"
  dp_policy :: system_policy
  dp_foreign_keys :: bool

datatype request =
    Create_session ident string
  | Post_message ident message_in
  | Cancel_run ident
  | Decide ident bool
  | Create_agent agent_in
  | Update_agent ident agent_in
  | Delete_agent ident
  | Create_schedule string schedule_in
  | Delete_schedule ident
  | Upload_document string string string
  | Revert_change ident
  | Confirm_change ident
  | Add_member string role
  | Change_role ident role
  | Remove_member ident
  | Create_key string string
  | Revoke_key ident

fun required :: "request \<Rightarrow> permission" where
  "required (Create_session p t) = SESSIONS_USE"
| "required (Post_message k m) = SESSIONS_USE"
| "required (Cancel_run k) = SESSIONS_USE"
| "required (Decide k b) = RUNS_APPROVE"
| "required (Create_agent b) = AGENTS_MANAGE"
| "required (Update_agent k b) = AGENTS_MANAGE"
| "required (Delete_agent k) = AGENTS_MANAGE"
| "required (Create_schedule t b) = SCHEDULES_MANAGE"
| "required (Delete_schedule k) = SCHEDULES_MANAGE"
| "required (Upload_document x t y) = KNOWLEDGE_WRITE"
| "required (Revert_change k) = RUNS_APPROVE"
| "required (Confirm_change k) = RUNS_APPROVE"
| "required (Add_member e r) = MEMBERS_MANAGE"
| "required (Change_role k r) = MEMBERS_MANAGE"
| "required (Remove_member k) = MEMBERS_MANAGE"
| "required (Create_key r n) = SESSIONS_USE"
| "required (Revoke_key k) = SESSIONS_USE"

definition answered :: "(api_error + 'a) \<times> 'w sys \<Rightarrow> (api_error + unit) \<times> 'w sys" where
  "answered x = (map_sum id (\<lambda>_. ()) (fst x), snd x)"

fun perform :: "'v deployment \<Rightarrow> request \<Rightarrow> actor \<Rightarrow> (unit, 'v backend) handler" where
  "perform dp (Create_session p t) a s = answered (create_session p t a s)"
| "perform dp (Post_message k m) a s = answered (post_message (dp_services dp) (dp_quota dp) k m a s)"
| "perform dp (Cancel_run k) a s = answered (cancel_run k a s)"
| "perform dp (Decide k b) a s = answered (decide k b a s)"
| "perform dp (Create_agent b) a s = answered (create_agent b a s)"
| "perform dp (Update_agent k b) a s = answered (update_agent k b a s)"
| "perform dp (Delete_agent k) a s = answered (delete_agent (dp_foreign_keys dp) k a s)"
| "perform dp (Create_schedule t b) a s = answered (create_schedule t b a s)"
| "perform dp (Delete_schedule k) a s = answered (delete_schedule k a s)"
| "perform dp (Upload_document x t y) a s = answered (upload_document x t y a s)"
| "perform dp (Revert_change k) a s = answered (revert_route (dp_host dp) (dp_policy dp) k a s)"
| "perform dp (Confirm_change k) a s = answered (confirm_route k a s)"
| "perform dp (Add_member e r) a s = answered (add_member e r a s)"
| "perform dp (Change_role k r) a s = answered (change_role k r a s)"
| "perform dp (Remove_member k) a s = answered (remove_member k a s)"
| "perform dp (Create_key r n) a s = answered (create_key (dp_env dp) r n a s)"
| "perform dp (Revoke_key k) a s = answered (revoke_key k a s)"

definition serve :: "'v deployment \<Rightarrow> request \<Rightarrow> credentials \<Rightarrow> (unit, 'v backend) handler" where
  "serve dp rq cd = route (dp_env dp) (required rq) (perform dp rq) cd"

datatype query =
    Q_sessions | Q_messages ident | Q_run ident | Q_steps ident | Q_approvals | Q_agents | Q_schedules
  | Q_documents | Q_changes "ident option" nat | Q_audit int | Q_quota | Q_bindings | Q_deliveries | Q_members

datatype answer =
    A_sessions "session_out list" | A_messages "message_out list" | A_run run_out
  | A_steps "(int \<times> step_kind \<times> json_dict) list" | A_approvals "approval_out list" | A_agents "agent_out list"
  | A_schedules "schedule_out list" | A_documents "document_out list" | A_changes "change_record list"
  | A_audit "audit_event list" | A_quota "quota_usage \<times> quota_policy" | A_bindings "channel_binding list"
  | A_deliveries "nat \<times> nat \<times> nat" | A_members "member_out list" | A_error api_error

definition shown :: "('a \<Rightarrow> answer) \<Rightarrow> (api_error + 'a) \<times> 'w sys \<Rightarrow> answer" where
  "shown f x = (case fst x of Inl e \<Rightarrow> A_error e | Inr y \<Rightarrow> f y)"

fun ask :: "'v deployment \<Rightarrow> query \<Rightarrow> actor \<Rightarrow> 'w sys \<Rightarrow> answer" where
  "ask dp Q_sessions a s = shown A_sessions (list_sessions a s)"
| "ask dp (Q_messages k) a s = shown A_messages (list_messages k a s)"
| "ask dp (Q_run k) a s = shown A_run (read_run k a s)"
| "ask dp (Q_steps k) a s = shown A_steps (read_run_steps k a s)"
| "ask dp Q_approvals a s = shown A_approvals (list_pending_approvals a s)"
| "ask dp Q_agents a s = shown A_agents (list_agents a s)"
| "ask dp Q_schedules a s = shown A_schedules (list_schedules a s)"
| "ask dp Q_documents a s = shown A_documents (list_documents a s)"
| "ask dp (Q_changes r n) a s = shown A_changes (list_workspace_changes r n a s)"
| "ask dp (Q_audit n) a s = shown A_audit (get_audit_log n a s)"
| "ask dp Q_quota a s = shown A_quota (get_quota (dp_quota dp) a s)"
| "ask dp Q_bindings a s = shown A_bindings (list_bindings a s)"
| "ask dp Q_deliveries a s = shown A_deliveries (delivery_stats a s)"
| "ask dp Q_members a s = shown A_members (list_members a s)"

section \<open>The rows of a set of workspaces\<close>

definition message_of :: "(ident \<Rightarrow> bool) \<Rightarrow> database \<Rightarrow> message \<Rightarrow> bool" where
  "message_of p d m = (case get_session (mg_session m) d of None \<Rightarrow> False | Some x \<Rightarrow> p (ss_workspace x))"

definition step_of :: "(ident \<Rightarrow> bool) \<Rightarrow> database \<Rightarrow> run_step \<Rightarrow> bool" where
  "step_of p d x = (case get_run (rs_run x) d of None \<Rightarrow> False | Some r \<Rightarrow> p (rn_workspace r))"

text \<open>Messages and steps belong to the workspace of their session or run; users are shared, keys are the
  users' own.\<close>

definition view :: "(ident \<Rightarrow> bool) \<Rightarrow> database \<Rightarrow> database" where
  "view p d = d\<lparr>api_keys := [], workspaces := filter (\<lambda>x. p (wk_id x)) (workspaces d),
     members := filter (\<lambda>x. p (wm_workspace x)) (members d), profiles := filter (\<lambda>x. p (ap_workspace x)) (profiles d),
     sessions := filter (\<lambda>x. p (ss_workspace x)) (sessions d), messages := filter (message_of p d) (messages d),
     runs := filter (\<lambda>x. p (rn_workspace x)) (runs d), run_steps := filter (step_of p d) (run_steps d),
     approvals := filter (\<lambda>x. p (ar_workspace x)) (approvals d), schedules := filter (\<lambda>x. p (sd_workspace x)) (schedules d),
     bindings := filter (\<lambda>x. p (cb_workspace x)) (bindings d), replies := filter (\<lambda>x. p (cr_workspace x)) (replies d),
     audit_events := filter (\<lambda>x. p (ae_workspace x)) (audit_events d),
     memories := filter (\<lambda>x. p (mi_workspace x)) (memories d), documents := filter (\<lambda>x. p (dc_workspace x)) (documents d),
     chunks := filter (\<lambda>x. p (dk_workspace x)) (chunks d), changes := filter (\<lambda>x. p (ch_workspace x)) (changes d),
     cursors := filter (\<lambda>x. p (cu_workspace x)) (cursors d)\<rparr>"

text \<open>The primary keys of the tables a route looks rows up in.\<close>

definition keyed_tables :: "database \<Rightarrow> bool" where
  "keyed_tables d = (keyed ss_id (sessions d) \<and> keyed rn_id (runs d) \<and> keyed ap_id (profiles d) \<and> keyed sd_id (schedules d) \<and>
     keyed ar_id (approvals d) \<and> keyed ch_id (changes d) \<and> keyed wm_id (members d))"

lemma find_row_filter:
  "keyed key rows \<Longrightarrow> find_row key k (filter q rows) =
     (case find_row key k rows of None \<Rightarrow> None | Some r \<Rightarrow> if q r then Some r else None)"
proof (induction rows)
  case (Cons r rows)
  have "find_row key k rows = None" if "key r = k" using Cons.prems that by (simp add: find_row_None)
  then show ?case using Cons by auto
qed simp

section \<open>A workspace is shown its own rows\<close>

lemma filter_view: "(\<And>x. q x \<Longrightarrow> p x) \<Longrightarrow> filter q (filter p xs) = filter q xs"
  by (induction xs) auto

lemma count_view: "(\<And>x. q x \<Longrightarrow> p x) \<Longrightarrow> count_where q (filter p xs) = count_where q xs"
  by (induction xs) auto

lemma view_get:
  assumes "keyed_tables d"
  shows "get_session k (view p d) = (case get_session k d of None \<Rightarrow> None | Some x \<Rightarrow> if p (ss_workspace x) then Some x else None)"
    "get_run k (view p d) = (case get_run k d of None \<Rightarrow> None | Some x \<Rightarrow> if p (rn_workspace x) then Some x else None)"
  using assms by (simp_all add: view_def get_session_def get_run_def find_row_filter keyed_tables_def split: option.splits)

lemma owned_on_view:
  assumes "keyed_tables d"
  shows "owned_session a k (view (\<lambda>w. w = workspace_of a) d) = owned_session a k d"
    "owned_run a k (view (\<lambda>w. w = workspace_of a) d) = owned_run a k d"
  by (simp_all add: owned_session_def owned_run_def view_get [OF assms] split: option.splits)

lemma view_messages:
  assumes "owned_session a k d = Inr x" and "p (workspace_of a)"
  shows "filter (\<lambda>m. mg_session m = k) (messages (view p d)) = filter (\<lambda>m. mg_session m = k) (messages d)"
proof -
  have "message_of p d m" if "mg_session m = k" for m
    using assms that by (auto simp: message_of_def owned_session_def split: option.splits if_splits)
  then show ?thesis by (simp add: view_def filter_view del: filter_filter)
qed

lemma view_steps:
  assumes "owned_run a k d = Inr x" and "p (workspace_of a)"
  shows "filter (\<lambda>m. rs_run m = k) (run_steps (view p d)) = filter (\<lambda>m. rs_run m = k) (run_steps d)"
proof -
  have "step_of p d m" if "rs_run m = k" for m
    using assms that by (auto simp: step_of_def owned_run_def split: option.splits if_splits)
  then show ?thesis by (simp add: view_def filter_view del: filter_filter)
qed

lemma ask_view:
  assumes "keyed_tables (db s)"
  shows "ask dp q a s = ask dp q a (s\<lparr>db := view (\<lambda>w. w = workspace_of a) (db s)\<rparr>)"
proof (cases q)
  case (Q_messages k)
  then show ?thesis
    by (auto simp: list_messages_def owned_on_view [OF assms] view_messages shown_def split: sum.splits)
next
  case (Q_steps k)
  then show ?thesis
    by (auto simp: read_run_steps_def owned_on_view [OF assms] view_steps shown_def split: sum.splits)
next
  case (Q_run k)
  then show ?thesis by (simp add: read_run_def owned_on_view [OF assms] shown_def)
next
  case Q_quota
  then show ?thesis by (auto simp: get_quota_def current_usage_def view_def shown_def Let_def intro!: count_view [symmetric])
next
  case Q_deliveries
  then show ?thesis by (auto simp: delivery_stats_def view_def workspace_of_def shown_def Let_def intro!: count_view [symmetric])
next
  case (Q_changes r n)
  then show ?thesis by (simp add: list_workspace_changes_def list_changes_def view_def filter_view checked_def shown_def)
qed (simp_all add: list_sessions_def list_pending_approvals_def list_agents_def list_schedules_def list_documents_def
    get_audit_log_def recent_events_def list_bindings_def list_members_def get_user_def view_def filter_view workspace_of_def shown_def)

lemma ask_same:
  assumes "db u = db v" and "clock u = clock v"
  shows "ask dp q a u = ask dp q a v"
  using assms
  by (cases q) (simp_all add: list_sessions_def list_pending_approvals_def list_agents_def list_schedules_def
      list_documents_def get_audit_log_def list_bindings_def list_members_def list_messages_def read_run_def read_run_steps_def
      get_quota_def delivery_stats_def list_workspace_changes_def checked_def shown_def Let_def split: sum.splits)

text \<open>C23.  What a workspace is shown depends on its own rows alone: two deployments that hold the same
  rows for it answer each of its queries alike, whatever else they hold.\<close>

theorem tenant_indistinguishable:
  assumes "keyed_tables (db s)" and "keyed_tables (db t)" and "clock s = clock t"
    and "view (\<lambda>w. w = workspace_of a) (db s) = view (\<lambda>w. w = workspace_of a) (db t)"
  shows "ask dp q a s = ask dp q a t"
proof -
  have "ask dp q a (s\<lparr>db := view (\<lambda>w. w = workspace_of a) (db s)\<rparr>) = ask dp q a (t\<lparr>db := view (\<lambda>w. w = workspace_of a) (db t)\<rparr>)"
    by (rule ask_same) (simp_all add: assms(3,4))
  then show ?thesis using ask_view [OF assms(1)] ask_view [OF assms(2)] by metis
qed

section \<open>A request leaves the other workspaces alone\<close>

lemma filter_update_found:
  assumes "keyed key rows" and "find_row key k rows = Some r" and "\<not> q r" and "\<not> q (f r)"
  shows "filter q (update_where (\<lambda>x. key x = k) f rows) = filter q rows"
proof -
  obtain xs ys where rows: "rows = xs @ r # ys" and key: "key r = k"
    using assms(2) by (metis find_row_Some split_list)
  have none: "\<And>x. x \<in> set xs \<union> set ys \<Longrightarrow> key x \<noteq> k"
    using assms(1) rows key by (auto simp: keyed_def image_iff)
  have "update_where (\<lambda>x. key x = k) f xs = xs" "update_where (\<lambda>x. key x = k) f ys = ys"
    using none by (auto intro!: update_where_none)
  then show ?thesis using assms(3,4) rows key by (simp add: update_where_def)
qed

lemma filter_remove_found:
  assumes "keyed key rows" and "find_row key k rows = Some r" and "\<not> q r"
  shows "filter q (filter (\<lambda>x. key x \<noteq> k) rows) = filter q rows"
proof -
  have "key x \<noteq> k" if "x \<in> set rows" "q x" for x
    using find_row_unique [OF assms(1) that(1)] assms(2,3) that(2) by auto
  then show ?thesis by (auto intro!: filter_cong)
qed

text \<open>What a handler may do to the tables, as far as the rows that \<open>p\<close> selects can tell.\<close>

definition confined :: "(ident \<Rightarrow> bool) \<Rightarrow> database \<Rightarrow> database \<Rightarrow> bool" where
  "confined p d d' = (view p d' = view p d)"

lemma confined_refl [simp]: "confined p d d"
  by (simp add: confined_def)

lemma confined_trans: "confined p d d' \<Longrightarrow> confined p d' d'' \<Longrightarrow> confined p d d''"
  by (simp add: confined_def)

lemma message_of_table [simp]:
  "message_of p (d\<lparr>profiles := y\<rparr>) = message_of p d" "message_of p (d\<lparr>schedules := z\<rparr>) = message_of p d"
  "message_of p (d\<lparr>documents := u\<rparr>) = message_of p d" "message_of p (d\<lparr>members := v\<rparr>) = message_of p d"
  "message_of p (d\<lparr>audit_events := w\<rparr>) = message_of p d" "message_of p (d\<lparr>api_keys := ks\<rparr>) = message_of p d"
  "message_of p (d\<lparr>runs := rs\<rparr>) = message_of p d" "message_of p (d\<lparr>approvals := as\<rparr>) = message_of p d"
  "message_of p (d\<lparr>changes := cs\<rparr>) = message_of p d" "message_of p (d\<lparr>messages := ms\<rparr>) = message_of p d"
  by (simp_all add: message_of_def get_session_def fun_eq_iff)

lemma step_of_table [simp]:
  "step_of p (d\<lparr>profiles := y\<rparr>) = step_of p d" "step_of p (d\<lparr>schedules := z\<rparr>) = step_of p d"
  "step_of p (d\<lparr>documents := u\<rparr>) = step_of p d" "step_of p (d\<lparr>members := v\<rparr>) = step_of p d"
  "step_of p (d\<lparr>audit_events := w\<rparr>) = step_of p d" "step_of p (d\<lparr>api_keys := ks\<rparr>) = step_of p d"
  "step_of p (d\<lparr>sessions := ss\<rparr>) = step_of p d" "step_of p (d\<lparr>approvals := as\<rparr>) = step_of p d"
  "step_of p (d\<lparr>changes := cs\<rparr>) = step_of p d" "step_of p (d\<lparr>messages := ms\<rparr>) = step_of p d"
  by (simp_all add: step_of_def get_run_def fun_eq_iff)

lemma message_of_append [simp]:
  "\<not> p (ss_workspace x) \<Longrightarrow> message_of p (d\<lparr>sessions := sessions d @ [x]\<rparr>) = message_of p d"
  by (auto simp: message_of_def get_session_def find_row_append fun_eq_iff split: option.splits)

lemma step_of_append [simp]:
  "\<not> p (rn_workspace x) \<Longrightarrow> step_of p (d\<lparr>runs := runs d @ [x]\<rparr>) = step_of p d"
  by (auto simp: step_of_def get_run_def find_row_append fun_eq_iff split: option.splits)

text \<open>A table that changes only in rows of other workspaces.\<close>

lemma view_profiles: "filter (\<lambda>x. p (ap_workspace x)) y = filter (\<lambda>x. p (ap_workspace x)) (profiles d) \<Longrightarrow> view p (d\<lparr>profiles := y\<rparr>) = view p d"
  by (simp add: view_def)

lemma view_schedules: "filter (\<lambda>x. p (sd_workspace x)) y = filter (\<lambda>x. p (sd_workspace x)) (schedules d) \<Longrightarrow> view p (d\<lparr>schedules := y\<rparr>) = view p d"
  by (simp add: view_def)

lemma view_members: "filter (\<lambda>x. p (wm_workspace x)) y = filter (\<lambda>x. p (wm_workspace x)) (members d) \<Longrightarrow> view p (d\<lparr>members := y\<rparr>) = view p d"
  by (simp add: view_def)

lemma view_approvals: "filter (\<lambda>x. p (ar_workspace x)) y = filter (\<lambda>x. p (ar_workspace x)) (approvals d) \<Longrightarrow> view p (d\<lparr>approvals := y\<rparr>) = view p d"
  by (simp add: view_def)

lemma view_changes: "filter (\<lambda>x. p (ch_workspace x)) y = filter (\<lambda>x. p (ch_workspace x)) (changes d) \<Longrightarrow> view p (d\<lparr>changes := y\<rparr>) = view p d"
  by (simp add: view_def)

lemma view_new [simp]:
  "\<not> p (ss_workspace x) \<Longrightarrow> view p (d\<lparr>sessions := sessions d @ [x]\<rparr>) = view p d"
  "\<not> p (ap_workspace y) \<Longrightarrow> view p (d\<lparr>profiles := profiles d @ [y]\<rparr>) = view p d"
  "\<not> p (sd_workspace z) \<Longrightarrow> view p (d\<lparr>schedules := schedules d @ [z]\<rparr>) = view p d"
  "\<not> p (dc_workspace u) \<Longrightarrow> view p (d\<lparr>documents := documents d @ [u]\<rparr>) = view p d"
  "\<not> p (wm_workspace v) \<Longrightarrow> view p (d\<lparr>members := members d @ [v]\<rparr>) = view p d"
  "\<not> p (ae_workspace w) \<Longrightarrow> view p (d\<lparr>audit_events := audit_events d @ [w]\<rparr>) = view p d"
  "view p (d\<lparr>api_keys := ks\<rparr>) = view p d"
  by (simp_all add: view_def)

lemma audit_confined [simp]:
  "\<not> p ws \<Longrightarrow> view p (db (record_audit ws who what kind k detail s)) = view p (db s)"
  by (simp add: record_audit_def)

lemma place_run_adds:
  "place_run ss sid t goal key s = (k, s') \<Longrightarrow>
     \<exists>m r. messages (db s') = messages (db s) @ [m] \<and> mg_session m = sid \<and>
       runs (db s') = runs (db s) @ [r] \<and> rn_workspace r = ss_workspace ss"
  by (auto simp: place_run_def add_message_def add_run_def queued_run_def Let_def)

text \<open>A submission adds at most one message of the session and one run of its workspace.\<close>

lemma submit_adds:
  assumes "submit_message sv q sid t plan key s = (x, s')" and "get_session sid (db s) = Some ss"
  shows "messages (db s') = messages (db s) \<and> runs (db s') = runs (db s) \<or>
    (\<exists>m r. messages (db s') = messages (db s) @ [m] \<and> mg_session m = sid \<and>
       runs (db s') = runs (db s) @ [r] \<and> rn_workspace r = ss_workspace ss)"
proof (cases "admit q sid key s")
  case (Inl e)
  then show ?thesis using assms(1) by (simp add: submit_message_def)
next
  case admitted: (Inr y)
  show ?thesis
  proof (cases y)
    case (Inl k)
    then show ?thesis using assms(1) admitted by (simp add: submit_message_def)
  next
    case (Inr ss')
    have same: "ss' = ss" using admitted Inr assms(2) by (auto simp: admit_def split: if_splits option.splits sum.splits)
    obtain g s1 where g: "plan_goal sv t plan s = (g, s1)" by fastforce
    note same_db = plan_goal_db [OF g]
    show ?thesis
    proof (cases g)
      case (Inl e)
      then show ?thesis using assms(1) admitted Inr g same_db by (simp add: submit_message_def)
    next
      case goal: (Inr goal)
      obtain k s2 where p2: "place_run ss sid t goal key s1 = (k, s2)" by fastforce
      then have "s' = dispatch (Execute_job k) s2" using assms(1) admitted Inr g goal same by (simp add: submit_message_def)
      then show ?thesis using place_run_adds [OF p2] same_db by simp
    qed
  qed
qed

lemma submit_confined:
  assumes "submit_message sv q sid t plan key s = (x, s')" and "get_session sid (db s) = Some ss" and "\<not> p (ss_workspace ss)"
  shows "view p (db s') = view p (db s)"
proof -
  have runs: "filter (\<lambda>r. p (rn_workspace r)) (runs (db s')) = filter (\<lambda>r. p (rn_workspace r)) (runs (db s))"
    and steps: "step_of p ((db s)\<lparr>runs := runs (db s'), messages := messages (db s')\<rparr>) = step_of p (db s)"
    using submit_adds [OF assms(1,2)] assms(3) step_of_append [of p _ "db s"] by auto
  have "filter (message_of p (db s)) (messages (db s')) = filter (message_of p (db s)) (messages (db s))"
    using submit_adds [OF assms(1,2)] assms(2,3) by (auto simp: message_of_def)
  then show ?thesis by (subst submit_touches [OF assms(1)]) (use runs steps in \<open>simp add: view_def\<close>)
qed

lemma run_update_confined:
  assumes "keyed rn_id (runs d)" and "get_run k d = Some r" and "\<not> p (rn_workspace r)"
    and "\<And>x. rn_id (f x) = rn_id x" "\<And>x. rn_workspace (f x) = rn_workspace x"
  shows "view p (on_runs (update_where (\<lambda>x. rn_id x = k) f) d) = view p d"
proof -
  have rows: "filter (\<lambda>x. p (rn_workspace x)) (update_where (\<lambda>x. rn_id x = k) f (runs d)) = filter (\<lambda>x. p (rn_workspace x)) (runs d)"
    using assms by (intro filter_update_found [of rn_id _ k r]) (simp_all add: get_run_def)
  have "step_of p (d\<lparr>runs := update_where (\<lambda>x. rn_id x = k) f (runs d)\<rparr>) = step_of p d"
    using assms(4,5) by (auto simp: step_of_def get_run_def fun_eq_iff find_row_update_where split: option.splits)
  then show ?thesis using rows by (simp add: on_runs_def view_def)
qed

lemma cancel_confined:
  assumes "request_cancel k ws s = (x, s')" and "keyed rn_id (runs (db s))" and "\<not> p ws"
  shows "view p (db s') = view p (db s)"
proof (cases "get_run k (db s)")
  case (Some r)
  then show ?thesis using assms run_update_confined [OF assms(2) Some]
    by (auto simp: request_cancel_def update_run_def split: if_splits)
qed (use assms in \<open>simp add: request_cancel_def\<close>)

lemma found_member: "find_member ws u d = Some m \<Longrightarrow> m \<in> set (members d) \<and> wm_workspace m = ws"
  by (auto simp: find_member_def find_Some_iff)

lemma member_update_confined:
  assumes "keyed wm_id (members d)" and "find_member ws u d = Some m" and "\<not> p ws"
  shows "filter (\<lambda>x. p (wm_workspace x)) (update_where (\<lambda>x. wm_id x = wm_id m) (\<lambda>x. x\<lparr>wm_role := r\<rparr>) (members d)) =
      filter (\<lambda>x. p (wm_workspace x)) (members d)"
    "filter (\<lambda>x. p (wm_workspace x)) (filter (\<lambda>x. wm_id x \<noteq> wm_id m) (members d)) = filter (\<lambda>x. p (wm_workspace x)) (members d)"
proof -
  have row: "find_row wm_id (wm_id m) (members d) = Some m" and ws: "wm_workspace m = ws"
    using found_member [OF assms(2)] find_row_unique [OF assms(1)] by auto
  show "filter (\<lambda>x. p (wm_workspace x)) (update_where (\<lambda>x. wm_id x = wm_id m) (\<lambda>x. x\<lparr>wm_role := r\<rparr>) (members d)) =
      filter (\<lambda>x. p (wm_workspace x)) (members d)"
    using assms(1,3) row ws by (intro filter_update_found) auto
  show "filter (\<lambda>x. p (wm_workspace x)) (filter (\<lambda>x. wm_id x \<noteq> wm_id m) (members d)) = filter (\<lambda>x. p (wm_workspace x)) (members d)"
    using assms(1,3) row ws by (intro filter_remove_found) auto
qed

lemma change_update_confined:
  assumes "keyed ch_id (changes d)" and "load_change k ws d = Inr r" and "\<not> p ws"
    and "\<And>x. ch_workspace (f x) = ch_workspace x"
  shows "filter (\<lambda>x. p (ch_workspace x)) (update_where (\<lambda>x. ch_id x = k) f (changes d)) = filter (\<lambda>x. p (ch_workspace x)) (changes d)"
  using assms by (intro filter_update_found) (auto simp: load_change_def get_change_def split: option.splits if_splits)

lemma mark_settled_workspace [simp]: "ch_workspace (mark_settled st t now x) = ch_workspace x"
  by (simp add: mark_settled_def)

lemma confirmed_row_workspace [simp]: "ch_workspace (confirmed_row who now x) = ch_workspace x"
  by (simp add: confirmed_row_def)

lemma revert_confined:
  assumes "revert_change ho q r reason s = (x, s')" and "load_change k ws (db s) = Inr r" and "keyed ch_id (changes (db s))" and "\<not> p ws"
  shows "view p (db s') = view p (db s)"
proof -
  have key: "ch_id r = k"
    using assms(2) by (auto simp: load_change_def get_change_def dest: find_row_Some split: option.splits if_splits)
  obtain y s1 where h: "on_host (apply_inverse ho q r) s = (y, s1)" by fastforce
  have d1: "db s1 = db s" using on_host_sel(1) [of "apply_inverse ho q r" s] h by simp
  have "view p (db (snd (write_revert r reason ok t s1))) = view p (db s)" for ok t
    using change_update_confined [OF assms(3,2), where p = p] assms(4) d1 key
    by (simp add: write_revert_def update_change_def on_changes_def view_changes Let_def)
  then show ?thesis using assms(1) h d1
    by (auto simp: revert_change_def split: if_splits sum.splits op_error.splits prod.splits)
       (metis snd_conv)+
qed

lemma post_confined:
  assumes "post_message sv q k m a s = (x, s')" and "\<not> p (workspace_of a)"
  shows "view p (db s') = view p (db s)"
proof (cases "valid_message_in m \<and> (\<exists>ss. owned_session a k (db s) = Inr ss)")
  case True
  then obtain ss where ss: "valid_message_in m" "owned_session a k (db s) = Inr ss" by blast
  then have own: "get_session k (db s) = Some ss" "\<not> p (ss_workspace ss)"
    using assms(2) by (auto simp: owned_session_def split: option.splits if_splits)
  obtain y s1 where sub: "submit_message sv q k (in_text_body m) (in_plan_first m) (in_idempotency_key m) s = (y, s1)" by fastforce
  then have "s' = s1" using assms(1) ss by (auto simp: post_message_def checked_def split: sum.splits)
  then show ?thesis using submit_confined [OF sub own(1), of p] own(2) by simp
next
  case False
  then show ?thesis using assms(1) by (auto simp: post_message_def checked_def split: sum.splits if_splits)
qed

lemma decide_confined:
  assumes "decide k b a s = (x, s')" and "keyed ar_id (approvals (db s))" and "\<not> p (workspace_of a)"
  shows "view p (db s') = view p (db s)"
proof (cases "get_approval k (db s)")
  case (Some r)
  then have row: "find_row ar_id k (approvals (db s)) = Some r" by (simp add: get_approval_def)
  show ?thesis
  proof (cases "ar_workspace r = workspace_of a")
    case True
    have "filter (\<lambda>x. p (ar_workspace x)) (update_where (\<lambda>x. ar_id x = k) f (approvals (db s))) = filter (\<lambda>x. p (ar_workspace x)) (approvals (db s))"
      if "ar_workspace (f r) = ar_workspace r" for f
      using filter_update_found [OF assms(2) row] assms(3) True that by auto
    then show ?thesis using assms(1) Some True
      by (auto simp: decide_def decide_approval_def update_approval_def view_approvals Let_def split: if_splits)
  qed (use assms(1) Some in \<open>simp add: decide_def\<close>)
qed (use assms(1) in \<open>simp add: decide_def\<close>)

lemma owned_profile_row:
  "owned_profile e a k d = Inr r \<Longrightarrow> find_row ap_id k (profiles d) = Some r \<and> ap_workspace r = workspace_of a"
  by (auto simp: owned_profile_def get_profile_def split: option.splits if_splits)

lemma agents_confined:
  assumes "keyed ap_id (profiles (db s))" and "\<not> p (workspace_of a)"
  shows "create_agent b a s = (x, s') \<Longrightarrow> view p (db s') = view p (db s)"
    "update_agent k b a s = (x, s') \<Longrightarrow> view p (db s') = view p (db s)"
    "delete_agent fk k a s = (y, s') \<Longrightarrow> view p (db s') = view p (db s)"
proof -
  have upd: "filter (\<lambda>x. p (ap_workspace x)) (update_where (\<lambda>x. ap_id x = k) (write_agent b) (profiles (db s))) =
      filter (\<lambda>x. p (ap_workspace x)) (profiles (db s))"
    and del: "filter (\<lambda>x. p (ap_workspace x)) (filter (\<lambda>x. ap_id x \<noteq> k) (profiles (db s))) = filter (\<lambda>x. p (ap_workspace x)) (profiles (db s))"
    if "owned_profile e a k (db s) = Inr r" for e r
    using owned_profile_row [OF that] assms filter_update_found [OF assms(1), of k r "\<lambda>x. p (ap_workspace x)" "write_agent b"]
      filter_remove_found [OF assms(1), of k r "\<lambda>x. p (ap_workspace x)"] by (simp_all add: write_agent_def)
  show "create_agent b a s = (x, s') \<Longrightarrow> view p (db s') = view p (db s)"
    using assms(2) by (auto simp: create_agent_def checked_def new_agent_def Let_def split: if_splits)
  show "update_agent k b a s = (x, s') \<Longrightarrow> view p (db s') = view p (db s)"
    using upd by (auto simp: update_agent_def checked_def view_profiles split: if_splits sum.splits)
  show "delete_agent fk k a s = (y, s') \<Longrightarrow> view p (db s') = view p (db s)"
    using del by (auto simp: delete_agent_def view_profiles split: if_splits sum.splits)
qed

lemma schedules_confined:
  assumes "keyed sd_id (schedules (db s))" and "\<not> p (workspace_of a)"
  shows "create_schedule t b a s = (x, s') \<Longrightarrow> view p (db s') = view p (db s)"
    "delete_schedule k a s = (y, s') \<Longrightarrow> view p (db s') = view p (db s)"
proof -
  show "create_schedule t b a s = (x, s') \<Longrightarrow> view p (db s') = view p (db s)"
    using assms(2) by (auto simp: create_schedule_def checked_def Let_def split: if_splits sum.splits)
  have del: "filter (\<lambda>x. p (sd_workspace x)) (filter (\<lambda>x. sd_id x \<noteq> k) (schedules (db s))) = filter (\<lambda>x. p (sd_workspace x)) (schedules (db s))"
    if "find_row sd_id k (schedules (db s)) = Some r" "sd_workspace r = workspace_of a" for r
    using filter_remove_found [OF assms(1) that(1), of "\<lambda>x. p (sd_workspace x)"] assms(2) that(2) by simp
  then show "delete_schedule k a s = (y, s') \<Longrightarrow> view p (db s') = view p (db s)"
    by (auto simp: delete_schedule_def view_schedules split: if_splits option.splits)
qed

lemma members_confined:
  assumes "keyed wm_id (members (db s))" and "\<not> p (workspace_of a)"
  shows "add_member e r a s = (x, s') \<Longrightarrow> view p (db s') = view p (db s)"
    "change_role k r a s = (x, s') \<Longrightarrow> view p (db s') = view p (db s)"
    "remove_member k a s = (y, s') \<Longrightarrow> view p (db s') = view p (db s)"
  using assms member_update_confined [OF assms(1), of "workspace_of a" _ _ p]
  by (auto simp: add_member_def change_role_def remove_member_def workspace_of_def view_members Let_def
      split: if_splits option.splits)

lemma keys_confined:
  assumes "\<not> p (workspace_of a)"
  shows "create_key env r n a s = (x, s') \<Longrightarrow> view p (db s') = view p (db s)"
    "revoke_key k a s = (y, s') \<Longrightarrow> view p (db s') = view p (db s)"
  using assms by (auto simp: create_key_def revoke_key_def workspace_of_def Let_def split: if_splits option.splits)

lemma changes_confined:
  assumes "keyed ch_id (changes (db s))" and "\<not> p (workspace_of a)"
  shows "revert_route ho q k a s = (x, s') \<Longrightarrow> view p (db s') = view p (db s)"
    "confirm_route k a s = (y, s') \<Longrightarrow> view p (db s') = view p (db s)"
proof -
  show "revert_route ho q k a s = (x, s') \<Longrightarrow> view p (db s') = view p (db s)"
    using revert_confined [of ho q _ _ s _ _ k "workspace_of a" p] assms by (auto simp: revert_route_def split: sum.splits prod.splits)
  show "confirm_route k a s = (y, s') \<Longrightarrow> view p (db s') = view p (db s)"
    using change_update_confined [OF assms(1), of k "workspace_of a" _ p] assms(2)
    by (auto simp: confirm_route_def confirm_change_def update_change_def on_changes_def view_changes split: sum.splits if_splits)
qed

lemmas handlers_confined =
  post_confined [OF surjective_pairing] decide_confined [OF surjective_pairing]
  agents_confined(1) [OF _ _ surjective_pairing] agents_confined(2) [OF _ _ surjective_pairing] agents_confined(3) [OF _ _ surjective_pairing]
  schedules_confined(1) [OF _ _ surjective_pairing] schedules_confined(2) [OF _ _ surjective_pairing]
  members_confined(1) [OF _ _ surjective_pairing] members_confined(2) [OF _ _ surjective_pairing] members_confined(3) [OF _ _ surjective_pairing]
  keys_confined(1) [OF _ surjective_pairing] keys_confined(2) [OF _ surjective_pairing]
  changes_confined(1) [OF _ _ surjective_pairing] changes_confined(2) [OF _ _ surjective_pairing]

text \<open>C22.  A request changes the rows of its own workspace only: whoever sends it and whatever it asks for,
  the rows of every other workspace are what they were, and a request that is not authorised changes
  nothing at all.\<close>

theorem tenant_isolation:
  assumes "serve dp rq cd s = (x, s')" and "keyed_tables (db s)"
  shows "case require (dp_env dp) (required rq) cd (clock s) (db s) of
     Inl e \<Rightarrow> x = Inl e \<and> s' = s
   | Inr a \<Rightarrow> view (\<lambda>w. w \<noteq> workspace_of a) (db s') = view (\<lambda>w. w \<noteq> workspace_of a) (db s)"
proof (cases "require (dp_env dp) (required rq) cd (clock s) (db s)")
  case (Inl e)
  then show ?thesis using assms(1) by (simp add: serve_def route_def)
next
  case (Inr a)
  then have run: "perform dp rq a s = (x, s')" using assms(1) by (simp add: serve_def route_def)
  let ?p = "\<lambda>w. w \<noteq> workspace_of a"
  have p: "\<not> ?p (workspace_of a)" by simp
  note keys = assms(2) [unfolded keyed_tables_def]
  have "view ?p (db s') = view ?p (db s)"
  proof (cases rq)
    case (Create_session k t)
    then show ?thesis using run by (auto simp: answered_def create_session_def Let_def split: sum.splits)
  next
    case (Cancel_run k)
    obtain y s1 where "request_cancel k (workspace_of a) s = (y, s1)" by fastforce
    with cancel_confined [OF this, of ?p] show ?thesis
      using run Cancel_run keys by (auto simp: answered_def cancel_run_def split: sum.splits)
  next
    case (Upload_document t b o)
    then show ?thesis using run by (auto simp: answered_def upload_document_def checked_def Let_def split: if_splits)
  qed (use run keys in \<open>auto simp: answered_def handlers_confined\<close>)
  then show ?thesis using Inr by simp
qed

section \<open>Two tenants\<close>

definition tenant_profile :: "string \<Rightarrow> ident \<Rightarrow> agent_profile" where
  "tenant_profile k ws = demo_profile\<lparr>ap_id := k, ap_workspace := ws\<rparr>"

text \<open>Ann's workspace, beside a second one with as many rows as \<open>n\<close> says.\<close>

definition two_tenants :: "nat \<Rightarrow> nat state" where
  "two_tenants n = (demo_state [] Queued)\<lparr>db := (db (access_state OWNER MEMBER))\<lparr>
     profiles := tenant_profile ''p1'' ''w1'' # map (\<lambda>i. tenant_profile (CHR ''q'' # show_nat i) ''w2'') [0..<n],
     sessions := [demo_session, demo_session\<lparr>ss_id := ''s2'', ss_workspace := ''w2''\<rparr>]\<rparr>\<rparr>"

definition demo_deployment :: "nat backend host \<Rightarrow> nat deployment" where
  "demo_deployment h = \<lparr>dp_services = demo_services, dp_quota = demo_quota, dp_env = demo_access, dp_host = h,
     dp_policy = default_policy, dp_foreign_keys = True\<rparr>"

definition new_clerk :: agent_in where
  "new_clerk = \<lparr>ai_handle = ''clerk'', ai_title = ''Clerk'', ai_instructions = [], ai_model_alias = ''deep'', ai_tool_grants = [],
     ai_can_delegate = False, ai_max_steps = Some 5\<rparr>"

lemma tenant_rows [simp]:
  "find_row ap_id k (map (\<lambda>i. tenant_profile (f i) ws) xs) = (if k \<in> f ` set xs then Some (tenant_profile k ws) else None)"
  by (induction xs) (auto simp: tenant_profile_def)

lemma two_tenants_keyed: "keyed_tables (db (two_tenants n))"
proof -
  have "distinct (map (\<lambda>i. CHR ''q'' # show_nat i) [0..<n])" by (simp add: distinct_map inj_on_def)
  then show ?thesis
    by (auto simp: keyed_tables_def keyed_def two_tenants_def access_state_def empty_database_def tenant_profile_def demo_session_def
        demo_member_def comp_def)
qed

lemma demo_required:
  "\<exists>a. require demo_access AGENTS_MANAGE ann_credentials (clock (two_tenants n)) (db (two_tenants n)) = Inr a \<and>
     workspace_of a = ''w1''"
  by (simp add: two_tenants_def workspace_of_def demo_state_def access_demo role_named_def role_allows_def permission_sets)

lemma clerk_created:
  "workspace_of a = ''w1'' \<Longrightarrow> \<exists>y s'. create_agent new_clerk a (two_tenants n) = (Inr y, s')"
proof -
  have "valid_agent_in new_clerk" by code_simp
  moreover have "\<not> handle_taken ''w1'' ''clerk'' (db (two_tenants n))"
    by (auto simp: handle_taken_def two_tenants_def tenant_profile_def demo_profile_def list_ex_iff)
  ultimately show "workspace_of a = ''w1'' \<Longrightarrow> ?thesis"
    by (simp add: create_agent_def checked_def new_clerk_def Let_def)
qed

theorem tenant_isolation_witness:
  "\<forall>h. \<exists>s'. serve (demo_deployment h) (Create_agent new_clerk) ann_credentials (two_tenants 2) = (Inr (), s') \<and>
     view (\<lambda>w. w \<noteq> ''w1'') (db s') = view (\<lambda>w. w \<noteq> ''w1'') (db (two_tenants 2))"
proof
  fix h
  obtain a where a: "require demo_access AGENTS_MANAGE ann_credentials (clock (two_tenants 2)) (db (two_tenants 2)) = Inr a"
    "workspace_of a = ''w1''" using demo_required by blast
  obtain y s' where c: "create_agent new_clerk a (two_tenants 2) = (Inr y, s')" using clerk_created [OF a(2)] by blast
  have run: "serve (demo_deployment h) (Create_agent new_clerk) ann_credentials (two_tenants 2) = (Inr (), s')"
    using a c by (simp add: serve_def route_def demo_deployment_def answered_def)
  from tenant_isolation [OF run two_tenants_keyed] a run
  show "\<exists>s'. serve (demo_deployment h) (Create_agent new_clerk) ann_credentials (two_tenants 2) = (Inr (), s') \<and>
     view (\<lambda>w. w \<noteq> ''w1'') (db s') = view (\<lambda>w. w \<noteq> ''w1'') (db (two_tenants 2))"
    by (auto simp: demo_deployment_def)
qed

definition demo_ann :: actor where
  "demo_ann = \<lparr>ac_user = demo_user ''ann'', ac_workspace = \<lparr>wk_id = ''w1'', wk_created = 0, wk_name = ''W'', wk_slug = ''ws''\<rparr>,
     ac_role = OWNER\<rparr>"

theorem tenant_indistinguishable_witness:
  "\<forall>h. ask (demo_deployment h) Q_agents demo_ann (two_tenants 1) = ask (demo_deployment h) Q_agents demo_ann (two_tenants 5)"
proof
  fix h
  have "view (\<lambda>w. w = workspace_of demo_ann) (db (two_tenants m)) = view (\<lambda>w. w = workspace_of demo_ann) (db (two_tenants n))" for m n
    by (simp add: view_def two_tenants_def workspace_of_def demo_ann_def tenant_profile_def message_of_def step_of_def
        access_state_def empty_database_def)
  moreover have "clock (two_tenants 1) = clock (two_tenants 5)" by (simp add: two_tenants_def)
  ultimately show "ask (demo_deployment h) Q_agents demo_ann (two_tenants 1) = ask (demo_deployment h) Q_agents demo_ann (two_tenants 5)"
    using tenant_indistinguishable [OF two_tenants_keyed two_tenants_keyed] by blast
qed

end
