(* ===== verification/Sandbox.thy ===== *)
theory Sandbox
  imports Tooling
begin

text \<open>
  \<open>tools/builtin/fs.py\<close>, \<open>code.py\<close>, \<open>git.py\<close> and \<open>shell.py\<close>: the tools that work in the directory
  of a session, and the resolution of their paths.  A file system is the list of its entries by
  absolute path; resolving a path is the library's \<open>os.path.realpath\<close> (Python 3.11 and 3.12).
  The content of a file is the text it decodes to.
\<close>

section \<open>Files\<close>

type_synonym components = "string list"

datatype entry = File string | Directory | Link string

type_synonym files = "(components \<times> entry) list"

definition lstat :: "files \<Rightarrow> components \<Rightarrow> entry option" where
  "lstat fs p = (if p = [] then Some Directory else map_of fs p)"

text \<open>
  Walking a path: names still to resolve, and marks that end the expansion of a link.  A link that
  is met again while it is expanded ends the walk: the rest is appended as it stands.
\<close>

datatype walk_item = Go string | Mark components

definition is_absolute :: "string \<Rightarrow> bool" where
  "is_absolute t = starts_with ''/'' t"

definition names :: "string \<Rightarrow> walk_item list" where
  "names t = map Go (split_on (CHR ''/'') t)"

text \<open>\<open>join(path, rest)\<close> level by level; a rest that starts with a separator is absolute.\<close>

definition join_level :: "components \<Rightarrow> string list \<Rightarrow> components" where
  "join_level path seg =
     (if seg = [] \<or> seg = [[]] then path else if hd seg = [] then seg else path @ seg)"

fun join_rest :: "components \<Rightarrow> string list \<Rightarrow> walk_item list \<Rightarrow> components" where
  "join_rest path seg [] = join_level path seg"
| "join_rest path seg (Go n # rest) = join_rest path (seg @ [n]) rest"
| "join_rest path seg (Mark l # rest) = join_rest (join_level path seg) [] rest"

type_synonym seen_links = "(components \<times> components option) list"

definition unseen :: "files \<Rightarrow> seen_links \<Rightarrow> components set" where
  "unseen fs seen = fst ` set fs - fst ` set seen"

lemma unseen_finite [simp]: "finite (unseen fs seen)"
  by (simp add: unseen_def)

lemma unseen_seen [simp]: "k \<in> fst ` set seen \<Longrightarrow> unseen fs ((k, v) # seen) = unseen fs seen"
  by (auto simp: unseen_def)

lemma unseen_mono: "card (unseen fs ((k, v) # seen)) \<le> card (unseen fs seen)"
  by (rule card_mono) (auto simp: unseen_def)

lemma unseen_less:
  assumes "lstat fs k = Some (Link t)" and "map_of seen k = None"
  shows "card (unseen fs ((k, v) # seen)) < card (unseen fs seen)"
proof (rule psubset_card_mono)
  have "k \<in> fst ` set fs" using assms(1) by (force simp: lstat_def split: if_splits dest: map_of_SomeD)
  moreover have "k \<notin> fst ` set seen" using assms(2) by (simp add: map_of_eq_None_iff)
  ultimately show "unseen fs ((k, v) # seen) \<subset> unseen fs seen" by (auto simp: unseen_def)
qed simp

function walk :: "files \<Rightarrow> seen_links \<Rightarrow> components \<Rightarrow> walk_item list \<Rightarrow> components \<times> bool" where
  "walk fs seen path [] = (path, True)"
| "walk fs seen path (Mark l # rest) = walk fs ((l, Some path) # seen) path rest"
| "walk fs seen path (Go n # rest) =
     (if n = [] \<or> n = ''.'' then walk fs seen path rest
      else if n = ''..'' then walk fs seen (butlast path) rest
      else case lstat fs (path @ [n]) of
        Some (Link t) \<Rightarrow>
          (case map_of seen (path @ [n]) of
             Some (Some p) \<Rightarrow> walk fs seen p rest
           | Some None \<Rightarrow> (join_rest (path @ [n]) [] rest, False)
           | None \<Rightarrow> walk fs ((path @ [n], None) # seen) (if is_absolute t then [] else path)
                       (names t @ Mark (path @ [n]) # rest))
      | _ \<Rightarrow> walk fs seen (path @ [n]) rest)"
  by pat_completeness auto
termination
  by (relation "measures [\<lambda>(fs, seen, path, rest). card (unseen fs seen), \<lambda>(fs, seen, path, rest). length rest]")
     (auto simp: unseen_less unseen_mono le_less [symmetric])

text \<open>\<open>abspath\<close> drops empty and dot components and resolves the double dots as text.\<close>

fun normalise :: "components \<Rightarrow> string list \<Rightarrow> components" where
  "normalise path [] = path"
| "normalise path (n # ns) =
     (if n = [] \<or> n = ''.'' then normalise path ns
      else if n = ''..'' then normalise (butlast path) ns else normalise (path @ [n]) ns)"

definition realpath :: "files \<Rightarrow> components \<Rightarrow> components \<times> bool" where
  "realpath fs p = (case walk fs [] [] (map Go p) of (q, ok) \<Rightarrow> (normalise [] q, ok))"

text \<open>\<open>Path.resolve()\<close>; \<open>None\<close> is the error for a path that still ends in a loop.\<close>

definition resolve_path :: "files \<Rightarrow> components \<Rightarrow> components option" where
  "resolve_path fs p = (if snd (realpath fs (fst (realpath fs p))) then Some (fst (realpath fs p)) else None)"

text \<open>The parts of a \<open>Path\<close>: empty and dot components are dropped.\<close>

definition parts :: "string \<Rightarrow> components" where
  "parts t = filter (\<lambda>n. n \<noteq> [] \<and> n \<noteq> ''.'') (split_on (CHR ''/'') t)"

section \<open>The sandbox\<close>

datatype resolution = Resolved components | Violation string | Resolve_raised

definition inside :: "components \<Rightarrow> components \<Rightarrow> bool" where
  "inside base p = (take (length base) p = base)"

definition violation :: "string \<Rightarrow> string" where
  "violation relative = ''path '' @ py_repr relative @ '' escapes the session workspace''"

definition target_path :: "components \<Rightarrow> string \<Rightarrow> components" where
  "target_path base relative = (if is_absolute relative then parts relative else base @ parts relative)"

text \<open>A path of exactly two leading slashes keeps them, and is never inside.\<close>

definition resolve_in_sandbox :: "files \<Rightarrow> components \<Rightarrow> string \<Rightarrow> resolution" where
  "resolve_in_sandbox fs sandbox relative =
     (if CHR 0x00 \<in> set relative then Resolve_raised
      else case resolve_path fs sandbox of
        None \<Rightarrow> Resolve_raised
      | Some base \<Rightarrow>
          (case resolve_path fs (target_path base relative) of
             None \<Rightarrow> Resolve_raised
           | Some p \<Rightarrow>
               if (starts_with ''//'' relative \<and> \<not> starts_with ''///'' relative) \<or> \<not> inside base p
               then Violation (violation relative) else Resolved p))"

text \<open>
  What the kernel does with a resolved path: it follows what links are left.  Opening fails for a
  loop; creating needs the directory of the file.
\<close>

datatype opened = Opened components entry | No_entry components | Not_a_directory | Too_many_links

definition kernel_open :: "files \<Rightarrow> components \<Rightarrow> opened" where
  "kernel_open fs p =
     (case realpath fs p of
        (q, False) \<Rightarrow> Too_many_links
      | (q, True) \<Rightarrow>
          (case lstat fs q of
             Some e \<Rightarrow> Opened q e
           | None \<Rightarrow>
               if list_ex (\<lambda>i. case lstat fs (take i q) of Some (File t) \<Rightarrow> True | _ \<Rightarrow> False) [0..<length q]
               then Not_a_directory else No_entry q))"

definition put_file :: "files \<Rightarrow> components \<Rightarrow> string \<Rightarrow> files" where
  "put_file fs q t = AList.update q (File t) fs"

text \<open>\<open>write_text\<close>; \<open>None\<close> is an \<open>OSError\<close>.\<close>

definition write_text :: "files \<Rightarrow> components \<Rightarrow> string \<Rightarrow> files option" where
  "write_text fs p t =
     (case kernel_open fs p of
        Opened q (File old) \<Rightarrow> Some (put_file fs q t)
      | No_entry q \<Rightarrow> if lstat fs (butlast q) = Some Directory then Some (put_file fs q t) else None
      | _ \<Rightarrow> None)"

text \<open>\<open>mkdir(parents=True, exist_ok=True)\<close>.\<close>

function make_dirs :: "files \<Rightarrow> components \<Rightarrow> files option" where
  "make_dirs fs p =
     (case kernel_open fs p of
        Opened q Directory \<Rightarrow> Some fs
      | No_entry q \<Rightarrow>
          (if p = [] then None
           else if lstat fs p \<noteq> None then None
           else case make_dirs fs (butlast p) of
             None \<Rightarrow> None
           | Some fs1 \<Rightarrow>
               (case kernel_open fs1 p of
                  No_entry q1 \<Rightarrow> Some (AList.update q1 Directory fs1)
                | _ \<Rightarrow> None))
      | _ \<Rightarrow> None)"
  by pat_completeness auto
termination
  by (relation "measure (\<lambda>(fs, p). length p)") auto

declare make_dirs.simps [simp del]

text \<open>Reading text translates line ends.\<close>

fun universal_newlines :: "string \<Rightarrow> string" where
  "universal_newlines [] = []"
| "universal_newlines (c # cs) =
     (if c = CHR 0x0D then CHR 0x0A # universal_newlines (if cs \<noteq> [] \<and> hd cs = CHR 0x0A then tl cs else cs)
      else c # universal_newlines cs)"

section \<open>The file tools\<close>

definition max_read_chars :: nat where
  "max_read_chars = 60000"

definition fs_read :: "components \<Rightarrow> string \<Rightarrow> nat \<Rightarrow> files \<Rightarrow> tool_run" where
  "fs_read sandbox path offset fs =
     (case resolve_in_sandbox fs sandbox path of
        Resolve_raised \<Rightarrow> Crashed ''unresolvable path''
      | Violation t \<Rightarrow> Finished (failure t [])
      | Resolved p \<Rightarrow>
          (case kernel_open fs p of
             No_entry q \<Rightarrow> Finished (failure (path @ '' does not exist. Use fs.list to explore.'') [])
           | Opened q Directory \<Rightarrow> Finished (failure (path @ '' is a directory. Use fs.list instead.'') [])
           | Opened q (File raw) \<Rightarrow>
               (let t = universal_newlines raw; window = take max_read_chars (drop offset t);
                    truncated = (offset + length window < length t);
                    note = (if truncated then '' (truncated; continue with offset='' @ show_nat (offset + length window) @ '')'' else [])
                in Finished (success (''Read '' @ show_nat (length window) @ '' chars from '' @ path @ note)
                     [(''content'', JStr window), (''truncated'', JBool truncated)]))
           | _ \<Rightarrow> Crashed ''unreadable path''))"

definition fs_write :: "components \<Rightarrow> string \<Rightarrow> string \<Rightarrow> files \<Rightarrow> tool_run \<times> files" where
  "fs_write sandbox path content fs =
     (case resolve_in_sandbox fs sandbox path of
        Resolve_raised \<Rightarrow> (Crashed ''unresolvable path'', fs)
      | Violation t \<Rightarrow> (Finished (failure t []), fs)
      | Resolved p \<Rightarrow>
          (case make_dirs fs (butlast p) of
             None \<Rightarrow> (Crashed ''no directory'', fs)
           | Some fs1 \<Rightarrow>
               (case write_text fs1 p content of
                  None \<Rightarrow> (Crashed ''not writable'', fs1)
                | Some fs2 \<Rightarrow>
                    (Finished (success (''Wrote '' @ show_nat (length content) @ '' chars to '' @ path) []), fs2))))"

definition children :: "files \<Rightarrow> components \<Rightarrow> string list" where
  "children fs q = map (\<lambda>(p, e). last p) (filter (\<lambda>(p, e). p \<noteq> [] \<and> butlast p = q) fs)"

definition is_dir :: "files \<Rightarrow> components \<Rightarrow> bool" where
  "is_dir fs p = (case kernel_open fs p of Opened q Directory \<Rightarrow> True | _ \<Rightarrow> False)"

definition fs_list :: "components \<Rightarrow> string \<Rightarrow> files \<Rightarrow> tool_run" where
  "fs_list sandbox path fs =
     (case resolve_in_sandbox fs sandbox path of
        Resolve_raised \<Rightarrow> Crashed ''unresolvable path''
      | Violation t \<Rightarrow> Finished (failure t [])
      | Resolved p \<Rightarrow>
          (case kernel_open fs p of
             Opened q Directory \<Rightarrow>
               (let entries = take 500 (sort (map (\<lambda>n. if is_dir fs (q @ [n]) then n @ ''/'' else n) (children fs q)))
                in Finished (success (show_nat (length entries) @ '' entries in '' @ path) [(''entries'', JList (map JStr entries))]))
           | Opened q e \<Rightarrow> Finished (failure (path @ '' is a file. Use fs.read instead.'') [])
           | _ \<Rightarrow> Finished (failure (path @ '' does not exist.'') [])))"

text \<open>\<open>str.count\<close> and \<open>str.replace(find, new, 1)\<close>: occurrences that do not overlap.\<close>

function occurrences :: "string \<Rightarrow> string \<Rightarrow> nat" where
  "occurrences p t =
     (if p = [] \<or> t = [] then 0
      else if starts_with p t then Suc (occurrences p (drop (length p) t)) else occurrences p (tl t))"
  by pat_completeness auto
termination
  by (relation "measure (\<lambda>(p, t). length t)") auto

declare occurrences.simps [simp del]

fun replace_once :: "string \<Rightarrow> string \<Rightarrow> string \<Rightarrow> string" where
  "replace_once p new [] = []"
| "replace_once p new (c # cs) =
     (if starts_with p (c # cs) then new @ drop (length p) (c # cs) else c # replace_once p new cs)"

definition code_patch :: "components \<Rightarrow> string \<Rightarrow> string \<Rightarrow> string \<Rightarrow> files \<Rightarrow> tool_run \<times> files" where
  "code_patch sandbox path find_text new fs =
     (case resolve_in_sandbox fs sandbox path of
        Resolve_raised \<Rightarrow> (Crashed ''unresolvable path'', fs)
      | Violation t \<Rightarrow> (Finished (failure t []), fs)
      | Resolved p \<Rightarrow>
          (case kernel_open fs p of
             No_entry q \<Rightarrow> (Finished (failure (path @ '' does not exist. Create it with fs.write.'') []), fs)
           | Opened q (File raw) \<Rightarrow>
               (let t = universal_newlines raw; n = occurrences find_text t
                in if n = 0 then
                     (Finished (failure (''The '' @ quoted ''find'' @ '' text was not found in '' @ path @ ''. '' @
                        ''Read the file again and match the current content exactly.'') []), fs)
                   else if n > 1 then
                     (Finished (failure (''The '' @ quoted ''find'' @ '' text matches '' @ show_nat n @ '' places in '' @ path @ ''. '' @
                        ''Include more surrounding context to make it unique.'') []), fs)
                   else case write_text fs p (replace_once find_text new t) of
                     None \<Rightarrow> (Crashed ''not writable'', fs)
                   | Some fs1 \<Rightarrow> (Finished (success (''Patched '' @ path @ ''.'') []), fs1))
           | _ \<Rightarrow> (Crashed ''unreadable path'', fs)))"

section \<open>Git and the shell\<close>

text \<open>
  A process is started in the directory of the session and runs to its end: its exit code and its
  output; \<open>None\<close> when it cannot be started.
\<close>

type_synonym 's git_run = "components \<Rightarrow> string list \<Rightarrow> 's \<Rightarrow> (int \<times> string) option \<times> 's"

definition output_cap :: nat where
  "output_cap = 20000"

definition tail_chars :: "nat \<Rightarrow> string \<Rightarrow> string" where
  "tail_chars n t = drop (length t - n) t"

definition git :: "'s git_run \<Rightarrow> components \<Rightarrow> string list \<Rightarrow> 's \<Rightarrow> (int \<times> string) option \<times> 's" where
  "git run sandbox argv s =
     (case run sandbox (''git'' # argv) s of
        (None, s1) \<Rightarrow> (None, s1)
      | (Some (code, out), s1) \<Rightarrow> (Some (code, tail_chars output_cap out), s1))"

definition or_else :: "string \<Rightarrow> string \<Rightarrow> string" where
  "or_else t alt = (if t = [] then alt else t)"

definition git_tool ::
  "'s git_run \<Rightarrow> components \<Rightarrow> string list \<Rightarrow> (string \<Rightarrow> string) \<Rightarrow> string \<Rightarrow> 's \<Rightarrow> tool_run \<times> 's" where
  "git_tool run sandbox argv failed done_text s =
     (case git run sandbox argv s of
        (None, s1) \<Rightarrow> (Crashed ''git is not installed'', s1)
      | (Some (code, out), s1) \<Rightarrow>
          (Finished (if code \<noteq> 0 then failure (failed (strip out)) [] else success done_text [(''output'', JStr out)]), s1))"

definition git_status :: "'s git_run \<Rightarrow> components \<Rightarrow> 's \<Rightarrow> tool_run \<times> 's" where
  "git_status run sandbox = git_tool run sandbox [''status'', ''--short'', ''--branch'']
     (\<lambda>out. ''git status failed: '' @ or_else out ''not a git repository'' @ ''. Run '' @ quoted ''git init'' @
        '' via shell.run first if needed.'') ''git status''"

definition git_diff :: "'s git_run \<Rightarrow> components \<Rightarrow> string \<Rightarrow> 's \<Rightarrow> tool_run \<times> 's" where
  "git_diff run sandbox ref = git_tool run sandbox (if ref = [] then [''diff''] else [''diff'', ref])
     (\<lambda>out. ''git diff failed: '' @ out) (''git diff'' @ (if ref = [] then [] else '' '' @ ref))"

definition git_log :: "'s git_run \<Rightarrow> components \<Rightarrow> 's \<Rightarrow> tool_run \<times> 's" where
  "git_log run sandbox = git_tool run sandbox [''log'', ''--oneline'', ''-20''] (\<lambda>out. ''git log failed: '' @ out) ''last 20 commits''"

definition git_commit :: "'s git_run \<Rightarrow> components \<Rightarrow> string \<Rightarrow> bool \<Rightarrow> 's \<Rightarrow> tool_run \<times> 's" where
  "git_commit run sandbox message add_all s =
     (let commit = git_tool run sandbox [''commit'', ''-m'', message]
            (\<lambda>out. ''git commit failed: '' @ or_else out ''nothing to commit'') ''Committed''
      in if \<not> add_all then commit s
         else case git run sandbox [''add'', ''-A''] s of
           (None, s1) \<Rightarrow> (Crashed ''git is not installed'', s1)
         | (Some (code, out), s1) \<Rightarrow>
             if code \<noteq> 0 then (Finished (failure (''git add failed: '' @ strip out) []), s1) else commit s1)"

text \<open>A shell command ends with its exit code and outputs, or is killed after its time.\<close>

datatype shell_run = Exited int string string | Killed | Not_started

definition denied_prefixes :: "string list" where
  "denied_prefixes = [''sudo'', ''su '', ''shutdown'', ''reboot'', ''mkfs'', ''mount'', ''umount'']"

definition shell_outcome :: "string \<Rightarrow> int \<Rightarrow> string \<Rightarrow> string \<Rightarrow> tool_outcome" where
  "shell_outcome stripped code out err =
     (let summary = ''Exit '' @ show_int code @ '': '' @ take 120 stripped
      in \<lparr>to_ok = (code = 0), to_summary = (if code = 0 then summary else summary @ '' '' @ em_dash @ '' inspect stderr and adjust.''),
          to_data = [(''exit_code'', JInt code), (''stdout'', JStr (tail_chars output_cap out)),
            (''stderr'', JStr (tail_chars output_cap err))]\<rparr>)"

definition shell_tool ::
  "(components \<Rightarrow> string \<Rightarrow> real \<Rightarrow> 's \<Rightarrow> shell_run \<times> 's) \<Rightarrow> components \<Rightarrow> string \<Rightarrow> real \<Rightarrow> 's \<Rightarrow> tool_run \<times> 's" where
  "shell_tool sh sandbox command timeout s =
     (let stripped = strip command in
      if list_ex (\<lambda>p. starts_with p stripped) denied_prefixes then
        (Finished (failure (''That command class is blocked by platform policy. '' @
           ''Work within the session workspace instead.'') []), s)
      else case sh sandbox command timeout s of
        (Not_started, s1) \<Rightarrow> (Crashed ''no shell'', s1)
      | (Killed, s1) \<Rightarrow>
          (Finished (failure (''Command timed out after '' @ show_fixed0 timeout @ ''s and was killed. '' @
             ''Run something shorter or raise timeout_seconds.'') []), s1)
      | (Exited code out err, s1) \<Rightarrow> (Finished (shell_outcome stripped code out err), s1))"

end
