(* ===== verification/Sandbox_Props.thy ===== *)
theory Sandbox_Props
  imports Sandbox
begin

text \<open>
  What the sandbox promises: while no loop of links is met, a path that is accepted names a file
  below the directory of the session and no link is left in it, so what is opened is that file.  A
  loop of links defeats the check.
\<close>

section \<open>Resolved paths\<close>

text \<open>No component of the path is a link, and none is empty or a dot.\<close>

definition plain_name :: "string \<Rightarrow> bool" where
  "plain_name n = (n \<noteq> [] \<and> n \<noteq> ''.'' \<and> n \<noteq> ''..'')"

definition is_link :: "files \<Rightarrow> components \<Rightarrow> bool" where
  "is_link fs p = (case lstat fs p of Some (Link t) \<Rightarrow> True | _ \<Rightarrow> False)"

fun real_path :: "files \<Rightarrow> components \<Rightarrow> string list \<Rightarrow> bool" where
  "real_path fs path [] = True"
| "real_path fs path (n # ns) = (plain_name n \<and> \<not> is_link fs (path @ [n]) \<and> real_path fs (path @ [n]) ns)"

lemma real_path_snoc:
  "real_path fs path (ns @ [n]) = (real_path fs path ns \<and> plain_name n \<and> \<not> is_link fs (path @ ns @ [n]))"
  by (induction ns arbitrary: path) auto

lemma real_path_butlast: "real_path fs [] p \<Longrightarrow> real_path fs [] (butlast p)"
  by (cases p rule: rev_cases) (simp_all add: real_path_snoc)

lemma real_path_take: "real_path fs path p \<Longrightarrow> real_path fs path (take n p)"
  by (induction p arbitrary: path n) (auto simp: take_Cons')

definition seen_real :: "files \<Rightarrow> seen_links \<Rightarrow> bool" where
  "seen_real fs seen = (\<forall>l p. map_of seen l = Some (Some p) \<longrightarrow> real_path fs [] p)"

lemma seen_real_Cons: "seen_real fs seen \<Longrightarrow> (\<And>p. v = Some p \<Longrightarrow> real_path fs [] p) \<Longrightarrow> seen_real fs ((l, v) # seen)"
  by (auto simp: seen_real_def)

lemma walk_real:
  "walk fs seen path items = (q, True) \<Longrightarrow> real_path fs [] path \<Longrightarrow> seen_real fs seen \<Longrightarrow> real_path fs [] q"
proof (induction fs seen path items rule: walk.induct)
  case (2 fs seen path l rest)
  then show ?case by (auto intro!: seen_real_Cons)
next
  case (3 fs seen path n rest)
  consider "n = [] \<or> n = ''.''" | "n = ''..''" | "plain_name n" by (auto simp: plain_name_def)
  then show ?case
  proof cases
    case 1
    then show ?thesis using 3 by auto
  next
    case 2
    then show ?thesis using 3 real_path_butlast by auto
  next
    case plain: 3
    then have name: "n \<noteq> [] \<and> n \<noteq> ''.''" "n \<noteq> ''..''" by (auto simp: plain_name_def)
    show ?thesis
    proof (cases "is_link fs (path @ [n])")
      case False
      then have "walk fs seen (path @ [n]) rest = (q, True)" "real_path fs [] (path @ [n])"
        using "3.prems" name plain by (auto simp: is_link_def real_path_snoc split: option.splits entry.splits)
      moreover have "\<And>t. lstat fs (path @ [n]) \<noteq> Some (Link t)" using False by (auto simp: is_link_def)
      ultimately show ?thesis using "3.IH" "3.prems"(3) name
        by (cases "lstat fs (path @ [n])"; cases "the (lstat fs (path @ [n]))") auto
    next
      case True
      then obtain t where t: "lstat fs (path @ [n]) = Some (Link t)"
        by (auto simp: is_link_def split: option.splits entry.splits)
      show ?thesis
      proof (cases "map_of seen (path @ [n])")
        case None
        have "real_path fs [] (if is_absolute t then [] else path)" using "3.prems"(2) by simp
        moreover have "seen_real fs ((path @ [n], None) # seen)" using "3.prems"(3) by (rule seen_real_Cons) simp
        ultimately show ?thesis using "3.IH" "3.prems"(1) name t None by auto
      next
        case (Some v)
        then show ?thesis using "3.IH" "3.prems" name t by (cases v) (auto simp: seen_real_def)
      qed
    qed
  qed
qed simp

lemma walk_real_path: "real_path fs path p \<Longrightarrow> walk fs seen path (map Go p) = (path @ p, True)"
proof (induction p arbitrary: path)
  case (Cons n p)
  then show ?case by (auto simp: plain_name_def is_link_def split: option.splits entry.splits)
qed simp

lemma normalise_plain: "list_all plain_name p \<Longrightarrow> normalise path p = path @ p"
  by (induction p arbitrary: path) (auto simp: plain_name_def)

lemma real_path_plain: "real_path fs path p \<Longrightarrow> list_all plain_name p"
  by (induction p arbitrary: path) auto

lemma realpath_real: "real_path fs [] p \<Longrightarrow> realpath fs p = (p, True)"
  using walk_real_path [of fs "[]" p "[]"] normalise_plain [OF real_path_plain, of fs "[]" p "[]"] by (simp add: realpath_def)

lemma realpath_result:
  assumes "realpath fs p = (q, True)"
  shows "real_path fs [] q"
proof -
  obtain r where r: "walk fs [] [] (map Go p) = (r, True)" "q = normalise [] r"
    using assms by (auto simp: realpath_def split: prod.splits)
  have real: "real_path fs [] r" by (rule walk_real [OF r(1)]) (simp_all add: seen_real_def)
  then show ?thesis using r(2) normalise_plain [OF real_path_plain [OF real], of "[]"] by simp
qed

lemma open_real:
  assumes "real_path fs [] p"
  shows "kernel_open fs p = Opened q e \<Longrightarrow> q = p \<and> lstat fs p = Some e" "kernel_open fs p = No_entry q \<Longrightarrow> q = p \<and> lstat fs p = None"
  using realpath_real [OF assms] by (auto simp: kernel_open_def split: option.splits if_splits)

lemma resolved_real:
  assumes "resolve_in_sandbox fs sandbox relative = Resolved p" and "realpath fs sandbox = (base, True)"
    and "snd (realpath fs (target_path base relative))"
  shows "real_path fs [] p \<and> inside base p"
proof -
  have "resolve_path fs sandbox = Some base"
    using assms(2) realpath_real [OF realpath_result [OF assms(2)]] by (simp add: resolve_path_def)
  then have p: "resolve_path fs (target_path base relative) = Some p" "inside base p"
    using assms(1) by (auto simp: resolve_in_sandbox_def split: if_splits option.splits)
  then have "realpath fs (target_path base relative) = (p, True)"
    using assms(3) by (auto simp: resolve_path_def split: if_splits intro: prod_eqI)
  then show ?thesis using realpath_result p(2) by blast
qed

section \<open>Writing stays inside\<close>

text \<open>A change that touches entries below \<open>base\<close> only, and makes no links.\<close>

definition below_only :: "components \<Rightarrow> files \<Rightarrow> files \<Rightarrow> bool" where
  "below_only base fs fs' = (\<forall>q. (\<not> inside base q \<longrightarrow> lstat fs' q = lstat fs q) \<and>
     (\<forall>t. lstat fs' q = Some (Link t) \<longleftrightarrow> lstat fs q = Some (Link t)))"

lemma below_only_refl [simp]: "below_only base fs fs"
  by (simp add: below_only_def)

lemma below_only_trans: "below_only base fs fs' \<Longrightarrow> below_only base fs' fs'' \<Longrightarrow> below_only base fs fs''"
  by (simp add: below_only_def)

lemma is_link_iff: "is_link fs q \<longleftrightarrow> (\<exists>t. lstat fs q = Some (Link t))"
  by (auto simp: is_link_def split: option.splits entry.splits)

lemma below_only_links: "below_only base fs fs' \<Longrightarrow> is_link fs' q = is_link fs q"
  by (simp add: below_only_def is_link_iff)

lemma below_only_real: "below_only base fs fs' \<Longrightarrow> real_path fs' path p = real_path fs path p"
  by (induction p arbitrary: path) (simp_all add: below_only_links)

lemma lstat_update: "lstat (AList.update q e fs) p = (if p = q \<and> p \<noteq> [] then Some e else lstat fs p)"
  by (auto simp: lstat_def update_conv')

lemma below_only_update:
  "inside base q \<Longrightarrow> \<not> is_link fs q \<Longrightarrow> (\<And>t. e \<noteq> Link t) \<Longrightarrow> below_only base fs (AList.update q e fs)"
  by (auto simp: below_only_def lstat_update is_link_def)

lemma not_link_real: "real_path fs [] p \<Longrightarrow> \<not> is_link fs p"
  by (cases p rule: rev_cases) (simp_all add: real_path_snoc is_link_def lstat_def)

lemma inside_butlast: "inside base p \<Longrightarrow> p \<noteq> base \<Longrightarrow> inside base (butlast p)"
proof -
  assume a: "inside base p" "p \<noteq> base"
  then have "length base < length p" by (metis inside_def le_less_linear take_all)
  then show ?thesis using a(1) by (simp add: inside_def take_butlast)
qed

lemma make_dirs_below:
  "make_dirs fs p = Some fs' \<Longrightarrow> real_path fs [] p \<Longrightarrow> inside base p \<or> lstat fs p = Some Directory \<Longrightarrow>
   lstat fs base = Some Directory \<Longrightarrow> below_only base fs fs'"
proof (induction fs p arbitrary: fs' rule: make_dirs.induct)
  case (1 fs p)
  note real = "1.prems"(2)
  show ?case
  proof (cases "lstat fs p = None")
    case False
    then have "kernel_open fs p = Opened p (the (lstat fs p))"
      using realpath_real [OF real] by (auto simp: kernel_open_def)
    then have "fs' = fs" using "1.prems"(1) by (auto simp: make_dirs.simps [of fs p] split: entry.splits)
    then show ?thesis by simp
  next
    case True
    then obtain fs1 q1 where q: "kernel_open fs p = No_entry p" and ne: "p \<noteq> []" and fs1: "make_dirs fs (butlast p) = Some fs1"
      and q1: "kernel_open fs1 p = No_entry q1" and fs': "fs' = AList.update q1 Directory fs1"
      using "1.prems"(1) open_real [OF real]
      by (auto simp: make_dirs.simps [of fs p] split: opened.splits entry.splits option.splits if_splits)
    have in_p: "inside base p" using "1.prems"(3) True by simp
    have "p \<noteq> base" using True "1.prems"(4) by auto
    then have "inside base (butlast p)" using in_p by (rule inside_butlast [rotated])
    then have ext: "below_only base fs fs1"
      using "1.IH" [OF q ne _ fs1] True real_path_butlast [OF real] "1.prems"(4) by simp
    have real1: "real_path fs1 [] p" using below_only_real [OF ext] real by simp
    then have "q1 = p" using open_real(2) q1 by blast
    then show ?thesis using fs' ext in_p not_link_real [OF real1] below_only_update below_only_trans by blast
  qed
qed

lemma write_text_below:
  assumes "write_text fs p t = Some fs'" and "real_path fs [] p" and "inside base p"
  shows "below_only base fs fs' \<and> (p \<noteq> [] \<longrightarrow> lstat fs' p = Some (File t))"
proof -
  have "fs' = AList.update p (File t) fs"
    using assms(1) open_real [OF assms(2)]
    by (auto simp: write_text_def put_file_def split: opened.splits entry.splits if_splits)
  then show ?thesis using assms(3) not_link_real [OF assms(2)] by (auto simp: lstat_update intro!: below_only_update)
qed

text \<open>The directory of the session exists, with its ancestors.\<close>

definition directory_chain :: "files \<Rightarrow> components \<Rightarrow> bool" where
  "directory_chain fs base = list_all (\<lambda>i. lstat fs (take i base) = Some Directory) [0..<Suc (length base)]"

lemma chain_facts:
  assumes "directory_chain fs base"
  shows "lstat fs base = Some Directory" "lstat fs (butlast base) = Some Directory"
proof -
  have d: "lstat fs (take i base) = Some Directory" if "i \<le> length base" for i
    using assms that by (auto simp: directory_chain_def list_all_iff)
  show "lstat fs base = Some Directory" "lstat fs (butlast base) = Some Directory"
    using d [of "length base"] d [of "length base - 1"] by (simp_all add: butlast_conv_take)
qed

text \<open>C24.  A session writes inside its own directory: whatever path the file tools are given, absolute, with
  double dots or through links, every entry outside the directory is what it was, unless the
  resolution of the path runs into a loop of links.\<close>

theorem sandbox_contains_writes:
  assumes "realpath fs sandbox = (base, True)" and "directory_chain fs base"
    and "snd (realpath fs (target_path base path))"
    and "fs' = snd (fs_write sandbox path content fs) \<or> fs' = snd (code_patch sandbox path old new fs)" and "\<not> inside base q"
  shows "lstat fs' q = lstat fs q"
proof (cases "resolve_in_sandbox fs sandbox path")
  case (Resolved p)
  note rp = resolved_real [OF Resolved assms(1,3)]
  have dirs: "below_only base fs fs1" if "make_dirs fs (butlast p) = Some fs1" for fs1
  proof (rule make_dirs_below [OF that real_path_butlast])
    show "inside base (butlast p) \<or> lstat fs (butlast p) = Some Directory"
      using rp inside_butlast chain_facts [OF assms(2)] by (cases "p = base") auto
  qed (use rp chain_facts [OF assms(2)] in auto)
  have "below_only base fs (snd (fs_write sandbox path content fs))"
  proof (cases "make_dirs fs (butlast p)")
    case (Some fs1)
    have "below_only base fs1 fs2" if "write_text fs1 p content = Some fs2" for fs2
      using write_text_below [OF that] below_only_real [OF dirs [OF Some]] rp by blast
    then show ?thesis using Resolved Some dirs [OF Some] below_only_trans
      by (auto simp: fs_write_def split: option.splits)
  qed (simp add: fs_write_def Resolved)
  moreover have "below_only base fs (snd (code_patch sandbox path old new fs))"
    using Resolved write_text_below [OF _ conjunct1 [OF rp] conjunct2 [OF rp]]
    by (auto simp: code_patch_def Let_def split: opened.splits entry.splits option.splits)
  ultimately show ?thesis using assms(4,5) by (auto simp: below_only_def)
qed (use assms(4) in \<open>auto simp: fs_write_def code_patch_def\<close>)

text \<open>Resolving looks at links only.\<close>

lemma walk_plain:
  "\<not> is_link g (path @ [n]) \<Longrightarrow> n \<noteq> [] \<Longrightarrow> n \<noteq> ''.'' \<Longrightarrow> n \<noteq> ''..'' \<Longrightarrow>
   walk g seen path (Go n # rest) = walk g seen (path @ [n]) rest"
  by (auto simp: is_link_def split: option.splits entry.splits)

lemma walk_cong:
  "(\<And>q t. lstat fs' q = Some (Link t) \<longleftrightarrow> lstat fs q = Some (Link t)) \<Longrightarrow> walk fs' seen path items = walk fs seen path items"
proof (induction fs seen path items rule: walk.induct)
  case (3 fs seen path n rest)
  note same = "3.prems"
  consider "n = [] \<or> n = ''.''" | "n = ''..''" | "\<not> (n = [] \<or> n = ''.'')" "n \<noteq> ''..''" by blast
  then show ?case
  proof cases
    case 1
    then show ?thesis using "3.IH"(1) [OF 1 same] by simp
  next
    case 2
    then show ?thesis using "3.IH"(2) [OF _ 2 same] by simp
  next
    case name: 3
    show ?thesis
    proof (cases "\<exists>t. lstat fs (path @ [n]) = Some (Link t)")
      case True
      then obtain t where t: "lstat fs (path @ [n]) = Some (Link t)" "lstat fs' (path @ [n]) = Some (Link t)"
        using same by blast
      note IH = "3.IH"(6) [OF name t(1) refl _ same] "3.IH"(7) [OF name t(1) refl _ _ same]
      show ?thesis
      proof (cases "map_of seen (path @ [n])")
        case None
        then show ?thesis using IH(1) t name by simp
      next
        case (Some v)
        then show ?thesis using IH(2) t name by (cases v) simp_all
      qed
    next
      case False
      then have none: "\<not> is_link fs (path @ [n])" "\<not> is_link fs' (path @ [n])" using same by (simp_all add: is_link_iff)
      have "walk fs' seen (path @ [n]) rest = walk fs seen (path @ [n]) rest"
      proof (cases "lstat fs (path @ [n])")
        case None
        then show ?thesis using "3.IH"(3) [OF name _ same] by blast
      next
        case (Some e)
        then show ?thesis using "3.IH"(4) [OF name Some _ same] "3.IH"(5) [OF name Some _ same] False
          by (cases e) blast+
      qed
      then show ?thesis using walk_plain [OF none(1)] walk_plain [OF none(2)] name by presburger
    qed
  qed
qed simp_all

lemma resolve_cong:
  assumes "below_only base fs fs'"
  shows "realpath fs' q = realpath fs q" "resolve_in_sandbox fs' sandbox relative = resolve_in_sandbox fs sandbox relative"
proof -
  have same: "walk fs' seen path items = walk fs seen path items" for seen path items
    using assms by (intro walk_cong) (simp add: below_only_def)
  show "realpath fs' q = realpath fs q" for q by (simp add: realpath_def same)
  then show "resolve_in_sandbox fs' sandbox relative = resolve_in_sandbox fs sandbox relative"
    by (simp add: resolve_in_sandbox_def resolve_path_def)
qed

text \<open>What has been written is what is read back: after a successful \<open>fs.write\<close>, \<open>fs.read\<close> of the same
  path gives the content, up to the line ends that reading translates and the limit of one read.\<close>

theorem written_then_read:
  assumes "realpath fs sandbox = (base, True)" and "directory_chain fs base"
    and "snd (realpath fs (target_path base path))"
    and "fs_write sandbox path content fs = (Finished out, fs')" and "to_ok out"
  shows "\<exists>t. fs_read sandbox path 0 fs' = Finished (success t [(''content'', JStr (take max_read_chars (universal_newlines content))),
    (''truncated'', JBool (max_read_chars < length (universal_newlines content)))])"
proof -
  obtain p where p: "resolve_in_sandbox fs sandbox path = Resolved p"
    using assms(4,5) by (auto simp: fs_write_def failure_def split: resolution.splits)
  note rp = resolved_real [OF p assms(1,3)]
  obtain fs1 where fs1: "make_dirs fs (butlast p) = Some fs1" and w: "write_text fs1 p content = Some fs'"
    using assms(4) p by (auto simp: fs_write_def split: option.splits)
  have "inside base (butlast p) \<or> lstat fs (butlast p) = Some Directory"
    using rp inside_butlast chain_facts [OF assms(2)] by (cases "p = base") auto
  then have ext: "below_only base fs fs1"
    using make_dirs_below [OF fs1 real_path_butlast] rp chain_facts [OF assms(2)] by blast
  have real1: "real_path fs1 [] p" using below_only_real [OF ext] rp by simp
  have ext2: "below_only base fs1 fs'" and written: "p \<noteq> [] \<longrightarrow> lstat fs' p = Some (File content)"
    using write_text_below [OF w real1] rp by auto
  have "p \<noteq> []"
  proof
    assume "p = []"
    then have "kernel_open fs1 p = Opened [] Directory" by (simp add: kernel_open_def realpath_def lstat_def)
    then show False using w by (simp add: write_text_def)
  qed
  have all: "below_only base fs fs'" using ext ext2 by (rule below_only_trans)
  have real': "real_path fs' [] p" using below_only_real [OF all] rp by simp
  have "kernel_open fs' p = Opened p (File content)"
    using realpath_real [OF real'] written \<open>p \<noteq> []\<close> by (simp add: kernel_open_def)
  then show ?thesis using p resolve_cong(2) [OF all]
    by (auto simp: fs_read_def Let_def min_def not_less intro!: exI)
qed

section \<open>Where containment ends\<close>

text \<open>A name that a directory can hold and that a path can spell.\<close>

definition spelled :: "string \<Rightarrow> bool" where
  "spelled n = (plain_name n \<and> CHR ''/'' \<notin> set n \<and> CHR 0x00 \<notin> set n)"

lemma spelled_names [simp]: "spelled n \<Longrightarrow> names n = [Go n] \<and> \<not> is_absolute n \<and> split_on (CHR ''/'') n = [n]"
  by (cases n) (auto simp: spelled_def names_def is_absolute_def starts_with_def split_on_plain)

lemma spelled_plain: "spelled n \<Longrightarrow> n \<noteq> [] \<and> n \<noteq> ''.'' \<and> n \<noteq> ''..''"
  by (simp add: spelled_def plain_name_def)

lemma walk_real_prefix:
  "real_path fs path p \<Longrightarrow> walk fs seen path (map Go p @ rest) = walk fs seen (path @ p) rest"
proof (induction p arbitrary: path)
  case (Cons n p)
  then show ?case using walk_plain [of fs path n] by (auto simp: plain_name_def)
qed simp

lemma normalise_append: "normalise path (p @ q) = normalise (normalise path p) q"
  by (induction p arbitrary: path) auto

text \<open>
  A directory with two links: one that leads to itself, and one that leads to a directory outside
  that holds a file.
\<close>

record burrow =
  bw_base :: components
  bw_loop :: string
  bw_link :: string
  bw_text :: string
  bw_dir :: components
  bw_name :: string
  bw_content :: string

definition burrowed :: "files \<Rightarrow> burrow \<Rightarrow> bool" where
  "burrowed fs b =
     (spelled (bw_loop b) \<and> spelled (bw_link b) \<and> spelled (bw_name b) \<and> real_path fs [] (bw_base b) \<and>
      lstat fs (bw_base b @ [bw_loop b]) = Some (Link (bw_loop b)) \<and> lstat fs (bw_base b @ [bw_link b]) = Some (Link (bw_text b)) \<and>
      names (bw_text b) = map Go ([] # bw_dir b) \<and> is_absolute (bw_text b) \<and> real_path fs [] (bw_dir b @ [bw_name b]) \<and>
      lstat fs (bw_dir b) = Some Directory \<and> lstat fs (bw_dir b @ [bw_name b]) = Some (File (bw_content b)) \<and>
      \<not> inside (bw_base b) (bw_dir b @ [bw_name b]))"

definition straight :: "burrow \<Rightarrow> string" where
  "straight b = bw_link b @ ''/'' @ bw_name b"

definition detour :: "burrow \<Rightarrow> string" where
  "detour b = bw_loop b @ ''/../'' @ straight b"

lemma burrow_targets:
  assumes "burrowed fs b"
  shows "target_path (bw_base b) (straight b) = bw_base b @ [bw_link b, bw_name b]"
    "target_path (bw_base b) (detour b) = bw_base b @ [bw_loop b, ''..'', bw_link b, bw_name b]"
    "CHR 0x00 \<notin> set (straight b)" "CHR 0x00 \<notin> set (detour b)"
    "\<not> starts_with ''//'' (straight b)" "\<not> starts_with ''//'' (detour b)"
proof -
  have sp: "spelled (bw_loop b)" "spelled (bw_link b)" "spelled (bw_name b)" using assms by (simp_all add: burrowed_def)
  have s: "split_on (CHR ''/'') (straight b) = [bw_link b, bw_name b]"
    using sp by (simp add: straight_def split_on_append spelled_def split_on_plain)
  have d: "split_on (CHR ''/'') (detour b) = bw_loop b # ''..'' # split_on (CHR ''/'') (straight b)"
    using sp(1) split_on_append [of "CHR ''/''" "bw_loop b" "''../'' @ straight b"] split_on_append [of "CHR ''/''" "''..''" "straight b"]
    by (simp add: detour_def spelled_def)
  have rel: "\<not> is_absolute (straight b) \<and> \<not> starts_with ''//'' (straight b)" "\<not> is_absolute (detour b) \<and> \<not> starts_with ''//'' (detour b)"
    using sp(1,2) by (cases "bw_link b"; cases "bw_loop b"; auto simp: spelled_def plain_name_def straight_def detour_def is_absolute_def starts_with_def)+
  show "target_path (bw_base b) (straight b) = bw_base b @ [bw_link b, bw_name b]"
    "target_path (bw_base b) (detour b) = bw_base b @ [bw_loop b, ''..'', bw_link b, bw_name b]"
    using rel s d spelled_plain sp by (simp_all add: target_path_def parts_def)
  show "CHR 0x00 \<notin> set (straight b)" "CHR 0x00 \<notin> set (detour b)"
    using sp by (auto simp: straight_def detour_def spelled_def)
  show "\<not> starts_with ''//'' (straight b)" "\<not> starts_with ''//'' (detour b)" using rel by simp_all
qed

text \<open>Through the link the path leads outside; behind the loop it is compared as it is spelled.\<close>

lemma burrow_link_walk:
  assumes "burrowed fs b"
  shows "walk fs [] [] (map Go (bw_base b @ bw_link b # rest)) =
    walk fs [(bw_base b @ [bw_link b], Some (bw_dir b)), (bw_base b @ [bw_link b], None)] (bw_dir b) (map Go rest)"
proof -
  have dir: "real_path fs [] (bw_dir b)" using assms by (simp add: burrowed_def real_path_snoc)
  have "walk fs [] [] (map Go (bw_base b @ bw_link b # rest)) = walk fs [] (bw_base b) (Go (bw_link b) # map Go rest)"
    using assms walk_real_prefix [of fs "[]" "bw_base b"] by (simp add: burrowed_def)
  also have "\<dots> = walk fs [(bw_base b @ [bw_link b], None)] [] (map Go (bw_dir b) @ Mark (bw_base b @ [bw_link b]) # map Go rest)"
    using assms spelled_plain [of "bw_link b"] by (auto simp: burrowed_def)
  finally show ?thesis using walk_real_prefix [OF dir] by simp
qed

lemma burrow_realpaths:
  assumes "burrowed fs b"
  shows "realpath fs (bw_base b) = (bw_base b, True)" "realpath fs (bw_base b @ [bw_link b]) = (bw_dir b, True)"
    "realpath fs (bw_base b @ [bw_link b, bw_name b]) = (bw_dir b @ [bw_name b], True)"
    "realpath fs (bw_base b @ [bw_loop b, ''..'', bw_link b, bw_name b]) = (bw_base b @ [bw_link b, bw_name b], False)"
proof -
  have real: "real_path fs [] (bw_base b)" "real_path fs [] (bw_dir b)" "real_path fs [] (bw_dir b @ [bw_name b])"
    using assms by (simp_all add: burrowed_def real_path_snoc)
  note plain = this [THEN real_path_plain, THEN normalise_plain, of "[]"]
  show "realpath fs (bw_base b) = (bw_base b, True)" by (rule realpath_real [OF real(1)])
  show "realpath fs (bw_base b @ [bw_link b]) = (bw_dir b, True)"
    using burrow_link_walk [OF assms, of "[]"] plain by (simp add: realpath_def)
  have name: "\<not> is_link fs (bw_dir b @ [bw_name b])" "plain_name (bw_name b)" using real(3) by (simp_all add: real_path_snoc)
  show "realpath fs (bw_base b @ [bw_link b, bw_name b]) = (bw_dir b @ [bw_name b], True)"
    using burrow_link_walk [OF assms, of "[bw_name b]"] plain(3) walk_plain [OF name(1)] name(2) by (simp add: realpath_def plain_name_def)
  let ?rest = "[''..'', bw_link b, bw_name b]"
  have "walk fs [] [] (map Go (bw_base b @ bw_loop b # ?rest)) = walk fs [] (bw_base b) (map Go (bw_loop b # ?rest))"
    using walk_real_prefix [OF real(1)] by simp
  also have "\<dots> = (bw_base b @ bw_loop b # ?rest, False)"
    using assms spelled_plain [of "bw_loop b"] by (auto simp: burrowed_def join_level_def)
  finally show "realpath fs (bw_base b @ [bw_loop b, ''..'', bw_link b, bw_name b]) = (bw_base b @ [bw_link b, bw_name b], False)"
    using assms spelled_plain plain(1) by (simp add: realpath_def normalise_append burrowed_def)
qed

text \<open>C25.  A loop of links defeats the check.  In any directory with a link that leads to itself and a link that
  leads to a directory outside, the straight path to a file there is refused by reading and by
  writing; but with a detour over the loop the path is compared as text, passes, and both reach the
  file outside when it is opened.\<close>

theorem sandbox_escape_by_loop:
  assumes "burrowed fs b"
  shows "fs_read (bw_base b) (straight b) 0 fs = Finished (failure (violation (straight b)) []) \<and>
    fs_write (bw_base b) (straight b) t fs = (Finished (failure (violation (straight b)) []), fs) \<and>
    (\<exists>note shortened. fs_read (bw_base b) (detour b) 0 fs =
       Finished (success note [(''content'', JStr (take max_read_chars (universal_newlines (bw_content b)))), (''truncated'', JBool shortened)])) \<and>
    lstat (snd (fs_write (bw_base b) (detour b) t fs)) (bw_dir b @ [bw_name b]) = Some (File t)"
proof -
  note paths = burrow_realpaths [OF assms] and targets = burrow_targets [OF assms]
  have "\<not> inside (bw_base b) (bw_dir b @ [bw_name b])" and dir: "lstat fs (bw_dir b) = Some Directory"
    and entry: "lstat fs (bw_dir b @ [bw_name b]) = Some (File (bw_content b))"
    and real: "real_path fs [] (bw_dir b @ [bw_name b])" using assms by (simp_all add: burrowed_def)
  then have refused: "resolve_in_sandbox fs (bw_base b) (straight b) = Violation (violation (straight b))"
    by (simp add: resolve_in_sandbox_def resolve_path_def targets paths realpath_real)
  have passed: "resolve_in_sandbox fs (bw_base b) (detour b) = Resolved (bw_base b @ [bw_link b, bw_name b])"
    by (simp add: resolve_in_sandbox_def resolve_path_def targets paths inside_def)
  have opened: "kernel_open fs (bw_base b @ [bw_link b, bw_name b]) = Opened (bw_dir b @ [bw_name b]) (File (bw_content b))"
    and dir_opened: "kernel_open fs (bw_base b @ [bw_link b]) = Opened (bw_dir b) Directory"
    by (simp_all add: kernel_open_def paths entry dir)
  have "make_dirs fs (bw_base b @ [bw_link b]) = Some fs" by (simp add: make_dirs.simps [of fs] dir_opened)
  moreover have "write_text fs (bw_base b @ [bw_link b, bw_name b]) t = Some (put_file fs (bw_dir b @ [bw_name b]) t)"
    by (simp add: write_text_def opened)
  ultimately show ?thesis
    by (auto simp: refused passed opened fs_read_def fs_write_def Let_def put_file_def lstat_update butlast_append)
qed

section \<open>Instances\<close>

lemma show_small: "show_nat (Suc (Suc 0)) = ''2''" "show_nat (Suc (Suc (Suc (Suc 0)))) = ''4''"
  by code_simp+

definition trap :: files where
  "trap = [([''box''], Directory), ([''box'', ''l''], Link ''l''), ([''box'', ''out''], Link ''/etc''), ([''etc''], Directory),
     ([''etc'', ''passwd''], File ''root'')]"

definition trap_burrow :: burrow where
  "trap_burrow = \<lparr>bw_base = [''box''], bw_loop = ''l'', bw_link = ''out'', bw_text = ''/etc'', bw_dir = [''etc''], bw_name = ''passwd'',
     bw_content = ''root''\<rparr>"

lemma trap_burrowed: "burrowed trap trap_burrow"
  by (simp add: burrowed_def trap_burrow_def trap_def lstat_def spelled_def plain_name_def is_link_def names_def is_absolute_def
      starts_with_def inside_def)

theorem sandbox_escape_by_loop_witness:
  "lstat (snd (fs_write [''box''] ''l/../out/passwd'' ''mine'' trap)) [''etc'', ''passwd''] = Some (File ''mine'')"
  using sandbox_escape_by_loop [OF trap_burrowed, of "''mine''"] by (simp add: trap_burrow_def detour_def straight_def)

definition calm :: files where
  "calm = [([''box''], Directory), ([''box'', ''out''], Link ''/etc''), ([''etc''], Directory), ([''etc'', ''passwd''], File ''root'')]"

lemma calm_paths:
  "realpath calm [''box''] = ([''box''], True)"
  "realpath calm [''box'', ''n''] = ([''box'', ''n''], True)"
  "realpath calm [''box'', ''out'', ''passwd''] = ([''etc'', ''passwd''], True)"
  by (simp_all add: calm_def lstat_def realpath_def is_absolute_def names_def starts_with_def join_level_def)

lemma calm_target:
  "target_path [''box''] ''n'' = [''box'', ''n'']" "target_path [''box''] ''out/passwd'' = [''box'', ''out'', ''passwd'']"
  by code_simp+

lemma calm_chain: "directory_chain calm [''box'']"
  by (simp add: directory_chain_def calm_def lstat_def)

lemma sandbox_contains_writes_witness:
  "lstat (snd (fs_write [''box''] ''out/passwd'' ''mine'' calm)) [''etc'', ''passwd''] = lstat calm [''etc'', ''passwd'']"
  by (rule sandbox_contains_writes [where sandbox = "[''box'']" and base = "[''box'']" and path = "''out/passwd''"
        and content = "''mine''" and old = "[]" and new = "[]"])
     (simp_all add: calm_paths calm_target calm_chain inside_def)

lemma calm_write: "fs_write [''box''] ''n'' ''hi'' calm = (Finished (success ''Wrote 2 chars to n'' []), calm @ [([''box'', ''n''], File ''hi'')])"
proof -
  have "resolve_in_sandbox calm [''box''] ''n'' = Resolved [''box'', ''n'']"
    by (simp add: resolve_in_sandbox_def resolve_path_def calm_paths calm_target inside_def starts_with_def)
  moreover have "make_dirs calm [''box''] = Some calm"
    by (simp add: make_dirs.simps [of calm] kernel_open_def calm_paths) (simp add: calm_def lstat_def)
  moreover have "write_text calm [''box'', ''n''] ''hi'' = Some (calm @ [([''box'', ''n''], File ''hi'')])"
    by (simp add: write_text_def kernel_open_def calm_paths) (simp add: calm_def lstat_def put_file_def)
  ultimately show ?thesis by (simp add: fs_write_def show_small)
qed

lemma written_then_read_witness:
  "\<exists>t. fs_read [''box''] ''n'' 0 (calm @ [([''box'', ''n''], File ''hi'')]) =
     Finished (success t [(''content'', JStr (take max_read_chars (universal_newlines ''hi''))),
       (''truncated'', JBool (max_read_chars < length (universal_newlines ''hi'')))])"
  by (rule written_then_read [OF _ _ _ calm_write, where base = "[''box'']"])
     (simp_all add: calm_paths calm_target calm_chain success_def)

end
