(* ===== verification/Host_Tools.thy ===== *)
theory Host_Tools
  imports Guard Knowledge
begin

text \<open>
  \<open>tools/builtin/system.py\<close>, \<open>recall.py\<close>, \<open>delegate.py\<close> and \<open>web.py\<close>: the tools that show and
  change the host, search what the workspace knows, delegate and fetch pages.  The arguments are
  those pydantic has validated; the probes and operations are those of \<open>system/\<close>.
\<close>

section \<open>Reading the host\<close>

definition disabled_notice :: "string \<Rightarrow> tool_outcome" where
  "disabled_notice operation =
     failure (''System operations are disabled on this deployment, so '' @ operation @ '' is unavailable. '' @
       ''An operator can enable them with HOURSX_SYSTEM_OPS=true.'') []"

definition read_tool ::
  "string \<Rightarrow> ('h \<Rightarrow> tool_run) \<Rightarrow> system_policy \<Rightarrow> 'h sys \<Rightarrow> tool_run \<times> 'h sys" where
  "read_tool operation body p s =
     (if sp_enabled p then (body (outside s), s) else (Finished (disabled_notice operation), s))"

text \<open>\<open>value not in ("", None, [])\<close>; an uptime that is no finite number has no JSON value.\<close>

definition present :: "string \<times> json \<Rightarrow> bool" where
  "present kv = (snd kv \<notin> {JStr [], JNull, JList []})"

definition opt_number :: "number option \<Rightarrow> json" where
  "opt_number x = (case x of Some (Finite r) \<Rightarrow> JReal r | _ \<Rightarrow> JNull)"

definition opt_int :: "int option \<Rightarrow> json" where
  "opt_int x = (case x of None \<Rightarrow> JNull | Some i \<Rightarrow> JInt i)"

definition kernel_dict :: "kernel_facts \<Rightarrow> json_dict" where
  "kernel_dict f = filter present
     [(''kernel_release'', JStr (kf_release f)), (''kernel_version'', JStr (kf_version f)),
      (''architecture'', JStr (kf_architecture f)), (''hostname'', JStr (kf_hostname f)),
      (''distribution'', JStr (kf_distribution f)), (''uptime_seconds'', opt_number (kf_uptime f)),
      (''boot_command_line'', JStr (kf_command_line f)), (''cpu_count'', JInt (kf_cpu_count f)),
      (''page_size'', JInt (kf_page_size f)), (''container'', opt_str (kf_container f)),
      (''security_modules'', JList (map JStr (kf_security_modules f)))]"

definition kernel_info_tool :: "'h host_io \<Rightarrow> system_policy \<Rightarrow> 'h sys \<Rightarrow> tool_run \<times> 'h sys" where
  "kernel_info_tool io = read_tool ''kernel inspection''
     (\<lambda>h. let f = kernel_facts_of io h;
             where_text = (case kf_container f of None \<Rightarrow> [] | Some c \<Rightarrow> '' (inside '' @ c @ '')'')
         in Finished (success ((if kf_distribution f = [] then ''linux'' else kf_distribution f) @ '' kernel '' @ kf_release f @
              '' on '' @ kf_architecture f @ where_text) (kernel_dict f)))"

definition disk_dict :: "disk \<Rightarrow> json" where
  "disk_dict d = JObj
     [(''mountpoint'', JStr (dk_mountpoint d)), (''device'', JStr (dk_device d)), (''fstype'', JStr (dk_fstype d)),
      (''total_bytes'', JInt (dk_total d)), (''used_bytes'', JInt (dk_used d)), (''free_bytes'', JInt (dk_free d)),
      (''used_percent'', JReal (dk_used_percent d))]"

definition resource_dict :: "resource_snapshot \<Rightarrow> json_dict" where
  "resource_dict r = filter present
     [(''load_average'', case rs_load r of None \<Rightarrow> JNull | Some (a, b, c) \<Rightarrow> JList [JReal a, JReal b, JReal c]),
      (''memory_total_kb'', opt_int (rs_memory_total r)), (''memory_available_kb'', opt_int (rs_memory_available r)),
      (''swap_total_kb'', opt_int (rs_swap_total r)), (''swap_free_kb'', opt_int (rs_swap_free r)),
      (''process_count'', JInt (rs_process_count r)), (''open_file_descriptors'', opt_int (rs_open_files r)),
      (''file_descriptor_limit'', opt_int (rs_file_limit r)), (''disks'', JList (map disk_dict (rs_disks r)))]"

definition resources_tool :: "(real \<Rightarrow> string) \<Rightarrow> 'h host_io \<Rightarrow> system_policy \<Rightarrow> 'h sys \<Rightarrow> tool_run \<times> 'h sys" where
  "resources_tool rep io = read_tool ''resource inspection''
     (\<lambda>h. let r = resource_snapshot_of io h
         in Finished (success (''load '' @ (case rs_load r of None \<Rightarrow> ''?'' | Some (a, b, c) \<Rightarrow> rep a) @ '', memory '' @
              (case memory_used_percent r of None \<Rightarrow> ''?'' | Some x \<Rightarrow> rep x) @ ''% used, '' @
              show_int (rs_process_count r) @ '' processes'') (resource_dict r)))"

definition process_dict :: "process \<Rightarrow> json" where
  "process_dict p = JObj
     [(''pid'', JInt (ps_pid p)), (''name'', JStr (ps_name p)), (''state'', JStr (ps_state p)), (''ppid'', JInt (ps_ppid p)),
      (''threads'', JInt (ps_threads p)), (''rss_kb'', JInt (ps_rss_kb p)), (''uid'', JStr (ps_uid p)),
      (''cmdline'', JStr (ps_cmdline p))]"

definition processes_tool ::
  "'h host_io \<Rightarrow> int \<Rightarrow> string \<Rightarrow> system_policy \<Rightarrow> 'h sys \<Rightarrow> tool_run \<times> 'h sys" where
  "processes_tool io limit sort_by = read_tool ''process inspection''
     (\<lambda>h. case list_processes io limit sort_by h of
        None \<Rightarrow> Crashed ''invalid literal for int()''
      | Some rows \<Rightarrow>
          if rows = [] then Finished (failure ''/proc is not readable on this host'' [])
          else Finished (success (show_nat (length rows) @ '' processes by '' @ sort_by)
                 [(''processes'', JList (map process_dict rows))]))"

definition module_dict :: "kernel_module \<Rightarrow> json" where
  "module_dict m = JObj
     [(''name'', JStr (km_name m)), (''size_bytes'', JInt (km_size m)), (''use_count'', JInt (km_uses m)),
      (''used_by'', JList (map JStr (km_used_by m)))]"

definition modules_tool :: "'h host_io \<Rightarrow> system_policy \<Rightarrow> 'h sys \<Rightarrow> tool_run \<times> 'h sys" where
  "modules_tool io = read_tool ''module inspection''
     (\<lambda>h. let rows = loaded_modules io 200 h
         in if rows = [] then
              Finished (failure (''no loadable modules reported; this kernel may be monolithic, '' @
                ''or /proc/modules is restricted in this container'') [])
            else Finished (success (show_nat (length rows) @ '' kernel modules loaded'') [(''modules'', JList (map module_dict rows))]))"

definition kernel_log_tool :: "'h host_io \<Rightarrow> nat \<Rightarrow> system_policy \<Rightarrow> 'h sys \<Rightarrow> tool_run \<times> 'h sys" where
  "kernel_log_tool io lines = read_tool ''kernel log access''
     (\<lambda>h. case read_kernel_log io lines h of
        (False, t) \<Rightarrow> Finished (failure t [])
      | (True, t) \<Rightarrow> Finished (success (''last '' @ show_nat lines @ '' kernel log lines'') [(''log'', JStr t)]))"

definition text_dict :: "(string \<times> string) list \<Rightarrow> json" where
  "text_dict kvs = JObj (map (\<lambda>(k, v). (k, JStr v)) kvs)"

definition sysctl_read_tool :: "'h host_io \<Rightarrow> string \<Rightarrow> system_policy \<Rightarrow> 'h sys \<Rightarrow> tool_run \<times> 'h sys" where
  "sysctl_read_tool io key = read_tool ''sysctl inspection''
     (\<lambda>h. case read_sysctl io key h of
        Some exact \<Rightarrow> Finished (success (key @ '' = '' @ exact) [(''values'', text_dict [(key, exact)])])
      | None \<Rightarrow>
          (let group = read_sysctl_group io key 200 h
           in if group = [] then
                Finished (failure (''no readable sysctl at '' @ py_repr key @ ''; check the key or try a shorter prefix'') [])
              else Finished (success (show_nat (length group) @ '' parameters under '' @ key) [(''values'', text_dict group)])))"

definition namespaces_tool :: "'h host_io \<Rightarrow> int \<Rightarrow> system_policy \<Rightarrow> 'h sys \<Rightarrow> tool_run \<times> 'h sys" where
  "namespaces_tool io pid = read_tool ''namespace inspection''
     (\<lambda>h. let ns = list_namespaces io pid h
         in if ns = [] then Finished (failure (''namespaces for pid '' @ show_int pid @ '' are not readable'') [])
            else Finished (success (show_nat (length ns) @ '' namespaces for pid '' @ show_int pid)
                   [(''namespaces'', text_dict ns), (''cgroups'', JObj (cgroup_summary io h))]))"

definition socket_dict :: "listening_socket \<Rightarrow> json" where
  "socket_dict k = JObj
     [(''family'', JStr (sk_family k)), (''port'', JInt (sk_port k)), (''address_hex'', JStr (sk_address k)),
      (''inode'', JStr (sk_inode k))]"

definition sockets_tool :: "'h host_io \<Rightarrow> system_policy \<Rightarrow> 'h sys \<Rightarrow> tool_run \<times> 'h sys" where
  "sockets_tool io = read_tool ''socket inspection''
     (\<lambda>h. let rows = listening_sockets io 100 h
         in Finished (success (show_nat (length rows) @ '' listening TCP sockets'') [(''sockets'', JList (map socket_dict rows))]))"

section \<open>Changing the host\<close>

text \<open>A refusal is a failure the model sees; any other exception leaves the tool.\<close>

definition operation_tool :: "('h \<Rightarrow> op_run \<times> 'h) \<Rightarrow> 'h sys \<Rightarrow> tool_run \<times> 'h sys" where
  "operation_tool f s =
     (case on_host f s of
        (Inl (Unsafe u), s1) \<Rightarrow> (Finished (failure (unsafe_text u) []), s1)
      | (Inl e, s1) \<Rightarrow> (Crashed ''operation failed'', s1)
      | (Inr r, s1) \<Rightarrow> (Finished \<lparr>to_ok = op_ok r, to_summary = op_summary r, to_data = op_detail r\<rparr>, s1))"

definition sysctl_write_tool ::
  "'h host \<Rightarrow> string \<Rightarrow> string \<Rightarrow> system_policy \<Rightarrow> 'h sys \<Rightarrow> tool_run \<times> 'h sys" where
  "sysctl_write_tool ho key value p = operation_tool (write_sysctl ho p key value)"

definition signal_tool :: "'h host \<Rightarrow> int \<Rightarrow> int \<Rightarrow> system_policy \<Rightarrow> 'h sys \<Rightarrow> tool_run \<times> 'h sys" where
  "signal_tool ho pid sig p = operation_tool (send_signal ho p pid sig)"

definition service_tool :: "'h host \<Rightarrow> string \<Rightarrow> string \<Rightarrow> system_policy \<Rightarrow> 'h sys \<Rightarrow> tool_run \<times> 'h sys" where
  "service_tool ho unit action p = operation_tool (manage_service ho p unit action)"

section \<open>What the workspace knows\<close>

definition excerpt :: "scored_chunk \<Rightarrow> json" where
  "excerpt c = JObj [(''document'', JStr (sk_title c)), (''score'', JReal (sk_score c)), (''text'', JStr (sk_text c))]"

definition knowledge_tool :: "'v services option \<Rightarrow> ident \<Rightarrow> string \<Rightarrow> 'v state \<Rightarrow> tool_run \<times> 'v state" where
  "knowledge_tool services ws query s =
     (case services of
        None \<Rightarrow> (Finished (failure ''Knowledge base is unavailable in this context.'' []), s)
      | Some sv \<Rightarrow>
          (case search_knowledge sv ws query 6 (5 / 100) s of
             (Inl e, s1) \<Rightarrow> (Crashed (sv_embed_text sv e), s1)
           | (Inr [], s1) \<Rightarrow>
               (Finished (failure (''No knowledge-base matches for '' @ py_repr query @ ''. '' @
                  ''Try different terms, or answer from your own reasoning.'') []), s1)
           | (Inr hits, s1) \<Rightarrow>
               (Finished (success (show_nat (length hits) @ '' knowledge excerpts for '' @ py_repr query)
                  [(''excerpts'', JList (map excerpt hits))]), s1)))"

definition memory_save_tool ::
  "'v services option \<Rightarrow> ident \<Rightarrow> string \<Rightarrow> real \<Rightarrow> 'v state \<Rightarrow> tool_run \<times> 'v state" where
  "memory_save_tool services ws note importance s =
     (case services of
        None \<Rightarrow> (Finished (failure ''Memory is unavailable in this context.'' []), s)
      | Some sv \<Rightarrow>
          (case remember (sv_timing sv) (fresh s) (clock s) ws note None importance (db s)
                  (bk_router (outside s)) (bk_vendors (outside s)) of
             (res, d, rt, v) \<Rightarrow>
               (let s1 = on_backend (\<lambda>b. b\<lparr>bk_router := rt, bk_vendors := v\<rparr>) (on_db (\<lambda>_. d) (use_id s))
                in (case res of Inl e \<Rightarrow> Crashed (sv_embed_text sv e) | Inr item \<Rightarrow> Finished (success ''Noted for the long term.'' []), s1))))"

definition memory_hit :: "recalled \<Rightarrow> json" where
  "memory_hit m = JObj [(''text'', JStr (rc_text m)), (''score'', JReal (round4 (rc_score m)))]"

definition memory_search_tool :: "'v services option \<Rightarrow> ident \<Rightarrow> string \<Rightarrow> 'v state \<Rightarrow> tool_run \<times> 'v state" where
  "memory_search_tool services ws query s =
     (case services of
        None \<Rightarrow> (Finished (failure ''Memory is unavailable in this context.'' []), s)
      | Some sv \<Rightarrow>
          (case on_models (recall (sv_timing sv) ws query None 5 (1 / 10) (db s)) s of
             (Inl e, s1) \<Rightarrow> (Crashed (sv_embed_text sv e), s1)
           | (Inr [], s1) \<Rightarrow> (Finished (failure (''No stored memories match '' @ py_repr query @ ''.'') []), s1)
           | (Inr hits, s1) \<Rightarrow>
               (Finished (success (show_nat (length hits) @ '' memories for '' @ py_repr query)
                  [(''memories'', JList (map memory_hit hits))]), s1)))"

section \<open>Delegation\<close>

definition delegate_tool :: "'s delegate_fn option \<Rightarrow> string \<Rightarrow> string \<Rightarrow> 's \<Rightarrow> tool_run \<times> 's" where
  "delegate_tool dl agent goal s =
     (case dl of
        None \<Rightarrow> (Finished (failure ''Delegation is not enabled for this agent. Solve the task yourself.'' []), s)
      | Some f \<Rightarrow>
          (case f agent goal s of
             (Answer t, s1) \<Rightarrow> (Finished (success (''Agent '' @ py_repr agent @ '' finished.'') [(''answer'', JStr t)]), s1)
           | (Lookup_error h, s1) \<Rightarrow>
               (Finished (failure (''No agent named '' @ py_repr agent @ '' exists in this workspace.'') []), s1)
           | (Delegate_raised, s1) \<Rightarrow> (Crashed ''delegation failed'', s1)))"

section \<open>The network\<close>

text \<open>What the HTTP client and the browser do is a function of the state.\<close>

record fetched =
  fe_status :: int
  fe_content_type :: string
  fe_text :: string

datatype browse_run = No_playwright | Browse_raised string | Rendered string string

record 's network =
  nw_request :: "string \<Rightarrow> string \<Rightarrow> 's \<Rightarrow> (string + fetched) \<times> 's"
  nw_browse :: "string \<Rightarrow> 's \<Rightarrow> browse_run \<times> 's"

definition body_cap :: nat where
  "body_cap = 80000"

definition fetch_tool :: "'s network \<Rightarrow> string \<Rightarrow> string \<Rightarrow> 's \<Rightarrow> tool_run \<times> 's" where
  "fetch_tool nw url verb s =
     (if \<not> starts_with ''http://'' url \<and> \<not> starts_with ''https://'' url
      then (Finished (failure ''Only http(s) URLs are allowed.'' []), s)
      else case nw_request nw verb url s of
        (Inl exc, s1) \<Rightarrow> (Finished (failure (''Fetch failed: '' @ exc @ ''. Check the URL and retry.'') []), s1)
      | (Inr r, s1) \<Rightarrow>
          (let body = take body_cap (fe_text r)
           in (Finished (success (''HTTP '' @ show_int (fe_status r) @ '' from '' @ url @ '' ('' @ show_nat (length body) @ '' chars)'')
                 [(''status'', JInt (fe_status r)), (''content_type'', JStr (fe_content_type r)), (''body'', JStr body),
                  (''truncated'', JBool (length (fe_text r) > body_cap))]), s1)))"

definition browse_tool :: "'s network \<Rightarrow> string \<Rightarrow> 's \<Rightarrow> tool_run \<times> 's" where
  "browse_tool nw url s =
     (case nw_browse nw url s of
        (No_playwright, s1) \<Rightarrow>
          (Finished (failure (''Browser automation is not enabled on this deployment '' @
             ''(install the '' @ quoted ''browser'' @ '' extra). Use http.fetch for plain pages.'') []), s1)
      | (Browse_raised e, s1) \<Rightarrow> (Crashed e, s1)
      | (Rendered title t, s1) \<Rightarrow>
          (Finished (success (''Rendered '' @ url @ '' '' @ em_dash @ '' '' @ py_repr title)
             [(''title'', JStr title), (''text'', JStr (take body_cap t))]), s1))"

section \<open>Reading leaves the state alone\<close>

lemma read_tool_state [simp]: "snd (read_tool operation body p s) = s"
  by (simp add: read_tool_def)

lemma read_tool_disabled: "\<not> sp_enabled p \<Longrightarrow> read_tool operation body p s = (Finished (disabled_notice operation), s)"
  by (simp add: read_tool_def)

lemmas read_tools = kernel_info_tool_def resources_tool_def processes_tool_def modules_tool_def kernel_log_tool_def
  sysctl_read_tool_def namespaces_tool_def sockets_tool_def

lemma operation_tool_outside: "outside (snd (operation_tool f s)) = snd (f (outside s))"
  by (auto simp: operation_tool_def on_host_def split: prod.splits sum.splits op_error.splits)

lemma operation_tool_db: "db (snd (operation_tool f s)) = db s"
  by (auto simp: operation_tool_def on_host_def split: prod.splits sum.splits op_error.splits)

end
