(* ===== verification/Config.thy ===== *)
theory Config
  imports Routing Privileges Adapters Conductor
begin

text \<open>
  \<open>config.py\<close>: the settings of a deployment with their defaults, and the parts of them each component
  is built from.  Reading the environment and the \<open>.env\<close> file is the library's.
\<close>

datatype environment = Dev | Test | Production

datatype task_backend = Inline | Arq

datatype ops_backend = Direct | Helper_daemon

record settings =
  cf_environment :: environment
  cf_host :: string
  cf_port :: int
  cf_public_url :: string
  cf_database_url :: string
  cf_redis_url :: "string option"
  cf_jwt_secret :: string
  cf_jwt_ttl_seconds :: int
  cf_open_registration :: bool
  cf_task_backend :: task_backend
  cf_max_run_steps :: int
  cf_tool_timeout :: real
  cf_workspace_root :: string
  cf_anthropic_key :: "string option"
  cf_openai_key :: "string option"
  cf_gemini_key :: "string option"
  cf_openai_base_url :: string
  cf_local_base_url :: "string option"
  cf_model_aliases :: "(string \<times> string) list"
  cf_model_fallbacks :: "(string \<times> string list) list"
  cf_retry_attempts :: int
  cf_breaker_threshold :: int
  cf_breaker_recovery :: real
  cf_system_ops :: bool
  cf_system_backend :: ops_backend
  cf_sysd_socket :: string
  cf_system_mutations :: bool
  cf_sysctl_allowlist :: "string list"
  cf_channel_slug :: string
  cf_channel_handle :: string
  cf_telegram_token :: "string option"
  cf_telegram_secret :: string
  cf_whatsapp_token :: "string option"
  cf_whatsapp_secret :: string
  cf_whatsapp_phone :: string
  cf_gmail_token :: "string option"
  cf_gmail_address :: string
  cf_reply_attempts :: int
  cf_dispatch_interval :: real
  cf_max_concurrent_runs :: int
  cf_max_runs_per_hour :: int
  cf_chunk_size :: nat
  cf_chunk_overlap :: nat
  cf_retrieval_top_k :: int
  cf_page_size_default :: int
  cf_page_size_max :: int
  cf_token_budget :: int
  cf_plugin_dir :: string
  cf_marketplace_url :: "string option"
  cf_mcp_servers :: "(string \<times> json) list"
  cf_log_level :: string
  cf_log_json :: bool

definition default_settings :: settings where
  "default_settings =
     \<lparr>cf_environment = Dev, cf_host = ''0.0.0.0'', cf_port = 8400, cf_public_url = ''http://localhost:8400'',
      cf_database_url = ''sqlite+aiosqlite:///./hoursx.sqlite3'', cf_redis_url = None,
      cf_jwt_secret = ''dev-only-insecure-secret'', cf_jwt_ttl_seconds = 60 * 60 * 12, cf_open_registration = True,
      cf_task_backend = Inline, cf_max_run_steps = 24, cf_tool_timeout = 120, cf_workspace_root = ''./workspaces'',
      cf_anthropic_key = None, cf_openai_key = None, cf_gemini_key = None, cf_openai_base_url = ''https://api.openai.com/v1'',
      cf_local_base_url = None,
      cf_model_aliases = [(''fast'', ''anthropic/claude-haiku-4-5''), (''deep'', ''anthropic/claude-sonnet-5''),
        (''embed'', ''hash/hash-embed-256'')],
      cf_model_fallbacks = [], cf_retry_attempts = 3, cf_breaker_threshold = 5, cf_breaker_recovery = 30,
      cf_system_ops = False, cf_system_backend = Direct, cf_sysd_socket = ''/run/hoursx/sysd.sock'',
      cf_system_mutations = False, cf_sysctl_allowlist = [], cf_channel_slug = [], cf_channel_handle = [],
      cf_telegram_token = None, cf_telegram_secret = [], cf_whatsapp_token = None, cf_whatsapp_secret = [],
      cf_whatsapp_phone = [], cf_gmail_token = None, cf_gmail_address = [], cf_reply_attempts = 5,
      cf_dispatch_interval = 2, cf_max_concurrent_runs = 8, cf_max_runs_per_hour = 240, cf_chunk_size = 1600,
      cf_chunk_overlap = 200, cf_retrieval_top_k = 6, cf_page_size_default = 50, cf_page_size_max = 200,
      cf_token_budget = 24000, cf_plugin_dir = ''./plugins'', cf_marketplace_url = None, cf_mcp_servers = [],
      cf_log_level = ''INFO'', cf_log_json = True\<rparr>"

section \<open>What the components take\<close>

definition backend_text :: "ops_backend \<Rightarrow> string" where
  "backend_text b = (case b of Direct \<Rightarrow> ''direct'' | Helper_daemon \<Rightarrow> ''helper'')"

definition settings_policy :: "settings \<Rightarrow> system_policy" where
  "settings_policy cf =
     \<lparr>sp_enabled = cf_system_ops cf, sp_allow_mutations = cf_system_mutations cf, sp_extra_sysctls = cf_sysctl_allowlist cf,
      sp_backend = backend_text (cf_system_backend cf), sp_socket = cf_sysd_socket cf\<rparr>"

text \<open>\<open>_policy(ctx)\<close>: a context without services gets the default, which is off.\<close>

definition tool_policy :: "settings option \<Rightarrow> system_policy" where
  "tool_policy services = (case services of None \<Rightarrow> default_policy | Some cf \<Rightarrow> settings_policy cf)"

definition settings_quota :: "settings \<Rightarrow> quota_policy" where
  "settings_quota cf = \<lparr>qp_max_concurrent = cf_max_concurrent_runs cf, qp_max_per_hour = cf_max_runs_per_hour cf\<rparr>"

definition settings_router :: "settings \<Rightarrow> router_settings" where
  "settings_router cf =
     \<lparr>rx_anthropic_key = cf_anthropic_key cf, rx_openai_key = cf_openai_key cf, rx_gemini_key = cf_gemini_key cf,
      rx_local_base_url = cf_local_base_url cf, rx_aliases = cf_model_aliases cf, rx_fallbacks = cf_model_fallbacks cf,
      rx_retry_attempts = cf_retry_attempts cf, rx_breaker_threshold = cf_breaker_threshold cf,
      rx_breaker_recovery = cf_breaker_recovery cf\<rparr>"

definition token_text :: "string option \<Rightarrow> string" where
  "token_text t = (case t of None \<Rightarrow> [] | Some x \<Rightarrow> x)"

definition settings_channels :: "settings \<Rightarrow> adapter_settings" where
  "settings_channels cf =
     \<lparr>st_telegram_token = token_text (cf_telegram_token cf), st_whatsapp_token = token_text (cf_whatsapp_token cf),
      st_whatsapp_phone = cf_whatsapp_phone cf, st_gmail_token = token_text (cf_gmail_token cf),
      st_workspace_slug = cf_channel_slug cf, st_agent_handle = cf_channel_handle cf, st_max_attempts = cf_reply_attempts cf,
      as_telegram_secret = cf_telegram_secret cf, as_whatsapp_secret = cf_whatsapp_secret cf,
      as_gmail_address = cf_gmail_address cf, as_public_url = cf_public_url cf\<rparr>"

text \<open>Nothing is reachable by default: no vendor but the local stand-ins, no channel, no host.\<close>

lemma default_policy_settings: "settings_policy default_settings = default_policy"
  by (simp add: settings_policy_def default_settings_def default_policy_def backend_text_def)

lemma default_channels: "build_registry mk (settings_channels default_settings) = []"
  by (simp add: build_registry_def settings_channels_def default_settings_def token_text_def)

end
