(* ===== verification/Builtins.thy ===== *)
theory Builtins
  imports Host_Tools Sandbox Config
begin

text \<open>
  \<open>tools/builtin/__init__.py\<close> and the registration functions of its modules, \<open>services.py\<close>,
  \<open>sdk/manifest.py\<close>, \<open>sdk/discovery.py\<close> and \<open>tools/mcp_adapter.py\<close>: which tools a deployment
  has, what each needs before it runs, and what plug-ins and servers may add.
\<close>

section \<open>The platform of the tools\<close>

text \<open>
  What the tools are run on: files, processes, the network, the host and its guard.  Pydantic's
  validation of the arguments and the JSON schema of a parameter class are functions of the
  class; \<open>pl_cut\<close> says when a run is cut off by its timeout, and in which state.
\<close>

record 'v platform =
  pl_cwd :: components
  pl_files :: "'v state \<Rightarrow> files"
  pl_put_files :: "files \<Rightarrow> 'v state \<Rightarrow> 'v state"
  pl_guard :: "('v backend) guard_env"
  pl_git :: "('v state) git_run"
  pl_shell :: "components \<Rightarrow> string \<Rightarrow> real \<Rightarrow> 'v state \<Rightarrow> shell_run \<times> 'v state"
  pl_network :: "('v state) network"
  pl_validate :: "string \<Rightarrow> json_dict \<Rightarrow> string list + json_dict"
  pl_schema :: "string \<Rightarrow> json"
  pl_conditions :: "json \<Rightarrow> condition list"
  pl_cut :: "string \<Rightarrow> real \<Rightarrow> 'v state \<Rightarrow> ('v state) option"

definition sandbox_of :: "'v platform \<Rightarrow> 's tool_context \<Rightarrow> components" where
  "sandbox_of pl ctx =
     (if is_absolute (cx_sandbox_dir ctx) then parts (cx_sandbox_dir ctx) else pl_cwd pl @ parts (cx_sandbox_dir ctx))"

text \<open>Fields of validated arguments.\<close>

definition str_arg :: "string \<Rightarrow> json_dict \<Rightarrow> string" where
  "str_arg k args = (case map_of args k of Some (JStr t) \<Rightarrow> t | _ \<Rightarrow> [])"

definition int_arg :: "string \<Rightarrow> json_dict \<Rightarrow> int" where
  "int_arg k args = (case map_of args k of Some (JInt i) \<Rightarrow> i | _ \<Rightarrow> 0)"

definition bool_arg :: "string \<Rightarrow> json_dict \<Rightarrow> bool" where
  "bool_arg k args = (map_of args k = Some (JBool True))"

definition opt_real_arg :: "string \<Rightarrow> json_dict \<Rightarrow> real option" where
  "opt_real_arg k args = (case map_of args k of Some (JReal x) \<Rightarrow> Some x | Some (JInt i) \<Rightarrow> Some (of_int i) | _ \<Rightarrow> None)"

definition real_arg :: "string \<Rightarrow> json_dict \<Rightarrow> real" where
  "real_arg k args = (case opt_real_arg k args of None \<Rightarrow> 0 | Some x \<Rightarrow> x)"

definition json_arg :: "string \<Rightarrow> json_dict \<Rightarrow> json" where
  "json_arg k args = (case map_of args k of None \<Rightarrow> JNull | Some v \<Rightarrow> v)"

type_synonym 's tool_body = "json_dict \<Rightarrow> 's tool_context \<Rightarrow> 's \<Rightarrow> tool_run \<times> 's"

definition spec_of :: "'v platform \<Rightarrow> string \<Rightarrow> string \<Rightarrow> string \<Rightarrow> bool \<Rightarrow> real option \<Rightarrow> tool_spec" where
  "spec_of pl name description model approval timeout =
     \<lparr>ts_name = name, ts_description = description, ts_schema = pl_schema pl model, ts_validate = pl_validate pl model,
      ts_requires_approval = approval, ts_timeout_seconds = timeout\<rparr>"

text \<open>A body that never waits cannot be cut off; one that waits can.\<close>

definition prompt_tool :: "tool_spec \<Rightarrow> ('v state) tool_body \<Rightarrow> ('v state) tool" where
  "prompt_tool sp body = \<lparr>tl_spec = sp, tl_run = (\<lambda>args ctx timeout s. body args ctx s)\<rparr>"

definition waiting_tool :: "'v platform \<Rightarrow> tool_spec \<Rightarrow> ('v state) tool_body \<Rightarrow> ('v state) tool" where
  "waiting_tool pl sp body =
     \<lparr>tl_spec = sp, tl_run = (\<lambda>args ctx timeout s.
        case pl_cut pl (ts_name sp) timeout s of Some s1 \<Rightarrow> (Timed_out, s1) | None \<Rightarrow> body args ctx s)\<rparr>"

section \<open>The tools of each module\<close>

definition on_files :: "'v platform \<Rightarrow> (files \<Rightarrow> tool_run \<times> files) \<Rightarrow> 'v state \<Rightarrow> tool_run \<times> 'v state" where
  "on_files pl f s = (case f (pl_files pl s) of (out, fs) \<Rightarrow> (out, pl_put_files pl fs s))"

definition read_files :: "'v platform \<Rightarrow> (files \<Rightarrow> tool_run) \<Rightarrow> 'v state \<Rightarrow> tool_run \<times> 'v state" where
  "read_files pl f s = (f (pl_files pl s), s)"

definition fs_tools :: "'v platform \<Rightarrow> ('v state) tool list" where
  "fs_tools pl =
     [prompt_tool (spec_of pl ''fs.read'' ''Read a text file from the session workspace.'' ''fs.ReadArgs'' False None)
        (\<lambda>a ctx. read_files pl (fs_read (sandbox_of pl ctx) (str_arg ''path'' a) (nat (int_arg ''offset'' a)))),
      prompt_tool (spec_of pl ''fs.write'' ''Create or overwrite a text file in the session workspace.'' ''fs.WriteArgs'' False None)
        (\<lambda>a ctx. on_files pl (fs_write (sandbox_of pl ctx) (str_arg ''path'' a) (str_arg ''content'' a))),
      prompt_tool (spec_of pl ''fs.list'' ''List a directory in the session workspace.'' ''fs.ListArgs'' False None)
        (\<lambda>a ctx. read_files pl (fs_list (sandbox_of pl ctx) (str_arg ''path'' a)))]"

definition shell_tools :: "'v platform \<Rightarrow> ('v state) tool list" where
  "shell_tools pl =
     [waiting_tool pl (spec_of pl ''shell.run''
          (''Run a shell command in the session workspace. '' @ ''Returns exit code, stdout, and stderr.'')
          ''shell.ShellArgs'' False (Some 620))
        (\<lambda>a ctx. shell_tool (pl_shell pl) (sandbox_of pl ctx) (str_arg ''command'' a) (real_arg ''timeout_seconds'' a))]"

definition git_tools :: "'v platform \<Rightarrow> ('v state) tool list" where
  "git_tools pl =
     [waiting_tool pl (spec_of pl ''git.status'' ''Show git status of the session workspace.'' ''git.NoArgs'' False None)
        (\<lambda>a ctx. git_status (pl_git pl) (sandbox_of pl ctx)),
      waiting_tool pl (spec_of pl ''git.diff'' ''Show the git diff of the session workspace.'' ''git.DiffArgs'' False None)
        (\<lambda>a ctx. git_diff (pl_git pl) (sandbox_of pl ctx) (str_arg ''ref'' a)),
      waiting_tool pl (spec_of pl ''git.log'' ''Show recent commits in the session workspace.'' ''git.NoArgs'' False None)
        (\<lambda>a ctx. git_log (pl_git pl) (sandbox_of pl ctx)),
      waiting_tool pl (spec_of pl ''git.commit'' ''Stage and commit changes in the session workspace.'' ''git.CommitArgs'' False None)
        (\<lambda>a ctx. git_commit (pl_git pl) (sandbox_of pl ctx) (str_arg ''message'' a) (bool_arg ''add_all'' a))]"

definition web_tools :: "'v platform \<Rightarrow> ('v state) tool list" where
  "web_tools pl =
     [waiting_tool pl (spec_of pl ''http.fetch'' ''Fetch a URL over HTTP(S) and return status and body text.'' ''web.FetchArgs'' False None)
        (\<lambda>a ctx. fetch_tool (pl_network pl) (str_arg ''url'' a) (str_arg ''method'' a)),
      waiting_tool pl (spec_of pl ''browser.open''
          (''Open a page in a headless browser (JavaScript rendered) and '' @ ''return its title and visible text.'')
          ''web.BrowseArgs'' False (Some 90))
        (\<lambda>a ctx. browse_tool (pl_network pl) (str_arg ''url'' a))]"

definition recall_tools :: "'v platform \<Rightarrow> 'v services \<Rightarrow> ('v state) tool list" where
  "recall_tools pl sv =
     [waiting_tool pl (spec_of pl ''knowledge.search'' ''Search the workspace knowledge base (uploaded documents).'' ''recall.SearchArgs'' False None)
        (\<lambda>a ctx. knowledge_tool (Some sv) (cx_workspace ctx) (str_arg ''query'' a)),
      waiting_tool pl (spec_of pl ''memory.save'' ''Save a durable note to long-term memory.'' ''recall.RememberArgs'' False None)
        (\<lambda>a ctx. memory_save_tool (Some sv) (cx_workspace ctx) (str_arg ''note'' a) (real_arg ''importance'' a)),
      waiting_tool pl (spec_of pl ''memory.search'' ''Search long-term memory for relevant notes.'' ''recall.SearchArgs'' False None)
        (\<lambda>a ctx. memory_search_tool (Some sv) (cx_workspace ctx) (str_arg ''query'' a))]"

definition system_read_tools :: "'v platform \<Rightarrow> system_policy \<Rightarrow> ('v state) tool list" where
  "system_read_tools pl p =
     (let io = ho_io (ge_host (pl_guard pl)); rep = ge_rep (pl_guard pl) in
     [prompt_tool (spec_of pl ''system.kernel'' ''Kernel release, distribution, boot cmdline, and container context.'' ''system.NoArgs'' False None)
        (\<lambda>a ctx. kernel_info_tool io p),
      prompt_tool (spec_of pl ''system.resources'' ''Load average, memory, file descriptors, and disk usage.'' ''system.NoArgs'' False None)
        (\<lambda>a ctx. resources_tool rep io p),
      prompt_tool (spec_of pl ''system.processes'' ''Process table read from /proc, sorted by memory or pid.'' ''system.ProcessArgs'' False None)
        (\<lambda>a ctx. processes_tool io (int_arg ''limit'' a) (str_arg ''sort_by'' a) p),
      prompt_tool (spec_of pl ''system.modules'' ''Loaded kernel modules and their dependents (read-only).'' ''system.NoArgs'' False None)
        (\<lambda>a ctx. modules_tool io p),
      prompt_tool (spec_of pl ''system.kernel_log'' ''Recent kernel ring-buffer messages.'' ''system.KernelLogArgs'' False None)
        (\<lambda>a ctx. kernel_log_tool io (nat (int_arg ''lines'' a)) p),
      prompt_tool (spec_of pl ''system.sysctl'' ''Read kernel parameters by key or prefix.'' ''system.SysctlReadArgs'' False None)
        (\<lambda>a ctx. sysctl_read_tool io (str_arg ''key'' a) p),
      prompt_tool (spec_of pl ''system.namespaces'' ''Namespace and cgroup context for a process.'' ''system.NamespaceArgs'' False None)
        (\<lambda>a ctx. namespaces_tool io (int_arg ''pid'' a) p),
      prompt_tool (spec_of pl ''system.sockets'' ''TCP sockets currently in the LISTEN state.'' ''system.NoArgs'' False None)
        (\<lambda>a ctx. sockets_tool io p)])"

definition system_write_tools :: "'v platform \<Rightarrow> system_policy \<Rightarrow> ('v state) tool list" where
  "system_write_tools pl p =
     (let ho = ge_host (pl_guard pl) in
     [waiting_tool pl (spec_of pl ''system.sysctl_set''
          (''Change a kernel parameter. Reversible tunables only; the previous '' @
           ''value is returned so the change can be rolled back.'') ''system.SysctlWriteArgs'' True None)
        (\<lambda>a ctx. sysctl_write_tool ho (str_arg ''key'' a) (str_arg ''value'' a) p),
      waiting_tool pl (spec_of pl ''system.signal'' ''Send a signal to a process (TERM, HUP, KILL, STOP, CONT).'' ''system.SignalArgs'' True None)
        (\<lambda>a ctx. signal_tool ho (int_arg ''pid'' a) (int_arg ''signal'' a) p),
      waiting_tool pl (spec_of pl ''system.service''
          (''Inspect or control a systemd unit. Status checks are immediate; '' @ ''start/stop/restart require approval.'')
          ''system.ServiceArgs'' True (Some 90))
        (\<lambda>a ctx. service_tool ho (str_arg ''unit'' a) (str_arg ''action'' a) p)])"

definition run_of_option :: "tool_outcome option \<times> 's \<Rightarrow> tool_run \<times> 's" where
  "run_of_option r = (case r of (None, s) \<Rightarrow> (Crashed ''exception'', s) | (Some out, s) \<Rightarrow> (Finished out, s))"

definition guarded_body :: "'v platform \<Rightarrow> system_policy \<Rightarrow> change_kind \<Rightarrow> string \<Rightarrow> string \<Rightarrow> ('v state) tool_body" where
  "guarded_body pl p kind target_key value_key a ctx s =
     run_of_option (guarded_tool kind (Some (pl_guard pl)) p (cx_workspace ctx) (cx_run ctx) (str_arg target_key a)
       (str_arg value_key a) (pl_conditions pl (json_arg ''verify'' a)) (real_arg ''settle_seconds'' a)
       (opt_real_arg ''revert_after_seconds'' a) s)"

definition change_tools :: "'v platform \<Rightarrow> system_policy \<Rightarrow> ('v state) tool list" where
  "change_tools pl p =
     [waiting_tool pl (spec_of pl ''change.sysctl''
          (''Change a kernel parameter under verification. Declare post-conditions '' @
           ''in '' @ quoted ''verify'' @ '' and the change reverts itself automatically if they do not '' @
           ''hold. Prefer this over system.sysctl_set whenever you can state what '' @ ''the change should achieve.'')
          ''change.GuardedSysctlArgs'' True (Some 180)) (guarded_body pl p Sysctl ''key'' ''value''),
      waiting_tool pl (spec_of pl ''change.service''
          (''Start, stop, or reconfigure a service under verification. Declare '' @
           ''post-conditions in '' @ quoted ''verify'' @ ''; start/stop and enable/disable revert '' @
           ''automatically when they fail. restart and reload have no inverse.'')
          ''change.GuardedServiceArgs'' True (Some 180)) (guarded_body pl p Service ''unit'' ''action''),
      waiting_tool pl (spec_of pl ''change.list'' ''List host changes recorded for this run, with their revert state.'' ''change.ChangeListArgs'' False None)
        (\<lambda>a ctx s. (Finished (change_list_tool (bool_arg ''this_run_only'' a) (cx_workspace ctx) (cx_run ctx) (db s)), s)),
      waiting_tool pl (spec_of pl ''change.revert'' ''Undo a recorded change, restoring the value captured before it.'' ''change.ChangeIdArgs'' True None)
        (\<lambda>a ctx s. run_of_option (revert_tool (ge_host (pl_guard pl)) p (cx_workspace ctx) (str_arg ''change_id'' a) s)),
      waiting_tool pl (spec_of pl ''change.confirm''
          (''Keep a change that carries a dead-man timer, cancelling its automatic '' @
           ''revert. Only do this once you have evidence the change is correct.'') ''change.ChangeIdArgs'' True None)
        (\<lambda>a ctx s. run_of_option (confirm_tool (cx_workspace ctx) (cx_run ctx) (str_arg ''change_id'' a) s))]"

definition code_tools :: "'v platform \<Rightarrow> ('v state) tool list" where
  "code_tools pl =
     [prompt_tool (spec_of pl ''code.patch''
          (''Edit a file by replacing one exact text match. '' @ ''Safer and cheaper than rewriting the whole file.'')
          ''code.PatchArgs'' False None)
        (\<lambda>a ctx. on_files pl (code_patch (sandbox_of pl ctx) (str_arg ''path'' a) (str_arg ''find'' a) (str_arg ''replace'' a)))]"

definition delegate_tools :: "'v platform \<Rightarrow> ('v state) tool list" where
  "delegate_tools pl =
     [waiting_tool pl (spec_of pl ''agent.delegate''
          (''Hand a self-contained sub-task to another agent in this '' @ ''workspace and receive its final answer.'')
          ''delegate.DelegateArgs'' False (Some 1800))
        (\<lambda>a ctx. delegate_tool (cx_delegate ctx) (str_arg ''agent'' a) (str_arg ''goal'' a))]"

section \<open>Registration\<close>

fun register_all :: "'s tool list \<Rightarrow> 's registry \<Rightarrow> string + 's registry" where
  "register_all [] reg = Inr reg"
| "register_all (t # ts) reg = (case register t reg of Inl e \<Rightarrow> Inl e | Inr reg1 \<Rightarrow> register_all ts reg1)"

definition builtin_tools :: "'v platform \<Rightarrow> 'v services \<Rightarrow> system_policy \<Rightarrow> ('v state) tool list" where
  "builtin_tools pl sv p =
     fs_tools pl @ shell_tools pl @ git_tools pl @ web_tools pl @ recall_tools pl sv @
     (system_read_tools pl p @ system_write_tools pl p) @ change_tools pl p @ code_tools pl @ delegate_tools pl"

definition register_builtin_tools ::
  "'v platform \<Rightarrow> 'v services \<Rightarrow> system_policy \<Rightarrow> ('v state) registry \<Rightarrow> string + ('v state) registry" where
  "register_builtin_tools pl sv p reg = register_all (builtin_tools pl sv p) reg"

end
