(* ===== verification/Services.thy ===== *)
theory Services
  imports Builtins
begin

text \<open>
  \<open>sdk/manifest.py\<close>, \<open>sdk/discovery.py\<close>, \<open>tools/mcp_adapter.py\<close> and \<open>services.py\<close>: plug-ins, the
  tools of MCP servers, and the services a process is built from.
\<close>

section \<open>Plug-ins\<close>

datatype plugin_permission = NETWORK | FILESYSTEM | SHELL | KNOWLEDGE | MEMORY

definition all_permissions :: "plugin_permission set" where
  "all_permissions = {NETWORK, FILESYSTEM, SHELL, KNOWLEDGE, MEMORY}"

record 's plugin_tool =
  pt_tool :: "'s tool"
  pt_needs :: "plugin_permission list"

record 's plugin_manifest =
  pm_name :: string
  pm_version :: string
  pm_summary :: string
  pm_author :: string
  pm_homepage :: string
  pm_tools :: "'s plugin_tool list"

definition lower_letter :: "char \<Rightarrow> bool" where
  "lower_letter c = (CHR ''a'' \<le> c \<and> c \<le> CHR ''z'')"

text \<open>\<open>^[a-z][a-z0-9-]{2,63}$\<close> and \<open>^\d+\.\d+\.\d+$\<close>, anchored at the end of the text.\<close>

definition plugin_name_ok :: "string \<Rightarrow> bool" where
  "plugin_name_ok n =
     (3 \<le> length n \<and> length n \<le> 64 \<and> lower_letter (hd n) \<and>
      list_all (\<lambda>c. lower_letter c \<or> is_digit c \<or> c = CHR ''-'') (tl n))"

definition version_ok :: "string \<Rightarrow> bool" where
  "version_ok v = (length (split_on (CHR ''.'') v) = 3 \<and> list_all numeric (split_on (CHR ''.'') v))"

text \<open>\<open>PluginManifest(...)\<close>: the manifest, or the validation error.\<close>

definition plugin_manifest_of :: "'s plugin_manifest \<Rightarrow> string + 's plugin_manifest" where
  "plugin_manifest_of m =
     (if \<not> plugin_name_ok (pm_name m) then Inl ''name''
      else if \<not> version_ok (pm_version m) then Inl ''version''
      else if length (pm_summary m) > 300 then Inl ''summary''
      else case find (\<lambda>e. CHR ''.'' \<notin> set (ts_name (tl_spec (pt_tool e)))) (pm_tools m) of
        Some e \<Rightarrow> Inl (''plugin tool '' @ py_repr (ts_name (tl_spec (pt_tool e))) @ '' must be namespaced (plugin.tool)'')
      | None \<Rightarrow> Inr m)"

definition granted_tools :: "'s plugin_manifest \<Rightarrow> plugin_permission set \<Rightarrow> 's tool list" where
  "granted_tools m allowed = map pt_tool (filter (\<lambda>e. set (pt_needs e) \<subseteq> allowed) (pm_tools m))"

text \<open>What importing a module or an entry point and calling its \<open>manifest()\<close> may come to.\<close>

datatype 's plugin_source =
    No_loader
  | Import_raised string
  | No_manifest
  | Manifest_raised string
  | Not_a_manifest
  | Manifest "'s plugin_manifest"

definition load_local_plugin :: "string \<Rightarrow> string \<Rightarrow> 's plugin_source \<Rightarrow> string + 's plugin_manifest" where
  "load_local_plugin path file_name src =
     (case src of
        No_loader \<Rightarrow> Inl (''cannot import plugin at '' @ path)
      | Import_raised e \<Rightarrow> Inl e
      | No_manifest \<Rightarrow> Inl (''plugin '' @ file_name @ '' does not define manifest()'')
      | Manifest_raised e \<Rightarrow> Inl e
      | Not_a_manifest \<Rightarrow> Inl (''plugin '' @ file_name @ '' manifest() must return PluginManifest'')
      | Manifest m \<Rightarrow> Inr m)"

definition load_entry_point :: "'s plugin_source \<Rightarrow> string + 's plugin_manifest" where
  "load_entry_point src =
     (case src of
        No_loader \<Rightarrow> Inl ''no module''
      | Import_raised e \<Rightarrow> Inl e
      | No_manifest \<Rightarrow> Inl ''not callable''
      | Manifest_raised e \<Rightarrow> Inl e
      | Not_a_manifest \<Rightarrow> Inl ''entry point did not return PluginManifest''
      | Manifest m \<Rightarrow> Inr m)"

record 's discovery_report =
  dr_loaded :: "'s plugin_manifest list"
  dr_failed :: "(string \<times> string) list"

definition note_load :: "string \<Rightarrow> string + 's plugin_manifest \<Rightarrow> 's discovery_report \<Rightarrow> 's discovery_report" where
  "note_load source res rp =
     (case res of
        Inl e \<Rightarrow> rp\<lparr>dr_failed := AList.update source e (dr_failed rp)\<rparr>
      | Inr m \<Rightarrow> rp\<lparr>dr_loaded := dr_loaded rp @ [m]\<rparr>)"

text \<open>
  The entry points by name, and the local candidates in the order of their paths: the path, its
  name and what loading it comes to; \<open>None\<close> when there is no directory.
\<close>

type_synonym 's plugin_world = "(string \<times> 's plugin_source) list \<times> (string \<times> string \<times> 's plugin_source) list option"

definition entry_label :: "string \<Rightarrow> string" where
  "entry_label n = ''entrypoint:'' @ n"

definition local_label :: "string \<Rightarrow> string" where
  "local_label n = ''local:'' @ n"

definition discover_plugins :: "'s plugin_world \<Rightarrow> 's discovery_report" where
  "discover_plugins w =
     (case w of (entries, dir) \<Rightarrow>
        (let rp0 = \<lparr>dr_loaded = [], dr_failed = []\<rparr>;
             rp1 = fold (\<lambda>(n, src) rp. note_load (entry_label n) (load_entry_point src) rp) entries rp0
         in case dir of
              None \<Rightarrow> rp1
            | Some candidates \<Rightarrow>
                fold (\<lambda>(path, n, src) rp. note_load (local_label n) (load_local_plugin path n src) rp) candidates rp1))"

text \<open>A name that is taken is logged and skipped.\<close>

fun register_free :: "'s tool list \<Rightarrow> 's registry \<Rightarrow> 's registry" where
  "register_free [] reg = reg"
| "register_free (t # ts) reg = (case register t reg of Inl e \<Rightarrow> register_free ts reg | Inr reg1 \<Rightarrow> register_free ts reg1)"

definition register_plugin_tools :: "'s discovery_report \<Rightarrow> 's registry \<Rightarrow> 's registry" where
  "register_plugin_tools rp reg =
     register_free (concat (map (\<lambda>m. granted_tools m all_permissions) (dr_loaded rp))) reg"

section \<open>Tools of MCP servers\<close>

text \<open>The answer of a server's \<open>list_tools\<close>: name, description, and the schema of its arguments.\<close>

record mcp_listing =
  ml_name :: string
  ml_description :: string
  ml_properties :: "(string \<times> string) list"   \<comment> \<open>property and its JSON type\<close>
  ml_required :: "string list"

datatype py_type = Any_type | Str_type | Int_type | Bool_type | Float_type

definition mcp_type :: "string \<Rightarrow> py_type" where
  "mcp_type t =
     (if t = ''string'' then Str_type else if t = ''integer'' then Int_type
      else if t = ''boolean'' then Bool_type else if t = ''number'' then Float_type else Any_type)"

text \<open>A field of the parameter model: its type, and whether it must be given.\<close>

definition mcp_fields :: "mcp_listing \<Rightarrow> (string \<times> py_type \<times> bool) list" where
  "mcp_fields l = map (\<lambda>(k, t). (k, mcp_type t, k \<in> set (ml_required l))) (ml_properties l)"

text \<open>
  The client library: starting a server and listing its tools (or an exception), the model built
  from fields, and a call of a tool (the text parts of its content, or an exception).
\<close>

record 's mcp_client =
  mc_start :: "string \<Rightarrow> json \<Rightarrow> 's \<Rightarrow> (string + mcp_listing list) \<times> 's"
  mc_validate :: "(string \<times> py_type \<times> bool) list \<Rightarrow> json_dict \<Rightarrow> string list + json_dict"
  mc_schema :: "(string \<times> py_type \<times> bool) list \<Rightarrow> json"
  mc_call :: "string \<Rightarrow> string \<Rightarrow> json_dict \<Rightarrow> 's \<Rightarrow> (string + string list) \<times> 's"

text \<open>\<open>success(summary=..., data=...)\<close> takes the keyword arguments as the data: it is nested once more.\<close>

definition mcp_outcome :: "string + string list \<Rightarrow> tool_outcome" where
  "mcp_outcome r =
     (case r of
        Inl e \<Rightarrow> failure (''MCP tool error: '' @ e) []
      | Inr texts \<Rightarrow>
          (let summary = join [CHR 0x0A] texts
           in success (if summary = [] then ''Tool executed successfully.'' else summary)
                [(''data'', JObj [(''mcp_result'', JBool True)])]))"

definition mcp_tool :: "'s mcp_client \<Rightarrow> string \<Rightarrow> mcp_listing \<Rightarrow> 's tool" where
  "mcp_tool mc server l =
     \<lparr>tl_spec = \<lparr>ts_name = ''mcp.'' @ server @ ''.'' @ ml_name l,
         ts_description = (if ml_description l = [] then ''MCP tool '' @ ml_name l @ '' from '' @ server else ml_description l),
         ts_schema = mc_schema mc (mcp_fields l), ts_validate = mc_validate mc (mcp_fields l),
         ts_requires_approval = False, ts_timeout_seconds = None\<rparr>,
      tl_run = (\<lambda>args ctx timeout s. case mc_call mc server (ml_name l) args s of
         (r, s1) \<Rightarrow> (Finished (mcp_outcome r), s1))\<rparr>"

definition command_of :: "json \<Rightarrow> string" where
  "command_of cfg = (case cfg of JObj kvs \<Rightarrow> (case map_of kvs ''command'' of Some (JStr t) \<Rightarrow> t | _ \<Rightarrow> []) | _ \<Rightarrow> [])"

fun mcp_start :: "'s mcp_client \<Rightarrow> (string \<times> json) list \<Rightarrow> 's \<Rightarrow> (string + 's tool list) \<times> 's" where
  "mcp_start mc [] s = (Inr [], s)"
| "mcp_start mc ((server, cfg) # rest) s =
     (if command_of cfg = [] then mcp_start mc rest s
      else case mc_start mc server cfg s of
        (Inl e, s1) \<Rightarrow> (Inl e, s1)
      | (Inr listing, s1) \<Rightarrow>
          (case mcp_start mc rest s1 of
             (Inl e, s2) \<Rightarrow> (Inl e, s2)
           | (Inr tools, s2) \<Rightarrow> (Inr (map (mcp_tool mc server) listing @ tools), s2)))"

section \<open>The services of a process\<close>

text \<open>
  What the executor does not determine (\<open>base\<close>) is built first: the recall tools use the router and
  the stores of the services, not its executor.
\<close>

definition service_registry ::
  "'v platform \<Rightarrow> settings \<Rightarrow> 'v services \<Rightarrow> ('v state) plugin_world \<Rightarrow> string + ('v state) registry" where
  "service_registry pl cf base plugins =
     (case register_builtin_tools pl base (settings_policy cf) [] of
        Inl e \<Rightarrow> Inl e
      | Inr reg \<Rightarrow> Inr (register_plugin_tools (discover_plugins plugins) reg))"

definition executor_of :: "settings \<Rightarrow> 's registry \<Rightarrow> 's executor" where
  "executor_of cf reg = \<lparr>ex_registry = reg, ex_default_timeout = cf_tool_timeout cf, ex_force_approval = []\<rparr>"

definition build_services ::
  "'v platform \<Rightarrow> settings \<Rightarrow> 'v services \<Rightarrow> ('v state) plugin_world \<Rightarrow> string + 'v services" where
  "build_services pl cf base plugins =
     (case service_registry pl cf base plugins of
        Inl e \<Rightarrow> Inl e
      | Inr reg \<Rightarrow>
          Inr (base\<lparr>sv_executor := executor_of cf reg, sv_max_run_steps := cf_max_run_steps cf,
                 sv_token_budget := cf_token_budget cf, sv_sandbox_root := cf_workspace_root cf,
                 sv_chunk_size := cf_chunk_size cf, sv_chunk_overlap := cf_chunk_overlap cf\<rparr>))"

text \<open>\<open>AppServices.start\<close>: the tools of the servers join the registry; \<open>Inl\<close> is the exception that stops it.\<close>

definition start_services ::
  "('v state) mcp_client \<Rightarrow> settings \<Rightarrow> 'v services \<Rightarrow> 'v state \<Rightarrow> (string + 'v services) \<times> 'v state" where
  "start_services mc cf sv s =
     (if cf_mcp_servers cf = [] then (Inr sv, s)
      else case mcp_start mc (cf_mcp_servers cf) s of
        (Inl e, s1) \<Rightarrow> (Inl e, s1)
      | (Inr tools, s1) \<Rightarrow>
          (case register_all tools (ex_registry (sv_executor sv)) of
             Inl e \<Rightarrow> (Inl e, s1)
           | Inr reg \<Rightarrow> (Inr (sv\<lparr>sv_executor := (sv_executor sv)\<lparr>ex_registry := reg\<rparr>\<rparr>), s1)))"

section \<open>The built-in tools of a deployment\<close>

definition builtin_names :: "string list" where
  "builtin_names =
     [''fs.read'', ''fs.write'', ''fs.list'', ''shell.run'', ''git.status'', ''git.diff'', ''git.log'', ''git.commit'',
      ''http.fetch'', ''browser.open'', ''knowledge.search'', ''memory.save'', ''memory.search'',
      ''system.kernel'', ''system.resources'', ''system.processes'', ''system.modules'', ''system.kernel_log'',
      ''system.sysctl'', ''system.namespaces'', ''system.sockets'', ''system.sysctl_set'', ''system.signal'',
      ''system.service'', ''change.sysctl'', ''change.service'', ''change.list'', ''change.revert'', ''change.confirm'',
      ''code.patch'', ''agent.delegate'']"

definition tool_name :: "'s tool \<Rightarrow> string" where
  "tool_name t = ts_name (tl_spec t)"

lemma tool_name_simps [simp]:
  "tool_name (prompt_tool sp body) = ts_name sp" "tool_name (waiting_tool pl sp body) = ts_name sp"
  "ts_name (spec_of pl n d m a tm) = n" "ts_requires_approval (spec_of pl n d m a tm) = a"
  "tl_spec (prompt_tool sp body) = sp" "tl_spec (waiting_tool pl sp body) = sp"
  by (simp_all add: tool_name_def prompt_tool_def waiting_tool_def spec_of_def)

lemmas tool_lists = fs_tools_def shell_tools_def git_tools_def web_tools_def recall_tools_def system_read_tools_def
  system_write_tools_def change_tools_def code_tools_def delegate_tools_def

lemma builtin_tool_names: "map tool_name (builtin_tools pl sv p) = builtin_names"
  by (simp add: builtin_tools_def builtin_names_def tool_lists Let_def)

lemma builtin_names_distinct: "distinct builtin_names"
  by code_simp

lemma register_new: "tool_name t \<notin> fst ` set reg \<Longrightarrow> register t reg = Inr (reg @ [(tool_name t, t)])"
  by (simp add: register_def tool_name_def)

lemma register_all_new:
  "distinct (map tool_name ts) \<Longrightarrow> set (map tool_name ts) \<inter> fst ` set reg = {} \<Longrightarrow>
   register_all ts reg = Inr (reg @ map (\<lambda>t. (tool_name t, t)) ts)"
  by (induction ts arbitrary: reg) (auto simp: register_new)

lemma register_free_keeps: "get_tool reg n = Some t \<Longrightarrow> get_tool (register_free ts reg) n = Some t"
proof (induction ts arbitrary: reg)
  case (Cons u ts)
  show ?case
  proof (cases "register u reg")
    case (Inr reg1)
    then have "get_tool reg1 n = Some t" using Cons.prems
      by (auto simp: register_def get_tool_def Let_def split: if_splits)
    then show ?thesis using Cons.IH Inr by simp
  qed (use Cons in simp)
qed simp

lemma register_all_keeps: "register_all ts reg = Inr reg1 \<Longrightarrow> get_tool reg n = Some t \<Longrightarrow> get_tool reg1 n = Some t"
proof (induction ts arbitrary: reg)
  case (Cons u ts)
  then obtain reg2 where reg2: "register u reg = Inr reg2" "register_all ts reg2 = Inr reg1"
    by (auto split: sum.splits)
  then have "get_tool reg2 n = Some t" using Cons.prems(2)
    by (auto simp: register_def get_tool_def Let_def split: if_splits)
  then show ?case using Cons.IH reg2(2) by blast
qed simp

lemma builtins_registered:
  "register_builtin_tools pl sv p [] = Inr (map (\<lambda>t. (tool_name t, t)) (builtin_tools pl sv p))"
proof -
  have "distinct (map tool_name (builtin_tools pl sv p))" using builtin_names_distinct by (simp only: builtin_tool_names)
  then show ?thesis by (simp add: register_builtin_tools_def register_all_new)
qed

text \<open>A built-in tool is found under its name.\<close>

lemma service_registry_builtin:
  assumes "service_registry pl cf base plugins = Inr reg" and "t \<in> set (builtin_tools pl base (settings_policy cf))"
  shows "get_tool reg (tool_name t) = Some t"
proof -
  let ?reg = "map (\<lambda>t. (tool_name t, t)) (builtin_tools pl base (settings_policy cf))"
  have names: "map fst ?reg = builtin_names" using builtin_tool_names by (simp add: comp_def)
  have "distinct (map fst ?reg)" unfolding names by (rule builtin_names_distinct)
  then have "get_tool ?reg (tool_name t) = Some t"
    using assms(2) by (auto simp: get_tool_def intro!: map_of_is_SomeI)
  then show ?thesis using assms(1)
    by (auto simp: service_registry_def builtins_registered register_plugin_tools_def register_free_keeps)
qed

lemma build_services_registry:
  assumes "build_services pl cf base plugins = Inr sv"
  shows "\<exists>reg. service_registry pl cf base plugins = Inr reg \<and> sv_executor sv = executor_of cf reg"
  using assms by (auto simp: build_services_def split: sum.splits)

lemma build_services_total: "\<exists>sv. build_services pl cf base plugins = Inr sv"
  by (simp add: build_services_def service_registry_def builtins_registered)

end
