(* ===== verification/Vendors.thy ===== *)
theory Vendors
  imports Context Json
begin

text \<open>
  \<open>providers/anthropic.py\<close>, \<open>openai_compat.py\<close>, \<open>gemini.py\<close>, \<open>echo.py\<close> and
  \<open>hashing.py\<close>: the adapters behind the model router.  Each has the payload of a request, the
  reading of a reply and of a stream of server-sent lines, and the calls around them.  The HTTP
  client is a function of the state; what an answer of a vendor contains is arbitrary JSON, and
  reading a field that is not there, or not of its type, is an exception.
\<close>

section \<open>Reading JSON as Python does\<close>

text \<open>\<open>None\<close> is a \<open>KeyError\<close>, an \<open>AttributeError\<close>, a \<open>TypeError\<close> or a failed validation.\<close>

definition get_key :: "string \<Rightarrow> json \<Rightarrow> json \<Rightarrow> json option" where
  "get_key k v dflt = (case v of JObj kvs \<Rightarrow> Some (case map_of kvs k of None \<Rightarrow> dflt | Some x \<Rightarrow> x) | _ \<Rightarrow> None)"

definition item_of :: "string \<Rightarrow> json \<Rightarrow> json option" where
  "item_of k v = (case v of JObj kvs \<Rightarrow> map_of kvs k | _ \<Rightarrow> None)"

definition has_key :: "string \<Rightarrow> json \<Rightarrow> bool option" where
  "has_key k v = (case v of JObj kvs \<Rightarrow> Some (k \<in> fst ` set kvs) | JList xs \<Rightarrow> Some (JStr k \<in> set xs) | JStr t \<Rightarrow> Some (contains k t)
     | _ \<Rightarrow> None)"

definition iterate :: "json \<Rightarrow> json list option" where
  "iterate v = (case v of JList xs \<Rightarrow> Some xs | JObj kvs \<Rightarrow> Some (map (JStr \<circ> fst) kvs) | JStr t \<Rightarrow> Some (map (\<lambda>c. JStr [c]) t)
     | _ \<Rightarrow> None)"

definition truthy_json :: "json \<Rightarrow> bool" where
  "truthy_json v = (v \<notin> {JNull, JBool False, JInt 0, JReal 0, JStr [], JList [], JObj []})"

definition or_json :: "json \<Rightarrow> json \<Rightarrow> json" where
  "or_json v dflt = (if truthy_json v then v else dflt)"

definition text_of :: "json \<Rightarrow> string option" where
  "text_of v = (case v of JStr t \<Rightarrow> Some t | _ \<Rightarrow> None)"

definition dict_of :: "json \<Rightarrow> json_dict option" where
  "dict_of v = (case v of JObj kvs \<Rightarrow> Some kvs | _ \<Rightarrow> None)"

text \<open>Pydantic's reading of an \<open>int\<close> field.\<close>

definition count_of :: "json \<Rightarrow> int option" where
  "count_of v = (case v of JInt i \<Rightarrow> Some i | JBool b \<Rightarrow> Some (if b then 1 else 0) | JStr t \<Rightarrow> parse_int t
     | JReal x \<Rightarrow> if x = of_int (floor x) then Some (floor x) else None | _ \<Rightarrow> None)"

definition tool_call_of :: "json \<Rightarrow> json \<Rightarrow> json \<Rightarrow> tool_call option" where
  "tool_call_of k n args =
     (case (text_of k, text_of n, dict_of args) of
        (Some i, Some name, Some kvs) \<Rightarrow> Some \<lparr>tc_id = i, tc_name = name, tc_arguments = kvs\<rparr>
      | _ \<Rightarrow> None)"

fun concat_options :: "'a option list \<Rightarrow> 'a list option" where
  "concat_options [] = Some []"
| "concat_options (None # xs) = None"
| "concat_options (Some x # xs) = map_option ((#) x) (concat_options xs)"

definition assistant_message :: "string \<Rightarrow> tool_call list \<Rightarrow> chat_message" where
  "assistant_message content calls =
     \<lparr>cm_role = ASSISTANT, cm_content = content, cm_tool_calls = calls, cm_tool_call_id = None\<rparr>"

section \<open>The HTTP client\<close>

text \<open>A reply is its status and text, a stream its status, its lines and the failure that cuts it off.\<close>

record 's wire =
  wr_post :: "string \<Rightarrow> (string \<times> string) list \<Rightarrow> json \<Rightarrow> 's \<Rightarrow> (py_exc + int \<times> string) \<times> 's"
  wr_stream :: "string \<Rightarrow> (string \<times> string) list \<Rightarrow> json \<Rightarrow> 's \<Rightarrow> (py_exc + int \<times> string list \<times> py_exc option) \<times> 's"

definition is_success :: "int \<Rightarrow> bool" where
  "is_success code = (200 \<le> code \<and> code < 300)"

definition malformed :: py_exc where
  "malformed = Other_exc ''malformed reply''"

definition post_json ::
  "'s wire \<Rightarrow> string \<Rightarrow> (string \<times> string) list \<Rightarrow> json \<Rightarrow> (json \<Rightarrow> 'a option) \<Rightarrow> 's \<Rightarrow> (py_exc + 'a) \<times> 's" where
  "post_json w url headers payload read_body s =
     (case wr_post w url headers payload s of
        (Inl e, s1) \<Rightarrow> (Inl e, s1)
      | (Inr (code, body), s1) \<Rightarrow>
          (if \<not> is_success code then Inl (Http_status code)
           else case loads body of
             None \<Rightarrow> Inl malformed
           | Some v \<Rightarrow> (case read_body v of None \<Rightarrow> Inl malformed | Some x \<Rightarrow> Inr x), s1))"

text \<open>One line of a stream: it goes on with deltas, leaves the loop, or raises after some deltas.\<close>

datatype 'a line_step = Go_on 'a "stream_delta list" | Leave 'a | Raise "stream_delta list"

datatype 'a lines_end = Out_of_lines 'a | Left_loop 'a | Failed_line

fun run_lines :: "('a \<Rightarrow> string \<Rightarrow> 'a line_step) \<Rightarrow> 'a \<Rightarrow> string list \<Rightarrow> stream_delta list \<times> 'a lines_end" where
  "run_lines f a [] = ([], Out_of_lines a)"
| "run_lines f a (l # ls) =
     (case f a l of
        Raise ds \<Rightarrow> (ds, Failed_line)
      | Leave a1 \<Rightarrow> ([], Left_loop a1)
      | Go_on a1 ds \<Rightarrow> (case run_lines f a1 ls of (ds1, e) \<Rightarrow> (ds @ ds1, e)))"

text \<open>\<open>closing\<close> is what follows the loop: the last deltas, or the deltas before an exception.\<close>

definition run_stream ::
  "'s wire \<Rightarrow> string \<Rightarrow> (string \<times> string) list \<Rightarrow> json \<Rightarrow> ('a \<Rightarrow> string \<Rightarrow> 'a line_step) \<Rightarrow> 'a
     \<Rightarrow> ('a \<Rightarrow> stream_delta list \<times> bool) \<Rightarrow> 's \<Rightarrow> (stream_delta list \<times> py_exc option) \<times> 's" where
  "run_stream w url headers payload f start closing s =
     (case wr_stream w url headers payload s of
        (Inl e, s1) \<Rightarrow> (([], Some e), s1)
      | (Inr (code, lines, broken), s1) \<Rightarrow>
          (if \<not> is_success code then ([], Some (Http_status code))
           else case run_lines f start lines of
             (ds, Failed_line) \<Rightarrow> (ds, Some malformed)
           | (ds, Left_loop a) \<Rightarrow> (case closing a of (ds1, ok) \<Rightarrow> (ds @ ds1, if ok then None else Some malformed))
           | (ds, Out_of_lines a) \<Rightarrow>
               (case broken of
                  Some e \<Rightarrow> (ds, Some e)
                | None \<Rightarrow> (case closing a of (ds1, ok) \<Rightarrow> (ds @ ds1, if ok then None else Some malformed))), s1))"

text \<open>The JSON of a \<open>data:\<close> line; other lines are skipped.\<close>

definition data_text :: "string \<Rightarrow> string option" where
  "data_text line = (if starts_with ''data:'' line then Some (strip (drop 5 line)) else None)"

section \<open>Anthropic\<close>

definition anthropic_url :: string where
  "anthropic_url = ''https://api.anthropic.com/v1/messages''"

definition anthropic_headers :: "string \<Rightarrow> (string \<times> string) list" where
  "anthropic_headers key = [(''x-api-key'', key), (''anthropic-version'', ''2023-06-01''), (''content-type'', ''application/json'')]"

definition chat_role_value :: "chat_role \<Rightarrow> string" where
  "chat_role_value r = (case r of SYSTEM \<Rightarrow> ''system'' | USER \<Rightarrow> ''user'' | ASSISTANT \<Rightarrow> ''assistant'' | TOOL \<Rightarrow> ''tool'')"

definition anthropic_use :: "tool_call \<Rightarrow> json" where
  "anthropic_use c = JObj [(''type'', JStr ''tool_use''), (''id'', JStr (tc_id c)), (''name'', JStr (tc_name c)),
     (''input'', JObj (tc_arguments c))]"

definition anthropic_message :: "chat_message \<Rightarrow> json" where
  "anthropic_message m =
     (if cm_role m = TOOL then
        JObj [(''role'', JStr ''user''), (''content'', JList [JObj [(''type'', JStr ''tool_result''),
          (''tool_use_id'', opt_str (cm_tool_call_id m)), (''content'', JStr (cm_content m))]])]
      else if cm_role m = ASSISTANT \<and> cm_tool_calls m \<noteq> [] then
        JObj [(''role'', JStr ''assistant''), (''content'', JList
          ((if cm_content m = [] then [] else [JObj [(''type'', JStr ''text''), (''text'', JStr (cm_content m))]]) @
           map anthropic_use (cm_tool_calls m)))]
      else JObj [(''role'', JStr (chat_role_value (cm_role m))), (''content'', JStr (cm_content m))])"

definition system_texts :: "chat_message list \<Rightarrow> string list" where
  "system_texts ms = map cm_content (filter (\<lambda>m. cm_role m = SYSTEM) ms)"

definition blank_line :: string where
  "blank_line = [CHR 0x0A, CHR 0x0A]"

definition anthropic_payload :: "chat_request \<Rightarrow> json_dict" where
  "anthropic_payload q =
     (let systems = system_texts (cq_messages q) in
      [(''model'', JStr (cq_model q)), (''max_tokens'', JInt (cq_max_tokens q)), (''temperature'', JReal (cq_temperature q)),
       (''messages'', JList (map anthropic_message (filter (\<lambda>m. cm_role m \<noteq> SYSTEM) (cq_messages q))))] @
      (if systems = [] then [] else [(''system'', JStr (join blank_line systems))]) @
      (if cq_tools q = [] then []
       else [(''tools'', JList (map (\<lambda>t. JObj [(''name'', JStr (td_name t)), (''description'', JStr (td_description t)),
               (''input_schema'', td_parameters t)]) (cq_tools q)))]))"

text \<open>The text and the calls of the content blocks, in order.\<close>

fun anthropic_blocks :: "json list \<Rightarrow> (string \<times> tool_call list) option" where
  "anthropic_blocks [] = Some ([], [])"
| "anthropic_blocks (b # bs) =
     (case get_key ''type'' b JNull of
        None \<Rightarrow> None
      | Some t \<Rightarrow>
          if t = JStr ''text'' then
            (case Option.bind (get_key ''text'' b (JStr [])) text_of of
               None \<Rightarrow> None
             | Some x \<Rightarrow> map_option (\<lambda>(u, cs). (x @ u, cs)) (anthropic_blocks bs))
          else if t = JStr ''tool_use'' then
            (case (item_of ''id'' b, item_of ''name'' b, get_key ''input'' b (JObj [])) of
               (Some i, Some n, Some args) \<Rightarrow>
                 (case tool_call_of i n args of
                    None \<Rightarrow> None
                  | Some c \<Rightarrow> map_option (\<lambda>(u, cs). (u, c # cs)) (anthropic_blocks bs))
             | _ \<Rightarrow> None)
          else anthropic_blocks bs)"

definition usage_of :: "json \<Rightarrow> string \<Rightarrow> string \<Rightarrow> chat_usage option" where
  "usage_of usage k_in k_out =
     (case (Option.bind (get_key k_in usage (JInt 0)) count_of, Option.bind (get_key k_out usage (JInt 0)) count_of) of
        (Some i, Some n) \<Rightarrow> Some \<lparr>input_tokens = i, output_tokens = n\<rparr>
      | _ \<Rightarrow> None)"

definition anthropic_finish :: "json \<Rightarrow> finish_reason" where
  "anthropic_finish stop = (if stop = JStr ''tool_use'' then Tool_calls else if stop = JStr ''max_tokens'' then Length else Stop)"

definition anthropic_parse :: "json \<Rightarrow> chat_result option" where
  "anthropic_parse body =
     (case Option.bind (get_key ''content'' body (JList [])) iterate of
        None \<Rightarrow> None
      | Some blocks \<Rightarrow>
          (case anthropic_blocks blocks of
             None \<Rightarrow> None
           | Some (t, calls) \<Rightarrow>
               (case (get_key ''usage'' body (JObj []), get_key ''stop_reason'' body JNull) of
                  (Some usage, Some stop) \<Rightarrow>
                    map_option (\<lambda>u. \<lparr>cs_message = assistant_message t calls, cs_usage = u, cs_finish = anthropic_finish stop\<rparr>)
                      (usage_of usage ''input_tokens'' ''output_tokens'')
                | _ \<Rightarrow> None)))"

definition anthropic_complete :: "'s wire \<Rightarrow> string \<Rightarrow> chat_request \<Rightarrow> ('s, chat_result) operation" where
  "anthropic_complete w key q =
     post_json w anthropic_url (anthropic_headers key) (JObj (anthropic_payload q)) anthropic_parse"

record anthropic_state =
  an_texts :: "string list"
  an_calls :: "tool_call list"
  an_pending :: "(json \<times> json) option"
  an_json :: "json list"
  an_finish :: finish_reason
  an_usage :: chat_usage

definition anthropic_start :: anthropic_state where
  "anthropic_start = \<lparr>an_texts = [], an_calls = [], an_pending = None, an_json = [], an_finish = Stop, an_usage = no_usage\<rparr>"

definition parsed_arguments :: "string \<Rightarrow> json option" where
  "parsed_arguments t = loads (if t = [] then ''{}'' else t)"

definition anthropic_block_start :: "json \<Rightarrow> anthropic_state \<Rightarrow> anthropic_state line_step" where
  "anthropic_block_start ev a =
     (case get_key ''content_block'' ev (JObj []) of
        None \<Rightarrow> Raise []
      | Some b \<Rightarrow>
          (case get_key ''type'' b JNull of
             None \<Rightarrow> Raise []
           | Some t \<Rightarrow>
               if t \<noteq> JStr ''tool_use'' then Go_on a []
               else (case (item_of ''id'' b, item_of ''name'' b) of
                  (Some i, Some n) \<Rightarrow> Go_on (a\<lparr>an_pending := Some (i, n), an_json := []\<rparr>) []
                | _ \<Rightarrow> Raise [])))"

definition anthropic_delta :: "json \<Rightarrow> anthropic_state \<Rightarrow> anthropic_state line_step" where
  "anthropic_delta ev a =
     (case get_key ''delta'' ev (JObj []) of
        None \<Rightarrow> Raise []
      | Some d \<Rightarrow>
          (case get_key ''type'' d JNull of
             None \<Rightarrow> Raise []
           | Some t \<Rightarrow>
               if t = JStr ''text_delta'' then
                 (case Option.bind (item_of ''text'' d) text_of of
                    None \<Rightarrow> Raise []
                  | Some x \<Rightarrow> Go_on (a\<lparr>an_texts := an_texts a @ [x]\<rparr>) [Text_delta x])
               else if t = JStr ''input_json_delta'' then
                 (case get_key ''partial_json'' d (JStr []) of
                    None \<Rightarrow> Raise []
                  | Some p \<Rightarrow> Go_on (a\<lparr>an_json := an_json a @ [p]\<rparr>) [])
               else Go_on a []))"

definition anthropic_block_stop :: "json \<times> json \<Rightarrow> anthropic_state \<Rightarrow> anthropic_state line_step" where
  "anthropic_block_stop pending a =
     (case Option.bind (map_option concat (concat_options (map text_of (an_json a)))) parsed_arguments of
        None \<Rightarrow> Raise []
      | Some args \<Rightarrow>
          (case tool_call_of (fst pending) (snd pending) args of
             None \<Rightarrow> Raise []
           | Some c \<Rightarrow> Go_on (a\<lparr>an_calls := an_calls a @ [c], an_pending := None\<rparr>) [Tool_call_delta (Some c)]))"

definition anthropic_message_delta :: "json \<Rightarrow> anthropic_state \<Rightarrow> anthropic_state line_step" where
  "anthropic_message_delta ev a =
     (case (Option.bind (get_key ''delta'' ev (JObj [])) (\<lambda>d. get_key ''stop_reason'' d JNull),
            Option.bind (get_key ''usage'' ev (JObj [])) (\<lambda>u. get_key ''output_tokens'' u (JInt (output_tokens (an_usage a))))) of
        (Some stop, Some n) \<Rightarrow>
          (case count_of n of
             None \<Rightarrow> Raise []
           | Some i \<Rightarrow> Go_on (a\<lparr>an_finish := (if anthropic_finish stop = Stop then an_finish a else anthropic_finish stop),
               an_usage := (an_usage a)\<lparr>output_tokens := i\<rparr>\<rparr>) [])
      | _ \<Rightarrow> Raise [])"

definition anthropic_event :: "json \<Rightarrow> anthropic_state \<Rightarrow> anthropic_state line_step" where
  "anthropic_event ev a =
     (case get_key ''type'' ev JNull of
        None \<Rightarrow> Raise []
      | Some kind \<Rightarrow>
          if kind = JStr ''content_block_start'' then anthropic_block_start ev a
          else if kind = JStr ''content_block_delta'' then anthropic_delta ev a
          else if kind = JStr ''content_block_stop'' \<and> an_pending a \<noteq> None then anthropic_block_stop (the (an_pending a)) a
          else if kind = JStr ''message_delta'' then anthropic_message_delta ev a
          else Go_on a [])"

definition anthropic_line :: "anthropic_state \<Rightarrow> string \<Rightarrow> anthropic_state line_step" where
  "anthropic_line a line =
     (case data_text line of
        None \<Rightarrow> Go_on a []
      | Some t \<Rightarrow> (case loads t of None \<Rightarrow> Raise [] | Some ev \<Rightarrow> anthropic_event ev a))"

definition anthropic_close :: "anthropic_state \<Rightarrow> stream_delta list \<times> bool" where
  "anthropic_close a =
     ([Done_delta (Some \<lparr>cs_message = assistant_message (concat (an_texts a)) (an_calls a), cs_usage = an_usage a,
        cs_finish = an_finish a\<rparr>)], True)"

definition anthropic_stream ::
  "'s wire \<Rightarrow> string \<Rightarrow> chat_request \<Rightarrow> 's \<Rightarrow> (stream_delta list \<times> py_exc option) \<times> 's" where
  "anthropic_stream w key q =
     run_stream w anthropic_url (anthropic_headers key) (JObj (anthropic_payload q @ [(''stream'', JBool True)]))
       anthropic_line anthropic_start anthropic_close"

definition anthropic_provider :: "'s wire \<Rightarrow> string \<Rightarrow> 's provider" where
  "anthropic_provider w key =
     \<lparr>pv_name = ''anthropic'', pv_complete = anthropic_complete w key, pv_stream = anthropic_stream w key,
      pv_embed = (\<lambda>model texts s. (Inl (Other_exc
        (''Anthropic does not serve embeddings; point the '' @ CHR 0x27 # ''embed'' @ CHR 0x27 # '' alias at another provider'')), s))\<rparr>"

section \<open>OpenAI and compatible servers\<close>

text \<open>\<open>json.dumps\<close> with its default \<open>ensure_ascii\<close>: what is not a printing ASCII character is escaped.\<close>

definition hex_char :: "nat \<Rightarrow> char" where
  "hex_char n = (if n < 10 then char_of (48 + n) else char_of (87 + n))"

definition ascii_char :: "char \<Rightarrow> string" where
  "ascii_char c = (let n = (of_char c :: nat) in
     if n < 127 then [c] else [CHR 0x5C, CHR ''u'', CHR ''0'', CHR ''0'', hex_char (n div 16), hex_char (n mod 16)])"

definition dumps_ascii :: "(real \<Rightarrow> string) \<Rightarrow> json \<Rightarrow> string" where
  "dumps_ascii rep v = concat (map ascii_char (dumps rep v))"

definition openai_headers :: "string option \<Rightarrow> (string \<times> string) list" where
  "openai_headers key = (''content-type'', ''application/json'') #
     (case key of None \<Rightarrow> [] | Some k \<Rightarrow> if k = [] then [] else [(''authorization'', ''Bearer '' @ k)])"

definition openai_call :: "(real \<Rightarrow> string) \<Rightarrow> tool_call \<Rightarrow> json" where
  "openai_call rep c = JObj [(''id'', JStr (tc_id c)), (''type'', JStr ''function''), (''function'', JObj
     [(''name'', JStr (tc_name c)), (''arguments'', JStr (dumps_ascii rep (JObj (tc_arguments c))))])]"

definition openai_message :: "(real \<Rightarrow> string) \<Rightarrow> chat_message \<Rightarrow> json" where
  "openai_message rep m =
     (if cm_role m = TOOL then
        JObj [(''role'', JStr ''tool''), (''tool_call_id'', opt_str (cm_tool_call_id m)), (''content'', JStr (cm_content m))]
      else if cm_role m = ASSISTANT \<and> cm_tool_calls m \<noteq> [] then
        JObj [(''role'', JStr ''assistant''), (''content'', if cm_content m = [] then JNull else JStr (cm_content m)),
          (''tool_calls'', JList (map (openai_call rep) (cm_tool_calls m)))]
      else JObj [(''role'', JStr (chat_role_value (cm_role m))), (''content'', JStr (cm_content m))])"

definition openai_payload :: "(real \<Rightarrow> string) \<Rightarrow> chat_request \<Rightarrow> bool \<Rightarrow> json_dict" where
  "openai_payload rep q streamed =
     [(''model'', JStr (cq_model q)), (''messages'', JList (map (openai_message rep) (cq_messages q))),
      (''temperature'', JReal (cq_temperature q)), (''max_tokens'', JInt (cq_max_tokens q)), (''stream'', JBool streamed)] @
     (if cq_tools q = [] then []
      else [(''tools'', JList (map (\<lambda>t. JObj [(''type'', JStr ''function''), (''function'', JObj
              [(''name'', JStr (td_name t)), (''description'', JStr (td_description t)), (''parameters'', td_parameters t)])]) (cq_tools q)))])"

text \<open>\<open>json.loads(x or "{}")\<close>: a value that is neither empty nor text raises.\<close>

definition loaded_arguments :: "json \<Rightarrow> json option" where
  "loaded_arguments v = Option.bind (text_of (or_json v (JStr ''{}''))) loads"

definition openai_tool_call :: "json \<Rightarrow> tool_call option" where
  "openai_tool_call raw =
     (case (item_of ''id'' raw, Option.bind (item_of ''function'' raw) (item_of ''name''),
            Option.bind (item_of ''function'' raw) (\<lambda>f. Option.bind (get_key ''arguments'' f JNull) loaded_arguments)) of
        (Some i, Some n, Some args) \<Rightarrow> tool_call_of i n args
      | _ \<Rightarrow> None)"

definition openai_finish :: "json \<Rightarrow> finish_reason" where
  "openai_finish reason = (if reason = JStr ''tool_calls'' then Tool_calls else if reason = JStr ''length'' then Length else Stop)"

definition openai_parse_choice :: "json \<Rightarrow> json \<Rightarrow> chat_result option" where
  "openai_parse_choice choice usage =
     (case get_key ''message'' choice (JObj []) of
        None \<Rightarrow> None
      | Some m \<Rightarrow>
          (case (Option.bind (get_key ''tool_calls'' m JNull) (\<lambda>v. Option.bind (iterate (or_json v (JList []))) (\<lambda>xs. concat_options (map openai_tool_call xs))),
                 get_key ''finish_reason'' choice JNull,
                 Option.bind (get_key ''content'' m JNull) (\<lambda>v. text_of (or_json v (JStr []))),
                 usage_of usage ''prompt_tokens'' ''completion_tokens'') of
             (Some calls, Some reason, Some content, Some u) \<Rightarrow>
               Some \<lparr>cs_message = assistant_message content calls, cs_usage = u, cs_finish = openai_finish reason\<rparr>
           | _ \<Rightarrow> None))"

definition openai_parse :: "json \<Rightarrow> chat_result option" where
  "openai_parse body =
     (case (item_of ''choices'' body, get_key ''usage'' body (JObj [])) of
        (Some (JList (choice # rest)), Some usage) \<Rightarrow> openai_parse_choice choice usage
      | _ \<Rightarrow> None)"

definition openai_complete :: "'s wire \<Rightarrow> (real \<Rightarrow> string) \<Rightarrow> string \<Rightarrow> string option \<Rightarrow> chat_request \<Rightarrow> ('s, chat_result) operation" where
  "openai_complete w rep base key q =
     post_json w (base @ ''/chat/completions'') (openai_headers key) (JObj (openai_payload rep q False)) openai_parse"

text \<open>A call that is still coming in: its id, its name and the fragments of its arguments.\<close>

record partial_call =
  pc_id :: json
  pc_name :: json
  pc_args :: "json list"

definition empty_call :: partial_call where
  "empty_call = \<lparr>pc_id = JStr [], pc_name = JStr [], pc_args = []\<rparr>"

record openai_state =
  oi_texts :: "string list"
  oi_partial :: "(int \<times> partial_call) list"
  oi_finish :: finish_reason

definition openai_start :: openai_state where
  "openai_start = \<lparr>oi_texts = [], oi_partial = [], oi_finish = Stop\<rparr>"

definition keep_truthy :: "json \<Rightarrow> json \<Rightarrow> json" where
  "keep_truthy v old = (if truthy_json v then v else old)"

text \<open>One entry of \<open>delta.tool_calls\<close>; its index is an integer, as the API documents it.\<close>

definition openai_fragment :: "json \<Rightarrow> (int \<times> partial_call) list \<Rightarrow> (int \<times> partial_call) list option" where
  "openai_fragment raw partial =
     (case (get_key ''index'' raw (JInt 0), get_key ''id'' raw JNull, get_key ''function'' raw (JObj [])) of
        (Some (JInt i), Some k, Some f) \<Rightarrow>
          (case (get_key ''name'' f JNull, get_key ''arguments'' f JNull) of
             (Some n, Some frag) \<Rightarrow>
               (let slot = (case map_of partial i of None \<Rightarrow> empty_call | Some c \<Rightarrow> c)
                in Some (AList.update i \<lparr>pc_id = keep_truthy k (pc_id slot), pc_name = keep_truthy n (pc_name slot),
                     pc_args = pc_args slot @ (if truthy_json frag then [frag] else [])\<rparr> partial))
           | _ \<Rightarrow> None)
      | _ \<Rightarrow> None)"

fun openai_fragments :: "json list \<Rightarrow> (int \<times> partial_call) list \<Rightarrow> (int \<times> partial_call) list option" where
  "openai_fragments [] partial = Some partial"
| "openai_fragments (raw # raws) partial = Option.bind (openai_fragment raw partial) (openai_fragments raws)"

text \<open>\<open>(chunk.get("choices") or [{}])[0]\<close>.\<close>

definition first_choice :: "json \<Rightarrow> json option" where
  "first_choice chunk =
     (case get_key ''choices'' chunk JNull of
        None \<Rightarrow> None
      | Some v \<Rightarrow> (case or_json v (JList [JObj []]) of JList (x # xs) \<Rightarrow> Some x | JStr (c # cs) \<Rightarrow> Some (JStr [c]) | _ \<Rightarrow> None))"

definition openai_chunk :: "json \<Rightarrow> openai_state \<Rightarrow> openai_state line_step" where
  "openai_chunk chunk a =
     (case first_choice chunk of
        None \<Rightarrow> Raise []
      | Some choice \<Rightarrow>
          (case get_key ''delta'' choice (JObj []) of
             None \<Rightarrow> Raise []
           | Some d \<Rightarrow>
               (case get_key ''content'' d JNull of
                  None \<Rightarrow> Raise []
                | Some content \<Rightarrow>
                    if truthy_json content \<and> text_of content = None then Raise []
                    else
                      (let new = (case text_of content of Some t \<Rightarrow> if t = [] then [] else [t] | None \<Rightarrow> []);
                           ds = map Text_delta new
                       in case Option.bind (get_key ''tool_calls'' d JNull) (\<lambda>v. Option.bind (iterate (or_json v (JList []))) (\<lambda>xs. openai_fragments xs (oi_partial a))) of
                            None \<Rightarrow> Raise ds
                          | Some partial \<Rightarrow>
                              (case get_key ''finish_reason'' choice JNull of
                                 None \<Rightarrow> Raise ds
                               | Some reason \<Rightarrow>
                                   Go_on \<lparr>oi_texts = oi_texts a @ new, oi_partial = partial,
                                     oi_finish = (if truthy_json reason then openai_finish reason else oi_finish a)\<rparr> ds)))))"

definition openai_line :: "openai_state \<Rightarrow> string \<Rightarrow> openai_state line_step" where
  "openai_line a line =
     (case data_text line of
        None \<Rightarrow> Go_on a []
      | Some t \<Rightarrow>
          if t = ''[DONE]'' then Leave a
          else (case loads t of None \<Rightarrow> Raise [] | Some chunk \<Rightarrow> openai_chunk chunk a))"

text \<open>The calls by index; an id that never came is made from the number of calls before.\<close>

fun openai_calls :: "nat \<Rightarrow> partial_call list \<Rightarrow> tool_call list \<times> bool" where
  "openai_calls n [] = ([], True)"
| "openai_calls n (p # ps) =
     (case Option.bind (Option.bind (concat_options (map text_of (pc_args p))) (\<lambda>fs. parsed_arguments (concat fs)))
             (tool_call_of (or_json (pc_id p) (JStr (''call_'' @ show_nat n))) (pc_name p)) of
        None \<Rightarrow> ([], False)
      | Some c \<Rightarrow> (case openai_calls (Suc n) ps of (cs, ok) \<Rightarrow> (c # cs, ok)))"

definition openai_close :: "openai_state \<Rightarrow> stream_delta list \<times> bool" where
  "openai_close a =
     (case openai_calls 0 (map snd (sort_key fst (oi_partial a))) of
        (calls, False) \<Rightarrow> (map (Tool_call_delta \<circ> Some) calls, False)
      | (calls, True) \<Rightarrow>
          (map (Tool_call_delta \<circ> Some) calls @
             [Done_delta (Some \<lparr>cs_message = assistant_message (concat (oi_texts a)) calls, cs_usage = no_usage, cs_finish = oi_finish a\<rparr>)], True))"

definition openai_stream ::
  "'s wire \<Rightarrow> (real \<Rightarrow> string) \<Rightarrow> string \<Rightarrow> string option \<Rightarrow> chat_request \<Rightarrow> 's \<Rightarrow> (stream_delta list \<times> py_exc option) \<times> 's" where
  "openai_stream w rep base key q =
     run_stream w (base @ ''/chat/completions'') (openai_headers key) (JObj (openai_payload rep q True)) openai_line openai_start openai_close"

text \<open>The vectors of an answer are lists of numbers, as documented.\<close>

definition vector_of :: "json \<Rightarrow> real list option" where
  "vector_of v = (case v of
     JList xs \<Rightarrow> concat_options (map (\<lambda>x. case x of JReal r \<Rightarrow> Some r | JInt i \<Rightarrow> Some (of_int i) | _ \<Rightarrow> None) xs) | _ \<Rightarrow> None)"

definition index_of :: "json \<Rightarrow> int option" where
  "index_of item = (case item_of ''index'' item of Some (JInt i) \<Rightarrow> Some i | _ \<Rightarrow> None)"

definition openai_vectors :: "json \<Rightarrow> real list list option" where
  "openai_vectors body =
     (case Option.bind (item_of ''data'' body) iterate of
        None \<Rightarrow> None
      | Some items \<Rightarrow>
          (case concat_options (map index_of items) of
             None \<Rightarrow> None
           | Some keys \<Rightarrow>
               concat_options (map (\<lambda>(i, item). Option.bind (item_of ''embedding'' item) vector_of) (sort_key fst (zip keys items)))))"

definition openai_embed ::
  "'s wire \<Rightarrow> string \<Rightarrow> string option \<Rightarrow> string \<Rightarrow> string list \<Rightarrow> ('s, real list list) operation" where
  "openai_embed w base key model texts =
     post_json w (base @ ''/embeddings'') (openai_headers key) (JObj [(''model'', JStr model), (''input'', JList (map JStr texts))]) openai_vectors"

definition rstrip_slash :: "string \<Rightarrow> string" where
  "rstrip_slash t = rev (dropWhile (\<lambda>c. c = CHR ''/'') (rev t))"

definition openai_provider ::
  "'s wire \<Rightarrow> (real \<Rightarrow> string) \<Rightarrow> string \<Rightarrow> string \<Rightarrow> string option \<Rightarrow> 's provider" where
  "openai_provider w rep name base_url key =
     (let base = rstrip_slash base_url in
      \<lparr>pv_name = name, pv_complete = openai_complete w rep base key, pv_stream = openai_stream w rep base key,
       pv_embed = openai_embed w base key\<rparr>)"

section \<open>Gemini\<close>

definition gemini_base_url :: string where
  "gemini_base_url = ''https://generativelanguage.googleapis.com/v1beta''"

definition gemini_headers :: "string \<Rightarrow> (string \<times> string) list" where
  "gemini_headers key = [(''x-goog-api-key'', key), (''content-type'', ''application/json'')]"

definition unsupported_keys :: "string list" where
  "unsupported_keys = [''title'', ''additionalProperties'', ''$defs'', ''definitions'', ''default'']"

fun strip_unsupported :: "json \<Rightarrow> json" and strip_items :: "json list \<Rightarrow> json list" and strip_fields :: "json_dict \<Rightarrow> json_dict" where
  "strip_unsupported (JObj kvs) = JObj (strip_fields kvs)"
| "strip_unsupported (JList vs) = JList (strip_items vs)"
| "strip_unsupported JNull = JNull"
| "strip_unsupported (JBool b) = JBool b"
| "strip_unsupported (JInt i) = JInt i"
| "strip_unsupported (JReal x) = JReal x"
| "strip_unsupported (JStr t) = JStr t"
| "strip_items [] = []"
| "strip_items (v # vs) = strip_unsupported v # strip_items vs"
| "strip_fields [] = []"
| "strip_fields ((k, v) # kvs) = (if k \<in> set unsupported_keys then strip_fields kvs else (k, strip_unsupported v) # strip_fields kvs)"

definition gemini_result :: "chat_message \<Rightarrow> json" where
  "gemini_result m = JObj [(''functionResponse'', JObj
     [(''name'', JStr (case cm_tool_call_id m of None \<Rightarrow> ''tool'' | Some k \<Rightarrow> if k = [] then ''tool'' else k)),
      (''response'', JObj [(''result'', JStr (cm_content m))])])]"

definition gemini_call :: "tool_call \<Rightarrow> json" where
  "gemini_call c = JObj [(''functionCall'', JObj [(''name'', JStr (tc_name c)), (''args'', JObj (tc_arguments c))])]"

definition gemini_parts :: "chat_message \<Rightarrow> json list" where
  "gemini_parts m =
     (if cm_role m = TOOL then [gemini_result m]
      else (if cm_content m = [] then [] else [JObj [(''text'', JStr (cm_content m))]]) @ map gemini_call (cm_tool_calls m))"

text \<open>A message without parts is left out.\<close>

definition gemini_content :: "chat_message \<Rightarrow> json option" where
  "gemini_content m =
     (if cm_role m = SYSTEM \<or> gemini_parts m = [] then None
      else Some (JObj [(''role'', JStr (if cm_role m = ASSISTANT then ''model'' else ''user'')), (''parts'', JList (gemini_parts m))]))"

definition gemini_payload :: "chat_request \<Rightarrow> json_dict" where
  "gemini_payload q =
     (let systems = system_texts (cq_messages q) in
      [(''contents'', JList (List.map_filter gemini_content (cq_messages q))),
       (''generationConfig'', JObj [(''temperature'', JReal (cq_temperature q)), (''maxOutputTokens'', JInt (cq_max_tokens q))])] @
      (if systems = [] then []
       else [(''systemInstruction'', JObj [(''parts'', JList [JObj [(''text'', JStr (join blank_line systems))]])])]) @
      (if cq_tools q = [] then []
       else [(''tools'', JList [JObj [(''functionDeclarations'', JList (map (\<lambda>t. JObj [(''name'', JStr (td_name t)),
               (''description'', JStr (td_description t)), (''parameters'', strip_unsupported (td_parameters t))]) (cq_tools q)))]])]))"

text \<open>
  The parts of a candidate: a text, or a call whose id is made from its name by \<open>mint\<close>.  A part
  that is no object is passed over when \<open>in\<close> finds neither key in it, and raises otherwise.
\<close>

datatype gemini_part = Gemini_text string | Gemini_call tool_call | Gemini_other

definition gemini_name_text :: "json \<Rightarrow> string option" where
  "gemini_name_text call = Option.bind (get_key ''name'' call (JStr ''call'')) text_of"

definition gemini_part_of :: "(string \<Rightarrow> string) \<Rightarrow> json \<Rightarrow> gemini_part option" where
  "gemini_part_of mint p =
     (case p of
        JObj kvs \<Rightarrow>
          (case map_of kvs ''text'' of
             Some t \<Rightarrow> map_option Gemini_text (text_of t)
           | None \<Rightarrow>
               (case map_of kvs ''functionCall'' of
                  None \<Rightarrow> Some Gemini_other
                | Some call \<Rightarrow>
                    (case (gemini_name_text call, get_key ''name'' call (JStr []), get_key ''args'' call JNull) of
                       (Some n, Some name, Some args) \<Rightarrow>
                         map_option Gemini_call (tool_call_of (JStr (mint n)) name (or_json args (JObj [])))
                     | _ \<Rightarrow> None)))
      | _ \<Rightarrow> if has_key ''text'' p = Some False \<and> has_key ''functionCall'' p = Some False then Some Gemini_other else None)"

text \<open>\<open>candidates[0].get("content", {}).get("parts", [])\<close>, with \<open>candidates = body.get("candidates") or []\<close>.\<close>

definition gemini_candidate :: "json \<Rightarrow> json option option" where
  "gemini_candidate body =
     (case get_key ''candidates'' body JNull of
        None \<Rightarrow> None
      | Some v \<Rightarrow> (case or_json v (JList []) of JList [] \<Rightarrow> Some None | JList (c # cs) \<Rightarrow> Some (Some c) | _ \<Rightarrow> None))"

definition gemini_candidate_parts :: "json \<Rightarrow> json list option" where
  "gemini_candidate_parts c =
     Option.bind (get_key ''content'' c (JObj [])) (\<lambda>v. Option.bind (get_key ''parts'' v (JList [])) iterate)"

definition minted :: "string \<Rightarrow> nat \<Rightarrow> string" where
  "minted name index = name @ ''_'' @ show_nat index"

fun gemini_read_parts :: "nat \<Rightarrow> json list \<Rightarrow> gemini_part list option" where
  "gemini_read_parts i [] = Some []"
| "gemini_read_parts i (p # ps) =
     (case gemini_part_of (\<lambda>n. minted n i) p of
        None \<Rightarrow> None
      | Some x \<Rightarrow> map_option ((#) x) (gemini_read_parts (Suc i) ps))"

definition part_texts :: "gemini_part list \<Rightarrow> string list" where
  "part_texts ps = List.map_filter (\<lambda>p. case p of Gemini_text t \<Rightarrow> Some t | _ \<Rightarrow> None) ps"

definition part_calls :: "gemini_part list \<Rightarrow> tool_call list" where
  "part_calls ps = List.map_filter (\<lambda>p. case p of Gemini_call c \<Rightarrow> Some c | _ \<Rightarrow> None) ps"

definition gemini_finish :: "tool_call list \<Rightarrow> json \<Rightarrow> finish_reason" where
  "gemini_finish calls reason = (if calls \<noteq> [] then Tool_calls else if reason = JStr ''MAX_TOKENS'' then Length else Stop)"

definition gemini_parse :: "json \<Rightarrow> chat_result option" where
  "gemini_parse body =
     (case gemini_candidate body of
        None \<Rightarrow> None
      | Some cand \<Rightarrow>
          (case (case cand of None \<Rightarrow> Some [] | Some c \<Rightarrow> Option.bind (gemini_candidate_parts c) (gemini_read_parts 0),
                 case cand of None \<Rightarrow> Some (JStr []) | Some c \<Rightarrow> get_key ''finishReason'' c JNull,
                 Option.bind (get_key ''usageMetadata'' body (JObj [])) (\<lambda>u. usage_of u ''promptTokenCount'' ''candidatesTokenCount'')) of
             (Some ps, Some reason, Some u) \<Rightarrow>
               Some \<lparr>cs_message = assistant_message (concat (part_texts ps)) (part_calls ps), cs_usage = u,
                     cs_finish = gemini_finish (part_calls ps) reason\<rparr>
           | _ \<Rightarrow> None))"

definition gemini_complete :: "'s wire \<Rightarrow> string \<Rightarrow> string \<Rightarrow> chat_request \<Rightarrow> ('s, chat_result) operation" where
  "gemini_complete w base key q =
     post_json w (base @ ''/models/'' @ cq_model q @ '':generateContent'') (gemini_headers key) (JObj (gemini_payload q)) gemini_parse"

record gemini_state =
  gm_texts :: "string list"
  gm_calls :: "tool_call list"
  gm_usage :: chat_usage
  gm_finish :: finish_reason

definition gemini_start :: gemini_state where
  "gemini_start = \<lparr>gm_texts = [], gm_calls = [], gm_usage = no_usage, gm_finish = Stop\<rparr>"

text \<open>In a stream the id also carries the number of calls before it; the deltas so far and whether a part raised.\<close>

fun gemini_stream_parts :: "nat \<Rightarrow> json list \<Rightarrow> gemini_state \<Rightarrow> stream_delta list \<times> gemini_state option" where
  "gemini_stream_parts i [] a = ([], Some a)"
| "gemini_stream_parts i (p # ps) a =
     (case gemini_part_of (\<lambda>n. minted (minted n (length (gm_calls a))) i) p of
        None \<Rightarrow> ([], None)
      | Some Gemini_other \<Rightarrow> gemini_stream_parts (Suc i) ps a
      | Some (Gemini_text t) \<Rightarrow>
          (case gemini_stream_parts (Suc i) ps (a\<lparr>gm_texts := gm_texts a @ [t]\<rparr>) of (ds, r) \<Rightarrow> (Text_delta t # ds, r))
      | Some (Gemini_call c) \<Rightarrow>
          (case gemini_stream_parts (Suc i) ps (a\<lparr>gm_calls := gm_calls a @ [c]\<rparr>) of (ds, r) \<Rightarrow> (Tool_call_delta (Some c) # ds, r)))"

definition gemini_note_usage :: "json \<Rightarrow> chat_usage \<Rightarrow> chat_usage option" where
  "gemini_note_usage chunk old =
     (case get_key ''usageMetadata'' chunk JNull of
        None \<Rightarrow> None
      | Some meta \<Rightarrow> if truthy_json meta then usage_of meta ''promptTokenCount'' ''candidatesTokenCount'' else Some old)"

definition gemini_chunk :: "json \<Rightarrow> gemini_state \<Rightarrow> gemini_state line_step" where
  "gemini_chunk chunk a =
     (case gemini_candidate chunk of
        None \<Rightarrow> Raise []
      | Some None \<Rightarrow> Go_on a []
      | Some (Some c) \<Rightarrow>
          (case gemini_candidate_parts c of
             None \<Rightarrow> Raise []
           | Some ps \<Rightarrow>
               (case gemini_stream_parts 0 ps a of
                  (ds, None) \<Rightarrow> Raise ds
                | (ds, Some a1) \<Rightarrow>
                    (case (get_key ''finishReason'' c JNull, gemini_note_usage chunk (gm_usage a1)) of
                       (Some reason, Some u) \<Rightarrow>
                         Go_on (a1\<lparr>gm_finish := (if truthy_json reason then gemini_finish [] reason else gm_finish a1), gm_usage := u\<rparr>) ds
                     | _ \<Rightarrow> Raise ds))))"

definition gemini_line :: "gemini_state \<Rightarrow> string \<Rightarrow> gemini_state line_step" where
  "gemini_line a line =
     (case data_text line of
        None \<Rightarrow> Go_on a []
      | Some t \<Rightarrow> (case loads t of None \<Rightarrow> Raise [] | Some chunk \<Rightarrow> gemini_chunk chunk a))"

definition gemini_close :: "gemini_state \<Rightarrow> stream_delta list \<times> bool" where
  "gemini_close a =
     ([Done_delta (Some \<lparr>cs_message = assistant_message (concat (gm_texts a)) (gm_calls a), cs_usage = gm_usage a,
        cs_finish = (if gm_calls a \<noteq> [] then Tool_calls else gm_finish a)\<rparr>)], True)"

definition gemini_stream ::
  "'s wire \<Rightarrow> string \<Rightarrow> string \<Rightarrow> chat_request \<Rightarrow> 's \<Rightarrow> (stream_delta list \<times> py_exc option) \<times> 's" where
  "gemini_stream w base key q =
     run_stream w (base @ ''/models/'' @ cq_model q @ '':streamGenerateContent?alt=sse'') (gemini_headers key)
       (JObj (gemini_payload q)) gemini_line gemini_start gemini_close"

definition gemini_vectors :: "json \<Rightarrow> real list list option" where
  "gemini_vectors body =
     Option.bind (Option.bind (get_key ''embeddings'' body (JList [])) iterate)
       (\<lambda>items. concat_options (map (\<lambda>item. Option.bind (item_of ''values'' item) vector_of) items))"

definition gemini_embed :: "'s wire \<Rightarrow> string \<Rightarrow> string \<Rightarrow> string \<Rightarrow> string list \<Rightarrow> ('s, real list list) operation" where
  "gemini_embed w base key model texts =
     post_json w (base @ ''/models/'' @ model @ '':batchEmbedContents'') (gemini_headers key)
       (JObj [(''requests'', JList (map (\<lambda>t. JObj [(''model'', JStr (''models/'' @ model)),
          (''content'', JObj [(''parts'', JList [JObj [(''text'', JStr t)]])])]) texts))]) gemini_vectors"

definition gemini_provider :: "'s wire \<Rightarrow> string \<Rightarrow> string \<Rightarrow> 's provider" where
  "gemini_provider w base_url key =
     (let base = rstrip_slash base_url in
      \<lparr>pv_name = ''gemini'', pv_complete = gemini_complete w base key, pv_stream = gemini_stream w base key,
       pv_embed = gemini_embed w base key\<rparr>)"

section \<open>The stand-ins\<close>

text \<open>Maximal runs of at least two lower-case letters or digits.\<close>

definition token_char :: "char \<Rightarrow> bool" where
  "token_char c = ((CHR ''a'' \<le> c \<and> c \<le> CHR ''z'') \<or> is_digit c)"

function hash_tokens :: "string \<Rightarrow> string list" where
  "hash_tokens t =
     (if t = [] then []
      else if \<not> token_char (hd t) then hash_tokens (tl t)
      else (let run = takeWhile token_char t
            in (if length run \<ge> 2 then [run] else []) @ hash_tokens (drop (length run) t)))"
  by pat_completeness auto
termination
  by (relation "measure length") (auto simp: neq_Nil_conv)

declare hash_tokens.simps [simp del]

text \<open>\<open>digest\<close> is \<open>blake2b(..., digest_size=8)\<close>, as eight bytes.\<close>

definition bytes_value :: "nat list \<Rightarrow> nat" where
  "bytes_value bs = foldl (\<lambda>n b. 256 * n + b) 0 bs"

definition hash_step :: "(string \<Rightarrow> nat list) \<Rightarrow> string \<Rightarrow> real list \<Rightarrow> real list" where
  "hash_step digest t v =
     (let d = digest t; slot = bytes_value (take 4 d) mod length v
      in v[slot := v ! slot + (if (d ! 4) mod 2 = 0 then 1 else - 1)])"

definition hash_embedding :: "(string \<Rightarrow> nat list) \<Rightarrow> string \<Rightarrow> nat \<Rightarrow> real list" where
  "hash_embedding digest t dimensions =
     (let v = fold (hash_step digest) (hash_tokens (lower t)) (replicate dimensions 0)
      in if vec_norm v = 0 then v else map (\<lambda>x. x / vec_norm v) v)"

definition hash_dimensions :: nat where
  "hash_dimensions = 256"

definition last_user :: "chat_message list \<Rightarrow> string" where
  "last_user ms = (case find (\<lambda>m. cm_role m = USER) (rev ms) of None \<Rightarrow> [] | Some m \<Rightarrow> cm_content m)"

text \<open>The scripted answers come first; the script is the state of the provider.\<close>

definition echo_next :: "chat_result list \<Rightarrow> chat_request \<Rightarrow> chat_result \<times> chat_result list" where
  "echo_next script q =
     (case script of
        r # rest \<Rightarrow> (r, rest)
      | [] \<Rightarrow> (\<lparr>cs_message = assistant_message (''echo: '' @ last_user (cq_messages q)) [], cs_usage = no_usage, cs_finish = Stop\<rparr>, []))"

function chunks_of :: "nat \<Rightarrow> string \<Rightarrow> string list" where
  "chunks_of n t = (if t = [] \<or> n = 0 then [] else take n t # chunks_of n (drop n t))"
  by pat_completeness auto
termination
  by (relation "measure (\<lambda>(n, t). length t)") auto

declare chunks_of.simps [simp del]

definition echo_deltas :: "chat_result \<Rightarrow> stream_delta list" where
  "echo_deltas r =
     map Text_delta (chunks_of 16 (cm_content (cs_message r))) @ map (Tool_call_delta \<circ> Some) (cm_tool_calls (cs_message r)) @
     [Done_delta (Some r)]"

text \<open>The provider of the default router has no script.\<close>

definition echo_provider :: "(string \<Rightarrow> nat list) \<Rightarrow> 's provider" where
  "echo_provider digest =
     \<lparr>pv_name = ''echo'', pv_complete = (\<lambda>q s. (Inr (fst (echo_next [] q)), s)),
      pv_stream = (\<lambda>q s. ((echo_deltas (fst (echo_next [] q)), None), s)),
      pv_embed = (\<lambda>model texts s. (Inr (map (\<lambda>t. hash_embedding digest t hash_dimensions) texts), s))\<rparr>"

end
