(* ===== verification/Vendor_Props.thy ===== *)
theory Vendor_Props
  imports Vendors
begin

text \<open>
  What the adapters give the runtime: what is streamed is what the final message records, a
  conversation can be read back from an OpenAI payload, and the vectors of the stand-in have
  length one; and where the wire formats lose something.
\<close>

section \<open>Streams\<close>

definition delta_texts :: "stream_delta list \<Rightarrow> string" where
  "delta_texts ds = concat (map (\<lambda>d. case d of Text_delta t \<Rightarrow> t | _ \<Rightarrow> []) ds)"

definition delta_calls :: "stream_delta list \<Rightarrow> tool_call list" where
  "delta_calls ds = concat (map (\<lambda>d. case d of Tool_call_delta (Some c) \<Rightarrow> [c] | _ \<Rightarrow> []) ds)"

definition is_done :: "stream_delta \<Rightarrow> bool" where
  "is_done d = (case d of Done_delta r \<Rightarrow> True | _ \<Rightarrow> False)"

lemma delta_simps [simp]:
  "delta_texts [] = []" "delta_texts (Text_delta t # ds) = t @ delta_texts ds"
  "delta_texts (Tool_call_delta oc # ds) = delta_texts ds" "delta_texts (Done_delta r # ds) = delta_texts ds"
  "delta_calls [] = []" "delta_calls (Text_delta t # ds) = delta_calls ds"
  "delta_calls (Tool_call_delta (Some c) # ds) = c # delta_calls ds" "delta_calls (Done_delta r # ds) = delta_calls ds"
  "delta_texts (ds @ es) = delta_texts ds @ delta_texts es" "delta_calls (ds @ es) = delta_calls ds @ delta_calls es"
  "\<not> is_done (Text_delta t)" "\<not> is_done (Tool_call_delta oc)" "is_done (Done_delta r)"
  by (simp_all add: delta_texts_def delta_calls_def is_done_def)

lemma delta_maps [simp]:
  "delta_texts (map Text_delta ts) = concat ts" "delta_calls (map Text_delta ts) = []"
  "delta_calls (map (Tool_call_delta \<circ> Some) cs) = cs" "delta_texts (map (Tool_call_delta \<circ> Some) cs) = []"
  by (induction ts; simp)+ (induction cs; simp)+

text \<open>
  A reader of lines that keeps account of what it yields: \<open>told a\<close> and \<open>called a\<close> are the text and
  the calls it holds in its state, and closing puts them, with the calls it still yields, in
  the final result.
\<close>

locale line_reader =
  fixes step :: "'a \<Rightarrow> string \<Rightarrow> 'a line_step" and start :: 'a and closing :: "'a \<Rightarrow> stream_delta list \<times> bool"
    and told :: "'a \<Rightarrow> string" and called :: "'a \<Rightarrow> tool_call list"
  assumes start: "told start = [] \<and> called start = []"
    and go_on: "step a l = Go_on a1 ds \<Longrightarrow>
      told a1 = told a @ delta_texts ds \<and> called a1 = called a @ delta_calls ds \<and> list_all (\<lambda>d. \<not> is_done d) ds"
    and leave: "step a l = Leave a1 \<Longrightarrow> a1 = a"
    and closing: "closing a = (ds, True) \<Longrightarrow>
      \<exists>es r. ds = es @ [Done_delta (Some r)] \<and> list_all (\<lambda>d. \<not> is_done d) es \<and> delta_texts es = [] \<and>
        cm_content (cs_message r) = told a \<and> cm_tool_calls (cs_message r) = called a @ delta_calls es"
begin

lemma lines_account:
  "run_lines step a ls = (ds, e) \<Longrightarrow> e = Out_of_lines b \<or> e = Left_loop b \<Longrightarrow>
   told b = told a @ delta_texts ds \<and> called b = called a @ delta_calls ds \<and> list_all (\<lambda>d. \<not> is_done d) ds"
proof (induction ls arbitrary: a ds)
  case (Cons l ls)
  show ?case
  proof (cases "step a l")
    case (Go_on a1 ds1)
    then obtain ds2 where ds2: "run_lines step a1 ls = (ds2, e)" "ds = ds1 @ ds2"
      using Cons.prems(1) by (auto split: prod.splits)
    show ?thesis using Cons.IH [OF ds2(1) Cons.prems(2)] go_on [OF Go_on] ds2(2) by simp
  next
    case (Leave a1)
    then show ?thesis using Cons.prems leave [OF Leave] by auto
  qed (use Cons.prems in auto)
qed auto

lemma stream_account:
  assumes "run_stream w url headers payload step start closing s = ((ds, None), s1)"
  shows "\<exists>es r. ds = es @ [Done_delta (Some r)] \<and> list_all (\<lambda>d. \<not> is_done d) es \<and>
    cm_content (cs_message r) = delta_texts es \<and> cm_tool_calls (cs_message r) = delta_calls es"
proof -
  obtain lines ds1 e b ds2 where run: "run_lines step start lines = (ds1, e)" "e = Out_of_lines b \<or> e = Left_loop b"
    and ds2: "closing b = (ds2, True)" "ds = ds1 @ ds2"
    using assms by (auto simp: run_stream_def split: prod.splits sum.splits if_splits lines_end.splits option.splits)
  obtain es r where r: "ds2 = es @ [Done_delta (Some r)]" "list_all (\<lambda>d. \<not> is_done d) es" "delta_texts es = []"
    "cm_content (cs_message r) = told b" "cm_tool_calls (cs_message r) = called b @ delta_calls es"
    using closing [OF ds2(1)] by blast
  have "told b = delta_texts ds1 \<and> called b = delta_calls ds1 \<and> list_all (\<lambda>d. \<not> is_done d) ds1"
    using lines_account [OF run] start by simp
  then show ?thesis using r ds2(2) by (intro exI [of _ "ds1 @ es"] exI [of _ r]) simp
qed

end

lemmas option_cases = bind_eq_Some_conv map_option_case

lemma anthropic_go_on:
  assumes "anthropic_line a l = Go_on a1 ds"
  shows "concat (an_texts a1) = concat (an_texts a) @ delta_texts ds \<and> an_calls a1 = an_calls a @ delta_calls ds \<and>
    list_all (\<lambda>d. \<not> is_done d) ds \<and> input_tokens (an_usage a1) = input_tokens (an_usage a)"
proof -
  have 1: "?thesis" if "anthropic_block_start ev a = Go_on a1 ds" for ev
    using that by (auto simp: anthropic_block_start_def split: option.splits if_splits)
  have 2: "?thesis" if "anthropic_delta ev a = Go_on a1 ds" for ev
    using that by (auto simp: anthropic_delta_def split: option.splits if_splits)
  have 3: "?thesis" if "anthropic_block_stop p a = Go_on a1 ds" for p
    using that by (auto simp: anthropic_block_stop_def split: option.splits if_splits)
  have 4: "?thesis" if "anthropic_message_delta ev a = Go_on a1 ds" for ev
    using that by (auto simp: anthropic_message_delta_def split: option.splits prod.splits)
  show ?thesis using assms 1 2 3 4
    by (simp add: anthropic_line_def anthropic_event_def split: option.splits if_splits)
qed

interpretation anthropic: line_reader anthropic_line anthropic_start anthropic_close "\<lambda>a. concat (an_texts a)" an_calls
proof
  show "anthropic_line a l = Leave a1 \<Longrightarrow> a1 = a" for a l a1
    by (auto simp: anthropic_line_def anthropic_event_def anthropic_block_start_def anthropic_delta_def anthropic_block_stop_def
        anthropic_message_delta_def split: option.splits if_splits prod.splits)
qed (auto simp: anthropic_start_def anthropic_close_def assistant_message_def dest: anthropic_go_on)

lemma openai_go_on:
  assumes "openai_line a l = Go_on a1 ds"
  shows "concat (oi_texts a1) = concat (oi_texts a) @ delta_texts ds \<and> delta_calls ds = [] \<and> list_all (\<lambda>d. \<not> is_done d) ds"
proof -
  have "?thesis" if "openai_chunk chunk a = Go_on a1 ds" for chunk
    using that by (auto simp: openai_chunk_def Let_def split: option.splits if_splits)
  then show ?thesis using assms by (auto simp: openai_line_def split: option.splits if_splits)
qed

lemma openai_close_done:
  assumes "openai_close a = (ds, True)"
  shows "\<exists>es r. ds = es @ [Done_delta (Some r)] \<and> list_all (\<lambda>d. \<not> is_done d) es \<and> delta_texts es = [] \<and>
    cm_content (cs_message r) = concat (oi_texts a) \<and> cm_tool_calls (cs_message r) = delta_calls es \<and> cs_usage r = no_usage"
proof -
  obtain calls where "openai_calls 0 (map snd (sort_key fst (oi_partial a))) = (calls, True)"
    using assms by (auto simp: openai_close_def split: prod.splits bool.splits)
  then show ?thesis using assms
    by (intro exI [of _ "map (Tool_call_delta \<circ> Some) calls"]) (auto simp: openai_close_def assistant_message_def list_all_iff)
qed

interpretation openai: line_reader openai_line openai_start openai_close "\<lambda>a. concat (oi_texts a)" "\<lambda>a. []"
proof
  show "openai_line a l = Leave a1 \<Longrightarrow> a1 = a" for a l a1
    by (auto simp: openai_line_def openai_chunk_def Let_def split: option.splits if_splits)
  show "\<exists>es r. ds = es @ [Done_delta (Some r)] \<and> list_all (\<lambda>d. \<not> is_done d) es \<and> delta_texts es = [] \<and>
      cm_content (cs_message r) = concat (oi_texts a) \<and> cm_tool_calls (cs_message r) = [] @ delta_calls es"
    if "openai_close a = (ds, True)" for a ds
    using openai_close_done [OF that] by auto
qed (auto simp: openai_start_def dest: openai_go_on)

lemma gemini_parts_account:
  "gemini_stream_parts i ps a = (ds, Some a1) \<Longrightarrow>
   concat (gm_texts a1) = concat (gm_texts a) @ delta_texts ds \<and> gm_calls a1 = gm_calls a @ delta_calls ds \<and>
   list_all (\<lambda>d. \<not> is_done d) ds"
proof (induction i ps a arbitrary: ds rule: gemini_stream_parts.induct)
  case (2 i p ps a)
  show ?case
  proof (cases "gemini_part_of (\<lambda>n. minted (minted n (length (gm_calls a))) i) p")
    case (Some x)
    then show ?thesis using 2 by (cases x) (fastforce split: prod.splits)+
  qed (use 2 in simp)
qed simp

lemma gemini_go_on:
  assumes "gemini_line a l = Go_on a1 ds"
  shows "concat (gm_texts a1) = concat (gm_texts a) @ delta_texts ds \<and> gm_calls a1 = gm_calls a @ delta_calls ds \<and>
    list_all (\<lambda>d. \<not> is_done d) ds"
proof -
  have "?thesis" if "gemini_chunk chunk a = Go_on a1 ds" for chunk
    using that by (auto simp: gemini_chunk_def split: option.splits prod.splits dest!: gemini_parts_account)
  then show ?thesis using assms by (auto simp: gemini_line_def split: option.splits)
qed

interpretation gemini: line_reader gemini_line gemini_start gemini_close "\<lambda>a. concat (gm_texts a)" gm_calls
proof
  show "gemini_line a l = Leave a1 \<Longrightarrow> a1 = a" for a l a1
    by (auto simp: gemini_line_def gemini_chunk_def split: option.splits prod.splits)
qed (auto simp: gemini_start_def gemini_close_def assistant_message_def dest: gemini_go_on)

text \<open>C31.  What a vendor streams is what the final result records: a stream that does not raise ends with
  one result, its text is the concatenation of the text deltas before it and its tool calls
  are the call deltas, in order.\<close>

theorem streamed_is_recorded:
  assumes "anthropic_stream w key q s = ((ds, None), s1) \<or> openai_stream w rep base okey q s = ((ds, None), s1) \<or>
           gemini_stream w base key q s = ((ds, None), s1)"
  shows "\<exists>es r. ds = es @ [Done_delta (Some r)] \<and> list_all (\<lambda>d. \<not> is_done d) es \<and>
    cm_content (cs_message r) = delta_texts es \<and> cm_tool_calls (cs_message r) = delta_calls es"
  using assms unfolding anthropic_stream_def openai_stream_def gemini_stream_def
  by (elim disjE) (rule anthropic.stream_account openai.stream_account gemini.stream_account, assumption)+

section \<open>Token counts of streams\<close>

lemma run_lines_invariant:
  assumes "\<And>a l a1 ds. step a l = Go_on a1 ds \<Longrightarrow> inv_of a \<Longrightarrow> inv_of a1" and "\<And>a l a1. step a l = Leave a1 \<Longrightarrow> inv_of a \<Longrightarrow> inv_of a1"
  shows "run_lines step a ls = (ds, e) \<Longrightarrow> inv_of a \<Longrightarrow> e = Out_of_lines b \<or> e = Left_loop b \<Longrightarrow> inv_of b"
proof (induction ls arbitrary: a ds)
  case (Cons l ls)
  then show ?case using assms by (cases "step a l") (auto split: prod.splits)
qed auto

lemma run_stream_closed:
  assumes "run_stream w url headers payload step start closing s = ((ds, None), s1)"
  shows "\<exists>lines ds1 e b ds2. run_lines step start lines = (ds1, e) \<and> (e = Out_of_lines b \<or> e = Left_loop b) \<and>
    closing b = (ds2, True) \<and> ds = ds1 @ ds2"
proof -
  obtain lines ds1 e b ds2 where "run_lines step start lines = (ds1, e)" "e = Out_of_lines b \<or> e = Left_loop b"
    "closing b = (ds2, True)" "ds = ds1 @ ds2"
    using assms by (auto simp: run_stream_def split: prod.splits sum.splits if_splits lines_end.splits option.splits)
  then show ?thesis by blast
qed

text \<open>The token counts of streamed answers are lost: with Anthropic the input tokens of every streamed
  answer are 0, with OpenAI both counts are, whatever the vendor reported.\<close>

theorem streamed_usage_lost:
  "(anthropic_stream w key q s = ((es @ [Done_delta (Some r)], None), s1) \<longrightarrow> input_tokens (cs_usage r) = 0) \<and>
   (openai_stream w rep base okey q s = ((es @ [Done_delta (Some r)], None), s1) \<longrightarrow> cs_usage r = no_usage)"
proof (intro conjI impI)
  assume "anthropic_stream w key q s = ((es @ [Done_delta (Some r)], None), s1)"
  from run_stream_closed [OF this [unfolded anthropic_stream_def]]
  obtain lines ds1 e b ds2 where run: "run_lines anthropic_line anthropic_start lines = (ds1, e)" "e = Out_of_lines b \<or> e = Left_loop b"
    and close: "anthropic_close b = (ds2, True)" "es @ [Done_delta (Some r)] = ds1 @ ds2"
    by blast
  have "input_tokens (an_usage b) = 0"
  proof (rule run_lines_invariant [where inv_of = "\<lambda>a. input_tokens (an_usage a) = 0", OF _ _ run(1) _ run(2)])
    show "input_tokens (an_usage a1) = 0" if "anthropic_line a l = Go_on a1 ds" "input_tokens (an_usage a) = 0" for a l a1 ds
      using anthropic_go_on [OF that(1)] that(2) by simp
    show "input_tokens (an_usage a1) = 0" if "anthropic_line a l = Leave a1" "input_tokens (an_usage a) = 0" for a l a1
      using anthropic.leave [OF that(1)] that(2) by simp
  qed (simp add: anthropic_start_def no_usage_def)
  then show "input_tokens (cs_usage r) = 0" using close by (auto simp: anthropic_close_def)
next
  assume "openai_stream w rep base okey q s = ((es @ [Done_delta (Some r)], None), s1)"
  from run_stream_closed [OF this [unfolded openai_stream_def]]
  obtain ds1 b ds2 where "openai_close b = (ds2, True)" "es @ [Done_delta (Some r)] = ds1 @ ds2"
    by blast
  then show "cs_usage r = no_usage" using openai_close_done [of b ds2] by auto
qed

section \<open>Reading a conversation back\<close>

text \<open>A message as a reader of the OpenAI format finds it.\<close>

definition openai_read :: "json \<Rightarrow> chat_message option" where
  "openai_read v =
     (case (Option.bind (Option.bind (item_of ''role'' v) text_of) role_of_text,
            Option.bind (get_key ''content'' v JNull) (\<lambda>c. text_of (or_json c (JStr []))),
            Option.bind (get_key ''tool_calls'' v (JList [])) (\<lambda>cs. Option.bind (iterate cs) (\<lambda>xs. concat_options (map openai_tool_call xs))),
            get_key ''tool_call_id'' v JNull) of
        (Some role, Some content, Some calls, Some k) \<Rightarrow>
          Some \<lparr>cm_role = role, cm_content = content, cm_tool_calls = calls, cm_tool_call_id = text_of k\<rparr>
      | _ \<Rightarrow> None)"

definition ascii_text :: "string \<Rightarrow> bool" where
  "ascii_text t = list_all (\<lambda>c. (of_char c :: nat) < 127) t"

text \<open>
  Messages as the runtime builds them: calls come from the assistant, call ids belong to results,
  and the arguments print exactly (no floats, no repeated keys) in ASCII.
\<close>

definition sendable :: "(real \<Rightarrow> string) \<Rightarrow> chat_message \<Rightarrow> bool" where
  "sendable rep m =
     ((cm_tool_calls m \<noteq> [] \<longrightarrow> cm_role m = ASSISTANT) \<and> (cm_tool_call_id m \<noteq> None \<longrightarrow> cm_role m = TOOL) \<and>
      (\<forall>c\<in>set (cm_tool_calls m). plain (JObj (tc_arguments c)) \<and> ascii_text (dumps rep (JObj (tc_arguments c)))))"

lemma dumps_ascii_id: "ascii_text (dumps rep v) \<Longrightarrow> dumps_ascii rep v = dumps rep v"
proof -
  have "ascii_text t \<Longrightarrow> concat (map ascii_char t) = t" for t
    by (induction t) (simp_all add: ascii_text_def ascii_char_def Let_def)
  then show "ascii_text (dumps rep v) \<Longrightarrow> ?thesis" by (simp add: dumps_ascii_def)
qed

lemma openai_call_read:
  assumes "plain (JObj (tc_arguments c))" and "ascii_text (dumps rep (JObj (tc_arguments c)))"
  shows "openai_tool_call (openai_call rep c) = Some c"
proof -
  have "loaded_arguments (JStr (dumps_ascii rep (JObj (tc_arguments c)))) = Some (JObj (tc_arguments c))"
    using parse_printed [OF assms(1), of rep] dumps_ascii_id [OF assms(2)]
    by (simp add: loaded_arguments_def or_json_def truthy_json_def text_of_def)
  then show ?thesis
    by (simp add: openai_tool_call_def openai_call_def item_of_def get_key_def tool_call_of_def text_of_def dict_of_def)
qed

lemma concat_options_map: "(\<And>x. x \<in> set xs \<Longrightarrow> f x = Some (g x)) \<Longrightarrow> concat_options (map f xs) = Some (map g xs)"
  by (induction xs) auto

lemma chat_role_of_value [simp]: "role_of_text (chat_role_value r) = Some r"
  by (cases r) (simp_all add: chat_role_value_def role_of_text_def)

lemma openai_message_read:
  assumes "sendable rep m"
  shows "openai_read (openai_message rep m) = Some m"
proof -
  have calls: "concat_options (map (openai_tool_call \<circ> openai_call rep) (cm_tool_calls m)) = Some (cm_tool_calls m)"
    using concat_options_map [of "cm_tool_calls m" "openai_tool_call \<circ> openai_call rep" id] openai_call_read assms
    by (simp add: sendable_def)
  have role: "role_of_text ''tool'' = Some TOOL" "role_of_text ''assistant'' = Some ASSISTANT"
    using chat_role_of_value [of TOOL] chat_role_of_value [of ASSISTANT] by (simp_all add: chat_role_value_def)
  consider "cm_role m = TOOL" | "cm_role m = ASSISTANT" "cm_tool_calls m \<noteq> []" | "cm_role m \<noteq> TOOL" "cm_tool_calls m = []"
    using assms by (auto simp: sendable_def)
  then show ?thesis
  proof cases
    case 1
    then show ?thesis using assms role
      by (cases "cm_tool_call_id m")
         (auto simp: sendable_def openai_message_def openai_read_def item_of_def get_key_def text_of_def or_json_def truthy_json_def
           opt_str_def iterate_def)
  next
    case 2
    then show ?thesis using assms role calls
      by (auto simp: sendable_def openai_message_def openai_read_def item_of_def get_key_def text_of_def or_json_def truthy_json_def
           iterate_def)
  next
    case 3
    then show ?thesis using assms
      by (auto simp: sendable_def openai_message_def openai_read_def item_of_def get_key_def text_of_def or_json_def truthy_json_def
           iterate_def)
  qed
qed

text \<open>The payload for an OpenAI-compatible server loses nothing of the conversation: reading its messages
  back gives the messages of the request, roles, texts, calls with their arguments, and the
  ids that pair results with calls.\<close>

theorem openai_conversation_kept:
  assumes "list_all (sendable rep) (cq_messages q)"
  shows "\<exists>xs. item_of ''messages'' (JObj (openai_payload rep q streamed)) = Some (JList xs) \<and>
    concat_options (map openai_read xs) = Some (cq_messages q)"
proof (intro exI conjI)
  show "item_of ''messages'' (JObj (openai_payload rep q streamed)) = Some (JList (map (openai_message rep) (cq_messages q)))"
    by (simp add: item_of_def openai_payload_def)
  show "concat_options (map openai_read (map (openai_message rep) (cq_messages q))) = Some (cq_messages q)"
    using assms concat_options_map [of "cq_messages q" "openai_read \<circ> openai_message rep" id] openai_message_read
    by (simp add: list_all_iff)
qed

section \<open>Gemini\<close>

lemma minted_longer: "minted n i \<noteq> n"
proof
  assume "minted n i = n"
  then have "length (minted n i) = length n" by simp
  then show False by (simp add: minted_def)
qed

text \<open>Results are not paired with their calls: the name under which Gemini gets the result of a call it
  made is never the name of the function it called.\<close>

theorem gemini_results_unpaired:
  assumes "gemini_part_of (\<lambda>n. minted n i) p = Some (Gemini_call c)"
    and "m = \<lparr>cm_role = TOOL, cm_content = t, cm_tool_calls = [], cm_tool_call_id = Some (tc_id c)\<rparr>"
  shows "\<exists>name res. item_of ''functionResponse'' (gemini_result m) = Some (JObj [(''name'', JStr name), (''response'', res)]) \<and>
    item_of ''functionCall'' (gemini_call c) = Some (JObj [(''name'', JStr (tc_name c)), (''args'', JObj (tc_arguments c))]) \<and>
    name \<noteq> tc_name c"
proof -
  have "tc_id c \<noteq> tc_name c \<and> tc_id c \<noteq> []"
    using assms(1)
    by (auto simp: gemini_part_of_def gemini_name_text_def get_key_def tool_call_of_def text_of_def dict_of_def minted_longer
        bind_eq_Some_conv split: json.splits option.splits if_splits) (auto simp: minted_def)
  then show ?thesis using assms(2) by (simp add: gemini_result_def gemini_call_def item_of_def)
qed

text \<open>The ids minted for one answer are distinct.\<close>

lemma minted_index: "minted m i = minted n j \<Longrightarrow> i = j"
proof -
  assume eq: "minted m i = minted n j"
  have digits: "takeWhile (\<lambda>c. c \<noteq> CHR ''_'') (rev (minted m i)) = rev (show_nat i)" for m i
  proof -
    have "c \<noteq> CHR ''_''" if "c \<in> set (show_nat i)" for c
      using show_nat_digits [of i] that by (auto simp: list_all_iff is_digit_def)
    then show ?thesis by (simp add: minted_def takeWhile_append)
  qed
  have "rev (show_nat i) = rev (show_nat j)" using digits [of m i] digits [of n j] eq by simp
  then show "i = j" by simp
qed

lemma gemini_part_id:
  "gemini_part_of mint p = Some (Gemini_call c) \<Longrightarrow> \<exists>n. tc_id c = mint n"
  by (auto simp: gemini_part_of_def tool_call_of_def text_of_def split: json.splits option.splits if_splits)

lemma part_calls_simps [simp]:
  "part_calls [] = []" "part_calls (Gemini_call c # ps) = c # part_calls ps" "part_calls (Gemini_text t # ps) = part_calls ps"
  "part_calls (Gemini_other # ps) = part_calls ps"
  by (simp_all add: part_calls_def List.map_filter_def)

lemma gemini_read_ids:
  "gemini_read_parts i ps = Some xs \<Longrightarrow>
   distinct (map tc_id (part_calls xs)) \<and> (\<forall>c\<in>set (part_calls xs). \<exists>n j. j \<ge> i \<and> tc_id c = minted n j)"
proof (induction i ps arbitrary: xs rule: gemini_read_parts.induct)
  case (2 i p ps)
  then obtain x ys where x: "gemini_part_of (\<lambda>n. minted n i) p = Some x" "gemini_read_parts (Suc i) ps = Some ys" "xs = x # ys"
    by (auto split: option.splits)
  note IH = "2.IH" [OF x(1,2)]
  have later: "\<forall>c\<in>set (part_calls ys). \<exists>n j. i \<le> j \<and> tc_id c = minted n j" using IH by (meson Suc_leD)
  show ?case
  proof (cases x)
    case (Gemini_call c)
    obtain n where n: "tc_id c = minted n i" using gemini_part_id x(1) Gemini_call by blast
    have "tc_id c \<notin> tc_id ` set (part_calls ys)"
    proof
      assume "tc_id c \<in> tc_id ` set (part_calls ys)"
      then obtain d where d: "d \<in> set (part_calls ys)" "tc_id d = minted n i" using n by auto
      obtain m j where "Suc i \<le> j" "tc_id d = minted m j" using bspec [OF conjunct2 [OF IH] d(1)] by blast
      then have "Suc i \<le> j" "minted n i = minted m j" using d(2) by simp_all
      then show False using minted_index by fastforce
    qed
    then show ?thesis using IH later n x(3) Gemini_call by auto
  qed (use IH later x(3) in simp_all)
qed simp

lemma gemini_ids_distinct: "gemini_parse body = Some r \<Longrightarrow> distinct (map tc_id (cm_tool_calls (cs_message r)))"
  using gemini_read_ids
  by (fastforce simp: gemini_parse_def assistant_message_def bind_eq_Some_conv split: option.splits)

section \<open>Schemas\<close>

lemma unsupported_idem [simp]:
  "strip_unsupported (strip_unsupported v) = strip_unsupported v"
  "strip_items (strip_items vs) = strip_items vs" "strip_fields (strip_fields kvs) = strip_fields kvs"
  by (induction v and vs and kvs rule: strip_unsupported_strip_items_strip_fields.induct) auto

lemma strip_fields_keys: "fst ` set (strip_fields kvs) = fst ` set kvs - set unsupported_keys"
proof (induction kvs)
  case (Cons kv kvs)
  then show ?case by (cases kv) auto
qed simp

section \<open>The hashing stand-in\<close>

lemma hash_step_length [simp]: "length (hash_step digest t v) = length v"
  by (simp add: hash_step_def Let_def)

lemma fold_hash_length: "length (fold (hash_step digest) ts v) = length v"
  by (induction ts arbitrary: v) simp_all

lemma norm_sq: "vec_norm v * vec_norm v = sum_list (map (\<lambda>x. x * x) v)"
proof -
  have "0 \<le> sum_list (map (\<lambda>x. x * x) v)" by (rule sum_list_nonneg) auto
  then show ?thesis by (simp add: vec_norm_def)
qed

lemma scaled_norm: "n \<noteq> 0 \<Longrightarrow> vec_norm (map (\<lambda>x. x / n) v) = vec_norm v / \<bar>n\<bar>"
proof -
  have "sum_list (map (\<lambda>x. x / n * (x / n)) v) = sum_list (map (\<lambda>x. x * x) v) / (n * n)"
    by (induction v) (simp_all add: add_divide_distrib)
  then show ?thesis by (simp add: vec_norm_def comp_def real_sqrt_divide real_sqrt_mult_self)
qed

text \<open>The vectors of the stand-in have the asked width, and length one unless the text has no token; so
  the similarity of two of them is their inner product.\<close>

theorem hash_embedding_unit:
  "length (hash_embedding digest t n) = n \<and>
   (vec_norm (hash_embedding digest t n) = 1 \<or> vec_norm (hash_embedding digest t n) = 0)"
proof -
  have "0 \<le> vec_norm v" for v
    unfolding vec_norm_def by (intro real_sqrt_ge_zero sum_list_nonneg) auto
  then show ?thesis by (simp add: hash_embedding_def Let_def fold_hash_length scaled_norm)
qed

section \<open>Instances\<close>

text \<open>A server whose stream has one line of text and the end mark.\<close>

definition hi_line :: string where
  "hi_line = ''data: {\"choices\":[{\"delta\":{\"content\":\"hi\"}}]}''"

definition bench_wire :: "nat wire" where
  "bench_wire = \<lparr>wr_post = (\<lambda>u h p s. (Inl Network_error, s)), wr_stream = (\<lambda>u h p s. (Inr (200, [hi_line, ''data: [DONE]''], None), s))\<rparr>"

lemma hi_parsed:
  "data_text hi_line = Some ''{\"choices\":[{\"delta\":{\"content\":\"hi\"}}]}''"
  "loads ''{\"choices\":[{\"delta\":{\"content\":\"hi\"}}]}'' =
     Some (JObj [(''choices'', JList [JObj [(''delta'', JObj [(''content'', JStr ''hi'')])]])])"
  "data_text ''data: [DONE]'' = Some ''[DONE]''"
  by code_simp+

definition hi_result :: chat_result where
  "hi_result = \<lparr>cs_message = assistant_message ''hi'' [], cs_usage = no_usage, cs_finish = Stop\<rparr>"

lemma hi_stream:
  "openai_stream bench_wire (\<lambda>x. []) ''b'' None demo_request 0 = (([Text_delta ''hi'', Done_delta (Some hi_result)], None), 0)"
proof -
  have line1: "openai_line openai_start hi_line = Go_on (openai_start\<lparr>oi_texts := [''hi'']\<rparr>) [Text_delta ''hi'']"
    by (simp add: openai_line_def hi_parsed openai_chunk_def first_choice_def get_key_def or_json_def truthy_json_def text_of_def
        iterate_def openai_start_def)
  have line2: "openai_line a ''data: [DONE]'' = Leave a" for a
    by (simp add: openai_line_def hi_parsed)
  have "openai_close (openai_start\<lparr>oi_texts := [''hi'']\<rparr>) = ([Done_delta (Some hi_result)], True)"
    by (simp add: openai_close_def openai_start_def hi_result_def)
  then show ?thesis
    by (simp add: openai_stream_def run_stream_def bench_wire_def is_success_def line1 line2)
qed

theorem streamed_is_recorded_witness:
  "\<exists>es r. [Text_delta ''hi'', Done_delta (Some hi_result)] = es @ [Done_delta (Some r)] \<and>
     list_all (\<lambda>d. \<not> is_done d) es \<and> cm_content (cs_message r) = delta_texts es \<and> cm_tool_calls (cs_message r) = delta_calls es"
  by (rule streamed_is_recorded [OF disjI2, OF disjI1, OF hi_stream])

theorem streamed_usage_lost_witness: "cs_usage hi_result = no_usage"
  using streamed_usage_lost [of bench_wire "[]" demo_request 0 "[Text_delta ''hi'']" hi_result 0 "\<lambda>x. []" "''b''" None] hi_stream
  by simp

definition bench_chat :: "chat_message list" where
  "bench_chat =
     [\<lparr>cm_role = USER, cm_content = ''list it'', cm_tool_calls = [], cm_tool_call_id = None\<rparr>,
      assistant_message [] [\<lparr>tc_id = ''c1'', tc_name = ''fs.list'', tc_arguments = [(''path'', JStr ''src'')]\<rparr>],
      \<lparr>cm_role = TOOL, cm_content = ''ok'', cm_tool_calls = [], cm_tool_call_id = Some ''c1''\<rparr>]"

theorem openai_conversation_kept_witness:
  "\<exists>xs. item_of ''messages'' (JObj (openai_payload (\<lambda>x. []) (demo_request\<lparr>cq_messages := bench_chat\<rparr>) True)) = Some (JList xs) \<and>
     concat_options (map openai_read xs) = Some bench_chat"
proof -
  have "ascii_text (dumps (\<lambda>x. []) (JObj [(''path'', JStr ''src'')]))"
    by (simp add: ascii_text_def dump_str_def escape_char_def Let_def)
  then have "list_all (sendable (\<lambda>x. [])) (cq_messages (demo_request\<lparr>cq_messages := bench_chat\<rparr>))"
    by (simp add: bench_chat_def sendable_def assistant_message_def)
  from openai_conversation_kept [OF this, of True] show ?thesis by simp
qed

definition bench_part :: json where
  "bench_part = JObj [(''functionCall'', JObj [(''name'', JStr ''fs.list'')])]"

definition bench_call :: tool_call where
  "bench_call = \<lparr>tc_id = ''fs.list_0'', tc_name = ''fs.list'', tc_arguments = []\<rparr>"

definition bench_answer :: chat_message where
  "bench_answer = \<lparr>cm_role = TOOL, cm_content = ''ok'', cm_tool_calls = [], cm_tool_call_id = Some (tc_id bench_call)\<rparr>"

theorem gemini_results_unpaired_witness:
  "\<exists>name res. item_of ''functionResponse'' (gemini_result bench_answer) = Some (JObj [(''name'', JStr name), (''response'', res)]) \<and>
     item_of ''functionCall'' (gemini_call bench_call) = Some (JObj [(''name'', JStr (tc_name bench_call)), (''args'', JObj (tc_arguments bench_call))]) \<and>
     name \<noteq> tc_name bench_call"
proof -
  have id: "minted ''fs.list'' 0 = ''fs.list_0''" by code_simp
  show ?thesis
  proof (rule gemini_results_unpaired [where i = 0 and p = bench_part and t = "''ok''"])
    show "gemini_part_of (\<lambda>n. minted n 0) bench_part = Some (Gemini_call bench_call)"
      by (simp add: gemini_part_of_def bench_part_def bench_call_def gemini_name_text_def get_key_def text_of_def tool_call_of_def
        dict_of_def or_json_def truthy_json_def id)
  qed (simp add: bench_answer_def)
qed

end
