(* ===== verification/Pagination.thy ===== *)
theory Pagination
  imports Calendar Errors Adapters
begin

text \<open>
  \<open>pagination.py\<close>: keyset pages, newest first, with cursors that carry the timestamp and the id of
  the last row seen.  A table is a list of rows with its two columns; \<open>from_iso\<close> is
  \<open>datetime.fromisoformat\<close>, which reads more forms than \<open>isoformat\<close> writes.
\<close>

section \<open>Cursors\<close>

type_synonym cursor = "instant \<times> ident"

definition no_padding :: "string \<Rightarrow> string" where
  "no_padding t = rev (dropWhile (\<lambda>c. c = CHR ''='') (rev t))"

definition encode_cursor :: "cursor \<Rightarrow> string" where
  "encode_cursor c = no_padding (map url_char (b64_encode (iso_format (fst c) @ ''|'' @ snd c)))"

definition padding_for :: "string \<Rightarrow> string" where
  "padding_for t = replicate ((4 - length t mod 4) mod 4) CHR ''=''"

text \<open>The bytes are UTF-8 when replacing what is not changes nothing.\<close>

definition valid_utf8 :: "string \<Rightarrow> bool" where
  "valid_utf8 t = (decode_lossy t = t)"

definition malformed_cursor :: "string \<Rightarrow> hx_error" where
  "malformed_cursor token = \<lparr>er_kind = Validation_failed, er_message = ''malformed cursor: '' @ py_repr token, er_context = []\<rparr>"

definition decode_cursor :: "(string \<Rightarrow> instant option) \<Rightarrow> string \<Rightarrow> hx_error + cursor" where
  "decode_cursor from_iso token =
     (case url_b64_decode (JStr (token @ padding_for token)) of
        None \<Rightarrow> Inl (malformed_cursor token)
      | Some raw \<Rightarrow>
          if \<not> valid_utf8 raw \<or> part_after (CHR ''|'') raw = [] then Inl (malformed_cursor token)
          else (case from_iso (part_before (CHR ''|'') raw) of
            None \<Rightarrow> Inl (malformed_cursor token)
          | Some t \<Rightarrow> Inr (t, part_after (CHR ''|'') raw)))"

section \<open>Pages\<close>

definition resolve_page_size :: "int option \<Rightarrow> int \<Rightarrow> int \<Rightarrow> hx_error + int" where
  "resolve_page_size requested dflt maximum =
     (case requested of
        None \<Rightarrow> Inr dflt
      | Some n \<Rightarrow>
          if n < 1 then Inl \<lparr>er_kind = Validation_failed, er_message = ''limit must be at least 1'', er_context = []\<rparr>
          else Inr (min n maximum))"

type_synonym 'r columns = "'r \<Rightarrow> cursor"

definition newest_first :: "'r columns \<Rightarrow> 'r list \<Rightarrow> 'r list" where
  "newest_first key rows = rev (sort_key key rows)"

text \<open>\<open>created < anchor.created or (created = anchor.created and id < anchor.id)\<close>.\<close>

definition past_anchor :: "cursor \<Rightarrow> cursor \<Rightarrow> bool" where
  "past_anchor anchor k = (fst k < fst anchor \<or> (fst k = fst anchor \<and> snd k < snd anchor))"

definition apply_keyset ::
  "(string \<Rightarrow> instant option) \<Rightarrow> 'r columns \<Rightarrow> string option \<Rightarrow> nat \<Rightarrow> 'r list \<Rightarrow> hx_error + 'r list" where
  "apply_keyset from_iso key token limit rows =
     (case token of
        None \<Rightarrow> Inr (take (limit + 1) (newest_first key rows))
      | Some t \<Rightarrow>
          if t = [] then Inr (take (limit + 1) (newest_first key rows))
          else (case decode_cursor from_iso t of
            Inl e \<Rightarrow> Inl e
          | Inr anchor \<Rightarrow> Inr (take (limit + 1) (filter (\<lambda>r. past_anchor anchor (key r)) (newest_first key rows)))))"

record 'r page =
  pg_items :: "'r list"
  pg_next :: "string option"

definition build_page :: "'r columns \<Rightarrow> nat \<Rightarrow> 'r list \<Rightarrow> 'r page" where
  "build_page key limit rows =
     (let items = take limit rows
      in \<lparr>pg_items = items,
          pg_next = (if length rows > limit \<and> items \<noteq> [] then Some (encode_cursor (key (List.last items))) else None)\<rparr>)"

definition page_dict :: "('r \<Rightarrow> json) \<Rightarrow> 'r page \<Rightarrow> json_dict" where
  "page_dict serialize p = [(''items'', JList (map serialize (pg_items p))), (''next_cursor'', opt_str (pg_next p))]"

text \<open>A client that follows the cursors: the pages it sees, \<open>tables i\<close> being the rows at its request \<open>i\<close>.\<close>

fun follow_pages ::
  "(string \<Rightarrow> instant option) \<Rightarrow> 'r columns \<Rightarrow> nat \<Rightarrow> (nat \<Rightarrow> 'r list) \<Rightarrow> nat \<Rightarrow> string option \<Rightarrow> nat
     \<Rightarrow> 'r list list option" where
  "follow_pages from_iso key limit tables i token 0 = None"
| "follow_pages from_iso key limit tables i token (Suc n) =
     (case apply_keyset from_iso key token limit (tables i) of
        Inl e \<Rightarrow> None
      | Inr rows \<Rightarrow>
          (let p = build_page key limit rows in
           case pg_next p of
             None \<Rightarrow> Some [pg_items p]
           | Some t \<Rightarrow> map_option ((#) (pg_items p)) (follow_pages from_iso key limit tables (Suc i) (Some t) n)))"

section \<open>The round trip of a cursor\<close>

definition cursor_char :: "char \<Rightarrow> bool" where
  "cursor_char c = (c \<notin> {CHR ''='', CHR ''-'', CHR ''_''} \<and> (of_char c :: nat) < 128)"

lemma b64_cursor_char: "v < 64 \<Longrightarrow> cursor_char (b64_char v)"
proof -
  assume v: "v < 64"
  have code: "(of_char (b64_char v) :: nat) =
      (if v < 26 then 65 + v else if v < 52 then 71 + v else if v < 62 then v - 4 else if v = 62 then 43 else 47)"
    using v by (simp add: b64_char_def)
  have "(of_char (b64_char v) :: nat) \<notin> {61, 45, 95}" "(of_char (b64_char v) :: nat) < 128" unfolding code using v by auto
  then show ?thesis by (auto simp: cursor_char_def)
qed

lemma cursor_chars:
  "p < 64 \<Longrightarrow> q < 64 \<Longrightarrow> list_all cursor_char [b64_char p, b64_char q]"
  "p < 64 \<Longrightarrow> q < 64 \<Longrightarrow> r < 64 \<Longrightarrow> list_all cursor_char [b64_char p, b64_char q, b64_char r]"
  "p < 64 \<Longrightarrow> q < 64 \<Longrightarrow> r < 64 \<Longrightarrow> u < 64 \<Longrightarrow> list_all cursor_char [b64_char p, b64_char q, b64_char r, b64_char u]"
  by (simp_all add: b64_cursor_char)

lemma length_four: "length [a, b, c, d] = 4"
  by simp

lemma b64_group: "\<exists>q. b64_encode (a # b # c # r) = q @ b64_encode r \<and> length q = 4 \<and> list_all cursor_char q"
proof (intro exI conjI)
  show "b64_encode (a # b # c # r) =
      [b64_char (of_char a div 4), b64_char (of_char a mod 4 * 16 + of_char b div 16),
       b64_char (of_char b mod 16 * 4 + of_char c div 64), b64_char (of_char c mod 64)] @ b64_encode r"
    by (simp only: b64_encode.simps Let_def append.simps)
  show "list_all cursor_char [b64_char (of_char a div 4), b64_char (of_char a mod 4 * 16 + of_char b div 16),
       b64_char (of_char b mod 16 * 4 + of_char c div 64), b64_char (of_char c mod 64)]"
    by (rule cursor_chars(3)) (rule byte_parts)+
qed (rule length_four)

definition b64_shaped :: "string \<Rightarrow> bool" where
  "b64_shaped e = (\<exists>t k. e = t @ replicate k CHR ''='' \<and> k < 4 \<and> (length t + k) mod 4 = 0 \<and> list_all cursor_char t)"

lemma b64_shapedI: "e = t @ replicate k CHR ''='' \<Longrightarrow> k < 4 \<Longrightarrow> (length t + k) mod 4 = 0 \<Longrightarrow> list_all cursor_char t \<Longrightarrow> b64_shaped e"
  unfolding b64_shaped_def by (intro exI conjI)

lemma b64_shapedE:
  assumes "b64_shaped e"
  obtains t k where "e = t @ replicate k CHR ''=''" "k < 4" "(length t + k) mod 4 = 0" "list_all cursor_char t"
  using assms unfolding b64_shaped_def by (elim exE conjE)

lemma b64_shape: "b64_shaped (b64_encode s)"
proof (induction s rule: b64_encode.induct)
  case 1
  show ?case by (rule b64_shapedI [of _ "[]" 0]) simp_all
next
  case (2 a)
  show ?case
  proof (rule b64_shapedI [of _ _ 2])
    show "b64_encode [a] = [b64_char (of_char a div 4), b64_char (of_char a mod 4 * 16)] @ replicate 2 CHR ''=''"
      by (simp only: b64_encode.simps Let_def append.simps) (simp add: numeral_2_eq_2)
    show "list_all cursor_char [b64_char (of_char a div 4), b64_char (of_char a mod 4 * 16)]"
      by (rule cursor_chars(1)) (rule byte_parts)+
  qed simp_all
next
  case (3 a b)
  show ?case
  proof (rule b64_shapedI [of _ _ 1])
    show "b64_encode [a, b] = [b64_char (of_char a div 4), b64_char (of_char a mod 4 * 16 + of_char b div 16), b64_char (of_char b mod 16 * 4)] @
        replicate 1 CHR ''=''"
      by (simp only: b64_encode.simps Let_def append.simps) simp
    show "list_all cursor_char [b64_char (of_char a div 4), b64_char (of_char a mod 4 * 16 + of_char b div 16), b64_char (of_char b mod 16 * 4)]"
      by (rule cursor_chars(2)) (rule byte_parts)+
  qed simp_all
next
  case (4 a b c r)
  obtain t k where t: "b64_encode r = t @ replicate k CHR ''=''" "k < 4" "(length t + k) mod 4 = 0" "list_all cursor_char t"
    by (rule b64_shapedE [OF 4 [OF refl refl refl]])
  obtain q where q: "b64_encode (a # b # c # r) = q @ b64_encode r" "length q = 4" "list_all cursor_char q"
    using b64_group by blast
  have "length (q @ t) + k = 4 + (length t + k)" using q(2) by simp
  also have "\<dots> mod 4 = 0" using t(3) mod_add_self1 [of 4 "length t + k"] by argo
  finally show ?case using t q by (intro b64_shapedI [of _ "q @ t" k]) simp_all
qed

lemma cursor_char_url: "list_all cursor_char t \<Longrightarrow>
    map url_back (map url_char t) = t \<and> CHR ''='' \<notin> set (map url_char t) \<and> is_ascii (map url_char t)"
  by (induction t) (auto simp: cursor_char_def url_back_def url_char_def is_ascii_def)

lemma no_padding_pads: "CHR ''='' \<notin> set t \<Longrightarrow> no_padding (t @ replicate k CHR ''='') = t"
  by (cases t rule: rev_cases) (auto simp: no_padding_def dropWhile_append3 simp flip: replicate_append_same)

text \<open>What is left of the padding determines it.\<close>

lemma padding_back: "k < 4 \<Longrightarrow> (length t + k) mod 4 = 0 \<Longrightarrow> padding_for t = replicate k CHR ''=''"
proof -
  assume k: "k < 4" "(length t + k) mod 4 = 0"
  define m where "m = length t mod 4"
  have "m < 4" "(m + k) mod 4 = 0" using k(2) by (simp_all add: m_def mod_add_left_eq)
  moreover have "m = 0 \<or> m = 1 \<or> m = 2 \<or> m = 3" "k = 0 \<or> k = 1 \<or> k = 2 \<or> k = 3"
    using k(1) \<open>m < 4\<close> by linarith+
  ultimately have "(4 - m) mod 4 = k" by (elim disjE) simp_all
  then show ?thesis by (simp add: padding_for_def m_def)
qed

lemma token_decodes:
  "url_b64_decode (JStr (no_padding (map url_char (b64_encode s)) @ padding_for (no_padding (map url_char (b64_encode s))))) = Some s"
proof -
  obtain t k where t: "b64_encode s = t @ replicate k CHR ''=''" "k < 4" "(length t + k) mod 4 = 0" "list_all cursor_char t"
    by (rule b64_shapedE [OF b64_shape])
  have pad: "map url_char (replicate k CHR ''='') = replicate k CHR ''=''" "map url_back (replicate k CHR ''='') = replicate k CHR ''=''"
    "is_ascii (replicate k CHR ''='')"
    by (simp_all add: url_char_def url_back_def is_ascii_def list_all_iff)
  have stripped: "no_padding (map url_char t @ replicate k CHR ''='') = map url_char t"
    using cursor_char_url [OF t(4)] by (intro no_padding_pads) simp
  have token: "no_padding (map url_char (b64_encode s)) = map url_char t" by (simp only: t(1) map_append pad(1) stripped)
  have "padding_for (map url_char t) = replicate k CHR ''=''" using t(2,3) by (intro padding_back) simp_all
  moreover have "is_ascii (map url_char t @ replicate k CHR ''='')"
    using cursor_char_url [OF t(4)] pad(3) by (simp add: is_ascii_def)
  moreover have "map url_back (map url_char t @ replicate k CHR ''='') = b64_encode s"
    using cursor_char_url [OF t(4)] pad(2) t(1) by (metis map_append)
  ultimately show ?thesis unfolding token url_b64_decode_def by (simp add: b64_round del: map_map)
qed

lemma ascii_utf8: "is_ascii t \<Longrightarrow> valid_utf8 t"
  by (simp add: valid_utf8_def decode_ascii)

lemma show_int_chars: "c \<in> set (show_int n) \<Longrightarrow> is_digit c \<or> c = CHR ''-''"
  using show_nat_digits [of "nat n"] show_nat_digits [of "nat (- n)"] by (auto simp: show_int_def list_all_iff split: if_splits)

lemma iso_chars: "c \<in> set (iso_format t) \<Longrightarrow> is_digit c \<or> c \<in> {CHR ''-'', CHR ''T'', CHR '':'', CHR ''.''}"
proof -
  have pad: "is_digit c \<or> c = CHR ''-''" if "c \<in> set (pad w n)" for w n
    using that show_int_chars by (auto simp: pad_def Let_def is_digit_def split: if_splits)
  show "c \<in> set (iso_format t) \<Longrightarrow> ?thesis" by (auto simp: iso_format_def Let_def dest!: pad split: if_splits)
qed

lemma iso_ascii: "is_ascii (iso_format t) \<and> CHR ''|'' \<notin> set (iso_format t)"
proof -
  have "(of_char c :: nat) < 128 \<and> c \<noteq> CHR ''|''" if "c \<in> set (iso_format t)" for c
    using iso_chars [OF that] by (auto simp: is_digit_code)
  then show ?thesis by (auto simp: is_ascii_def list_all_iff)
qed

lemma split_at_bar: "CHR ''|'' \<notin> set a \<Longrightarrow> part_before (CHR ''|'') (a @ CHR ''|'' # b) = a \<and> part_after (CHR ''|'') (a @ CHR ''|'' # b) = b"
  by (induction a) (auto simp: part_before_def part_after_def)

lemma cursor_decodes:
  assumes "k \<noteq> []" and "is_ascii k" and "from_iso (iso_format t) = Some t"
  shows "decode_cursor from_iso (encode_cursor (t, k)) = Inr (t, k)"
proof -
  have "valid_utf8 (iso_format t @ CHR ''|'' # k)"
    using iso_ascii [of t] assms(2) by (intro ascii_utf8) (simp add: is_ascii_def)
  then show ?thesis using split_at_bar [of "iso_format t" k] iso_ascii [of t] assms(1,3)
    by (simp add: decode_cursor_def encode_cursor_def token_decodes)
qed

lemma cursor_nonempty:
  assumes "k \<noteq> []" and "is_ascii k" and "from_iso (iso_format t) = Some t"
  shows "encode_cursor (t, k) \<noteq> []"
proof
  assume "encode_cursor (t, k) = []"
  then have "decode_cursor from_iso [] = Inr (t, k)" using cursor_decodes [of k from_iso t] assms by simp
  then show False
    by (simp add: decode_cursor_def url_b64_decode_def padding_for_def is_ascii_def b64_decode_def part_after_def split: if_splits)
qed

section \<open>Reading what \<open>isoformat\<close> writes\<close>

definition read_digits :: "string \<Rightarrow> int option" where
  "read_digits t = (if t \<noteq> [] \<and> list_all is_digit t then Some (int (digits_val t)) else None)"

text \<open>Of the forms \<open>fromisoformat\<close> reads, the one without an offset.\<close>

definition read_iso :: "string \<Rightarrow> instant option" where
  "read_iso t =
     (case (read_digits (take 4 t), read_digits (take 2 (drop 5 t)), read_digits (take 2 (drop 8 t)), read_digits (take 2 (drop 11 t)),
            read_digits (take 2 (drop 14 t)), read_digits (take 2 (drop 17 t))) of
        (Some y, Some mo, Some d, Some h, Some mi, Some sec) \<Rightarrow>
          (let rest = drop 19 t;
               at_pos = (\<lambda>us. instant_of \<lparr>cv_year = y, cv_month = mo, cv_day = d, cv_hour = h, cv_minute = mi, cv_second = sec, cv_micro = us\<rparr>)
           in if rest = [] then Some (at_pos 0)
              else if hd rest = CHR ''.'' \<and> length rest = 7 then map_option at_pos (read_digits (tl rest)) else None)
      | _ \<Rightarrow> None)"

lemma digits_val_zeros: "digits_val (replicate k CHR ''0'' @ t) = digits_val t"
  by (induction k) (simp_all add: digits_val_def digit_val_def)

lemma pad_reads:
  assumes "0 \<le> n" and "n < 10 ^ w" and "0 < w"
  shows "length (pad w n) = w \<and> read_digits (pad w n) = Some n"
proof -
  have len: "length (show_nat (nat n)) \<le> w" using assms by (intro show_nat_length) (simp_all add: nat_less_iff)
  have "list_all is_digit (replicate k CHR ''0'')" for k by (simp add: list_all_iff is_digit_def)
  then show ?thesis using assms len show_nat_digits [of "nat n"]
    by (auto simp: pad_def Let_def show_int_def read_digits_def digits_val_zeros)
qed

lemma civil_ranges:
  "0 \<le> cv_month (civil_of t) \<and> cv_month (civil_of t) < 100 \<and> 0 \<le> cv_day (civil_of t) \<and> cv_day (civil_of t) < 100 \<and>
   0 \<le> cv_hour (civil_of t) \<and> cv_hour (civil_of t) < 100 \<and> 0 \<le> cv_minute (civil_of t) \<and> cv_minute (civil_of t) < 100 \<and>
   0 \<le> cv_second (civil_of t) \<and> cv_second (civil_of t) < 100 \<and> 0 \<le> cv_micro (civil_of t) \<and> cv_micro (civil_of t) < 1000000"
proof -
  define doe where "doe = (day_number t + 719468) mod 146097"
  define century where "century = min 3 (doe div 36524)"
  define cycle where "cycle = (doe - 36524 * century) div 1461"
  define yr where "yr = min 3 ((doe - 36524 * century - 1461 * cycle) div 365)"
  define doy where "doy = doe - 36524 * century - 1461 * cycle - 365 * yr"
  define mp where "mp = (5 * doy + 2) div 153"
  define us where "us = t mod 86400000000"
  have "0 \<le> doe" "doe < 146097" by (simp_all add: doe_def)
  from civil_parts [OF this] have doy: "0 \<le> doy" "doy \<le> 365" by (simp_all only: century_def cycle_def yr_def doy_def)
  have mp: "0 \<le> mp" "mp \<le> 11" using march_month [OF doy] by (simp_all add: mp_def)
  have day: "0 \<le> doy - (153 * mp + 2) div 5 + 1" "doy - (153 * mp + 2) div 5 + 1 < 100"
  proof -
    have "153 * mp \<le> 5 * doy + 2" "5 * doy + 2 < 153 * mp + 153" by (simp_all add: mp_def)
    moreover have "5 * ((153 * mp + 2) div 5) \<le> 153 * mp + 2" "153 * mp + 2 < 5 * ((153 * mp + 2) div 5) + 5" by linarith+
    ultimately show "0 \<le> doy - (153 * mp + 2) div 5 + 1" "doy - (153 * mp + 2) div 5 + 1 < 100" by linarith+
  qed
  have us: "0 \<le> us" "us < 86400000000" by (simp_all add: us_def)
  have fields: "cv_month (civil_of t) = (if mp < 10 then mp + 3 else mp - 9)" "cv_day (civil_of t) = doy - (153 * mp + 2) div 5 + 1"
    "cv_hour (civil_of t) = us div 3600000000" "cv_minute (civil_of t) = us div 60000000 mod 60"
    "cv_second (civil_of t) = us div 1000000 mod 60" "cv_micro (civil_of t) = us mod 1000000"
    by (simp_all only: civil_of_def Let_def civil.select_convs doe_def century_def cycle_def yr_def doy_def mp_def us_def)
  have hour: "0 \<le> us div 3600000000" "us div 3600000000 < 100" using us by simp_all
  have rest: "0 \<le> n mod 60" "n mod 60 < 100" for n :: int using pos_mod_bound [of 60 n] by simp_all
  show ?thesis unfolding fields using mp day hour rest by auto
qed

text \<open>What \<open>read_iso\<close> takes from a text laid out like that of \<open>isoformat\<close>.\<close>

lemma read_iso_fields:
  assumes "length y = 4" "length mo = 2" "length d = 2" "length h = 2" "length mi = 2" "length s = 2"
    and "read_digits y = Some yv" "read_digits mo = Some mv" "read_digits d = Some dv" "read_digits h = Some hv"
    "read_digits mi = Some iv" "read_digits s = Some sv"
  shows "read_iso (y @ ''-'' @ mo @ ''-'' @ d @ ''T'' @ h @ '':'' @ mi @ '':'' @ s @ rest) =
    (let at_pos = (\<lambda>us. instant_of \<lparr>cv_year = yv, cv_month = mv, cv_day = dv, cv_hour = hv, cv_minute = iv, cv_second = sv, cv_micro = us\<rparr>)
     in if rest = [] then Some (at_pos 0)
        else if hd rest = CHR ''.'' \<and> length rest = 7 then map_option at_pos (read_digits (tl rest)) else None)"
proof -
  let ?t = "y @ ''-'' @ mo @ ''-'' @ d @ ''T'' @ h @ '':'' @ mi @ '':'' @ s @ rest"
  have "take 4 ?t = y" "take 2 (drop 5 ?t) = mo" "take 2 (drop 8 ?t) = d" "take 2 (drop 11 ?t) = h" "take 2 (drop 14 ?t) = mi"
    "take 2 (drop 17 ?t) = s" "drop 19 ?t = rest"
    using assms(1-6) by (simp_all add: drop_Cons')
  then show ?thesis unfolding read_iso_def using assms(7-12) by (simp only: prod.case option.case) (simp only: Let_def)
qed

lemma civil_again:
  "instant_of \<lparr>cv_year = cv_year (civil_of t), cv_month = cv_month (civil_of t), cv_day = cv_day (civil_of t), cv_hour = cv_hour (civil_of t),
     cv_minute = cv_minute (civil_of t), cv_second = cv_second (civil_of t), cv_micro = cv_micro (civil_of t)\<rparr> = t"
proof -
  have surjective: "\<lparr>cv_year = cv_year c, cv_month = cv_month c, cv_day = cv_day c, cv_hour = cv_hour c,
     cv_minute = cv_minute c, cv_second = cv_second c, cv_micro = cv_micro c\<rparr> = c" for c :: civil
    by simp
  show ?thesis unfolding surjective by (rule instant_of_civil)
qed

lemma read_iso_format:
  assumes "0 \<le> cv_year (civil_of t)" and "cv_year (civil_of t) < 10000"
  shows "read_iso (iso_format t) = Some t"
proof -
  define c where "c = civil_of t"
  note ranges = civil_ranges [of t, folded c_def] assms [folded c_def]
  have pads: "length (pad 4 (cv_year c)) = 4 \<and> read_digits (pad 4 (cv_year c)) = Some (cv_year c)"
    "length (pad 2 (cv_month c)) = 2 \<and> read_digits (pad 2 (cv_month c)) = Some (cv_month c)"
    "length (pad 2 (cv_day c)) = 2 \<and> read_digits (pad 2 (cv_day c)) = Some (cv_day c)"
    "length (pad 2 (cv_hour c)) = 2 \<and> read_digits (pad 2 (cv_hour c)) = Some (cv_hour c)"
    "length (pad 2 (cv_minute c)) = 2 \<and> read_digits (pad 2 (cv_minute c)) = Some (cv_minute c)"
    "length (pad 2 (cv_second c)) = 2 \<and> read_digits (pad 2 (cv_second c)) = Some (cv_second c)"
    "length (pad 6 (cv_micro c)) = 6 \<and> read_digits (pad 6 (cv_micro c)) = Some (cv_micro c)"
    by (rule pad_reads; use ranges in simp)+
  have fields: "read_iso (iso_format t) =
    (let rest = if cv_micro c = 0 then [] else ''.'' @ pad 6 (cv_micro c);
         at_pos = (\<lambda>us. instant_of \<lparr>cv_year = cv_year c, cv_month = cv_month c, cv_day = cv_day c, cv_hour = cv_hour c,
           cv_minute = cv_minute c, cv_second = cv_second c, cv_micro = us\<rparr>)
     in if rest = [] then Some (at_pos 0)
        else if hd rest = CHR ''.'' \<and> length rest = 7 then map_option at_pos (read_digits (tl rest)) else None)"
    unfolding iso_format_def Let_def c_def [symmetric] using pads by (subst read_iso_fields) (simp_all only: Let_def)
  note again = civil_again [of t, folded c_def]
  show ?thesis
  proof (cases "cv_micro c = 0")
    case True
    with again show ?thesis unfolding fields by (simp only: Let_def if_True simp_thms)
  next
    case False
    with again pads(7) show ?thesis unfolding fields by (simp add: Let_def)
  qed
qed

section \<open>Following the cursors\<close>

text \<open>The order of the pages is total, and the anchor cuts it where the page ended.\<close>

lemma past_anchor_less: "past_anchor a k \<longleftrightarrow> k < a"
  by (auto simp: past_anchor_def less_prod_def)

lemma newest_first_sorted:
  "distinct (map key rows) \<Longrightarrow> sorted_wrt (\<lambda>r s. key s < key r) (newest_first key rows)"
proof -
  assume d: "distinct (map key rows)"
  have "distinct (map key (sort_key key rows))" using d by (simp add: distinct_map)
  then have "sorted_wrt (<) (map key (sort_key key rows))"
    by (simp only: strict_sorted_iff sorted_sort_key simp_thms)
  then show ?thesis by (simp add: newest_first_def sorted_wrt_rev sorted_wrt_map)
qed

lemma cut_at_anchor:
  assumes "sorted_wrt (\<lambda>r s. key s < key r) (xs @ ys)" and "xs \<noteq> []"
  shows "filter (\<lambda>r. past_anchor (key (List.last xs)) (key r)) (xs @ ys) = ys"
proof -
  obtain zs z where xs: "xs = zs @ [z]" using assms(2) by (cases xs rule: rev_cases) auto
  have "\<forall>r \<in> set zs. key z < key r" "\<forall>r \<in> set ys. key r < key z"
    using assms(1) by (auto simp: xs sorted_wrt_append)
  then show ?thesis by (auto simp: xs past_anchor_less filter_empty_conv filter_id_conv)
qed

lemma newer_rows_hidden:
  assumes "\<forall>r \<in> set newer. \<not> past_anchor a (key r)"
  shows "filter (\<lambda>r. past_anchor a (key r)) (newest_first key (rows @ newer)) = filter (\<lambda>r. past_anchor a (key r)) (newest_first key rows)"
proof -
  have "filter (\<lambda>r. past_anchor a (key r)) newer = []" using assms by (simp add: filter_empty_conv)
  then show ?thesis by (simp add: newest_first_def rev_filter [symmetric] filter_sort)
qed

definition readable_keys :: "(string \<Rightarrow> instant option) \<Rightarrow> 'r columns \<Rightarrow> 'r list \<Rightarrow> bool" where
  "readable_keys from_iso key rows =
     list_all (\<lambda>r. snd (key r) \<noteq> [] \<and> is_ascii (snd (key r)) \<and> from_iso (iso_format (fst (key r))) = Some (fst (key r))) rows"

lemma next_rows:
  assumes "distinct (map key rows)" and "readable_keys from_iso key rows"
    and "newest_first key rows = xs @ ys" and "xs \<noteq> []"
    and "\<forall>r \<in> set newer. \<forall>s \<in> set rows. key s < key r"
  shows "apply_keyset from_iso key (Some (encode_cursor (key (List.last xs)))) limit (rows @ newer) = Inr (take (limit + 1) ys)"
proof -
  let ?l = "List.last xs"
  have "set (xs @ ys) = set rows" unfolding assms(3) [symmetric] by (simp add: newest_first_def)
  then have l: "?l \<in> set rows" using last_in_set [OF assms(4)] by auto
  have key: "key ?l = (fst (key ?l), snd (key ?l))" by simp
  have ok: "snd (key ?l) \<noteq> []" "is_ascii (snd (key ?l))" "from_iso (iso_format (fst (key ?l))) = Some (fst (key ?l))"
    using assms(2) l by (auto simp: readable_keys_def list_all_iff)
  have decode: "decode_cursor from_iso (encode_cursor (key ?l)) = Inr (key ?l)" "encode_cursor (key ?l) \<noteq> []"
    using cursor_decodes [where k = "snd (key ?l)" and from_iso = from_iso and t = "fst (key ?l)"]
      cursor_nonempty [where k = "snd (key ?l)" and from_iso = from_iso and t = "fst (key ?l)"] ok by simp_all
  have "\<forall>r \<in> set newer. \<not> past_anchor (key ?l) (key r)"
    unfolding past_anchor_less using assms(5) l less_asym by blast
  from newer_rows_hidden [OF this]
  have "filter (\<lambda>r. past_anchor (key ?l) (key r)) (newest_first key (rows @ newer)) = filter (\<lambda>r. past_anchor (key ?l) (key r)) (xs @ ys)"
    by (simp only: assms(3))
  also have "\<dots> = ys" using newest_first_sorted [OF assms(1)] assms(3,4) by (intro cut_at_anchor) simp_all
  finally show ?thesis using decode by (simp add: apply_keyset_def)
qed

lemma page_parts:
  "pg_items (build_page key limit (take (limit + 1) ys)) = take limit ys"
  "pg_next (build_page key limit (take (limit + 1) ys)) =
     (if length ys > limit \<and> 0 < limit then Some (encode_cursor (key (List.last (take limit ys)))) else None)"
  by (auto simp: build_page_def Let_def min_def)

lemma later_pages:
  assumes "0 < limit" and "distinct (map key rows)" and "readable_keys from_iso key rows"
    and "\<forall>i. \<forall>r \<in> set (newer i). \<forall>s \<in> set rows. key s < key r"
  shows "newest_first key rows = xs @ ys \<Longrightarrow> xs \<noteq> [] \<Longrightarrow> length ys < n \<Longrightarrow>
    \<exists>pages. follow_pages from_iso key limit (\<lambda>i. rows @ newer i) i (Some (encode_cursor (key (List.last xs)))) n = Some pages \<and>
      concat pages = ys \<and> list_all (\<lambda>p. length p \<le> limit) pages"
proof (induction n arbitrary: xs ys i)
  case (Suc n)
  note now = next_rows [OF assms(2,3) Suc.prems(1,2), of "newer i" limit]
  show ?case
  proof (cases "length ys > limit")
    case False
    then show ?thesis using now assms(4) page_parts [of key limit ys]
      by (intro exI [of _ "[ys]"]) (simp add: Let_def)
  next
    case True
    let ?p = "take limit ys"
    have p: "?p \<noteq> []" using True assms(1) by auto
    have "newest_first key rows = (xs @ ?p) @ drop limit ys" "xs @ ?p \<noteq> []" "length (drop limit ys) < n" "List.last (xs @ ?p) = List.last ?p"
      using Suc.prems True assms(1) p by simp_all
    with Suc.IH [of "xs @ ?p" "drop limit ys" "Suc i"] obtain pages where
      pages: "follow_pages from_iso key limit (\<lambda>i. rows @ newer i) (Suc i) (Some (encode_cursor (key (List.last ?p)))) n = Some pages"
        "concat pages = drop limit ys" "list_all (\<lambda>p. length p \<le> limit) pages"
      by metis
    show ?thesis using now assms(1,4) page_parts [of key limit ys] pages True
      by (intro exI [of _ "?p # pages"]) (simp add: Let_def)
  qed
qed simp

section \<open>Properties\<close>

text \<open>A cursor handed to a client says, when it comes back, exactly the timestamp and the id of the row it was made of:
  the encoding survives the dropped padding, the URL alphabet, the separator and the ISO form of the timestamp.
\<close>

theorem cursor_roundtrip:
  assumes "k \<noteq> []" and "is_ascii k" and "0 \<le> cv_year (civil_of t)" and "cv_year (civil_of t) < 10000"
  shows "decode_cursor read_iso (encode_cursor (t, k)) = Inr (t, k)"
  using assms by (intro cursor_decodes read_iso_format)

lemma year_1970:
  assumes "day_number t = 0"
  shows "cv_year (civil_of t) = 1970"
proof -
  have "(0 + 719468) div 146097 = (4 :: int)" "(0 + 719468) mod 146097 = (135080 :: int)" "min 3 (135080 div 36524) = (3 :: int)"
    "135080 - 36524 * 3 = (25508 :: int)" "25508 div 1461 = (17 :: int)" "25508 - 1461 * 17 = (671 :: int)"
    "min 3 (671 div 365) = (1 :: int)" "671 - 365 * 1 = (306 :: int)" "(5 * 306 + 2) div 153 = (10 :: int)"
    "(if 10 < (10 :: int) then 10 + 3 else 10 - 9) = (1 :: int)" by simp_all
  then show ?thesis unfolding civil_of_def assms by (simp only: Let_def civil.select_convs) simp
qed

theorem cursor_roundtrip_witness: "decode_cursor read_iso (encode_cursor (1, ''r1'')) = Inr (1, ''r1'')"
  by (rule cursor_roundtrip) (simp_all add: is_ascii_def year_1970 day_number_def)

text \<open>C32.  A client that follows the cursors from the first page sees every row that was there when it began, once, newest
  first, in pages of at most the limit, and reaches the end, whatever newer rows are inserted between its requests.
\<close>

theorem pages_complete:
  assumes "0 < limit" and "distinct (map key rows)" and "newer 0 = []"
    and "\<forall>i. \<forall>r \<in> set (newer i). \<forall>s \<in> set rows. key s < key r"
    and "list_all (\<lambda>r. snd (key r) \<noteq> [] \<and> is_ascii (snd (key r)) \<and> 0 \<le> cv_year (civil_of (fst (key r))) \<and>
      cv_year (civil_of (fst (key r))) < 10000) rows"
    and "length rows < n"
  shows "\<exists>pages. follow_pages read_iso key limit (\<lambda>i. rows @ newer i) 0 None n = Some pages \<and>
    concat pages = newest_first key rows \<and> list_all (\<lambda>p. length p \<le> limit) pages"
proof -
  have readable: "readable_keys read_iso key rows"
    using assms(5) read_iso_format by (auto simp: readable_keys_def list_all_iff)
  obtain m where m: "n = Suc m" using assms(6) by (cases n) auto
  let ?ys = "newest_first key rows"
  let ?p = "take limit ?ys"
  have len: "length ?ys = length rows" by (simp add: newest_first_def)
  have first: "apply_keyset read_iso key None limit (rows @ newer 0) = Inr (take (limit + 1) ?ys)"
    by (simp add: apply_keyset_def assms(3))
  show ?thesis
  proof (cases "length ?ys > limit")
    case False
    then show ?thesis using first page_parts [of key limit ?ys]
      by (intro exI [of _ "[?ys]"]) (simp add: m Let_def)
  next
    case True
    have "?ys = ?p @ drop limit ?ys" "?p \<noteq> []" "length (drop limit ?ys) < m"
      using True assms(1,6) len m by auto
    from later_pages [OF assms(1,2) readable assms(4) this, of "Suc 0"] obtain pages where
      pages: "follow_pages read_iso key limit (\<lambda>i. rows @ newer i) (Suc 0) (Some (encode_cursor (key (List.last ?p)))) m = Some pages"
        "concat pages = drop limit ?ys" "list_all (\<lambda>p. length p \<le> limit) pages"
      by (elim exE conjE)
    show ?thesis using first assms(1) page_parts [of key limit ?ys] pages True
      by (intro exI [of _ "?p # pages"]) (simp add: m Let_def)
  qed
qed

theorem pages_complete_witness:
  "\<exists>pages. follow_pages read_iso (\<lambda>r. r) 1 (\<lambda>i. [(1, ''a''), (1, ''b'')] @ (if i = 0 then [] else [(3, ''c'')])) 0 None 3 = Some pages \<and>
    concat pages = newest_first (\<lambda>r. r) [(1, ''a''), (1, ''b'')] \<and> list_all (\<lambda>p. length p \<le> 1) pages"
  by (rule pages_complete) (simp_all add: is_ascii_def year_1970 day_number_def less_prod_def)

end
