(* ===== verification/Bus.thy ===== *)
theory Bus
  imports Access "HOL-Library.Sublist"
begin

text \<open>
  The in-process bus of \<open>events.py\<close> and the socket of \<open>api/routers/ws.py\<close> that reads it.  A queue has
  a number; the subscribers of a workspace are a set of numbers, kept in the order they came.
  \<open>publish\<close> copies the set under the lock and then fills the queues without giving control away, so it
  is one step; so are the registration, a \<open>get\<close> and the end of a subscription.
\<close>

section \<open>The bus\<close>

record bus =
  bs_subscribers :: "ident \<Rightarrow> nat list"
  bs_queue :: "nat \<Rightarrow> event list"
  bs_next :: nat

definition new_bus :: bus where
  "new_bus = \<lparr>bs_subscribers = (\<lambda>ws. []), bs_queue = (\<lambda>q. []), bs_next = 0\<rparr>"

definition queue_limit :: nat where
  "queue_limit = 512"

text \<open>A full queue drops its oldest event.\<close>

definition offer :: "event \<Rightarrow> event list \<Rightarrow> event list" where
  "offer e q = (if queue_limit \<le> length q then tl q else q) @ [e]"

definition bus_publish :: "event \<Rightarrow> bus \<Rightarrow> bus" where
  "bus_publish e b =
     b\<lparr>bs_queue := (\<lambda>q. if q \<in> set (bs_subscribers b (ev_workspace e)) then offer e (bs_queue b q) else bs_queue b q)\<rparr>"

definition bus_subscribe :: "ident \<Rightarrow> bus \<Rightarrow> nat \<times> bus" where
  "bus_subscribe ws b =
     (let q = bs_next b
      in (q, b\<lparr>bs_subscribers := (bs_subscribers b)(ws := bs_subscribers b ws @ [q]), bs_queue := (bs_queue b)(q := []),
               bs_next := Suc q\<rparr>))"

text \<open>\<open>await queue.get()\<close>: an empty queue keeps the consumer waiting.\<close>

definition bus_get :: "nat \<Rightarrow> bus \<Rightarrow> event option \<times> bus" where
  "bus_get q b = (case bs_queue b q of [] \<Rightarrow> (None, b) | e # es \<Rightarrow> (Some e, b\<lparr>bs_queue := (bs_queue b)(q := es)\<rparr>))"

definition bus_close :: "ident \<Rightarrow> nat \<Rightarrow> bus \<Rightarrow> bus" where
  "bus_close ws q b = b\<lparr>bs_subscribers := (bs_subscribers b)(ws := removeAll q (bs_subscribers b ws))\<rparr>"

text \<open>What happens to a bus, one step after another, with what each consumer was given.\<close>

datatype bus_op = Publish event | Subscribe ident | Get nat | Close ident nat

fun bus_step :: "bus_op \<Rightarrow> bus \<Rightarrow> (nat \<times> event) list \<times> bus" where
  "bus_step (Publish e) b = ([], bus_publish e b)"
| "bus_step (Subscribe ws) b = ([], snd (bus_subscribe ws b))"
| "bus_step (Get q) b = (case bus_get q b of (None, b1) \<Rightarrow> ([], b1) | (Some e, b1) \<Rightarrow> ([(q, e)], b1))"
| "bus_step (Close ws q) b = ([], bus_close ws q b)"

fun bus_run :: "bus_op list \<Rightarrow> bus \<Rightarrow> (nat \<times> event) list \<times> bus" where
  "bus_run [] b = ([], b)"
| "bus_run (x # xs) b = (let (out, b1) = bus_step x b; (rest, b2) = bus_run xs b1 in (out @ rest, b2))"

section \<open>The socket\<close>

text \<open>\<open>event_socket\<close> up to \<open>accept\<close>: refused sockets are closed with 1008.\<close>

datatype handshake = Refused int | Accepted ident

definition event_socket :: "access_env \<Rightarrow> string \<Rightarrow> instant \<Rightarrow> database \<Rightarrow> handshake" where
  "event_socket env token now d =
     (case verify_token (az_jwt env) token (az_secret env) now of
        Inl e \<Rightarrow> Refused 1008
      | Inr user_id \<Rightarrow>
          (case (get_user user_id d, memberships user_id None d) of
             (Some u, m # _) \<Rightarrow> if us_active u then Accepted (wm_workspace m) else Refused 1008
           | _ \<Rightarrow> Refused 1008))"

text \<open>
  Two tasks share an accepted socket: one reads frames, one sends what the subscription yields.  A
  frame that is not an object raises \<open>AttributeError\<close>, which ends the socket like a disconnect.
\<close>

datatype socket_in = Frame json | Disconnect | Yielded event

datatype socket_out = Pong | Event_frame event

fun socket_run :: "socket_in list \<Rightarrow> socket_out list" where
  "socket_run [] = []"
| "socket_run (Disconnect # xs) = []"
| "socket_run (Yielded e # xs) = Event_frame e # socket_run xs"
| "socket_run (Frame v # xs) =
     (case v of
        JObj fs \<Rightarrow> if map_of fs ''type'' = Some (JStr ''ping'') then Pong # socket_run xs else socket_run xs
      | _ \<Rightarrow> [])"

section \<open>What a subscriber is given\<close>

text \<open>The events of a workspace among the steps, and what queue \<open>q\<close> gave out.\<close>

fun sent_to :: "ident \<Rightarrow> bus_op list \<Rightarrow> event list" where
  "sent_to ws [] = []"
| "sent_to ws (Publish e # xs) = (if ev_workspace e = ws then e # sent_to ws xs else sent_to ws xs)"
| "sent_to ws (x # xs) = sent_to ws xs"

definition given :: "nat \<Rightarrow> (nat \<times> event) list \<Rightarrow> event list" where
  "given q out = map snd (filter (\<lambda>x. fst x = q) out)"

lemma given_simps [simp]:
  "given q [] = []" "given q (xs @ ys) = given q xs @ given q ys" "given q ((p, e) # xs) = (if p = q then e # given q xs else given q xs)"
  by (simp_all add: given_def)

text \<open>Queue \<open>q\<close> belongs to workspace \<open>ws\<close> alone, and no later subscription gets its number.\<close>

definition listens :: "nat \<Rightarrow> ident \<Rightarrow> bus \<Rightarrow> bool" where
  "listens q ws b = (q < bs_next b \<and> (\<forall>w. q \<in> set (bs_subscribers b w) \<longleftrightarrow> w = ws))"

definition bus_wf :: "bus \<Rightarrow> bool" where
  "bus_wf b = ((\<forall>w. \<forall>q \<in> set (bs_subscribers b w). q < bs_next b) \<and> (\<forall>q. length (bs_queue b q) \<le> queue_limit))"

lemma offer_length: "length q \<le> queue_limit \<Longrightarrow> length (offer e q) \<le> queue_limit"
  by (cases q) (auto simp: offer_def queue_limit_def)

lemma new_bus_wf: "bus_wf new_bus"
  by (simp add: bus_wf_def new_bus_def)

lemma bus_step_wf: "bus_wf b \<Longrightarrow> bus_wf (snd (bus_step x b))"
proof (cases x)
  case (Publish e)
  then show "bus_wf b \<Longrightarrow> ?thesis" using offer_length by (auto simp: bus_wf_def bus_publish_def)
next
  case (Subscribe ws)
  then show "bus_wf b \<Longrightarrow> ?thesis" by (auto simp: bus_wf_def bus_subscribe_def Let_def less_Suc_eq)
next
  case (Get q)
  then show "bus_wf b \<Longrightarrow> ?thesis"
    by (auto simp: bus_wf_def bus_get_def split: list.splits) (metis Suc_leD length_Cons)
next
  case (Close ws q)
  then show "bus_wf b \<Longrightarrow> ?thesis" by (auto simp: bus_wf_def bus_close_def)
qed

lemma bus_run_wf: "bus_wf b \<Longrightarrow> bus_wf (snd (bus_run xs b))"
proof (induction xs arbitrary: b)
  case (Cons x xs)
  then show ?case using bus_step_wf [of b x] by (auto simp: Let_def split_beta)
qed simp

lemma subscribed:
  assumes "bus_wf b" and "bus_subscribe ws b = (q, b1)"
  shows "listens q ws b1 \<and> bs_queue b1 q = [] \<and> bus_wf b1"
proof -
  have fresh: "bs_next b \<notin> set (bs_subscribers b w)" for w using assms(1) unfolding bus_wf_def by (metis less_irrefl)
  have "bus_wf b1" using bus_step_wf [OF assms(1), of "Subscribe ws"] assms(2) by simp
  moreover have "q = bs_next b" "bs_next b1 = Suc q" "bs_queue b1 q = []"
    "bs_subscribers b1 = (bs_subscribers b)(ws := bs_subscribers b ws @ [q])"
    using assms(2) by (auto simp: bus_subscribe_def Let_def)
  ultimately show ?thesis using fresh by (simp add: listens_def)
qed

lemma step_listens:
  assumes "listens q ws b" and "\<forall>w. x \<noteq> Close w q"
  shows "listens q ws (snd (bus_step x b))"
proof (cases x)
  case (Get p)
  then show ?thesis using assms by (auto simp: listens_def bus_get_def split: list.splits)
qed (use assms in \<open>auto simp: listens_def bus_publish_def bus_subscribe_def bus_close_def Let_def\<close>)

text \<open>One step seen from queue \<open>q\<close>.\<close>

lemma step_queue:
  assumes "listens q ws b" and "bus_step x b = (out, b1)"
  shows "given q out @ bs_queue b1 q =
     (case x of
        Publish e \<Rightarrow> if ev_workspace e = ws then offer e (bs_queue b q) else bs_queue b q
      | _ \<Rightarrow> bs_queue b q)"
proof (cases x)
  case (Publish e)
  then have "out = []" "b1 = bus_publish e b" using assms(2) by simp_all
  moreover have "q \<in> set (bs_subscribers b (ev_workspace e)) \<longleftrightarrow> ev_workspace e = ws" using assms(1) by (simp add: listens_def)
  ultimately show ?thesis by (simp add: Publish bus_publish_def)
next
  case (Subscribe w)
  then have "out = []" "b1 = snd (bus_subscribe w b)" using assms(2) by simp_all
  then show ?thesis using assms(1) by (simp add: Subscribe listens_def bus_subscribe_def Let_def)
next
  case (Get p)
  show ?thesis
  proof (cases "bs_queue b p")
    case Nil
    then show ?thesis using Get assms(2) by (simp add: bus_get_def)
  next
    case (Cons e es)
    then have "out = [(p, e)]" "b1 = b\<lparr>bs_queue := (bs_queue b)(p := es)\<rparr>" using Get assms(2) by (simp_all add: bus_get_def)
    then show ?thesis using Get Cons by simp
  qed
next
  case (Close w p)
  then have "out = []" "b1 = bus_close w p b" using assms(2) by simp_all
  then show ?thesis by (simp add: Close bus_close_def)
qed

lemma offer_parts: "\<exists>gone kept. bs = gone @ kept \<and> offer e bs = kept @ [e]"
  by (cases "queue_limit \<le> length bs"; cases bs) (auto simp: offer_def intro: exI [of _ "[]"])

lemma publish_step: "bus_step (Publish e) b = (out, b1) \<Longrightarrow> out = []"
  by simp

text \<open>From any moment of a subscription on: nothing is given that was not sent, in the order sent.\<close>

lemma run_subseq:
  assumes "listens q ws b" and "\<forall>w. Close w q \<notin> set xs" and "bus_run xs b = (out, b1)"
  shows "subseq (given q out @ bs_queue b1 q) (bs_queue b q @ sent_to ws xs)"
  using assms
proof (induction xs arbitrary: b out)
  case (Cons x xs)
  obtain o1 b2 o2 where step: "bus_step x b = (o1, b2)" and rest: "bus_run xs b2 = (o2, b1)" and out: "out = o1 @ o2"
    using Cons.prems(3) by (auto simp: Let_def split: prod.splits)
  have listens: "listens q ws b2" using step_listens [OF Cons.prems(1), of x] Cons.prems(2) step by auto
  have "subseq (given q o2 @ bs_queue b1 q) (bs_queue b2 q @ sent_to ws xs)"
    using Cons.IH [OF listens _ rest] Cons.prems(2) by auto
  then have "subseq (given q out @ bs_queue b1 q) ((given q o1 @ bs_queue b2 q) @ sent_to ws xs)"
    by (simp add: out subseq_append')
  moreover have "subseq ((given q o1 @ bs_queue b2 q) @ sent_to ws xs) (bs_queue b q @ sent_to ws (x # xs))"
  proof (cases "\<exists>e. x = Publish e \<and> ev_workspace e = ws")
    case True
    then obtain e where x: "x = Publish e" "ev_workspace e = ws" by blast
    obtain gone kept where kept: "bs_queue b q = gone @ kept" "offer e (bs_queue b q) = kept @ [e]"
      using offer_parts by blast
    have "subseq (kept @ e # sent_to ws xs) (gone @ kept @ e # sent_to ws xs)" by (rule subseq_drop_many) simp
    then show ?thesis using step_queue [OF Cons.prems(1) step] kept by (simp add: x)
  next
    case False
    then have "given q o1 @ bs_queue b2 q = bs_queue b q" "sent_to ws (x # xs) = sent_to ws xs"
      using step_queue [OF Cons.prems(1) step] by (cases x; auto)+
    then show ?thesis by simp
  qed
  ultimately show ?case by (rule subseq_order.order_trans)
qed simp

text \<open>While the queue never was full, nothing is lost.\<close>

lemma run_complete:
  assumes "listens q ws b" and "\<forall>w. Close w q \<notin> set xs" and "bus_run xs b = (out, b1)"
    and "\<forall>i < length xs. length (bs_queue (snd (bus_run (take i xs) b)) q) < queue_limit"
  shows "given q out @ bs_queue b1 q = bs_queue b q @ sent_to ws xs"
  using assms
proof (induction xs arbitrary: b out)
  case (Cons x xs)
  obtain o1 b2 o2 where step: "bus_step x b = (o1, b2)" and rest: "bus_run xs b2 = (o2, b1)" and out: "out = o1 @ o2"
    using Cons.prems(3) by (auto simp: Let_def split: prod.splits)
  have listens: "listens q ws b2" using step_listens [OF Cons.prems(1), of x] Cons.prems(2) step by auto
  have room: "length (bs_queue b q) < queue_limit" using Cons.prems(4) by force
  have "\<forall>i < length xs. length (bs_queue (snd (bus_run (take i xs) b2)) q) < queue_limit"
  proof (intro allI impI)
    fix i assume "i < length xs"
    then show "length (bs_queue (snd (bus_run (take i xs) b2)) q) < queue_limit"
      using Cons.prems(4) [rule_format, of "Suc i"] step by (simp add: Let_def split_beta)
  qed
  then have "given q o2 @ bs_queue b1 q = bs_queue b2 q @ sent_to ws xs"
    using Cons.IH [OF listens _ rest] Cons.prems(2) by auto
  then have "given q out @ bs_queue b1 q = (given q o1 @ bs_queue b2 q) @ sent_to ws xs" by (simp add: out)
  also have "\<dots> = bs_queue b q @ sent_to ws (x # xs)"
    using step_queue [OF Cons.prems(1) step] room by (cases x) (auto simp: offer_def)
  finally show ?case .
qed simp

text \<open>The newest events are never the ones that are lost.\<close>

lemma run_suffix:
  assumes "listens q ws b" and "\<forall>w. Close w q \<notin> set xs" and "bus_run xs b = (out, b1)"
  shows "suffix (bs_queue b1 q) (bs_queue b q @ sent_to ws xs)"
  using assms
proof (induction xs arbitrary: b out)
  case (Cons x xs)
  obtain o1 b2 o2 where step: "bus_step x b = (o1, b2)" and rest: "bus_run xs b2 = (o2, b1)"
    using Cons.prems(3) by (auto simp: Let_def split: prod.splits)
  have listens: "listens q ws b2" using step_listens [OF Cons.prems(1), of x] Cons.prems(2) step by auto
  have ih: "suffix (bs_queue b1 q) (bs_queue b2 q @ sent_to ws xs)"
    using Cons.IH [OF listens _ rest] Cons.prems(2) by auto
  have "suffix (bs_queue b2 q @ sent_to ws xs) (bs_queue b q @ sent_to ws (x # xs))"
  proof (cases "\<exists>e. x = Publish e \<and> ev_workspace e = ws")
    case True
    then obtain e where x: "x = Publish e" "ev_workspace e = ws" by blast
    obtain gone kept where kept: "bs_queue b q = gone @ kept" "offer e (bs_queue b q) = kept @ [e]"
      using offer_parts by blast
    show ?thesis using step_queue [OF Cons.prems(1) step] step kept by (simp add: x suffix_def)
  next
    case False
    then have "given q o1 @ bs_queue b2 q = bs_queue b q" "sent_to ws (x # xs) = sent_to ws xs"
      using step_queue [OF Cons.prems(1) step] by (cases x; auto)+
    then show ?thesis by (metis append.assoc suffix_def)
  qed
  with ih show ?case by (rule suffix_order.order_trans)
qed (simp add: suffix_def)

lemma sent_to_workspace: "e \<in> set (sent_to ws xs) \<Longrightarrow> ev_workspace e = ws"
  by (induction ws xs rule: sent_to.induct) (auto split: if_splits)

lemma run_own_events:
  assumes "bus_wf b" and "bus_subscribe ws b = (q, b1)" and "\<forall>w. Close w q \<notin> set xs" and "bus_run xs b1 = (out, b2)"
    and "e \<in> set (given q out)"
  shows "ev_workspace e = ws"
proof -
  note start = subscribed [OF assms(1,2)]
  have "subseq (given q out @ bs_queue b2 q) (sent_to ws xs)" using run_subseq [of q ws b1 xs out b2] start assms(3,4) by simp
  then have "e \<in> set (sent_to ws xs)" using assms(5) by (auto elim: list_emb_set)
  then show ?thesis by (rule sent_to_workspace)
qed

section \<open>Properties\<close>

text \<open>C33.  Whatever is published, subscribed, taken and closed meanwhile, a subscription gives its consumer events of its own
  workspace in the order they were published, each at most once; it never holds more than the limit, what it holds is
  always the newest part of what was sent, and nothing at all is lost while the consumer is less than the limit behind.\<close>

theorem bus_delivers:
  assumes "bus_wf b" and "bus_subscribe ws b = (q, b1)" and "\<forall>w. Close w q \<notin> set xs" and "bus_run xs b1 = (out, b2)"
  shows "subseq (given q out @ bs_queue b2 q) (sent_to ws xs) \<and> suffix (bs_queue b2 q) (sent_to ws xs) \<and>
    length (bs_queue b2 q) \<le> queue_limit \<and>
    ((\<forall>i < length xs. length (bs_queue (snd (bus_run (take i xs) b1)) q) < queue_limit) \<longrightarrow>
       given q out @ bs_queue b2 q = sent_to ws xs)"
proof -
  note start = subscribed [OF assms(1,2)]
  have "bus_wf b2" using bus_run_wf [of b1 xs] start assms(4) by simp
  then show ?thesis
    using run_subseq [of q ws b1 xs out b2] run_suffix [of q ws b1 xs out b2] run_complete [of q ws b1 xs out b2] start assms(3,4)
    by (simp add: bus_wf_def)
qed

definition bench_event :: "string \<Rightarrow> event" where
  "bench_event ws = \<lparr>ev_type = RUN_STEP, ev_workspace = ws, ev_session = None, ev_run = None, ev_payload = []\<rparr>"

definition bench_ops :: "bus_op list" where
  "bench_ops = [Publish (bench_event ''w1''), Publish (bench_event ''w2''), Get 0, Subscribe ''w1'', Publish (bench_event ''w1'')]"

lemma bench_run:
  "fst (bus_run bench_ops (snd (bus_subscribe ''w1'' new_bus))) = [(0, bench_event ''w1'')]"
  "\<forall>w. Close w q \<notin> set bench_ops"
  by (simp_all add: bench_ops_def bench_event_def new_bus_def bus_subscribe_def bus_publish_def bus_get_def offer_def queue_limit_def Let_def)

theorem bus_delivers_witness:
  "\<exists>b2 :: bus. subseq ([bench_event ''w1''] @ bs_queue b2 0) [bench_event ''w1'', bench_event ''w1''] \<and>
    suffix (bs_queue b2 0) [bench_event ''w1'', bench_event ''w1''] \<and> length (bs_queue b2 0) \<le> queue_limit"
proof -
  obtain b1 where b1: "bus_subscribe ''w1'' new_bus = (0, b1)" by (simp add: bus_subscribe_def new_bus_def Let_def)
  obtain b2 where b2: "bus_run bench_ops b1 = ([(0, bench_event ''w1'')], b2)"
    using bench_run(1) b1 by (cases "bus_run bench_ops b1") simp
  have "sent_to ''w1'' bench_ops = [bench_event ''w1'', bench_event ''w1'']" by (simp add: bench_ops_def bench_event_def)
  then show ?thesis using bus_delivers [OF new_bus_wf b1 bench_run(2) b2] by (intro exI [of _ b2]) simp
qed

text \<open>The events among what a socket is given, and among what it sends.\<close>

fun yielded :: "socket_in list \<Rightarrow> event list" where
  "yielded [] = []"
| "yielded (Yielded e # xs) = e # yielded xs"
| "yielded (x # xs) = yielded xs"

lemma socket_frames: "Event_frame e \<in> set (socket_run ins) \<Longrightarrow> e \<in> set (yielded ins)"
  by (induction ins rule: socket_run.induct) (auto split: json.splits if_splits)

text \<open>Tenants do not hear each other on the socket: it is only accepted for an active user whom the token names, and
  every event it ever sends belongs to a workspace of which that user was a member when it connected.\<close>

theorem socket_hears_own_workspace:
  assumes "event_socket env token now d = Accepted ws" and "bus_wf b" and "bus_subscribe ws b = (q, b1)"
    and "\<forall>w. Close w q \<notin> set xs" and "bus_run xs b1 = (out, b2)" and "yielded ins = given q out"
  shows "(\<exists>u m. verify_token (az_jwt env) token (az_secret env) now = Inr (us_id u) \<and> u \<in> set (users d) \<and> us_active u \<and>
      m \<in> set (members d) \<and> wm_user m = us_id u \<and> wm_workspace m = ws) \<and>
    (\<forall>e. Event_frame e \<in> set (socket_run ins) \<longrightarrow> ev_workspace e = ws)"
proof
  obtain k u m ms where auth: "verify_token (az_jwt env) token (az_secret env) now = Inr k" "get_user k d = Some u"
      "memberships k None d = m # ms" "us_active u" "wm_workspace m = ws"
    using assms(1) by (auto simp: event_socket_def split: sum.splits option.splits list.splits if_splits)
  have u: "us_id u = k" "u \<in> set (users d)" using auth(2) find_row_Some [of us_id k "users d" u] by (simp_all add: get_user_def)
  have "m \<in> set (memberships k None d)" by (simp add: auth(3))
  then have "m \<in> set (members d)" "wm_user m = k" by (simp_all add: memberships_def)
  with auth u show "\<exists>u m. verify_token (az_jwt env) token (az_secret env) now = Inr (us_id u) \<and> u \<in> set (users d) \<and> us_active u \<and>
      m \<in> set (members d) \<and> wm_user m = us_id u \<and> wm_workspace m = ws"
    by (intro exI [of _ u] exI [of _ m]) simp
  show "\<forall>e. Event_frame e \<in> set (socket_run ins) \<longrightarrow> ev_workspace e = ws"
    using run_own_events [OF assms(2-5)] socket_frames [of _ ins] assms(6) by simp
qed

definition socket_env :: access_env where
  "socket_env =
     \<lparr>az_jwt = \<lparr>jw_encode = (\<lambda>claims k. k), jw_decode = (\<lambda>token k issuer now. Inr [(''sub'', JStr token)])\<rparr>, az_secret = ''k'', az_ttl = 60,
      az_open_registration = False, az_sha = (\<lambda>x. x), az_kd = (\<lambda>p salt n. p)\<rparr>"

definition socket_db :: database where
  "socket_db = empty_database
     \<lparr>users := [\<lparr>us_id = ''u1'', us_created = 0, us_email = ''a'', us_display_name = ''A'', us_password_hash = [], us_active = True\<rparr>],
      members := [\<lparr>wm_id = ''m1'', wm_created = 0, wm_workspace = ''w1'', wm_user = ''u1'', wm_role = ''viewer''\<rparr>]\<rparr>"

theorem socket_hears_own_workspace_witness:
  "\<exists>m. m \<in> set (members socket_db) \<and> wm_user m = ''u1'' \<and> wm_workspace m = ''w1''"
proof -
  obtain b1 where b1: "bus_subscribe ''w1'' new_bus = (0, b1)" by (simp add: bus_subscribe_def new_bus_def Let_def)
  obtain b2 where b2: "bus_run bench_ops b1 = ([(0, bench_event ''w1'')], b2)"
    using bench_run(1) b1 by (cases "bus_run bench_ops b1") simp
  have verified: "verify_token (az_jwt socket_env) ''u1'' (az_secret socket_env) 0 = Inr ''u1''"
    by (simp add: socket_env_def verify_token_def)
  then have accepted: "event_socket socket_env ''u1'' 0 socket_db = Accepted ''w1''"
    by (simp add: event_socket_def socket_db_def get_user_def memberships_def empty_database_def truthy_def)
  have "yielded [Yielded (bench_event ''w1'')] = given 0 [(0, bench_event ''w1'')]" by simp
  from socket_hears_own_workspace [OF accepted new_bus_wf b1 bench_run(2) b2 this] show ?thesis
    by (elim conjE exE) (intro exI conjI; simp add: verified)
qed

end
