(* ===== verification/Worker.thy ===== *)
theory Worker
  imports Run_Props Services Scheduler Channels
begin

text \<open>
  \<open>jobs.py\<close>: the worker process.  Its queue is the job queue of the backend that the conductor fills; its
  crons run by the minute.  Redis and arq are outside: a job that was enqueued is in the queue, and a
  worker gets it once.
\<close>

section \<open>The process\<close>

record 'v worker =
  wr_services :: "'v services"
  wr_settings :: settings
  wr_host :: "'v backend host"
  wr_channels :: "'v backend channel_registry"

text \<open>\<open>_startup\<close>: the services are built, but not started; \<open>Inl\<close> is an exception.\<close>

definition worker_startup ::
  "'v platform \<Rightarrow> settings \<Rightarrow> 'v services \<Rightarrow> ('v state) plugin_world \<Rightarrow> 'v backend host \<Rightarrow> 'v backend channel_registry
     \<Rightarrow> string + 'v worker" where
  "worker_startup pl cf base plugins host channels =
     (case build_services pl cf base plugins of
        Inl e \<Rightarrow> Inl e
      | Inr sv \<Rightarrow> Inr \<lparr>wr_services = sv, wr_settings = cf, wr_host = host, wr_channels = channels\<rparr>)"

text \<open>The lifespan of the API process, as far as its services go: built and started.\<close>

definition api_startup ::
  "'v platform \<Rightarrow> settings \<Rightarrow> 'v services \<Rightarrow> ('v state) plugin_world \<Rightarrow> ('v state) mcp_client \<Rightarrow> 'v state
     \<Rightarrow> (string + 'v services) \<times> 'v state" where
  "api_startup pl cf base plugins mc s =
     (case build_services pl cf base plugins of Inl e \<Rightarrow> (Inl e, s) | Inr sv \<Rightarrow> start_services mc cf sv s)"

text \<open>\<open>enqueue_job\<close>, which raises without a Redis URL.\<close>

definition enqueue_job :: "settings \<Rightarrow> job \<Rightarrow> 'v state \<Rightarrow> (string + unit) \<times> 'v state" where
  "enqueue_job cf j s =
     (if cf_redis_url cf = None \<or> cf_redis_url cf = Some [] then (Inl ''task_backend=arq requires HOURSX_REDIS_URL'', s)
      else (Inr (), dispatch j s))"

section \<open>The crons\<close>

datatype cron_job = Fire_schedules | Dispatch_replies | Revert_changes | Recover_runs

definition cron_table :: "(cron_job \<times> int list) list" where
  "cron_table =
     [(Fire_schedules, [0..59]), (Dispatch_replies, [0..59]), (Revert_changes, [0..59]),
      (Recover_runs, [0, 5, 10, 15, 20, 25, 30, 35, 40, 45, 50, 55])]"

definition due_crons :: "int \<Rightarrow> cron_job list" where
  "due_crons minute = map fst (filter (\<lambda>c. minute \<in> set (snd c)) cron_table)"

fun enqueue_all :: "settings \<Rightarrow> ident list \<Rightarrow> 'v state \<Rightarrow> (string + unit) \<times> 'v state" where
  "enqueue_all cf [] s = (Inr (), s)"
| "enqueue_all cf (k # ks) s =
     (case enqueue_job cf (Execute_job k) s of (Inl e, s1) \<Rightarrow> (Inl e, s1) | (Inr _, s1) \<Rightarrow> enqueue_all cf ks s1)"

definition recover_orphaned_runs_job :: "'v worker \<Rightarrow> 'v state \<Rightarrow> 'v state" where
  "recover_orphaned_runs_job w s =
     (case requeue_orphaned_runs default_stale_after s of (ks, s1) \<Rightarrow> snd (enqueue_all (wr_settings w) ks s1))"

definition revert_expired_changes_job :: "'v worker \<Rightarrow> 'v state \<Rightarrow> 'v state" where
  "revert_expired_changes_job w s = snd (revert_expired_changes (wr_host w) (sweep_policy (settings_policy (wr_settings w))) s)"

definition dispatch_channel_replies_job :: "'v worker \<Rightarrow> 'v state \<Rightarrow> 'v state" where
  "dispatch_channel_replies_job w s =
     (if wr_channels w = [] then s
      else snd (sweep_once (dispatcher_attempts (settings_channels (wr_settings w))) (wr_channels w) s))"

definition fire_schedules_job :: "'v worker \<Rightarrow> 'v state \<Rightarrow> 'v state" where
  "fire_schedules_job w s = snd (fire_due_schedules (wr_services w) (settings_quota (wr_settings w)) None s)"

fun run_cron :: "'v worker \<Rightarrow> cron_job \<Rightarrow> 'v state \<Rightarrow> 'v state" where
  "run_cron w Fire_schedules s = fire_schedules_job w s"
| "run_cron w Dispatch_replies s = dispatch_channel_replies_job w s"
| "run_cron w Revert_changes s = revert_expired_changes_job w s"
| "run_cron w Recover_runs s = recover_orphaned_runs_job w s"

text \<open>One tick of the minute, and one job from the queue.\<close>

definition cron_tick :: "'v worker \<Rightarrow> 'v state \<Rightarrow> 'v state" where
  "cron_tick w s = fold (run_cron w) (due_crons (clock s div 60000000 mod 60)) s"

definition work :: "'v worker \<Rightarrow> 'v state \<Rightarrow> 'v state" where
  "work w s =
     (case bk_jobs (outside s) of
        [] \<Rightarrow> s
      | j # js \<Rightarrow> perform_job (wr_services w) j (on_backend (\<lambda>b. b\<lparr>bk_jobs := js\<rparr>) s))"

section \<open>Lemmas\<close>

lemma enqueue_all_dispatches:
  assumes "cf_redis_url cf = Some u" and "u \<noteq> []"
  shows "enqueue_all cf ks s = (Inr (), fold (\<lambda>k. dispatch (Execute_job k)) ks s)"
  using assms by (induction ks arbitrary: s) (simp_all add: enqueue_job_def)

lemma fold_dispatch:
  "db (fold (\<lambda>k. dispatch (Execute_job k)) ks s) = db s \<and>
   bk_jobs (outside (fold (\<lambda>k. dispatch (Execute_job k)) ks s)) = bk_jobs (outside s) @ map Execute_job ks"
  by (induction ks arbitrary: s) (simp_all add: dispatch_def)

lemma requeued_stale:
  assumes "keyed rn_id (runs (db s))" and "get_run k (db s) = Some r" and "stale (clock s - stale_after) r"
    and "requeue_orphaned_runs stale_after s = (ks, s1)"
  shows "k \<in> set ks \<and> get_run k (db s1) = Some (r\<lparr>rn_status := Queued, rn_heartbeat_at := None\<rparr>) \<and> keyed rn_id (runs (db s1)) \<and>
    profiles (db s1) = profiles (db s)"
proof -
  let ?cut = "clock s - stale_after"
  let ?ks = "map rn_id (filter (stale ?cut) (runs (db s)))"
  have row: "r \<in> set (runs (db s))" "rn_id r = k" using find_row_Some [of rn_id k "runs (db s)" r] assms(2) by (simp_all add: get_run_def)
  have "distinct ?ks" using assms(1) by (simp add: keyed_def distinct_map_filter)
  from requeue_each_exact [OF assms(1) this, of ?cut]
  have ks: "ks = filter (\<lambda>k. \<exists>r. find_row rn_id k (runs (db s)) = Some r \<and> stale ?cut r) ?ks"
    and rows: "runs (db s1) = map (\<lambda>r. if rn_id r \<in> set ?ks \<and> stale ?cut r then requeue_run ?cut () r else r) (runs (db s))"
    and others: "profiles (db s1) = profiles (db s)"
    using assms(4) by (auto simp: requeue_orphaned_runs_def Let_def split: prod.splits)
  have "k \<in> set ?ks" using row assms(3) by auto
  moreover from this have "k \<in> set ks" using assms(2,3) by (simp add: ks get_run_def)
  moreover have "get_run k (db s1) = Some (r\<lparr>rn_status := Queued, rn_heartbeat_at := None\<rparr>)"
    using assms(2,3) \<open>k \<in> set ?ks\<close> row(2) by (simp add: get_run_def rows find_row_map requeue_run_def)
  moreover have "keyed rn_id (runs (db s1))"
  proof -
    have "map rn_id (runs (db s1)) = map rn_id (runs (db s))" by (simp add: rows requeue_run_def)
    then show ?thesis using assms(1) by (simp add: keyed_def)
  qed
  ultimately show ?thesis using others by simp
qed

section \<open>Properties\<close>

lemma escaped_run:
  assumes "keyed rn_id (runs (db s))" and "execute_run sv k s = (Some e, s')"
  shows "\<exists>snap s1 s2 r. claim k From_queued s = (Some snap, s1) \<and>
    build_transcript sv snap (emit snap RUN_STARTED [(''goal'', JStr (sn_goal snap))] s1) = (Inl e, s2) \<and>
    get_run k (db s') = Some r \<and> rn_status r = Running \<and> rn_heartbeat_at r = Some (clock s)"
proof -
  obtain snap s1 where c: "claim k From_queued s = (Some snap, s1)"
    and b: "build_transcript sv snap (emit snap RUN_STARTED [(''goal'', JStr (sn_goal snap))] s1) = (Inl e, s')"
    using assms(2) by (auto simp: execute_run_eq execute_with_def Let_def split: prod.splits option.splits sum.splits)
  have "db s' = db s1"
    using build_transcript_db [of sv snap "emit snap RUN_STARTED [(''goal'', JStr (sn_goal snap))] s1"] b by simp
  then show ?thesis using claim_Some [OF assms(1) c] c b by (auto simp: grab_run_def)
qed

text \<open>C35.  A run whose worker died is brought to its end by the others: the recovery cron finds it, puts it back and
  enqueues it, and the worker that takes its job leaves it terminal or parked for a person.  In one case only
  does it stay running: when its transcript cannot be built because the embedding provider fails.  Then the
  exception escapes, and the run carries the heartbeat of this attempt, for a later sweep to find stale again.\<close>

theorem abandoned_run_ends:
  assumes "keyed rn_id (runs (db s))" and "get_run k (db s) = Some r" and "stale (clock s - default_stale_after) r"
    and "outside_respects runs_kept (wr_services w)" and "cf_redis_url (wr_settings w) = Some u" and "u \<noteq> []"
    and "bk_jobs (outside s) = []" and "s1 = run_cron w Recover_runs s"
  shows "Execute_job k \<in> set (bk_jobs (outside s1)) \<and>
    (\<exists>r1. get_run k (db (perform_job (wr_services w) (Execute_job k) s1)) = Some r1 \<and> run_identity r1 = run_identity r \<and>
      (terminal_status (rn_status r1) \<and> rn_finished_at r1 \<noteq> None \<or>
       rn_status r1 = Awaiting_approval \<and> parked_on k r1 (db (perform_job (wr_services w) (Execute_job k) s1)) \<or>
       rn_status r1 = Running \<and> rn_heartbeat_at r1 = Some (clock s1) \<and>
       (\<exists>snap s2 e s3. claim k From_queued s1 = (Some snap, s2) \<and>
          build_transcript (wr_services w) snap (emit snap RUN_STARTED [(''goal'', JStr (sn_goal snap))] s2) = (Inl e, s3))))"
proof -
  let ?sv = "wr_services w"
  obtain ks s0 where sweep: "requeue_orphaned_runs default_stale_after s = (ks, s0)" by fastforce
  note again = requeued_stale [OF assms(1-3) sweep]
  have s1: "s1 = fold (\<lambda>k. dispatch (Execute_job k)) ks s0"
    using assms(8) sweep by (simp add: recover_orphaned_runs_job_def enqueue_all_dispatches [OF assms(5,6)])
  have same: "db s1 = db s0" "bk_jobs (outside s1) = bk_jobs (outside s0) @ map Execute_job ks"
    using fold_dispatch [of ks s0] s1 by simp_all
  obtain esc s2 where run: "execute_run ?sv k s1 = (esc, s2)" by fastforce
  let ?r = "r\<lparr>rn_status := Queued, rn_heartbeat_at := None\<rparr>"
  have keys: "keyed rn_id (runs (db s1))" and row: "get_run k (db s1) = Some ?r" using again same(1) by simp_all
  note ended = execute_with_recorded [OF assms(4) kept_top [OF assms(4)] keys row _ run [unfolded execute_run_eq]]
  obtain r1 where r1: "get_run k (db s2) = Some r1" "run_identity r1 = run_identity r"
    using ended by (auto simp: run_identity_def)
  have "terminal_status (rn_status r1) \<and> rn_finished_at r1 \<noteq> None \<or> rn_status r1 = Awaiting_approval \<and> parked_on k r1 (db s2)"
    if "esc = None" using that ended r1(1) by auto
  moreover have "rn_status r1 = Running \<and> rn_heartbeat_at r1 = Some (clock s1) \<and>
      (\<exists>snap s2 e s3. claim k From_queued s1 = (Some snap, s2) \<and>
         build_transcript ?sv snap (emit snap RUN_STARTED [(''goal'', JStr (sn_goal snap))] s2) = (Inl e, s3))" if "esc = Some e" for e
    using escaped_run [OF keys run [unfolded that]] r1(1) by auto
  ultimately show ?thesis using again same(2) run r1 by (cases esc) auto
qed

definition bench_worker :: "nat worker" where
  "bench_worker =
     \<lparr>wr_services = demo_services, wr_settings = default_settings\<lparr>cf_redis_url := Some ''redis://r''\<rparr>,
      wr_host = \<lparr>ho_io = \<lparr>io_file = (\<lambda>p h. None), io_exists = (\<lambda>p h. False), io_is_file = (\<lambda>p h. False), io_names = (\<lambda>p h. None),
          io_below = (\<lambda>p h. []), io_link = (\<lambda>p h. None), io_disk = (\<lambda>m h. None), io_load = (\<lambda>h. None), io_page_size = 4096,
          io_cpu_count = 1, io_uname = ([], [], [], []), io_kmsg = (\<lambda>h. None), io_dmesg = (\<lambda>h. Dmesg_missing)\<rparr>,
        ho_write = (\<lambda>p v h. (Write_denied, h)), ho_kill = (\<lambda>pid sig h. (No_process, h)),
        ho_systemctl = (\<lambda>action unit h. (Systemctl_missing, h)), ho_socket = (\<lambda>socket line h. (No_connection [], h)), ho_own_pid = 7\<rparr>,
      wr_channels = []\<rparr>"

theorem abandoned_run_ends_witness:
  "Execute_job ''r1'' \<in> set (bk_jobs (outside (run_cron bench_worker Recover_runs orphaned_state))) \<and>
   (\<exists>r1. get_run ''r1'' (db (perform_job (wr_services bench_worker) (Execute_job ''r1'') (run_cron bench_worker Recover_runs orphaned_state))) =
      Some r1 \<and> rn_status r1 \<noteq> Queued)"
proof -
  have "keyed rn_id (runs (db orphaned_state))" "get_run ''r1'' (db orphaned_state) = Some ((demo_run Running)\<lparr>rn_heartbeat_at := Some 0\<rparr>)"
    "bk_jobs (outside orphaned_state) = []"
    by (simp_all add: orphaned_state_def demo_defs get_run_def)
  moreover have "stale (clock orphaned_state - default_stale_after) ((demo_run Running)\<lparr>rn_heartbeat_at := Some 0\<rparr>)"
    by (simp add: orphaned_state_def demo_defs stale_def default_stale_after_def micros_def)
  moreover have "wr_services bench_worker = demo_services" "cf_redis_url (wr_settings bench_worker) = Some ''redis://r''"
    by (simp_all add: bench_worker_def)
  ultimately have "Execute_job ''r1'' \<in> set (bk_jobs (outside (run_cron bench_worker Recover_runs orphaned_state)))"
    and "\<exists>r1. get_run ''r1'' (db (perform_job (wr_services bench_worker) (Execute_job ''r1'') (run_cron bench_worker Recover_runs orphaned_state))) =
      Some r1 \<and> (terminal_status (rn_status r1) \<or> rn_status r1 = Awaiting_approval \<or> rn_status r1 = Running)"
    using abandoned_run_ends [OF _ _ _ _ _ _ _ refl, of orphaned_state "''r1''" "(demo_run Running)\<lparr>rn_heartbeat_at := Some 0\<rparr>" bench_worker "''redis://r''"]
      demo_respects by auto
  moreover have "terminal_status st \<or> st = Awaiting_approval \<or> st = Running \<Longrightarrow> st \<noteq> Queued" for st
    by (cases st) (simp_all add: terminal_status_def)
  ultimately show ?thesis by blast
qed

end
