(* ===== verification/Render.thy ===== *)
theory Render
  imports Sandbox Runtime
begin

text \<open>
  \<open>cli/render.py\<close>: what the command line prints.  One \<open>char\<close> is one character; the ellipsis, the dash and the
  marks, which are outside Latin-1, are stood for by control characters of their own.
\<close>

section \<open>Styles\<close>

record terminal =
  tm_no_color :: "string option"
  tm_force_color :: "string option"
  tm_tty :: bool
  tm_width :: nat

definition esc :: "string \<Rightarrow> string" where
  "esc code = CHR 0x1B # CHR ''['' # code @ ''m''"

definition ansi :: "(string \<times> string) list" where
  "ansi = [(''reset'', esc ''0''), (''bold'', esc ''1''), (''dim'', esc ''2''), (''red'', esc ''31''), (''green'', esc ''32''),
     (''yellow'', esc ''33''), (''blue'', esc ''34''), (''magenta'', esc ''35''), (''cyan'', esc ''36''), (''grey'', esc ''90'')]"

definition status_colours :: "(string \<times> string) list" where
  "status_colours = [(''queued'', ''grey''), (''running'', ''cyan''), (''awaiting_approval'', ''yellow''), (''succeeded'', ''green''),
     (''failed'', ''red''), (''cancelled'', ''magenta''), (''ready'', ''green''), (''pending'', ''yellow''), (''ok'', ''green''),
     (''error'', ''red'')]"

definition colour_enabled :: "terminal \<Rightarrow> bool" where
  "colour_enabled tm = (if truthy (tm_no_color tm) then False else if truthy (tm_force_color tm) then True else tm_tty tm)"

definition paint :: "terminal \<Rightarrow> string \<Rightarrow> string \<Rightarrow> string" where
  "paint tm t style =
     (case map_of ansi style of
        None \<Rightarrow> t
      | Some code \<Rightarrow> if colour_enabled tm then code @ t @ esc ''0'' else t)"

definition status_cell :: "terminal \<Rightarrow> string \<Rightarrow> string" where
  "status_cell tm v = paint tm v (case map_of status_colours v of Some c \<Rightarrow> c | None \<Rightarrow> ''reset'')"

definition heading :: "terminal \<Rightarrow> string \<Rightarrow> string" where
  "heading tm t = paint tm t ''bold''"

definition dim_text :: "terminal \<Rightarrow> string \<Rightarrow> string" where
  "dim_text tm t = paint tm t ''dim''"

section \<open>Cells\<close>

definition ellipsis :: char where
  "ellipsis = CHR 0x85"

definition truncate_text :: "string \<Rightarrow> nat \<Rightarrow> string" where
  "truncate_text t width =
     (let t1 = strip (map (\<lambda>c. if c = CHR 0x0A then CHR '' '' else c) t)
      in if length t1 \<le> width then t1 else take (max 1 (width - 1)) t1 @ [ellipsis])"

definition ljust :: "nat \<Rightarrow> string \<Rightarrow> string" where
  "ljust width t = t @ replicate (width - length t) CHR '' ''"

definition rstrip_spaces :: "string \<Rightarrow> string" where
  "rstrip_spaces t = rev (dropWhile is_space (rev t))"

definition upper_char :: "char \<Rightarrow> char" where
  "upper_char c = (let n = of_char c :: nat in if 97 \<le> n \<and> n \<le> 122 then char_of (n - 32) else c)"

section \<open>Tables\<close>

type_synonym cells = "(string \<times> string) list"

definition cell :: "cells \<Rightarrow> string \<Rightarrow> string" where
  "cell row column = (case map_of row column of Some v \<Rightarrow> v | None \<Rightarrow> [])"

definition column_widths :: "cells list \<Rightarrow> string list \<Rightarrow> (string \<times> nat) list" where
  "column_widths rows columns =
     map (\<lambda>c. (c, Max (set (length c # map (\<lambda>row. length (cell row c)) rows)))) columns"

definition widths_sum :: "(string \<times> nat) list \<Rightarrow> nat" where
  "widths_sum ws = sum_list (map snd ws)"

definition table_width :: "(string \<times> nat) list \<Rightarrow> nat" where
  "table_width ws = widths_sum ws + 2 * (length ws - 1)"

text \<open>\<open>max(widths, key=...)\<close> is the first of the widest columns.\<close>

fun shrink_widest :: "(string \<times> nat) list \<Rightarrow> (string \<times> nat) list" where
  "shrink_widest [] = []"
| "shrink_widest ((c, w) # ws) = (if \<forall>x \<in> set ws. snd x \<le> w then (c, w - 1) # ws else (c, w) # shrink_widest ws)"

definition some_wide :: "(string \<times> nat) list \<Rightarrow> bool" where
  "some_wide ws = list_ex (\<lambda>x. 8 < snd x) ws"

lemma shrink_widest_sum: "some_wide ws \<Longrightarrow> widths_sum (shrink_widest ws) < widths_sum ws"
proof (induction ws rule: shrink_widest.induct)
  case (2 c w ws)
  show ?case
  proof (cases "\<forall>x \<in> set ws. snd x \<le> w")
    case True
    then have "0 < w" using "2.prems" by (auto simp: some_wide_def list_ex_iff)
    then show ?thesis using True by (simp add: widths_sum_def)
  next
    case False
    then obtain x where "x \<in> set ws" "w < snd x" by (auto simp: not_le)
    then have "some_wide ws" using "2.prems" unfolding some_wide_def list_ex_iff by (metis insertE less_trans list.set(2) snd_conv)
    with "2.IH" [OF False] False show ?thesis by (auto simp: widths_sum_def)
  qed
qed (simp add: some_wide_def)

function squeeze :: "nat \<Rightarrow> (string \<times> nat) list \<Rightarrow> (string \<times> nat) list" where
  "squeeze limit ws = (if limit < table_width ws \<and> some_wide ws then squeeze limit (shrink_widest ws) else ws)"
  by pat_completeness auto
termination
  by (relation "measure (\<lambda>(limit, ws). widths_sum ws)") (auto intro: shrink_widest_sum)

declare squeeze.simps [simp del]

definition header_line :: "(string \<times> nat) list \<Rightarrow> string" where
  "header_line ws = rstrip_spaces (join ''  '' (map (\<lambda>(c, w). ljust w (map upper_char c)) ws))"

definition body_cell :: "terminal \<Rightarrow> cells \<Rightarrow> string \<times> nat \<Rightarrow> string" where
  "body_cell tm row cw =
     (let t = truncate_text (cell row (fst cw)) (snd cw); padded = ljust (snd cw) t
      in if fst cw = ''status'' then replace_once t (status_cell tm t) padded else padded)"

definition body_line :: "terminal \<Rightarrow> (string \<times> nat) list \<Rightarrow> cells \<Rightarrow> string" where
  "body_line tm ws row = rstrip_spaces (join ''  '' (map (body_cell tm row) ws))"

definition table_lines :: "terminal \<Rightarrow> cells list \<Rightarrow> string list \<Rightarrow> nat option \<Rightarrow> string list" where
  "table_lines tm rows columns max_width =
     (if rows = [] then [dim_text tm ''(none)'']
      else (let limit = (case max_width of Some n \<Rightarrow> if n = 0 then tm_width tm else n | None \<Rightarrow> tm_width tm);
                ws = squeeze limit (column_widths rows columns)
            in heading tm (header_line ws) # map (body_line tm ws) rows))"

definition table :: "terminal \<Rightarrow> cells list \<Rightarrow> string list \<Rightarrow> nat option \<Rightarrow> string" where
  "table tm rows columns max_width = join newline (table_lines tm rows columns max_width)"

section \<open>Other renderings\<close>

text \<open>The values of \<open>key_values\<close>: a list is shown by its first ten items.\<close>

datatype shown_value = Plain string | Items "string list"

definition shown_text :: "shown_value \<Rightarrow> string" where
  "shown_text v = (case v of
       Plain t \<Rightarrow> t
     | Items xs \<Rightarrow> join '', '' (take 10 xs) @ (if length xs > 10 then '' (+'' @ show_nat (length xs - 10) @ '' more)'' else []))"

definition key_values :: "terminal \<Rightarrow> (string \<times> shown_value) list \<Rightarrow> nat \<Rightarrow> string" where
  "key_values tm kvs indent =
     (if kvs = [] then dim_text tm ''(empty)''
      else (let width = Max (set (map (\<lambda>(k, v). length k) kvs))
            in join newline (map (\<lambda>(k, v). replicate indent CHR '' '' @ dim_text tm (ljust width k) @ ''  '' @ shown_text v) kvs)))"

text \<open>\<open>f"{x:.1f}"\<close> of a real number.\<close>

definition fixed1 :: "real \<Rightarrow> string" where
  "fixed1 x =
     (let n = round_half_even (10 * \<bar>x\<bar>)
      in (if x < 0 then ''-'' else []) @ show_int (n div 10) @ ''.'' @ show_int (n mod 10))"

fun scaled :: "real \<Rightarrow> string list \<Rightarrow> string" where
  "scaled x [] = fixed1 x @ ''PiB''"
| "scaled x (unit # units) = (if \<bar>x\<bar> < 1024 then fixed1 x @ unit else scaled (x / 1024) units)"

definition bytes_human :: "int option \<Rightarrow> string" where
  "bytes_human n =
     (case n of
        None \<Rightarrow> ''?''
      | Some k \<Rightarrow> if \<bar>k\<bar> < 1024 then show_int k @ ''B'' else scaled (of_int k / 1024) [''KiB'', ''MiB'', ''GiB'', ''TiB''])"

definition full_block :: char where
  "full_block = CHR 0x88"

definition light_block :: char where
  "light_block = CHR 0x91"

definition bar :: "terminal \<Rightarrow> real \<Rightarrow> nat \<Rightarrow> string" where
  "bar tm fraction width =
     (let f = max 0 (min 1 fraction); filled = nat (round_half_even (f * real width));
          style = (if f < 3 / 4 then ''green'' else if f < 9 / 10 then ''yellow'' else ''red'')
      in paint tm (replicate filled full_block) style @ dim_text tm (replicate (width - filled) light_block))"

section \<open>The widths of a table\<close>

definition no_colour :: "terminal \<Rightarrow> bool" where
  "no_colour tm = (\<not> colour_enabled tm)"

lemma no_colour_paint: "no_colour tm \<Longrightarrow> paint tm t style = t"
  by (simp add: paint_def no_colour_def split: option.splits)

text \<open>A squeezed column keeps its width or has at least eight characters left.\<close>

definition squeezed_from :: "(string \<times> nat) list \<Rightarrow> (string \<times> nat) list \<Rightarrow> bool" where
  "squeezed_from ws vs = list_all2 (\<lambda>w v. fst v = fst w \<and> snd v \<le> snd w \<and> (snd v = snd w \<or> 8 \<le> snd v)) ws vs"

lemma squeezed_refl: "squeezed_from ws ws"
  by (simp add: squeezed_from_def list_all2_refl)

lemma squeezed_trans: "squeezed_from ws vs \<Longrightarrow> squeezed_from vs us \<Longrightarrow> squeezed_from ws us"
proof -
  assume a: "squeezed_from ws vs" "squeezed_from vs us"
  show ?thesis unfolding squeezed_from_def by (rule list_all2_trans [OF _ a [unfolded squeezed_from_def]]) auto
qed

lemma shrink_squeezed: "some_wide ws \<Longrightarrow> squeezed_from ws (shrink_widest ws)"
proof (induction ws rule: shrink_widest.induct)
  case (2 c w ws)
  show ?case
  proof (cases "\<forall>x \<in> set ws. snd x \<le> w")
    case True
    then have "8 < w" using "2.prems" by (auto simp: some_wide_def list_ex_iff)
    then show ?thesis using True squeezed_refl [of ws] by (auto simp: squeezed_from_def)
  next
    case False
    then obtain x where "x \<in> set ws" "w < snd x" by (auto simp: not_le)
    then have "some_wide ws" using "2.prems" unfolding some_wide_def list_ex_iff by (metis insertE less_trans list.set(2) snd_conv)
    with "2.IH" [OF False] False show ?thesis by (auto simp: squeezed_from_def)
  qed
qed (simp add: some_wide_def)

lemma squeeze_result:
  "squeezed_from ws (squeeze limit ws) \<and> (table_width (squeeze limit ws) \<le> limit \<or> \<not> some_wide (squeeze limit ws))"
proof (induction limit ws rule: squeeze.induct)
  case (1 limit ws)
  show ?case
  proof (cases "limit < table_width ws \<and> some_wide ws")
    case True
    then show ?thesis using "1.IH" squeezed_trans [OF shrink_squeezed] by (simp add: squeeze.simps [of limit ws])
  next
    case False
    then show ?thesis using squeezed_refl by (auto simp: squeeze.simps [of limit ws])
  qed
qed

lemma squeeze_length: "length (squeeze limit ws) = length ws"
  using squeeze_result [of ws limit] by (auto simp: squeezed_from_def dest: list_all2_lengthD)

lemma narrow_sum: "\<not> some_wide ws \<Longrightarrow> widths_sum ws \<le> 8 * length ws"
  by (induction ws) (auto simp: some_wide_def widths_sum_def)

lemma squeeze_fits:
  assumes "ws \<noteq> []"
  shows "table_width (squeeze limit ws) \<le> max limit (10 * length ws - 2)"
proof -
  have "0 < length ws" using assms by simp
  moreover have "widths_sum (squeeze limit ws) \<le> 8 * length ws" if "\<not> some_wide (squeeze limit ws)"
    using narrow_sum [OF that] squeeze_length [of limit ws] by simp
  ultimately show ?thesis using squeeze_result [of ws limit] squeeze_length [of limit ws] by (auto simp: table_width_def)
qed

lemma drop_length: "length (dropWhile p (rev t)) \<le> length t"
  using length_dropWhile_le [of p "rev t"] by simp

lemma lstrip_length: "length (lstrip t) \<le> length t"
  unfolding lstrip_def by (rule length_dropWhile_le)

lemma strip_length: "length (strip t) \<le> length t"
  unfolding strip_def using lstrip_length [of "rev (lstrip t)"] lstrip_length [of t] by simp

lemma truncate_length: "length t \<le> w \<or> 8 \<le> w \<Longrightarrow> length (truncate_text t w) \<le> w"
proof -
  assume "length t \<le> w \<or> 8 \<le> w"
  moreover have "length (strip (map (\<lambda>c. if c = CHR 0x0A then CHR '' '' else c) t)) \<le> length t"
    using strip_length [of "map (\<lambda>c. if c = CHR 0x0A then CHR '' '' else c) t"] by simp
  ultimately show ?thesis by (auto simp: truncate_text_def Let_def min_def)
qed

lemma ljust_length: "length t \<le> w \<Longrightarrow> length (ljust w t) = w"
  by (simp add: ljust_def)

lemma replace_same: "replace_once t t u = u"
proof (induction u)
  case (Cons c u)
  have "t @ drop (length t) (c # u) = c # u" if "take (length t) (c # u) = t"
    using that append_take_drop_id [of "length t" "c # u"] by metis
  then show ?case using Cons by (auto simp: starts_with_def)
qed simp

lemma rstrip_length: "length (rstrip_spaces t) \<le> length t"
  by (simp add: rstrip_spaces_def drop_length)

lemma join_widths: "list_all2 (\<lambda>t cw. length t = snd cw) ts ws \<Longrightarrow> ws \<noteq> [] \<Longrightarrow> length (join ''  '' ts) = table_width ws"
proof (induction ts ws rule: list_all2_induct)
  case (Cons t ts cw ws)
  show ?case
  proof (cases ws)
    case Nil
    then show ?thesis using Cons.hyps by (simp add: table_width_def widths_sum_def)
  next
    case (Cons v vs)
    then obtain u us where "ts = u # us" using Cons.hyps(2) by (cases ts) auto
    then show ?thesis using Cons.IH Cons.hyps Cons by (simp add: table_width_def widths_sum_def)
  qed
qed simp

lemma column_fits: "row \<in> set rows \<Longrightarrow> (c, w) \<in> set (column_widths rows columns) \<Longrightarrow> length (cell row c) \<le> w \<and> length c \<le> w"
  by (auto simp: column_widths_def)

lemma squeezed_members:
  assumes "squeezed_from ws vs" and "(c, v) \<in> set vs"
  shows "\<exists>w. (c, w) \<in> set ws \<and> (v = w \<or> 8 \<le> v)"
proof -
  obtain i where i: "i < length vs" "vs ! i = (c, v)" using assms(2) by (auto simp: in_set_conv_nth)
  have "i < length ws" "c = fst (ws ! i) \<and> (v = snd (ws ! i) \<or> 8 \<le> v)"
    using assms(1) i by (auto simp: squeezed_from_def list_all2_conv_all_nth)
  then show ?thesis by (intro exI [of _ "snd (ws ! i)"]) (metis nth_mem prod.collapse)
qed

lemma body_cell_length:
  assumes "no_colour tm" and "length (cell row c) \<le> w \<or> 8 \<le> w"
  shows "length (body_cell tm row (c, w)) = w"
  using ljust_length [OF truncate_length [OF assms(2)]] assms(1)
  by (auto simp: body_cell_def Let_def status_cell_def no_colour_paint replace_same)

lemma body_line_length:
  assumes "no_colour tm" and "row \<in> set rows" and "squeezed_from (column_widths rows columns) ws" and "ws \<noteq> []"
  shows "length (body_line tm ws row) \<le> table_width ws"
proof -
  have "length (body_cell tm row x) = snd x" if x: "x \<in> set ws" for x
  proof -
    obtain w where "(fst x, w) \<in> set (column_widths rows columns)" "snd x = w \<or> 8 \<le> snd x"
      using squeezed_members [OF assms(3), of "fst x" "snd x"] x by auto
    then have "length (cell row (fst x)) \<le> snd x \<or> 8 \<le> snd x" using column_fits [OF assms(2)] by blast
    then show ?thesis using body_cell_length [OF assms(1), of row "fst x" "snd x"] by simp
  qed
  then have "list_all2 (\<lambda>t cw. length t = snd cw) (map (body_cell tm row) ws) ws" by (simp add: list_all2_conv_all_nth)
  from join_widths [OF this assms(4)] show ?thesis
    unfolding body_line_def using rstrip_length [of "join ''  '' (map (body_cell tm row) ws)"] by simp
qed

lemma header_line_length:
  assumes "squeezed_from (column_widths rows columns) ws" and "ws \<noteq> []" and "\<forall>c \<in> set columns. length c \<le> 8" and "rows \<noteq> []"
  shows "length (header_line ws) \<le> table_width ws"
proof -
  have "length (ljust (snd x) (map upper_char (fst x))) = snd x" if x: "x \<in> set ws" for x
  proof -
    obtain w where w: "(fst x, w) \<in> set (column_widths rows columns)" "snd x = w \<or> 8 \<le> snd x"
      using squeezed_members [OF assms(1), of "fst x" "snd x"] x by auto
    moreover have "fst x \<in> set columns" using w(1) by (auto simp: column_widths_def)
    moreover obtain row where "row \<in> set rows" using assms(4) by (cases rows) auto
    ultimately have "length (fst x) \<le> snd x" using column_fits [of row rows "fst x" w columns] assms(3) by auto
    then show ?thesis by (simp add: ljust_length)
  qed
  then have "list_all2 (\<lambda>t cw. length t = snd cw) (map (\<lambda>(c, w). ljust w (map upper_char c)) ws) ws"
    by (simp add: list_all2_conv_all_nth split_beta)
  from join_widths [OF this assms(2)] show ?thesis
    unfolding header_line_def using rstrip_length [of "join ''  '' (map (\<lambda>(c, w). ljust w (map upper_char c)) ws)"] by simp
qed

section \<open>Properties\<close>

text \<open>A table fits the terminal: without colours no line of it is longer than the limit, unless that leaves a column less
  than eight characters; only columns that are wider than eight characters are cut, widest first, and the cutting ends.\<close>

theorem table_fits:
  assumes "no_colour tm" and "rows \<noteq> []" and "columns \<noteq> []" and "\<forall>c \<in> set columns. length c \<le> 8" and "0 < limit"
  shows "\<forall>line \<in> set (table_lines tm rows columns (Some limit)). length line \<le> max limit (10 * length columns - 2)"
proof -
  let ?ws = "column_widths rows columns"
  let ?vs = "squeeze limit ?ws"
  have n: "length ?ws = length columns" "?ws \<noteq> []" using assms(3) by (simp_all add: column_widths_def)
  then have "?vs \<noteq> []" using squeeze_length [of limit ?ws] by (metis length_0_conv)
  moreover have "squeezed_from ?ws ?vs" using squeeze_result by blast
  moreover have "table_width ?vs \<le> max limit (10 * length columns - 2)" using squeeze_fits [OF n(2), of limit] n(1) by simp
  ultimately show ?thesis
    using header_line_length [of rows columns ?vs] body_line_length [OF assms(1), of _ rows columns ?vs] assms
    by (auto simp: table_lines_def Let_def heading_def no_colour_paint intro: le_trans)
qed

definition plain_terminal :: terminal where
  "plain_terminal = \<lparr>tm_no_color = Some ''1'', tm_force_color = None, tm_tty = True, tm_width = 80\<rparr>"

theorem table_fits_witness:
  "\<forall>line \<in> set (table_lines plain_terminal [[(''id'', ''r1''), (''goal'', ''mend the disk of the old build host'')]] [''id'', ''goal''] (Some 20)).
     length line \<le> 20"
  using table_fits [of plain_terminal "[[(''id'', ''r1''), (''goal'', ''mend the disk of the old build host'')]]" "[''id'', ''goal'']" 20]
  by (simp add: plain_terminal_def no_colour_def colour_enabled_def truthy_def)

end
