(* ===== verification/Local.thy ===== *)
theory Local
  imports Conductor Config Access
begin

text \<open>
  \<open>cli/engine.py\<close>: the services inside the process of the command line.  There the inline backend runs its jobs as
  tasks of the same loop: all that were started are done when the command closes the engine.  With the queue
  backend the workers run them, which is what \<open>en_elsewhere\<close> does to the state in the meantime.
\<close>

section \<open>The engine\<close>

record 'v engine =
  en_services :: "'v services"
  en_settings :: settings
  en_elsewhere :: "'v state \<Rightarrow> 'v state"

record local_context =
  lc_user :: ident
  lc_workspace :: ident

definition local_email :: string where
  "local_email = ''local@hoursx.invalid''"

definition local_slug :: string where
  "local_slug = ''local''"

definition default_agent_grants :: "string list" where
  "default_agent_grants =
     [''fs.*'', ''code.patch'', ''shell.run'', ''git.*'', ''http.fetch'', ''knowledge.*'', ''memory.*'', ''system.*'', ''change.*'']"

section \<open>The local identity\<close>

text \<open>\<open>scalar_one_or_none\<close> on columns that are unique in their table.\<close>

definition local_user :: "'w sys \<Rightarrow> ident \<times> 'w sys" where
  "local_user s =
     (case find (\<lambda>u. us_email u = local_email) (users (db s)) of
        Some u \<Rightarrow> (us_id u, s)
      | None \<Rightarrow>
          (fresh s, use_id (on_db (\<lambda>d. d\<lparr>users := users d @ [\<lparr>us_id = fresh s, us_created = clock s, us_email = local_email,
             us_display_name = ''Local Operator'', us_password_hash = ''local-only-no-login'', us_active = True\<rparr>]\<rparr>) s)))"

definition local_workspace :: "'w sys \<Rightarrow> ident \<times> 'w sys" where
  "local_workspace s =
     (case find (\<lambda>w. wk_slug w = local_slug) (workspaces (db s)) of
        Some w \<Rightarrow> (wk_id w, s)
      | None \<Rightarrow>
          (fresh s, use_id (on_db (\<lambda>d. d\<lparr>workspaces := workspaces d @ [\<lparr>wk_id = fresh s, wk_created = clock s, wk_name = ''Local'',
             wk_slug = local_slug\<rparr>]\<rparr>) s)))"

definition local_membership :: "ident \<Rightarrow> ident \<Rightarrow> 'w sys \<Rightarrow> 'w sys" where
  "local_membership user ws s =
     (case find (\<lambda>m. wm_workspace m = ws \<and> wm_user m = user) (members (db s)) of
        Some m \<Rightarrow> s
      | None \<Rightarrow>
          use_id (on_db (\<lambda>d. d\<lparr>members := members d @ [\<lparr>wm_id = fresh s, wm_created = clock s, wm_workspace = ws, wm_user = user,
             wm_role = role_value OWNER\<rparr>]\<rparr>) s))"

definition open_local :: "'w sys \<Rightarrow> local_context \<times> 'w sys" where
  "open_local s =
     (case local_user s of
        (u, s1) \<Rightarrow> (case local_workspace s1 of
          (w, s2) \<Rightarrow> (\<lparr>lc_user = u, lc_workspace = w\<rparr>, local_membership u w s2)))"

section \<open>Agents and sessions\<close>

definition ensure_agent ::
  "local_context \<Rightarrow> string \<Rightarrow> string \<Rightarrow> string \<Rightarrow> string \<Rightarrow> string list option \<Rightarrow> 'w sys \<Rightarrow> ident \<times> 'w sys" where
  "ensure_agent lc handle title instructions model_alias grants s =
     (case find (\<lambda>p. ap_workspace p = lc_workspace lc \<and> ap_handle p = handle) (profiles (db s)) of
        Some p \<Rightarrow> (ap_id p, s)
      | None \<Rightarrow>
          (fresh s, use_id (on_db (\<lambda>d. d\<lparr>profiles := profiles d @ [\<lparr>ap_id = fresh s, ap_created = clock s,
             ap_workspace = lc_workspace lc, ap_handle = handle, ap_title = title,
             ap_instructions = (if instructions = [] then ''You operate this machine. Diagnose before you change anything.''
                                else instructions),
             ap_model_alias = model_alias,
             ap_tool_grants = (case grants of None \<Rightarrow> default_agent_grants | Some gs \<Rightarrow> if gs = [] then default_agent_grants else gs),
             ap_can_delegate = True, ap_max_steps = None\<rparr>]\<rparr>) s)))"

definition default_agent :: "local_context \<Rightarrow> string \<Rightarrow> 'w sys \<Rightarrow> ident \<times> 'w sys" where
  "default_agent lc handle = ensure_agent lc handle ''Operator Agent'' [] ''deep'' None"

definition ensure_session :: "local_context \<Rightarrow> ident \<Rightarrow> string \<Rightarrow> 'w sys \<Rightarrow> ident \<times> 'w sys" where
  "ensure_session lc agent title s =
     (fresh s, use_id (on_db (\<lambda>d. d\<lparr>sessions := sessions d @ [\<lparr>ss_id = fresh s, ss_created = clock s, ss_workspace = lc_workspace lc,
        ss_user = lc_user lc, ss_profile = agent, ss_title = title, ss_sandbox_dir = ''session-'' @ fresh s, ss_archived = False\<rparr>]\<rparr>) s))"

section \<open>Runs\<close>

text \<open>The inline tasks, in the order in which they were started.\<close>

definition inline_runs :: "'v services \<Rightarrow> 'v state \<Rightarrow> 'v state" where
  "inline_runs sv s = fold (perform_job sv) (bk_jobs (outside s)) (on_backend (\<lambda>b. b\<lparr>bk_jobs := []\<rparr>) s)"

definition settle_runs :: "'v engine \<Rightarrow> 'v state \<Rightarrow> 'v state" where
  "settle_runs en s = (case cf_task_backend (en_settings en) of Inline \<Rightarrow> inline_runs (en_services en) s | Arq \<Rightarrow> en_elsewhere en s)"

definition final_event :: "event \<Rightarrow> bool" where
  "final_event e = (ev_type e \<in> {RUN_FINISHED, RUN_AWAITING_APPROVAL})"

text \<open>
  The events of the run from the subscription on, up to the first that ends the wait; without one the wait times out
  and there is no terminal event.
\<close>

definition run_events :: "local_context \<Rightarrow> ident \<Rightarrow> event list \<Rightarrow> event list" where
  "run_events lc k es = filter (\<lambda>e. ev_workspace e = lc_workspace lc \<and> ev_run e = Some k) es"

definition seen_events :: "event list \<Rightarrow> event list \<times> event option" where
  "seen_events es =
     (let before = takeWhile (\<lambda>e. \<not> final_event e) es
      in case drop (length before) es of [] \<Rightarrow> (before, None) | e # rest \<Rightarrow> (before @ [e], Some e))"

definition stream_local_run ::
  "'v engine \<Rightarrow> local_context \<Rightarrow> ident \<Rightarrow> string \<Rightarrow> 'v state \<Rightarrow> (submit_error + ident \<times> event list \<times> event option) \<times> 'v state" where
  "stream_local_run en lc session t s =
     (case submit_message (en_services en) (settings_quota (en_settings en)) session t False None s of
        (Inl e, s1) \<Rightarrow> (Inl e, s1)
      | (Inr k, s1) \<Rightarrow>
          (let s2 = settle_runs en s1
           in (Inr (k, seen_events (run_events lc k (drop (length (published s)) (published s2)))), s2)))"

section \<open>Properties\<close>

text \<open>Opening the engine leaves what is there alone.\<close>

lemma find_keeps: "find p xs = Some x \<Longrightarrow> find p (xs @ ys) = Some x"
  by (induction xs) auto

lemma find_adds: "find p xs = None \<Longrightarrow> find p (xs @ ys) = find p ys"
  by (induction xs) (auto split: if_splits)

lemma find_found: "find p xs = Some x \<Longrightarrow> x \<in> set xs \<and> p x"
  by (induction xs) (auto split: if_splits)

lemma membership_found: "\<exists>m \<in> set (members (db (local_membership u w s))). wm_workspace m = w \<and> wm_user m = u"
proof (cases "find (\<lambda>m. wm_workspace m = w \<and> wm_user m = u) (members (db s))")
  case (Some m)
  then show ?thesis using find_found [OF Some] by (auto simp: local_membership_def)
qed (simp add: local_membership_def)

lemma local_user_again:
  "local_user s = (u, s1) \<Longrightarrow> users (db s2) = users (db s1) \<Longrightarrow> local_user s2 = (u, s2)"
  by (auto simp: local_user_def find_adds split: option.splits)

lemma local_workspace_again:
  "local_workspace s = (w, s1) \<Longrightarrow> workspaces (db s2) = workspaces (db s1) \<Longrightarrow> local_workspace s2 = (w, s2)"
  by (auto simp: local_workspace_def find_adds split: option.splits)

lemma local_membership_again: "members (db s2) = members (db (local_membership u w s)) \<Longrightarrow> local_membership u w s2 = s2"
  by (auto simp: local_membership_def find_adds split: option.splits)

lemma local_effects:
  "local_user s = (u, s1) \<Longrightarrow> workspaces (db s1) = workspaces (db s) \<and> members (db s1) = members (db s)"
  "local_workspace s = (w, s1) \<Longrightarrow> users (db s1) = users (db s) \<and> members (db s1) = members (db s)"
  "users (db (local_membership u w s)) = users (db s)"
  "workspaces (db (local_membership u w s)) = workspaces (db s)"
  by (auto simp: local_user_def local_workspace_def local_membership_def split: option.splits)

lemma open_local_again:
  assumes "open_local s = (lc, s1)"
  shows "open_local s1 = (lc, s1) \<and> (\<exists>m \<in> set (members (db s1)). wm_workspace m = lc_workspace lc \<and> wm_user m = lc_user lc)"
proof -
  obtain u sa w sb where parts: "local_user s = (u, sa)" "local_workspace sa = (w, sb)" and
    lc: "lc = \<lparr>lc_user = u, lc_workspace = w\<rparr>" "s1 = local_membership u w sb"
    using assms by (auto simp: open_local_def split: prod.splits)
  have "local_user s1 = (u, s1)" "local_workspace s1 = (w, s1)" "local_membership u w s1 = s1"
    using local_user_again [OF parts(1), of s1] local_workspace_again [OF parts(2), of s1] local_membership_again [of s1 u w sb]
      local_effects(2) [OF parts(2)] local_effects(3,4) [of u w sb] lc(2) by simp_all
  then have "open_local s1 = (lc, s1)" by (simp add: open_local_def lc(1))
  moreover have "\<exists>m \<in> set (members (db s1)). wm_workspace m = w \<and> wm_user m = u"
    unfolding lc(2) by (rule membership_found)
  ultimately show ?thesis by (simp add: lc(1))
qed

lemma open_local_effects:
  "open_local s = (lc, s1) \<Longrightarrow> outside s1 = outside s \<and> runs (db s1) = runs (db s) \<and> changes (db s1) = changes (db s) \<and> clock s1 = clock s"
  by (auto simp: open_local_def local_user_def local_workspace_def local_membership_def split: option.splits prod.splits)

text \<open>The local identity is made once: opening the engine again finds the same user and workspace and changes nothing,
  and the user is an owner of the workspace.\<close>

theorem open_local_idempotent:
  assumes "open_local s = (lc, s1)"
  shows "open_local s1 = (lc, s1) \<and> (\<exists>m \<in> set (members (db s1)). wm_workspace m = lc_workspace lc \<and> wm_user m = lc_user lc)"
  using assms by (rule open_local_again)

text \<open>Nobody logs in as the local operator: the identity the engine makes has a password hash that no password matches,
  so the login route refuses its address whatever the password.\<close>

theorem local_identity_no_login:
  assumes "find (\<lambda>u. us_email u = local_email) (users (db s)) = None" and "open_local s = (lc, s1)" and "lower email = local_email"
  shows "login env email password s1 = (Inl (Http 401 ''invalid credentials''), s1)"
proof -
  obtain u sa w sb where parts: "local_user s = (u, sa)" "local_workspace sa = (w, sb)" and
    lc: "s1 = local_membership u w sb"
    using assms(2) by (auto simp: open_local_def split: prod.splits)
  have "users (db s1) = users (db sa)" using local_effects(2) [OF parts(2)] local_effects(3) [of u w sb] lc by simp
  moreover have "users (db sa) = users (db s) @ [\<lparr>us_id = fresh s, us_created = clock s, us_email = local_email,
             us_display_name = ''Local Operator'', us_password_hash = ''local-only-no-login'', us_active = True\<rparr>]"
    using parts(1) assms(1) by (auto simp: local_user_def)
  moreover have "\<not> verify_password kd password ''local-only-no-login''" for kd
    by (simp add: verify_password_def)
  ultimately show ?thesis using assms(1) by (simp add: login_def assms(3) find_adds find_row_def)
qed

definition first_use :: "nat state" where
  "first_use = idle_state\<lparr>db := empty_database\<rparr>"

theorem open_local_idempotent_witness:
  "\<exists>lc s1. open_local first_use = (lc, s1) \<and> open_local s1 = (lc, s1)"
proof -
  obtain lc s1 where "open_local first_use = (lc, s1)" by fastforce
  with open_local_idempotent [OF this] show ?thesis by blast
qed

theorem local_identity_no_login_witness:
  "\<exists>s1. snd (open_local first_use) = s1 \<and>
     login \<lparr>az_jwt = \<lparr>jw_encode = (\<lambda>c k. k), jw_decode = (\<lambda>t k i n. Inl [])\<rparr>, az_secret = ''k'', az_ttl = 60, az_open_registration = True,
        az_sha = (\<lambda>x. x), az_kd = (\<lambda>p salt n. p)\<rparr> ''Local@HoursX.invalid'' ''guess'' s1 = (Inl (Http 401 ''invalid credentials''), s1)"
proof -
  obtain lc s1 where opened: "open_local first_use = (lc, s1)" by fastforce
  have "find (\<lambda>u. us_email u = local_email) (users (db first_use)) = None" by (simp add: first_use_def empty_database_def)
  moreover have "lower ''Local@HoursX.invalid'' = local_email" by code_simp
  ultimately show ?thesis using local_identity_no_login [OF _ opened] opened by (metis snd_conv)
qed

end
