(* ===== verification/Cli.thy ===== *)
theory Cli
  imports Local Render Vendors Guard Channels Knowledge
begin

text \<open>
  \<open>cli/commands.py\<close>: the commands of \<open>hoursx\<close> that act on the services.  A command is a function of the state with
  its exit code and what it writes; \<open>Uncaught\<close> is an exception that leaves it.  Characters outside Latin-1 are stood
  for by control characters, as in the rendering.
\<close>

section \<open>Commands\<close>

record console =
  co_terminal :: terminal
  co_rep :: "real \<Rightarrow> string"

datatype cli_end = Exit int | Uncaught

type_synonym 'v command = "'v state \<Rightarrow> (cli_end \<times> string list) \<times> 'v state"

definition emit_line :: "string \<Rightarrow> string" where
  "emit_line t = t @ newline"

definition tick :: char where
  "tick = CHR 0x93"

definition cross :: char where
  "cross = CHR 0x97"

definition dash :: char where
  "dash = CHR 0x96"

definition short :: "ident \<Rightarrow> string" where
  "short k = take 12 k"

text \<open>\<open>close_local\<close>, and the \<open>try ... finally\<close> around every body.\<close>

definition close_local :: "'v engine \<Rightarrow> 'v state \<Rightarrow> 'v state" where
  "close_local en s = (case cf_task_backend (en_settings en) of Inline \<Rightarrow> inline_runs (en_services en) s | Arq \<Rightarrow> s)"

definition in_local :: "'v engine \<Rightarrow> (local_context \<Rightarrow> 'v command) \<Rightarrow> 'v command" where
  "in_local en body s = (case open_local s of (lc, s1) \<Rightarrow> (case body lc s1 of (r, s2) \<Rightarrow> (r, close_local en s2)))"

text \<open>A command that only shows rows.\<close>

definition show_rows :: "console \<Rightarrow> cells list \<Rightarrow> string list \<Rightarrow> string list" where
  "show_rows co rows columns = [emit_line (table (co_terminal co) rows columns None)]"

definition shows_rows :: "'v engine \<Rightarrow> (local_context \<Rightarrow> database \<Rightarrow> string list) \<Rightarrow> 'v command" where
  "shows_rows en f = in_local en (\<lambda>lc s. ((Exit 0, f lc (db s)), s))"

section \<open>Agents\<close>

definition payload_item :: "string \<Rightarrow> event \<Rightarrow> json option" where
  "payload_item k e = map_of (ev_payload e) k"

definition payload_ok :: "event \<Rightarrow> bool" where
  "payload_ok e = (case payload_item ''ok'' e of Some v \<Rightarrow> truthy_json v | None \<Rightarrow> False)"

definition payload_text :: "console \<Rightarrow> string \<Rightarrow> string \<Rightarrow> event \<Rightarrow> string" where
  "payload_text co k other e = (case payload_item k e of Some v \<Rightarrow> py_str (co_rep co) v | None \<Rightarrow> other)"

text \<open>\<open>on_event\<close> over the events seen; the flag says whether text was streamed.\<close>

fun print_events :: "console \<Rightarrow> bool \<Rightarrow> bool \<Rightarrow> event list \<Rightarrow> string list \<times> bool" where
  "print_events co quiet streamed [] = ([], streamed)"
| "print_events co quiet streamed (e # es) =
     (if ev_type e = RUN_DELTA then
        (let (out, st) = print_events co quiet True es in (payload_text co ''text'' [] e # out, st))
      else if ev_type e = RUN_STEP \<and> \<not> quiet then
        (let mark = (if payload_ok e then tick else cross); style = (if payload_ok e then ''green'' else ''yellow'');
             (out, st) = print_events co quiet streamed es
         in ((if streamed then [emit_line []] else []) @
             [emit_line (paint (co_terminal co) (''  '' @ [mark] @ '' '' @ payload_text co ''tool'' ''?'' e) style @
                dim_text (co_terminal co) ('' '' @ [dash] @ '' '' @ payload_text co ''summary'' [] e))] @ out, st))
      else print_events co quiet streamed es)"

text \<open>What a run comes to, as the exit code and the last lines.\<close>

definition run_verdict :: "console \<Rightarrow> event option \<Rightarrow> int \<times> string list" where
  "run_verdict co terminal =
     (let tm = co_terminal co in
      case terminal of
        None \<Rightarrow> (1, [emit_line (paint tm ''Run did not finish within the time limit.'' ''red'')])
      | Some e \<Rightarrow>
          if ev_type e = RUN_AWAITING_APPROVAL then
            (2, [emit_line (paint tm ''Paused for approval: '' ''yellow'' @ payload_text co ''tool'' ''None'' e @ '' '' @
                   dim_text tm (dumps_ascii (co_rep co) (case payload_item ''arguments'' e of Some v \<Rightarrow> v | None \<Rightarrow> JObj []))),
                 emit_line (dim_text tm (''Approve with: hoursx approvals approve '' @ payload_text co ''approval_id'' ''None'' e))])
          else if payload_item ''status'' e \<noteq> Some (JStr ''succeeded'') then
            (1, [emit_line (paint tm (''Failed: '' @ payload_text co ''error'' ''None'' e) ''red'')])
          else (0, []))"

definition cmd_agent_run :: "console \<Rightarrow> 'v engine \<Rightarrow> string \<Rightarrow> string \<Rightarrow> bool \<Rightarrow> 'v command" where
  "cmd_agent_run co en goal handle quiet = in_local en (\<lambda>lc s.
     case default_agent lc handle s of (agent, s1) \<Rightarrow>
     (case ensure_session lc agent (take 60 goal) s1 of (sess, s2) \<Rightarrow>
     (case stream_local_run en lc sess goal s2 of
        (Inl e, s3) \<Rightarrow> ((Uncaught, []), s3)
      | (Inr (k, seen, terminal), s3) \<Rightarrow>
          (let (out, streamed) = print_events co quiet False seen; (code, rest) = run_verdict co terminal
           in ((Exit code, out @ (if streamed then [emit_line []] else []) @ rest), s3)))))"

definition cmd_agent_list :: "console \<Rightarrow> 'v engine \<Rightarrow> 'v command" where
  "cmd_agent_list co en = shows_rows en (\<lambda>lc d.
     show_rows co (map (\<lambda>p. [(''handle'', ap_handle p), (''title'', ap_title p), (''model'', ap_model_alias p),
         (''tools'', join '', '' (ap_tool_grants p))]) (filter (\<lambda>p. ap_workspace p = lc_workspace lc) (profiles d)))
       [''handle'', ''title'', ''model'', ''tools''])"

text \<open>\<open>str.title()\<close>: a letter after anything that is not a letter is upper case, the others lower case.\<close>

definition is_letter :: "char \<Rightarrow> bool" where
  "is_letter c = (let n = of_char (lower_char c) :: nat in 97 \<le> n \<and> n \<le> 122)"

fun title_case :: "bool \<Rightarrow> string \<Rightarrow> string" where
  "title_case after [] = []"
| "title_case after (c # cs) = (if after then lower_char c else upper_char c) # title_case (is_letter c) cs"

definition cmd_agent_create :: "console \<Rightarrow> 'v engine \<Rightarrow> string \<Rightarrow> string \<Rightarrow> string \<Rightarrow> string \<Rightarrow> string \<Rightarrow> 'v command" where
  "cmd_agent_create co en handle title instructions model_alias tools = in_local en (\<lambda>lc s.
     case ensure_agent lc handle (if title = [] then title_case False handle else title) instructions model_alias
            (if tools = [] then None else Some (split_on (CHR '','') tools)) s of
       (agent, s1) \<Rightarrow> ((Exit 0, [emit_line (paint (co_terminal co) (''agent '' @ quoted handle @ '' ready'') ''green'')]), s1))"

section \<open>Runs\<close>

definition newest_runs :: "ident \<Rightarrow> nat \<Rightarrow> database \<Rightarrow> run list" where
  "newest_runs ws limit d = take limit (sort_key (\<lambda>r. - rn_created r) (filter (\<lambda>r. rn_workspace r = ws) (runs d)))"

definition cmd_run_list :: "console \<Rightarrow> 'v engine \<Rightarrow> nat \<Rightarrow> 'v command" where
  "cmd_run_list co en limit = shows_rows en (\<lambda>lc d.
     show_rows co (map (\<lambda>r. [(''id'', short (rn_id r)), (''status'', status_text (rn_status r)), (''steps'', show_int (rn_step_count r)),
         (''tokens'', show_int (rn_input_tokens r + rn_output_tokens r)), (''goal'', rn_goal r)]) (newest_runs (lc_workspace lc) limit d))
       [''id'', ''status'', ''steps'', ''tokens'', ''goal''])"

definition resolve_run :: "local_context \<Rightarrow> string \<Rightarrow> database \<Rightarrow> run option" where
  "resolve_run lc part d = find (\<lambda>r. starts_with part (rn_id r)) (newest_runs (lc_workspace lc) 500 d)"

definition no_match :: "console \<Rightarrow> string \<Rightarrow> string \<Rightarrow> string list" where
  "no_match co what part = [emit_line (paint (co_terminal co) (''no '' @ what @ '' matching '' @ py_repr part) ''red'')]"

definition or_dash :: "string option \<Rightarrow> string" where
  "or_dash x = (if truthy x then the x else ''-'')"

definition step_name :: "step_kind \<Rightarrow> string" where
  "step_name k = (case k of Model_step \<Rightarrow> ''model'' | Tool_step \<Rightarrow> ''tool'')"

text \<open>The duration of a step is measured by the process; its text is an argument.\<close>

definition cmd_run_show :: "console \<Rightarrow> 'v engine \<Rightarrow> (run_step \<Rightarrow> string) \<Rightarrow> string \<Rightarrow> 'v command" where
  "cmd_run_show co en duration part = in_local en (\<lambda>lc s.
     case resolve_run lc part (db s) of
       None \<Rightarrow> ((Exit 1, no_match co ''run'' part), s)
     | Some r \<Rightarrow>
         (let steps = sort_key rs_index (filter (\<lambda>x. rs_run x = rn_id r) (run_steps (db s)));
              facts = [(''id'', rn_id r), (''status'', status_text (rn_status r)), (''steps'', show_int (rn_step_count r)),
                (''tokens in/out'', show_int (rn_input_tokens r) @ ''/'' @ show_int (rn_output_tokens r)), (''goal'', rn_goal r),
                (''answer'', or_dash (rn_answer r)), (''error'', or_dash (rn_error r))]
          in ((Exit 0, [emit_line (key_values (co_terminal co) (map (\<lambda>(k, v). (k, Plain v)) facts) 0)] @
                (if steps = [] then []
                 else [emit_line [], emit_line (heading (co_terminal co) ''Steps'')] @
                   show_rows co (map (\<lambda>x. [(''#'', show_int (rs_index x)), (''kind'', step_name (rs_kind x)), (''ms'', duration x),
                       (''detail'', truncate_text (dumps_ascii (co_rep co) (JObj (rs_detail x))) 200)]) steps)
                     [''#'', ''kind'', ''ms'', ''detail''])), s)))"

definition cmd_run_cancel :: "console \<Rightarrow> 'v engine \<Rightarrow> string \<Rightarrow> 'v command" where
  "cmd_run_cancel co en part = in_local en (\<lambda>lc s.
     case resolve_run lc part (db s) of
       None \<Rightarrow> ((Exit 1, no_match co ''run'' part), s)
     | Some r \<Rightarrow>
         (case request_cancel (rn_id r) (lc_workspace lc) s of
            (Inl e, s1) \<Rightarrow> ((Uncaught, []), s1)
          | (Inr accepted, s1) \<Rightarrow>
              ((Exit 0, [emit_line (if accepted then paint (co_terminal co) ''cancellation requested'' ''yellow''
                 else dim_text (co_terminal co) ''run already finished; nothing to cancel'')]), s1)))"

section \<open>Approvals\<close>

definition pending_approvals :: "ident \<Rightarrow> database \<Rightarrow> approval_request list" where
  "pending_approvals ws d = filter (\<lambda>a. ar_workspace a = ws \<and> ar_status a = Pending_decision) (approvals d)"

definition cmd_approvals_list :: "console \<Rightarrow> 'v engine \<Rightarrow> 'v command" where
  "cmd_approvals_list co en = shows_rows en (\<lambda>lc d.
     show_rows co (map (\<lambda>a. [(''id'', short (ar_id a)), (''tool'', ar_tool_name a), (''run'', short (ar_run a)),
         (''arguments'', dumps_ascii (co_rep co) (JObj (ar_arguments a)))]) (pending_approvals (lc_workspace lc) d))
       [''id'', ''tool'', ''run'', ''arguments''])"

definition cmd_decide :: "console \<Rightarrow> 'v engine \<Rightarrow> string \<Rightarrow> bool \<Rightarrow> 'v command" where
  "cmd_decide co en part approved = in_local en (\<lambda>lc s.
     case find (\<lambda>a. starts_with part (ar_id a)) (pending_approvals (lc_workspace lc) (db s)) of
       None \<Rightarrow> ((Exit 1, no_match co ''pending approval'' part), s)
     | Some a \<Rightarrow>
         (case decide_approval (ar_id a) (lc_user lc) approved s of
            (Inl e, s1) \<Rightarrow> ((Uncaught, []), s1)
          | (Inr _, s1) \<Rightarrow>
              ((Exit 0, [emit_line (if approved then paint (co_terminal co) (''approved '' @ [dash] @ '' run resuming'') ''green''
                 else paint (co_terminal co) (''denied '' @ [dash] @ '' the agent will choose another approach'') ''yellow'')]), s1)))"

section \<open>Knowledge\<close>

text \<open>The file of \<open>knowledge add\<close>: \<open>None\<close> when it is not a file, else its text; \<open>path_name\<close> is \<open>Path.name\<close>.\<close>

definition path_name :: "string \<Rightarrow> string" where
  "path_name p = (case rev (filter (\<lambda>x. x \<noteq> []) (split_on (CHR ''/'') p)) of [] \<Rightarrow> [] | x # _ \<Rightarrow> x)"

definition cmd_knowledge_add :: "console \<Rightarrow> 'v engine \<Rightarrow> string option \<Rightarrow> string \<Rightarrow> string \<Rightarrow> 'v command" where
  "cmd_knowledge_add co en file path title s =
     (case file of
        None \<Rightarrow> ((Exit 1, [emit_line (paint (co_terminal co) (path @ '' is not a readable file'') ''red'')]), s)
      | Some t \<Rightarrow>
          in_local en (\<lambda>lc s.
            let k = fresh s;
                s1 = use_id (on_db (\<lambda>d. d\<lparr>documents := documents d @ [\<lparr>dc_id = k, dc_created = clock s, dc_workspace = lc_workspace lc,
                  dc_title = (if title = [] then path_name path else title), dc_source = path, dc_status = Pending_ingest,
                  dc_chunk_count = 0\<rparr>]\<rparr>) s)
            in case ingest (en_services en) k t s1 of
                 (Inl e, s2) \<Rightarrow> ((Uncaught, []), s2)
               | (Inr n, s2) \<Rightarrow>
                   ((Exit 0, [emit_line (paint (co_terminal co) (''ingested '' @ path_name path @ '' into '' @ show_nat n @ '' chunks'') ''green'')]), s2)) s)"

definition cmd_knowledge_search :: "console \<Rightarrow> 'v engine \<Rightarrow> string \<Rightarrow> nat \<Rightarrow> 'v command" where
  "cmd_knowledge_search co en query limit = in_local en (\<lambda>lc s.
     case search_knowledge (en_services en) (lc_workspace lc) query limit (5 / 100) s of
       (Inl e, s1) \<Rightarrow> ((Uncaught, []), s1)
     | (Inr [], s1) \<Rightarrow> ((Exit 0, [emit_line (dim_text (co_terminal co) ''no matches'')]), s1)
     | (Inr hits, s1) \<Rightarrow>
         ((Exit 0, concat (map (\<lambda>h. [emit_line (heading (co_terminal co) (sk_title h @ ''  '') @
             dim_text (co_terminal co) (''score '' @ co_rep co (sk_score h))), emit_line (truncate_text (sk_text h) 400), emit_line []]) hits)), s1))"

section \<open>Changes\<close>

definition cmd_changes_list :: "console \<Rightarrow> 'v engine \<Rightarrow> nat \<Rightarrow> 'v command" where
  "cmd_changes_list co en limit = shows_rows en (\<lambda>lc d.
     show_rows co (map (\<lambda>r. [(''id'', short (ch_id r)), (''status'', change_status_text (ch_status r)), (''target'', ch_target r),
         (''from'', or_dash (ch_previous r)), (''to'', ch_new r), (''detail'', ch_detail r)]) (list_changes (lc_workspace lc) None limit d))
       [''id'', ''status'', ''target'', ''from'', ''to'', ''detail''])"

definition show_outcome :: "console \<Rightarrow> bool \<Rightarrow> string \<Rightarrow> cli_end \<times> string list" where
  "show_outcome co ok summary =
     (Exit (if ok then 0 else 1), [emit_line (paint (co_terminal co) summary (if ok then ''green'' else ''red''))])"

definition cmd_changes_confirm :: "console \<Rightarrow> 'v engine \<Rightarrow> string \<Rightarrow> 'v command" where
  "cmd_changes_confirm co en part = in_local en (\<lambda>lc s.
     case resolve_change (lc_workspace lc) part (db s) of
       None \<Rightarrow> ((Exit 1, no_match co ''change'' part), s)
     | Some m \<Rightarrow>
         (case confirm_change (ch_id m) (lc_workspace lc) ''cli'' s of
            (Inl e, s1) \<Rightarrow> ((Uncaught, []), s1)
          | (Inr out, s1) \<Rightarrow> (show_outcome co (go_ok out) (go_summary out), s1)))"

definition cmd_changes_revert :: "console \<Rightarrow> 'v engine \<Rightarrow> 'v backend host \<Rightarrow> string \<Rightarrow> 'v command" where
  "cmd_changes_revert co en ho part = in_local en (\<lambda>lc s.
     case resolve_change (lc_workspace lc) part (db s) of
       None \<Rightarrow> ((Exit 1, no_match co ''change'' part), s)
     | Some m \<Rightarrow>
         (case load_change (ch_id m) (lc_workspace lc) (db s) of
            Inl e \<Rightarrow> ((Uncaught, []), s)
          | Inr r \<Rightarrow>
              (case revert_change ho (settings_policy (en_settings en)) r ''reverted from CLI;'' s of
                 (Inl e, s1) \<Rightarrow> ((Uncaught, []), s1\<lparr>db := db s\<rparr>)
               | (Inr out, s1) \<Rightarrow> (show_outcome co (ro_ok out) (ro_summary out), s1))))"

end
