(* ===== verification/Cli_Admin.thy ===== *)
theory Cli_Admin
  imports Cli Adapters Probe Calendar Host_Tools
begin

text \<open>
  The other commands of \<open>cli/commands.py\<close> and those of \<open>cli/main.py\<close> that keep state: the channels, the sessions, the
  chat, the host, the doctor and the creation of users.  What the process is given from outside (the adapters of
  the configured channels, the reading of the host, the lines a person types) is an argument.  The prompts that \<open>input\<close> writes
  are not part of the output.
\<close>

section \<open>Channels\<close>

definition configured_channels :: "settings \<Rightarrow> string list" where
  "configured_channels cf =
     channel_kinds (build_registry (\<lambda>k. \<lparr>tp_kind = k, tp_send = \<lambda>m w. (Send_raised, w)\<rparr> :: unit transport) (settings_channels cf))"

definition without_slashes :: "string \<Rightarrow> string" where
  "without_slashes t = rev (dropWhile (\<lambda>c. c = CHR ''/'') (rev t))"

definition reply_text :: "reply_status \<Rightarrow> string" where
  "reply_text st = (case st of Pending_reply \<Rightarrow> ''pending'' | Sent \<Rightarrow> ''sent'' | Abandoned \<Rightarrow> ''abandoned'')"

definition titled_rows :: "console \<Rightarrow> string \<Rightarrow> cells list \<Rightarrow> string list \<Rightarrow> string list" where
  "titled_rows co title rows columns =
     (if rows = [] then [] else [emit_line [], emit_line (heading (co_terminal co) title)] @ show_rows co rows columns)"

definition cmd_channels_list :: "console \<Rightarrow> 'v engine \<Rightarrow> nat \<Rightarrow> 'v command" where
  "cmd_channels_list co en limit = shows_rows en (\<lambda>lc d.
     let cf = en_settings en; configured = configured_channels cf;
         base = without_slashes (cf_public_url cf) @ ''/v1/channels'';
         bound = take limit (sort_key (\<lambda>b. - cb_created b) (filter (\<lambda>b. cb_workspace b = lc_workspace lc) (bindings d)));
         owed = filter (\<lambda>r. cr_workspace r = lc_workspace lc \<and> cr_status r \<noteq> Sent) (replies d)
     in if configured = [] then
          [emit_line ''No channels configured.'',
           emit_line (''Set HOURSX_TELEGRAM_TOKEN, HOURSX_WHATSAPP_TOKEN, or '' @ ''HOURSX_GMAIL_ACCESS_TOKEN to enable one.'')]
        else
          [emit_line (heading (co_terminal co) ''configured'')] @
          show_rows co (map (\<lambda>k. [(''channel'', k), (''webhook'', base @ ''/'' @ k @ ''/webhook'')]) configured) [''channel'', ''webhook''] @
          titled_rows co ''conversations''
            (map (\<lambda>b. [(''channel'', cb_channel b), (''who'', if cb_sender_display b = [] then cb_sender_id b else cb_sender_display b),
               (''session'', short (cb_session b))]) bound) [''channel'', ''who'', ''session''] @
          titled_rows co ''unsettled replies''
            (map (\<lambda>r. [(''run'', short (cr_run r)), (''status'', reply_text (cr_status r)), (''attempts'', show_int (cr_attempts r)),
               (''detail'', cr_detail r)]) owed) [''run'', ''status'', ''attempts'', ''detail''])"

definition cmd_channels_register ::
  "console \<Rightarrow> 'v engine \<Rightarrow> (json \<Rightarrow> string) \<Rightarrow> 'v backend http \<Rightarrow> string \<Rightarrow> 'v command" where
  "cmd_channels_register co en rep h url = in_local en (\<lambda>lc s.
     let cf = en_settings en; st = settings_channels cf in
     if ''telegram'' \<notin> set (configured_channels cf)
     then ((Exit 1, [emit_line ''Telegram is not configured; set HOURSX_TELEGRAM_TOKEN first.'']), s)
     else
       (let base = (if url = [] then cf_public_url cf else url) in
        case register_webhook rep h (st_telegram_token st) (as_telegram_secret st)
               (without_slashes base @ ''/v1/channels/telegram/webhook'') (outside s) of
          (Send_raised, w) \<Rightarrow> ((Uncaught, []), s\<lparr>outside := w\<rparr>)
        | (Delivered ok summary, w) \<Rightarrow> ((Exit (if ok then 0 else 1), [emit_line summary]), s\<lparr>outside := w\<rparr>)))"

definition cmd_channels_dispatch :: "console \<Rightarrow> 'v engine \<Rightarrow> 'v backend channel_registry \<Rightarrow> 'v command" where
  "cmd_channels_dispatch co en reg = in_local en (\<lambda>lc s.
     case sweep_once (dispatcher_attempts (settings_channels (en_settings en))) reg s of
       (None, s1) \<Rightarrow> ((Uncaught, []), s1)
     | (Some n, s1) \<Rightarrow> ((Exit 0, [emit_line (''sent '' @ show_nat n @ '' repl'' @ (if n = 1 then ''y'' else ''ies''))]), s1))"

section \<open>Sessions and the chat\<close>

text \<open>\<open>strftime("%Y-%m-%d %H:%M")\<close>.\<close>

definition minute_text :: "instant \<Rightarrow> string" where
  "minute_text t =
     (let c = civil_of t
      in pad 4 (cv_year c) @ ''-'' @ pad 2 (cv_month c) @ ''-'' @ pad 2 (cv_day c) @ '' '' @ pad 2 (cv_hour c) @ '':'' @ pad 2 (cv_minute c))"

definition cmd_session_list :: "console \<Rightarrow> 'v engine \<Rightarrow> nat \<Rightarrow> 'v command" where
  "cmd_session_list co en limit = shows_rows en (\<lambda>lc d.
     show_rows co (map (\<lambda>x. [(''id'', short (ss_id x)), (''title'', ss_title x), (''created'', minute_text (ss_created x))])
         (take limit (sort_key (\<lambda>x. - ss_created x) (filter (\<lambda>x. ss_workspace x = lc_workspace lc) (sessions d)))))
       [''id'', ''title'', ''created''])"

definition chevron :: char where
  "chevron = CHR 0x9B"

definition print_chat_event :: "console \<Rightarrow> event \<Rightarrow> string list" where
  "print_chat_event co e =
     (if ev_type e = RUN_DELTA then [payload_text co ''text'' [] e]
      else if ev_type e = RUN_STEP then
        [dim_text (co_terminal co) (newline @ ''  '' @ [if payload_ok e then tick else cross] @ '' '' @ payload_text co ''tool'' ''None'' e @ newline)]
      else [])"

text \<open>The answer to \<open>approve? [y/N]\<close>; a failed decision raises.\<close>

definition answer_approval ::
  "console \<Rightarrow> 'v engine \<Rightarrow> local_context \<Rightarrow> event \<Rightarrow> string \<Rightarrow> 'v state \<Rightarrow> string list option \<times> 'v state" where
  "answer_approval co en lc e answer s =
     (case decide_approval (payload_text co ''approval_id'' ''None'' e) (lc_user lc) (lower (strip answer) \<in> {''y'', ''yes''}) s of
        (Inl err, s1) \<Rightarrow> (None, s1)
      | (Inr _, s1) \<Rightarrow>
          (let s2 = close_local en s1 in
           (Some (case Option.bind (ev_run e) (\<lambda>k. get_run k (db s2)) of
                    None \<Rightarrow> []
                  | Some r \<Rightarrow> if truthy (rn_answer r)
                             then [emit_line (paint (co_terminal co) (''agent '' @ [chevron] @ '' '') ''green'' @ the (rn_answer r))] else []), s2)))"

text \<open>The loop over the typed lines; the end of the list is the end of the input.\<close>

function chat_loop :: "console \<Rightarrow> 'v engine \<Rightarrow> local_context \<Rightarrow> ident \<Rightarrow> string list \<Rightarrow> 'v command" where
  "chat_loop co en lc sess inputs s =
     (case inputs of
        [] \<Rightarrow> ((Exit 0, [emit_line []]), s)
      | line # rest \<Rightarrow>
          (let goal = strip line in
           if goal = [] then chat_loop co en lc sess rest s
           else if goal \<in> {''exit'', ''quit''} then ((Exit 0, []), s)
           else case stream_local_run en lc sess goal s of
             (Inl e, s1) \<Rightarrow> ((Uncaught, [paint (co_terminal co) (''agent '' @ [chevron] @ '' '') ''green'']), s1)
           | (Inr (k, seen, terminal), s1) \<Rightarrow>
               (let shown = paint (co_terminal co) (''agent '' @ [chevron] @ '' '') ''green'' # concat (map (print_chat_event co) seen) @ [emit_line []] in
                case terminal of
                  Some e \<Rightarrow>
                    if ev_type e = RUN_AWAITING_APPROVAL then
                      (let asked = shown @ [emit_line (paint (co_terminal co) ''  paused for approval: '' ''yellow'' @ payload_text co ''tool'' ''None'' e)] in
                       case rest of
                         [] \<Rightarrow> ((Uncaught, asked), s1)
                       | answer # rest1 \<Rightarrow>
                           (case answer_approval co en lc e answer s1 of
                              (None, s2) \<Rightarrow> ((Uncaught, asked), s2)
                            | (Some out, s2) \<Rightarrow>
                                (case chat_loop co en lc sess rest1 s2 of
                                   ((fin, others), s3) \<Rightarrow> ((fin, asked @ out @ [emit_line []] @ others), s3))))
                    else (case chat_loop co en lc sess rest s1 of ((fin, others), s2) \<Rightarrow> ((fin, shown @ [emit_line []] @ others), s2))
                | None \<Rightarrow> (case chat_loop co en lc sess rest s1 of ((fin, others), s2) \<Rightarrow> ((fin, shown @ [emit_line []] @ others), s2)))))"
  by pat_completeness auto
termination
  by (relation "measure (\<lambda>(co, en, lc, sess, inputs, s). length inputs)") auto

definition cmd_chat :: "console \<Rightarrow> 'v engine \<Rightarrow> string \<Rightarrow> string list \<Rightarrow> 'v command" where
  "cmd_chat co en handle inputs = in_local en (\<lambda>lc s.
     case default_agent lc handle s of (agent, s1) \<Rightarrow>
     (case ensure_session lc agent ''CLI chat'' s1 of (sess, s2) \<Rightarrow>
     (case chat_loop co en lc sess inputs s2 of
        ((fin, out), s3) \<Rightarrow>
          ((fin, emit_line (heading (co_terminal co) (''HoursX chat '' @ [dash] @ '' agent '' @ quoted handle)) #
             emit_line (dim_text (co_terminal co) (''Type your goal. Ctrl-D or '' @ quoted ''exit'' @ '' to leave.'' @ newline)) # out), s3))))"

section \<open>The host\<close>

definition shown_json :: "console \<Rightarrow> json \<Rightarrow> shown_value" where
  "shown_json co v = (case v of JList xs \<Rightarrow> Items (map (py_str (co_rep co)) xs) | _ \<Rightarrow> Plain (py_str (co_rep co) v))"

text \<open>\<open>f"{x:.2f}"\<close> of a number that is not negative.\<close>

definition fixed2 :: "real \<Rightarrow> string" where
  "fixed2 x = (let n = round_half_even (100 * x); cents = show_int (n mod 100)
               in show_int (n div 100) @ ''.'' @ (if n mod 100 < 10 then ''0'' @ cents else cents))"

definition memory_line :: "console \<Rightarrow> resource_snapshot \<Rightarrow> string list" where
  "memory_line co r =
     (case rs_memory_total r of
        None \<Rightarrow> []
      | Some all_kb \<Rightarrow>
          if all_kb = 0 then []
          else
            (let used = 1 - real_of_int (case rs_memory_available r of None \<Rightarrow> 0 | Some a \<Rightarrow> a) / real_of_int all_kb
             in [emit_line (''  memory  '' @ bar (co_terminal co) used 24 @ '' '' @
                   (case memory_used_percent r of None \<Rightarrow> ''None'' | Some p \<Rightarrow> co_rep co p) @ ''%  '' @ ''of '' @ bytes_human (Some (all_kb * 1024)))]))"

definition disk_line :: "console \<Rightarrow> disk \<Rightarrow> string" where
  "disk_line co d =
     emit_line (''  '' @ ljust 30 (take 30 (dk_mountpoint d)) @ '' '' @ bar (co_terminal co) (dk_used_percent d / 100) 16 @ '' '' @
       co_rep co (dk_used_percent d) @ ''%  '' @ bytes_human (Some (dk_free d)) @ '' free'')"

definition cmd_system_probe :: "console \<Rightarrow> 'h host_io \<Rightarrow> bool \<Rightarrow> 'h \<Rightarrow> cli_end \<times> string list" where
  "cmd_system_probe co io verbose h =
     (let tm = co_terminal co; r = resource_snapshot_of io h
      in (Exit 0,
          [emit_line (heading tm ''Kernel''),
           emit_line (key_values tm (map (\<lambda>(k, v). (k, shown_json co v)) (kernel_dict (kernel_facts_of io h))) 2), emit_line [],
           emit_line (heading tm ''Resources'')] @
          memory_line co r @
          (case rs_load r of None \<Rightarrow> []
           | Some (a, b, c) \<Rightarrow> [emit_line (''  load    '' @ fixed2 a @ '', '' @ fixed2 b @ '', '' @ fixed2 c)]) @
          [emit_line (''  procs   '' @ show_int (rs_process_count r))] @
          (case rs_open_files r of None \<Rightarrow> []
           | Some n \<Rightarrow> [emit_line (''  fds     '' @ show_int n @ '' / '' @ (case rs_file_limit r of None \<Rightarrow> ''None'' | Some m \<Rightarrow> show_int m))]) @
          [emit_line []] @
          (if rs_disks r = [] then []
           else [emit_line (heading tm ''Filesystems'')] @ map (disk_line co) (take 10 (rs_disks r)) @ [emit_line []]) @
          (if \<not> verbose then []
           else (let modules = loaded_modules io 200 h
                 in [emit_line (heading tm (''Kernel modules ('' @ show_nat (length modules) @ '')''))] @
                    show_rows co (map (\<lambda>m. [(''name'', km_name m), (''size'', bytes_human (Some (km_size m))), (''used'', show_int (km_uses m))])
                      (take 20 modules)) [''name'', ''size'', ''used'']))))"

definition cmd_system_processes :: "console \<Rightarrow> 'h host_io \<Rightarrow> int \<Rightarrow> string \<Rightarrow> 'h \<Rightarrow> cli_end \<times> string list" where
  "cmd_system_processes co io limit sort_by h =
     (case list_processes io limit sort_by h of
        None \<Rightarrow> (Uncaught, [])
      | Some [] \<Rightarrow> (Exit 1, [emit_line (paint (co_terminal co) ''/proc is not readable on this host'' ''red'')])
      | Some ps \<Rightarrow>
          (Exit 0, show_rows co (map (\<lambda>p. [(''pid'', show_int (ps_pid p)), (''state'', ps_state p),
             (''rss'', bytes_human (Some (ps_rss_kb p * 1024))), (''name'', ps_name p), (''cmdline'', ps_cmdline p)]) ps)
             [''pid'', ''state'', ''rss'', ''name'', ''cmdline'']))"

definition cmd_system_kernel_log :: "console \<Rightarrow> 'h host_io \<Rightarrow> nat \<Rightarrow> 'h \<Rightarrow> cli_end \<times> string list" where
  "cmd_system_kernel_log co io lines h =
     (case read_kernel_log io lines h of (ok, t) \<Rightarrow>
        if ok then (Exit 0, [emit_line t]) else (Exit 1, [emit_line (paint (co_terminal co) t ''yellow'')]))"

section \<open>The doctor\<close>

definition environment_text :: "environment \<Rightarrow> string" where
  "environment_text e = (case e of Dev \<Rightarrow> ''dev'' | Test \<Rightarrow> ''test'' | Production \<Rightarrow> ''production'')"

text \<open>\<open>url.split("://")[0]\<close>.\<close>

fun url_scheme :: "string \<Rightarrow> string" where
  "url_scheme [] = []"
| "url_scheme (c # cs) = (if starts_with ''://'' (c # cs) then [] else c # url_scheme cs)"

definition configuration_lines :: "console \<Rightarrow> settings \<Rightarrow> string list" where
  "configuration_lines co cf =
     [emit_line (heading (co_terminal co) ''Configuration''),
      emit_line (key_values (co_terminal co) (map (\<lambda>(k, v). (k, Plain v))
        [(''environment'', environment_text (cf_environment cf)), (''database'', url_scheme (cf_database_url cf)),
         (''task backend'', case cf_task_backend cf of Inline \<Rightarrow> ''inline'' | Arq \<Rightarrow> ''arq''),
         (''redis'', if truthy (cf_redis_url cf) then ''configured'' else ''not configured''),
         (''system ops'', if cf_system_ops cf then ''enabled'' else ''disabled''),
         (''system mutations'', if cf_system_mutations cf then ''enabled'' else ''disabled'')]) 2), emit_line []]"

definition configuration_problems :: "settings \<Rightarrow> string list" where
  "configuration_problems cf =
     (if cf_jwt_secret cf = ''dev-only-insecure-secret''
      then [''HOURSX_JWT_SECRET is the insecure default '' @ [dash] @ '' set a long random value''] else []) @
     (if cf_task_backend cf = Arq \<and> \<not> truthy (cf_redis_url cf)
      then [''task_backend is '' @ quoted ''arq'' @ '' but HOURSX_REDIS_URL is unset; runs will not execute''] else [])"

definition configuration_warnings :: "settings \<Rightarrow> string list" where
  "configuration_warnings cf =
     (if cf_environment cf = Production \<and> cf_open_registration cf then [''open registration is enabled in production''] else []) @
     (if cf_system_mutations cf \<and> \<not> cf_system_ops cf
      then [''system mutations are enabled but system ops are off; the flag has no effect''] else [])"

fun resolve_text :: "resolve_error \<Rightarrow> string" where
  "resolve_text (Bad_ref r) = ''model ref '' @ py_repr r @ '' is not of the form provider/model''"
| "resolve_text (No_provider p) = ''no provider registered for '' @ py_repr p"

text \<open>The lines and the problems of one alias.\<close>

definition check_alias :: "console \<Rightarrow> 's model_router \<Rightarrow> string \<Rightarrow> string \<times> string list" where
  "check_alias co rt model_alias =
     (case resolve rt model_alias of
        Inr (pv, model) \<Rightarrow>
          (emit_line (''  '' @ ljust 6 model_alias @ '' '' @ paint (co_terminal co) ''ok'' ''green'' @ ''  '' @ pv_name pv @ ''/'' @ model), [])
      | Inl e \<Rightarrow>
          (emit_line (''  '' @ ljust 6 model_alias @ '' '' @ paint (co_terminal co) ''unresolved'' ''red'' @ ''  '' @ resolve_text e),
           [''model alias '' @ quoted model_alias @ '' does not resolve'']))"

definition channel_problems :: "settings \<Rightarrow> string list" where
  "channel_problems cf =
     (if configured_channels cf = [] then []
      else (if cf_channel_slug cf = []
            then [''channels are configured but HOURSX_CHANNEL_WORKSPACE_SLUG is unset; inbound messages have no workspace to route to'']
            else []) @
           (if cf_channel_handle cf = []
            then [''channels are configured but HOURSX_CHANNEL_AGENT_HANDLE is unset; no agent will answer inbound messages''] else []))"

definition channel_warnings :: "settings \<Rightarrow> string list" where
  "channel_warnings cf =
     (if configured_channels cf = [] then []
      else (if ''telegram'' \<in> set (configured_channels cf) \<and> cf_telegram_secret cf = []
            then [''HOURSX_TELEGRAM_WEBHOOK_SECRET is unset; anyone who guesses the webhook URL can speak to the agent as if they were Telegram'']
            else []) @
           (if starts_with ''http://'' (cf_public_url cf) \<and> cf_environment cf = Production
            then [''HOURSX_PUBLIC_URL is not HTTPS; providers will refuse to deliver webhooks''] else []))"

text \<open>\<open>database_error\<close> is what the query of the storage check raises, if it does.\<close>

definition cmd_doctor :: "console \<Rightarrow> 'v engine \<Rightarrow> string option \<Rightarrow> 'v command" where
  "cmd_doctor co en database_error s =
     (let cf = en_settings en; tm = co_terminal co in
      case open_local s of (lc, s1) \<Rightarrow>
        (let aliases = map (check_alias co (bk_router (outside s1))) [''fast'', ''deep'', ''embed''];
             problems = configuration_problems cf @ concat (map snd aliases) @
               (if database_error = None then [] else [''database is unreachable'']) @ channel_problems cf;
             warnings = configuration_warnings cf @ channel_warnings cf;
             storage = (case database_error of
                 None \<Rightarrow> emit_line (''  database '' @ paint tm ''reachable'' ''green'')
               | Some e \<Rightarrow> emit_line (''  database '' @ paint tm ''unreachable'' ''red'' @ ''  '' @ e));
             kinds = configured_channels cf
         in ((Exit (if problems = [] then 0 else 1),
              configuration_lines co cf @ [emit_line (heading tm ''Model providers'')] @ map fst aliases @ [emit_line []] @
              [emit_line (heading tm ''Storage''), storage, emit_line []] @
              (if kinds = [] then []
               else [emit_line (heading tm ''Channels'')] @ map (\<lambda>k. emit_line (''  '' @ ljust 9 k @ '' '' @ paint tm ''configured'' ''green'')) kinds @
                 [emit_line []]) @
              map (\<lambda>w. emit_line (paint tm ''warn  '' ''yellow'' @ w)) warnings @
              map (\<lambda>p. emit_line (paint tm ''fail  '' ''red'' @ p)) problems @
              (if problems = [] \<and> warnings = [] then [emit_line (paint tm ''All checks passed.'' ''green'')] else [])),
             close_local en s1)))"

section \<open>Users\<close>

text \<open>\<open>create-user\<close>: the salt is fresh randomness; the message of a refusal goes to the error stream.\<close>

definition cmd_create_user :: "access_env \<Rightarrow> string \<Rightarrow> string \<Rightarrow> string \<Rightarrow> string \<Rightarrow> 'w sys \<Rightarrow> (cli_end \<times> string list) \<times> 'w sys" where
  "cmd_create_user env salt email password display s =
     (case find_row us_email (lower email) (users (db s)) of
        Some u \<Rightarrow> ((Exit 1, [emit_line (''user '' @ email @ '' already exists'')]), s)
      | None \<Rightarrow>
          (case found_workspace env salt email password display s of
             (r, s1) \<Rightarrow> ((Exit 0, [emit_line (''created user '' @ email)]), s1)))"

end
