(* ===== verification/Cli_Props.thy ===== *)
theory Cli_Props
  imports Cli_Admin
begin

text \<open>
  What the commands keep: a command that only shows rows changes nothing, a command that acts stays in the workspace of the
  local operator, and a prefix names the newest row it fits.
\<close>

section \<open>Opening and closing\<close>

lemma close_idle: "bk_jobs (outside s) = [] \<Longrightarrow> close_local en s = s"
  by (cases "cf_task_backend (en_settings en)") (simp_all add: close_local_def inline_runs_def on_backend_def)

lemma in_local_again:
  assumes "open_local s = (lc, s)" and "body lc s = (r, s1)" and "bk_jobs (outside s1) = []"
  shows "in_local en body s = (r, s1)"
  using assms close_idle [of s1 en] by (simp add: in_local_def)

lemma shows_rows_again: "open_local s = (lc, s) \<Longrightarrow> bk_jobs (outside s) = [] \<Longrightarrow> snd (shows_rows en f s) = s"
  by (simp add: shows_rows_def in_local_def close_idle)

section \<open>Rows of other workspaces\<close>

lemma filter_update_where:
  "\<forall>r \<in> set rows. q r \<longrightarrow> \<not> p r \<and> \<not> p (f r) \<Longrightarrow> filter p (update_where q f rows) = filter p rows"
  by (induction rows) (auto simp: update_where_def)

lemma keyed_same: "keyed key rows \<Longrightarrow> r \<in> set rows \<Longrightarrow> r' \<in> set rows \<Longrightarrow> key r = key r' \<Longrightarrow> r = r'"
  using find_row_unique by (metis option.inject)

lemma find_in: "find p xs = Some x \<Longrightarrow> x \<in> set xs \<and> p x"
  by (induction xs) (auto split: if_splits)

lemma resolved_run:
  assumes "resolve_run lc part d = Some r"
  shows "r \<in> set (runs d) \<and> rn_workspace r = lc_workspace lc \<and> starts_with part (rn_id r)"
proof -
  have "r \<in> set (newest_runs (lc_workspace lc) 500 d)" "starts_with part (rn_id r)"
    using find_in [OF assms [unfolded resolve_run_def]] by simp_all
  then show ?thesis by (auto simp: newest_runs_def dest: in_set_takeD)
qed

lemma resolved_change: "resolve_change ws part d = Some r \<Longrightarrow> r \<in> set (changes d) \<and> ch_workspace r = ws"
  using find_in [of "\<lambda>r. starts_with part (ch_id r)" "list_changes ws None 200 d" r]
  by (auto simp: resolve_change_def list_changes_def dest: in_set_takeD)

lemma cancel_rows:
  assumes "keyed rn_id (runs (db s))" and "r \<in> set (runs (db s))" and "rn_workspace r = ws" and "request_cancel (rn_id r) ws s = (x, s1)"
  shows "filter (\<lambda>r. rn_workspace r \<noteq> ws) (runs (db s1)) = filter (\<lambda>r. rn_workspace r \<noteq> ws) (runs (db s)) \<and>
    changes (db s1) = changes (db s) \<and> outside s1 = outside s"
proof -
  have "\<forall>r' \<in> set (runs (db s)). rn_id r' = rn_id r \<longrightarrow> rn_workspace r' = ws"
    using keyed_same [OF assms(1) assms(2)] assms(3) by metis
  then have same: "filter (\<lambda>r. rn_workspace r \<noteq> ws) (update_where (\<lambda>x. rn_id x = rn_id r) f (runs (db s))) =
      filter (\<lambda>r. rn_workspace r \<noteq> ws) (runs (db s))" if "\<And>r. rn_workspace (f r) = rn_workspace r" for f
    using that by (intro filter_update_where) auto
  show ?thesis using assms(4) same
    by (auto simp: request_cancel_def update_run_def on_runs_def split: option.splits if_splits)
qed

section \<open>Properties\<close>

text \<open>Looking changes nothing: once the local identity exists, the commands that list agents, runs, approvals, changes,
  sessions and channels leave the whole state as it was.\<close>

theorem listing_changes_nothing:
  assumes "open_local s = (lc, s)" and "bk_jobs (outside s) = []"
  shows "snd (cmd_agent_list co en s) = s \<and> snd (cmd_run_list co en n s) = s \<and> snd (cmd_approvals_list co en s) = s \<and>
    snd (cmd_changes_list co en n s) = s \<and> snd (cmd_session_list co en n s) = s \<and> snd (cmd_channels_list co en n s) = s"
  unfolding cmd_agent_list_def cmd_run_list_def cmd_approvals_list_def cmd_changes_list_def cmd_session_list_def cmd_channels_list_def
  by (intro conjI shows_rows_again [OF assms])

text \<open>A prefix is not refused when it fits several runs: \<open>run show\<close> and \<open>run cancel\<close> act on the newest of the fitting
  runs of the workspace (of its 500 newest), whatever others there are.\<close>

theorem prefix_names_newest:
  assumes "resolve_run lc part d = Some r" and "r' \<in> set (newest_runs (lc_workspace lc) 500 d)" and "starts_with part (rn_id r')"
  shows "rn_created r' \<le> rn_created r \<and> rn_workspace r = lc_workspace lc \<and> starts_with part (rn_id r)"
proof -
  let ?rows = "newest_runs (lc_workspace lc) 500 d"
  have "sorted (map (\<lambda>r. - rn_created r) (sort_key (\<lambda>r. - rn_created r) (filter (\<lambda>r. rn_workspace r = lc_workspace lc) (runs d))))"
    by (rule sorted_sort_key)
  then have "sorted_wrt (\<lambda>a b. rn_created b \<le> rn_created a) (sort_key (\<lambda>r. - rn_created r) (filter (\<lambda>r. rn_workspace r = lc_workspace lc) (runs d)))"
    by (simp add: sorted_map)
  then have order: "sorted_wrt (\<lambda>a b. rn_created b \<le> rn_created a) ?rows" unfolding newest_runs_def by (rule sorted_wrt_take)
  have "sorted_wrt (\<lambda>a b. rn_created b \<le> rn_created a) xs \<Longrightarrow> find p xs = Some r \<Longrightarrow> r' \<in> set xs \<Longrightarrow> p r' \<Longrightarrow>
      rn_created r' \<le> rn_created r" for p xs
    by (induction xs) (auto split: if_splits)
  from this [OF order assms(1) [unfolded resolve_run_def] assms(2,3)] show ?thesis using resolved_run [OF assms(1)] by simp
qed

text \<open>The command line stays in its own workspace: cancelling a run or confirming a change, whatever prefix is typed, leaves
  the runs and the changes of every other workspace of the database as they were.\<close>

theorem cli_confined:
  assumes "open_local s = (lc, s)" and "bk_jobs (outside s) = []"
    and "keyed rn_id (runs (db s))" and "keyed ch_id (changes (db s))"
    and "s' = snd (cmd_run_cancel co en part s) \<or> s' = snd (cmd_changes_confirm co en part s)"
  shows "filter (\<lambda>r. rn_workspace r \<noteq> lc_workspace lc) (runs (db s')) = filter (\<lambda>r. rn_workspace r \<noteq> lc_workspace lc) (runs (db s)) \<and>
    filter (\<lambda>r. ch_workspace r \<noteq> lc_workspace lc) (changes (db s')) = filter (\<lambda>r. ch_workspace r \<noteq> lc_workspace lc) (changes (db s))"
  using assms(5)
proof
  assume s': "s' = snd (cmd_run_cancel co en part s)"
  show ?thesis
  proof (cases "resolve_run lc part (db s)")
    case None
    then have "s' = s" using assms(1,2) by (simp add: s' cmd_run_cancel_def in_local_def close_idle)
    then show ?thesis by simp
  next
    case (Some r)
    obtain x s1 where cancel: "request_cancel (rn_id r) (lc_workspace lc) s = (x, s1)" by fastforce
    note rows = cancel_rows [OF assms(3) _ _ cancel] resolved_run [OF Some]
    then have "bk_jobs (outside s1) = []" using assms(2) by simp
    then have "s' = s1" using assms(1) Some cancel by (cases x) (simp_all add: s' cmd_run_cancel_def in_local_def close_idle)
    then show ?thesis using rows by simp
  qed
next
  assume s': "s' = snd (cmd_changes_confirm co en part s)"
  show ?thesis
  proof (cases "resolve_change (lc_workspace lc) part (db s)")
    case None
    then have "s' = s" using assms(1,2) by (simp add: s' cmd_changes_confirm_def in_local_def close_idle)
    then show ?thesis by simp
  next
    case (Some m)
    obtain x s1 where confirm: "confirm_change (ch_id m) (lc_workspace lc) ''cli'' s = (x, s1)" by fastforce
    have m: "m \<in> set (changes (db s))" "ch_workspace m = lc_workspace lc" using resolved_change [OF Some] by simp_all
    have own: "\<forall>r \<in> set (changes (db s)). ch_id r = ch_id m \<longrightarrow> ch_workspace r = lc_workspace lc"
      using keyed_same [OF assms(4) m(1)] m(2) by metis
    have rows: "filter (\<lambda>r. ch_workspace r \<noteq> lc_workspace lc) (changes (db s1)) = filter (\<lambda>r. ch_workspace r \<noteq> lc_workspace lc) (changes (db s)) \<and>
        runs (db s1) = runs (db s) \<and> outside s1 = outside s"
      using confirm own filter_update_where [of "changes (db s)" "\<lambda>r. ch_id r = ch_id m" "\<lambda>r. ch_workspace r \<noteq> lc_workspace lc" "confirmed_row ''cli'' (clock s)"]
      by (auto simp: confirm_change_def update_change_def on_changes_def confirmed_row_def mark_settled_def split: sum.splits if_splits)
    then have "bk_jobs (outside s1) = []" using assms(2) by simp
    then have "s' = s1" using assms(1) Some confirm by (cases x) (simp_all add: s' cmd_changes_confirm_def in_local_def close_idle split: prod.splits)
    then show ?thesis using rows by simp
  qed
qed

section \<open>A first use\<close>

definition used_before :: "nat state" where
  "used_before = first_use\<lparr>db := empty_database\<lparr>runs := [demo_run Queued]\<rparr>\<rparr>"

lemma opened_before:
  "\<exists>lc (s :: nat state). open_local s = (lc, s) \<and> bk_jobs (outside s) = [] \<and> keyed rn_id (runs (db s)) \<and> keyed ch_id (changes (db s))"
proof -
  obtain lc s where opened: "open_local used_before = (lc, s)" by fastforce
  have "bk_jobs (outside s) = []" "runs (db s) = [demo_run Queued]" "changes (db s) = []"
    using open_local_effects [OF opened] by (simp_all add: used_before_def first_use_def empty_database_def idle_state_def demo_state_def)
  then show ?thesis using open_local_again [OF opened] by (intro exI [of _ lc] exI [of _ s]) simp
qed

theorem listing_changes_nothing_witness:
  "\<exists>lc (s :: nat state). open_local s = (lc, s) \<and> snd (cmd_run_list \<lparr>co_terminal = plain_terminal, co_rep = (\<lambda>x. [])\<rparr>
     \<lparr>en_services = demo_services, en_settings = default_settings, en_elsewhere = (\<lambda>s. s)\<rparr> 20 s) = s"
proof -
  obtain lc and s :: "nat state" where s: "open_local s = (lc, s)" "bk_jobs (outside s) = []" using opened_before by blast
  from listing_changes_nothing [OF this] s(1) show ?thesis by blast
qed

definition two_runs :: database where
  "two_runs = empty_database\<lparr>runs := [(demo_run Queued)\<lparr>rn_id := ''ab1'', rn_created := 1, rn_workspace := ''w1''\<rparr>,
     (demo_run Queued)\<lparr>rn_id := ''ab2'', rn_created := 2, rn_workspace := ''w1''\<rparr>]\<rparr>"

theorem prefix_names_newest_witness:
  "\<exists>r. resolve_run \<lparr>lc_user = ''u1'', lc_workspace = ''w1''\<rparr> ''ab'' two_runs = Some r \<and> rn_id r = ''ab2'' \<and> 1 \<le> rn_created r"
proof -
  let ?lc = "\<lparr>lc_user = ''u1'', lc_workspace = ''w1''\<rparr>"
  let ?new = "(demo_run Queued)\<lparr>rn_id := ''ab2'', rn_created := 2, rn_workspace := ''w1''\<rparr>"
  let ?old = "(demo_run Queued)\<lparr>rn_id := ''ab1'', rn_created := 1, rn_workspace := ''w1''\<rparr>"
  have rows: "newest_runs (lc_workspace ?lc) 500 two_runs = [?new, ?old]" by (simp add: newest_runs_def two_runs_def)
  have found: "resolve_run ?lc ''ab'' two_runs = Some ?new" unfolding resolve_run_def rows by (simp add: starts_with_def)
  have "rn_created ?old \<le> rn_created ?new" using prefix_names_newest [OF found, of ?old] rows by (simp add: starts_with_def)
  then show ?thesis using found by simp
qed

theorem cli_confined_witness:
  "\<exists>lc (s :: nat state). open_local s = (lc, s) \<and>
     filter (\<lambda>r. rn_workspace r \<noteq> lc_workspace lc) (runs (db (snd (cmd_run_cancel \<lparr>co_terminal = plain_terminal, co_rep = (\<lambda>x. [])\<rparr>
       \<lparr>en_services = demo_services, en_settings = default_settings, en_elsewhere = (\<lambda>s. s)\<rparr> [] s)))) =
     filter (\<lambda>r. rn_workspace r \<noteq> lc_workspace lc) (runs (db s))"
proof -
  obtain lc and s :: "nat state" where s: "open_local s = (lc, s)" "bk_jobs (outside s) = []" "keyed rn_id (runs (db s))" "keyed ch_id (changes (db s))"
    using opened_before by blast
  from cli_confined [OF this disjI1, OF refl] s(1) show ?thesis by blast
qed

end
