(* ===== verification/Bridge.thy ===== *)
theory Bridge
  imports Cli_Admin Bus
begin

text \<open>
  \<open>gui/bridge.py\<close>: the engine behind the desktop window.  It lives in a thread with a loop of its own; the two
  sides share a queue of messages for the window and the list of coroutines that were handed to the loop.  A step of
  the engine is one coroutine run to its end: tasks of the same loop may interleave at every \<open>await\<close>, which is
  left out.  Characters outside Latin-1 are stood for by control characters, as in the rendering.
\<close>

section \<open>State\<close>

datatype ui_message = Ui_ready ident | Ui_error string string | Ui_result "ident option" string | Ui_event event

datatype ui_work = Send_goal "ident option" string | Decide_request ident bool

datatype loop_state = No_loop | Loop_running | Loop_closed

text \<open>
  \<open>br_pump\<close> is the queue of the subscription of \<open>_pump_events\<close>, \<open>None\<close> when there is no such task; \<open>br_work\<close>
  are the coroutines of \<open>submit\<close> with their tokens, oldest first.
\<close>

record 'v bridge =
  br_queue :: "ui_message list"
  br_loop :: loop_state
  br_context :: "local_context option"
  br_pump :: "event list option"
  br_stopping :: bool
  br_work :: "(ui_work \<times> string) list"
  br_state :: "'v state"

definition new_bridge :: "'v state \<Rightarrow> 'v bridge" where
  "new_bridge s = \<lparr>br_queue = [], br_loop = No_loop, br_context = None, br_pump = None, br_stopping = False, br_work = [],
     br_state = s\<rparr>"

definition post :: "ui_message \<Rightarrow> 'v bridge \<Rightarrow> 'v bridge" where
  "post m b = b\<lparr>br_queue := br_queue b @ [m]\<rparr>"

definition drain_limit :: nat where
  "drain_limit = 200"

definition drain :: "nat \<Rightarrow> 'v bridge \<Rightarrow> ui_message list \<times> 'v bridge" where
  "drain limit b = (take limit (br_queue b), b\<lparr>br_queue := drop limit (br_queue b)\<rparr>)"

text \<open>\<open>run_coroutine_threadsafe\<close> on a closed loop raises in the callback of the window, which Tk only prints.\<close>

definition submit_work :: "ui_work \<Rightarrow> string \<Rightarrow> 'v bridge \<Rightarrow> 'v bridge" where
  "submit_work x token b =
     (if br_loop b = No_loop \<or> br_context b = None then post (Ui_error ''engine is not ready yet'' token) b
      else if br_loop b = Loop_closed then b
      else b\<lparr>br_work := br_work b @ [(x, token)]\<rparr>)"

section \<open>The engine thread\<close>

text \<open>What the engine publishes reaches the queue of the pump as it reaches every subscriber.\<close>

definition heard :: "ident \<Rightarrow> 'v state \<Rightarrow> 'v state \<Rightarrow> event list" where
  "heard ws s s1 = filter (\<lambda>e. ev_workspace e = ws) (drop (length (published s)) (published s1))"

definition engine_does :: "'v state \<Rightarrow> 'v bridge \<Rightarrow> 'v bridge" where
  "engine_does s1 b =
     (case br_context b of
        None \<Rightarrow> b\<lparr>br_state := s1\<rparr>
      | Some lc \<Rightarrow> b\<lparr>br_state := s1, br_pump := map_option (fold offer (heard (lc_workspace lc) (br_state b) s1)) (br_pump b)\<rparr>)"

text \<open>\<open>_run_loop\<close> and \<open>_bootstrap\<close>; the argument is the message of the exception of a failed start.\<close>

definition bootstrap :: "string option \<Rightarrow> 'v bridge \<Rightarrow> 'v bridge" where
  "bootstrap trouble b =
     (if br_loop b \<noteq> No_loop then b
      else case trouble of
        Some e \<Rightarrow> post (Ui_error (''engine failed to start: '' @ e) []) (b\<lparr>br_loop := Loop_running\<rparr>)
      | None \<Rightarrow>
          (case open_local (br_state b) of
             (lc, s1) \<Rightarrow> post (Ui_ready (lc_workspace lc))
                (b\<lparr>br_loop := Loop_running, br_state := s1, br_context := Some lc, br_pump := Some []\<rparr>)))"

definition pump_event :: "'v bridge \<Rightarrow> 'v bridge" where
  "pump_event b =
     (if br_loop b \<noteq> Loop_running then b
      else case br_pump b of
        Some (e # es) \<Rightarrow> if br_stopping b then b\<lparr>br_pump := None\<rparr> else post (Ui_event e) (b\<lparr>br_pump := Some es\<rparr>)
      | _ \<Rightarrow> b)"

text \<open>
  The two coroutines of the window, with \<open>str\<close> of what they raise and the session that the first makes.  A goal is
  submitted without a plan, so the planner has no part in it; what its exceptions would say is an argument.
\<close>

definition submit_text :: "(plan_error \<Rightarrow> string) \<Rightarrow> submit_error \<Rightarrow> string" where
  "submit_text plan_text e = (case e of Domain x \<Rightarrow> er_message x | Planning x \<Rightarrow> plan_text x)"

definition window_session :: "local_context \<Rightarrow> ident option \<Rightarrow> 'w sys \<Rightarrow> ident \<times> 'w sys" where
  "window_session lc session s =
     (case session of
        Some k \<Rightarrow> (k, s)
      | None \<Rightarrow> (case default_agent lc ''operator'' s of (agent, s1) \<Rightarrow> ensure_session lc agent ''Desktop session'' s1))"

fun perform_work ::
  "'v engine \<Rightarrow> (plan_error \<Rightarrow> string) \<Rightarrow> local_context \<Rightarrow> ui_work \<Rightarrow> 'v state \<Rightarrow> (string + ident option) \<times> ident option \<times> 'v state" where
  "perform_work en plan_text lc (Send_goal session goal) s =
     (case window_session lc session s of
        (k, s1) \<Rightarrow>
          (case submit_message (en_services en) (settings_quota (en_settings en)) k goal False None s1 of
             (Inl e, s2) \<Rightarrow> (Inl (submit_text plan_text e), if session = None then Some k else None, s2)
           | (Inr r, s2) \<Rightarrow> (Inr (Some r), if session = None then Some k else None, s2)))"
| "perform_work en plan_text lc (Decide_request k approved) s =
     (case decide_approval k (lc_user lc) approved s of
        (Inl e, s1) \<Rightarrow> (Inl (er_message e), None, s1)
      | (Inr _, s1) \<Rightarrow> (Inr None, None, s1))"

text \<open>The coroutine at the head runs; \<open>Some k\<close> when it set the session of the window.\<close>

definition engine_turn :: "'v engine \<Rightarrow> (plan_error \<Rightarrow> string) \<Rightarrow> 'v bridge \<Rightarrow> ident option \<times> 'v bridge" where
  "engine_turn en plan_text b =
     (case (br_loop b, br_context b, br_work b) of
        (Loop_running, Some lc, (x, token) # rest) \<Rightarrow>
          (case perform_work en plan_text lc x (br_state b) of
             (res, session, s1) \<Rightarrow>
               (session, post (case res of Inl e \<Rightarrow> Ui_error e token | Inr r \<Rightarrow> Ui_result r token)
                  (engine_does s1 (b\<lparr>br_work := rest\<rparr>))))
      | _ \<Rightarrow> (None, b))"

text \<open>An inline run of the conductor, the oldest first; with the queue backend the workers run them.\<close>

definition engine_job :: "'v engine \<Rightarrow> 'v bridge \<Rightarrow> 'v bridge" where
  "engine_job en b =
     (if br_loop b \<noteq> Loop_running \<or> cf_task_backend (en_settings en) \<noteq> Inline then b
      else case bk_jobs (outside (br_state b)) of
        [] \<Rightarrow> b
      | j # js \<Rightarrow> engine_does (perform_job (en_services en) j (on_backend (\<lambda>k. k\<lparr>bk_jobs := js\<rparr>) (br_state b))) b)"

text \<open>
  \<open>stop\<close>: the subscription ends first, then the inline runs are waited for, then the loop halts; coroutines that have
  not run by then never do.
\<close>

definition stop_bridge :: "'v engine \<Rightarrow> 'v bridge \<Rightarrow> 'v bridge" where
  "stop_bridge en b =
     (let b1 = b\<lparr>br_stopping := True\<rparr> in
      if br_loop b \<noteq> Loop_running then b1
      else b1\<lparr>br_pump := None, br_loop := Loop_closed,
              br_state := (case br_context b of None \<Rightarrow> br_state b | Some lc \<Rightarrow> close_local en (br_state b))\<rparr>)"

section \<open>The line of an event\<close>

definition play :: char where
  "play = CHR 0x91"

definition pause_mark :: char where
  "pause_mark = CHR 0x92"

definition stop_mark :: char where
  "stop_mark = CHR 0x94"

definition disc :: char where
  "disc = CHR 0x98"

definition diamond :: char where
  "diamond = CHR 0x99"

fun event_value :: "event_type \<Rightarrow> string" where
  "event_value RUN_STARTED = ''run.started''"
| "event_value RUN_DELTA = ''run.delta''"
| "event_value RUN_STEP = ''run.step''"
| "event_value RUN_AWAITING_APPROVAL = ''run.awaiting_approval''"
| "event_value RUN_FINISHED = ''run.finished''"
| "event_value APPROVAL_DECIDED = ''approval.decided''"
| "event_value CHANGE_APPLIED = ''change.applied''"
| "event_value CHANGE_VERIFIED = ''change.verified''"
| "event_value CHANGE_REVERTED = ''change.reverted''"
| "event_value DOCUMENT_INGESTED = ''document.ingested''"
| "event_value SCHEDULE_FIRED = ''schedule.fired''"

text \<open>\<open>repr(v)\<close> and \<open>str(v)\<close> of what JSON can hold.\<close>

fun repr_json :: "(real \<Rightarrow> string) \<Rightarrow> json \<Rightarrow> string"
  and repr_items :: "(real \<Rightarrow> string) \<Rightarrow> json list \<Rightarrow> string list"
  and repr_fields :: "(real \<Rightarrow> string) \<Rightarrow> (string \<times> json) list \<Rightarrow> string list"
  where
  "repr_json rep JNull = ''None''"
| "repr_json rep (JBool b) = (if b then ''True'' else ''False'')"
| "repr_json rep (JInt i) = show_int i"
| "repr_json rep (JReal x) = rep x"
| "repr_json rep (JStr t) = py_repr t"
| "repr_json rep (JList vs) = ''['' @ join '', '' (repr_items rep vs) @ '']''"
| "repr_json rep (JObj kvs) = ''{'' @ join '', '' (repr_fields rep kvs) @ ''}''"
| "repr_items rep [] = []"
| "repr_items rep (v # vs) = repr_json rep v # repr_items rep vs"
| "repr_fields rep [] = []"
| "repr_fields rep ((k, v) # kvs) = (py_repr k @ '': '' @ repr_json rep v) # repr_fields rep kvs"

definition str_json :: "console \<Rightarrow> json \<Rightarrow> string" where
  "str_json co v = (case v of JStr t \<Rightarrow> t | _ \<Rightarrow> repr_json (co_rep co) v)"

definition event_text :: "console \<Rightarrow> string \<Rightarrow> string \<Rightarrow> event \<Rightarrow> string" where
  "event_text co k other e = (case payload_item k e of Some v \<Rightarrow> str_json co v | None \<Rightarrow> other)"

text \<open>\<open>payload.get(k, '')[:n]\<close>: what is neither text nor a list cannot be sliced.\<close>

definition sliced :: "console \<Rightarrow> string \<Rightarrow> nat \<Rightarrow> event \<Rightarrow> string option" where
  "sliced co k n e =
     (case payload_item k e of
        None \<Rightarrow> Some []
      | Some (JStr t) \<Rightarrow> Some (take n t)
      | Some (JList xs) \<Rightarrow> Some (str_json co (JList (take n xs)))
      | _ \<Rightarrow> None)"

definition item_or_null :: "string \<Rightarrow> event \<Rightarrow> json" where
  "item_or_null k e = (case payload_item k e of None \<Rightarrow> JNull | Some v \<Rightarrow> v)"

text \<open>\<open>None\<close> is the exception of a payload of an unexpected type.\<close>

definition describe_event :: "console \<Rightarrow> event \<Rightarrow> string option" where
  "describe_event co e =
     (case ev_type e of
        RUN_STARTED \<Rightarrow> map_option (\<lambda>t. [play] @ '' run started '' @ [dash] @ '' '' @ t) (sliced co ''goal'' 80 e)
      | RUN_STEP \<Rightarrow>
          map_option (\<lambda>t. ''  '' @ [if payload_ok e then tick else cross] @ '' '' @ event_text co ''tool'' ''None'' e @ '' '' @
              [dash] @ '' '' @ t) (sliced co ''summary'' 100 e)
      | RUN_AWAITING_APPROVAL \<Rightarrow> Some ([pause_mark] @ '' approval needed: '' @ event_text co ''tool'' ''None'' e)
      | RUN_FINISHED \<Rightarrow>
          (let detail = or_json (item_or_null ''error'' e) (or_json (item_or_null ''answer'' e) (JStr []))
           in Some ([stop_mark] @ '' run '' @ event_text co ''status'' ''None'' e @ '' '' @ [dash] @ '' '' @
                take 100 (str_json co detail)))
      | APPROVAL_DECIDED \<Rightarrow>
          Some ([disc] @ '' approval '' @ (if truthy_json (item_or_null ''approved'' e) then ''granted'' else ''denied''))
      | DOCUMENT_INGESTED \<Rightarrow> Some ([diamond] @ '' document ingested ('' @ event_text co ''chunks'' ''0'' e @ '' chunks)'')
      | _ \<Rightarrow> Some ([CHR 0xB7] @ '' '' @ event_value (ev_type e)))"

end
