(* ===== verification/Window.thy ===== *)
theory Window
  imports Bridge
begin

text \<open>
  \<open>gui/app.py\<close>: the desktop window over the bridge.  A widget is what it shows and whether it can be used; layout,
  fonts and colours of the theme are left out.  The callbacks run one at a time on the thread of the window.
\<close>

section \<open>State\<close>

datatype colour = Muted | Pulse | Warn | Bad

record window =
  wi_session :: "ident option"
  wi_pending :: "json_dict option"
  wi_streaming :: bool
  wi_entry :: string
  wi_can_send :: bool
  wi_can_approve :: bool
  wi_can_deny :: bool
  wi_status :: "string \<times> colour"
  wi_transcript :: "(string \<times> string) list"   \<comment> \<open>text and its tag\<close>
  wi_activity :: "string list"
  wi_approval_text :: string
  wi_polling :: bool

text \<open>\<open>json.dumps(v, indent=2)\<close>\<close>

definition json_margin :: "nat \<Rightarrow> string" where
  "json_margin n = newline @ replicate (2 * n) CHR '' ''"

fun dumps_indented :: "(real \<Rightarrow> string) \<Rightarrow> nat \<Rightarrow> json \<Rightarrow> string"
  and indented_items :: "(real \<Rightarrow> string) \<Rightarrow> nat \<Rightarrow> json list \<Rightarrow> string list"
  and indented_fields :: "(real \<Rightarrow> string) \<Rightarrow> nat \<Rightarrow> (string \<times> json) list \<Rightarrow> string list"
  where
  "dumps_indented rep n (JList vs) =
     (if vs = [] then ''[]''
      else ''['' @ json_margin (Suc n) @ join ('','' @ json_margin (Suc n)) (indented_items rep (Suc n) vs) @ json_margin n @ '']'')"
| "dumps_indented rep n (JObj kvs) =
     (if kvs = [] then ''{}''
      else ''{'' @ json_margin (Suc n) @ join ('','' @ json_margin (Suc n)) (indented_fields rep (Suc n) kvs) @ json_margin n @ ''}'')"
| "dumps_indented rep n v = dumps rep v"
| "indented_items rep n [] = []"
| "indented_items rep n (v # vs) = dumps_indented rep n v # indented_items rep n vs"
| "indented_fields rep n [] = []"
| "indented_fields rep n ((k, v) # kvs) = (dump_str k @ '': '' @ dumps_indented rep n v) # indented_fields rep n kvs"

definition request_item :: "console \<Rightarrow> string \<Rightarrow> string \<Rightarrow> json_dict \<Rightarrow> string" where
  "request_item co k other p = (case map_of p k of None \<Rightarrow> other | Some v \<Rightarrow> str_json co v)"

text \<open>\<open>_render_approval\<close>\<close>

definition nothing_waiting :: string where
  "nothing_waiting = ''Nothing is waiting on you.'' @ newline @ newline @
     ''When an agent reaches a tool call that changes the host, the run pauses here with the exact arguments it intends to use.''"

definition approval_page :: "console \<Rightarrow> json_dict option \<Rightarrow> string" where
  "approval_page co p =
     (case p of
        None \<Rightarrow> nothing_waiting
      | Some fs \<Rightarrow>
          ''The agent wants to run:'' @ newline @ newline @
          ''  '' @ request_item co ''tool'' ''None'' fs @ newline @ newline @
          concat (map ascii_char (dumps_indented (co_rep co) 0 (case map_of fs ''arguments'' of None \<Rightarrow> JObj [] | Some v \<Rightarrow> v))) @
          newline @ newline @
          request_item co ''reason'' [] fs @ newline)"

definition append_text :: "string \<Rightarrow> string \<Rightarrow> window \<Rightarrow> window" where
  "append_text t tag w = w\<lparr>wi_transcript := wi_transcript w @ [(t, tag)]\<rparr>"

definition log_activity :: "string \<Rightarrow> window \<Rightarrow> window" where
  "log_activity line w = w\<lparr>wi_activity := wi_activity w @ [line]\<rparr>"

definition set_status :: "string \<Rightarrow> colour \<Rightarrow> window \<Rightarrow> window" where
  "set_status t c w = w\<lparr>wi_status := (t, c)\<rparr>"

text \<open>\<open>__init__\<close>, which starts the bridge and the first timer.\<close>

definition new_window :: "console \<Rightarrow> window" where
  "new_window co =
     \<lparr>wi_session = None, wi_pending = None, wi_streaming = False, wi_entry = [], wi_can_send = True,
      wi_can_approve = False, wi_can_deny = False, wi_status = (''starting engine'' @ [ellipsis], Muted), wi_transcript = [],
      wi_activity = [], wi_approval_text = approval_page co None, wi_polling = True\<rparr>"

record 'v desktop =
  ui_bridge :: "'v bridge"
  ui_window :: window

definition new_desktop :: "console \<Rightarrow> 'v state \<Rightarrow> 'v desktop" where
  "new_desktop co s = \<lparr>ui_bridge = new_bridge s, ui_window = new_window co\<rparr>"

section \<open>What the operator does\<close>

text \<open>\<open>_send\<close>: the button can be disabled, the Return key calls it all the same.\<close>

definition send_goal :: "'v desktop \<Rightarrow> 'v desktop" where
  "send_goal d =
     (let w = ui_window d; goal = strip (wi_entry w) in
      if goal = [] then d
      else if br_context (ui_bridge d) = None
      then d\<lparr>ui_window := append_text (''engine is still starting'' @ [ellipsis] @ newline) ''warn'' w\<rparr>
      else \<lparr>ui_bridge = submit_work (Send_goal (wi_session w) goal) ''submit'' (ui_bridge d),
            ui_window = set_status (''running'' @ [ellipsis]) Pulse
              ((append_text (''agent '' @ [chevron] @ '' '') ''agent''
                 (append_text (newline @ ''you '' @ [chevron] @ '' '' @ goal @ newline) ''you'' (w\<lparr>wi_entry := []\<rparr>)))
               \<lparr>wi_streaming := True, wi_can_send := False\<rparr>)\<rparr>)"

definition approval_of :: "console \<Rightarrow> json_dict \<Rightarrow> ident" where
  "approval_of co p = request_item co ''approval_id'' ''None'' p"

text \<open>\<open>_decide\<close>\<close>

definition decide_pending :: "console \<Rightarrow> bool \<Rightarrow> 'v desktop \<Rightarrow> 'v desktop" where
  "decide_pending co approved d =
     (let w = ui_window d in
      case wi_pending w of
        None \<Rightarrow> d
      | Some p \<Rightarrow>
          \<lparr>ui_bridge = submit_work (Decide_request (approval_of co p) approved) ''decide'' (ui_bridge d),
           ui_window = append_text (newline @ ''  ['' @ (if approved then ''approved'' else ''denied'') @ '']'' @ newline)
             (if approved then ''tool'' else ''warn'')
             (w\<lparr>wi_pending := None, wi_approval_text := approval_page co None, wi_can_approve := False, wi_can_deny := False\<rparr>)\<rparr>)"

definition close_window :: "'v engine \<Rightarrow> 'v desktop \<Rightarrow> 'v desktop" where
  "close_window en d =
     \<lparr>ui_bridge = stop_bridge en (ui_bridge d), ui_window = set_status (''shutting down'' @ [ellipsis]) Muted (ui_window d)\<rparr>"

section \<open>Messages of the engine\<close>

text \<open>What an event does beside its line in the log.\<close>

definition apply_event :: "console \<Rightarrow> event \<Rightarrow> window \<Rightarrow> window" where
  "apply_event co e w =
     (case ev_type e of
        RUN_DELTA \<Rightarrow> append_text (event_text co ''text'' [] e) ''agent'' w
      | RUN_STEP \<Rightarrow>
          append_text (newline @ ''  '' @ [if payload_ok e then tick else cross] @ '' '' @ event_text co ''tool'' ''None'' e @ newline)
            ''tool'' w
      | RUN_AWAITING_APPROVAL \<Rightarrow>
          set_status ''waiting for approval'' Warn
            (append_text (newline @ ''  '' @ [pause_mark] @ '' waiting for approval: '' @ event_text co ''tool'' ''None'' e @
                '' (see the Approvals tab)'' @ newline) ''warn''
              (w\<lparr>wi_pending := Some (ev_payload e), wi_approval_text := approval_page co (Some (ev_payload e)),
                 wi_can_approve := True, wi_can_deny := True\<rparr>))
      | RUN_FINISHED \<Rightarrow>
          (let w1 = w\<lparr>wi_streaming := False, wi_can_send := True\<rparr>; status = event_text co ''status'' ''None'' e in
           if payload_item ''status'' e = Some (JStr ''succeeded'') then append_text newline ''agent'' (set_status ''ready'' Pulse w1)
           else append_text (newline @ ''  ['' @ status @ ''] '' @ str_json co (or_json (item_or_null ''error'' e) (JStr [])) @ newline)
                  ''bad''
                  (set_status status (if payload_item ''status'' e = Some (JStr ''failed'') then Bad else Warn) w1))
      | _ \<Rightarrow> w)"

text \<open>\<open>_handle\<close>; \<open>None\<close> is an exception.\<close>

fun handle_message :: "console \<Rightarrow> ui_message \<Rightarrow> window \<Rightarrow> window option" where
  "handle_message co (Ui_ready ws) w = Some (set_status ''ready'' Pulse w)"
| "handle_message co (Ui_error t token) w =
     Some ((log_activity (''[error] '' @ t) (append_text (newline @ ''[error] '' @ t @ newline) ''bad'' (set_status ''error'' Bad w)))
       \<lparr>wi_can_send := True\<rparr>)"
| "handle_message co (Ui_result r token) w = Some w"
| "handle_message co (Ui_event e) w =
     (case describe_event co e of None \<Rightarrow> None | Some line \<Rightarrow> Some (apply_event co e (log_activity line w)))"

text \<open>\<open>_poll\<close>: after an exception the rest of the batch is lost and the timer is not set again.\<close>

fun handle_all :: "console \<Rightarrow> ui_message list \<Rightarrow> window \<Rightarrow> window" where
  "handle_all co [] w = w"
| "handle_all co (m # ms) w =
     (case handle_message co m w of None \<Rightarrow> w\<lparr>wi_polling := False\<rparr> | Some w1 \<Rightarrow> handle_all co ms w1)"

definition poll :: "console \<Rightarrow> 'v desktop \<Rightarrow> 'v desktop" where
  "poll co d =
     (if \<not> wi_polling (ui_window d) then d
      else case drain drain_limit (ui_bridge d) of
        (ms, b) \<Rightarrow> \<lparr>ui_bridge = b, ui_window = handle_all co ms (ui_window d)\<rparr>)"

section \<open>The window and its engine, step by step\<close>

record 'v gui_env =
  ge_console :: console
  ge_engine :: "'v engine"
  ge_plan_text :: "plan_error \<Rightarrow> string"

datatype ui_step =
    Eng_boot "string option" | Eng_turn | Eng_job | Eng_pump
  | Key_typed string | Key_return | Click_send | Click_approve | Click_deny | Tick_poll | Win_close

definition on_bridge :: "('v bridge \<Rightarrow> 'v bridge) \<Rightarrow> 'v desktop \<Rightarrow> 'v desktop" where
  "on_bridge f d = d\<lparr>ui_bridge := f (ui_bridge d)\<rparr>"

definition turn_engine :: "'v gui_env \<Rightarrow> 'v desktop \<Rightarrow> 'v desktop" where
  "turn_engine g d =
     (case engine_turn (ge_engine g) (ge_plan_text g) (ui_bridge d) of
        (made, b) \<Rightarrow>
          \<lparr>ui_bridge = b, ui_window = (case made of None \<Rightarrow> ui_window d | Some k \<Rightarrow> (ui_window d)\<lparr>wi_session := Some k\<rparr>)\<rparr>)"

fun ui_next :: "'v gui_env \<Rightarrow> ui_step \<Rightarrow> 'v desktop \<Rightarrow> 'v desktop" where
  "ui_next g (Eng_boot trouble) d = on_bridge (bootstrap trouble) d"
| "ui_next g Eng_turn d = turn_engine g d"
| "ui_next g Eng_job d = on_bridge (engine_job (ge_engine g)) d"
| "ui_next g Eng_pump d = on_bridge pump_event d"
| "ui_next g (Key_typed t) d = d\<lparr>ui_window := (ui_window d)\<lparr>wi_entry := wi_entry (ui_window d) @ t\<rparr>\<rparr>"
| "ui_next g Key_return d = send_goal d"
| "ui_next g Click_send d = (if wi_can_send (ui_window d) then send_goal d else d)"
| "ui_next g Click_approve d = (if wi_can_approve (ui_window d) then decide_pending (ge_console g) True d else d)"
| "ui_next g Click_deny d = (if wi_can_deny (ui_window d) then decide_pending (ge_console g) False d else d)"
| "ui_next g Tick_poll d = poll (ge_console g) d"
| "ui_next g Win_close d = close_window (ge_engine g) d"

definition ui_run :: "'v gui_env \<Rightarrow> ui_step list \<Rightarrow> 'v desktop \<Rightarrow> 'v desktop" where
  "ui_run g xs d = fold (ui_next g) xs d"

section \<open>The system tab\<close>

definition rjust :: "nat \<Rightarrow> string \<Rightarrow> string" where
  "rjust width t = replicate (width - length t) CHR '' '' @ t"

definition page_row :: "string \<Rightarrow> string \<Rightarrow> string" where
  "page_row k v = ''  '' @ ljust 20 k @ '' '' @ v"

definition system_page :: "console \<Rightarrow> 'h host_io \<Rightarrow> 'h \<Rightarrow> string" where
  "system_page co io h =
     (let r = resource_snapshot_of io h
      in join newline
        ([''KERNEL'', []] @ map (\<lambda>(k, v). page_row k (str_json co v)) (kernel_dict (kernel_facts_of io h)) @
         [[], ''RESOURCES'', []] @
         (case rs_memory_total r of
            None \<Rightarrow> []
          | Some kb \<Rightarrow>
              if kb = 0 then []
              else [page_row ''memory used'' ((case memory_used_percent r of None \<Rightarrow> ''None'' | Some p \<Rightarrow> co_rep co p) @ ''% of '' @
                      show_int (kb div 1024) @ '' MiB'')]) @
         (case rs_load r of
            None \<Rightarrow> []
          | Some (a, b, c) \<Rightarrow> [page_row ''load average'' (fixed2 a @ '', '' @ fixed2 b @ '', '' @ fixed2 c)]) @
         [page_row ''processes'' (show_int (rs_process_count r))] @
         (case rs_open_files r of
            None \<Rightarrow> []
          | Some n \<Rightarrow> [page_row ''file descriptors''
              (show_int n @ '' / '' @ (case rs_file_limit r of None \<Rightarrow> ''None'' | Some m \<Rightarrow> show_int m))]) @
         (if rs_disks r = [] then []
          else [[], ''FILESYSTEMS'', []] @
            map (\<lambda>x. ''  '' @ ljust 28 (dk_mountpoint x) @ '' '' @ rjust 5 (co_rep co (dk_used_percent x)) @ ''% used, '' @
                show_int (dk_free x div 1024 ^ 3) @ '' GiB free'') (take 12 (rs_disks r)))))"

end
