(* ===== verification/Window_Props.thy ===== *)
theory Window_Props
  imports Window
begin

text \<open>
  What the window and its engine keep between them: messages arrive in order and once, events are those of the
  workspace, and a decision is the one on the request that is shown.  Two behaviours of the window lose or repeat
  something; they are stated as they are.
\<close>

section \<open>Messages arrive in order\<close>

definition ui_posted :: "'v gui_env \<Rightarrow> ui_step \<Rightarrow> 'v desktop \<Rightarrow> ui_message list" where
  "ui_posted g x d =
     (if x = Tick_poll then [] else drop (length (br_queue (ui_bridge d))) (br_queue (ui_bridge (ui_next g x d))))"

definition ui_drained :: "'v gui_env \<Rightarrow> ui_step \<Rightarrow> 'v desktop \<Rightarrow> ui_message list" where
  "ui_drained g x d =
     (if x = Tick_poll \<and> wi_polling (ui_window d) then take drain_limit (br_queue (ui_bridge d)) else [])"

fun along :: "('v gui_env \<Rightarrow> ui_step \<Rightarrow> 'v desktop \<Rightarrow> 'a list) \<Rightarrow> 'v gui_env \<Rightarrow> ui_step list \<Rightarrow> 'v desktop \<Rightarrow> 'a list" where
  "along f g [] d = []"
| "along f g (x # xs) d = f g x d @ along f g xs (ui_next g x d)"

lemma ui_run_simps [simp]: "ui_run g [] d = d" "ui_run g (x # xs) d = ui_run g xs (ui_next g x d)"
  by (simp_all add: ui_run_def)

lemma engine_does_sel [simp]:
  "br_queue (engine_does s b) = br_queue b" "br_context (engine_does s b) = br_context b" "br_loop (engine_does s b) = br_loop b"
  "br_work (engine_does s b) = br_work b" "br_state (engine_does s b) = s" "br_stopping (engine_does s b) = br_stopping b"
  by (simp_all add: engine_does_def split: option.splits)

lemma post_sel [simp]:
  "br_queue (post m b) = br_queue b @ [m]" "br_context (post m b) = br_context b" "br_loop (post m b) = br_loop b"
  "br_work (post m b) = br_work b" "br_state (post m b) = br_state b" "br_pump (post m b) = br_pump b"
  by (simp_all add: post_def)

lemma engine_turn_queue:
  "\<exists>ms. br_queue (snd (engine_turn en pt b)) = br_queue b @ ms"
  by (auto simp: engine_turn_def split: loop_state.splits option.splits list.splits prod.splits)

lemma turn_bridge: "ui_bridge (turn_engine g d) = snd (engine_turn (ge_engine g) (ge_plan_text g) (ui_bridge d))"
  by (simp add: turn_engine_def split: prod.splits)

lemma submit_work_queue: "\<exists>ms. br_queue (submit_work x t b) = br_queue b @ ms"
  by (auto simp: submit_work_def)

lemma bootstrap_queue: "\<exists>ms. br_queue (bootstrap f b) = br_queue b @ ms"
  by (auto simp: bootstrap_def split: option.splits prod.splits)

lemma pump_queue: "\<exists>ms. br_queue (pump_event b) = br_queue b @ ms"
  by (auto simp: pump_event_def split: option.splits list.splits)

lemma job_queue: "br_queue (engine_job en b) = br_queue b"
  by (auto simp: engine_job_def split: list.splits)

lemma stop_queue: "br_queue (stop_bridge en b) = br_queue b"
  by (simp add: stop_bridge_def Let_def)

lemma send_queue: "\<exists>ms. br_queue (ui_bridge (send_goal d)) = br_queue (ui_bridge d) @ ms"
  using submit_work_queue by (auto simp: send_goal_def Let_def)

lemma decide_queue: "\<exists>ms. br_queue (ui_bridge (decide_pending co ok d)) = br_queue (ui_bridge d) @ ms"
  using submit_work_queue by (auto simp: decide_pending_def Let_def split: option.splits)

lemmas queue_grows = engine_turn_queue bootstrap_queue pump_queue send_queue decide_queue

lemma step_queue_grows:
  assumes "x \<noteq> Tick_poll"
  shows "\<exists>ms. br_queue (ui_bridge (ui_next g x d)) = br_queue (ui_bridge d) @ ms"
  using assms queue_grows by (cases x) (auto simp: on_bridge_def turn_bridge job_queue stop_queue close_window_def)

lemma step_mail: "ui_drained g x d @ br_queue (ui_bridge (ui_next g x d)) = br_queue (ui_bridge d) @ ui_posted g x d"
proof (cases "x = Tick_poll")
  case True
  then show ?thesis by (simp add: ui_drained_def ui_posted_def poll_def drain_def)
next
  case False
  then obtain ms where "br_queue (ui_bridge (ui_next g x d)) = br_queue (ui_bridge d) @ ms" using step_queue_grows by blast
  with False show ?thesis by (simp add: ui_drained_def ui_posted_def)
qed

lemma mail_in_order:
  "along ui_drained g xs d @ br_queue (ui_bridge (ui_run g xs d)) = br_queue (ui_bridge d) @ along ui_posted g xs d"
proof (induction xs arbitrary: d)
  case (Cons x xs)
  show ?case using Cons.IH [of "ui_next g x d"] step_mail [of g x d] by simp
qed simp

section \<open>What the window shows\<close>

inductive gui_step :: "'v gui_env \<Rightarrow> 'v desktop \<Rightarrow> 'v desktop \<Rightarrow> bool" for g where
  step: "gui_step g d (ui_next g x d)"

inductive_cases gui_stepE: "gui_step g d d'"

text \<open>The page and the two buttons agree with the pending request.\<close>

definition shows_pending :: "console \<Rightarrow> window \<Rightarrow> bool" where
  "shows_pending co w = (wi_can_approve w = (wi_pending w \<noteq> None) \<and> wi_can_deny w = (wi_pending w \<noteq> None) \<and>
     wi_approval_text w = approval_page co (wi_pending w))"

text \<open>Events come from the subscription, which is there once the engine is open, and are those of its workspace.\<close>

definition events_in :: "ui_message list \<Rightarrow> event list" where
  "events_in ms = concat (map (\<lambda>m. case m of Ui_event e \<Rightarrow> [e] | _ \<Rightarrow> []) ms)"

lemma events_in_simps [simp]:
  "events_in [] = []" "events_in (xs @ ys) = events_in xs @ events_in ys"
  "events_in (m # ms) = (case m of Ui_event e \<Rightarrow> [e] | _ \<Rightarrow> []) @ events_in ms"
  by (simp_all add: events_in_def)

definition underway :: "'v bridge \<Rightarrow> event list" where
  "underway b = events_in (br_queue b) @ (case br_pump b of None \<Rightarrow> [] | Some es \<Rightarrow> es)"

definition bridge_wf :: "'v bridge \<Rightarrow> bool" where
  "bridge_wf b =
     ((br_loop b = No_loop \<longrightarrow> br_context b = None) \<and>
      (case br_context b of
         None \<Rightarrow> br_pump b = None \<and> events_in (br_queue b) = []
       | Some lc \<Rightarrow> \<forall>e \<in> set (underway b). ev_workspace e = lc_workspace lc))"

lemma offer_set: "set (offer e q) \<subseteq> insert e (set q)"
  by (cases q) (auto simp: offer_def)

lemma fold_offer_set: "set (fold offer es q) \<subseteq> set es \<union> set q"
proof (induction es arbitrary: q)
  case (Cons e es)
  then show ?case using Cons.IH [of "offer e q"] offer_set [of e q] by auto
qed simp

lemma heard_workspace: "e \<in> set (heard ws s s1) \<Longrightarrow> ev_workspace e = ws"
  by (simp add: heard_def)

lemma engine_does_wf:
  assumes "bridge_wf b"
  shows "bridge_wf (engine_does s1 b)"
proof (cases "br_context b")
  case (Some lc)
  have "ev_workspace e = lc_workspace lc" if "e \<in> set (underway (engine_does s1 b))" for e
  proof (cases "br_pump b")
    case None
    then show ?thesis using that assms Some by (simp add: bridge_wf_def underway_def engine_does_def)
  next
    case (Some es)
    have "e \<in> set (underway b) \<or> e \<in> set (heard (lc_workspace lc) (br_state b) s1)"
      using that Some \<open>br_context b = Some lc\<close> fold_offer_set [of "heard (lc_workspace lc) (br_state b) s1" es]
      by (auto simp: underway_def engine_does_def)
    then show ?thesis using assms \<open>br_context b = Some lc\<close> heard_workspace by (auto simp: bridge_wf_def)
  qed
  then show ?thesis using assms Some by (auto simp: bridge_wf_def)
qed (use assms in \<open>simp add: bridge_wf_def engine_does_def\<close>)

lemma post_wf:
  assumes "bridge_wf b" and "\<forall>e. m \<noteq> Ui_event e"
  shows "bridge_wf (post m b)"
  using assms by (cases m) (auto simp: bridge_wf_def underway_def split: option.splits)

lemma work_wf: "bridge_wf b \<Longrightarrow> bridge_wf (b\<lparr>br_work := xs\<rparr>)"
  by (simp add: bridge_wf_def underway_def split: option.splits)

lemma submit_work_wf: "bridge_wf b \<Longrightarrow> bridge_wf (submit_work x t b)"
  by (simp add: submit_work_def post_wf work_wf)

lemma bootstrap_wf: "bridge_wf b \<Longrightarrow> bridge_wf (bootstrap f b)"
  by (auto simp: bootstrap_def bridge_wf_def underway_def split: option.splits prod.splits)

lemma pump_wf: "bridge_wf b \<Longrightarrow> bridge_wf (pump_event b)"
  by (auto simp: pump_event_def bridge_wf_def underway_def split: option.splits list.splits)

lemma job_wf: "bridge_wf b \<Longrightarrow> bridge_wf (engine_job en b)"
  by (simp add: engine_job_def engine_does_wf split: list.splits)

lemma stop_wf: "bridge_wf b \<Longrightarrow> bridge_wf (stop_bridge en b)"
  by (auto simp: stop_bridge_def bridge_wf_def underway_def Let_def split: option.splits)

lemma engine_turn_wf: "bridge_wf b \<Longrightarrow> bridge_wf (snd (engine_turn en pt b))"
  by (auto simp: engine_turn_def post_wf engine_does_wf work_wf split: loop_state.splits option.splits list.splits prod.splits sum.splits)

lemma drain_wf:
  assumes "bridge_wf b"
  shows "bridge_wf (b\<lparr>br_queue := drop n (br_queue b)\<rparr>)"
proof -
  have "events_in (br_queue b) = events_in (take n (br_queue b)) @ events_in (drop n (br_queue b))"
    by (metis append_take_drop_id events_in_simps(2))
  then show ?thesis using assms by (auto simp: bridge_wf_def underway_def split: option.splits)
qed

lemmas bridge_wf_intros = submit_work_wf bootstrap_wf pump_wf job_wf stop_wf engine_turn_wf drain_wf

lemma send_wf: "bridge_wf (ui_bridge d) \<Longrightarrow> bridge_wf (ui_bridge (send_goal d))"
  by (simp add: send_goal_def Let_def submit_work_wf)

lemma decide_wf: "bridge_wf (ui_bridge d) \<Longrightarrow> bridge_wf (ui_bridge (decide_pending co ok d))"
  by (auto simp: decide_pending_def Let_def submit_work_wf split: option.splits)

lemma next_bridge_wf: "bridge_wf (ui_bridge d) \<Longrightarrow> bridge_wf (ui_bridge (ui_next g x d))"
  by (cases x)
    (auto simp: on_bridge_def turn_bridge poll_def drain_def close_window_def intro: bridge_wf_intros send_wf decide_wf)

lemma apply_event_pending:
  "shows_pending co w \<Longrightarrow> shows_pending co (apply_event co e w)"
  by (auto simp: apply_event_def shows_pending_def append_text_def set_status_def Let_def split: event_type.splits)

lemma handle_pending: "shows_pending co w \<Longrightarrow> handle_message co m w = Some w1 \<Longrightarrow> shows_pending co w1"
proof (cases m)
  case (Ui_event e)
  assume "shows_pending co w" "handle_message co m w = Some w1"
  moreover have "shows_pending co (log_activity l w)" for l using \<open>shows_pending co w\<close> by (simp add: shows_pending_def log_activity_def)
  ultimately show ?thesis using apply_event_pending Ui_event by (auto split: option.splits)
qed (auto simp: shows_pending_def set_status_def log_activity_def append_text_def)

lemma handle_all_pending: "shows_pending co w \<Longrightarrow> shows_pending co (handle_all co ms w)"
proof (induction ms arbitrary: w)
  case (Cons m ms)
  show ?case
  proof (cases "handle_message co m w")
    case None
    then show ?thesis using Cons.prems by (simp add: shows_pending_def)
  next
    case (Some w1)
    then show ?thesis using Cons.IH [of w1] handle_pending [OF Cons.prems Some] by simp
  qed
qed simp

lemma next_pending: "shows_pending (ge_console g) (ui_window d) \<Longrightarrow> shows_pending (ge_console g) (ui_window (ui_next g x d))"
  using handle_all_pending [of "ge_console g" "ui_window d"]
  by (cases x)
    (auto simp: on_bridge_def turn_engine_def poll_def drain_def close_window_def send_goal_def decide_pending_def shows_pending_def
      set_status_def append_text_def Let_def split: option.splits prod.splits)

definition desktop_wf :: "console \<Rightarrow> 'v desktop \<Rightarrow> bool" where
  "desktop_wf co d = (bridge_wf (ui_bridge d) \<and> shows_pending co (ui_window d))"

lemma new_desktop_wf: "desktop_wf co (new_desktop co s)"
  by (simp add: desktop_wf_def new_desktop_def new_bridge_def new_window_def bridge_wf_def underway_def shows_pending_def)

interpretation desktop_machine: state_machine "gui_step g" "desktop_wf (ge_console g)" for g
  by unfold_locales (auto simp: desktop_wf_def intro: next_bridge_wf next_pending elim!: gui_stepE)

lemmas desktop_reached_wf = desktop_machine.reached_good [OF _ new_desktop_wf]

section \<open>Decisions\<close>

lemma engine_turn_work: "length (br_work (snd (engine_turn en pt b))) \<le> length (br_work b)"
  by (auto simp: engine_turn_def split: loop_state.splits option.splits list.splits prod.splits)

lemma bridge_steps_work [simp]:
  "br_work (bootstrap f b) = br_work b" "br_work (pump_event b) = br_work b" "br_work (engine_job en b) = br_work b"
  "br_work (stop_bridge en b) = br_work b"
  by (auto simp: bootstrap_def pump_event_def engine_job_def stop_bridge_def Let_def split: option.splits list.splits prod.splits)

lemma send_work: "br_work (ui_bridge (send_goal d)) = br_work (ui_bridge d) @ [(Decide_request k ok, t)] \<Longrightarrow> False"
  by (auto simp: send_goal_def submit_work_def Let_def split: if_splits)

lemma decide_work:
  assumes "br_work (ui_bridge (decide_pending co ok d)) = br_work (ui_bridge d) @ [(Decide_request k ok2, t)]"
  shows "\<exists>p. wi_pending (ui_window d) = Some p \<and> k = approval_of co p \<and> ok2 = ok"
  using assms by (auto simp: decide_pending_def submit_work_def Let_def split: option.splits if_splits)

lemma decision_step:
  assumes "br_work (ui_bridge (ui_next g x d)) = br_work (ui_bridge d) @ [(Decide_request k ok, t)]"
  shows "x = (if ok then Click_approve else Click_deny) \<and> ui_next g x d = decide_pending (ge_console g) ok d \<and>
     (\<exists>p. wi_pending (ui_window d) = Some p \<and> k = approval_of (ge_console g) p)"
proof (cases x)
  case Eng_turn
  then have "length (br_work (ui_bridge (ui_next g x d))) \<le> length (br_work (ui_bridge d))"
    by (simp add: turn_bridge engine_turn_work)
  then show ?thesis by (simp add: assms)
next
  case Click_approve
  then show ?thesis using assms decide_work [of "ge_console g" True d k ok t] by (auto split: if_splits)
next
  case Click_deny
  then show ?thesis using assms decide_work [of "ge_console g" False d k ok t] by (auto split: if_splits)
next
  case Key_return
  then show ?thesis using assms send_work by auto
next
  case Click_send
  then show ?thesis using assms send_work by (auto split: if_splits)
qed (use assms in \<open>auto simp: on_bridge_def poll_def drain_def close_window_def split: if_splits\<close>)

lemma decided_window:
  "wi_pending (ui_window d) = Some p \<Longrightarrow> y \<in> {Click_approve, Click_deny} \<Longrightarrow>
   wi_approval_text (ui_window (decide_pending (ge_console g) ok d)) = nothing_waiting \<and>
   ui_next g y (decide_pending (ge_console g) ok d) = decide_pending (ge_console g) ok d"
  by (auto simp: decide_pending_def append_text_def approval_page_def Let_def)

text \<open>C34.  The window decides what it shows: from a well-formed desktop on, a decision reaches the engine only by a press of
  the button of that verdict, on the request whose tool and arguments the page shows at that moment; after it the page
  shows nothing and neither button sends anything more.\<close>

theorem window_decides_what_it_shows:
  assumes "desktop_wf (ge_console g) d0" and "(gui_step g)\<^sup>*\<^sup>* d0 d"
    and "br_work (ui_bridge (ui_next g x d)) = br_work (ui_bridge d) @ [(Decide_request k ok, t)]"
  shows "x = (if ok then Click_approve else Click_deny) \<and>
     (\<exists>p. wi_approval_text (ui_window d) = approval_page (ge_console g) (Some p) \<and> k = approval_of (ge_console g) p) \<and>
     wi_approval_text (ui_window (ui_next g x d)) = nothing_waiting \<and>
     (\<forall>y \<in> {Click_approve, Click_deny}. ui_next g y (ui_next g x d) = ui_next g x d)"
proof -
  have "shows_pending (ge_console g) (ui_window d)"
    using desktop_machine.reached_good [OF assms(2,1)] by (simp add: desktop_wf_def)
  moreover obtain p where p: "wi_pending (ui_window d) = Some p" "k = approval_of (ge_console g) p" and
    x: "x = (if ok then Click_approve else Click_deny)" "ui_next g x d = decide_pending (ge_console g) ok d"
    using decision_step [OF assms(3)] by blast
  ultimately show ?thesis using decided_window [OF p(1)] unfolding x(2) by (auto simp: shows_pending_def x(1) p)
qed

text \<open>A press of a button settles the request: the next coroutine of the engine records the decision of the local
  operator on the row of the request, hands the run on to be resumed with that verdict and reports back to the window.\<close>

theorem pressed_is_decided:
  assumes "desktop_wf (ge_console g) d" and "wi_pending (ui_window d) = Some p" and "br_loop (ui_bridge d) = Loop_running"
    and "br_context (ui_bridge d) = Some lc" and "br_work (ui_bridge d) = []"
    and "get_approval (approval_of (ge_console g) p) (db (br_state (ui_bridge d))) = Some a" and "ar_status a = Pending_decision"
    and "d1 = ui_run g [if ok then Click_approve else Click_deny, Eng_turn] d"
  shows "(\<exists>a1. get_approval (ar_id a) (db (br_state (ui_bridge d1))) = Some a1 \<and>
        ar_status a1 = (if ok then Approved else Denied) \<and> ar_decided_by a1 = Some (lc_user lc)) \<and>
     bk_jobs (outside (br_state (ui_bridge d1))) =
       bk_jobs (outside (br_state (ui_bridge d))) @ [Resume_job (ar_run a) (approval_of (ge_console g) p) ok] \<and>
     br_queue (ui_bridge d1) = br_queue (ui_bridge d) @ [Ui_result None ''decide'']"
proof -
  let ?b = "ui_bridge d" and ?k = "approval_of (ge_console g) p"
  have "wi_can_approve (ui_window d)" "wi_can_deny (ui_window d)"
    using assms(1,2) by (simp_all add: desktop_wf_def shows_pending_def)
  then have press: "ui_next g (if ok then Click_approve else Click_deny) d = decide_pending (ge_console g) ok d" by simp
  obtain res s1 where decided: "decide_approval ?k (lc_user lc) ok (br_state ?b) = (res, s1)" by fastforce
  note final = decision_is_final [OF assms(6,7) decided]
  have bridge: "ui_bridge (decide_pending (ge_console g) ok d) = ?b\<lparr>br_work := [(Decide_request ?k ok, ''decide'')]\<rparr>"
    using assms(2-5) by (simp add: decide_pending_def submit_work_def)
  have "perform_work (ge_engine g) (ge_plan_text g) lc (Decide_request ?k ok) (br_state ?b) = (Inr None, None, s1)"
    using final decided by simp
  then have "ui_bridge d1 = post (Ui_result None ''decide'') (engine_does s1 (?b\<lparr>br_work := []\<rparr>))"
    using assms(3,4) by (simp add: assms(8) press turn_bridge bridge engine_turn_def)
  moreover have "ar_id a = ?k" using assms(6) by (auto simp: get_approval_def dest: find_row_Some)
  ultimately show ?thesis using final [of "lc_user lc" ok] by auto
qed

lemma next_context:
  "br_context (ui_bridge d) = Some lc \<Longrightarrow> bridge_wf (ui_bridge d) \<Longrightarrow> br_context (ui_bridge (ui_next g x d)) = Some lc"
  by (cases x)
    (auto simp: on_bridge_def turn_bridge bootstrap_def pump_event_def engine_turn_def engine_job_def poll_def drain_def
      close_window_def stop_bridge_def send_goal_def decide_pending_def submit_work_def bridge_wf_def Let_def
      split: option.splits list.splits prod.splits loop_state.splits)

lemma run_context:
  "br_context (ui_bridge d) = Some lc \<Longrightarrow> desktop_wf (ge_console g) d \<Longrightarrow> br_context (ui_bridge (ui_run g xs d)) = Some lc"
proof (induction xs arbitrary: d)
  case (Cons x xs)
  have "desktop_wf (ge_console g) (ui_next g x d)"
    using Cons.prems(2) desktop_machine.step_good [OF _ gui_step.intros] by blast
  then show ?case using Cons.IH next_context [OF Cons.prems(1)] Cons.prems(2) by (simp add: desktop_wf_def)
qed simp

lemma drained_events:
  assumes "desktop_wf (ge_console g) d" and "e \<in> set (events_in (along ui_drained g xs d))"
  shows "\<exists>lc. br_context (ui_bridge (ui_run g xs d)) = Some lc \<and> ev_workspace e = lc_workspace lc"
  using assms
proof (induction xs arbitrary: d)
  case (Cons x xs)
  have wf: "desktop_wf (ge_console g) (ui_next g x d)"
    using Cons.prems(1) desktop_machine.step_good [OF _ gui_step.intros] by blast
  show ?case
  proof (cases "e \<in> set (events_in (ui_drained g x d))")
    case True
    then have "e \<in> set (events_in (take drain_limit (br_queue (ui_bridge d))))"
      by (auto simp: ui_drained_def split: if_splits)
    then have "e \<in> set (events_in (br_queue (ui_bridge d)))"
      by (metis UnI1 append_take_drop_id events_in_simps(2) set_append)
    then obtain lc where "br_context (ui_bridge d) = Some lc" "ev_workspace e = lc_workspace lc"
      using Cons.prems(1) by (auto simp: desktop_wf_def bridge_wf_def underway_def split: option.splits)
    then show ?thesis using run_context [of d lc g "x # xs"] Cons.prems(1) by blast
  next
    case False
    then show ?thesis using Cons.IH [OF wf] Cons.prems(2) by simp
  qed
qed simp

text \<open>Messages reach the window once and in the order in which they were posted, in batches that are bounded, and every
  event among them is one of the workspace the engine opened.\<close>

theorem window_hears_in_order:
  assumes "desktop_wf (ge_console g) d"
  shows "along ui_drained g xs d @ br_queue (ui_bridge (ui_run g xs d)) = br_queue (ui_bridge d) @ along ui_posted g xs d \<and>
     length (ui_drained g x d) \<le> 200 \<and>
     (\<forall>e \<in> set (events_in (along ui_drained g xs d)).
        \<exists>lc. br_context (ui_bridge (ui_run g xs d)) = Some lc \<and> ev_workspace e = lc_workspace lc)"
  using mail_in_order [of g xs d] drained_events [OF assms] by (auto simp: ui_drained_def drain_limit_def)

section \<open>What the window loses or repeats\<close>

text \<open>There is one place for a request: a second one that arrives before the first is decided takes its place, and the
  presses that follow decide the second alone.\<close>

theorem second_request_hides_first:
  assumes "wi_polling (ui_window d)" and "br_queue (ui_bridge d) = [Ui_event e1, Ui_event e2]"
    and "ev_type e1 = RUN_AWAITING_APPROVAL" and "ev_type e2 = RUN_AWAITING_APPROVAL"
    and "br_loop (ui_bridge d) = Loop_running" and "br_context (ui_bridge d) = Some lc" and "br_work (ui_bridge d) = []"
    and "d1 = ui_next g Tick_poll d"
  shows "wi_approval_text (ui_window d1) = approval_page (ge_console g) (Some (ev_payload e2)) \<and>
     br_work (ui_bridge (ui_run g [Click_approve, Click_approve, Click_deny] d1)) =
       [(Decide_request (approval_of (ge_console g) (ev_payload e2)) True, ''decide'')]"
proof -
  have lines: "\<exists>l. describe_event (ge_console g) e1 = Some l" "\<exists>l. describe_event (ge_console g) e2 = Some l"
    using assms(3,4) by (simp_all add: describe_event_def)
  then obtain l1 l2 where l: "describe_event (ge_console g) e1 = Some l1" "describe_event (ge_console g) e2 = Some l2" by blast
  have w: "ui_window d1 = apply_event (ge_console g) e2 (log_activity l2 (apply_event (ge_console g) e1 (log_activity l1 (ui_window d))))"
    using assms(1,2) by (simp add: assms(8) poll_def drain_def drain_limit_def l)
  have "wi_pending (ui_window d1) = Some (ev_payload e2) \<and> wi_can_approve (ui_window d1)
      \<and> wi_approval_text (ui_window d1) = approval_page (ge_console g) (Some (ev_payload e2))"
    using assms(4) by (simp add: w apply_event_def set_status_def append_text_def)
  moreover have "ui_bridge d1 = (ui_bridge d)\<lparr>br_queue := []\<rparr>"
    using assms(1,2) by (simp add: assms(8) poll_def drain_def drain_limit_def)
  ultimately show ?thesis using assms(5-7) by (simp add: decide_pending_def submit_work_def append_text_def Let_def)
qed

text \<open>The Return key does not ask whether the button is enabled: while the first goal of a new window is on its way, a
  second one is sent, and both will make a session of their own.\<close>

theorem return_key_sends_again:
  assumes "br_loop (ui_bridge d) = Loop_running" and "br_context (ui_bridge d) = Some lc" and "br_work (ui_bridge d) = []"
    and "wi_session (ui_window d) = None" and "strip (wi_entry (ui_window d)) \<noteq> []" and "strip t \<noteq> []"
    and "d1 = ui_next g Key_return d"
  shows "\<not> wi_can_send (ui_window d1) \<and> ui_next g Click_send d1 = d1 \<and>
     br_work (ui_bridge (ui_run g [Key_typed t, Key_return] d1)) =
       [(Send_goal None (strip (wi_entry (ui_window d))), ''submit''), (Send_goal None (strip t), ''submit'')]"
  using assms by (simp add: send_goal_def submit_work_def set_status_def append_text_def Let_def)

section \<open>Witnesses\<close>

definition parked_event :: "string \<Rightarrow> event" where
  "parked_event k = \<lparr>ev_type = RUN_AWAITING_APPROVAL, ev_workspace = ''w1'', ev_session = None, ev_run = Some ''r1'',
     ev_payload = [(''approval_id'', JStr k), (''tool'', JStr ''wipe''), (''arguments'', JObj []), (''reason'', JStr ''gate'')]\<rparr>"

definition open_bridge :: "ui_message list \<Rightarrow> nat bridge" where
  "open_bridge ms = \<lparr>br_queue = ms, br_loop = Loop_running, br_context = Some \<lparr>lc_user = ''u1'', lc_workspace = ''w1''\<rparr>,
     br_pump = Some [], br_stopping = False, br_work = [], br_state = parked_state []\<rparr>"

definition plain_console :: console where
  "plain_console = \<lparr>co_terminal = plain_terminal, co_rep = (\<lambda>x. [])\<rparr>"

definition plain_gui :: "nat gui_env" where
  "plain_gui = \<lparr>ge_console = plain_console,
     ge_engine = \<lparr>en_services = demo_services, en_settings = default_settings, en_elsewhere = (\<lambda>s. s)\<rparr>, ge_plan_text = (\<lambda>e. [])\<rparr>"

definition open_desktop :: "ui_message list \<Rightarrow> nat desktop" where
  "open_desktop ms = \<lparr>ui_bridge = open_bridge ms, ui_window = new_window plain_console\<rparr>"

lemma open_desktop_wf: "\<forall>e \<in> set (events_in ms). ev_workspace e = ''w1'' \<Longrightarrow> desktop_wf (ge_console plain_gui) (open_desktop ms)"
  by (simp add: desktop_wf_def open_desktop_def open_bridge_def bridge_wf_def underway_def shows_pending_def new_window_def plain_gui_def)

definition asked_desktop :: "nat desktop" where
  "asked_desktop = ui_next plain_gui Tick_poll (open_desktop [Ui_event (parked_event ''a1'')])"

lemma asked_facts:
  "(gui_step plain_gui)\<^sup>*\<^sup>* (open_desktop [Ui_event (parked_event ''a1'')]) asked_desktop"
  "desktop_wf (ge_console plain_gui) (open_desktop [Ui_event (parked_event ''a1'')])"
  "wi_pending (ui_window asked_desktop) = Some (ev_payload (parked_event ''a1''))"
  "wi_can_approve (ui_window asked_desktop)" "wi_can_deny (ui_window asked_desktop)"
  "ui_bridge asked_desktop = open_bridge []"
proof -
  show "(gui_step plain_gui)\<^sup>*\<^sup>* (open_desktop [Ui_event (parked_event ''a1'')]) asked_desktop"
    unfolding asked_desktop_def by (rule r_into_rtranclp) (rule gui_step.intros)
  show "desktop_wf (ge_console plain_gui) (open_desktop [Ui_event (parked_event ''a1'')])"
    by (rule open_desktop_wf) (simp add: parked_event_def)
qed (simp_all add: asked_desktop_def open_desktop_def open_bridge_def poll_def drain_def drain_limit_def new_window_def
      describe_event_def parked_event_def apply_event_def set_status_def append_text_def log_activity_def)

lemma asked_request: "approval_of (ge_console plain_gui) (ev_payload (parked_event ''a1'')) = ''a1''"
  by (simp add: approval_of_def request_item_def parked_event_def str_json_def)

theorem window_decides_what_it_shows_witness:
  "wi_approval_text (ui_window (ui_next plain_gui Click_deny asked_desktop)) = nothing_waiting"
proof -
  have "br_work (ui_bridge (ui_next plain_gui Click_deny asked_desktop)) =
      br_work (ui_bridge asked_desktop) @ [(Decide_request ''a1'' False, ''decide'')]"
    using asked_facts(3,5,6) asked_request by (simp add: decide_pending_def submit_work_def open_bridge_def)
  from window_decides_what_it_shows [OF asked_facts(2,1) this] show ?thesis by blast
qed

theorem pressed_is_decided_witness:
  "\<exists>a1. get_approval ''a1'' (db (br_state (ui_bridge (ui_run plain_gui [Click_approve, Eng_turn] asked_desktop)))) = Some a1 \<and>
     ar_status a1 = Approved"
proof -
  have wf: "desktop_wf (ge_console plain_gui) asked_desktop"
    by (rule desktop_machine.reached_good [OF asked_facts(1,2)])
  obtain a where a: "get_approval ''a1'' (db (parked_state [])) = Some a" "ar_status a = Pending_decision" "ar_id a = ''a1''"
    by (simp add: parked_state_def get_approval_def)
  have bridge: "br_loop (ui_bridge asked_desktop) = Loop_running"
    "br_context (ui_bridge asked_desktop) = Some \<lparr>lc_user = ''u1'', lc_workspace = ''w1''\<rparr>" "br_work (ui_bridge asked_desktop) = []"
    "br_state (ui_bridge asked_desktop) = parked_state []"
    by (simp_all add: asked_facts(6) open_bridge_def)
  have row: "get_approval (approval_of (ge_console plain_gui) (ev_payload (parked_event ''a1''))) (db (br_state (ui_bridge asked_desktop))) = Some a"
    using a(1) by (simp add: asked_request bridge(4))
  from pressed_is_decided [OF wf asked_facts(3) bridge(1-3) row a(2) refl, of True] a(3) show ?thesis by auto
qed

theorem window_hears_in_order_witness:
  "along ui_drained plain_gui [Tick_poll] (open_desktop [Ui_event (parked_event ''a1'')]) = [Ui_event (parked_event ''a1'')]"
  using window_hears_in_order [OF asked_facts(2), of "[Tick_poll]" Tick_poll]
  by (simp add: ui_posted_def poll_def drain_def drain_limit_def open_desktop_def open_bridge_def new_window_def)

theorem second_request_hides_first_witness:
  "br_work (ui_bridge (ui_run plain_gui [Tick_poll, Click_approve, Click_approve, Click_deny]
      (open_desktop [Ui_event (parked_event ''a1''), Ui_event (parked_event ''a2'')]))) = [(Decide_request ''a2'' True, ''decide'')]"
proof -
  let ?d = "open_desktop [Ui_event (parked_event ''a1''), Ui_event (parked_event ''a2'')]"
  have "wi_polling (ui_window ?d)" "br_queue (ui_bridge ?d) = [Ui_event (parked_event ''a1''), Ui_event (parked_event ''a2'')]"
    "ev_type (parked_event ''a1'') = RUN_AWAITING_APPROVAL" "ev_type (parked_event ''a2'') = RUN_AWAITING_APPROVAL"
    "br_loop (ui_bridge ?d) = Loop_running" "br_context (ui_bridge ?d) = Some \<lparr>lc_user = ''u1'', lc_workspace = ''w1''\<rparr>"
    "br_work (ui_bridge ?d) = []"
    by (simp_all add: open_desktop_def open_bridge_def new_window_def parked_event_def)
  note hidden = second_request_hides_first [OF this refl, of plain_gui]
  have "approval_of (ge_console plain_gui) (ev_payload (parked_event ''a2'')) = ''a2''"
    by (simp add: approval_of_def request_item_def parked_event_def str_json_def)
  with hidden show ?thesis by (simp only: ui_run_simps)
qed

theorem return_key_sends_again_witness:
  "br_work (ui_bridge (ui_run plain_gui [Key_typed ''a'', Key_return, Key_typed ''b'', Key_return] (open_desktop []))) =
     [(Send_goal None ''a'', ''submit''), (Send_goal None ''b'', ''submit'')]"
proof -
  let ?d = "ui_next plain_gui (Key_typed ''a'') (open_desktop [])"
  have trimmed: "strip ''a'' = ''a''" "strip ''b'' = ''b''" by code_simp+
  have facts: "br_loop (ui_bridge ?d) = Loop_running" "br_context (ui_bridge ?d) = Some \<lparr>lc_user = ''u1'', lc_workspace = ''w1''\<rparr>"
    "br_work (ui_bridge ?d) = []" "wi_session (ui_window ?d) = None" "strip (wi_entry (ui_window ?d)) = ''a''" "strip ''b'' = ''b''"
    by (simp_all add: open_desktop_def open_bridge_def new_window_def trimmed)
  from return_key_sends_again [OF facts(1-4) _ _ refl, of "''b''" plain_gui] facts(5,6) show ?thesis by simp
qed

end
