(* ===== verification/Fanout.thy ===== *)
theory Fanout
  imports Bridge
begin

text \<open>
  \<open>RedisEventBus\<close> of \<open>events.py\<close>.  The Redis client is a record of functions of its own state; what \<open>listen\<close>
  gives is a list of messages with their type and data.  The text of an event is that of \<open>model_dump_json\<close>.
\<close>

section \<open>Events as JSON\<close>

definition event_fields :: "real \<Rightarrow> event \<Rightarrow> json_dict" where
  "event_fields moment e =
     [(''type'', JStr (event_value (ev_type e))), (''workspace_id'', JStr (ev_workspace e)), (''session_id'', opt_str (ev_session e)),
      (''run_id'', opt_str (ev_run e)), (''payload'', JObj (ev_payload e)), (''at'', JReal moment)]"

definition all_event_types :: "event_type list" where
  "all_event_types = [RUN_STARTED, RUN_DELTA, RUN_STEP, RUN_AWAITING_APPROVAL, RUN_FINISHED, APPROVAL_DECIDED, CHANGE_APPLIED,
     CHANGE_VERIFIED, CHANGE_REVERTED, DOCUMENT_INGESTED, SCHEDULE_FIRED]"

definition event_named :: "string \<Rightarrow> event_type option" where
  "event_named t = find (\<lambda>ty. event_value ty = t) all_event_types"

text \<open>A field of type \<open>str | None\<close> that defaults to \<open>None\<close>; a float as pydantic reads it.\<close>

definition maybe_text :: "string \<Rightarrow> json_dict \<Rightarrow> string option option" where
  "maybe_text k fs = (case map_of fs k of None \<Rightarrow> Some None | Some JNull \<Rightarrow> Some None | Some (JStr t) \<Rightarrow> Some (Some t) | _ \<Rightarrow> None)"

definition float_like :: "json \<Rightarrow> bool" where
  "float_like v = (case v of JReal x \<Rightarrow> True | JInt i \<Rightarrow> True | JBool b \<Rightarrow> True | JStr t \<Rightarrow> parse_float t \<noteq> None | _ \<Rightarrow> False)"

text \<open>\<open>Event.model_validate\<close>\<close>

definition event_of_json :: "json \<Rightarrow> event option" where
  "event_of_json v =
     (case v of
        JObj fs \<Rightarrow>
          (case (map_of fs ''type'', map_of fs ''workspace_id'', maybe_text ''session_id'' fs, maybe_text ''run_id'' fs,
                 case map_of fs ''payload'' of None \<Rightarrow> Some [] | Some (JObj p) \<Rightarrow> Some p | _ \<Rightarrow> None) of
             (Some (JStr ty), Some (JStr ws), Some session, Some run, Some p) \<Rightarrow>
               if (case map_of fs ''at'' of None \<Rightarrow> True | Some x \<Rightarrow> float_like x)
               then map_option (\<lambda>et. \<lparr>ev_type = et, ev_workspace = ws, ev_session = session, ev_run = run, ev_payload = p\<rparr>)
                      (event_named ty)
               else None
           | _ \<Rightarrow> None)
      | _ \<Rightarrow> None)"

section \<open>The bus over Redis\<close>

text \<open>\<open>None\<close> is an exception of the client: the queues of the process have been filled by then.\<close>

record 'r redis =
  rd_publish :: "string \<Rightarrow> string \<Rightarrow> 'r \<Rightarrow> 'r option"

definition event_channel :: "ident \<Rightarrow> string" where
  "event_channel ws = ''hoursx:events:'' @ ws"

definition fanout_publish :: "'r redis \<Rightarrow> (event \<Rightarrow> string) \<Rightarrow> event \<Rightarrow> bus \<times> 'r \<Rightarrow> bool \<times> bus \<times> 'r" where
  "fanout_publish rd encode e w =
     (case w of (b, r) \<Rightarrow>
        (case rd_publish rd (event_channel (ev_workspace e)) (encode e) r of
           None \<Rightarrow> (False, bus_publish e b, r)
         | Some r1 \<Rightarrow> (True, bus_publish e b, r1)))"

text \<open>\<open>subscribe\<close> over the messages of its channel; the flag tells whether it still listens.\<close>

fun fanout_listen :: "(string \<times> string) list \<Rightarrow> event list \<times> bool" where
  "fanout_listen [] = ([], True)"
| "fanout_listen ((kind, data) # ms) =
     (if kind \<noteq> ''message'' then fanout_listen ms
      else case Option.bind (loads data) event_of_json of
        None \<Rightarrow> ([], False)
      | Some e \<Rightarrow> (case fanout_listen ms of (es, up) \<Rightarrow> (e # es, up)))"

datatype bus_kind = Local_bus | Redis_bus string

definition build_event_bus :: "string option \<Rightarrow> bus_kind" where
  "build_event_bus url = (if truthy url then Redis_bus (the url) else Local_bus)"

section \<open>Properties\<close>

lemma event_named_value: "event_named (event_value ty) = Some ty"
  by (cases ty) (simp_all add: event_named_def all_event_types_def)

lemma maybe_text_opt: "map_of fs k = Some (opt_str x) \<Longrightarrow> maybe_text k fs = Some x"
  by (cases x) (simp_all add: maybe_text_def opt_str_def)

lemma event_roundtrip: "event_of_json (JObj (event_fields moment e)) = Some e"
proof -
  have "maybe_text ''session_id'' (event_fields moment e) = Some (ev_session e)" "maybe_text ''run_id'' (event_fields moment e) = Some (ev_run e)"
    by (rule maybe_text_opt, simp add: event_fields_def)+
  then show ?thesis by (simp add: event_of_json_def event_fields_def event_named_value float_like_def)
qed

lemma event_channel_inj: "event_channel a = event_channel b \<longleftrightarrow> a = b"
  by (simp add: event_channel_def)

text \<open>Over Redis a subscriber is given exactly the events that were published on its channel, in the order of their messages, whatever
  other messages come in between, as long as the text of an event is read back as its fields.\<close>

theorem fanout_delivers:
  assumes "\<And>e. e \<in> set es \<Longrightarrow> loads (encode e) = Some (JObj (event_fields (moment e) e))"
    and "map snd (filter (\<lambda>m. fst m = ''message'') ms) = map encode es"
  shows "fanout_listen ms = (es, True)"
  using assms
proof (induction ms arbitrary: es)
  case (Cons m ms)
  obtain kind data where m: "m = (kind, data)" by fastforce
  show ?case
  proof (cases "kind = ''message''")
    case False
    then show ?thesis using Cons.IH [OF Cons.prems(1)] Cons.prems(2) by (simp add: m)
  next
    case True
    then obtain e es1 where es: "es = e # es1" "data = encode e" using Cons.prems(2) by (cases es) (auto simp: m)
    have "fanout_listen ms = (es1, True)" using Cons.IH [of es1] Cons.prems es by (simp add: m True)
    moreover have "Option.bind (loads data) event_of_json = Some e"
      using Cons.prems(1) [of e] es event_roundtrip by simp
    ultimately show ?thesis by (simp add: m True es(1))
  qed
qed simp

text \<open>With the Redis bus nobody ever subscribes to the queues of the process: the publication to them reaches no one.\<close>

theorem fanout_local_silent:
  assumes "bs_subscribers b = (\<lambda>ws. [])" and "fanout_publish rd encode e (b, r) = (ok, b1, r1)"
  shows "b1 = b"
  using assms by (auto simp: fanout_publish_def bus_publish_def split: option.splits)

end
