(* ===== verification/Front.thy ===== *)
theory Front
  imports Access
begin

text \<open>
  The edge of a process: the error handler and the correlation of requests of \<open>api/app.py\<close>, the log lines and the
  counters of \<open>observability.py\<close>.  CORS, the mounting of the routers and the installation of log handlers are
  the framework and the standard library.
\<close>

section \<open>Answers to domain errors\<close>

record http_response =
  hr_status :: int
  hr_body :: json
  hr_headers :: "(string \<times> string) list"

definition domain_error_handler :: "hx_error \<Rightarrow> http_response" where
  "domain_error_handler e = \<lparr>hr_status = status_of (er_kind e), hr_body = JObj (as_payload e), hr_headers = []\<rparr>"

section \<open>Correlation\<close>

text \<open>
  \<open>uuid4().hex\<close> is an argument.  The middleware runs the rest of the application under the new id and puts the old
  one back whatever happens; \<open>None\<close> is an exception, which leaves the middleware without an answer.
\<close>

definition new_request_id :: "string \<Rightarrow> string" where
  "new_request_id hex = take 16 hex"

record 'w request_scope =
  rq_id :: "string option"
  rq_rest :: 'w

definition correlation_id ::
  "string \<Rightarrow> ('w request_scope \<Rightarrow> http_response option \<times> 'w request_scope) \<Rightarrow> 'w request_scope
     \<Rightarrow> http_response option \<times> 'w request_scope" where
  "correlation_id hex call_next s =
     (let rid = new_request_id hex in
      case call_next (s\<lparr>rq_id := Some rid\<rparr>) of
        (answer, s1) \<Rightarrow>
          (map_option (\<lambda>r. r\<lparr>hr_headers := AList.update ''x-request-id'' rid (hr_headers r)\<rparr>) answer, s1\<lparr>rq_id := rq_id s\<rparr>))"

section \<open>Log lines\<close>

record log_record =
  lg_time :: real
  lg_level :: string
  lg_logger :: string
  lg_message :: string
  lg_extra :: "json_dict option"
  lg_exc :: "string option"

definition log_entry :: "string option \<Rightarrow> log_record \<Rightarrow> json_dict" where
  "log_entry rid r =
     (let e0 = [(''ts'', JReal (lg_time r)), (''level'', JStr (lower (lg_level r))), (''logger'', JStr (lg_logger r)),
                (''msg'', JStr (lg_message r))];
          e1 = (if truthy rid then AList.update ''request_id'' (JStr (the rid)) e0 else e0);
          e2 = (case lg_extra r of None \<Rightarrow> e1 | Some x \<Rightarrow> fold (\<lambda>(k, v). AList.update k v) (redact x) e1)
      in (case lg_exc r of None \<Rightarrow> e2 | Some t \<Rightarrow> AList.update ''exc'' (JStr t) e2))"

definition logger_name :: "string \<Rightarrow> string" where
  "logger_name n = ''hoursx.'' @ n"

section \<open>Counters\<close>

type_synonym counters = "(string \<times> int) list"

definition incr :: "string \<Rightarrow> int \<Rightarrow> counters \<Rightarrow> counters" where
  "incr n amount c = AList.update n ((case map_of c n of None \<Rightarrow> 0 | Some v \<Rightarrow> v) + amount) c"

section \<open>Properties\<close>

text \<open>The id of a request is seen by all that runs for it, given to the client, and never outlives it.\<close>

theorem request_id_scoped:
  assumes "correlation_id hex call_next s = (answer, s1)"
  shows "rq_id s1 = rq_id s \<and>
     (\<forall>r. answer = Some r \<longrightarrow> map_of (hr_headers r) ''x-request-id'' = Some (take 16 hex)) \<and>
     (answer = None \<longleftrightarrow> fst (call_next (s\<lparr>rq_id := Some (take 16 hex)\<rparr>)) = None)"
  using assms by (auto simp: correlation_id_def new_request_id_def Let_def update_conv' split: prod.splits)

lemma redact_secret:
  "(k, v) \<in> set (redact x) \<Longrightarrow> lower k \<in> set redacted_keys \<Longrightarrow> v = JStr ''***''"
  by (induction x rule: redact.induct) (auto split: if_splits)

lemma redact_keys: "map fst (redact x) = map fst x"
  by (induction x rule: redact.induct) auto

lemma fold_update_value:
  "map_of (fold (\<lambda>(k, v). AList.update k v) xs e) k = Some v \<Longrightarrow> (k, v) \<in> set xs \<or> map_of e k = Some v"
proof (induction xs arbitrary: e)
  case (Cons x xs)
  obtain a b where x: "x = (a, b)" by fastforce
  then show ?case using Cons.IH [of "AList.update a b e"] Cons.prems by (auto simp: update_conv' split: if_splits)
qed simp

text \<open>A field with the name of a secret leaves the process as asterisks, whatever the value.\<close>

theorem log_hides_secrets:
  assumes "lower k \<in> set redacted_keys" and "map_of (log_entry rid r) k = Some v"
  shows "v = JStr ''***''"
proof -
  have other: "k \<notin> {''ts'', ''level'', ''logger'', ''msg'', ''request_id'', ''exc''}"
    using assms(1) by (auto simp: redacted_keys_def lower_def lower_char_def)
  let ?e0 = "[(''ts'', JReal (lg_time r)), (''level'', JStr (lower (lg_level r))), (''logger'', JStr (lg_logger r)), (''msg'', JStr (lg_message r))]"
  have "map_of (case lg_extra r of None \<Rightarrow> ?e0 | Some x \<Rightarrow> fold (\<lambda>(k, v). AList.update k v) (redact x) ?e0) k = Some v
      \<or> (\<exists>x. (k, v) \<in> set (redact x))"
    using assms(2) other fold_update_value
    by (fastforce simp: log_entry_def Let_def update_conv' split: option.splits if_splits)
  then show ?thesis
    using other fold_update_value [of _ ?e0 k v] redact_secret [OF _ assms(1)] by (auto split: option.splits)
qed

text \<open>Counters count: the value of a name is the sum of its increments.\<close>

lemma incr_value:
  "map_of (incr n a c) k = (if k = n then Some ((case map_of c n of None \<Rightarrow> 0 | Some v \<Rightarrow> v) + a) else map_of c k)"
  by (simp add: incr_def update_conv')

theorem counters_count:
  "map_of (fold (\<lambda>(n, a). incr n a) xs c) k =
     (if k \<in> fst ` set xs then Some ((case map_of c k of None \<Rightarrow> 0 | Some v \<Rightarrow> v) + sum_list (map snd (filter (\<lambda>x. fst x = k) xs)))
      else map_of c k)"
proof (induction xs arbitrary: c)
  case (Cons x xs)
  obtain n a where x: "x = (n, a)" by fastforce
  have "filter (\<lambda>x. fst x = k) xs = []" if "k \<notin> fst ` set xs" using that by (induction xs) auto
  then show ?case using Cons.IH [of "incr n a c"] by (auto simp: x incr_value split: option.splits)
qed simp

end
