(* ===== verification/Market.thy ===== *)
theory Market
  imports Services Ingress
begin

text \<open>
  \<open>api/routers/plugins.py\<close> and \<open>sdk/marketplace.py\<close>: the plug-ins of a deployment and the index of the marketplace.
  The HTTP client is that of the channel adapters; reading a body as an index is the validation of its model.
\<close>

record plugin_out =
  po_name :: string
  po_version :: string
  po_summary :: string
  po_tools :: "string list"
  po_source :: string

definition plugin_out_of :: "'s plugin_manifest \<Rightarrow> plugin_out" where
  "plugin_out_of m = \<lparr>po_name = pm_name m, po_version = pm_version m, po_summary = pm_summary m,
     po_tools = map (\<lambda>t. ts_name (tl_spec (pt_tool t))) (pm_tools m), po_source = ''local''\<rparr>"

text \<open>The table of installs, which no operation reads or writes.\<close>

record plugin_install =
  pi_id :: string
  pi_created_at :: int
  pi_workspace :: string
  pi_name :: string
  pi_version :: string
  pi_source :: string
  pi_granted_permissions :: "string list"
  pi_enabled :: bool

text \<open>Every request discovers the plug-ins again, which runs the modules of the directory as they are now.\<close>

definition list_loaded_plugins :: "('w \<Rightarrow> 's plugin_world \<times> 'w) \<Rightarrow> actor \<Rightarrow> (plugin_out list, 'w) handler" where
  "list_loaded_plugins look a s =
     (case look (outside s) of (world, w) \<Rightarrow> (Inr (map plugin_out_of (dr_loaded (discover_plugins world))), s\<lparr>outside := w\<rparr>))"

section \<open>The index\<close>

fun plugin_permission_value :: "plugin_permission \<Rightarrow> string" where
  "plugin_permission_value NETWORK = ''network''"
| "plugin_permission_value FILESYSTEM = ''filesystem''"
| "plugin_permission_value SHELL = ''shell''"
| "plugin_permission_value KNOWLEDGE = ''knowledge''"
| "plugin_permission_value MEMORY = ''memory''"

definition permission_named :: "string \<Rightarrow> plugin_permission option" where
  "permission_named t = find (\<lambda>p. plugin_permission_value p = t) [NETWORK, FILESYSTEM, SHELL, KNOWLEDGE, MEMORY]"

record market_entry =
  me_name :: string
  me_version :: string
  me_summary :: string
  me_author :: string
  me_source :: string
  me_sha256 :: string
  me_permissions :: "plugin_permission list"

text \<open>The fields of a model: required text, text with a default, and a list of values of the enumeration.\<close>

definition needed_text :: "string \<Rightarrow> json_dict \<Rightarrow> string option" where
  "needed_text k fs = (case map_of fs k of Some (JStr t) \<Rightarrow> Some t | _ \<Rightarrow> None)"

definition text_or_blank :: "string \<Rightarrow> json_dict \<Rightarrow> string option" where
  "text_or_blank k fs = (case map_of fs k of None \<Rightarrow> Some [] | Some (JStr t) \<Rightarrow> Some t | _ \<Rightarrow> None)"

fun all_options :: "('a \<Rightarrow> 'b option) \<Rightarrow> 'a list \<Rightarrow> 'b list option" where
  "all_options f [] = Some []"
| "all_options f (x # xs) = (case (f x, all_options f xs) of (Some y, Some ys) \<Rightarrow> Some (y # ys) | _ \<Rightarrow> None)"

definition listed :: "string \<Rightarrow> (json \<Rightarrow> 'a option) \<Rightarrow> json_dict \<Rightarrow> 'a list option" where
  "listed k f fs = (case map_of fs k of None \<Rightarrow> Some [] | Some (JList vs) \<Rightarrow> all_options f vs | _ \<Rightarrow> None)"

definition permission_of_json :: "json \<Rightarrow> plugin_permission option" where
  "permission_of_json v = (case v of JStr t \<Rightarrow> permission_named t | _ \<Rightarrow> None)"

definition market_entry_of :: "json \<Rightarrow> market_entry option" where
  "market_entry_of v =
     (case v of
        JObj fs \<Rightarrow>
          (case (needed_text ''name'' fs, needed_text ''version'' fs, text_or_blank ''summary'' fs, text_or_blank ''author'' fs,
                 needed_text ''source'' fs, text_or_blank ''sha256'' fs, listed ''permissions'' permission_of_json fs) of
             (Some n, Some ver, Some su, Some au, Some so, Some sh, Some ps) \<Rightarrow>
               Some \<lparr>me_name = n, me_version = ver, me_summary = su, me_author = au, me_source = so, me_sha256 = sh, me_permissions = ps\<rparr>
           | _ \<Rightarrow> None)
      | _ \<Rightarrow> None)"

definition market_index_of :: "json \<Rightarrow> market_entry list option" where
  "market_index_of v = (case v of JObj fs \<Rightarrow> listed ''entries'' market_entry_of fs | _ \<Rightarrow> None)"

text \<open>\<open>raise_for_status\<close> accepts the 2xx alone; \<open>None\<close> is whatever exception leaves the call.\<close>

definition fetch_marketplace_index :: "'w http \<Rightarrow> string \<Rightarrow> 'w \<Rightarrow> market_entry list option \<times> 'w" where
  "fetch_marketplace_index h url w =
     (case ht_get h url [] w of
        (Reply code (Some body), w1) \<Rightarrow> (if 200 \<le> code \<and> code \<le> 299 then market_index_of body else None, w1)
      | (_, w1) \<Rightarrow> (None, w1))"

definition list_marketplace :: "'w http \<Rightarrow> settings \<Rightarrow> actor \<Rightarrow> (market_entry list, 'w) handler" where
  "list_marketplace h cf a s =
     (if \<not> truthy (cf_marketplace_url cf)
      then (Inl (Http 404 ''no marketplace index configured (HOURSX_MARKETPLACE_INDEX_URL)''), s)
      else case fetch_marketplace_index h (the (cf_marketplace_url cf)) (outside s) of
        (None, w) \<Rightarrow> (Inl Crashed, s\<lparr>outside := w\<rparr>)
      | (Some es, w) \<Rightarrow> (Inr es, s\<lparr>outside := w\<rparr>))"

text \<open>\<open>GET /v1/plugins\<close> and \<open>GET /v1/plugins/marketplace\<close>.\<close>

definition plugins_route :: "access_env \<Rightarrow> ('w \<Rightarrow> 's plugin_world \<times> 'w) \<Rightarrow> credentials \<Rightarrow> (plugin_out list, 'w) handler" where
  "plugins_route env look = route env OBSERVE (list_loaded_plugins look)"

definition marketplace_route :: "access_env \<Rightarrow> 'w http \<Rightarrow> settings \<Rightarrow> credentials \<Rightarrow> (market_entry list, 'w) handler" where
  "marketplace_route env h cf = route env PLUGINS_MANAGE (list_marketplace h cf)"

section \<open>Properties\<close>

definition market_entry_json :: "market_entry \<Rightarrow> json" where
  "market_entry_json e = JObj [(''name'', JStr (me_name e)), (''version'', JStr (me_version e)), (''summary'', JStr (me_summary e)),
     (''author'', JStr (me_author e)), (''source'', JStr (me_source e)), (''sha256'', JStr (me_sha256 e)),
     (''permissions'', JList (map (JStr \<circ> plugin_permission_value) (me_permissions e)))]"

lemma all_options_map: "(\<And>x. x \<in> set xs \<Longrightarrow> f (g x) = Some x) \<Longrightarrow> all_options f (map g xs) = Some xs"
  by (induction xs) auto

lemma permission_named_value: "permission_named (plugin_permission_value p) = Some p"
  by (cases p) (simp_all add: permission_named_def)

lemma market_entry_roundtrip: "market_entry_of (market_entry_json e) = Some e"
  using all_options_map [of "me_permissions e" permission_of_json "JStr \<circ> plugin_permission_value"]
  by (simp add: market_entry_of_def market_entry_json_def needed_text_def text_or_blank_def listed_def permission_of_json_def
      permission_named_value)

text \<open>An index that the marketplace publishes is listed as it is, and an entry that does not fit the format rejects it all.\<close>

theorem market_lists_index:
  assumes "cf_marketplace_url cf = Some url" and "url \<noteq> []"
    and "ht_get h url [] (outside s) = (Reply 200 (Some (JObj [(''entries'', JList (map market_entry_json es))])), w)"
  shows "list_marketplace h cf a s = (Inr es, s\<lparr>outside := w\<rparr>)"
  using assms all_options_map [of es market_entry_of market_entry_json]
  by (simp add: list_marketplace_def fetch_marketplace_index_def market_index_of_def listed_def market_entry_roundtrip truthy_def)

lemma all_options_None: "x \<in> set xs \<Longrightarrow> f x = None \<Longrightarrow> all_options f xs = None"
  by (induction xs) (auto split: option.splits)

theorem market_rejects_whole:
  assumes "cf_marketplace_url cf = Some url" and "url \<noteq> []"
    and "ht_get h url [] (outside s) = (Reply code (Some (JObj [(''entries'', JList vs)])), w)"
    and "v \<in> set vs" and "market_entry_of v = None"
  shows "list_marketplace h cf a s = (Inl Crashed, s\<lparr>outside := w\<rparr>)"
  using assms all_options_None [of v vs market_entry_of]
  by (simp add: list_marketplace_def fetch_marketplace_index_def market_index_of_def listed_def truthy_def)

text \<open>Neither route writes a row, whatever the answers of the outside are.\<close>

theorem plugin_routes_read_only:
  "db (snd (plugins_route env look cd s)) = db s" "db (snd (marketplace_route env h cf cd s)) = db s"
  by (auto simp: plugins_route_def marketplace_route_def route_def list_loaded_plugins_def list_marketplace_def
      split: sum.splits prod.splits option.splits)

end
