(* ===== verification/Arguments.thy ===== *)
theory Arguments
  imports Prelude
begin

text \<open>
  \<open>cli/main.py\<close>: the commands of \<open>hoursx\<close> as a table, and how \<open>argparse\<close> (Python 3.11) reads a list of words with it.  The
  bare \<open>--\<close> is left out: the words are those before it.  Help and version texts are not printed.
\<close>

section \<open>The table of commands\<close>

datatype option_kind = Help_flag | Flag | Wants_text string | Wants_number int | Wants_choice string "string list" | Needs_text

record option_spec =
  op_names :: "string list"
  op_dest :: string
  op_kind :: option_kind

record leaf_spec =
  lf_positionals :: "string list"
  lf_options :: "option_spec list"

datatype arg_parser = Leaf leaf_spec | Branch "option_spec list" "(string \<times> arg_parser) list"

definition help_option :: option_spec where
  "help_option = \<lparr>op_names = [''-h'', ''--help''], op_dest = ''help'', op_kind = Help_flag\<rparr>"

definition version_option :: option_spec where
  "version_option = \<lparr>op_names = [''--version''], op_dest = ''version'', op_kind = Help_flag\<rparr>"

definition option_arg :: "string \<Rightarrow> string \<Rightarrow> option_kind \<Rightarrow> option_spec" where
  "option_arg n dest k = \<lparr>op_names = [n], op_dest = dest, op_kind = k\<rparr>"

definition leaf :: "string list \<Rightarrow> option_spec list \<Rightarrow> arg_parser" where
  "leaf ps os = Leaf \<lparr>lf_positionals = ps, lf_options = help_option # os\<rparr>"

definition group :: "(string \<times> arg_parser) list \<Rightarrow> arg_parser" where
  "group ps = Branch [help_option] ps"

definition limit_option :: "int \<Rightarrow> option_spec" where
  "limit_option n = option_arg ''--limit'' ''limit'' (Wants_number n)"

definition server_commands :: "(string \<times> arg_parser) list" where
  "server_commands =
     [(''serve'', leaf [] []), (''worker'', leaf [] []), (''db-init'', leaf [] []),
      (''create-user'', leaf [] [option_arg ''--email'' ''email'' Needs_text, option_arg ''--password'' ''password'' Needs_text,
         option_arg ''--name'' ''name'' Needs_text])]"

definition agent_commands :: "(string \<times> arg_parser) list" where
  "agent_commands =
     [(''agent'', group
        [(''run'', leaf [''goal''] [option_arg ''--agent'' ''agent'' (Wants_text ''operator''), option_arg ''--quiet'' ''quiet'' Flag]),
         (''list'', leaf [] []),
         (''create'', leaf [''handle''] [option_arg ''--title'' ''title'' (Wants_text []), option_arg ''--instructions'' ''instructions'' (Wants_text []),
            option_arg ''--model'' ''model'' (Wants_text ''deep''), option_arg ''--tools'' ''tools'' (Wants_text [])])])]"

definition run_commands :: "(string \<times> arg_parser) list" where
  "run_commands =
     [(''run'', group [(''list'', leaf [] [limit_option 20]), (''show'', leaf [''run_id''] []), (''cancel'', leaf [''run_id''] [])])]"

definition approval_commands :: "(string \<times> arg_parser) list" where
  "approval_commands =
     [(''approvals'', group [(''list'', leaf [] []), (''approve'', leaf [''approval_id''] []), (''deny'', leaf [''approval_id''] [])])]"

definition knowledge_commands :: "(string \<times> arg_parser) list" where
  "knowledge_commands =
     [(''knowledge'', group [(''add'', leaf [''path''] [option_arg ''--title'' ''title'' (Wants_text [])]),
        (''search'', leaf [''query''] [limit_option 5])])]"

definition system_commands :: "(string \<times> arg_parser) list" where
  "system_commands =
     [(''system'', group
        [(''probe'', leaf [] [\<lparr>op_names = [''--verbose'', ''-v''], op_dest = ''verbose'', op_kind = Flag\<rparr>]),
         (''processes'', leaf [] [limit_option 25, option_arg ''--sort'' ''sort'' (Wants_choice ''rss'' [''rss'', ''pid''])]),
         (''kernel-log'', leaf [] [option_arg ''--lines'' ''lines'' (Wants_number 80)])])]"

definition change_commands :: "(string \<times> arg_parser) list" where
  "change_commands =
     [(''changes'', group [(''list'', leaf [] [limit_option 25]), (''revert'', leaf [''change_id''] []), (''confirm'', leaf [''change_id''] [])])]"

definition channel_commands :: "(string \<times> arg_parser) list" where
  "channel_commands =
     [(''channels'', group [(''list'', leaf [] [limit_option 25]), (''register'', leaf [] [option_arg ''--url'' ''url'' (Wants_text [])]),
        (''dispatch'', leaf [] [])])]"

definition commands :: arg_parser where
  "commands = Branch [help_option, version_option]
     (server_commands @ agent_commands @ run_commands @ approval_commands @ knowledge_commands @ system_commands @ change_commands @
      channel_commands @
      [(''chat'', leaf [] [option_arg ''--agent'' ''agent'' (Wants_text ''operator'')]), (''sessions'', leaf [] [limit_option 20]),
       (''doctor'', leaf [] []), (''gui'', leaf [] [])])"

section \<open>Reading one word\<close>

text \<open>A word is a positional, an option with what follows its \<open>=\<close> (or its letter), an option nobody knows, or ambiguous.\<close>

datatype word_class = Positional | Known option_spec string "string option" | Unknown | Ambiguous

definition option_entries :: "option_spec list \<Rightarrow> (string \<times> option_spec) list" where
  "option_entries os = concat (map (\<lambda>p. map (\<lambda>n. (n, p)) (op_names p)) os)"

text \<open>\<open>str.split('=', 1)\<close>\<close>

definition split_equals :: "string \<Rightarrow> string \<times> string option" where
  "split_equals t = (takeWhile (\<lambda>c. c \<noteq> CHR ''='') t,
     case dropWhile (\<lambda>c. c \<noteq> CHR ''='') t of [] \<Rightarrow> None | c # cs \<Rightarrow> Some cs)"

text \<open>\<open>_get_option_tuples\<close>: abbreviations of long options, and letters with something attached.\<close>

definition option_tuples :: "(string \<times> option_spec) list \<Rightarrow> string \<Rightarrow> (option_spec \<times> string \<times> string option) list" where
  "option_tuples entries t =
     (if starts_with ''--'' t
      then (case split_equals t of
              (part, explicit) \<Rightarrow> map (\<lambda>(n, p). (p, n, explicit)) (filter (\<lambda>(n, p). starts_with part n) entries))
      else map (\<lambda>(n, p). if n = take 2 t then (p, n, Some (drop 2 t)) else (p, n, None))
             (filter (\<lambda>(n, p). n = take 2 t \<or> starts_with t n) entries))"

text \<open>\<open>^-\d+$|^-\d*\.\d+$\<close>\<close>

definition negative_number :: "string \<Rightarrow> bool" where
  "negative_number t =
     (case before_newline t of
        [] \<Rightarrow> False
      | c # cs \<Rightarrow> c = CHR ''-'' \<and>
          (case dropWhile is_digit cs of
             [] \<Rightarrow> cs \<noteq> []
           | d # ds \<Rightarrow> d = CHR ''.'' \<and> ds \<noteq> [] \<and> list_all is_digit ds))"

definition classify_word :: "option_spec list \<Rightarrow> string \<Rightarrow> word_class" where
  "classify_word os t =
     (let entries = option_entries os in
      if t = [] \<or> hd t \<noteq> CHR ''-'' then Positional
      else case map_of entries t of
        Some p \<Rightarrow> Known p t None
      | None \<Rightarrow>
          if length t = 1 then Positional
          else case split_equals t of (n, explicit) \<Rightarrow>
            (case (explicit, map_of entries n) of
               (Some x, Some p) \<Rightarrow> Known p n (Some x)
             | _ \<Rightarrow>
                 (case option_tuples entries t of
                    [(p, m, x)] \<Rightarrow> Known p m x
                  | [] \<Rightarrow> if negative_number t then Positional
                           else if CHR '' '' \<in> set t then Positional else Unknown
                  | _ \<Rightarrow> Ambiguous)))"

section \<open>Reading a command line\<close>

datatype arg_value = Text_arg string | Number_arg int | Flag_arg bool

type_synonym arg_values = "(string \<times> arg_value) list"

text \<open>The end of a reading: the program stops with a status, or a command is called with its values.\<close>

datatype parse_end = Stop int | Command "string list" arg_values

definition read_value :: "option_kind \<Rightarrow> string \<Rightarrow> arg_value option" where
  "read_value k t =
     (case k of
        Wants_number n \<Rightarrow> map_option Number_arg (parse_int t)
      | Wants_choice d cs \<Rightarrow> if t \<in> set cs then Some (Text_arg t) else None
      | _ \<Rightarrow> Some (Text_arg t))"

definition takes_value :: "option_kind \<Rightarrow> bool" where
  "takes_value k = (k \<noteq> Help_flag \<and> k \<noteq> Flag)"

text \<open>
  The letters attached to a letter, each an option without a value; the flag says whether the help text is asked for.
  \<open>None\<close> is an ignored explicit argument.
\<close>

fun letter_cluster :: "(string \<times> option_spec) list \<Rightarrow> string \<Rightarrow> option_spec list option" where
  "letter_cluster entries [] = Some []"
| "letter_cluster entries (c # cs) =
     (case map_of entries [CHR ''-'', c] of
        None \<Rightarrow> None
      | Some p \<Rightarrow> if takes_value (op_kind p) then None else map_option ((#) p) (letter_cluster entries cs))"

datatype option_effect = Refused_option | Help_wanted | Flags_set "string list"

fun flag_effects :: "option_spec list \<Rightarrow> string list \<Rightarrow> option_effect" where
  "flag_effects [] ds = Flags_set ds"
| "flag_effects (p # ps) ds = (if op_kind p = Help_flag then Help_wanted else flag_effects ps (op_dest p # ds))"

definition flag_option :: "(string \<times> option_spec) list \<Rightarrow> option_spec \<Rightarrow> string \<Rightarrow> string option \<Rightarrow> option_effect" where
  "flag_option entries p n explicit =
     (case explicit of
        None \<Rightarrow> flag_effects [p] []
      | Some x \<Rightarrow>
          if x = [] \<or> starts_with ''--'' n then Refused_option
          else (case letter_cluster entries x of None \<Rightarrow> Refused_option | Some ps \<Rightarrow> flag_effects (p # ps) []))"

definition set_arg :: "string \<Rightarrow> arg_value \<Rightarrow> arg_values \<Rightarrow> arg_values" where
  "set_arg k v vs = AList.update k v vs"

definition default_values :: "option_spec list \<Rightarrow> arg_values" where
  "default_values os = concat (map (\<lambda>p. case op_kind p of
       Flag \<Rightarrow> [(op_dest p, Flag_arg False)] | Wants_text t \<Rightarrow> [(op_dest p, Text_arg t)]
     | Wants_number n \<Rightarrow> [(op_dest p, Number_arg n)] | Wants_choice t cs \<Rightarrow> [(op_dest p, Text_arg t)]
     | _ \<Rightarrow> []) os)"

text \<open>
  The words of a command after their classes are known: the positionals still wanted, the values so far and whether a
  word was left over.  \<open>Inl\<close> is the status the program stops with.
\<close>

fun read_leaf :: "option_spec list \<Rightarrow> string list \<Rightarrow> arg_values \<Rightarrow> bool \<Rightarrow> string list \<Rightarrow> int + string list \<times> arg_values \<times> bool" where
  "read_leaf os wanted vs extra [] = Inr (wanted, vs, extra)"
| "read_leaf os wanted vs extra (t # ts) =
     (case classify_word os t of
        Positional \<Rightarrow>
          (case wanted of [] \<Rightarrow> read_leaf os [] vs True ts | k # ks \<Rightarrow> read_leaf os ks (set_arg k (Text_arg t) vs) extra ts)
      | Unknown \<Rightarrow> read_leaf os wanted vs True ts
      | Ambiguous \<Rightarrow> Inl 2
      | Known p n explicit \<Rightarrow>
          if takes_value (op_kind p) then
            (case explicit of
               Some x \<Rightarrow>
                 (case read_value (op_kind p) x of None \<Rightarrow> Inl 2 | Some v \<Rightarrow> read_leaf os wanted (set_arg (op_dest p) v vs) extra ts)
             | None \<Rightarrow>
                 (case ts of
                    [] \<Rightarrow> Inl 2
                  | x # rest \<Rightarrow>
                      if classify_word os x \<noteq> Positional then Inl 2
                      else (case read_value (op_kind p) x of
                              None \<Rightarrow> Inl 2 | Some v \<Rightarrow> read_leaf os wanted (set_arg (op_dest p) v vs) extra rest)))
          else (case flag_option (option_entries os) p n explicit of
                  Refused_option \<Rightarrow> Inl 2
                | Help_wanted \<Rightarrow> Inl 0
                | Flags_set ds \<Rightarrow> read_leaf os wanted (fold (\<lambda>d. set_arg d (Flag_arg True)) ds vs) extra ts))"

definition parse_leaf :: "leaf_spec \<Rightarrow> string list \<Rightarrow> string list \<Rightarrow> bool \<Rightarrow> parse_end" where
  "parse_leaf lf path ts extra =
     (let os = lf_options lf in
      if \<exists>t \<in> set ts. classify_word os t = Ambiguous then Stop 2
      else case read_leaf os (lf_positionals lf) (default_values os) extra ts of
        Inl code \<Rightarrow> Stop code
      | Inr (wanted, vs, left_over) \<Rightarrow>
          if wanted \<noteq> [] \<or> left_over \<or> (\<exists>p \<in> set os. op_kind p = Needs_text \<and> map_of vs (op_dest p) = None)
          then Stop 2 else Command path vs)"

text \<open>A group takes its options up to the first positional, which names the command that reads the rest.\<close>

fun parse_words :: "arg_parser \<Rightarrow> string list \<Rightarrow> bool \<Rightarrow> string list \<Rightarrow> parse_end"
  and parse_group :: "option_spec list \<Rightarrow> (string \<times> arg_parser) list \<Rightarrow> string list \<Rightarrow> bool \<Rightarrow> string list \<Rightarrow> parse_end" where
  "parse_words (Leaf lf) path extra ts = parse_leaf lf path ts extra"
| "parse_words (Branch os subs) path extra ts =
     (if \<exists>t \<in> set ts. classify_word os t = Ambiguous then Stop 2 else parse_group os subs path extra ts)"
| "parse_group os subs path extra [] = Stop 2"
| "parse_group os subs path extra (t # ts) =
     (case classify_word os t of
        Positional \<Rightarrow>
          (case map_of subs t of None \<Rightarrow> Stop 2 | Some q \<Rightarrow> parse_words q (path @ [t]) extra ts)
      | Unknown \<Rightarrow> parse_group os subs path True ts
      | Ambiguous \<Rightarrow> Stop 2
      | Known p n explicit \<Rightarrow>
          (case flag_option (option_entries os) p n explicit of
             Refused_option \<Rightarrow> Stop 2 | Help_wanted \<Rightarrow> Stop 0 | Flags_set ds \<Rightarrow> parse_group os subs path extra ts))"

definition parse_args :: "string list \<Rightarrow> parse_end" where
  "parse_args ts = parse_words commands [] False ts"

section \<open>What a command is given\<close>

fun leaf_at :: "arg_parser \<Rightarrow> string list \<Rightarrow> leaf_spec option" where
  "leaf_at (Leaf lf) [] = Some lf"
| "leaf_at (Branch os subs) (n # ns) = (case map_of subs n of None \<Rightarrow> None | Some q \<Rightarrow> leaf_at q ns)"
| "leaf_at q ns = None"

definition value_fits :: "option_kind \<Rightarrow> arg_value \<Rightarrow> bool" where
  "value_fits k v =
     (case k of
        Help_flag \<Rightarrow> False
      | Flag \<Rightarrow> (\<exists>b. v = Flag_arg b)
      | Wants_number d \<Rightarrow> (\<exists>n. v = Number_arg n)
      | Wants_choice d cs \<Rightarrow> (\<exists>t \<in> set cs. v = Text_arg t)
      | _ \<Rightarrow> (\<exists>t. v = Text_arg t))"

definition leaf_fits :: "leaf_spec \<Rightarrow> arg_values \<Rightarrow> bool" where
  "leaf_fits lf vs =
     ((\<forall>k \<in> set (lf_positionals lf). \<exists>t. map_of vs k = Some (Text_arg t)) \<and>
      (\<forall>p \<in> set (lf_options lf). op_kind p \<noteq> Help_flag \<longrightarrow> (\<exists>v. map_of vs (op_dest p) = Some v \<and> value_fits (op_kind p) v)))"

text \<open>No two values of a command share a name, and the default of a choice is one of its values.\<close>

definition leaf_wf :: "leaf_spec \<Rightarrow> bool" where
  "leaf_wf lf = (distinct (lf_positionals lf @ map op_dest (lf_options lf)) \<and>
     list_all (\<lambda>p. case op_kind p of Wants_choice d cs \<Rightarrow> d \<in> set cs | _ \<Rightarrow> True) (lf_options lf))"

text \<open>The values on the way: options have fitting values, and so have the positionals that are not wanted any more.\<close>

definition so_far :: "leaf_spec \<Rightarrow> string list \<Rightarrow> arg_values \<Rightarrow> bool" where
  "so_far lf wanted vs =
     (set wanted \<subseteq> set (lf_positionals lf) \<and>
      (\<forall>k \<in> set (lf_positionals lf) - set wanted. \<exists>t. map_of vs k = Some (Text_arg t)) \<and>
      (\<forall>p \<in> set (lf_options lf).
         (case map_of vs (op_dest p) of None \<Rightarrow> op_kind p \<in> {Help_flag, Needs_text} | Some v \<Rightarrow> value_fits (op_kind p) v)))"

lemma set_arg_value [simp]: "map_of (set_arg k v vs) j = (if j = k then Some v else map_of vs j)"
  by (simp add: set_arg_def update_conv')

lemma entry_member: "map_of (option_entries os) n = Some p \<Longrightarrow> p \<in> set os"
  by (auto simp: option_entries_def dest: map_of_SomeD)

lemma tuple_member: "(p, n, x) \<in> set (option_tuples (option_entries os) t) \<Longrightarrow> p \<in> set os"
  by (auto simp: option_tuples_def option_entries_def split: prod.splits if_splits)

lemma known_member:
  assumes "classify_word os t = Known p n x"
  shows "p \<in> set os"
proof -
  consider "map_of (option_entries os) t = Some p" | m where "map_of (option_entries os) m = Some p"
    | m y where "option_tuples (option_entries os) t = [(p, m, y)]"
    using assms by (auto simp: classify_word_def Let_def split: if_splits option.splits prod.splits list.splits)
  then show ?thesis using entry_member tuple_member [of p _ _ os t] by cases auto
qed

lemma cluster_members:
  "letter_cluster (option_entries os) cs = Some ps \<Longrightarrow> p \<in> set ps \<Longrightarrow> p \<in> set os \<and> \<not> takes_value (op_kind p)"
  by (induction cs arbitrary: ps) (auto split: option.splits if_splits dest: entry_member)

lemma flag_effects_dests:
  "flag_effects ps ds0 = Flags_set ds \<Longrightarrow> (\<And>p. p \<in> set ps \<Longrightarrow> p \<in> set os \<and> \<not> takes_value (op_kind p)) \<Longrightarrow>
   d \<in> set ds \<Longrightarrow> d \<in> set ds0 \<or> (\<exists>p \<in> set os. op_dest p = d \<and> op_kind p = Flag)"
proof (induction ps ds0 rule: flag_effects.induct)
  case (2 p ps ds1)
  have "op_kind p = Flag" if "op_kind p \<noteq> Help_flag" using 2(3) [of p] that by (simp add: takes_value_def)
  then show ?case using 2 by (auto split: if_splits)
qed simp

lemma flag_option_dests:
  assumes "flag_option (option_entries os) p n x = Flags_set ds" and "p \<in> set os" and "\<not> takes_value (op_kind p)" and "d \<in> set ds"
  shows "\<exists>q \<in> set os. op_dest q = d \<and> op_kind q = Flag"
proof (cases x)
  case None
  then have "flag_effects [p] [] = Flags_set ds" using assms(1) by (simp add: flag_option_def)
  then show ?thesis using flag_effects_dests [of "[p]" "[]" ds os d] assms(2-4) by auto
next
  case (Some t)
  then obtain ps where ps: "letter_cluster (option_entries os) t = Some ps" "flag_effects (p # ps) [] = Flags_set ds"
    using assms(1) by (auto simp: flag_option_def split: if_splits option.splits)
  have "\<And>q. q \<in> set (p # ps) \<Longrightarrow> q \<in> set os \<and> \<not> takes_value (op_kind q)"
    using cluster_members [OF ps(1)] assms(2,3) by auto
  then show ?thesis using flag_effects_dests [OF ps(2)] assms(4) by auto
qed

lemma read_value_fits: "takes_value k \<Longrightarrow> read_value k t = Some v \<Longrightarrow> value_fits k v"
  by (auto simp: read_value_def value_fits_def takes_value_def split: option_kind.splits if_splits)

lemma option_unique:
  assumes "leaf_wf lf" and "p \<in> set (lf_options lf)" and "q \<in> set (lf_options lf)" and "op_dest p = op_dest q"
  shows "p = q"
  using assms by (auto simp: leaf_wf_def distinct_map dest: inj_onD)

lemma option_not_positional: "leaf_wf lf \<Longrightarrow> p \<in> set (lf_options lf) \<Longrightarrow> op_dest p \<notin> set (lf_positionals lf)"
  by (auto simp: leaf_wf_def)

lemma so_far_option:
  assumes "leaf_wf lf" and "so_far lf wanted vs" and "p \<in> set (lf_options lf)" and "value_fits (op_kind p) v"
  shows "so_far lf wanted (set_arg (op_dest p) v vs)"
  using assms option_unique [OF assms(1) _ assms(3)] option_not_positional [OF assms(1,3)] by (auto simp: so_far_def)

lemma so_far_positional:
  assumes "leaf_wf lf" and "so_far lf (k # ks) vs"
  shows "so_far lf ks (set_arg k (Text_arg t) vs)"
  using assms option_not_positional [OF assms(1)] by (auto simp: so_far_def)

lemma so_far_flags:
  assumes "leaf_wf lf" and "so_far lf wanted vs" and "\<And>d. d \<in> set ds \<Longrightarrow> \<exists>q \<in> set (lf_options lf). op_dest q = d \<and> op_kind q = Flag"
  shows "so_far lf wanted (fold (\<lambda>d. set_arg d (Flag_arg True)) ds vs)"
  using assms(2,3)
proof (induction ds arbitrary: vs)
  case (Cons d ds)
  obtain q where q: "q \<in> set (lf_options lf)" "op_dest q = d" "op_kind q = Flag" using Cons.prems(2) [of d] by auto
  have "value_fits (op_kind q) (Flag_arg True)" by (auto simp: q(3) value_fits_def)
  then have "so_far lf wanted (set_arg d (Flag_arg True) vs)"
    using so_far_option [OF assms(1) Cons.prems(1) q(1)] unfolding q(2) by blast
  then show ?case using Cons.IH Cons.prems(2) by simp
qed simp

lemma read_leaf_so_far:
  "read_leaf (lf_options lf) wanted vs extra ts = Inr (wanted1, vs1, extra1) \<Longrightarrow> leaf_wf lf \<Longrightarrow> so_far lf wanted vs \<Longrightarrow>
   so_far lf wanted1 vs1"
proof (induction "lf_options lf" wanted vs extra ts rule: read_leaf.induct)
  case (2 wanted vs extra t ts)
  show ?case
  proof (cases "classify_word (lf_options lf) t")
    case Positional
    show ?thesis
    proof (cases wanted)
      case Nil
      then show ?thesis using 2(1) Positional 2(7-9) by simp
    next
      case (Cons k ks)
      then show ?thesis using 2(2) Positional 2(7-9) so_far_positional [OF 2(8)] by simp
    qed
  next
    case Unknown
    then show ?thesis using 2(6-9) by simp
  next
    case Ambiguous
    then show ?thesis using 2(7) by simp
  next
    case (Known p n explicit)
    note member = known_member [OF Known]
    show ?thesis
    proof (cases "takes_value (op_kind p)")
      case True
      show ?thesis
      proof (cases explicit)
        case None
        then obtain x rest v where x: "ts = x # rest" "classify_word (lf_options lf) x = Positional" "read_value (op_kind p) x = Some v"
          using 2(7) Known True by (auto split: list.splits if_splits option.splits)
        then show ?thesis
          using 2(3) [OF Known True None x(1) _ x(3)] 2(7-9) Known True None
            so_far_option [OF 2(8,9) member] read_value_fits [OF True x(3)] by simp
      next
        case (Some y)
        then obtain v where v: "read_value (op_kind p) y = Some v" using 2(7) Known True by (auto split: option.splits)
        then show ?thesis
          using 2(4) [OF Known True Some v] 2(7-9) Known True Some
            so_far_option [OF 2(8,9) member] read_value_fits [OF True v] by simp
      qed
    next
      case False
      then obtain ds where ds: "flag_option (option_entries (lf_options lf)) p n explicit = Flags_set ds"
        using 2(7) Known by (auto split: option_effect.splits)
      have "\<And>d. d \<in> set ds \<Longrightarrow> \<exists>q \<in> set (lf_options lf). op_dest q = d \<and> op_kind q = Flag"
        using flag_option_dests [OF ds member False] .
      then show ?thesis using 2(5) [OF Known False ds] 2(7-9) Known False ds so_far_flags [OF 2(8,9)] by simp
    qed
  qed
qed simp

lemma default_value:
  assumes "distinct (map op_dest os)" and "p \<in> set os"
  shows "map_of (default_values os) (op_dest p) =
     (case op_kind p of Flag \<Rightarrow> Some (Flag_arg False) | Wants_text t \<Rightarrow> Some (Text_arg t) | Wants_number n \<Rightarrow> Some (Number_arg n)
      | Wants_choice t cs \<Rightarrow> Some (Text_arg t) | _ \<Rightarrow> None)"
proof -
  have other: "map_of (default_values os) d = None" if "d \<notin> op_dest ` set os" for d and os :: "option_spec list"
    using that by (induction os) (auto simp: default_values_def split: option_kind.splits)
  show ?thesis using assms
  proof (induction os)
    case (Cons q os)
    have split: "default_values (q # os) = default_values [q] @ default_values os" by (simp add: default_values_def)
    show ?case
    proof (cases "p = q")
      case True
      then have "op_dest p \<notin> op_dest ` set os" using Cons.prems by auto
      then show ?thesis unfolding split using other [of "op_dest p" os] True
        by (auto simp: default_values_def split: option_kind.splits)
    next
      case False
      then have "p \<in> set os" "op_dest p \<noteq> op_dest q" using Cons.prems by (auto simp: image_iff)
      then show ?thesis unfolding split using Cons other [of "op_dest p" "[q]"] by (auto simp: map_add_def)
    qed
  qed simp
qed

lemma defaults_so_far:
  assumes "leaf_wf lf"
  shows "so_far lf (lf_positionals lf) (default_values (lf_options lf))"
proof -
  have "distinct (map op_dest (lf_options lf))" using assms by (simp add: leaf_wf_def)
  moreover have "d \<in> set cs" if "p \<in> set (lf_options lf)" "op_kind p = Wants_choice d cs" for p d cs
    using assms that by (auto simp: leaf_wf_def list_all_iff split: option_kind.splits)
  ultimately show ?thesis
    by (auto simp: so_far_def default_value value_fits_def split: option_kind.splits option.splits)
qed

lemma parse_leaf_fits:
  assumes "leaf_wf lf" and "parse_leaf lf path ts extra = Command path1 vs"
  shows "path1 = path \<and> leaf_fits lf vs"
proof -
  obtain extra1 where read: "read_leaf (lf_options lf) (lf_positionals lf) (default_values (lf_options lf)) extra ts = Inr ([], vs, extra1)"
    and needs: "\<forall>p \<in> set (lf_options lf). op_kind p = Needs_text \<longrightarrow> map_of vs (op_dest p) \<noteq> None" and path: "path1 = path"
    using assms(2) by (auto simp: parse_leaf_def Let_def split: if_splits sum.splits prod.splits)
  have "so_far lf [] vs" using read_leaf_so_far [OF read assms(1) defaults_so_far [OF assms(1)]] .
  then show ?thesis using needs path by (fastforce simp: so_far_def leaf_fits_def split: option.splits)
qed

fun leaves :: "arg_parser \<Rightarrow> leaf_spec list" and group_leaves :: "(string \<times> arg_parser) list \<Rightarrow> leaf_spec list" where
  "leaves (Leaf lf) = [lf]"
| "leaves (Branch os subs) = group_leaves subs"
| "group_leaves [] = []"
| "group_leaves ((n, q) # subs) = leaves q @ group_leaves subs"

lemma group_leaves_member: "map_of subs n = Some q \<Longrightarrow> set (leaves q) \<subseteq> set (group_leaves subs)"
  by (induction subs) (auto split: if_splits)

lemma parse_words_fits:
  "parse_words q path extra ts = Command path1 vs \<Longrightarrow> list_all leaf_wf (leaves q) \<Longrightarrow>
     \<exists>rest lf. path1 = path @ rest \<and> leaf_at q rest = Some lf \<and> leaf_fits lf vs"
  "parse_group os subs path extra ts = Command path1 vs \<Longrightarrow> list_all leaf_wf (group_leaves subs) \<Longrightarrow>
     \<exists>rest lf. path1 = path @ rest \<and> leaf_at (Branch os subs) rest = Some lf \<and> leaf_fits lf vs"
proof (induction q path extra ts and os subs path extra ts rule: parse_words_parse_group.induct)
  case (1 lf path extra ts)
  then show ?case using parse_leaf_fits [of lf path ts extra path1 vs] by (intro exI [of _ "[]"] exI [of _ lf]) simp
next
  case (2 os subs path extra ts)
  then show ?case by (simp split: if_splits)
next
  case (4 os subs path extra t ts)
  show ?case
  proof (cases "classify_word os t")
    case Positional
    then obtain q where q: "map_of subs t = Some q" using 4(4) by (auto split: option.splits)
    have "list_all leaf_wf (leaves q)" using 4(5) group_leaves_member [OF q] by (auto simp: list_all_iff)
    then obtain rest lf where "path1 = (path @ [t]) @ rest" "leaf_at q rest = Some lf" "leaf_fits lf vs"
      using 4(1) [OF Positional q] 4(4) Positional q by auto
    then show ?thesis using q by (intro exI [of _ "t # rest"] exI [of _ lf]) simp
  next
    case Unknown
    then show ?thesis using 4(3-5) by simp
  next
    case Ambiguous
    then show ?thesis using 4(4) by simp
  next
    case (Known p n explicit)
    then show ?thesis using 4(2) [OF Known] 4(4,5) by (auto split: option_effect.splits)
  qed
qed simp

lemma commands_wf: "list_all leaf_wf (leaves commands)"
  by (simp add: commands_def server_commands_def agent_commands_def run_commands_def approval_commands_def knowledge_commands_def
      system_commands_def change_commands_def channel_commands_def group_def leaf_def limit_option_def option_arg_def leaf_wf_def
      help_option_def)

text \<open>A command line that is accepted names a command of the table, and its function is given a value of the declared kind for
  every positional and every option: numbers are numbers, a choice is one of its values, required options are there.\<close>

theorem parsed_command_complete:
  assumes "parse_args ts = Command path vs"
  shows "\<exists>lf. leaf_at commands path = Some lf \<and> leaf_fits lf vs"
  using parse_words_fits(1) [OF assms [unfolded parse_args_def] commands_wf] by auto

theorem parsed_command_complete_witness:
  "\<exists>lf. leaf_at commands [''system'', ''processes''] = Some lf \<and>
     leaf_fits lf [(''limit'', Number_arg (-5)), (''sort'', Text_arg ''pid'')]"
proof -
  have "parse_args [''system'', ''processes'', ''--so=pid'', ''--limit'', ''-5''] =
      Command [''system'', ''processes''] [(''limit'', Number_arg (-5)), (''sort'', Text_arg ''pid'')]" by code_simp
  from parsed_command_complete [OF this] show ?thesis .
qed

text \<open>Otherwise the program stops, with 0 after a help text and with 2 after an error.\<close>

lemma read_leaf_stops: "read_leaf os wanted vs extra ts = Inl code \<Longrightarrow> code \<in> {0, 2}"
  by (induction os wanted vs extra ts rule: read_leaf.induct)
    (auto split: word_class.splits list.splits if_splits option.splits option_effect.splits)

lemma parse_words_stops:
  "parse_words q path extra ts = Stop code \<Longrightarrow> code \<in> {0, 2}"
  "parse_group os subs path extra ts = Stop code \<Longrightarrow> code \<in> {0, 2}"
  by (induction q path extra ts and os subs path extra ts rule: parse_words_parse_group.induct)
    (auto simp: parse_leaf_def Let_def split: if_splits sum.splits prod.splits word_class.splits option.splits option_effect.splits
      dest: read_leaf_stops)

theorem stops_with_0_or_2:
  assumes "parse_args ts = Stop code"
  shows "code \<in> {0, 2}"
  using parse_words_stops(1) [OF assms [unfolded parse_args_def]] .

end
