(* ===== verification/Daemon.thy ===== *)
theory Daemon
  imports Host_Ops "HOL-Library.Word"
begin

text \<open>
  \<open>native/src\<close>: \<open>hoursx-sysd\<close>, the privileged helper that the client of \<open>system/helper.py\<close> talks to.  A request is
  one line; the daemon reads it, classifies it on its own, acts on the kernel and answers with one line.  The kernel
  is a record of functions of the host; what goes to syslog is a list.
\<close>

section \<open>Policy (\<open>policy.cpp\<close>)\<close>

datatype verdict = Allow | Refuse string

definition writable_prefixes :: "string list" where
  "writable_prefixes =
     [''net.core.'', ''net.ipv4.tcp_'', ''net.ipv4.ip_local_port_range'', ''net.netfilter.nf_conntrack_max'',
      ''vm.swappiness'', ''vm.dirty_ratio'', ''vm.dirty_background_ratio'', ''vm.vfs_cache_pressure'',
      ''vm.max_map_count'', ''fs.file-max'', ''fs.inotify.'', ''kernel.pid_max'', ''net.ipv4.ip_forward'']"

definition refused_keys :: "(string \<times> string) list" where
  "refused_keys =
     [(''kernel.core_pattern'', ''executed by the kernel on crash; a known root-escalation vector''),
      (''kernel.modules_disabled'', ''one-way switch that cannot be undone without a reboot''),
      (''kernel.randomize_va_space'', ''disabling ASLR removes a core exploit mitigation''),
      (''kernel.sysrq'', ''exposes direct kernel commands including immediate reboot''),
      (''kernel.kptr_restrict'', ''leaks kernel pointers to userspace and defeats KASLR''),
      (''kernel.unprivileged_bpf_disabled'',
         ''re-enabling unprivileged BPF is a documented privilege-escalation surface''),
      (''kernel.dmesg_restrict'', ''weakens kernel log access control''),
      (''kernel.ftrace_enabled'', ''kernel tracing control is not agent-appropriate'')]"

text \<open>The numbers of the signals are those of Linux.\<close>

definition daemon_signals :: "int list" where
  "daemon_signals = [15, 2, 1, 10, 12, 9, 19, 18]"

definition critical_units :: "string list" where
  "critical_units = [''sshd'', ''ssh'', ''systemd-journald'', ''systemd-logind'', ''dbus'', ''networking'', ''systemd-networkd'',
     ''NetworkManager'']"

definition read_actions :: "string list" where
  "read_actions = [''status'', ''is-active'', ''is-enabled'', ''show'', ''cat'']"

definition mutate_actions :: "string list" where
  "mutate_actions = [''start'', ''stop'', ''restart'', ''reload'', ''enable'', ''disable'']"

definition strip_service_suffix :: "string \<Rightarrow> string" where
  "strip_service_suffix unit =
     (if length unit > 8 \<and> ends_with ''.service'' unit then take (length unit - 8) unit else unit)"

definition alnum :: "char \<Rightarrow> bool" where
  "alnum c = ((CHR ''A'' \<le> c \<and> c \<le> CHR ''Z'') \<or> (CHR ''a'' \<le> c \<and> c \<le> CHR ''z'') \<or> is_digit c)"

definition wellformed_key :: "string \<Rightarrow> bool" where
  "wellformed_key key =
     (key \<noteq> [] \<and> length key \<le> 256 \<and> \<not> contains ''..'' key \<and> CHR ''/'' \<notin> set key \<and>
      list_all (\<lambda>c. alnum c \<or> c \<in> {CHR ''.'', CHR ''_'', CHR ''-''}) key)"

definition daemon_sysctl_read :: "string \<Rightarrow> verdict" where
  "daemon_sysctl_read key = (if wellformed_key key then Allow else Refuse ''malformed sysctl key'')"

definition daemon_sysctl_write :: "string \<Rightarrow> verdict" where
  "daemon_sysctl_write key =
     (if \<not> wellformed_key key then Refuse ''malformed sysctl key''
      else case map_of refused_keys key of
        Some reason \<Rightarrow> Refuse reason
      | None \<Rightarrow>
          if list_ex (\<lambda>p. starts_with p key) writable_prefixes then Allow
          else Refuse ''outside the reviewed writable parameter set'')"

definition daemon_signal :: "int \<Rightarrow> int \<Rightarrow> verdict" where
  "daemon_signal pid sig =
     (if pid = 0 \<or> pid = 1 then Refuse ''pid 0 and 1 are the kernel and init; signalling them halts the host''
      else if pid < 0 then Refuse ''negative pids address a process group, which is too broad''
      else if sig \<notin> set daemon_signals then Refuse ''signal is not in the permitted set''
      else Allow)"

definition unit_char :: "char \<Rightarrow> bool" where
  "unit_char c = (alnum c \<or> c \<in> {CHR ''@'', CHR '':'', CHR ''.'', CHR ''_'', CHR ''-''})"

definition severing :: "string \<Rightarrow> bool" where
  "severing action = (action \<in> {''stop'', ''disable'', ''restart''})"

definition daemon_service :: "string \<Rightarrow> string \<Rightarrow> verdict" where
  "daemon_service unit action =
     (if unit = [] \<or> length unit > 128 then Refuse ''invalid unit name''
      else if \<not> list_all unit_char unit then Refuse ''invalid unit name''
      else if action \<in> set read_actions then Allow
      else if action \<notin> set mutate_actions then Refuse ''unsupported service action''
      else if severing action \<and> strip_service_suffix unit \<in> set critical_units
      then Refuse (''this unit carries operator access to the host; stopping it could make the '' @ ''machine unreachable'')
      else Allow)"

section \<open>Wire format (\<open>protocol.cpp\<close>)\<close>

definition byte :: "char \<Rightarrow> nat" where
  "byte c = of_char c"

fun base64_encode :: "string \<Rightarrow> string" where
  "base64_encode [] = []"
| "base64_encode [a] =
     (let block = byte a * 65536
      in [b64_char (block div 262144 mod 64), b64_char (block div 4096 mod 64), CHR ''='', CHR ''=''])"
| "base64_encode [a, b] =
     (let block = byte a * 65536 + byte b * 256
      in [b64_char (block div 262144 mod 64), b64_char (block div 4096 mod 64), b64_char (block div 64 mod 64), CHR ''=''])"
| "base64_encode (a # b # c # r) =
     (let block = byte a * 65536 + byte b * 256 + byte c
      in b64_char (block div 262144 mod 64) # b64_char (block div 4096 mod 64) # b64_char (block div 64 mod 64) #
         b64_char (block mod 64) # base64_encode r)"

text \<open>The value of a character of a group; \<open>=\<close> is legal in the last two places of the last group only.\<close>

definition group_value :: "bool \<Rightarrow> char \<Rightarrow> nat option" where
  "group_value pad_ok c = (if c = CHR ''='' then (if pad_ok then Some 0 else None) else b64_val c)"

definition bytes_of_block :: "nat \<Rightarrow> string" where
  "bytes_of_block block = [char_of (block div 65536 mod 256), char_of (block div 256 mod 256), char_of (block mod 256)]"

fun decode_groups :: "string \<Rightarrow> string option" where
  "decode_groups (a # b # c # d # r) =
     (case (group_value False a, group_value False b, group_value (r = []) c, group_value (r = []) d, decode_groups r) of
        (Some w, Some x, Some y, Some z, Some out) \<Rightarrow>
          Some (bytes_of_block (((w * 64 + x) * 64 + y) * 64 + z) @ out)
      | _ \<Rightarrow> None)"
| "decode_groups t = Some []"

definition padding :: "string \<Rightarrow> nat" where
  "padding t = (let n = length t in
     (if t ! (n - 1) = CHR ''='' then 1 else 0) + (if n \<ge> 2 \<and> t ! (n - 2) = CHR ''='' then 1 else 0))"

definition base64_decode :: "string \<Rightarrow> string option" where
  "base64_decode t =
     (if length t mod 4 \<noteq> 0 then None else if t = [] then Some []
      else map_option (\<lambda>out. take (length out - padding t) out) (decode_groups t))"

definition max_line_bytes :: nat where
  "max_line_bytes = 65536"

definition max_args :: nat where
  "max_args = 8"

definition verb_ok :: "string \<Rightarrow> bool" where
  "verb_ok v = (v \<noteq> [] \<and> length v \<le> 32 \<and> list_all (\<lambda>c. (CHR ''A'' \<le> c \<and> c \<le> CHR ''Z'') \<or> c = CHR ''_'') v)"

fun read_args :: "nat \<Rightarrow> string list \<Rightarrow> string list option" where
  "read_args n [] = Some []"
| "read_args n (t # ts) =
     (if n \<ge> max_args then None
      else case base64_decode t of None \<Rightarrow> None | Some x \<Rightarrow> map_option ((#) x) (read_args (Suc n) ts))"

definition parse_request :: "string \<Rightarrow> (string \<times> string list) option" where
  "parse_request line =
     (if line = [] \<or> length line > max_line_bytes then None
      else case split_on CHR '' '' line of
        [] \<Rightarrow> None
      | verb # ts \<Rightarrow> if verb_ok verb then map_option (Pair verb) (read_args 0 ts) else None)"

definition make_ok :: "string \<Rightarrow> string" where
  "make_ok payload = ''OK '' @ base64_encode payload @ [CHR 0x0A]"

definition make_err :: "string \<Rightarrow> string" where
  "make_err reason = ''ERR '' @ base64_encode reason @ [CHR 0x0A]"

section \<open>Operations (\<open>operations.cpp\<close>)\<close>

datatype write_end = Not_opened | Not_accepted | Written

datatype kill_end = Delivered | No_process | No_permission | Kill_failed string

datatype child_end = No_pipe | No_fork | Exited int string

text \<open>
  Files under \<open>/proc/sys\<close>, \<open>kill\<close> and the child that runs \<open>systemctl\<close>, whose exit code is -1 when a signal ends it.
\<close>

record 'h kernel =
  ke_read :: "string \<Rightarrow> 'h \<Rightarrow> string option"
  ke_write :: "string \<Rightarrow> string \<Rightarrow> 'h \<Rightarrow> write_end \<times> 'h"
  ke_kill :: "int \<Rightarrow> int \<Rightarrow> 'h \<Rightarrow> kill_end \<times> 'h"
  ke_systemctl :: "string list \<Rightarrow> 'h \<Rightarrow> child_end \<times> 'h"

definition daemon_sysctl_path :: "string \<Rightarrow> string" where
  "daemon_sysctl_path key = ''/proc/sys/'' @ map (\<lambda>c. if c = CHR ''.'' then CHR ''/'' else c) key"

definition blank :: "char \<Rightarrow> bool" where
  "blank c = (c \<in> {CHR '' '', CHR 0x09, CHR 0x0D, CHR 0x0A})"

definition trim :: "string \<Rightarrow> string" where
  "trim t = rev (dropWhile blank (rev (dropWhile blank t)))"

type_synonym op_reply = "bool \<times> string"

definition sysctl_get :: "'h kernel \<Rightarrow> string \<Rightarrow> 'h \<Rightarrow> op_reply" where
  "sysctl_get ke key h =
     (if \<not> wellformed_key key then (False, ''malformed sysctl key'')
      else case ke_read ke (daemon_sysctl_path key) h of
        None \<Rightarrow> (False, ''parameter is not readable'')
      | Some t \<Rightarrow> (True, trim (take 65536 t)))"

definition control_char :: "char \<Rightarrow> bool" where
  "control_char c = (byte c < 32 \<or> byte c = 127)"

definition sysctl_set :: "'h kernel \<Rightarrow> string \<Rightarrow> string \<Rightarrow> 'h \<Rightarrow> op_reply \<times> 'h" where
  "sysctl_set ke key value h =
     (if \<not> wellformed_key key then ((False, ''malformed sysctl key''), h)
      else if value = [] \<or> length value > 256 then ((False, ''value is empty or too long''), h)
      else if list_ex control_char value then ((False, ''value contains control characters''), h)
      else case sysctl_get ke key h of
        (False, e) \<Rightarrow> ((False, ''parameter does not exist on this kernel''), h)
      | (True, previous) \<Rightarrow>
          (case ke_write ke (daemon_sysctl_path key) value h of
             (Not_opened, h1) \<Rightarrow> ((False, ''permission denied writing parameter''), h1)
           | (Not_accepted, h1) \<Rightarrow> ((False, ''kernel rejected the value''), h1)
           | (Written, h1) \<Rightarrow>
               ((True, previous @ '' -> '' @ (case sysctl_get ke key h1 of (True, t) \<Rightarrow> t | (False, e) \<Rightarrow> ''?'')), h1)))"

text \<open>\<open>static_cast<pid_t>\<close>: a \<open>long\<close> loses its upper half.\<close>

definition pid_t :: "int \<Rightarrow> int" where
  "pid_t pid = sint (word_of_int pid :: 32 word)"

definition send_signal_op :: "'h kernel \<Rightarrow> int \<Rightarrow> int \<Rightarrow> 'h \<Rightarrow> op_reply \<times> 'h" where
  "send_signal_op ke pid sig h =
     (case daemon_signal pid sig of
        Refuse reason \<Rightarrow> ((False, reason), h)
      | Allow \<Rightarrow>
          (case ke_kill ke (pid_t pid) sig h of
             (Delivered, h1) \<Rightarrow> ((True, ''signal delivered''), h1)
           | (No_process, h1) \<Rightarrow> ((False, ''no such process''), h1)
           | (No_permission, h1) \<Rightarrow> ((False, ''permission denied signalling process''), h1)
           | (Kill_failed e, h1) \<Rightarrow> ((False, ''kill failed: '' @ e), h1)))"

text \<open>\<open>c_str()\<close> ends at the first NUL.\<close>

definition c_str :: "string \<Rightarrow> string" where
  "c_str t = takeWhile (\<lambda>c. c \<noteq> CHR 0x00) t"

definition service_action :: "'h kernel \<Rightarrow> string \<Rightarrow> string \<Rightarrow> 'h \<Rightarrow> op_reply \<times> 'h" where
  "service_action ke unit action h =
     (case ke_systemctl ke [''systemctl'', c_str action, c_str unit, ''--no-pager''] h of
        (No_pipe, h1) \<Rightarrow> ((False, ''could not create pipe''), h1)
      | (No_fork, h1) \<Rightarrow> ((False, ''could not fork''), h1)
      | (Exited code out, h1) \<Rightarrow>
          (if code = 127 then ((False, ''systemctl is not available on this host''), h1)
           else ((code = 0 \<or> action \<in> set read_actions,
                  ''exit '' @ show_int code @ [CHR 0x0A] @ take 16384 out), h1)))"

section \<open>Requests (\<open>main.cpp\<close>)\<close>

text \<open>\<open>strtol\<close> in base 10: the value, kept in 64 bits, and what is left; \<open>None\<close> when there is no number.\<close>

definition c_space :: "char \<Rightarrow> bool" where
  "c_space c = (byte c = 32 \<or> (9 \<le> byte c \<and> byte c \<le> 13))"

definition clamp_long :: "int \<Rightarrow> int" where
  "clamp_long v = max (- (2 ^ 63)) (min (2 ^ 63 - 1) v)"

definition strtol :: "string \<Rightarrow> (int \<times> string) option" where
  "strtol t =
     (let u = dropWhile c_space t; negative = (u \<noteq> [] \<and> hd u = CHR ''-'');
          v = (if u \<noteq> [] \<and> (hd u = CHR ''-'' \<or> hd u = CHR ''+'') then tl u else u);
          ds = takeWhile is_digit v
      in if ds = [] then None
         else Some (clamp_long (if negative then - int (digits_val ds) else int (digits_val ds)), dropWhile is_digit v))"

definition number_arg :: "string \<Rightarrow> int option" where
  "number_arg t = (case strtol (c_str t) of Some (n, []) \<Rightarrow> Some n | _ \<Rightarrow> None)"

datatype priority = LOG_WARNING | LOG_NOTICE

type_synonym syslog = "(priority \<times> string) list"

definition version :: string where
  "version = ''hoursx-sysd 0.1.0''"

definition reply_of :: "op_reply \<Rightarrow> string" where
  "reply_of r = (if fst r then make_ok (snd r) else make_err (snd r))"

definition sysctl_set_request :: "'h kernel \<Rightarrow> string \<Rightarrow> string \<Rightarrow> 'h \<Rightarrow> string \<times> syslog \<times> 'h" where
  "sysctl_set_request ke key value h =
     (case daemon_sysctl_write key of
        Refuse reason \<Rightarrow> (make_err reason, [(LOG_WARNING, ''refused sysctl write '' @ c_str key @ '': '' @ c_str reason)], h)
      | Allow \<Rightarrow>
          (case sysctl_set ke key value h of
             (r, h1) \<Rightarrow>
               (reply_of r, [(LOG_NOTICE, ''sysctl_set '' @ c_str key @ ''='' @ c_str value @ '' -> '' @
                  (if fst r then ''ok'' else ''failed'') @ '' ('' @ c_str (snd r) @ '')'')], h1)))"

definition signal_request :: "'h kernel \<Rightarrow> string \<Rightarrow> string \<Rightarrow> 'h \<Rightarrow> string \<times> syslog \<times> 'h" where
  "signal_request ke pid_text sig_text h =
     (case number_arg pid_text of
        None \<Rightarrow> (make_err ''pid is not a number'', [], h)
      | Some pid \<Rightarrow>
          (case number_arg sig_text of
             None \<Rightarrow> (make_err ''signal is not a valid number'', [], h)
           | Some sig \<Rightarrow>
               if sig \<le> 0 \<or> sig > 64 then (make_err ''signal is not a valid number'', [], h)
               else case daemon_signal pid sig of
                 Refuse reason \<Rightarrow>
                   (make_err reason, [(LOG_WARNING, ''refused signal '' @ show_int sig @ '' to pid '' @ show_int pid @ '': '' @ reason)], h)
               | Allow \<Rightarrow>
                   (case send_signal_op ke pid sig h of
                      (r, h1) \<Rightarrow>
                        (reply_of r, [(LOG_NOTICE, ''signal '' @ show_int sig @ '' to pid '' @ show_int pid @ '' -> '' @
                           (if fst r then ''ok'' else snd r))], h1))))"

definition service_request :: "'h kernel \<Rightarrow> string \<Rightarrow> string \<Rightarrow> 'h \<Rightarrow> string \<times> syslog \<times> 'h" where
  "service_request ke unit action h =
     (case daemon_service unit action of
        Refuse reason \<Rightarrow>
          (make_err reason, [(LOG_WARNING, ''refused service '' @ c_str action @ '' '' @ c_str unit @ '': '' @ reason)], h)
      | Allow \<Rightarrow>
          (case service_action ke unit action h of
             (r, h1) \<Rightarrow>
               (reply_of r,
                if action \<in> set read_actions then []
                else [(LOG_NOTICE, ''service '' @ action @ '' '' @ unit @ '' -> '' @ (if fst r then ''ok'' else ''failed''))], h1)))"

definition handle_request :: "'h kernel \<Rightarrow> string \<Rightarrow> 'h \<Rightarrow> string \<times> syslog \<times> 'h" where
  "handle_request ke line h =
     (case parse_request line of
        None \<Rightarrow> (make_err ''malformed request'', [], h)
      | Some (verb, args) \<Rightarrow>
          if verb = ''PING'' then (make_ok version, [], h)
          else if verb = ''SYSCTL_GET'' then
            (case args of
               [key] \<Rightarrow> (case daemon_sysctl_read key of Refuse reason \<Rightarrow> (make_err reason, [], h)
                         | Allow \<Rightarrow> (reply_of (sysctl_get ke key h), [], h))
             | _ \<Rightarrow> (make_err ''SYSCTL_GET takes one argument'', [], h))
          else if verb = ''SYSCTL_SET'' then
            (case args of [key, value] \<Rightarrow> sysctl_set_request ke key value h
             | _ \<Rightarrow> (make_err ''SYSCTL_SET takes two arguments'', [], h))
          else if verb = ''SIGNAL'' then
            (case args of [pid, sig] \<Rightarrow> signal_request ke pid sig h | _ \<Rightarrow> (make_err ''SIGNAL takes two arguments'', [], h))
          else if verb = ''SERVICE'' then
            (case args of [unit, action] \<Rightarrow> service_request ke unit action h
             | _ \<Rightarrow> (make_err ''SERVICE takes two arguments'', [], h))
          else (make_err ''unknown verb'', [], h))"

section \<open>Connections\<close>

lemma rest_shorter:
  assumes "CHR 0x0A \<in> set b"
  shows "length (tl (dropWhile (\<lambda>c. c \<noteq> CHR 0x0A) b)) < length b"
proof -
  have "dropWhile (\<lambda>c. c \<noteq> CHR 0x0A) b \<noteq> []" using assms by (simp add: dropWhile_eq_Nil_conv)
  moreover have "length (dropWhile (\<lambda>c. c \<noteq> CHR 0x0A) b) \<le> length b" by (rule length_dropWhile_le)
  ultimately show ?thesis by (metis length_greater_0_conv length_tl diff_less less_le_trans zero_less_one)
qed

text \<open>The lines at the head of the buffer are answered; what is left has no newline.\<close>

function answer_lines :: "'h kernel \<Rightarrow> string \<Rightarrow> 'h \<Rightarrow> string \<times> syslog \<times> string \<times> 'h" where
  "answer_lines ke buffer h =
     (if CHR 0x0A \<notin> set buffer then ([], [], buffer, h)
      else case handle_request ke (takeWhile (\<lambda>c. c \<noteq> CHR 0x0A) buffer) h of
        (reply, logs, h1) \<Rightarrow>
          (case answer_lines ke (tl (dropWhile (\<lambda>c. c \<noteq> CHR 0x0A) buffer)) h1 of
             (replies, logs1, rest, h2) \<Rightarrow> (reply @ replies, logs @ logs1, rest, h2)))"
  by pat_completeness auto

termination
  by (relation "measure (\<lambda>(ke, b, h). length b)") (simp_all add: rest_shorter del: length_tl)

declare answer_lines.simps [simp del]

text \<open>The chunks that \<open>read\<close> gives; the client goes on reading, so a reply is written.\<close>

fun serve_connection :: "'h kernel \<Rightarrow> string \<Rightarrow> string list \<Rightarrow> 'h \<Rightarrow> string \<times> syslog \<times> 'h" where
  "serve_connection ke buffer [] h = ([], [], h)"
| "serve_connection ke buffer (chunk # chunks) h =
     (let b = buffer @ chunk in
      if length b > max_line_bytes then (make_err ''request too large'', [], h)
      else case answer_lines ke b h of
        (replies, logs, rest, h1) \<Rightarrow>
          (case serve_connection ke rest chunks h1 of (replies1, logs1, h2) \<Rightarrow> (replies @ replies1, logs @ logs1, h2)))"

text \<open>The socket as the client sees it: one request on a connection, and the first line of what comes back.\<close>

definition daemon_socket :: "'h kernel \<Rightarrow> string \<Rightarrow> string \<Rightarrow> 'h \<Rightarrow> helper_reply \<times> 'h" where
  "daemon_socket ke socket line h =
     (case serve_connection ke [] [line] h of
        (out, logs, h1) \<Rightarrow>
          (Reply_line (takeWhile (\<lambda>c. c \<noteq> CHR 0x0A) out @ (if CHR 0x0A \<in> set out then [CHR 0x0A] else [])), h1))"

end
