(* ===== verification/Daemon_Props.thy ===== *)
theory Daemon_Props
  imports Daemon
begin

text \<open>
  The daemon against its client: what the client encodes is what the daemon decodes, the reply comes back as it was
  given, no line of bytes makes the daemon act outside its own policy, and that policy is compared with the one of
  \<open>system/privileges.py\<close>.
\<close>

section \<open>Base64\<close>

lemma by_parts: "n = q * k + r \<Longrightarrow> r < k \<Longrightarrow> n div k = q \<and> n mod k = (r :: nat)"
  by (simp add: div_mult_self3)

lemmas quotient_is = conjunct1 [OF by_parts]
lemmas remainder_is = conjunct2 [OF by_parts]

text \<open>Three bytes as four groups of six bits, and back.\<close>

lemma six_bits:
  fixes a b c d e f :: nat
  assumes n: "n = (a * 4 + b) * 65536 + (c * 16 + d) * 256 + (e * 64 + f)"
    and bounds: "a < 64" "b < 4" "c < 16" "d < 16" "e < 4" "f < 64"
  shows "n div 262144 mod 64 = a" "n div 4096 mod 64 = b * 16 + c" "n div 64 mod 64 = d * 4 + e" "n mod 64 = f"
proof -
  have "n div 262144 = a" by (rule quotient_is [of _ _ _ "b * 65536 + (c * 16 + d) * 256 + (e * 64 + f)"]) (use n bounds in \<open>simp_all add: add_mult_distrib\<close>)
  then show "n div 262144 mod 64 = a" using bounds by simp
  have "n div 4096 = (a * 4 + b) * 16 + c" by (rule quotient_is [of _ _ _ "d * 256 + (e * 64 + f)"]) (use n bounds in \<open>simp_all add: add_mult_distrib\<close>)
  moreover have "((a * 4 + b) * 16 + c) mod 64 = b * 16 + c" by (rule remainder_is [of _ a]) (use bounds in \<open>simp_all add: add_mult_distrib\<close>)
  ultimately show "n div 4096 mod 64 = b * 16 + c" by simp
  have "n div 64 = (a * 4 + b) * 1024 + (c * 16 + d) * 4 + e" by (rule quotient_is [of _ _ _ f]) (use n bounds in \<open>simp_all add: add_mult_distrib\<close>)
  moreover have "((a * 4 + b) * 1024 + (c * 16 + d) * 4 + e) mod 64 = d * 4 + e"
    by (rule remainder_is [of _ "(a * 4 + b) * 16 + c"]) (use bounds in \<open>simp_all add: add_mult_distrib\<close>)
  ultimately show "n div 64 mod 64 = d * 4 + e" by simp
  show "n mod 64 = f" by (rule remainder_is [of _ "(a * 4 + b) * 1024 + (c * 16 + d) * 4 + e"]) (use n bounds in \<open>simp_all add: add_mult_distrib\<close>)
qed

lemma block_parts:
  fixes x y z :: nat
  assumes "x < 256" "y < 256" "z < 256"
  shows "(x * 65536 + y * 256 + z) div 262144 mod 64 = x div 4"
    "(x * 65536 + y * 256 + z) div 4096 mod 64 = x mod 4 * 16 + y div 16"
    "(x * 65536 + y * 256 + z) div 64 mod 64 = y mod 16 * 4 + z div 64"
    "(x * 65536 + y * 256 + z) mod 64 = z mod 64"
  using assms by (intro six_bits [where a = "x div 4" and b = "x mod 4" and c = "y div 16" and d = "y mod 16" and e = "z div 64" and f = "z mod 64"]; simp)+

lemma group_bytes:
  fixes x y z :: nat
  assumes "x < 256" "y < 256" "z < 256"
  shows "(((x div 4 * 64 + (x mod 4 * 16 + y div 16)) * 64 + (y mod 16 * 4 + z div 64)) * 64 + z mod 64) = x * 65536 + y * 256 + z"
    "(x * 65536 + y * 256 + z) div 65536 mod 256 = x" "(x * 65536 + y * 256 + z) div 256 mod 256 = y"
    "(x * 65536 + y * 256 + z) mod 256 = z"
proof -
  have glue: "(((a * 64 + (b * 16 + c)) * 64 + (d * 4 + e)) * 64 + f) = (a * 4 + b) * 65536 + (c * 16 + d) * 256 + (e * 64 + f)"
    for a b c d e f :: nat by simp
  show "(((x div 4 * 64 + (x mod 4 * 16 + y div 16)) * 64 + (y mod 16 * 4 + z div 64)) * 64 + z mod 64) = x * 65536 + y * 256 + z"
    unfolding glue by simp
  have "(x * 65536 + y * 256 + z) div 65536 = x" by (rule quotient_is [of _ _ _ "y * 256 + z"]) (use assms in \<open>simp_all add: add_mult_distrib\<close>)
  then show "(x * 65536 + y * 256 + z) div 65536 mod 256 = x" using assms by simp
  have "(x * 65536 + y * 256 + z) div 256 = x * 256 + y" by (rule quotient_is [of _ _ _ z]) (use assms in \<open>simp_all add: add_mult_distrib\<close>)
  then show "(x * 65536 + y * 256 + z) div 256 mod 256 = y" using assms by simp
  show "(x * 65536 + y * 256 + z) mod 256 = z" by (rule remainder_is [of _ "x * 256 + y"]) (use assms in \<open>simp_all add: add_mult_distrib\<close>)
qed

lemma byte_less [simp]: "byte c < 256"
  by (simp add: byte_def)

lemma block_bytes:
  assumes "w = of_char a div 4" "x = of_char a mod 4 * 16 + of_char b div 16" "y = of_char b mod 16 * 4 + of_char c div 64"
    "z = of_char c mod 64"
  shows "bytes_of_block (((w * 64 + x) * 64 + y) * 64 + z) = [a, b, c]"
proof -
  have "((w * 64 + x) * 64 + y) * 64 + z = byte a * 65536 + byte b * 256 + byte c"
    unfolding assms using group_bytes(1) [of "byte a" "byte b" "byte c"] by (simp add: byte_def)
  moreover have "char_of (byte d) = d" for d by (simp add: byte_def)
  ultimately show ?thesis unfolding bytes_of_block_def using group_bytes(2-4) [of "byte a" "byte b" "byte c"]
    by (simp del: char_of_mod_256)
qed

text \<open>The two encoders agree, so what the client writes is what the daemon would have written.\<close>

lemma encoders_agree: "base64_encode t = b64_encode t"
proof (induction t rule: base64_encode.induct)
  case (2 a)
  then show ?case using block_parts [of "byte a" 0 0] by (simp add: Let_def byte_def)
next
  case (3 a b)
  then show ?case using block_parts [of "byte a" "byte b" 0] by (simp add: Let_def byte_def)
next
  case (4 a b c r)
  then show ?case using block_parts [of "byte a" "byte b" "byte c"] by (simp add: Let_def byte_def)
qed simp

lemma b64_encode_length: "length (b64_encode t) mod 4 = 0"
  by (induction t rule: b64_encode.induct) (simp_all add: Let_def)

definition pads :: "nat \<Rightarrow> nat" where
  "pads n = (if n mod 3 = 0 then 0 else 3 - n mod 3)"

lemma zero_byte: "of_char CHR 0x00 = (0 :: nat)"
  by simp

lemma decode_groups_encoded: "decode_groups (b64_encode t) = Some (t @ replicate (pads (length t)) CHR 0x00)"
proof (induction t rule: b64_encode.induct)
  case (2 a)
  have "bytes_of_block (((of_char a div 4 * 64 + of_char a mod 4 * 16) * 64 + 0) * 64 + 0) = [a, CHR 0x00, CHR 0x00]"
    by (rule block_bytes) simp_all
  then show ?case by (simp add: Let_def group_value_def pads_def numeral_2_eq_2)
next
  case (3 a b)
  have "bytes_of_block (((of_char a div 4 * 64 + (of_char a mod 4 * 16 + of_char b div 16)) * 64 + of_char b mod 16 * 4) * 64 + 0) = [a, b, CHR 0x00]"
    by (rule block_bytes) simp_all
  then show ?case by (simp add: Let_def group_value_def pads_def)
next
  case (4 a b c r)
  have "pads (length (a # b # c # r)) = pads (length r)" by (simp add: pads_def)
  then show ?case using 4 block_bytes [OF refl refl refl refl, of a b c]
    by (simp add: Let_def group_value_def)
qed (simp add: pads_def)

lemma padding_skip:
  assumes "2 \<le> length r"
  shows "padding (a # b # c # d # r) = padding r"
proof -
  have "(a # b # c # d # r) ! (length r + 3) = r ! (length r - 1)" "(a # b # c # d # r) ! (length r + 2) = r ! (length r - 2)"
    using assms by (cases "length r"; simp add: nth_Cons split: nat.splits)+
  then show ?thesis using assms by (simp add: padding_def Let_def)
qed

lemma padding_encoded: "t \<noteq> [] \<Longrightarrow> padding (b64_encode t) = pads (length t)"
proof (induction t rule: b64_encode.induct)
  case (4 a b c r)
  have pads: "pads (length (a # b # c # r)) = pads (length r)" by (simp add: pads_def)
  show ?case
  proof (cases r)
    case Nil
    then show ?thesis by (simp add: Let_def padding_def pads_def)
  next
    case (Cons x xs)
    then have "b64_encode r \<noteq> []" by (cases xs; cases "tl xs") (simp_all add: Let_def)
    then have "4 \<le> length (b64_encode r)" using b64_encode_length [of r] by (cases "length (b64_encode r) < 4") auto
    then show ?thesis using 4 Cons pads padding_skip [of "b64_encode r"] by (simp add: Let_def)
  qed
qed (simp_all add: Let_def padding_def pads_def)

lemma b64_encode_Nil: "b64_encode t = [] \<longleftrightarrow> t = []"
  by (cases t rule: b64_encode.cases) (simp_all add: Let_def)

lemma decode_encoded: "base64_decode (b64_encode t) = Some t"
  by (simp add: base64_decode_def b64_encode_length b64_encode_Nil decode_groups_encoded padding_encoded)

section \<open>What the client writes is what the daemon reads\<close>

lemma read_args_encoded: "n + length args \<le> max_args \<Longrightarrow> read_args n (map b64_encode args) = Some args"
  by (induction args arbitrary: n) (simp_all add: decode_encoded)

lemma verb_plain: "verb_ok verb \<Longrightarrow> CHR '' '' \<notin> set verb \<and> CHR 0x0A \<notin> set verb \<and> verb \<noteq> []"
  by (auto simp: verb_ok_def list_all_iff)

lemma encode_request_Nil: "verb \<noteq> [] \<Longrightarrow> encode_request verb args \<noteq> []"
  by (cases args) (simp_all add: encode_request_def)

lemma parse_encoded:
  assumes "verb_ok verb" and "length args \<le> 8" and "length (encode_request verb args) \<le> max_line_bytes"
  shows "parse_request (encode_request verb args) = Some (verb, args)"
  using assms verb_plain [OF assms(1)] split_request [of verb args] encode_request_Nil [of verb args]
  by (simp add: parse_request_def read_args_encoded max_args_def)

lemma request_line_plain: "CHR 0x0A \<notin> set verb \<Longrightarrow> CHR 0x0A \<notin> set (encode_request verb args)"
proof (induction args arbitrary: verb)
  case (Cons a args)
  have "CHR 0x0A \<notin> set (encode_request (b64_encode a) args)" using b64_chars by (intro Cons.IH) blast
  then show ?case using Cons.prems by (simp add: encode_request_def)
qed (simp add: encode_request_def)

lemma answer_no_line: "CHR 0x0A \<notin> set b \<Longrightarrow> answer_lines ke b h = ([], [], b, h)"
  by (subst answer_lines.simps) simp

lemma answer_line:
  assumes "CHR 0x0A \<notin> set line"
  shows "answer_lines ke (line @ CHR 0x0A # r) h =
     (case handle_request ke line h of (reply, logs, h1) \<Rightarrow>
        (case answer_lines ke r h1 of (replies, logs1, rest, h2) \<Rightarrow> (reply @ replies, logs @ logs1, rest, h2)))"
proof -
  have "takeWhile (\<lambda>c. c \<noteq> CHR 0x0A) (line @ CHR 0x0A # r) = line" "dropWhile (\<lambda>c. c \<noteq> CHR 0x0A) (line @ CHR 0x0A # r) = CHR 0x0A # r"
    using assms by (induction line) auto
  then show ?thesis by (subst answer_lines.simps) simp
qed

text \<open>The reply of an operation, read back by the client.\<close>

lemma b64_plain: "v < 64 \<Longrightarrow> \<not> is_space (b64_char v)"
  using b64_val_char [of v] by (auto simp: b64_val_def is_space_def Let_def simp del: b64_val_char split: if_splits)

lemma pad_plain: "\<not> is_space CHR ''=''"
  by (simp add: is_space_def)

lemma b64_not_space: "c \<in> set (b64_encode t) \<Longrightarrow> \<not> is_space c"
  by (induction t rule: b64_encode.induct) (auto simp: Let_def b64_plain pad_plain)

lemma strip_words:
  assumes "x \<noteq> []" and "\<not> is_space (hd x)" and "y \<noteq> []" and "\<not> is_space (last y)"
  shows "strip (x @ y @ [CHR 0x0A]) = x @ y"
proof -
  have "lstrip (x @ y @ [CHR 0x0A]) = x @ y @ [CHR 0x0A]" using assms(1,2) by (intro lstrip_fix) simp
  moreover have "lstrip (CHR 0x0A # rev (x @ y)) = lstrip (rev (x @ y))" by (simp add: lstrip_def is_space_def)
  moreover have "lstrip (rev (x @ y)) = rev (x @ y)" using assms(3,4) by (intro lstrip_fix) (simp add: hd_rev)
  ultimately show ?thesis by (simp add: strip_def)
qed

lemma read_words:
  assumes "CHR '' '' \<notin> set w"
  shows "part_before CHR '' '' (w @ '' '' @ t) = w" "part_after CHR '' '' (w @ '' '' @ t) = t"
    "part_before CHR '' '' w = w" "part_after CHR '' '' w = []"
  using assms by (induction w) (auto simp: part_before_def part_after_def)

lemma b64_ascii: "is_ascii (b64_encode t)"
proof -
  have "(of_char (b64_char v) :: nat) < 128" if "v < 64" for v
    using b64_val_char [OF that] by (auto simp: b64_val_def Let_def simp del: b64_val_char split: if_splits)
  then show ?thesis by (induction t rule: b64_encode.induct) (auto simp: Let_def is_ascii_def)
qed

lemma reply_ascii: "is_ascii (reply_of (ok, p))"
  using b64_ascii [of p] by (simp add: reply_of_def make_ok_def make_err_def encoders_agree is_ascii_def)

lemma reply_read_back:
  assumes "length (reply_of (ok, p)) \<le> max_reply_bytes"
  shows "read_reply (reply_of (ok, p)) = Inr (ok, decode_lossy p)"
proof -
  have line: "strip_text (decode_lossy (reply_of (ok, p))) = strip (reply_of (ok, p))"
    by (simp add: decode_ascii reply_ascii strip_text_ascii)
  define w where "w = (if ok then ''OK'' else ''ERR'')"
  have w: "w \<noteq> []" "CHR '' '' \<notin> set w" "length w \<le> 3" "(w = ''OK'') = ok" by (auto simp: w_def)
  have reply: "reply_of (ok, p) = w @ '' '' @ b64_encode p @ [CHR 0x0A]"
    by (simp add: reply_of_def make_ok_def make_err_def encoders_agree w_def)
  have empty: "b64_decode [] = Some []" using b64_round [of "[]"] by simp
  show ?thesis
  proof (cases "p = []")
    case True
    have "strip (reply_of (ok, p)) = w" unfolding reply using True by (simp add: w_def strip_def lstrip_def is_space_def)
    then show ?thesis using assms w True empty reply [unfolded True] line by (simp add: read_reply_def Let_def read_words is_ascii_def)
  next
    case False
    then have b: "b64_encode p \<noteq> []" by (simp add: b64_encode_Nil)
    have "strip ((w @ '' '') @ b64_encode p @ [CHR 0x0A]) = (w @ '' '') @ b64_encode p"
      using b b64_not_space [OF last_in_set [OF b]] by (intro strip_words) (simp_all add: w_def is_space_def)
    then have "strip (reply_of (ok, p)) = w @ '' '' @ b64_encode p" by (simp add: reply)
    then show ?thesis using assms w b64_round [of p] read_words [OF w(2)] line b64_ascii [of p]
      by (simp add: read_reply_def Let_def reply)
  qed
qed

lemma reply_length: "length (reply_of (ok, p)) \<le> length (b64_encode p) + 5"
  by (simp add: reply_of_def make_ok_def make_err_def encoders_agree)

lemma reply_lines: "\<exists>t. reply_of r = t @ [CHR 0x0A] \<and> CHR 0x0A \<notin> set t"
  using b64_chars by (fastforce simp: reply_of_def make_ok_def make_err_def encoders_agree)

lemma socket_answers:
  assumes "CHR 0x0A \<notin> set line" and "length line < max_line_bytes" and "handle_request ke line h = (reply_of r, logs, h1)"
  shows "daemon_socket ke socket (line @ [CHR 0x0A]) h = (Reply_line (reply_of r), h1)"
proof -
  obtain t where t: "reply_of r = t @ [CHR 0x0A]" "CHR 0x0A \<notin> set t" using reply_lines by blast
  have "takeWhile (\<lambda>c. c \<noteq> CHR 0x0A) (t @ [CHR 0x0A]) = t" using t(2) by (induction t) auto
  then show ?thesis using assms t by (simp add: daemon_socket_def answer_line answer_no_line)
qed

lemma call_state:
  assumes "verb_ok verb" and "length (encode_request verb args) < max_line_bytes"
  shows "snd (helper_call (daemon_socket ke) socket verb args h) = snd (snd (handle_request ke (encode_request verb args) h))"
  using assms(2) verb_plain [OF assms(1)] request_line_plain [of verb args]
  by (simp add: helper_call_def daemon_socket_def answer_line answer_no_line split: prod.splits)

text \<open>What \<open>readline\<close> of the client takes before it raises: the default limit of an asyncio stream.\<close>

definition stream_limit :: nat where
  "stream_limit = 65536"

lemma stream_limit_fits: "n \<le> stream_limit \<Longrightarrow> n \<le> max_reply_bytes"
  by (simp add: stream_limit_def max_reply_bytes_def)

lemma call_answered:
  assumes "verb_ok verb" and "length args \<le> 8" and "length (encode_request verb args) < max_line_bytes"
    and "handle_request ke (encode_request verb args) h = (reply_of (ok, t), logs, h1)" and "length (b64_encode t) + 5 \<le> stream_limit"
  shows "helper_call (daemon_socket ke) socket verb args h = (Inr (ok, decode_lossy t), h1)"
  using assms verb_plain [OF assms(1)] request_line_plain [of verb args] socket_answers [OF _ assms(3,4)]
    reply_read_back [OF order_trans [OF reply_length stream_limit_fits [OF assms(5)]]]
  by (simp add: helper_call_def)

text \<open>C37.  The helper is a transparent transport: a request of the client reaches the daemon with its verb and arguments as they were,
  whatever bytes they hold, and the client is told the verdict of the daemon's operation and its text, decoded: bytes that are not UTF-8 (the output of a command
  cut in the middle of a character) arrive as replacement characters, an ASCII text as it was.  This holds as long as the reply fits the stream of the client.  A character is a byte.\<close>

theorem helper_reaches_daemon:
  assumes "verb_ok verb" and "length args \<le> 8" and "length (encode_request verb args) < max_line_bytes"
    and "handle_request ke (encode_request verb args) h = (reply_of (ok, t), logs, h1)" and "length (b64_encode t) + 5 \<le> stream_limit"
  shows "parse_request (encode_request verb args) = Some (verb, args) \<and>
     helper_call (daemon_socket ke) socket verb args h = (Inr (ok, decode_lossy t), h1) \<and>
     (is_ascii t \<longrightarrow> decode_lossy t = t)"
  using assms decode_ascii [of t] parse_encoded [OF assms(1,2)] call_answered [OF assms] by simp

text \<open>A kernel of one file, that records the signals it is asked to deliver.\<close>

definition small_kernel :: "((string \<times> string) list \<times> (int \<times> int) list) kernel" where
  "small_kernel =
     \<lparr>ke_read = (\<lambda>p h. map_of (fst h) p), ke_write = (\<lambda>p v h. (Written, (AList.update p v (fst h), snd h))),
      ke_kill = (\<lambda>pid sig h. (Delivered, (fst h, (pid, sig) # snd h))), ke_systemctl = (\<lambda>argv h. (No_fork, h))\<rparr>"

theorem helper_reaches_daemon_witness:
  "helper_call (daemon_socket small_kernel) ''sock'' ''SIGNAL'' [''4242'', ''15''] ([], []) =
     (Inr (True, ''signal delivered''), ([], [(4242, 15)]))"
proof -
  have size: "length (encode_request ''SIGNAL'' [''4242'', ''15'']) < max_line_bytes" "verb_ok ''SIGNAL''"
    by (simp_all add: encode_request_def Let_def max_line_bytes_def verb_ok_def)
  have "number_arg ''4242'' = Some 4242" "number_arg ''15'' = Some 15" "pid_t 4242 = 4242" by code_simp+
  then obtain logs where "handle_request small_kernel (encode_request ''SIGNAL'' [''4242'', ''15'']) ([], []) =
      (reply_of (True, ''signal delivered''), logs, ([], [(4242, 15)]))"
    using parse_encoded [of "''SIGNAL''" "[''4242'', ''15'']"] size
    by (simp add: handle_request_def signal_request_def send_signal_op_def daemon_signal_def daemon_signals_def small_kernel_def)
  moreover have "length (b64_encode ''signal delivered'') + 5 \<le> stream_limit" by (simp add: Let_def stream_limit_def)
  ultimately show ?thesis using size
    using helper_reaches_daemon [of "''SIGNAL''" "[''4242'', ''15'']" small_kernel "([], [])" True "''signal delivered''" logs
        "([], [(4242, 15)])" "''sock''"]
    by (simp add: is_ascii_def)
qed

section \<open>What the daemon can be made to do\<close>

text \<open>
  The runs the policy allows: whatever is written, signalled or changed is within the policy and is in the log, with what
  was asked for; only reading the state of a unit leaves no line.
\<close>

definition kept_out :: "string \<Rightarrow> string \<Rightarrow> bool" where
  "kept_out unit action = (severing action \<and> strip_service_suffix unit \<in> set critical_units)"

definition write_entry :: "string \<Rightarrow> string \<Rightarrow> string \<Rightarrow> priority \<times> string" where
  "write_entry key value outcome = (LOG_NOTICE, ''sysctl_set '' @ key @ ''='' @ value @ outcome)"

definition signal_entry :: "int \<Rightarrow> int \<Rightarrow> string \<Rightarrow> priority \<times> string" where
  "signal_entry pid sig outcome = (LOG_NOTICE, ''signal '' @ show_int sig @ '' to pid '' @ show_int pid @ outcome)"

definition unit_entry :: "string \<Rightarrow> string \<Rightarrow> string \<Rightarrow> priority \<times> string" where
  "unit_entry unit action outcome = (LOG_NOTICE, ''service '' @ action @ '' '' @ unit @ outcome)"

inductive allowed_run :: "'h kernel \<Rightarrow> 'h \<Rightarrow> syslog \<Rightarrow> 'h \<Rightarrow> bool" for ke where
  idle: "allowed_run ke h [] h"
| noted: "allowed_run ke h logs h2 \<Longrightarrow> allowed_run ke h (entry # logs) h2"
| wrote: "\<lbrakk>wellformed_key key; key \<notin> fst ` set refused_keys; list_ex (\<lambda>p. starts_with p key) writable_prefixes;
    list_all (\<lambda>c. \<not> control_char c) value; CHR ''.'' \<notin> set (daemon_sysctl_path key);
    allowed_run ke (snd (ke_write ke (daemon_sysctl_path key) value h)) logs h2\<rbrakk>
    \<Longrightarrow> allowed_run ke h (write_entry key value outcome # logs) h2"
| signalled: "\<lbrakk>1 < pid; sig \<in> set daemon_signals; allowed_run ke (snd (ke_kill ke (pid_t pid) sig h)) logs h2\<rbrakk>
    \<Longrightarrow> allowed_run ke h (signal_entry pid sig outcome # logs) h2"
| managed: "\<lbrakk>list_all unit_char unit; action \<in> set mutate_actions; \<not> kept_out unit action;
    allowed_run ke (snd (ke_systemctl ke [''systemctl'', action, unit, ''--no-pager''] h)) logs h2\<rbrakk>
    \<Longrightarrow> allowed_run ke h (unit_entry unit action outcome # logs) h2"
| inspected: "\<lbrakk>list_all unit_char unit; action \<in> set read_actions;
    allowed_run ke (snd (ke_systemctl ke [''systemctl'', action, unit, ''--no-pager''] h)) logs h2\<rbrakk>
    \<Longrightarrow> allowed_run ke h logs h2"

lemma allowed_run_trans: "allowed_run ke h logs h1 \<Longrightarrow> allowed_run ke h1 logs1 h2 \<Longrightarrow> allowed_run ke h (logs @ logs1) h2"
  by (induction rule: allowed_run.induct) (auto intro: allowed_run.intros)

lemma allowed_quiet: "allowed_run ke h logs h"
  by (induction logs) (auto intro: allowed_run.intros)

lemma write_allowed:
  "daemon_sysctl_write key = Allow \<Longrightarrow> wellformed_key key \<and> key \<notin> fst ` set refused_keys \<and> list_ex (\<lambda>p. starts_with p key) writable_prefixes"
  by (auto simp: daemon_sysctl_write_def map_of_eq_None_iff split: if_splits option.splits)

lemma sysctl_set_effect:
  assumes "sysctl_set ke key value h = (r, h1)"
  shows "h1 = h \<or> (h1 = snd (ke_write ke (daemon_sysctl_path key) value h) \<and> list_all (\<lambda>c. \<not> control_char c) value)"
  using assms by (auto simp: sysctl_set_def list_ex_iff list_all_iff split: if_splits prod.splits bool.splits write_end.splits)

lemma signal_allowed: "daemon_signal pid sig = Allow \<Longrightarrow> 1 < pid \<and> sig \<in> set daemon_signals"
  by (auto simp: daemon_signal_def split: if_splits)

lemma service_allowed:
  "daemon_service unit action = Allow \<Longrightarrow>
     list_all unit_char unit \<and> action \<in> set read_actions \<union> set mutate_actions \<and> \<not> kept_out unit action"
  by (auto simp: daemon_service_def kept_out_def severing_def read_actions_def split: if_splits)

lemma c_str_plain: "list_all (\<lambda>c. c \<noteq> CHR 0x00) t \<Longrightarrow> c_str t = t"
  by (simp add: c_str_def list_all_iff takeWhile_eq_all_conv)

lemma unit_char_plain: "list_all unit_char unit \<Longrightarrow> c_str unit = unit"
  by (rule c_str_plain) (auto simp: list_all_iff unit_char_def alnum_def is_digit_def)

lemma action_plain: "action \<in> set read_actions \<union> set mutate_actions \<Longrightarrow> c_str action = action"
  by (auto simp: read_actions_def mutate_actions_def c_str_def)

lemma sysctl_path_plain: "CHR ''.'' \<notin> set (daemon_sysctl_path key)"
  by (auto simp: daemon_sysctl_path_def)

lemma key_plain: "wellformed_key key \<Longrightarrow> c_str key = key"
  by (rule c_str_plain) (auto simp: wellformed_key_def list_all_iff alnum_def is_digit_def)

lemma value_plain: "list_all (\<lambda>c. \<not> control_char c) value \<Longrightarrow> c_str value = value"
  by (rule c_str_plain) (auto simp: list_all_iff control_char_def byte_def)

lemma sysctl_request_allowed:
  assumes "sysctl_set_request ke key value h = (reply, logs, h1)"
  shows "allowed_run ke h logs h1"
proof (cases "daemon_sysctl_write key")
  case (Refuse reason)
  then show ?thesis using assms by (auto simp: sysctl_set_request_def allowed_quiet)
next
  case Allow
  obtain r h2 where set: "sysctl_set ke key value h = (r, h2)" by (cases "sysctl_set ke key value h") blast
  define outcome where "outcome = '' -> '' @ (if fst r then ''ok'' else ''failed'') @ '' ('' @ c_str (snd r) @ '')''"
  have h1: "h1 = h2" and logs: "logs = [write_entry (c_str key) (c_str value) outcome]"
    using assms Allow set by (simp_all add: sysctl_set_request_def outcome_def write_entry_def)
  note key = write_allowed [OF Allow]
  show ?thesis
  proof (cases "h1 = h")
    case True
    then show ?thesis by (simp add: allowed_quiet)
  next
    case False
    then have "h1 = snd (ke_write ke (daemon_sysctl_path key) value h)" "list_all (\<lambda>c. \<not> control_char c) value"
      using sysctl_set_effect [OF set] h1 by auto
    then show ?thesis using key logs key_plain value_plain sysctl_path_plain
      by (auto intro!: allowed_run.wrote allowed_run.idle)
  qed
qed

lemma signal_op_effect: "daemon_signal pid sig = Allow \<Longrightarrow> snd (send_signal_op ke pid sig h) = snd (ke_kill ke (pid_t pid) sig h)"
  by (auto simp: send_signal_op_def split: prod.splits kill_end.splits)

lemma signal_request_effect:
  assumes "signal_request ke pid_text sig_text h = (reply, logs, h1)" and "h1 \<noteq> h"
  shows "\<exists>pid sig outcome. daemon_signal pid sig = Allow \<and> h1 = snd (ke_kill ke (pid_t pid) sig h) \<and>
    logs = [signal_entry pid sig outcome]"
proof -
  obtain pid sig where n: "number_arg pid_text = Some pid" "number_arg sig_text = Some sig" "\<not> (sig \<le> 0 \<or> sig > 64)" "daemon_signal pid sig = Allow"
    using assms by (simp add: signal_request_def split: option.splits if_splits verdict.splits)
  obtain r h2 where op: "send_signal_op ke pid sig h = (r, h2)" by (cases "send_signal_op ke pid sig h") blast
  have "logs = [signal_entry pid sig ('' -> '' @ (if fst r then ''ok'' else snd r))]" "h1 = h2"
    using assms n op by (simp_all add: signal_request_def signal_entry_def)
  then show ?thesis using n(4) op signal_op_effect [OF n(4), of ke h] by auto
qed

lemma signal_request_allowed:
  assumes "signal_request ke pid_text sig_text h = (reply, logs, h1)"
  shows "allowed_run ke h logs h1"
proof (cases "h1 = h")
  case True
  then show ?thesis by (simp add: allowed_quiet)
next
  case False
  then obtain pid sig outcome where "daemon_signal pid sig = Allow" "h1 = snd (ke_kill ke (pid_t pid) sig h)"
    "logs = [signal_entry pid sig outcome]"
    using assms signal_request_effect [of ke pid_text sig_text h] by auto
  then show ?thesis using signal_allowed [of pid sig] by (auto intro!: allowed_run.signalled allowed_run.idle)
qed

lemma service_action_effect: "snd (service_action ke unit action h) = snd (ke_systemctl ke [''systemctl'', c_str action, c_str unit, ''--no-pager''] h)"
  by (auto simp: service_action_def split: prod.splits child_end.splits)

lemma service_request_allowed:
  assumes "service_request ke unit action h = (reply, logs, h1)"
  shows "allowed_run ke h logs h1"
proof (cases "daemon_service unit action")
  case (Refuse reason)
  then show ?thesis using assms by (auto simp: service_request_def allowed_quiet)
next
  case Allow
  note allowed = service_allowed [OF Allow]
  obtain r h2 where act: "service_action ke unit action h = (r, h2)" by (cases "service_action ke unit action h") blast
  have h1: "h1 = snd (ke_systemctl ke [''systemctl'', action, unit, ''--no-pager''] h)"
    using assms Allow act service_action_effect [of ke unit action h] allowed unit_char_plain action_plain
    by (simp add: service_request_def)
  show ?thesis
  proof (cases "action \<in> set read_actions")
    case True
    then have "logs = []" using assms Allow act by (simp add: service_request_def)
    then show ?thesis using h1 True allowed by (auto intro!: allowed_run.inspected [of unit action] allowed_run.idle)
  next
    case False
    then have "logs = [unit_entry unit action ('' -> '' @ (if fst r then ''ok'' else ''failed''))]"
      using assms Allow act by (simp add: service_request_def unit_entry_def)
    then show ?thesis using h1 False allowed by (auto intro!: allowed_run.managed allowed_run.idle)
  qed
qed

lemma request_allowed:
  assumes "handle_request ke line h = (reply, logs, h1)"
  shows "allowed_run ke h logs h1"
  using assms sysctl_request_allowed signal_request_allowed service_request_allowed
  by (auto simp: handle_request_def allowed_quiet split: option.splits prod.splits if_splits list.splits verdict.splits)

lemma answers_allowed: "answer_lines ke b h = (out, logs, r, h1) \<Longrightarrow> allowed_run ke h logs h1"
proof (induction ke b h arbitrary: out logs r h1 rule: answer_lines.induct)
  case (1 ke b h)
  show ?case
  proof (cases "CHR 0x0A \<in> set b")
    case False
    then show ?thesis using "1.prems" by (simp add: answer_no_line allowed_run.idle)
  next
    case True
    obtain reply l h2 where req: "handle_request ke (takeWhile (\<lambda>c. c \<noteq> CHR 0x0A) b) h = (reply, l, h2)"
      by (cases "handle_request ke (takeWhile (\<lambda>c. c \<noteq> CHR 0x0A) b) h") blast
    obtain out2 l2 r2 h3 where go: "answer_lines ke (tl (dropWhile (\<lambda>c. c \<noteq> CHR 0x0A) b)) h2 = (out2, l2, r2, h3)"
      by (cases "answer_lines ke (tl (dropWhile (\<lambda>c. c \<noteq> CHR 0x0A) b)) h2") blast
    have "logs = l @ l2" "h1 = h3" using "1.prems" True req go by (simp_all add: answer_lines.simps [of ke b h])
    then show ?thesis using request_allowed [OF req] 1 True req go by (auto intro: allowed_run_trans)
  qed
qed

lemma connection_allowed: "serve_connection ke b chunks h = (out, logs, h1) \<Longrightarrow> allowed_run ke h logs h1"
proof (induction chunks arbitrary: b h out logs h1)
  case (Cons chunk chunks)
  show ?case
  proof (cases "length (b @ chunk) > max_line_bytes")
    case True
    then show ?thesis using Cons.prems by (simp add: Let_def allowed_quiet)
  next
    case False
    obtain o1 l1 r1 h2 where head: "answer_lines ke (b @ chunk) h = (o1, l1, r1, h2)"
      by (cases "answer_lines ke (b @ chunk) h") blast
    obtain o2 l2 h3 where tail: "serve_connection ke r1 chunks h2 = (o2, l2, h3)"
      by (cases "serve_connection ke r1 chunks h2") blast
    have "logs = l1 @ l2" "h1 = h3" using Cons.prems False head tail by (simp_all add: Let_def)
    then show ?thesis using answers_allowed [OF head] Cons.IH [OF tail] by (simp add: allowed_run_trans)
  qed
qed (simp add: allowed_run.idle)

text \<open>C36.  Whatever bytes a client sends, in whatever pieces, all the daemon does is an allowed run: it writes only parameters of the
  reviewed set and never a refused one, at a path below \<open>/proc/sys\<close> that no key can leave, with a value that is one line; it
  delivers only the listed signals, for a pid above 1 as it was asked; it stops, disables or restarts none of the units that keep the
  operator connected; and every one of these changes is in syslog with what was asked.\<close>

theorem daemon_confines:
  "case serve_connection ke buffer chunks h of (out, logs, h1) \<Rightarrow> allowed_run ke h logs h1"
  using connection_allowed by (cases "serve_connection ke buffer chunks h") auto

section \<open>The two policies\<close>

lemma wellformed_strip:
  assumes "wellformed_key key"
  shows "strip key = key"
proof -
  have "\<not> is_space c" if "c \<in> set key" for c
    using assms that by (auto simp: wellformed_key_def list_all_iff alnum_def is_digit_def is_space_def Let_def less_eq_char_def)
  then have "lstrip key = key" "lstrip (rev key) = rev key"
    by (auto intro!: lstrip_fix simp: hd_rev)
  then show ?thesis by (simp add: strip_def)
qed

lemma refused_same: "(map_of refused_keys key = None) = (map_of sysctl_refused key = None)"
  by (auto simp: refused_keys_def sysctl_refused_def map_of_eq_None_iff)

lemma writes_agree:
  "daemon_sysctl_write key = Allow \<longleftrightarrow>
     wellformed_key key \<and> (fst (classify_sysctl key) = MUTATE \<or> starts_with ''net.ipv4.ip_forward'' key)"
proof (cases "wellformed_key key")
  case True
  have prefixes: "list_ex (\<lambda>p. starts_with p key) writable_prefixes \<longleftrightarrow>
      list_ex (\<lambda>p. starts_with p key) sysctl_mutable_prefixes \<or> starts_with ''net.ipv4.ip_forward'' key"
    by (auto simp: writable_prefixes_def sysctl_mutable_prefixes_def)
  have forward: "map_of refused_keys key = None" if "starts_with ''net.ipv4.ip_forward'' key"
  proof (rule ccontr)
    assume "map_of refused_keys key \<noteq> None"
    then have "key \<in> fst ` set refused_keys" by (simp add: map_of_eq_None_iff)
    then show False using that unfolding refused_keys_def by (elim imageE) (auto simp: starts_with_def)
  qed
  show ?thesis using True wellformed_strip [OF True] prefixes forward refused_same [of key]
    by (cases "map_of refused_keys key"; cases "map_of sysctl_refused key")
      (auto simp: daemon_sysctl_write_def classify_sysctl_def Let_def)
qed (simp add: daemon_sysctl_write_def)

lemma signals_agree: "fst (classify_signal pid sig own) = MUTATE \<longleftrightarrow> daemon_signal pid sig = Allow \<and> pid \<noteq> own"
proof -
  have known: "sig \<in> fst ` set known_signals \<longleftrightarrow> sig \<in> set daemon_signals" by (auto simp: daemon_signals_def known_signals_def)
  have named: "\<exists>name. map_of all_signals sig = Some name" if "sig \<in> set daemon_signals"
    using that by (auto simp: daemon_signals_def all_signals_def known_signals_def)
  show ?thesis
  proof (cases "sig \<in> set daemon_signals")
    case True
    then obtain name where "map_of all_signals sig = Some name" using named by blast
    then show ?thesis using True by (simp add: classify_signal_def daemon_signal_def protected_pids_def known)
  next
    case False
    then show ?thesis by (simp add: classify_signal_def daemon_signal_def protected_pids_def known split: option.splits)
  qed
qed

lemma unit_names: "list_all unit_char unit \<Longrightarrow> service_name unit \<longleftrightarrow> unit \<noteq> [] \<and> length unit \<le> 128"
proof -
  assume u: "list_all unit_char unit"
  have "service_name_char c" "c \<noteq> CHR 0x0A" if "c \<in> set unit" for c
    using u that by (auto simp: list_all_iff unit_char_def service_name_char_def alnum_def is_digit_def)
  then have "list_all service_name_char unit" "before_newline unit = unit"
    by (auto simp: list_all_iff before_newline_def)
  then show ?thesis by (auto simp: service_name_def full_match_def)
qed

lemma services_agree:
  "daemon_service unit action = Allow \<longleftrightarrow> list_all unit_char unit \<and> fst (classify_service unit action) \<noteq> REFUSED"
proof (cases "list_all unit_char unit")
  case True
  have base: "strip_service_suffix unit \<in> set critical_units \<longleftrightarrow> remove_suffix ''.service'' unit \<in> set critical_services"
  proof (cases "ends_with ''.service'' unit")
    case True
    then have "take (length (rev ''.service'')) (rev unit) = rev ''.service''" by (simp only: ends_with_def starts_with_def)
    then have "length (take (length (rev ''.service'')) (rev unit)) = length (rev ''.service'')" by (simp only:)
    then have "8 \<le> length unit" by (simp add: min_def split: if_splits)
    then consider "8 < length unit" | "length unit = 8" by linarith
    then show ?thesis
    proof cases
      case 1
      have "remove_suffix ''.service'' unit = take (length unit - 8) unit" using True by (simp add: remove_suffix_def numeral_eq_Suc)
      then show ?thesis using 1 True by (simp add: strip_service_suffix_def critical_units_def critical_services_def)
    next
      case 2
      then have "rev unit = rev ''.service''" using True by (simp add: ends_with_def starts_with_def)
      then have "unit = ''.service''" by (simp only: rev_is_rev_conv)
      then show ?thesis using True by (simp add: strip_service_suffix_def remove_suffix_def critical_units_def critical_services_def)
    qed
  qed (simp add: strip_service_suffix_def remove_suffix_def critical_units_def critical_services_def)
  show ?thesis using True unit_names [OF True] base
    by (auto simp: daemon_service_def classify_service_def Let_def severing_def read_actions_def service_read_actions_def
        mutate_actions_def service_mutate_actions_def)
qed (auto simp: daemon_service_def)

text \<open>C38.  The daemon's policy against the client's, which it is meant to repeat: it allows the same signals (but for the agent's own
  process, which it cannot know) and the same actions on units (but for names with a backslash or a final newline); it allows the
  same parameters and one more, the switch of IP forwarding, which the client never asks for.\<close>

theorem daemon_agrees:
  "(daemon_sysctl_write key = Allow \<longleftrightarrow>
      wellformed_key key \<and> (fst (classify_sysctl key) = MUTATE \<or> starts_with ''net.ipv4.ip_forward'' key)) \<and>
   (fst (classify_signal pid sig own) = MUTATE \<longleftrightarrow> daemon_signal pid sig = Allow \<and> pid \<noteq> own) \<and>
   (daemon_service unit action = Allow \<longleftrightarrow> list_all unit_char unit \<and> fst (classify_service unit action) \<noteq> REFUSED)"
  using writes_agree signals_agree services_agree by auto

section \<open>Pieces\<close>

lemma answer_append:
  "answer_lines ke (b @ c) h =
     (case answer_lines ke b h of (o1, l1, r1, h1) \<Rightarrow>
        (case answer_lines ke (r1 @ c) h1 of (o2, l2, r2, h2) \<Rightarrow> (o1 @ o2, l1 @ l2, r2, h2)))"
proof (induction ke b h rule: answer_lines.induct)
  case (1 ke b h)
  show ?case
  proof (cases "CHR 0x0A \<in> set b")
    case False
    then show ?thesis by (simp add: answer_no_line split: prod.splits)
  next
    case True
    then obtain line r where b: "b = line @ CHR 0x0A # r" "CHR 0x0A \<notin> set line" by (meson split_list_first)
    have parts: "takeWhile (\<lambda>c. c \<noteq> CHR 0x0A) b = line" "tl (dropWhile (\<lambda>c. c \<noteq> CHR 0x0A) b) = r"
      unfolding b(1) using b(2) by (induction line) auto
    obtain reply l h2 where req: "handle_request ke line h = (reply, l, h2)" by (cases "handle_request ke line h") blast
    have "answer_lines ke (r @ c) h2 = (case answer_lines ke r h2 of (o1, l1, r1, h1) \<Rightarrow>
        (case answer_lines ke (r1 @ c) h1 of (o2, l2, r2, h2) \<Rightarrow> (o1 @ o2, l1 @ l2, r2, h2)))"
      using 1 True req parts by simp
    moreover obtain o1 l1 r1 h3 where go: "answer_lines ke r h2 = (o1, l1, r1, h3)" by (cases "answer_lines ke r h2") blast
    moreover obtain o2 l2 r2 h4 where "answer_lines ke (r1 @ c) h3 = (o2, l2, r2, h4)" by (cases "answer_lines ke (r1 @ c) h3") blast
    ultimately show ?thesis using answer_line [OF b(2), of ke r h] answer_line [OF b(2), of ke "r @ c" h] req by (simp add: b(1))
  qed
qed

lemma answer_rest: "answer_lines ke b h = (o1, l1, r1, h1) \<Longrightarrow> CHR 0x0A \<notin> set r1 \<and> length r1 \<le> length b"
proof (induction ke b h arbitrary: o1 l1 r1 h1 rule: answer_lines.induct)
  case (1 ke b h)
  show ?case
  proof (cases "CHR 0x0A \<in> set b")
    case False
    then show ?thesis using "1.prems" by (simp add: answer_no_line)
  next
    case True
    obtain reply l h2 where req: "handle_request ke (takeWhile (\<lambda>c. c \<noteq> CHR 0x0A) b) h = (reply, l, h2)"
      by (cases "handle_request ke (takeWhile (\<lambda>c. c \<noteq> CHR 0x0A) b) h") blast
    obtain o2 l2 r2 h3 where go: "answer_lines ke (tl (dropWhile (\<lambda>c. c \<noteq> CHR 0x0A) b)) h2 = (o2, l2, r2, h3)"
      by (cases "answer_lines ke (tl (dropWhile (\<lambda>c. c \<noteq> CHR 0x0A) b)) h2") blast
    have "r1 = r2" using "1.prems" True req go by (simp add: answer_lines.simps [of ke b h])
    moreover have "CHR 0x0A \<notin> set r2 \<and> length r2 \<le> length (tl (dropWhile (\<lambda>c. c \<noteq> CHR 0x0A) b))"
      using "1.IH" True req go by auto
    ultimately show ?thesis using rest_shorter [OF True] by (simp del: length_tl)
  qed
qed

lemma serve_pieces:
  "length (b @ concat chunks) \<le> max_line_bytes \<Longrightarrow> CHR 0x0A \<notin> set b \<Longrightarrow>
   serve_connection ke b chunks h = (case answer_lines ke (b @ concat chunks) h of (out, logs, r, h1) \<Rightarrow> (out, logs, h1))"
proof (induction chunks arbitrary: b h)
  case (Cons chunk chunks)
  obtain o1 l1 r1 h1 where head: "answer_lines ke (b @ chunk) h = (o1, l1, r1, h1)"
    by (cases "answer_lines ke (b @ chunk) h") blast
  note rest = answer_rest [OF head]
  have "serve_connection ke r1 chunks h1 = (case answer_lines ke (r1 @ concat chunks) h1 of (out, logs, r, h1) \<Rightarrow> (out, logs, h1))"
    using Cons.prems rest by (intro Cons.IH) auto
  moreover have "answer_lines ke (b @ chunk @ concat chunks) h =
      (case answer_lines ke (r1 @ concat chunks) h1 of (o2, l2, r2, h2) \<Rightarrow> (o1 @ o2, l1 @ l2, r2, h2))"
    using answer_append [of ke "b @ chunk" "concat chunks" h] head by simp
  ultimately show ?case using Cons.prems head by (simp add: Let_def split: prod.splits)
qed (simp add: answer_no_line)

text \<open>How the bytes of a connection are cut into reads makes no difference: the replies, the log and what is done on the host are
  those of the whole text read at once.\<close>

theorem pieces_do_not_matter:
  assumes "length (concat chunks) \<le> max_line_bytes"
  shows "serve_connection ke [] chunks h = serve_connection ke [] [concat chunks] h"
  using serve_pieces [of "[]" chunks ke h] serve_pieces [of "[]" "[concat chunks]" ke h] assms by simp

theorem pieces_do_not_matter_witness:
  "serve_connection small_kernel [] [''PI'', ''NG'' @ [CHR 0x0A]] ([], []) = serve_connection small_kernel [] [''PING'' @ [CHR 0x0A]] ([], [])"
  using pieces_do_not_matter [of "[''PI'', ''NG'' @ [CHR 0x0A]]" small_kernel "([], [])"] by (simp add: max_line_bytes_def)

section \<open>A pid of 64 bits\<close>

lemma b64_length: "length (b64_encode t) = 4 * ((length t + 2) div 3)"
proof (induction t rule: b64_encode.induct)
  case (4 a b c r)
  have "(5 + length r) div 3 = Suc ((length r + 2) div 3)" by presburger
  then show ?case using 4 by (simp add: Let_def)
qed (simp_all add: Let_def)

lemma number_arg_show:
  assumes "0 \<le> n" and "n < 2 ^ 63"
  shows "number_arg (show_int n) = Some n"
proof -
  have digits: "list_all is_digit (show_int n)" using assms by (simp add: show_int_def show_nat_digits)
  then have plain: "c_str (show_int n) = show_int n" by (intro c_str_plain) (auto simp: list_all_iff is_digit_def)
  obtain c cs where t: "show_int n = c # cs" using assms by (cases "show_int n") (auto simp: show_int_def)
  have "is_digit c" using digits t by simp
  then have c: "\<not> c_space c" "c \<noteq> CHR ''-''" "c \<noteq> CHR ''+''"
    by (auto simp: is_digit_code c_space_def byte_def)
  have "takeWhile is_digit (show_int n) = show_int n" "dropWhile is_digit (show_int n) = []"
    using digits by (auto simp: list_all_iff takeWhile_eq_all_conv)
  moreover have "digits_val (show_int n) = nat n" using assms by (simp add: show_int_def digits_val_show_nat)
  ultimately have "strtol (show_int n) = Some (n, [])"
    using c assms unfolding strtol_def Let_def by (simp add: t clamp_long_def)
  then show ?thesis by (simp add: number_arg_def plain)
qed

text \<open>C39.  A signal sent through the helper is delivered by the kernel to the pid cut to 32 bits.  That is the pid asked for below
  \<open>2^31\<close>; but both policies judge the number of 64 bits, so the pid 4294967297, which they accept, is the process 1, which both of
  them protect.\<close>

theorem signal_arrives:
  assumes "sp_enabled p" and "sp_allow_mutations p" and "sp_backend p = ''helper''" and "ho_socket ho = daemon_socket ke"
    and "1 < pid" and "pid < 2 ^ 63" and "pid \<noteq> ho_own_pid ho" and "sig \<in> set daemon_signals"
  shows "snd (send_signal ho p pid sig h) = snd (ke_kill ke (pid_t pid) sig h) \<and>
     (pid \<ge> 2 ^ 31 \<or> pid_t pid = pid) \<and> pid_t 4294967297 = 1"
proof -
  let ?line = "encode_request ''SIGNAL'' [show_int pid, show_int sig]"
  have sig: "0 < sig" "sig < 64" "sig < 2 ^ 63" using assms(8) by (auto simp: daemon_signals_def)
  have "length (show_int pid) \<le> 20" "length (show_int sig) \<le> 20"
    using assms(5,6) sig by (auto simp: show_int_def intro!: show_nat_length)
  then have "length (b64_encode (show_int pid)) \<le> 28" "length (b64_encode (show_int sig)) \<le> 28"
    unfolding b64_length using div_le_mono [of "length (show_int pid) + 2" 22 3] div_le_mono [of "length (show_int sig) + 2" 22 3]
    by simp_all
  then have size: "length ?line < max_line_bytes" "verb_ok ''SIGNAL''"
    by (simp_all add: encode_request_def max_line_bytes_def verb_ok_def)
  have allow: "daemon_signal pid sig = Allow" using assms by (simp add: daemon_signal_def)
  have "number_arg (show_int pid) = Some pid" "number_arg (show_int sig) = Some sig"
    using assms sig by (simp_all add: number_arg_show)
  then have "snd (snd (handle_request ke ?line h)) = snd (ke_kill ke (pid_t pid) sig h)"
    using parse_encoded [of "''SIGNAL''" "[show_int pid, show_int sig]"] size sig allow signal_op_effect [OF allow, of ke h]
    by (cases "send_signal_op ke pid sig h") (simp add: handle_request_def signal_request_def)
  then have "snd (helper_signal ho p pid sig h) = snd (ke_kill ke (pid_t pid) sig h)"
    using call_state [OF size(2,1), of ke "sp_socket p" h] assms
    by (cases "helper_call (daemon_socket ke) (sp_socket p) ''SIGNAL'' [show_int pid, show_int sig] h")
      (auto simp: helper_signal_def split: sum.splits)
  moreover obtain reason where "classify_signal pid sig (ho_own_pid ho) = (MUTATE, reason)"
    using assms(7) allow signals_agree [of pid sig "ho_own_pid ho"] by (cases "classify_signal pid sig (ho_own_pid ho)") auto
  ultimately have "snd (send_signal ho p pid sig h) = snd (ke_kill ke (pid_t pid) sig h)" using assms
    by (simp add: send_signal_def policy_defs Let_def)
  moreover have "pid_t pid = pid" if "pid < 2 ^ 31"
    using that assms(5) by (simp add: pid_t_def sint_sbintrunc' signed_take_bit_int_eq_self)
  moreover have "pid_t 4294967297 = 1" by code_simp
  ultimately show ?thesis by linarith
qed

theorem signal_arrives_witness:
  "snd (send_signal
      \<lparr>ho_io = undefined, ho_write = (\<lambda>p v h. (Host_Ops.Written, h)), ho_kill = (\<lambda>pid sig h. (Host_Ops.No_process, h)),
       ho_systemctl = (\<lambda>action unit h. (Systemctl_missing, h)), ho_socket = daemon_socket small_kernel, ho_own_pid = 4242\<rparr>
      (open_policy\<lparr>sp_backend := ''helper''\<rparr>) 4294967297 9 ([], [])) = ([], [(1, 9)])"
proof -
  have "pid_t 4294967297 = 1" by code_simp
  then show ?thesis
    using signal_arrives [where ke = small_kernel and h = "([], [])" and pid = 4294967297 and sig = 9]
    by (simp add: open_policy_def small_kernel_def daemon_signals_def)
qed

end
