(* ===== verification/Daemon_Guard.thy ===== *)
theory Daemon_Guard
  imports Guard_Props Daemon_Props
begin

text \<open>
  The guard with the helper backend: the model of the daemon keeps the laws that the guard relies on
  (\<open>daemon_laws\<close>), given those of the kernel below it.
\<close>

section \<open>What a write request does\<close>

lemma set_op_effect:
  assumes "sysctl_set ke key v h = ((ok, t), h1)"
  shows "if ok then ke_write ke (daemon_sysctl_path key) v h = (Daemon.Written, h1)
    else h1 = h \<or> (\<exists>y. ke_write ke (daemon_sysctl_path key) v h = (y, h1) \<and> y \<noteq> Daemon.Written)"
  using assms by (auto simp: sysctl_set_def split: if_splits prod.splits bool.splits write_end.splits)

lemma set_request_effect:
  assumes "handle_request ke (encode_request ''SYSCTL_SET'' [key, v]) h = (reply, logs, h1)"
    and "length (encode_request ''SYSCTL_SET'' [key, v]) \<le> max_line_bytes"
  shows "\<exists>ok t. reply = reply_of (ok, t) \<and>
    (if ok then ke_write ke (daemon_sysctl_path key) v h = (Daemon.Written, h1)
     else h1 = h \<or> (\<exists>y. ke_write ke (daemon_sysctl_path key) v h = (y, h1) \<and> y \<noteq> Daemon.Written))"
proof -
  have parse: "parse_request (encode_request ''SYSCTL_SET'' [key, v]) = Some (''SYSCTL_SET'', [key, v])"
    using assms(2) by (intro parse_encoded) (simp_all add: verb_ok_def)
  then have req: "sysctl_set_request ke key v h = (reply, logs, h1)" using assms(1) by (simp add: handle_request_def)
  show ?thesis
  proof (cases "daemon_sysctl_write key")
    case Allow
    obtain ok t h2 where op: "sysctl_set ke key v h = ((ok, t), h2)" by (metis prod.exhaust)
    then have "reply = reply_of (ok, t)" "h2 = h1" using req Allow by (auto simp: sysctl_set_request_def)
    with set_op_effect [OF op] show ?thesis by blast
  next
    case (Refuse reason)
    then have "reply = reply_of (False, reason)" "h1 = h" using req by (simp_all add: sysctl_set_request_def reply_of_def)
    then show ?thesis by force
  qed
qed

text \<open>The answer that the client reads is the answer of the operation.\<close>

lemma set_call_effect:
  assumes "helper_call (daemon_socket ke) socket ''SYSCTL_SET'' [key, v] h = (Inr (ok, e), h1)"
  shows "if ok then ke_write ke (daemon_sysctl_path key) v h = (Daemon.Written, h1)
    else h1 = h \<or> (\<exists>y. ke_write ke (daemon_sysctl_path key) v h = (y, h1) \<and> y \<noteq> Daemon.Written)"
proof (cases "length (encode_request ''SYSCTL_SET'' [key, v]) < max_line_bytes")
  case False
  let ?too = "reply_of (False, ''request too large'')"
  obtain t where t: "?too = t @ [CHR 0x0A]" "CHR 0x0A \<notin> set t" using reply_lines by blast
  have "takeWhile (\<lambda>c. c \<noteq> CHR 0x0A) (t @ [CHR 0x0A]) = t" using t(2) by (induction t) auto
  then have sock: "daemon_socket ke socket (encode_request ''SYSCTL_SET'' [key, v] @ [CHR 0x0A]) h = (Reply_line ?too, h)"
    using False t by (simp add: daemon_socket_def reply_of_def)
  have "length ?too \<le> max_reply_bytes"
    using reply_length [of False "''request too large''"] by (simp add: Let_def max_reply_bytes_def)
  from reply_read_back [OF this] sock assms show ?thesis by (auto simp: helper_call_def)
next
  case True
  obtain reply logs h2 where hr: "handle_request ke (encode_request ''SYSCTL_SET'' [key, v]) h = (reply, logs, h2)"
    by (metis prod.exhaust)
  from set_request_effect [OF hr] True obtain ok' t where r: "reply = reply_of (ok', t)" and
    eff: "if ok' then ke_write ke (daemon_sysctl_path key) v h = (Daemon.Written, h2)
      else h2 = h \<or> (\<exists>y. ke_write ke (daemon_sysctl_path key) v h = (y, h2) \<and> y \<noteq> Daemon.Written)" by auto
  have plain: "CHR 0x0A \<notin> set (encode_request ''SYSCTL_SET'' [key, v])" by (rule request_line_plain) simp
  have sock: "daemon_socket ke socket (encode_request ''SYSCTL_SET'' [key, v] @ [CHR 0x0A]) h = (Reply_line reply, h2)"
    unfolding r by (rule socket_answers [OF plain True]) (use hr r in simp)
  then have read: "read_reply reply = Inr (ok, e)" "h2 = h1" using assms by (simp_all add: helper_call_def)
  then have "length (reply_of (ok', t)) \<le> max_reply_bytes" using r by (auto simp: read_reply_def split: if_splits)
  from reply_read_back [OF this] read r have same: "ok' = ok" by simp
  show ?thesis using eff unfolding read(2) same .
qed

section \<open>The laws of the daemon\<close>

text \<open>
  Given that a write the kernel does not take changes nothing, and that a value it has once
  reported for a parameter is, when it is taken, what the parameter reads.
\<close>

theorem daemon_keeps_laws:
  assumes "ho_socket ho = daemon_socket ke"
    and "\<And>p v h y h'. ke_write ke p v h = (y, h') \<Longrightarrow> y \<noteq> Daemon.Written \<Longrightarrow> h' = h"
    and "\<And>key v h0 h h'. read_sysctl (ho_io ho) key h0 = Some v \<Longrightarrow>
      ke_write ke (daemon_sysctl_path key) v h = (Daemon.Written, h') \<Longrightarrow> read_sysctl (ho_io ho) key h' = Some v"
  shows "daemon_laws ho socket"
  unfolding daemon_laws_def assms(1)
proof (intro conjI allI impI)
  fix key v h e h'
  assume "helper_call (daemon_socket ke) socket ''SYSCTL_SET'' [key, v] h = (Inr (False, e), h')"
  from set_call_effect [OF this] assms(2) have "h' = h" by auto
  then show "read_sysctl (ho_io ho) key h' = read_sysctl (ho_io ho) key h" by simp
next
  fix key v h0 h e h'
  assume r: "read_sysctl (ho_io ho) key h0 = Some v"
    and c: "helper_call (daemon_socket ke) socket ''SYSCTL_SET'' [key, v] h = (Inr (True, e), h')"
  from set_call_effect [OF c] have "ke_write ke (daemon_sysctl_path key) v h = (Daemon.Written, h')" by simp
  then show "read_sysctl (ho_io ho) key h' = Some v" by (rule assms(3) [OF r])
qed

end
