(* ===== verification/Schemas.thy ===== *)
theory Schemas
  imports Service_Props Console
begin

text \<open>
  The parameter classes of the built-in tools and the bodies of \<open>api/schemas.py\<close>: what a model or a client may pass.  Pydantic
  checks the fields in their order; how it converts a JSON value to the type of a field, and its texts, are
  parameters.  The length of a text counts the characters of the model.
\<close>

section \<open>Fields\<close>

datatype field_type = Text_type | Email_type | Int_type | Real_type | Optional_real | Bool_type | Conditions_type

datatype field_rule = Min_length nat | Max_length nat | One_of "string list" | At_least real | Above real | At_most real

record class_field =
  fd_name :: string
  fd_type :: field_type
  fd_rules :: "field_rule list"
  fd_default :: "json option"

definition needed :: "string \<Rightarrow> field_type \<Rightarrow> field_rule list \<Rightarrow> class_field" where
  "needed n ty rules = \<lparr>fd_name = n, fd_type = ty, fd_rules = rules, fd_default = None\<rparr>"

definition with_default :: "string \<Rightarrow> field_type \<Rightarrow> field_rule list \<Rightarrow> json \<Rightarrow> class_field" where
  "with_default n ty rules v = \<lparr>fd_name = n, fd_type = ty, fd_rules = rules, fd_default = Some v\<rparr>"

text \<open>Conversions give the value or the text of the issue; those of a condition list name where in the list it is.\<close>

record coercions =
  co_text :: "json \<Rightarrow> string + string"
  co_email :: "json \<Rightarrow> string + string"
  co_int :: "json \<Rightarrow> string + int"
  co_real :: "json \<Rightarrow> string + real"
  co_bool :: "json \<Rightarrow> string + bool"
  co_conditions :: "json \<Rightarrow> (string \<times> string) list + json list"
  co_missing :: string
  co_broken :: "field_rule \<Rightarrow> string"

definition converted :: "coercions \<Rightarrow> field_type \<Rightarrow> json \<Rightarrow> (string \<times> string) list + json" where
  "converted co ty v =
     (case ty of
        Text_type \<Rightarrow> (case co_text co v of Inl msg \<Rightarrow> Inl [([], msg)] | Inr t \<Rightarrow> Inr (JStr t))
      | Email_type \<Rightarrow> (case co_email co v of Inl msg \<Rightarrow> Inl [([], msg)] | Inr t \<Rightarrow> Inr (JStr t))
      | Int_type \<Rightarrow> (case co_int co v of Inl msg \<Rightarrow> Inl [([], msg)] | Inr i \<Rightarrow> Inr (JInt i))
      | Real_type \<Rightarrow> (case co_real co v of Inl msg \<Rightarrow> Inl [([], msg)] | Inr x \<Rightarrow> Inr (JReal x))
      | Optional_real \<Rightarrow>
          if v = JNull then Inr JNull else (case co_real co v of Inl msg \<Rightarrow> Inl [([], msg)] | Inr x \<Rightarrow> Inr (JReal x))
      | Bool_type \<Rightarrow> (case co_bool co v of Inl msg \<Rightarrow> Inl [([], msg)] | Inr b \<Rightarrow> Inr (JBool b))
      | Conditions_type \<Rightarrow> (case co_conditions co v of Inl issues \<Rightarrow> Inl issues | Inr cs \<Rightarrow> Inr (JList cs)))"

definition number_of :: "json \<Rightarrow> real option" where
  "number_of v = (case v of JInt i \<Rightarrow> Some (of_int i) | JReal x \<Rightarrow> Some x | _ \<Rightarrow> None)"

fun rule_holds :: "json \<Rightarrow> field_rule \<Rightarrow> bool" where
  "rule_holds v (Min_length n) = (case v of JStr t \<Rightarrow> n \<le> length t | _ \<Rightarrow> True)"
| "rule_holds v (Max_length n) = (case v of JStr t \<Rightarrow> length t \<le> n | _ \<Rightarrow> True)"
| "rule_holds v (One_of ts) = (case v of JStr t \<Rightarrow> t \<in> set ts | _ \<Rightarrow> True)"
| "rule_holds v (At_least b) = (case number_of v of Some x \<Rightarrow> b \<le> x | None \<Rightarrow> True)"
| "rule_holds v (Above b) = (case number_of v of Some x \<Rightarrow> b < x | None \<Rightarrow> True)"
| "rule_holds v (At_most b) = (case number_of v of Some x \<Rightarrow> x \<le> b | None \<Rightarrow> True)"

text \<open>A value that is not there is the default, unchecked, or an issue; the first rule that is broken is the issue of a field.\<close>

definition field_value :: "coercions \<Rightarrow> class_field \<Rightarrow> json_dict \<Rightarrow> (string \<times> string) list + json" where
  "field_value co f args =
     (case map_of args (fd_name f) of
        None \<Rightarrow> (case fd_default f of None \<Rightarrow> Inl [([], co_missing co)] | Some v \<Rightarrow> Inr v)
      | Some raw \<Rightarrow>
          (case converted co (fd_type f) raw of
             Inl issues \<Rightarrow> Inl issues
           | Inr v \<Rightarrow>
               (case find (\<lambda>r. \<not> rule_holds v r) (fd_rules f) of
                  Some r \<Rightarrow> Inl [([], co_broken co r)]
                | None \<Rightarrow> Inr v)))"

text \<open>An issue with its place, as the executor prints it.\<close>

definition issue_text :: "class_field \<Rightarrow> string \<times> string \<Rightarrow> string" where
  "issue_text f x =
     (case x of (place, msg) \<Rightarrow> fd_name f @ (if place = [] then [] else CHR ''.'' # place) @ '': '' @ msg)"

definition issues_of :: "class_field \<Rightarrow> (string \<times> string) list + json \<Rightarrow> string list" where
  "issues_of f r = (case r of Inl issues \<Rightarrow> map (issue_text f) issues | Inr v \<Rightarrow> [])"

text \<open>\<open>model_validate\<close>: every field is looked at; what else was passed is ignored.\<close>

definition model_validate :: "coercions \<Rightarrow> class_field list \<Rightarrow> json_dict \<Rightarrow> string list + json_dict" where
  "model_validate co fs args =
     (if list_all (\<lambda>f. case field_value co f args of Inl _ \<Rightarrow> False | Inr _ \<Rightarrow> True) fs
      then Inr (map (\<lambda>f. (fd_name f, case field_value co f args of Inr v \<Rightarrow> v | Inl _ \<Rightarrow> JNull)) fs)
      else Inl (concat (map (\<lambda>f. issues_of f (field_value co f args)) fs)))"

section \<open>The classes of the tools\<close>

definition NoArgs :: "class_field list" where
  "NoArgs = []"

definition ProcessArgs :: "class_field list" where
  "ProcessArgs = [with_default ''limit'' Int_type [At_most 200, At_least 1] (JInt 25),
     with_default ''sort_by'' Text_type [One_of [''rss'', ''pid'']] (JStr ''rss'')]"

definition KernelLogArgs :: "class_field list" where
  "KernelLogArgs = [with_default ''lines'' Int_type [At_most 1000, At_least 1] (JInt 80)]"

definition SysctlReadArgs :: "class_field list" where
  "SysctlReadArgs = [needed ''key'' Text_type []]"

definition SysctlWriteArgs :: "class_field list" where
  "SysctlWriteArgs = [needed ''key'' Text_type [], needed ''value'' Text_type []]"

definition SignalArgs :: "class_field list" where
  "SignalArgs = [needed ''pid'' Int_type [], with_default ''signal'' Int_type [] (JInt 15)]"

definition ServiceArgs :: "class_field list" where
  "ServiceArgs = [needed ''unit'' Text_type [],
     with_default ''action'' Text_type
       [One_of [''status'', ''is-active'', ''is-enabled'', ''show'', ''cat'', ''start'', ''stop'', ''restart'', ''reload'', ''enable'',
          ''disable'']] (JStr ''status'')]"

definition NamespaceArgs :: "class_field list" where
  "NamespaceArgs = [with_default ''pid'' Int_type [At_least 1] (JInt 1)]"

definition GuardedSysctlArgs :: "class_field list" where
  "GuardedSysctlArgs = [needed ''key'' Text_type [], needed ''value'' Text_type [], with_default ''verify'' Conditions_type [] (JList []),
     with_default ''settle_seconds'' Real_type [At_most 60, At_least 0] (JReal 2),
     with_default ''revert_after_seconds'' Optional_real [] JNull]"

definition GuardedServiceArgs :: "class_field list" where
  "GuardedServiceArgs = [needed ''unit'' Text_type [],
     needed ''action'' Text_type [One_of [''start'', ''stop'', ''restart'', ''reload'', ''enable'', ''disable'']],
     with_default ''verify'' Conditions_type [] (JList []),
     with_default ''settle_seconds'' Real_type [At_most 60, At_least 0] (JReal 3),
     with_default ''revert_after_seconds'' Optional_real [] JNull]"

definition ChangeListArgs :: "class_field list" where
  "ChangeListArgs = [with_default ''this_run_only'' Bool_type [] (JBool True)]"

definition ChangeIdArgs :: "class_field list" where
  "ChangeIdArgs = [needed ''change_id'' Text_type []]"

definition PatchArgs :: "class_field list" where
  "PatchArgs = [needed ''path'' Text_type [], needed ''find'' Text_type [Min_length 1], needed ''replace'' Text_type []]"

definition DelegateArgs :: "class_field list" where
  "DelegateArgs = [needed ''agent'' Text_type [], needed ''goal'' Text_type [Min_length 5]]"

definition ReadArgs :: "class_field list" where
  "ReadArgs = [needed ''path'' Text_type [], with_default ''offset'' Int_type [At_least 0] (JInt 0)]"

definition WriteArgs :: "class_field list" where
  "WriteArgs = [needed ''path'' Text_type [], needed ''content'' Text_type []]"

definition ListArgs :: "class_field list" where
  "ListArgs = [with_default ''path'' Text_type [] (JStr ''.'')]"

definition DiffArgs :: "class_field list" where
  "DiffArgs = [with_default ''ref'' Text_type [] (JStr [])]"

definition CommitArgs :: "class_field list" where
  "CommitArgs = [needed ''message'' Text_type [Min_length 3], with_default ''add_all'' Bool_type [] (JBool True)]"

definition SearchArgs :: "class_field list" where
  "SearchArgs = [needed ''query'' Text_type [Min_length 2]]"

definition RememberArgs :: "class_field list" where
  "RememberArgs = [needed ''note'' Text_type [Min_length 3], with_default ''importance'' Real_type [At_most 1, At_least 0] (JReal (1 / 2))]"

definition ShellArgs :: "class_field list" where
  "ShellArgs = [needed ''command'' Text_type [], with_default ''timeout_seconds'' Real_type [At_most 600, Above 0] (JReal 60)]"

definition FetchArgs :: "class_field list" where
  "FetchArgs = [needed ''url'' Text_type [], with_default ''method'' Text_type [One_of [''GET'', ''HEAD'']] (JStr ''GET'')]"

definition BrowseArgs :: "class_field list" where
  "BrowseArgs = [needed ''url'' Text_type []]"

text \<open>The classes by the names that the registrations use for them.\<close>

definition param_classes :: "(string \<times> class_field list) list" where
  "param_classes =
     [(''fs.ReadArgs'', ReadArgs), (''fs.WriteArgs'', WriteArgs), (''fs.ListArgs'', ListArgs), (''shell.ShellArgs'', ShellArgs),
      (''git.NoArgs'', NoArgs), (''git.DiffArgs'', DiffArgs), (''git.CommitArgs'', CommitArgs), (''web.FetchArgs'', FetchArgs),
      (''web.BrowseArgs'', BrowseArgs), (''recall.SearchArgs'', SearchArgs), (''recall.RememberArgs'', RememberArgs),
      (''system.NoArgs'', NoArgs), (''system.ProcessArgs'', ProcessArgs), (''system.KernelLogArgs'', KernelLogArgs),
      (''system.SysctlReadArgs'', SysctlReadArgs), (''system.NamespaceArgs'', NamespaceArgs), (''system.SysctlWriteArgs'', SysctlWriteArgs),
      (''system.SignalArgs'', SignalArgs), (''system.ServiceArgs'', ServiceArgs), (''change.GuardedSysctlArgs'', GuardedSysctlArgs),
      (''change.GuardedServiceArgs'', GuardedServiceArgs), (''change.ChangeListArgs'', ChangeListArgs), (''change.ChangeIdArgs'', ChangeIdArgs),
      (''code.PatchArgs'', PatchArgs), (''delegate.DelegateArgs'', DelegateArgs)]"

definition validate_class :: "coercions \<Rightarrow> string \<Rightarrow> json_dict \<Rightarrow> string list + json_dict" where
  "validate_class co name args =
     (case map_of param_classes name of None \<Rightarrow> Inl [] | Some fs \<Rightarrow> model_validate co fs args)"

section \<open>Bodies of requests\<close>

definition RegisterRequest :: "class_field list" where
  "RegisterRequest = [needed ''email'' Email_type [], needed ''password'' Text_type [Max_length 128, Min_length 8],
     needed ''display_name'' Text_type [Max_length 120, Min_length 1]]"

definition LoginRequest :: "class_field list" where
  "LoginRequest = [needed ''email'' Email_type [], needed ''password'' Text_type []]"

definition SessionCreate :: "class_field list" where
  "SessionCreate = [needed ''agent_profile_id'' Text_type [], with_default ''title'' Text_type [] (JStr ''New session'')]"

definition ApprovalDecision :: "class_field list" where
  "ApprovalDecision = [needed ''approved'' Bool_type []]"

definition DocumentIn :: "class_field list" where
  "DocumentIn = [needed ''title'' Text_type [Max_length 300, Min_length 1], needed ''text'' Text_type [Min_length 1],
     with_default ''source'' Text_type [] (JStr ''upload'')]"

definition request_classes :: "class_field list list" where
  "request_classes = [RegisterRequest, LoginRequest, SessionCreate, ApprovalDecision, DocumentIn]"

text \<open>A body that is not an object, or does not fit, is answered with 422 before the handler runs.\<close>

definition with_body :: "coercions \<Rightarrow> class_field list \<Rightarrow> json \<Rightarrow> (json_dict \<Rightarrow> ('r, 'w) handler) \<Rightarrow> ('r, 'w) handler" where
  "with_body co fs body h s =
     (case body of
        JObj args \<Rightarrow> (case model_validate co fs args of Inl _ \<Rightarrow> (Inl unprocessable, s) | Inr vs \<Rightarrow> h vs s)
      | _ \<Rightarrow> (Inl unprocessable, s))"

definition register_request ::
  "coercions \<Rightarrow> access_env \<Rightarrow> string \<Rightarrow> json \<Rightarrow> (token_response, 'w) handler" where
  "register_request co env salt body =
     with_body co RegisterRequest body
       (\<lambda>a. register_user env salt (str_arg ''email'' a) (str_arg ''password'' a) (str_arg ''display_name'' a))"

definition login_request :: "coercions \<Rightarrow> access_env \<Rightarrow> json \<Rightarrow> (token_response, 'w) handler" where
  "login_request co env body = with_body co LoginRequest body (\<lambda>a. login env (str_arg ''email'' a) (str_arg ''password'' a))"

section \<open>What is accepted\<close>

text \<open>A value of the type of its field, within the rules of the field.\<close>

definition has_type :: "field_type \<Rightarrow> json \<Rightarrow> bool" where
  "has_type ty v =
     (case v of
        JStr t \<Rightarrow> ty = Text_type \<or> ty = Email_type
      | JInt i \<Rightarrow> ty = Int_type
      | JReal x \<Rightarrow> ty = Real_type \<or> ty = Optional_real
      | JBool b \<Rightarrow> ty = Bool_type
      | JNull \<Rightarrow> ty = Optional_real
      | JList xs \<Rightarrow> ty = Conditions_type
      | JObj d \<Rightarrow> False)"

definition field_fits :: "class_field \<Rightarrow> json \<Rightarrow> bool" where
  "field_fits f v = (has_type (fd_type f) v \<and> list_all (rule_holds v) (fd_rules f))"

definition args_fit :: "class_field list \<Rightarrow> json_dict \<Rightarrow> bool" where
  "args_fit fs args = (map fst args = map fd_name fs \<and> list_all2 field_fits fs (map snd args))"

definition class_wf :: "class_field list \<Rightarrow> bool" where
  "class_wf fs = (distinct (map fd_name fs) \<and>
     list_all (\<lambda>f. case fd_default f of None \<Rightarrow> True | Some v \<Rightarrow> field_fits f v) fs)"

lemmas class_defs = NoArgs_def ProcessArgs_def KernelLogArgs_def SysctlReadArgs_def SysctlWriteArgs_def SignalArgs_def ServiceArgs_def
  NamespaceArgs_def GuardedSysctlArgs_def GuardedServiceArgs_def ChangeListArgs_def ChangeIdArgs_def PatchArgs_def DelegateArgs_def
  ReadArgs_def WriteArgs_def ListArgs_def DiffArgs_def CommitArgs_def SearchArgs_def RememberArgs_def ShellArgs_def FetchArgs_def
  BrowseArgs_def

lemmas request_defs = RegisterRequest_def LoginRequest_def SessionCreate_def ApprovalDecision_def DocumentIn_def

lemmas field_defs = needed_def with_default_def field_fits_def has_type_def number_of_def

text \<open>The defaults, which nothing checks when the program runs, are within the rules.\<close>

lemma classes_wf: "list_all (\<lambda>(n, fs). class_wf fs) param_classes" "list_all class_wf request_classes"
  by (simp_all add: param_classes_def class_defs request_classes_def request_defs class_wf_def field_defs)

lemma converted_type: "converted co ty v = Inr w \<Longrightarrow> has_type ty w"
  by (auto simp: converted_def has_type_def split: field_type.splits sum.splits if_splits)

lemma field_value_fits:
  assumes "field_value co f args = Inr v" and "case fd_default f of None \<Rightarrow> True | Some d \<Rightarrow> field_fits f d"
  shows "field_fits f v"
proof (cases "map_of args (fd_name f)")
  case None
  then show ?thesis using assms by (simp add: field_value_def split: option.splits)
next
  case (Some raw)
  then obtain w where "converted co (fd_type f) raw = Inr w" "find (\<lambda>r. \<not> rule_holds w r) (fd_rules f) = None" "v = w"
    using assms(1) by (auto simp: field_value_def split: sum.splits option.splits)
  then show ?thesis using converted_type by (auto simp: field_fits_def list_all_iff find_None_iff)
qed

lemma validated_fits:
  assumes "model_validate co fs args = Inr vs" and "class_wf fs"
  shows "args_fit fs vs"
proof -
  have ok: "list_all (\<lambda>f. case field_value co f args of Inl _ \<Rightarrow> False | Inr _ \<Rightarrow> True) fs"
    and vs: "vs = map (\<lambda>f. (fd_name f, case field_value co f args of Inr v \<Rightarrow> v | Inl _ \<Rightarrow> JNull)) fs"
    using assms(1) by (auto simp: model_validate_def split: if_splits)
  have "field_fits f (case field_value co f args of Inr v \<Rightarrow> v | Inl _ \<Rightarrow> JNull)" if member: "f \<in> set fs" for f
  proof -
    obtain v where v: "field_value co f args = Inr v"
      using ok member by (cases "field_value co f args") (auto simp: list_all_iff split: sum.splits)
    have "case fd_default f of None \<Rightarrow> True | Some d \<Rightarrow> field_fits f d"
      using assms(2) member by (auto simp: class_wf_def list_all_iff)
    then show ?thesis using field_value_fits [OF v] v by simp
  qed
  then show ?thesis unfolding vs by (simp add: args_fit_def comp_def list_all2_map2 list.rel_refl_strong)
qed

lemma args_fit_field:
  assumes "args_fit fs vs" and "class_wf fs" and "f \<in> set fs"
  shows "\<exists>v. map_of vs (fd_name f) = Some v \<and> field_fits f v"
proof -
  obtain i where i: "i < length fs" "fs ! i = f" using assms(3) by (auto simp: in_set_conv_nth)
  have names: "map fst vs = map fd_name fs" and fits: "list_all2 field_fits fs (map snd vs)"
    using assms(1) by (simp_all add: args_fit_def)
  have n: "length vs = length fs" using arg_cong [OF names, of length] by simp
  have "fst (vs ! i) = fd_name f" using arg_cong [OF names, of "\<lambda>xs. xs ! i"] i n by simp
  then have "(fd_name f, snd (vs ! i)) \<in> set vs" using i n by (metis nth_mem prod.collapse)
  moreover have "distinct (map fst vs)" using assms(2) unfolding names class_wf_def by simp
  ultimately have "map_of vs (fd_name f) = Some (snd (vs ! i))" by (simp add: map_of_is_SomeI)
  moreover have "field_fits f (snd (vs ! i))" using list_all2_nthD [OF fits i(1)] i n by simp
  ultimately show ?thesis by blast
qed

text \<open>The class each built-in tool takes its arguments from.\<close>

definition tool_classes :: "(string \<times> string) list" where
  "tool_classes =
     [(''fs.read'', ''fs.ReadArgs''), (''fs.write'', ''fs.WriteArgs''), (''fs.list'', ''fs.ListArgs''), (''shell.run'', ''shell.ShellArgs''),
      (''git.status'', ''git.NoArgs''), (''git.diff'', ''git.DiffArgs''), (''git.log'', ''git.NoArgs''), (''git.commit'', ''git.CommitArgs''),
      (''http.fetch'', ''web.FetchArgs''), (''browser.open'', ''web.BrowseArgs''), (''knowledge.search'', ''recall.SearchArgs''),
      (''memory.save'', ''recall.RememberArgs''), (''memory.search'', ''recall.SearchArgs''), (''system.kernel'', ''system.NoArgs''),
      (''system.resources'', ''system.NoArgs''), (''system.processes'', ''system.ProcessArgs''), (''system.modules'', ''system.NoArgs''),
      (''system.kernel_log'', ''system.KernelLogArgs''), (''system.sysctl'', ''system.SysctlReadArgs''),
      (''system.namespaces'', ''system.NamespaceArgs''), (''system.sockets'', ''system.NoArgs''),
      (''system.sysctl_set'', ''system.SysctlWriteArgs''), (''system.signal'', ''system.SignalArgs''), (''system.service'', ''system.ServiceArgs''),
      (''change.sysctl'', ''change.GuardedSysctlArgs''), (''change.service'', ''change.GuardedServiceArgs''),
      (''change.list'', ''change.ChangeListArgs''), (''change.revert'', ''change.ChangeIdArgs''), (''change.confirm'', ''change.ChangeIdArgs''),
      (''code.patch'', ''code.PatchArgs''), (''agent.delegate'', ''delegate.DelegateArgs'')]"

definition fields_of_tool :: "string \<Rightarrow> class_field list" where
  "fields_of_tool name =
     (case map_of tool_classes name of None \<Rightarrow> []
      | Some c \<Rightarrow> (case map_of param_classes c of None \<Rightarrow> [] | Some fs \<Rightarrow> fs))"

definition class_known :: "'v platform \<Rightarrow> ('v state) tool \<Rightarrow> bool" where
  "class_known pl t = (\<exists>c. ts_validate (tl_spec t) = pl_validate pl c \<and> map_of tool_classes (ts_name (tl_spec t)) = Some c \<and>
     c \<in> fst ` set param_classes)"

lemma known_spec:
  assumes "map_of tool_classes name = Some c" and "list_ex (\<lambda>(n, fs). n = c) param_classes"
  shows "class_known pl (prompt_tool (spec_of pl name d c approval timeout) body)"
    "class_known pl (waiting_tool pl (spec_of pl name d c approval timeout) body)"
  using assms by (force simp: class_known_def prompt_tool_def waiting_tool_def spec_of_def list_ex_iff)+

lemma known_tools:
  "list_all (class_known pl) (fs_tools pl)" "list_all (class_known pl) (shell_tools pl)" "list_all (class_known pl) (git_tools pl)"
  "list_all (class_known pl) (web_tools pl)" "list_all (class_known pl) (recall_tools pl sv)"
  "list_all (class_known pl) (system_read_tools pl p)" "list_all (class_known pl) (system_write_tools pl p)"
  "list_all (class_known pl) (change_tools pl p)" "list_all (class_known pl) (code_tools pl)" "list_all (class_known pl) (delegate_tools pl)"
  by (simp_all only: fs_tools_def shell_tools_def git_tools_def web_tools_def recall_tools_def system_read_tools_def
      system_write_tools_def change_tools_def code_tools_def delegate_tools_def Let_def list.pred_inject)
    (intro conjI known_spec TrueI; code_simp)+

lemma builtin_validates:
  assumes "t \<in> set (builtin_tools pl sv p)" and "pl_validate pl = validate_class co"
  shows "ts_validate (tl_spec t) args = model_validate co (fields_of_tool (ts_name (tl_spec t))) args"
proof -
  have "list_all (class_known pl) (builtin_tools pl sv p)" by (simp add: builtin_tools_def known_tools)
  then have "class_known pl t" using assms(1) by (simp add: list_all_iff)
  then obtain c where c: "ts_validate (tl_spec t) = validate_class co c" "map_of tool_classes (ts_name (tl_spec t)) = Some c"
    "c \<in> fst ` set param_classes" using assms(2) by (auto simp: class_known_def)
  then obtain fs where "map_of param_classes c = Some fs" by (cases "map_of param_classes c") (auto simp: map_of_eq_None_iff)
  then show ?thesis using c by (simp add: fields_of_tool_def validate_class_def)
qed

lemma fields_of_tool_wf: "class_wf (fields_of_tool name)"
proof -
  have "class_wf fs" if "map_of param_classes c = Some fs" for c fs
    using classes_wf(1) map_of_SomeD [OF that] by (auto simp: list_all_iff)
  moreover have "class_wf []" by (simp add: class_wf_def)
  ultimately show ?thesis by (auto simp: fields_of_tool_def split: option.splits)
qed

text \<open>C40.  Whatever a model passes to a built-in tool, the body of the tool only ever sees arguments of its class: every field is there,
  has its type and is within its rules, defaults included.  All else is answered with the issues and leaves no trace.\<close>

theorem tools_see_fitting_arguments:
  assumes "pl_validate pl = validate_class co" and "t \<in> set (builtin_tools pl sv p)"
    and "get_tool (ex_registry ex) (iv_tool_name call) = Some t"
  shows "(\<exists>r. execute ex call ctx grants approved s = (r, s) \<and> (\<exists>pending msg. r = Inl pending \<or> r = Inr (failure msg []))) \<or>
     (\<exists>args. args_fit (fields_of_tool (ts_name (tl_spec t))) args \<and>
        snd (execute ex call ctx grants approved s) = snd (tl_run t args ctx (timeout_of ex t) s))"
proof (cases "ts_validate (tl_spec t) (iv_arguments call)")
  case (Inl issues)
  then show ?thesis using assms(3) by (auto simp: execute_def Let_def)
next
  case (Inr args)
  then have "args_fit (fields_of_tool (ts_name (tl_spec t))) args"
    using builtin_validates [OF assms(2,1)] validated_fits fields_of_tool_wf by metis
  moreover have "snd (tl_run t args ctx (timeout_of ex t) s) = snd (execute ex call ctx grants approved s)"
    if "is_granted (iv_tool_name call) grants (ex_registry ex)" "\<not> (needs_approval ex t \<and> \<not> approved)"
    using that assms(3) Inr by (auto simp: execute_def Let_def split: prod.splits tool_run.splits)
  moreover have "\<exists>r. execute ex call ctx grants approved s = (r, s) \<and> (\<exists>pending msg. r = Inl pending \<or> r = Inr (failure msg []))"
    if "\<not> is_granted (iv_tool_name call) grants (ex_registry ex) \<or> needs_approval ex t \<and> \<not> approved"
    using that assms(3) Inr by (auto simp: execute_def Let_def)
  ultimately show ?thesis by metis
qed

text \<open>Conversions that take values of the right type only.\<close>

definition strict :: coercions where
  "strict =
     \<lparr>co_text = (\<lambda>v. case v of JStr t \<Rightarrow> Inr t | _ \<Rightarrow> Inl ''Input should be a valid string''),
      co_email = (\<lambda>v. case v of JStr t \<Rightarrow> if CHR ''@'' \<in> set t then Inr t else Inl ''not an email'' | _ \<Rightarrow> Inl ''not a string''),
      co_int = (\<lambda>v. case v of JInt i \<Rightarrow> Inr i | _ \<Rightarrow> Inl ''Input should be a valid integer''),
      co_real = (\<lambda>v. case v of JReal x \<Rightarrow> Inr x | JInt i \<Rightarrow> Inr (of_int i) | _ \<Rightarrow> Inl ''Input should be a valid number''),
      co_bool = (\<lambda>v. case v of JBool b \<Rightarrow> Inr b | _ \<Rightarrow> Inl ''Input should be a valid boolean''),
      co_conditions = (\<lambda>v. case v of JList xs \<Rightarrow> Inr xs | _ \<Rightarrow> Inl [([], ''Input should be a valid list'')]),
      co_missing = ''Field required'', co_broken = (\<lambda>r. ''out of range'')\<rparr>"

definition strict_platform :: "nat platform" where
  "strict_platform = bench_platform\<lparr>pl_validate := validate_class strict\<rparr>"

definition patch_executor :: "(nat state) executor" where
  "patch_executor = \<lparr>ex_registry = [(''code.patch'', hd (code_tools strict_platform))], ex_default_timeout = 60, ex_force_approval = []\<rparr>"

definition patch_call :: tool_invocation where
  "patch_call = \<lparr>iv_call_id = ''c1'', iv_tool_name = ''code.patch'',
     iv_arguments = [(''path'', JStr ''a.txt''), (''find'', JStr ''x''), (''replace'', JStr []), (''more'', JInt 3)]\<rparr>"

text \<open>An argument that is not declared is dropped, and a text to find that is empty is refused.\<close>

lemma patch_arguments:
  "validate_class strict ''code.PatchArgs'' (iv_arguments patch_call) =
     Inr [(''path'', JStr ''a.txt''), (''find'', JStr ''x''), (''replace'', JStr [])]"
  "validate_class strict ''code.PatchArgs'' [(''path'', JStr ''a.txt''), (''find'', JStr [])] =
     Inl [''find: out of range'', ''replace: Field required'']"
  by (simp_all add: validate_class_def param_classes_def PatchArgs_def needed_def model_validate_def field_value_def converted_def
      strict_def patch_call_def issues_of_def issue_text_def)

definition patch_ctx :: "(nat state) tool_context" where
  "patch_ctx = tool_ctx demo_services (\<lambda>snap. delegate_at (\<lambda>d k s. (None, s)) 0 snap) demo_snap"

theorem tools_see_fitting_arguments_witness:
  "(\<exists>r. execute patch_executor patch_call patch_ctx [''*''] False (demo_state [] Queued) = (r, demo_state [] Queued) \<and>
      (\<exists>pending msg. r = Inl pending \<or> r = Inr (failure msg []))) \<or>
   (\<exists>args. args_fit PatchArgs args \<and> snd (execute patch_executor patch_call patch_ctx [''*''] False (demo_state [] Queued)) =
      snd (tl_run (hd (code_tools strict_platform)) args patch_ctx 60 (demo_state [] Queued)))"
proof -
  let ?t = "hd (code_tools strict_platform)"
  have name: "ts_name (tl_spec ?t) = ''code.patch''" and timeout: "timeout_of patch_executor ?t = 60"
    by (simp_all add: code_tools_def prompt_tool_def spec_of_def timeout_of_def patch_executor_def)
  have "?t \<in> set (builtin_tools strict_platform demo_services (settings_policy open_settings))"
    by (simp add: builtin_tools_def code_tools_def)
  moreover have "get_tool (ex_registry patch_executor) (iv_tool_name patch_call) = Some ?t"
    by (simp add: get_tool_def patch_executor_def patch_call_def)
  moreover have "pl_validate strict_platform = validate_class strict" by (simp add: strict_platform_def)
  moreover have "fields_of_tool ''code.patch'' = PatchArgs" by (simp add: fields_of_tool_def tool_classes_def param_classes_def)
  ultimately show ?thesis
    using tools_see_fitting_arguments [of strict_platform strict ?t demo_services "settings_policy open_settings" patch_executor patch_call patch_ctx
        "[''*'']" False "demo_state [] Queued"] name timeout by simp
qed

section \<open>What is bounded by it\<close>

lemma int_arg_fits:
  assumes "args_fit fs args" and "class_wf fs" and "f \<in> set fs" and "fd_type f = Int_type" and "At_most (of_int b) \<in> set (fd_rules f)"
  shows "int_arg (fd_name f) args \<le> b"
proof -
  obtain v where v: "map_of args (fd_name f) = Some v" "field_fits f v" using args_fit_field [OF assms(1-3)] by blast
  then obtain i where "v = JInt i" using assms(4) by (cases v) (simp_all add: field_fits_def has_type_def)
  then show ?thesis using v assms(5) by (auto simp: field_fits_def list_all_iff number_of_def int_arg_def)
qed

lemma text_arg_fits:
  assumes "args_fit fs args" and "class_wf fs" and "f \<in> set fs" and "fd_type f = Text_type"
  shows "map_of args (fd_name f) = Some (JStr (str_arg (fd_name f) args)) \<and> list_all (rule_holds (JStr (str_arg (fd_name f) args))) (fd_rules f)"
proof -
  obtain v where v: "map_of args (fd_name f) = Some v" "field_fits f v" using args_fit_field [OF assms(1-3)] by blast
  then obtain t where "v = JStr t" using assms(4) by (cases v) (simp_all add: field_fits_def has_type_def)
  then show ?thesis using v by (simp add: field_fits_def str_arg_def)
qed

definition processes_spec :: "'v platform \<Rightarrow> tool_spec" where
  "processes_spec pl =
     spec_of pl ''system.processes'' ''Process table read from /proc, sorted by memory or pid.'' ''system.ProcessArgs'' False None"

lemma processes_only:
  "filter (\<lambda>t. ts_name (tl_spec t) = ''system.processes'') (builtin_tools pl sv p) =
     [prompt_tool (processes_spec pl)
        (\<lambda>a ctx. processes_tool (ho_io (ge_host (pl_guard pl))) (int_arg ''limit'' a) (str_arg ''sort_by'' a) p)]"
  by (simp add: builtin_tools_def fs_tools_def shell_tools_def git_tools_def web_tools_def recall_tools_def system_read_tools_def
      system_write_tools_def change_tools_def code_tools_def delegate_tools_def Let_def prompt_tool_def waiting_tool_def spec_of_def
      processes_spec_def)

lemma processes_rows:
  assumes "processes_tool io limit sort_by p s = (Finished out, s1)" and "map_of (to_data out) ''processes'' = Some (JList rows)"
    and "limit \<le> 200"
  shows "length rows \<le> 200"
  using assms
  by (auto simp: processes_tool_def read_tool_def list_processes_def disabled_notice_def success_def failure_def
      split: if_splits option.splits)

text \<open>A process table that a model gets to see has at most 200 rows, whatever limit it asks for.\<close>

theorem process_table_bounded:
  assumes "pl_validate pl = validate_class co" and "t \<in> set (builtin_tools pl sv p)" and "ts_name (tl_spec t) = ''system.processes''"
    and "get_tool (ex_registry ex) (iv_tool_name call) = Some t"
  shows "case fst (execute ex call ctx grants approved s) of
      Inr out \<Rightarrow> (case map_of (to_data out) ''processes'' of Some (JList rows) \<Rightarrow> length rows \<le> 200 | _ \<Rightarrow> True)
    | Inl pending \<Rightarrow> True"
proof (cases "ts_validate (tl_spec t) (iv_arguments call)")
  case (Inl issues)
  then show ?thesis using assms(4) by (simp add: execute_def Let_def failure_def)
next
  case (Inr args)
  have "fields_of_tool ''system.processes'' = ProcessArgs" by (simp add: fields_of_tool_def tool_classes_def param_classes_def)
  then have fit: "args_fit ProcessArgs args" and wf: "class_wf ProcessArgs"
    using Inr builtin_validates [OF assms(2,1)] validated_fits fields_of_tool_wf assms(3) by metis+
  then have limit: "int_arg ''limit'' args \<le> 200"
    using int_arg_fits [OF fit wf, of "with_default ''limit'' Int_type [At_most 200, At_least 1] (JInt 25)" 200]
    by (simp add: ProcessArgs_def with_default_def)
  have "t \<in> set (filter (\<lambda>t. ts_name (tl_spec t) = ''system.processes'') (builtin_tools pl sv p))" using assms(2,3) by simp
  then have "tl_run t args ctx timeout s = processes_tool (ho_io (ge_host (pl_guard pl))) (int_arg ''limit'' args) (str_arg ''sort_by'' args) p s"
    for timeout unfolding processes_only by (simp add: prompt_tool_def)
  then show ?thesis using Inr assms(4) processes_rows [OF _ _ limit]
    by (auto simp: execute_def Let_def failure_def split: prod.splits tool_run.splits option.splits json.splits)
qed

text \<open>Nobody is registered with a password of less than eight characters or without a name: such a body is answered with 422 and
  nothing is done.\<close>

theorem registered_body_fits:
  assumes "register_request co env salt body s = (Inr r, s1)"
  shows "\<exists>email password display. register_user env salt email password display s = (Inr r, s1) \<and>
     8 \<le> length password \<and> length password \<le> 128 \<and> 1 \<le> length display \<and> length display \<le> 120"
proof -
  obtain args a where a: "body = JObj args" "model_validate co RegisterRequest args = Inr a"
    and reg: "register_user env salt (str_arg ''email'' a) (str_arg ''password'' a) (str_arg ''display_name'' a) s = (Inr r, s1)"
    using assms by (auto simp: register_request_def with_body_def split: json.splits sum.splits)
  have wf: "class_wf RegisterRequest" using classes_wf(2) by (simp add: request_classes_def)
  note fit = validated_fits [OF a(2) wf]
  have "8 \<le> length (str_arg ''password'' a) \<and> length (str_arg ''password'' a) \<le> 128"
    using text_arg_fits [OF fit wf, of "needed ''password'' Text_type [Max_length 128, Min_length 8]"]
    by (simp add: RegisterRequest_def needed_def)
  moreover have "1 \<le> length (str_arg ''display_name'' a) \<and> length (str_arg ''display_name'' a) \<le> 120"
    using text_arg_fits [OF fit wf, of "needed ''display_name'' Text_type [Max_length 120, Min_length 1]"]
    by (simp add: RegisterRequest_def needed_def)
  ultimately show ?thesis using reg by blast
qed

end
