(* ===== verification/Spec2Isabelle.thy ===== *)
theory Spec2Isabelle
  imports Prelude Store Resilience Routing Tooling Context Runtime Run_Relations Run_Props Generations Utf8 Json Errors Conductor Lifecycle Privileges Helper Probe Host_Ops Conditions Ledger Guard Guard_Props Ledger_Life
    Channels Channel_Props Calendar Scheduler Access Access_Props Knowledge Knowledge_Props Adapters Ingress Ingress_Props Api Console Tenancy Sandbox Sandbox_Props Host_Tools Config Builtins Services Service_Props Vendors Vendor_Props Pagination Bus Worker Render Local Cli Cli_Admin Cli_Props Bridge Window Window_Props
    Fanout Front Market Arguments Daemon Daemon_Props Daemon_Guard Schemas
begin

text \<open>
  HoursX is a server on which language-model agents work for the members of workspaces.  A message of a user (from the HTTP API, a
  messaging channel, a schedule, the command line or the desktop window) becomes a run; a worker drives the run through turns of a
  model and calls of tools; calls that could do harm wait for a human; what is done to the host is recorded, verified and undone
  when it does not hold.  This development models the Python program under \<open>src/hoursx\<close> and the privileged daemon in C++ under
  \<open>native/src\<close>, and proves what makes their parts correct.  All paths below are those of the repository.

  How the parts interact.  A route or a channel calls the conductor (\<open>orchestration.py\<close>), which checks quota and idempotency, plans,
  stores the run and dispatches a job.  The runtime (\<open>agents.py\<close>) claims the run with a conditional update, builds the transcript
  from memory and knowledge, calls the model router, and passes tool calls to the executor, which parks the run when a human must
  decide.  Recovery, the scheduler, the reply dispatcher and the dead-man sweep are crons of the worker.  Host tools go through the
  change guard and its ledger to the host operations, which act directly or send a line to the daemon; both ends classify the
  operation on their own.  Everything that happens is published as an event of its workspace, which sockets, the command line and
  the window subscribe to.

  The state.  The record \<open>sys\<close> of \<open>Store\<close> is what a process shares: the database as a record of tables (\<open>db/models.py\<close>, one record type for each
  table, a table being the list of its rows), the supply of keys, the clock, the log of published events, and a
  component \<open>outside\<close> of arbitrary type that stands for the rest of the world (\<open>backend\<close> puts the queue of jobs there).  An operation of the source is a function of this
  state; a transaction that an exception leaves is rolled back in the database and keeps what it did outside.  Exceptions are values
  of sums or options.  What is not in the repository is an argument of the definitions that use it: the HTTP of the vendors and the
  channels, tool bodies that are not the program's own, the kernel and \<open>systemctl\<close>, the JWT library, PBKDF2, SHA-256, HMAC, blake2b,
  the printing of floats, how pydantic converts a value, MCP clients, plug-in modules, Redis and its queue.  (The reading of a
  command line is modelled as \<open>argparse\<close> of Python 3.11 does it.)  Where a theorem needs something of such an argument, it
  is a named hypothesis, and the witness beside the theorem instantiates it.

  Theories and sources, in the order of the code:

  Foundations.  \<open>Prelude\<close>: Python strings, JSON values, row tables, and the interfaces \<open>single_winner\<close> and \<open>state_machine\<close>.
  \<open>Store\<close>: \<open>db/models.py\<close>, \<open>providers/types.py\<close>, \<open>events.py\<close> (the envelope).  \<open>Json\<close>: the library's \<open>json.dumps\<close>
  and \<open>json.loads\<close>, as the program calls them.  \<open>Utf8\<close>: the library's decoding of bytes, with \<open>errors="replace"\<close>.
  \<open>Errors\<close>: \<open>errors.py\<close>.  \<open>Config\<close>: \<open>config.py\<close>.  \<open>Calendar\<close>: the UTC calendar.

  Models.  \<open>Resilience\<close>: \<open>resilience.py\<close> (retries, circuit breaker).  \<open>Routing\<close>: \<open>providers/router.py\<close>.  \<open>Vendors\<close> and
  \<open>Vendor_Props\<close>: the five adapters of \<open>providers/\<close>, whole and streamed.  \<open>Context\<close>: \<open>prompts.py\<close>, \<open>memory.py\<close>.

  Runs.  \<open>Tooling\<close>: \<open>tools/base.py\<close>, \<open>registry.py\<close>, \<open>executor.py\<close>.  \<open>Runtime\<close>: \<open>agents.py\<close>; \<open>Run_Relations\<close> and \<open>Run_Props\<close>: what a run
  keeps and how it ends.  \<open>Generations\<close>: the tree of runs that delegation makes.  \<open>Conductor\<close>: \<open>quotas.py\<close>, \<open>planning.py\<close>, \<open>orchestration.py\<close>, \<open>recovery.py\<close>.  \<open>Lifecycle\<close>: the interleaving of
  workers, cancellations, sweeps and crashes.  \<open>Worker\<close>: \<open>jobs.py\<close>.  \<open>Scheduler\<close>: \<open>scheduler.py\<close>.  \<open>Bus\<close> and \<open>Fanout\<close>: the buses of
  \<open>events.py\<close> and the socket of \<open>api/routers/ws.py\<close>.

  The host.  \<open>Privileges\<close>, \<open>Helper\<close>, \<open>Probe\<close>, \<open>Host_Ops\<close>: \<open>system/\<close>.  \<open>Daemon\<close> and \<open>Daemon_Props\<close>: \<open>native/src\<close> and its agreement with the
  client.  \<open>Conditions\<close>, \<open>Ledger\<close>, \<open>Guard\<close>: \<open>remediation/\<close>; \<open>Guard_Props\<close> and \<open>Ledger_Life\<close>: the promises and the life cycle of a change;
  \<open>Daemon_Guard\<close>: the daemon keeps the laws that the guard relies on.

  Tools and services.  \<open>Sandbox\<close> and \<open>Sandbox_Props\<close>: the tools of files, code, git and shell over a file system with links.
  \<open>Host_Tools\<close>, \<open>Builtins\<close>: the other modules of \<open>tools/builtin/\<close> and the registration of all;
  \<open>Schemas\<close>: their parameter classes, and bodies of \<open>api/schemas.py\<close>.  \<open>Services\<close>, \<open>Service_Props\<close>, \<open>Market\<close>:
  \<open>sdk/\<close>, \<open>tools/mcp_adapter.py\<close>, \<open>services.py\<close> and the plug-in routes.  \<open>Knowledge\<close>, \<open>Knowledge_Props\<close>: \<open>knowledge.py\<close>, \<open>vectorstore.py\<close>,
  \<open>api/ingest.py\<close>.

  Doors.  \<open>Access\<close>, \<open>Access_Props\<close>: \<open>auth/\<close>, \<open>api/deps.py\<close>, members, keys, \<open>audit.py\<close>.  \<open>Front\<close>: \<open>api/app.py\<close>, \<open>observability.py\<close>.  \<open>Api\<close>,
  \<open>Console\<close>, \<open>Tenancy\<close>: the routes and the isolation of workspaces.  \<open>Pagination\<close>: \<open>pagination.py\<close>.  \<open>Channels\<close>, \<open>Channel_Props\<close>,
  \<open>Adapters\<close>, \<open>Ingress\<close>, \<open>Ingress_Props\<close>: \<open>channels/\<close> and \<open>api/routers/channels.py\<close>.  \<open>Arguments\<close>, \<open>Render\<close>, \<open>Local\<close>, \<open>Cli\<close>, \<open>Cli_Admin\<close>,
  \<open>Cli_Props\<close>: \<open>cli/\<close>.  \<open>Bridge\<close>, \<open>Window\<close>, \<open>Window_Props\<close>: \<open>gui/\<close>.

  The interfaces.  \<open>single_winner\<close> (a conditional update that takes effect once) is interpreted on the claim of a run, the sweep of
  orphaned runs and the claim of an owed reply.  \<open>state_machine\<close> (a step relation with an invariant) on the sequences of
  authenticated requests (every workspace keeps an owner, a revoked key stays revoked), on the life cycle of a change (a reverted or
  confirmed change stays so), on the workers of a deployment and on the window with its engine.  \<open>run_relation\<close> and \<open>run_relation_growing\<close>
  (a relation between states that every step of the runtime respects) on the identity of runs, the well-formedness of keys, the
  supply of keys and the growth of the tree of runs.  \<open>vector_store\<close> on the SQL store of chunks; \<open>line_reader\<close> (a stream whose end records what it
  has shown) on the readers of three vendors.

  What the theorems show.  A run that is executed or resumed ends recorded, within its step budget, on one worker; gated calls wait
  for a human and a denied call is not executed; cancellation, idempotency and quotas hold as documented;
  delegation is two generations deep at most.  A host change that does not hold is put
  back, the ledger refines an abstract life cycle, and what is refused stays refused under every policy; the daemon stays within its
  own policy whatever it is sent, agrees with the client's policy up to named differences, and reads what the client writes; the client reads what it answers, up to bytes that are no UTF-8.
  Workspaces are isolated in both directions, roles are not escalated, forged webhooks do nothing, accepted messages are recorded.
  File tools stay in their directory unless a loop of links is met, and every tool only sees arguments within its declared rules.  Round trips: JSON, requests and replies of the helper, cursors,
  the fan-out of events, index entries, payloads of vendors.

  Where the code does something else than it means to, the model has the behaviour of the code, and the theorem states it or excludes
  it by a hypothesis: for instance that a loop of links leads out of the sandbox, that a pid beyond 32 bits is cut, and that a second
  request for approval hides the first in the window.

  Integers.  Python integers are \<open>int\<close> and sizes that are not negative \<open>nat\<close>; only the daemon has machine integers: \<open>strtol\<close> clamps to 64
  bits and the cast to \<open>pid_t\<close> goes through \<open>32 word\<close>.  Times are instants or reals; scores and vectors are reals.

  Bounds and fuel.  Loops are recursive functions with their measures: the loop of a run by the steps that are left, the resolution
  of a path by the links not yet seen, a connection by the bytes not yet answered, the chat by the lines not yet typed.  Delegation
  recurses on the depth that is left (\<open>execute_at\<close> starts at depth 0 and refuses at \<open>max_delegation_depth\<close>).  The parser of JSON takes a fuel of twice
  the length of the text and one, which the round trip shows to be enough for what is printed.  \<open>follow_pages\<close> takes as fuel the number
  of requests, and the theorem on complete pages shows that a request for each row and one suffices.  The splitting of a reply into messages is a
  \<open>partial_function\<close>, since a limit of zero would loop; a theorem shows that it returns for every positive limit.

  Not modelled.  \<open>db/engine.py\<close> (the unit of work of SQLAlchemy; a transaction is a function of the state), the installation of log
  handlers, CORS and the mounting of routers, the command-line entry points that only start another process, layout and theme of the
  window, the report generator in \<open>scripts/\<close>, the front end in TypeScript, and in the daemon the making of the socket and the
  options of the process.  Of interleaving, what is modelled is that of units of work on the database, of the worker's crons and jobs, of
  publishers and subscribers of the bus, and of the window with its engine; tasks of one loop are otherwise run to their end.  Log
  lines and metrics of the operations are left out, except those of the daemon, which are its audit trail.
\<close>

end
